(* ===== verification/Regex.thy ===== *)
theory Regex imports RustStr begin

text \<open>
  Regular expressions. The program writes its patterns in the syntax of the \<open>regex\<close> crate; here a
  pattern is a term of the datatype \<open>rx\<close> that repeats it construct by construct, \<open>in_lang\<close> is the
  usual language of a regular expression, and \<open>rx_match\<close> is an executable matcher by derivatives.
  \<open>rx_match_iff\<close> proves the two equal. All patterns of the program are anchored at both ends.
\<close>

datatype rx =
    REps
  | RSet "char \<Rightarrow> bool"
  | RSeq rx rx
  | RAlt rx rx
  | RStar rx

inductive in_lang :: "rx \<Rightarrow> string \<Rightarrow> bool" where
  eps: "in_lang REps []"
| chr: "P c \<Longrightarrow> in_lang (RSet P) [c]"
| seq: "in_lang r s \<Longrightarrow> in_lang q t \<Longrightarrow> in_lang (RSeq r q) (s @ t)"
| alt1: "in_lang r s \<Longrightarrow> in_lang (RAlt r q) s"
| alt2: "in_lang q s \<Longrightarrow> in_lang (RAlt r q) s"
| star0: "in_lang (RStar r) []"
| star1: "in_lang r (c # s) \<Longrightarrow> in_lang (RStar r) t \<Longrightarrow> in_lang (RStar r) (c # s @ t)"

inductive_simps in_lang_simps:
  "in_lang REps s" "in_lang (RSet P) s" "in_lang (RSeq r q) s" "in_lang (RAlt r q) s"

inductive_cases star_cases: "in_lang (RStar r) (c # s)"

fun nullable :: "rx \<Rightarrow> bool" where
  "nullable REps = True"
| "nullable (RSet P) = False"
| "nullable (RSeq r q) = (nullable r \<and> nullable q)"
| "nullable (RAlt r q) = (nullable r \<or> nullable q)"
| "nullable (RStar r) = True"

text \<open>The empty language is the class of no character.\<close>

definition RNone :: rx where
  "RNone = RSet (\<lambda>_. False)"

fun deriv :: "char \<Rightarrow> rx \<Rightarrow> rx" where
  "deriv c REps = RNone"
| "deriv c (RSet P) = (if P c then REps else RNone)"
| "deriv c (RSeq r q) =
     (if nullable r then RAlt (RSeq (deriv c r) q) (deriv c q) else RSeq (deriv c r) q)"
| "deriv c (RAlt r q) = RAlt (deriv c r) (deriv c q)"
| "deriv c (RStar r) = RSeq (deriv c r) (RStar r)"

fun rx_match :: "rx \<Rightarrow> string \<Rightarrow> bool" where
  "rx_match r [] = nullable r"
| "rx_match r (c # s) = rx_match (deriv c r) s"

lemma in_lang_RNone [simp]: "\<not> in_lang RNone s"
  by (simp add: RNone_def in_lang_simps)

lemma nullable_iff: "nullable r \<longleftrightarrow> in_lang r []"
  by (induction r) (auto simp: in_lang_simps intro: in_lang.star0)

lemma deriv_iff: "in_lang (deriv c r) s \<longleftrightarrow> in_lang r (c # s)"
proof (induction r arbitrary: s)
  case REps
  then show ?case by (simp add: in_lang_simps)
next
  case (RSet P)
  then show ?case by (auto simp: in_lang_simps)
next
  case (RSeq r q)
  have "in_lang (RSeq r q) (c # s) \<longleftrightarrow>
        (\<exists>u v. s = u @ v \<and> in_lang r (c # u) \<and> in_lang q v) \<or> (in_lang r [] \<and> in_lang q (c # s))"
    by (auto simp: in_lang_simps Cons_eq_append_conv)
  with RSeq show ?case by (auto simp: in_lang_simps nullable_iff)
next
  case (RAlt r q)
  then show ?case by (simp add: in_lang_simps)
next
  case (RStar r)
  show ?case
  proof
    assume "in_lang (deriv c (RStar r)) s"
    then show "in_lang (RStar r) (c # s)"
      using RStar by (auto simp: in_lang_simps intro: in_lang.star1)
  next
    assume "in_lang (RStar r) (c # s)"
    then show "in_lang (deriv c (RStar r)) s"
      using RStar by (auto simp: in_lang_simps elim!: star_cases)
  qed
qed

theorem rx_match_iff: "rx_match r s \<longleftrightarrow> in_lang r s"
  by (induction s arbitrary: r) (auto simp: nullable_iff deriv_iff)

section \<open>Derived constructs\<close>

text \<open>A literal character, the class \<open>\d\<close>, \<open>r{n}\<close>, \<open>r?\<close>, \<open>r+\<close>.\<close>

definition RChar :: "char \<Rightarrow> rx" where
  "RChar c = RSet (\<lambda>x. x = c)"

definition RDigit :: rx where
  "RDigit = RSet is_ascii_digit"

fun RRep :: "nat \<Rightarrow> rx \<Rightarrow> rx" where
  "RRep 0 r = REps"
| "RRep (Suc n) r = RSeq r (RRep n r)"

definition ROpt :: "rx \<Rightarrow> rx" where
  "ROpt r = RAlt r REps"

definition RPlus :: "rx \<Rightarrow> rx" where
  "RPlus r = RSeq r (RStar r)"

lemma in_lang_RStar_RSet: "in_lang (RStar (RSet P)) s \<longleftrightarrow> list_all P s"
proof (induction s)
  case Nil
  then show ?case by (simp add: in_lang.star0)
next
  case (Cons c s)
  show ?case
  proof
    assume "in_lang (RStar (RSet P)) (c # s)"
    then obtain u t where "s = u @ t" "in_lang (RSet P) (c # u)" "in_lang (RStar (RSet P)) t"
      by (rule star_cases)
    then show "list_all P (c # s)" using Cons by (simp add: in_lang_simps)
  next
    assume "list_all P (c # s)"
    then have "in_lang (RSet P) [c]" "in_lang (RStar (RSet P)) s"
      using Cons by (simp_all add: in_lang_simps)
    then show "in_lang (RStar (RSet P)) (c # s)"
      using in_lang.star1 [of "RSet P" c "[]" s] by simp
  qed
qed

lemma in_lang_RRep_RSet: "in_lang (RRep n (RSet P)) s \<longleftrightarrow> length s = n \<and> list_all P s"
proof (induction n arbitrary: s)
  case 0
  then show ?case by (auto simp: in_lang_simps)
next
  case (Suc n)
  have "in_lang (RRep (Suc n) (RSet P)) s \<longleftrightarrow>
        (\<exists>c v. s = c # v \<and> P c \<and> in_lang (RRep n (RSet P)) v)"
    by (simp add: in_lang_simps) (metis append_Cons append_Nil)
  with Suc.IH show ?case by (cases s) auto
qed

end
