(* ===== verification/Json.thy ===== *)
theory Json imports RustStr "HOL-Library.Word" begin

text \<open>
  JSON values as \<open>serde_json::Value\<close> has them. A number is an unsigned 64-bit integer, a negative
  64-bit integer or a double; a double is kept as its bit pattern, which the model never computes
  with. An object is the key-sorted association list that serde_json's map iterates over.
\<close>

datatype number = PosInt nat | NegInt int | Float "64 word"

datatype json =
    JNull
  | JBool bool
  | JNumber number
  | JString string
  | JArray "json list"
  | JObject "(string \<times> json) list"

fun num_is_i64 :: "number \<Rightarrow> bool" where
  "num_is_i64 (PosInt n) \<longleftrightarrow> n \<le> 9223372036854775807"
| "num_is_i64 (NegInt i) \<longleftrightarrow> True"
| "num_is_i64 (Float f) \<longleftrightarrow> False"

fun num_is_u64 :: "number \<Rightarrow> bool" where
  "num_is_u64 (PosInt n) \<longleftrightarrow> True"
| "num_is_u64 _ \<longleftrightarrow> False"

fun num_as_i64 :: "number \<Rightarrow> int option" where
  "num_as_i64 (PosInt n) = (if n \<le> 9223372036854775807 then Some (int n) else None)"
| "num_as_i64 (NegInt i) = Some i"
| "num_as_i64 (Float f) = None"

fun as_str :: "json \<Rightarrow> string option" where
  "as_str (JString s) = Some s"
| "as_str _ = None"

fun as_i64 :: "json \<Rightarrow> int option" where
  "as_i64 (JNumber n) = num_as_i64 n"
| "as_i64 _ = None"

fun as_bool :: "json \<Rightarrow> bool option" where
  "as_bool (JBool b) = Some b"
| "as_bool _ = None"

fun as_array :: "json \<Rightarrow> json list option" where
  "as_array (JArray xs) = Some xs"
| "as_array _ = None"

fun as_object :: "json \<Rightarrow> (string \<times> json) list option" where
  "as_object (JObject kvs) = Some kvs"
| "as_object _ = None"

fun is_null :: "json \<Rightarrow> bool" where
  "is_null JNull \<longleftrightarrow> True"
| "is_null _ \<longleftrightarrow> False"

text \<open>\<open>Value::get\<close> with a string key.\<close>

definition jget :: "json \<Rightarrow> string \<Rightarrow> json option" where
  "jget v k = (case v of JObject kvs \<Rightarrow> map_of kvs k | _ \<Rightarrow> None)"

text \<open>An \<open>i64\<close> as a JSON number.\<close>

definition json_int :: "int \<Rightarrow> json" where
  "json_int i = (if i < 0 then JNumber (NegInt i) else JNumber (PosInt (nat i)))"

definition in_i64 :: "int \<Rightarrow> bool" where
  "in_i64 i \<longleftrightarrow> - 9223372036854775808 \<le> i \<and> i \<le> 9223372036854775807"

lemma as_i64_json_int [simp]: "in_i64 i \<Longrightarrow> as_i64 (json_int i) = Some i"
  by (auto simp: json_int_def in_i64_def)

text \<open>Machine integers as HOL's: arithmetic that wraps around, and the cast \<open>as u32\<close>.\<close>

definition wrap_i64 :: "int \<Rightarrow> int" where
  "wrap_i64 i = (i + 9223372036854775808) mod 18446744073709551616 - 9223372036854775808"

definition wrap_i32 :: "int \<Rightarrow> int" where
  "wrap_i32 i = (i + 2147483648) mod 4294967296 - 2147483648"

definition u32_cast :: "int \<Rightarrow> nat" where
  "u32_cast i = nat (i mod 4294967296)"

lemma wrap_i64_id [simp]: "in_i64 i \<Longrightarrow> wrap_i64 i = i"
  by (simp add: wrap_i64_def in_i64_def)

lemma wrap_i32_id [simp]: "- 2147483648 \<le> i \<Longrightarrow> i \<le> 2147483647 \<Longrightarrow> wrap_i32 i = i"
  by (simp add: wrap_i32_def)

text \<open>The keys of an object are distinct, at every depth: what a parsed value satisfies.\<close>

fun wf_json :: "json \<Rightarrow> bool" where
  "wf_json (JArray xs) \<longleftrightarrow> (\<forall>x \<in> set xs. wf_json x)"
| "wf_json (JObject kvs) \<longleftrightarrow> distinct (map fst kvs) \<and> (\<forall>kv \<in> set kvs. wf_json (snd kv))"
| "wf_json _ \<longleftrightarrow> True"

end
