(* ===== verification/Errors.thy ===== *)
theory Errors imports RustStr begin

text \<open>
  The error type of the program (\<open>src/src/platform/error.rs\<close>) with its HTTP status, its machine
  readable code, its display text and the message that leaves the server.
\<close>

datatype stackhouse_error =
    Database string
  | JsonError string
  | InvalidIdentifier string
  | Schema string
  | ColumnLimitExceeded string
  | TableNotFound string
  | InvalidPayload string
  | MigrationFailed string
  | Internal string
  | Unauthorized string
  | Forbidden string
  | Conflict string
  | NotFound string
  | Storage string
  | RateLimited string
  | Brain string

type_synonym 'a result = "stackhouse_error + 'a"

fun status_code :: "stackhouse_error \<Rightarrow> nat" where
  "status_code (Database _) = 503"
| "status_code (JsonError _) = 400"
| "status_code (InvalidIdentifier _) = 400"
| "status_code (Schema _) = 422"
| "status_code (ColumnLimitExceeded _) = 400"
| "status_code (TableNotFound _) = 404"
| "status_code (InvalidPayload _) = 400"
| "status_code (MigrationFailed _) = 500"
| "status_code (Internal _) = 500"
| "status_code (Unauthorized _) = 401"
| "status_code (Forbidden _) = 403"
| "status_code (Conflict _) = 409"
| "status_code (NotFound _) = 404"
| "status_code (Storage _) = 500"
| "status_code (RateLimited _) = 429"
| "status_code (Brain _) = 500"

fun error_code :: "stackhouse_error \<Rightarrow> string" where
  "error_code (Database _) = ''DATABASE_ERROR''"
| "error_code (JsonError _) = ''JSON_ERROR''"
| "error_code (InvalidIdentifier _) = ''INVALID_IDENTIFIER''"
| "error_code (Schema _) = ''SCHEMA_ERROR''"
| "error_code (ColumnLimitExceeded _) = ''COLUMN_LIMIT_EXCEEDED''"
| "error_code (TableNotFound _) = ''TABLE_NOT_FOUND''"
| "error_code (InvalidPayload _) = ''INVALID_PAYLOAD''"
| "error_code (MigrationFailed _) = ''MIGRATION_FAILED''"
| "error_code (Internal _) = ''INTERNAL_ERROR''"
| "error_code (Unauthorized _) = ''UNAUTHORIZED''"
| "error_code (Forbidden _) = ''FORBIDDEN''"
| "error_code (Conflict _) = ''CONFLICT''"
| "error_code (NotFound _) = ''NOT_FOUND''"
| "error_code (Storage _) = ''STORAGE_ERROR''"
| "error_code (RateLimited _) = ''RATE_LIMITED''"
| "error_code (Brain _) = ''BRAIN_ERROR''"

text \<open>The \<open>Display\<close> text that \<open>thiserror\<close> derives from the attributes of the enum.\<close>

fun error_display :: "stackhouse_error \<Rightarrow> string" where
  "error_display (Database m) = ''Database error: '' @ m"
| "error_display (JsonError m) = ''JSON error: '' @ m"
| "error_display (InvalidIdentifier m) = ''Invalid identifier: '' @ m"
| "error_display (Schema m) = ''Schema error: '' @ m"
| "error_display (ColumnLimitExceeded m) = ''Column limit exceeded: '' @ m"
| "error_display (TableNotFound m) = ''Table not found: '' @ m"
| "error_display (InvalidPayload m) = ''Invalid payload: '' @ m"
| "error_display (MigrationFailed m) = ''Migration failed: '' @ m"
| "error_display (Internal m) = ''Internal error: '' @ m"
| "error_display (Unauthorized m) = ''Unauthorized: '' @ m"
| "error_display (Forbidden m) = ''Forbidden: '' @ m"
| "error_display (Conflict m) = ''Conflict: '' @ m"
| "error_display (NotFound m) = ''Not found: '' @ m"
| "error_display (Storage m) = ''Storage error: '' @ m"
| "error_display (RateLimited m) = ''Rate limited: '' @ m"
| "error_display (Brain m) = m"

text \<open>\<open>into_response\<close>: the status, the code and the message of the response body.\<close>

definition response_message :: "stackhouse_error \<Rightarrow> string" where
  "response_message e =
     (case e of
        Internal _ \<Rightarrow> ''An internal error occurred. Please try again later.''
      | Brain _ \<Rightarrow> ''An internal error occurred. Please try again later.''
      | Database _ \<Rightarrow> ''Service temporarily unavailable. Please try again later.''
      | MigrationFailed _ \<Rightarrow> ''Service temporarily unavailable. Please try again later.''
      | Storage _ \<Rightarrow> ''Storage service error. Please try again later.''
      | _ \<Rightarrow> error_display e)"

record error_response =
  resp_status :: nat
  resp_code :: string
  resp_message :: string

definition into_response :: "stackhouse_error \<Rightarrow> error_response" where
  "into_response e =
     \<lparr>resp_status = status_code e, resp_code = error_code e, resp_message = response_message e\<rparr>"

text \<open>
  Server-side failures leak nothing: two errors that carry a 5xx status and the same
  machine-readable code are answered with the same response, whatever internal text they hold.
\<close>

theorem server_errors_are_opaque:
  "500 \<le> status_code e \<Longrightarrow> error_code e = error_code e' \<Longrightarrow> into_response e = into_response e'"
  by (cases e; cases e') (simp_all add: into_response_def response_message_def)

theorem server_errors_are_opaque_witness:
  "into_response (Database ''password=hunter2'') = into_response (Database ''timeout'')"
  by (rule server_errors_are_opaque) simp_all

end
