(* ===== verification/Inference.thy ===== *)
theory Inference imports Regex Json Errors begin

text \<open>
  The inference engine (\<open>src/src/inference.rs\<close>): PostgreSQL type affinities, promotion between
  them, the type of a JSON value, the columns of one payload and the unified columns of a batch.
\<close>

section \<open>Type affinities\<close>

datatype pg_type =
    BigInt | DoublePrecision | Boolean | Text | Jsonb | Bytea | Null | Date | TimestampTz | Uuid

fun as_sql :: "pg_type \<Rightarrow> string" where
  "as_sql BigInt = ''BIGINT''"
| "as_sql DoublePrecision = ''DOUBLE PRECISION''"
| "as_sql Boolean = ''BOOLEAN''"
| "as_sql Text = ''TEXT''"
| "as_sql Jsonb = ''JSONB''"
| "as_sql Bytea = ''BYTEA''"
| "as_sql Null = ''NULL''"
| "as_sql Date = ''DATE''"
| "as_sql TimestampTz = ''TIMESTAMPTZ''"
| "as_sql Uuid = ''UUID''"

definition from_data_type :: "string \<Rightarrow> pg_type option" where
  "from_data_type data_type =
     (let n = to_lowercase data_type in
      if n \<in> set [''bigint'', ''integer'', ''smallint'', ''int'', ''int2'', ''int4'', ''int8'',
                  ''serial'', ''bigserial''] then Some BigInt
      else if n \<in> set [''double precision'', ''float8'', ''real'', ''float4'', ''numeric'',
                       ''decimal'', ''money''] then Some DoublePrecision
      else if n \<in> set [''boolean'', ''bool''] then Some Boolean
      else if n \<in> set [''text'', ''character varying'', ''varchar'', ''character'', ''char'',
                       ''bpchar'', ''name'', ''citext''] then Some Text
      else if n \<in> set [''jsonb'', ''json''] then Some Jsonb
      else if n = ''bytea'' then Some Bytea
      else if n = ''date'' then Some Date
      else if n \<in> set [''timestamp with time zone'', ''timestamp without time zone'',
                       ''timestamp'', ''timestamptz''] then Some TimestampTz
      else if n = ''uuid'' then Some Uuid
      else None)"

definition can_promote_to :: "pg_type \<Rightarrow> pg_type \<Rightarrow> bool" where
  "can_promote_to a b \<longleftrightarrow>
     a = b \<or> (a = BigInt \<and> b = DoublePrecision) \<or> (a = Date \<and> b = TimestampTz)
     \<or> b = Jsonb \<or> b = Text \<or> a = Null"

definition common_type :: "pg_type \<Rightarrow> pg_type \<Rightarrow> pg_type" where
  "common_type a b =
     (if a = b then a
      else if a = Null then b
      else if b = Null then a
      else if (a = BigInt \<and> b = DoublePrecision) \<or> (a = DoublePrecision \<and> b = BigInt)
        then DoublePrecision
      else if (a = Date \<and> b = TimestampTz) \<or> (a = TimestampTz \<and> b = Date) then TimestampTz
      else Jsonb)"

text \<open>\<open>self.using_cast_expr(source, column)\<close>, with \<open>target\<close> for \<open>self\<close>.\<close>

definition using_cast_expr :: "pg_type \<Rightarrow> pg_type \<Rightarrow> string \<Rightarrow> string" where
  "using_cast_expr target source column =
     (if source = target then column
      else if source = Jsonb \<and> target = Text then column @ '' #>> ARRAY[]::text[]''
      else if target = Jsonb then ''to_jsonb('' @ column @ '')''
      else if target = Text then column @ ''::text''
      else if source = BigInt \<and> target = DoublePrecision then column @ ''::double precision''
      else if source = Jsonb \<and> target \<in> {Date, TimestampTz, Uuid}
        then ''('' @ column @ '' #>> ARRAY[]::text[])::'' @ to_lowercase (as_sql target)
      else column @ ''::'' @ to_lowercase (as_sql target))"

section \<open>The type of a JSON value\<close>

text \<open>The three patterns of the \<open>lazy_static\<close> block.\<close>

definition TIMESTAMP_RE :: rx where
  "TIMESTAMP_RE =
     RSeq (RRep 4 RDigit) (RSeq (RChar CHR ''-'') (RSeq (RRep 2 RDigit) (RSeq (RChar CHR ''-'')
     (RSeq (RRep 2 RDigit) (RSeq (RSet (\<lambda>c. c = CHR ''T'' \<or> c = CHR '' ''))
     (RSeq (RRep 2 RDigit) (RSeq (RChar CHR '':'') (RSeq (RRep 2 RDigit)
     (RSeq (ROpt (RSeq (RChar CHR '':'') (RSeq (RRep 2 RDigit)
              (ROpt (RSeq (RChar CHR ''.'') (RPlus RDigit))))))
           (ROpt (RAlt (RChar CHR ''Z'')
              (RSeq (RSet (\<lambda>c. c = CHR ''+'' \<or> c = CHR ''-''))
                 (RSeq (RRep 2 RDigit) (RSeq (ROpt (RChar CHR '':'')) (RRep 2 RDigit)))))))))))))))"

definition DATE_RE :: rx where
  "DATE_RE =
     RSeq (RRep 4 RDigit) (RSeq (RChar CHR ''-'') (RSeq (RRep 2 RDigit)
     (RSeq (RChar CHR ''-'') (RRep 2 RDigit))))"

definition RHex :: rx where
  "RHex = RSet (\<lambda>c. is_ascii_digit c \<or> c \<in> set ''abcdefABCDEF'')"

definition UUID_RE :: rx where
  "UUID_RE =
     RSeq (RRep 8 RHex) (RSeq (RChar CHR ''-'') (RSeq (RRep 4 RHex) (RSeq (RChar CHR ''-'')
     (RSeq (RRep 4 RHex) (RSeq (RChar CHR ''-'') (RSeq (RRep 4 RHex) (RSeq (RChar CHR ''-'')
     (RRep 12 RHex))))))))"

fun infer_type :: "json \<Rightarrow> pg_type" where
  "infer_type JNull = Null"
| "infer_type (JBool _) = Boolean"
| "infer_type (JNumber n) = (if num_is_i64 n \<or> num_is_u64 n then BigInt else DoublePrecision)"
| "infer_type (JString s) =
     (if rx_match TIMESTAMP_RE s then TimestampTz
      else if rx_match DATE_RE s then Date
      else if rx_match UUID_RE s then Uuid
      else Text)"
| "infer_type (JObject _) = Jsonb"
| "infer_type (JArray _) = Jsonb"

section \<open>Schemas\<close>

record inferred_column =
  col_name :: string
  pg_type :: pg_type
  is_nested :: bool
  is_nullable :: bool

definition new_inferred_column :: "string \<Rightarrow> pg_type \<Rightarrow> bool \<Rightarrow> inferred_column" where
  "new_inferred_column name ty nested =
     \<lparr>col_name = name, pg_type = ty, is_nested = nested, is_nullable = True\<rparr>"

fun is_nested_value :: "json \<Rightarrow> bool" where
  "is_nested_value (JObject _) \<longleftrightarrow> True"
| "is_nested_value (JArray _) \<longleftrightarrow> True"
| "is_nested_value _ \<longleftrightarrow> False"

definition infer_schema :: "json \<Rightarrow> inferred_column list result" where
  "infer_schema value =
     and_then (ok_or (InvalidPayload ''Payload must be a JSON object'') (as_object value)) (\<lambda>obj.
     Inr (map (\<lambda>(key, val). new_inferred_column key (infer_type val) (is_nested_value val))
            (filter (\<lambda>(_, v). \<not> is_null v) obj)))"

text \<open>
  The \<open>HashMap\<close> of the batch is an association list in order of first insertion; \<open>into_values\<close>
  then yields its values in some order, so that only the set of the result columns is meant.
  \<open>upsert_column\<close> is \<open>entry(..).and_modify(..).or_insert(..)\<close>.
\<close>

fun upsert_column ::
  "(string \<times> inferred_column) list \<Rightarrow> inferred_column \<Rightarrow> (string \<times> inferred_column) list" where
  "upsert_column [] col = [(col_name col, col)]"
| "upsert_column ((k, existing) # m) col =
     (if k = col_name col
      then (k, existing\<lparr>pg_type := common_type (pg_type existing) (pg_type col),
                        is_nested := is_nested existing \<or> is_nested col\<rparr>) # m
      else (k, existing) # upsert_column m col)"

definition add_payload ::
  "(string \<times> inferred_column) list \<Rightarrow> json \<Rightarrow> (string \<times> inferred_column) list result" where
  "add_payload unified value =
     and_then (infer_schema value) (\<lambda>columns. Inr (foldl upsert_column unified columns))"

definition infer_batch_schema :: "json list \<Rightarrow> inferred_column list result" where
  "infer_batch_schema values =
     (if values = [] then Inr []
      else and_then (try_fold add_payload [] values) (\<lambda>unified. Inr (map snd unified)))"


section \<open>Joining types\<close>

text \<open>
  What batch inference needs of the type combination: a commutative, associative, idempotent
  operation with a neutral element. Combining a list then depends on its elements only, neither on
  their order nor on repetitions.
\<close>

definition join_all :: "('a \<Rightarrow> 'a \<Rightarrow> 'a) \<Rightarrow> 'a \<Rightarrow> 'a list \<Rightarrow> 'a" where
  "join_all j z xs = foldr j xs z"

locale type_join =
  fixes j :: "'a \<Rightarrow> 'a \<Rightarrow> 'a" and z :: 'a
  assumes j_assoc: "j (j a b) c = j a (j b c)"
    and j_commute: "j a b = j b a"
    and j_idem: "j a a = a"
    and j_neutral: "j z a = a"
begin

lemma j_left_commute: "j a (j b c) = j b (j a c)"
  by (metis j_assoc j_commute)

lemma j_left_idem: "j a (j a b) = j a b"
  by (metis j_assoc j_idem)

lemma join_all_Nil: "join_all j z [] = z"
  by (simp add: join_all_def)

lemma join_all_Cons: "join_all j z (x # xs) = j x (join_all j z xs)"
  by (simp add: join_all_def)

lemma join_all_snoc: "join_all j z (xs @ [x]) = j (join_all j z xs) x"
proof (induction xs)
  case Nil
  show ?case by (simp add: join_all_def j_commute [of _ z] j_neutral)
next
  case (Cons y xs)
  then show ?case by (simp add: join_all_def j_assoc)
qed

lemma join_all_absorb: "x \<in> set xs \<Longrightarrow> j x (join_all j z xs) = join_all j z xs"
proof (induction xs)
  case Nil
  then show ?case by simp
next
  case (Cons y xs)
  show ?case
  proof (cases "x = y")
    case True
    then show ?thesis by (simp add: join_all_Cons j_left_idem)
  next
    case False
    with Cons show ?thesis by (simp add: join_all_Cons j_left_commute [of x y])
  qed
qed

lemma join_all_filter_eq: "join_all j z (x # xs) = join_all j z (x # removeAll x xs)"
proof (induction xs)
  case Nil
  show ?case by simp
next
  case (Cons y xs)
  then show ?case
    by (cases "x = y") (simp_all add: join_all_Cons j_left_idem j_left_commute [of x y])
qed

lemma join_all_set_cong: "set xs = set ys \<Longrightarrow> join_all j z xs = join_all j z ys"
proof (induction "length xs" arbitrary: xs ys rule: less_induct)
  case less
  show ?case
  proof (cases xs)
    case Nil
    with less.prems show ?thesis by simp
  next
    case (Cons x zs)
    have "x \<in> set ys" using less.prems Cons by auto
    then have ys: "join_all j z ys = join_all j z (x # removeAll x ys)"
      using join_all_absorb [of x ys] join_all_filter_eq [of x ys] by (simp add: join_all_Cons)
    have "length (removeAll x zs) < length xs"
      using Cons by (simp add: le_imp_less_Suc removeAll_filter_not_eq)
    moreover have "set (removeAll x zs) = set (removeAll x ys)"
      using less.prems Cons by auto
    ultimately have "join_all j z (removeAll x zs) = join_all j z (removeAll x ys)"
      by (rule less.hyps)
    then show ?thesis
      using ys Cons join_all_filter_eq [of x zs] by (simp add: join_all_Cons)
  qed
qed

lemma join_all_upper: "x \<in> set xs \<Longrightarrow> j x (join_all j z xs) = join_all j z xs"
  by (rule join_all_absorb)

end

lemma common_type_assoc: "common_type (common_type a b) c = common_type a (common_type b c)"
  by (cases a; cases b; cases c) (simp_all add: common_type_def)

lemma common_type_commute: "common_type a b = common_type b a"
  by (cases a; cases b) (simp_all add: common_type_def)

lemma common_type_idem [simp]: "common_type a a = a"
  by (simp add: common_type_def)

lemma common_type_Null [simp]: "common_type Null a = a" "common_type a Null = a"
  by (simp_all add: common_type_def)

lemma common_type_absorb: "common_type a (common_type a b) = common_type a b"
  by (metis common_type_assoc common_type_idem)

interpretation ct: type_join common_type Null
  by unfold_locales (rule common_type_assoc, rule common_type_commute, rule common_type_idem,
      rule common_type_Null(1))

text \<open>
  The types form a bounded join semilattice: \<open>a \<le> b\<close> says that a column of type \<open>b\<close> already holds
  what a column of type \<open>a\<close> holds. \<open>Null\<close> is at the bottom and \<open>Jsonb\<close> at the top.
\<close>

instantiation pg_type :: "{bounded_semilattice_sup_bot, order_top}"
begin

definition sup_pg_type :: "pg_type \<Rightarrow> pg_type \<Rightarrow> pg_type" where
  "sup_pg_type = common_type"

definition bot_pg_type :: pg_type where
  "bot_pg_type = Null"

definition top_pg_type :: pg_type where
  "top_pg_type = Jsonb"

definition less_eq_pg_type :: "pg_type \<Rightarrow> pg_type \<Rightarrow> bool" where
  "less_eq_pg_type a b \<longleftrightarrow> common_type a b = b"

definition less_pg_type :: "pg_type \<Rightarrow> pg_type \<Rightarrow> bool" where
  "less_pg_type a b \<longleftrightarrow> common_type a b = b \<and> a \<noteq> b"

instance
proof
  fix a b c :: pg_type
  show "a < b \<longleftrightarrow> a \<le> b \<and> \<not> b \<le> a"
    unfolding less_pg_type_def less_eq_pg_type_def using common_type_commute [of a b] by auto
  show "a \<le> a" by (simp add: less_eq_pg_type_def)
  show "a \<le> c" if "a \<le> b" "b \<le> c"
    using that common_type_assoc [of a b c] by (simp add: less_eq_pg_type_def)
  show "a = b" if "a \<le> b" "b \<le> a"
    using that common_type_commute [of a b] by (simp add: less_eq_pg_type_def)
  show "a \<le> sup a b" by (simp add: less_eq_pg_type_def sup_pg_type_def common_type_absorb)
  show "b \<le> sup a b"
    using common_type_absorb [of b a] by (simp add: less_eq_pg_type_def sup_pg_type_def common_type_commute)
  show "sup b c \<le> a" if "b \<le> a" "c \<le> a"
    using that common_type_assoc [of b c a] by (simp add: less_eq_pg_type_def sup_pg_type_def)
  show "bot \<le> a" by (simp add: less_eq_pg_type_def bot_pg_type_def)
  show "a \<le> top" by (cases a) (simp_all add: less_eq_pg_type_def top_pg_type_def common_type_def)
qed

end

lemma common_type_le: "a \<le> common_type a b" "b \<le> common_type a b"
  using sup_ge1 [of a b] sup_ge2 [of b a] by (simp_all add: sup_pg_type_def)

lemma le_pg_type_iff: "a \<le> b \<longleftrightarrow> common_type a b = (b :: pg_type)"
  by (simp add: less_eq_pg_type_def)

lemma le_can_promote: "a \<le> b \<Longrightarrow> can_promote_to a b" for a b :: pg_type
  by (cases a; cases b) (simp_all add: le_pg_type_iff common_type_def can_promote_to_def)

text \<open>
  The promotion rules agree with the combination rules: both types promote to their common
  type, so the error branch of schema evolution for an impossible promotion is never taken by a
  type that was combined.
\<close>

theorem common_type_promotes:
  "can_promote_to a (common_type a b) \<and> can_promote_to b (common_type a b)"
  by (cases a; cases b) (simp_all add: common_type_def can_promote_to_def)

lemma can_promote_to_trans: "can_promote_to a b \<Longrightarrow> can_promote_to b c \<Longrightarrow> can_promote_to a c"
  by (cases a; cases b; cases c) (simp_all add: can_promote_to_def)

lemma common_type_eq_promote: "common_type a b = b \<Longrightarrow> can_promote_to a b"
  using common_type_promotes [of a b] by simp

text \<open>
  A type that evolution writes into a column definition is read back from the catalogue as the
  same affinity. (No column is ever created with the type of null.)
\<close>

theorem from_data_type_as_sql: "t \<noteq> Null \<Longrightarrow> from_data_type (as_sql t) = Some t"
  by (cases t) (simp_all add: from_data_type_def Let_def str_eval)

theorem from_data_type_as_sql_witness: "from_data_type (as_sql TimestampTz) = Some TimestampTz"
  by (rule from_data_type_as_sql) simp

section \<open>The batch schema\<close>

text \<open>The columns every payload of a batch contributes, in order, when all are objects.\<close>

definition payload_columns :: "json \<Rightarrow> inferred_column list" where
  "payload_columns value = (case infer_schema value of Inl _ \<Rightarrow> [] | Inr cs \<Rightarrow> cs)"

definition batch_columns :: "json list \<Rightarrow> inferred_column list" where
  "batch_columns values = concat (map payload_columns values)"

text \<open>
  The specification of one column of the unified schema: its type is the join of the types of all
  its occurrences, it is nested when one occurrence is.
\<close>

definition column_spec :: "inferred_column list \<Rightarrow> string \<Rightarrow> inferred_column" where
  "column_spec cols k =
     \<lparr>col_name = k,
      pg_type = join_all common_type Null (map pg_type (filter (\<lambda>c. col_name c = k) cols)),
      is_nested = list_ex (\<lambda>c. col_name c = k \<and> is_nested c) cols,
      is_nullable = True\<rparr>"

definition unified_ok :: "inferred_column list \<Rightarrow> (string \<times> inferred_column) list \<Rightarrow> bool" where
  "unified_ok cols m \<longleftrightarrow>
     distinct (map fst m) \<and> set (map fst m) = col_name ` set cols \<and>
     (\<forall>(k, c) \<in> set m. c = column_spec cols k)"

lemma upsert_column_keys:
  "map fst (upsert_column m c) =
     (if col_name c \<in> set (map fst m) then map fst m else map fst m @ [col_name c])"
  by (induction m c rule: upsert_column.induct) auto

lemma upsert_column_entries:
  "distinct (map fst m) \<Longrightarrow> (k, d) \<in> set (upsert_column m c) \<Longrightarrow>
     (k \<noteq> col_name c \<and> (k, d) \<in> set m) \<or>
     (k = col_name c \<and>
       (case map_of m k of None \<Rightarrow> d = c
        | Some e \<Rightarrow> d = e\<lparr>pg_type := common_type (pg_type e) (pg_type c),
                          is_nested := is_nested e \<or> is_nested c\<rparr>))"
proof (induction m c rule: upsert_column.induct)
  case (1 col)
  then show ?case by simp
next
  case (2 k' existing m col)
  show ?case
  proof (cases "k' = col_name col")
    case True
    with 2 show ?thesis by force
  next
    case False
    with 2 show ?thesis by auto
  qed
qed

lemma column_spec_snoc_other:
  "k \<noteq> col_name c \<Longrightarrow> column_spec (cols @ [c]) k = column_spec cols k"
  by (simp add: column_spec_def)

lemma column_spec_snoc_same:
  "column_spec (cols @ [c]) (col_name c) =
     (column_spec cols (col_name c))
       \<lparr>pg_type := common_type (pg_type (column_spec cols (col_name c))) (pg_type c),
        is_nested := is_nested (column_spec cols (col_name c)) \<or> is_nested c\<rparr>"
  by (simp add: column_spec_def ct.join_all_snoc)

lemma column_spec_fresh:
  "col_name c \<notin> col_name ` set cols \<Longrightarrow> is_nullable c \<Longrightarrow>
     column_spec (cols @ [c]) (col_name c) = c"
proof -
  assume fresh: "col_name c \<notin> col_name ` set cols" and "is_nullable c"
  from fresh have "filter (\<lambda>d. col_name d = col_name c) cols = []"
    by (metis (mono_tags, lifting) filter_False imageI)
  moreover from fresh have "\<not> list_ex (\<lambda>d. col_name d = col_name c \<and> is_nested d) cols"
    by (auto simp: list_ex_iff) (metis imageI)
  ultimately show ?thesis using \<open>is_nullable c\<close>
    by (simp add: column_spec_def join_all_def)
qed

lemma unified_ok_upsert:
  assumes "unified_ok cols m" "is_nullable c"
  shows "unified_ok (cols @ [c]) (upsert_column m c)"
proof -
  have dm: "distinct (map fst m)" and km: "set (map fst m) = col_name ` set cols"
    and sm: "\<And>k d. (k, d) \<in> set m \<Longrightarrow> d = column_spec cols k"
    using assms(1) by (auto simp: unified_ok_def)
  have keys: "distinct (map fst (upsert_column m c))"
    "set (map fst (upsert_column m c)) = col_name ` set (cols @ [c])"
    using dm km by (auto simp: upsert_column_keys)
  have "d = column_spec (cols @ [c]) k" if "(k, d) \<in> set (upsert_column m c)" for k d
  proof (cases "k = col_name c")
    case False
    with upsert_column_entries [OF dm that] sm show ?thesis by (simp add: column_spec_snoc_other)
  next
    case True
    show ?thesis
    proof (cases "map_of m k")
      case None
      then have "col_name c \<notin> col_name ` set cols" using True km by (simp add: map_of_eq_None_iff)
      with column_spec_fresh [OF _ assms(2)] upsert_column_entries [OF dm that] True None
      show ?thesis by simp
    next
      case (Some e)
      then have "e = column_spec cols k" by (simp add: map_of_SomeD sm)
      with upsert_column_entries [OF dm that] True Some show ?thesis
        by (simp add: column_spec_snoc_same)
    qed
  qed
  with keys show ?thesis by (auto simp: unified_ok_def)
qed

lemma unified_ok_foldl:
  "unified_ok cols m \<Longrightarrow> \<forall>c \<in> set cs. is_nullable c \<Longrightarrow>
     unified_ok (cols @ cs) (foldl upsert_column m cs)"
proof (induction cs arbitrary: cols m)
  case Nil
  then show ?case by simp
next
  case (Cons c cs)
  then have "unified_ok ((cols @ [c]) @ cs) (foldl upsert_column (upsert_column m c) cs)"
    by (intro Cons.IH unified_ok_upsert) auto
  then show ?case by simp
qed

lemma infer_schema_Inr:
  "infer_schema v = Inr cs \<longleftrightarrow>
     (\<exists>kvs. v = JObject kvs \<and>
        cs = map (\<lambda>(k, x). new_inferred_column k (infer_type x) (is_nested_value x))
               (filter (\<lambda>(_, x). \<not> is_null x) kvs))"
  by (cases v) (auto simp: infer_schema_def)

lemma infer_schema_nullable: "infer_schema v = Inr cs \<Longrightarrow> c \<in> set cs \<Longrightarrow> is_nullable c"
  by (auto simp: infer_schema_Inr new_inferred_column_def)

lemma infer_schema_Inl:
  "infer_schema v = Inl e \<longleftrightarrow>
     (\<forall>kvs. v \<noteq> JObject kvs) \<and> e = InvalidPayload ''Payload must be a JSON object''"
  by (cases v) (auto simp: infer_schema_def)

lemma add_payload_simps:
  "infer_schema v = Inr cs \<Longrightarrow> add_payload m v = Inr (foldl upsert_column m cs)"
  "infer_schema v = Inl e \<Longrightarrow> add_payload m v = Inl e"
  by (simp_all add: add_payload_def)

lemma add_payloads_unified:
  "try_fold add_payload m vs = Inr m' \<Longrightarrow> unified_ok cols m \<Longrightarrow>
     unified_ok (cols @ batch_columns vs) m'"
proof (induction vs arbitrary: m cols)
  case Nil
  then show ?case by (simp add: batch_columns_def)
next
  case (Cons v vs)
  obtain cs where cs: "infer_schema v = Inr cs"
    using Cons.prems(1) by (cases "infer_schema v") (auto simp: add_payload_simps)
  then have rest: "try_fold add_payload (foldl upsert_column m cs) vs = Inr m'"
    using Cons.prems(1) by (simp add: add_payload_simps)
  have "unified_ok (cols @ cs) (foldl upsert_column m cs)"
    using Cons.prems(2) infer_schema_nullable [OF cs] by (intro unified_ok_foldl) auto
  from Cons.IH [OF rest this] cs show ?case
    by (simp add: batch_columns_def payload_columns_def)
qed

lemma add_payloads_error:
  "try_fold add_payload m vs = Inl e \<longleftrightarrow>
     (\<exists>v \<in> set vs. \<forall>kvs. v \<noteq> JObject kvs) \<and> e = InvalidPayload ''Payload must be a JSON object''"
proof (induction vs arbitrary: m)
  case Nil
  then show ?case by simp
next
  case (Cons v vs)
  show ?case
  proof (cases "infer_schema v")
    case (Inl a)
    then have "(\<forall>kvs. v \<noteq> JObject kvs) \<and> a = InvalidPayload ''Payload must be a JSON object''"
      by (simp add: infer_schema_Inl)
    with Inl show ?thesis by (auto simp: add_payload_simps)
  next
    case (Inr cs)
    then have "\<exists>kvs. v = JObject kvs" by (auto simp: infer_schema_Inr)
    with Inr Cons show ?thesis by (auto simp: add_payload_simps)
  qed
qed

lemma infer_batch_schema_columns:
  assumes "infer_batch_schema vs = Inr cs"
  shows "set cs = column_spec (batch_columns vs) ` col_name ` set (batch_columns vs) \<and>
         distinct (map col_name cs)"
proof -
  obtain m where m: "unified_ok (batch_columns vs) m" "cs = map snd m"
  proof (cases "vs = []")
    case True
    with assms have "unified_ok (batch_columns vs) [] \<and> cs = map snd []"
      by (simp add: infer_batch_schema_def unified_ok_def batch_columns_def)
    then show ?thesis using that by blast
  next
    case False
    with assms obtain m where "try_fold add_payload [] vs = Inr m" "cs = map snd m"
      by (auto simp: infer_batch_schema_def and_then_eq_Inr)
    moreover have "unified_ok [] []" by (simp add: unified_ok_def)
    ultimately show ?thesis using that add_payloads_unified [of "[]" vs m "[]"] by simp
  qed
  have eq: "m = map (\<lambda>k. (k, column_spec (batch_columns vs) k)) (map fst m)"
    using m(1) by (auto simp: unified_ok_def intro!: map_idI [symmetric])
  have names: "map col_name cs = map fst m"
    unfolding m(2) by (subst (1) eq) (simp add: column_spec_def)
  have "set cs = column_spec (batch_columns vs) ` set (map fst m)"
    unfolding m(2) by (subst (1) eq) (simp add: image_image)
  with names m(1) show ?thesis by (simp add: unified_ok_def)
qed

text \<open>
  Batch inference computes its specification: whenever it succeeds, the columns are exactly the
  names that occur non-null in some payload, once each, and each has the join of the types of all
  its occurrences.
\<close>

theorem infer_batch_schema_spec:
  assumes "infer_batch_schema vs = Inr cs"
  shows "set cs = column_spec (batch_columns vs) ` col_name ` set (batch_columns vs) \<and>
         distinct (map col_name cs)"
  using assms by (rule infer_batch_schema_columns)

theorem infer_batch_schema_spec_witness:
  "set [new_inferred_column ''a'' DoublePrecision False] =
     column_spec (batch_columns [JObject [(''a'', JNumber (PosInt 1))], JObject [(''a'', JNumber (Float 0))]])
       ` col_name ` set (batch_columns [JObject [(''a'', JNumber (PosInt 1))], JObject [(''a'', JNumber (Float 0))]])"
  using infer_batch_schema_spec
    [of "[JObject [(''a'', JNumber (PosInt 1))], JObject [(''a'', JNumber (Float 0))]]"
        "[new_inferred_column ''a'' DoublePrecision False]"]
  by (simp add: infer_batch_schema_def add_payload_def infer_schema_def new_inferred_column_def
      common_type_def)

lemma column_spec_set_cong:
  assumes "set xs = set ys"
  shows "column_spec xs k = column_spec ys k"
proof -
  have "join_all common_type Null (map pg_type (filter (\<lambda>c. col_name c = k) xs)) =
        join_all common_type Null (map pg_type (filter (\<lambda>c. col_name c = k) ys))"
    using assms by (intro ct.join_all_set_cong) auto
  with assms show ?thesis by (simp add: column_spec_def list_ex_iff)
qed

text \<open>
  The unified schema does not depend on the order of the payloads, nor on repeated payloads:
  two batches with the same set of payloads give the same error or the same set of columns.
\<close>

theorem infer_batch_schema_order_independent:
  assumes "set vs = set ws"
  shows "map_sum id set (infer_batch_schema vs) = map_sum id set (infer_batch_schema ws)"
proof (cases "\<forall>v \<in> set vs. \<exists>kvs. v = JObject kvs")
  case True
  then have "\<forall>e. try_fold add_payload [] vs \<noteq> Inl e" "\<forall>e. try_fold add_payload [] ws \<noteq> Inl e"
    using assms by (auto simp: add_payloads_error)
  then obtain cs ds where *: "infer_batch_schema vs = Inr cs" "infer_batch_schema ws = Inr ds"
    unfolding infer_batch_schema_def
    by (metis and_then_Inr sum.exhaust)
  have "set (batch_columns vs) = set (batch_columns ws)"
    using assms by (simp add: batch_columns_def)
  with infer_batch_schema_columns [OF *(1)] infer_batch_schema_columns [OF *(2)]
  have "set cs = set ds" using column_spec_set_cong by (metis image_cong)
  with * show ?thesis by simp
next
  case False
  then have "try_fold add_payload [] vs = Inl (InvalidPayload ''Payload must be a JSON object'')"
    "try_fold add_payload [] ws = Inl (InvalidPayload ''Payload must be a JSON object'')"
    using assms by (simp_all add: add_payloads_error)
  moreover from False assms have "vs \<noteq> []" "ws \<noteq> []" by auto
  ultimately show ?thesis by (simp add: infer_batch_schema_def)
qed

theorem infer_batch_schema_order_independent_witness:
  "map_sum id set (infer_batch_schema [JObject [(''a'', JBool True)], JObject [(''a'', JString ''x'')]]) =
   map_sum id set (infer_batch_schema [JObject [(''a'', JString ''x'')], JObject [(''a'', JBool True)]])"
  by (rule infer_batch_schema_order_independent) auto

lemma infer_type_not_null: "\<not> is_null v \<Longrightarrow> infer_type v \<noteq> Null"
  by (cases v) auto

lemma payload_column_covered:
  assumes "infer_batch_schema vs = Inr cs" "JObject kvs \<in> set vs" "(k, v) \<in> set kvs" "\<not> is_null v"
  shows "\<exists>c \<in> set cs. col_name c = k \<and> common_type (infer_type v) (pg_type c) = pg_type c"
proof -
  let ?cols = "batch_columns vs"
  let ?d = "new_inferred_column k (infer_type v) (is_nested_value v)"
  have "payload_columns (JObject kvs) =
      map (\<lambda>(k, x). new_inferred_column k (infer_type x) (is_nested_value x))
        (filter (\<lambda>(_, x). \<not> is_null x) kvs)"
    by (simp add: payload_columns_def infer_schema_def)
  with assms(3,4) have "?d \<in> set (payload_columns (JObject kvs))" by force
  with assms(2) have d: "?d \<in> set ?cols" by (auto simp: batch_columns_def)
  then have "infer_type v \<in> set (map pg_type (filter (\<lambda>c. col_name c = k) ?cols))"
    by (force simp: new_inferred_column_def)
  then have "common_type (infer_type v) (pg_type (column_spec ?cols k)) = pg_type (column_spec ?cols k)"
    by (simp add: column_spec_def ct.join_all_upper)
  moreover from d have "k \<in> col_name ` set ?cols" by (force simp: new_inferred_column_def)
  then have "column_spec ?cols k \<in> set cs"
    using infer_batch_schema_columns [OF assms(1)] by blast
  ultimately show ?thesis by (force simp: column_spec_def)
qed

end
