(* ===== verification/Store.thy ===== *)
theory Store imports Inference begin

text \<open>
  The database store (\<open>src/src/platform/db.rs\<close>): placeholder conversion, statement batches,
  parameter values, and the conversion of a result row to JSON, through which every service reads
  its tables. The second half is the small state-passing language the services are written in: a
  database call that may fail, the question-mark operator over it, and \<open>.ok()\<close>.

  PostgreSQL and the driver are not part of the program. A cell of a result row is a record of what
  the driver answers for it (its type name and the outcome of each \<open>try_get\<close>); the constructors
  \<open>cell_text\<close>, \<open>cell_jsonb\<close> and so on are the documented answers for the column types in use. The
  JSON parser and base64 encoder of the crates are function arguments.
\<close>

section \<open>Placeholders and batches\<close>

fun convert_from :: "nat \<Rightarrow> string \<Rightarrow> string" where
  "convert_from i [] = []"
| "convert_from i (c # s) =
     (if c = CHR ''?'' then CHR ''$'' # show_nat i @ convert_from (Suc i) s
      else c # convert_from i s)"

definition convert_question_marks :: "string \<Rightarrow> string" where
  "convert_question_marks sql = convert_from 1 sql"

text \<open>The statements \<open>execute_batch\<close> sends, in order.\<close>

definition batch_statements :: "string \<Rightarrow> string list" where
  "batch_statements sql = filter (\<lambda>s. s \<noteq> []) (map trim (split_on CHR '';'' sql))"

definition has_returning_clause :: "string \<Rightarrow> bool" where
  "has_returning_clause sql =
     list_ex (\<lambda>token. token = ''RETURNING'') (split_whitespace (to_uppercase sql))"

definition insert_returning_sql :: "string \<Rightarrow> string" where
  "insert_returning_sql sql =
     (let sql = convert_question_marks sql
      in if has_returning_clause sql then sql else sql @ '' RETURNING id'')"

text \<open>The specification of the conversion: the pieces between question marks, numbered from \<open>i\<close>.\<close>

fun number_pieces :: "nat \<Rightarrow> string list \<Rightarrow> string" where
  "number_pieces i [] = []"
| "number_pieces i [p] = p"
| "number_pieces i (p # q # ps) = p @ CHR ''$'' # show_nat i @ number_pieces (Suc i) (q # ps)"

lemma convert_from_pieces: "convert_from i s = number_pieces i (split_on CHR ''?'' s)"
proof (induction s arbitrary: i)
  case Nil
  then show ?case by simp
next
  case (Cons c s)
  obtain p ps where ps: "split_on CHR ''?'' s = p # ps" by (cases "split_on CHR ''?'' s") auto
  show ?case
  proof (cases "c = CHR ''?''")
    case True
    with ps Cons.IH [of "Suc i"] show ?thesis by simp
  next
    case False
    with ps Cons.IH [of i] show ?thesis by (cases ps) simp_all
  qed
qed

text \<open>
  Placeholder conversion numbers the question marks from one, left to right, and copies
  everything between them: the result is the pieces of the statement with \<open>$1\<close>, \<open>$2\<close>, ... between
  them; a statement written with native placeholders is left alone.
\<close>

theorem convert_question_marks_spec:
  "convert_question_marks sql = number_pieces 1 (split_on CHR ''?'' sql) \<and>
   (CHR ''?'' \<notin> set sql \<longrightarrow> convert_question_marks sql = sql)"
proof -
  have "CHR ''?'' \<notin> set sql \<Longrightarrow> convert_from i sql = sql" for i
    by (induction sql arbitrary: i) auto
  then show ?thesis by (simp add: convert_question_marks_def convert_from_pieces)
qed

theorem convert_question_marks_spec_witness:
  "convert_question_marks ''SELECT $1'' = ''SELECT $1''"
  using convert_question_marks_spec [of "''SELECT $1''"] by simp

section \<open>Parameters\<close>

datatype sql_value =
    SqlNull
  | SqlInteger int
  | SqlReal "64 word"
  | SqlText string
  | SqlBlob "8 word list"
  | SqlBoolean bool
  | SqlJson json

text \<open>
  \<open>json_to_sql_value_for_type\<close> and \<open>json_to_sql_value\<close>. The textual form of a JSON value and the
  double nearest to an integer beyond 64 bits signed are serde_json's: \<open>to_text\<close> and \<open>to_f64\<close>.
\<close>

definition json_to_sql_value_for_type ::
  "(json \<Rightarrow> string) \<Rightarrow> (number \<Rightarrow> 64 word option) \<Rightarrow> json \<Rightarrow> pg_type \<Rightarrow> sql_value" where
  "json_to_sql_value_for_type to_text to_f64 v t =
     (if is_null v then SqlNull
      else if t = Jsonb then SqlJson v
      else (case v of
          JBool b \<Rightarrow> if t = Boolean then SqlBoolean b else SqlText (to_text v)
        | JNumber n \<Rightarrow>
            if t = BigInt
            then (case num_as_i64 n of Some i \<Rightarrow> SqlInteger i | None \<Rightarrow> SqlText (to_text v))
            else if t = DoublePrecision
            then (case to_f64 n of Some f \<Rightarrow> SqlReal f | None \<Rightarrow> SqlText (to_text v))
            else SqlText (to_text v)
        | JString s \<Rightarrow>
            if t \<in> {Text, Uuid, Date, TimestampTz} then SqlText s else SqlText (to_text v)
        | _ \<Rightarrow> SqlText (to_text v)))"

definition json_to_sql_value ::
  "(json \<Rightarrow> string) \<Rightarrow> (number \<Rightarrow> 64 word option) \<Rightarrow> json \<Rightarrow> sql_value" where
  "json_to_sql_value to_text to_f64 v =
     (case v of
        JNull \<Rightarrow> SqlNull
      | JBool b \<Rightarrow> SqlBoolean b
      | JNumber n \<Rightarrow>
          (case num_as_i64 n of Some i \<Rightarrow> SqlInteger i
           | None \<Rightarrow> (case to_f64 n of Some f \<Rightarrow> SqlReal f | None \<Rightarrow> SqlText (to_text v)))
      | JString s \<Rightarrow> SqlText s
      | _ \<Rightarrow> SqlJson v)"

section \<open>Result rows\<close>

record cell =
  type_name :: string
  raw_ok :: bool
  cell_null :: bool
  try_i64 :: "int option"
  try_i32 :: "int option"
  try_i16 :: "int option"
  try_f64 :: "64 word option"
  try_f32 :: "64 word option"
  try_bool :: "bool option"
  try_string :: "string option"
  try_json :: "json option"
  try_bytes :: "string option"
  try_utc :: "string option"
  try_naive :: "string option"
  try_uuid :: "string option"

definition first_some :: "('a \<Rightarrow> json) \<Rightarrow> 'a option list \<Rightarrow> json" where
  "first_some f xs = (case concat (map (\<lambda>x. case x of None \<Rightarrow> [] | Some a \<Rightarrow> [a]) xs) of
     [] \<Rightarrow> JNull | a # _ \<Rightarrow> f a)"

definition get_value_from_row ::
  "(string \<Rightarrow> json option) \<Rightarrow> (string \<Rightarrow> string) \<Rightarrow> cell \<Rightarrow> json" where
  "get_value_from_row parse_json base64 c =
     (if \<not> raw_ok c \<or> cell_null c then JNull
      else if type_name c \<in> set [''INT4'', ''INT8'', ''INT2'']
        then first_some json_int [try_i64 c, try_i32 c, try_i16 c]
      else if type_name c \<in> set [''FLOAT4'', ''FLOAT8'', ''NUMERIC'']
        then first_some (\<lambda>f. JNumber (Float f)) [try_f64 c, try_f32 c]
      else if type_name c = ''BOOL'' then first_some JBool [try_bool c]
      else if type_name c \<in> set [''VARCHAR'', ''TEXT'', ''BPCHAR'', ''PG_LSN'']
        then (case try_string c of
            Some v \<Rightarrow>
              if starts_with v ''{'' \<or> starts_with v ''[''
              then (case parse_json v of Some parsed \<Rightarrow> parsed | None \<Rightarrow> JString v)
              else JString v
          | None \<Rightarrow> JNull)
      else if type_name c \<in> set [''JSON'', ''JSONB''] then unwrap_or JNull (try_json c)
      else if type_name c = ''BYTEA'' then first_some (\<lambda>v. JString (base64 v)) [try_bytes c]
      else if type_name c \<in> set [''TIMESTAMP'', ''TIMESTAMPTZ'', ''DATE'', ''TIME'']
        then first_some JString [try_utc c, try_naive c]
      else if type_name c = ''UUID'' then first_some JString [try_uuid c]
      else first_some JString [try_string c])"

text \<open>Cells as the driver answers for the column types of the services' tables.\<close>

definition no_cell :: cell where
  "no_cell = \<lparr>type_name = '''', raw_ok = True, cell_null = False, try_i64 = None, try_i32 = None,
     try_i16 = None, try_f64 = None, try_f32 = None, try_bool = None, try_string = None,
     try_json = None, try_bytes = None, try_utc = None, try_naive = None, try_uuid = None\<rparr>"

definition cell_int :: "int \<Rightarrow> cell" where
  "cell_int i = no_cell\<lparr>type_name := ''INT8'', try_i64 := Some i\<rparr>"

definition cell_bool :: "bool \<Rightarrow> cell" where
  "cell_bool b = no_cell\<lparr>type_name := ''BOOL'', try_bool := Some b\<rparr>"

definition cell_text :: "string \<Rightarrow> cell" where
  "cell_text s = no_cell\<lparr>type_name := ''TEXT'', try_string := Some s\<rparr>"

definition cell_jsonb :: "json \<Rightarrow> cell" where
  "cell_jsonb v = no_cell\<lparr>type_name := ''JSONB'', try_json := Some v\<rparr>"

definition cell_time :: "string \<Rightarrow> cell" where
  "cell_time s = no_cell\<lparr>type_name := ''TIMESTAMPTZ'', try_utc := Some s\<rparr>"

definition cell_sql_null :: "string \<Rightarrow> cell" where
  "cell_sql_null ty = no_cell\<lparr>type_name := ty, cell_null := True\<rparr>"

definition cell_opt :: "string \<Rightarrow> ('a \<Rightarrow> cell) \<Rightarrow> 'a option \<Rightarrow> cell" where
  "cell_opt ty f x = (case x of None \<Rightarrow> cell_sql_null ty | Some a \<Rightarrow> f a)"

lemma get_value_cell [simp]:
  "get_value_from_row p b (cell_int i) = json_int i"
  "get_value_from_row p b (cell_bool t) = JBool t"
  "get_value_from_row p b (cell_jsonb v) = v"
  "get_value_from_row p b (cell_time s) = JString s"
  "get_value_from_row p b (cell_sql_null ty) = JNull"
  by (simp_all add: get_value_from_row_def cell_int_def cell_bool_def cell_jsonb_def cell_time_def
      cell_sql_null_def no_cell_def first_some_def)

lemma get_value_cell_text:
  "\<not> starts_with s ''{'' \<Longrightarrow> \<not> starts_with s ''['' \<Longrightarrow> get_value_from_row p b (cell_text s) = JString s"
  by (simp add: get_value_from_row_def cell_text_def no_cell_def)

text \<open>Text that starts with a brace or a bracket is parsed as JSON by the row reader; other text is \<open>plain\<close>.\<close>

definition plain :: "string \<Rightarrow> bool" where
  "plain s \<longleftrightarrow> \<not> starts_with s ''{'' \<and> \<not> starts_with s ''[''"

lemma get_value_cell_plain [simp]: "plain s \<Longrightarrow> get_value_from_row p b (cell_text s) = JString s"
  by (simp add: plain_def get_value_cell_text)

lemma plain_Nil [simp]: "plain []"
  by (simp add: plain_def starts_with_def)

lemma plain_Cons: "plain (c # s) \<longleftrightarrow> c \<noteq> CHR 0x7B \<and> c \<noteq> CHR 0x5B"
  by (auto simp: plain_def starts_with_def)

text \<open>\<open>row.iter().find(|(k, _)| k == name).map(|(_, v)| v)\<close>.\<close>

type_synonym row = "(string \<times> json) list"

definition row_get :: "row \<Rightarrow> string \<Rightarrow> json option" where
  "row_get r k = map_option snd (find (\<lambda>(k', _). k' = k) r)"

lemma row_get_simps [simp]:
  "row_get [] k = None"
  "row_get ((k', v) # r) k = (if k' = k then Some v else row_get r k)"
  by (simp_all add: row_get_def)

definition col_str :: "row \<Rightarrow> string \<Rightarrow> string option" where
  "col_str r k = Option.bind (row_get r k) as_str"

definition col_i64 :: "row \<Rightarrow> string \<Rightarrow> int option" where
  "col_i64 r k = Option.bind (row_get r k) as_i64"

definition col_bool :: "row \<Rightarrow> string \<Rightarrow> bool option" where
  "col_bool r k = Option.bind (row_get r k) as_bool"

definition json_row :: "(string \<Rightarrow> json option) \<Rightarrow> (string \<Rightarrow> string) \<Rightarrow> (string \<times> cell) list \<Rightarrow> row" where
  "json_row p b cs = map (\<lambda>(k, c). (k, get_value_from_row p b c)) cs"

text \<open>
  Reading a JSONB column as a string loses it: whatever array or object the column holds, the
  accessor chain \<open>find(key).as_str()\<close> that several services use on JSONB columns yields nothing, so
  their default is taken.
\<close>

lemma jsonb_column_never_reads_as_string:
  "v = JArray xs \<or> v = JObject kvs \<Longrightarrow> as_str (get_value_from_row p b (cell_jsonb v)) = None"
  by auto

section \<open>Database calls\<close>

text \<open>
  The state of a service is its tables together with its fields in memory, \<open>st\<close>. The field
  \<open>outages\<close> is the fate of the coming database calls: \<open>True\<close> at its head makes the next call fail
  with a \<open>Database\<close> error and no effect. Theorems that quantify over the state quantify over every
  schedule of failures.
\<close>

record 's db =
  st :: 's
  outages :: "bool list"

type_synonym ('s, 'a) io = "'s db \<Rightarrow> 'a result \<times> 's db"

definition stmt :: "('s \<Rightarrow> ('a \<times> 's) result) \<Rightarrow> ('s, 'a) io" where
  "stmt f d =
     (let d' = d\<lparr>outages := tl (outages d)\<rparr>
      in if outages d \<noteq> [] \<and> hd (outages d) then (Inl (Database ''connection''), d')
         else (case f (st d) of
             Inl e \<Rightarrow> (Inl e, d')
           | Inr (a, s) \<Rightarrow> (Inr a, d'\<lparr>st := s\<rparr>)))"

definition ret :: "'a \<Rightarrow> ('s, 'a) io" where
  "ret a d = (Inr a, d)"

definition fail :: "stackhouse_error \<Rightarrow> ('s, 'a) io" where
  "fail e d = (Inl e, d)"

definition lift :: "'a result \<Rightarrow> ('s, 'a) io" where
  "lift r d = (r, d)"

text \<open>The question-mark operator.\<close>

definition bind_io :: "('s, 'a) io \<Rightarrow> ('a \<Rightarrow> ('s, 'b) io) \<Rightarrow> ('s, 'b) io" where
  "bind_io m k d = (case m d of (Inl e, d') \<Rightarrow> (Inl e, d') | (Inr a, d') \<Rightarrow> k a d')"

text \<open>A call whose result is inspected by the code: \<open>match\<close>, \<open>.ok()\<close>, \<open>unwrap_or_default()\<close>.\<close>

definition attempt :: "('s, 'a) io \<Rightarrow> ('s, 'a result) io" where
  "attempt m d = (case m d of (r, d') \<Rightarrow> (Inr r, d'))"

text \<open>Reading and writing the fields in memory.\<close>

definition gets :: "('s \<Rightarrow> 'a) \<Rightarrow> ('s, 'a) io" where
  "gets f d = (Inr (f (st d)), d)"

definition modify :: "('s \<Rightarrow> 's) \<Rightarrow> ('s, unit) io" where
  "modify f d = (Inr (), d\<lparr>st := f (st d)\<rparr>)"

text \<open>A statement with no result, and a query.\<close>

definition exec :: "('s \<Rightarrow> 's) \<Rightarrow> ('s, unit) io" where
  "exec f = stmt (\<lambda>s. Inr ((), f s))"

definition query ::
  "(string \<Rightarrow> json option) \<Rightarrow> (string \<Rightarrow> string) \<Rightarrow> ('s \<Rightarrow> (string \<times> cell) list list) \<Rightarrow> ('s, row list) io" where
  "query p b f = stmt (\<lambda>s. Inr (map (json_row p b) (f s), s))"

text \<open>A \<open>for\<close> loop of calls, stopped by the first error.\<close>

fun for_io :: "('a \<Rightarrow> 'acc \<Rightarrow> ('s, 'acc) io) \<Rightarrow> 'a list \<Rightarrow> 'acc \<Rightarrow> ('s, 'acc) io" where
  "for_io f [] acc = ret acc"
| "for_io f (x # xs) acc = bind_io (f x acc) (\<lambda>acc'. for_io f xs acc')"

lemma bind_lift [simp]: "bind_io (lift (Inr a)) k = k a" "bind_io (lift (Inl e)) k = fail e"
  by (simp_all add: fun_eq_iff bind_io_def lift_def fail_def)

subsection \<open>Evaluation without failures\<close>

definition up :: "'s \<Rightarrow> 's db" where
  "up s = \<lparr>st = s, outages = []\<rparr>"

lemma io_up [simp]:
  "stmt f (up s) = (case f s of Inl e \<Rightarrow> (Inl e, up s) | Inr (a, s') \<Rightarrow> (Inr a, up s'))"
  "ret a (up s) = (Inr a, up s)"
  "fail e (up s) = (Inl e, up s)"
  "lift r (up s) = (r, up s)"
  "gets g (up s) = (Inr (g s), up s)"
  "modify h (up s) = (Inr (), up (h s))"
  by (simp_all add: stmt_def ret_def fail_def lift_def gets_def modify_def up_def Let_def
      split: sum.splits prod.splits)

lemma exec_up [simp]: "exec f (up s) = (Inr (), up (f s))"
  by (simp add: exec_def)

lemma query_up [simp]: "query p b f (up s) = (Inr (map (json_row p b) (f s)), up s)"
  by (simp add: query_def)

lemma bind_io_up [simp]:
  "m (up s) = (Inr a, up s') \<Longrightarrow> bind_io m k (up s) = k a (up s')"
  "m (up s) = (Inl e, up s') \<Longrightarrow> bind_io m k (up s) = (Inl e, up s')"
  by (simp_all add: bind_io_def)

lemma attempt_up [simp]: "m (up s) = (r, up s') \<Longrightarrow> attempt m (up s) = (Inr r, up s')"
  by (simp add: attempt_def)

lemma up_inject [simp]: "up s = up t \<longleftrightarrow> s = t"
  by (simp add: up_def)

lemma st_up [simp]: "st (up s) = s"
  by (simp add: up_def)

subsection \<open>Invariants of a sequence of calls\<close>

text \<open>
  \<open>keeps P m\<close>: started in a state that satisfies \<open>P\<close>, under any failures, \<open>m\<close> ends in one.
  \<open>yields P m Q\<close>: moreover its result, when it is a success, is related to the end state by \<open>Q\<close>.
\<close>

definition keeps :: "('s \<Rightarrow> bool) \<Rightarrow> ('s, 'a) io \<Rightarrow> bool" where
  "keeps P m \<longleftrightarrow> (\<forall>d. P (st d) \<longrightarrow> P (st (snd (m d))))"

definition yields :: "('s \<Rightarrow> bool) \<Rightarrow> ('s, 'a) io \<Rightarrow> ('a \<Rightarrow> 's \<Rightarrow> bool) \<Rightarrow> bool" where
  "yields P m Q \<longleftrightarrow> (\<forall>d a d'. P (st d) \<longrightarrow> m d = (Inr a, d') \<longrightarrow> Q a (st d'))"

lemma keeps_ret [keeps_intro]: "keeps P (ret a)"
  by (simp add: keeps_def ret_def)

lemma keeps_fail [keeps_intro]: "keeps P (fail e)"
  by (simp add: keeps_def fail_def)

lemma keeps_lift [keeps_intro]: "keeps P (lift r)"
  by (simp add: keeps_def lift_def)

lemma keeps_gets [keeps_intro]: "keeps P (gets f)"
  by (simp add: keeps_def gets_def)

lemma keeps_query [keeps_intro]: "keeps P (query p b f)"
  by (simp add: keeps_def query_def stmt_def Let_def)

lemma keeps_modify [keeps_intro]: "(\<And>s. P s \<Longrightarrow> P (f s)) \<Longrightarrow> keeps P (modify f)"
  by (simp add: keeps_def modify_def)

lemma keeps_exec [keeps_intro]: "(\<And>s. P s \<Longrightarrow> P (f s)) \<Longrightarrow> keeps P (exec f)"
  by (simp add: keeps_def exec_def stmt_def Let_def)

lemma keeps_stmt [keeps_intro]:
  "(\<And>s a s'. P s \<Longrightarrow> f s = Inr (a, s') \<Longrightarrow> P s') \<Longrightarrow> keeps P (stmt f)"
  by (auto simp: keeps_def stmt_def Let_def split: sum.splits)

lemma keeps_bind_io [keeps_intro]:
  assumes "keeps P m" "\<And>a. keeps P (k a)"
  shows "keeps P (bind_io m k)"
  unfolding keeps_def
proof (intro allI impI)
  fix d :: "'a db" assume "P (st d)"
  obtain r d' where m: "m d = (r, d')" by (cases "m d")
  with assms(1) \<open>P (st d)\<close> have "P (st d')" by (metis keeps_def snd_conv)
  with m assms(2) show "P (st (snd (bind_io m k d)))"
    by (cases r) (simp_all add: bind_io_def keeps_def)
qed

lemma keeps_attempt [keeps_intro]: "keeps P m \<Longrightarrow> keeps P (attempt m)"
  by (auto simp: keeps_def attempt_def split: prod.splits)

lemma keeps_for_io [keeps_intro]:
  "(\<And>x acc. keeps P (f x acc)) \<Longrightarrow> keeps P (for_io f xs acc)"
  by (induction xs arbitrary: acc) (simp_all add: keeps_ret keeps_bind_io)

lemma keeps_if [keeps_intro]: "(b \<Longrightarrow> keeps P m) \<Longrightarrow> (\<not> b \<Longrightarrow> keeps P n) \<Longrightarrow> keeps P (if b then m else n)"
  by simp

lemma keeps_D: "keeps P m \<Longrightarrow> P (st d) \<Longrightarrow> m d = (r, d') \<Longrightarrow> P (st d')"
  by (metis keeps_def snd_conv)

subsection \<open>Inversion\<close>

text \<open>The possible outcomes of one call, under any failures.\<close>

lemma bind_io_cases [consumes 1, case_names stop more]:
  assumes "bind_io m k d = (r, d')"
  obtains e where "m d = (Inl e, d')" "r = Inl e"
  | a d1 where "m d = (Inr a, d1)" "k a d1 = (r, d')"
  using assms by (auto simp: bind_io_def split: prod.splits sum.splits)

lemma stmt_cases [consumes 1, case_names err ok]:
  assumes "stmt f d = (r, d')"
  obtains e where "r = Inl e" "st d' = st d"
  | a s' where "f (st d) = Inr (a, s')" "r = Inr a" "st d' = s'"
  using assms by (auto simp: stmt_def Let_def split: if_splits sum.splits)

lemma exec_cases [consumes 1, case_names err ok]:
  assumes "exec f d = (r, d')"
  obtains e where "r = Inl e" "st d' = st d" | "r = Inr ()" "st d' = f (st d)"
proof -
  from assms [unfolded exec_def] show thesis
  proof (cases rule: stmt_cases)
    case (err e)
    then show thesis by (rule that(1))
  next
    case (ok a s')
    from ok(1) have "s' = f (st d)" by simp_all
    with ok(2,3) show thesis by (intro that(2)) simp_all
  qed
qed

lemma query_cases [consumes 1, case_names err ok]:
  assumes "query p b f d = (r, d')"
  obtains e where "r = Inl e" "st d' = st d" | "r = Inr (map (json_row p b) (f (st d)))" "st d' = st d"
proof -
  from assms [unfolded query_def] show thesis
  proof (cases rule: stmt_cases)
    case (err e)
    then show thesis by (rule that(1))
  next
    case (ok a s')
    from ok(1) have "a = map (json_row p b) (f (st d))" "s' = st d" by auto
    with ok(2,3) show thesis by (intro that(2)) simp_all
  qed
qed

lemma attempt_cases:
  assumes "attempt m d = (r, d')"
  obtains r' where "m d = (r', d')" "r = Inr r'"
proof -
  obtain r' d1 where "m d = (r', d1)" by (cases "m d")
  with assms that show thesis by (simp add: attempt_def)
qed

lemma io_pure_iff [simp]:
  "ret a d = (r, d') \<longleftrightarrow> r = Inr a \<and> d' = d" "fail e d = (r', d') \<longleftrightarrow> r' = Inl e \<and> d' = d"
  "lift x d = (x', d') \<longleftrightarrow> x' = x \<and> d' = d" "gets g d = (r'', d') \<longleftrightarrow> r'' = Inr (g (st d)) \<and> d' = d"
  by (auto simp: ret_def fail_def lift_def gets_def)

subsection \<open>Outcomes under any failures\<close>

text \<open>
  \<open>wp m Q s\<close>: whatever calls fail, \<open>m\<close> started with state \<open>s\<close> ends with a result and a state related
  by \<open>Q\<close>. The rules follow the structure of \<open>m\<close>.
\<close>

definition wp :: "('s, 'a) io \<Rightarrow> ('a result \<Rightarrow> 's \<Rightarrow> bool) \<Rightarrow> 's \<Rightarrow> bool" where
  "wp m Q s \<longleftrightarrow> (\<forall>d. st d = s \<longrightarrow> Q (fst (m d)) (st (snd (m d))))"

lemma wp_D: "wp m Q (st d) \<Longrightarrow> m d = (r, d') \<Longrightarrow> Q r (st d')"
  unfolding wp_def by (metis fst_conv snd_conv)

lemma wp_weaken: "wp m Q s \<Longrightarrow> (\<And>r s'. Q r s' \<Longrightarrow> Q' r s') \<Longrightarrow> wp m Q' s"
  by (simp add: wp_def)

lemma wp_ret [wp_intro]: "Q (Inr a) s \<Longrightarrow> wp (ret a) Q s"
  by (simp add: wp_def ret_def)

lemma wp_fail [wp_intro]: "Q (Inl e) s \<Longrightarrow> wp (fail e) Q s"
  by (simp add: wp_def fail_def)

lemma wp_lift [wp_intro]: "Q x s \<Longrightarrow> wp (lift x) Q s"
  by (simp add: wp_def lift_def)

lemma wp_gets [wp_intro]: "Q (Inr (f s)) s \<Longrightarrow> wp (gets f) Q s"
  by (simp add: wp_def gets_def)

lemma wp_modify [wp_intro]: "Q (Inr ()) (f s) \<Longrightarrow> wp (modify f) Q s"
  by (simp add: wp_def modify_def)

lemma wp_stmt [wp_intro]:
  "(\<And>e. Q (Inl e) s) \<Longrightarrow> (\<And>a s'. f s = Inr (a, s') \<Longrightarrow> Q (Inr a) s') \<Longrightarrow> wp (stmt f) Q s"
  by (auto simp: wp_def stmt_def Let_def split: sum.splits prod.splits)

lemma wp_exec [wp_intro]: "(\<And>e. Q (Inl e) s) \<Longrightarrow> Q (Inr ()) (f s) \<Longrightarrow> wp (exec f) Q s"
  unfolding exec_def by (rule wp_stmt) auto

lemma wp_query [wp_intro]:
  "(\<And>e. Q (Inl e) s) \<Longrightarrow> Q (Inr (map (json_row p b) (f s))) s \<Longrightarrow> wp (query p b f) Q s"
  unfolding query_def by (rule wp_stmt) auto

lemma wp_bind_io [wp_intro]:
  assumes "wp m (\<lambda>r s'. (\<forall>e. r = Inl e \<longrightarrow> Q (Inl e) s') \<and> (\<forall>a. r = Inr a \<longrightarrow> wp (k a) Q s')) s"
  shows "wp (bind_io m k) Q s"
  unfolding wp_def
proof (intro allI impI)
  fix d :: "'a db" assume "st d = s"
  obtain r d1 where m: "m d = (r, d1)" by (cases "m d")
  from assms \<open>st d = s\<close> have "wp m (\<lambda>r s'. (\<forall>e. r = Inl e \<longrightarrow> Q (Inl e) s') \<and> (\<forall>a. r = Inr a \<longrightarrow> wp (k a) Q s')) (st d)"
    by simp
  from wp_D [OF this m] m show "Q (fst (bind_io m k d)) (st (snd (bind_io m k d)))"
    by (cases r) (simp_all add: bind_io_def wp_def)
qed

lemma wp_attempt [wp_intro]: "wp m (\<lambda>r. Q (Inr r)) s \<Longrightarrow> wp (attempt m) Q s"
  by (auto simp: wp_def attempt_def split: prod.splits)

lemma wp_if [wp_intro]: "(b \<Longrightarrow> wp m Q s) \<Longrightarrow> (\<not> b \<Longrightarrow> wp n Q s) \<Longrightarrow> wp (if b then m else n) Q s"
  by simp

lemma wp_conj: "wp m P s \<Longrightarrow> wp m Q s \<Longrightarrow> wp m (\<lambda>r s'. P r s' \<and> Q r s') s"
  by (simp add: wp_def)

lemma wp_keeps: "keeps P m \<Longrightarrow> P s \<Longrightarrow> wp m (\<lambda>_. P) s"
  by (simp add: keeps_def wp_def)

lemma wp_up: "wp m Q s \<Longrightarrow> Q (fst (m (up s))) (st (snd (m (up s))))"
  by (simp add: wp_def)

text \<open>\<open>calls m s r s'\<close>: with some failures, \<open>m\<close> leads from \<open>s\<close> to \<open>s'\<close> with the result \<open>r\<close>.\<close>

definition calls :: "('s, 'a) io \<Rightarrow> 's \<Rightarrow> 'a result \<Rightarrow> 's \<Rightarrow> bool" where
  "calls m s r s' \<longleftrightarrow> (\<exists>d d'. st d = s \<and> m d = (r, d') \<and> st d' = s')"

lemma calls_up: "m (up s) = (r, up s') \<Longrightarrow> calls m s r s'"
  unfolding calls_def by (intro exI [of _ "up s"] exI [of _ "up s'"]) simp

lemma calls_wp: "calls m s r s' \<Longrightarrow> wp m Q s \<Longrightarrow> Q r s'"
  unfolding calls_def by (metis wp_D)

lemma calls_keeps: "calls m s r s' \<Longrightarrow> keeps P m \<Longrightarrow> P s \<Longrightarrow> P s'"
  unfolding calls_def by (metis keeps_D)

text \<open>
  \<open>execute_batch\<close>: the statements of a batch are sent one by one, outside a transaction; \<open>run\<close> is
  what the server does with one statement.
\<close>

definition execute_batch :: "(string \<Rightarrow> 's \<Rightarrow> 's result) \<Rightarrow> string \<Rightarrow> ('s, unit) io" where
  "execute_batch run sql =
     for_io (\<lambda>s _. stmt (\<lambda>t. map_sum id (\<lambda>t'. ((), t')) (run s t))) (batch_statements sql) ()"

end
