(* ===== verification/Migrations.thy ===== *)
theory Migrations imports Store "HOL-Library.Multiset" "HOL-Library.List_Lexorder" "HOL-Library.Char_ord" begin

text \<open>
  Versioned schema migrations (\<open>src/src/db/schema_migrations.rs\<close>). The state is the migrations table
  and the rest of the database, the schema the migrations act on. A row of the table is a record; the
  server's answer to one statement of a migration is the parameter \<open>run\<close>, so that every theorem holds
  for every SQL the migrations may contain; the digest and the clock are parameters too.
\<close>

section \<open>State\<close>

datatype migration_status = Pending | Applied | Failed | RolledBack

text \<open>The text that serde derives with \<open>rename_all = "lowercase"\<close>.\<close>

fun status_text :: "migration_status \<Rightarrow> string" where
  "status_text Pending = ''pending''"
| "status_text Applied = ''applied''"
| "status_text Failed = ''failed''"
| "status_text RolledBack = ''rolledback''"

text \<open>The struct \<open>Migration\<close>, with its version as a \<open>u64\<close>.\<close>

record migration =
  m_id :: string
  m_version :: nat
  m_name :: string
  m_up :: string
  m_down :: string
  m_checksum :: string
  m_status :: migration_status

text \<open>A row of \<open>stackhouse_schema_migrations\<close>.\<close>

record mig_row =
  mg_id :: string
  mg_version :: int
  mg_name :: string
  mg_up :: string
  mg_down :: string
  mg_checksum :: string
  mg_applied_at :: "string option"
  mg_time :: "int option"
  mg_status :: string

record 'w mig_db =
  migs :: "mig_row list"
  world :: 'w

text \<open>Casts between \<open>u64\<close> and \<open>i64\<close>.\<close>

definition as_i64_cast :: "nat \<Rightarrow> int" where
  "as_i64_cast n = sint (word_of_nat n :: 64 word)"

definition as_u64_cast :: "int \<Rightarrow> nat" where
  "as_u64_cast i = unat (word_of_int i :: 64 word)"

lemma as_u64_as_i64: "n < 2 ^ 64 \<Longrightarrow> as_u64_cast (as_i64_cast n) = n"
  by (simp add: as_u64_cast_def as_i64_cast_def unsigned_of_nat take_bit_nat_eq_self)

lemma as_i64_cast_small: "n < 2 ^ 63 \<Longrightarrow> as_i64_cast n = int n"
  unfolding as_i64_cast_def by (simp add: signed_of_nat signed_take_bit_int_eq_self)

lemma in_i64_cast: "in_i64 (as_i64_cast n)"
  using sint_greater_eq [of "word_of_nat n :: 64 word"] sint_less [of "word_of_nat n :: 64 word"]
  by (simp add: as_i64_cast_def in_i64_def)

section \<open>Operations\<close>

text \<open>
  \<open>compute_checksum\<close>: the first 16 characters of the hexadecimal digest of the statement.
\<close>

definition compute_checksum :: "(string \<Rightarrow> string) \<Rightarrow> string \<Rightarrow> string" where
  "compute_checksum sha256_hex sql = take 16 (sha256_hex sql)"

text \<open>
  \<open>register\<close>: \<open>INSERT .. ON CONFLICT (version) DO NOTHING\<close>. A second row with the primary key of a
  different version is a unique violation.
\<close>

definition row_of_migration :: "migration \<Rightarrow> mig_row" where
  "row_of_migration m =
     \<lparr>mg_id = m_id m, mg_version = as_i64_cast (m_version m), mg_name = m_name m, mg_up = m_up m,
      mg_down = m_down m, mg_checksum = m_checksum m, mg_applied_at = None, mg_time = None,
      mg_status = status_text (m_status m)\<rparr>"

definition insert_migration :: "mig_row \<Rightarrow> mig_row list \<Rightarrow> mig_row list result" where
  "insert_migration r ms =
     (if mg_version r \<in> mg_version ` set ms then Inr ms
      else if mg_id r \<in> mg_id ` set ms then Inl (Database ''duplicate key'')
      else Inr (ms @ [r]))"

definition register :: "migration \<Rightarrow> ('w mig_db, unit) io" where
  "register m =
     stmt (\<lambda>s. and_then (insert_migration (row_of_migration m) (migs s))
                (\<lambda>ms. Inr ((), s\<lparr>migs := ms\<rparr>)))"

text \<open>The statements of a migration act on the schema only.\<close>

definition on_world :: "(string \<Rightarrow> 'w \<Rightarrow> 'w result) \<Rightarrow> string \<Rightarrow> 'w mig_db \<Rightarrow> 'w mig_db result" where
  "on_world run q s = map_sum id (\<lambda>w. s\<lparr>world := w\<rparr>) (run q (world s))"

definition mark :: "string \<Rightarrow> (mig_row \<Rightarrow> mig_row) \<Rightarrow> 'w mig_db \<Rightarrow> 'w mig_db" where
  "mark i f s = s\<lparr>migs := map (\<lambda>m. if mg_id m = i then f m else m) (migs s)\<rparr>"

definition set_applied :: "string \<Rightarrow> int \<Rightarrow> mig_row \<Rightarrow> mig_row" where
  "set_applied now ms m = m\<lparr>mg_status := ''applied'', mg_applied_at := Some now, mg_time := Some ms\<rparr>"

definition set_failed :: "mig_row \<Rightarrow> mig_row" where
  "set_failed m = m\<lparr>mg_status := ''failed''\<rparr>"

definition set_rolled_back :: "mig_row \<Rightarrow> mig_row" where
  "set_rolled_back m = m\<lparr>mg_status := ''rolled_back'', mg_applied_at := None\<rparr>"

text \<open>\<open>format!("{}: {}", version, name)\<close>, with the version cast back to \<open>u64\<close>.\<close>

definition label :: "row \<Rightarrow> string" where
  "label r = show_nat (as_u64_cast (unwrap_or 0 (col_i64 r ''version''))) @ '': '' @ unwrap_or [] (col_str r ''name'')"

definition mig_cells :: "mig_row \<Rightarrow> (string \<times> cell) list" where
  "mig_cells m =
     [(''id'', cell_text (mg_id m)), (''version'', cell_int (mg_version m)), (''name'', cell_text (mg_name m)),
      (''up_sql'', cell_text (mg_up m)), (''down_sql'', cell_text (mg_down m)),
      (''checksum'', cell_text (mg_checksum m))]"

text \<open>\<open>WHERE status = 'pending' ORDER BY version\<close>, and the applied ones in descending order.\<close>

definition pending :: "'w mig_db \<Rightarrow> mig_row list" where
  "pending s = sort_key mg_version (filter (\<lambda>m. mg_status m = ''pending'') (migs s))"

definition applied_above :: "int option \<Rightarrow> 'w mig_db \<Rightarrow> mig_row list" where
  "applied_above t s =
     rev (sort_key mg_version
       (filter (\<lambda>m. mg_status m = ''applied'' \<and> (case t of None \<Rightarrow> True | Some v \<Rightarrow> v < mg_version m)) (migs s)))"

text \<open>The body of the loop of \<open>migrate\<close>, and \<open>migrate\<close>.\<close>

definition migrate_step ::
  "(string \<Rightarrow> 'w \<Rightarrow> 'w result) \<Rightarrow> string \<Rightarrow> (string \<Rightarrow> nat) \<Rightarrow> row \<Rightarrow> string list \<Rightarrow> ('w mig_db, string list) io" where
  "migrate_step run now elapsed r applied =
     (let i = unwrap_or [] (col_str r ''id'')
      in bind_io (attempt (execute_batch (on_world run) (unwrap_or [] (col_str r ''up_sql''))))
        (\<lambda>res. case res of
            Inr _ \<Rightarrow> bind_io (exec (mark i (set_applied now (as_i64_cast (elapsed i)))))
                             (\<lambda>_. ret (applied @ [label r]))
          | Inl e \<Rightarrow> bind_io (exec (mark i set_failed)) (\<lambda>_. fail e)))"

definition migrate ::
  "(string \<Rightarrow> json option) \<Rightarrow> (string \<Rightarrow> string) \<Rightarrow> (string \<Rightarrow> 'w \<Rightarrow> 'w result) \<Rightarrow> string \<Rightarrow> (string \<Rightarrow> nat)
   \<Rightarrow> ('w mig_db, string list) io" where
  "migrate p b run now elapsed =
     bind_io (query p b (\<lambda>s. map mig_cells (pending s)))
       (\<lambda>rows. for_io (migrate_step run now elapsed) rows [])"

text \<open>The part of a rollback that \<open>rollback_one\<close> and \<open>rollback_to\<close> do for one row.\<close>

definition rollback_row :: "(string \<Rightarrow> 'w \<Rightarrow> 'w result) \<Rightarrow> row \<Rightarrow> ('w mig_db, string) io" where
  "rollback_row run r =
     bind_io (execute_batch (on_world run) (unwrap_or [] (col_str r ''down_sql'')))
       (\<lambda>_. bind_io (exec (mark (unwrap_or [] (col_str r ''id'')) set_rolled_back))
          (\<lambda>_. ret (''Rolled back '' @ label r)))"

definition rollback_one ::
  "(string \<Rightarrow> json option) \<Rightarrow> (string \<Rightarrow> string) \<Rightarrow> (string \<Rightarrow> 'w \<Rightarrow> 'w result) \<Rightarrow> ('w mig_db, string) io" where
  "rollback_one p b run =
     bind_io (query p b (\<lambda>s. map mig_cells (take 1 (applied_above None s))))
       (\<lambda>rows. case rows of
           [] \<Rightarrow> fail (NotFound ''No applied migrations to rollback'')
         | r # _ \<Rightarrow> rollback_row run r)"

definition rollback_to ::
  "(string \<Rightarrow> json option) \<Rightarrow> (string \<Rightarrow> string) \<Rightarrow> (string \<Rightarrow> 'w \<Rightarrow> 'w result) \<Rightarrow> nat \<Rightarrow> ('w mig_db, string list) io" where
  "rollback_to p b run target =
     bind_io (query p b (\<lambda>s. map mig_cells (applied_above (Some (as_i64_cast target)) s)))
       (\<lambda>rows. for_io (\<lambda>r acc. bind_io (rollback_row run r) (\<lambda>l. ret (acc @ [l]))) rows [])"

definition history ::
  "(string \<Rightarrow> json option) \<Rightarrow> (string \<Rightarrow> string) \<Rightarrow> ('w mig_db, json list) io" where
  "history p b =
     bind_io (query p b (\<lambda>s. map (\<lambda>m.
         [(''version'', cell_int (mg_version m)), (''name'', cell_text (mg_name m)),
          (''status'', cell_text (mg_status m)), (''applied_at'', cell_opt ''TIMESTAMPTZ'' cell_time (mg_applied_at m)),
          (''execution_time_ms'', cell_opt ''INT8'' cell_int (mg_time m))])
         (sort_key mg_version (migs s))))
       (\<lambda>rows. ret (map (\<lambda>r. JObject (sort_key fst r)) rows))"

definition verify_checksums ::
  "(string \<Rightarrow> json option) \<Rightarrow> (string \<Rightarrow> string) \<Rightarrow> (string \<Rightarrow> string) \<Rightarrow> ('w mig_db, string list) io" where
  "verify_checksums p b sha =
     bind_io (query p b (\<lambda>s. map mig_cells (migs s)))
       (\<lambda>rows. ret (concat (map (\<lambda>r.
          let version = as_u64_cast (unwrap_or 0 (col_i64 r ''version''))
          in if compute_checksum sha (unwrap_or [] (col_str r ''up_sql'')) \<noteq> unwrap_or [] (col_str r ''checksum'')
             then [''Migration '' @ show_nat version @ '' checksum mismatch''] else []) rows)))"


section \<open>Reading a row\<close>

text \<open>
  Text that starts with a brace or a bracket is parsed as JSON by the row reader. \<open>plain_row\<close> says
  the texts of a row are not of that kind and the version is in the range of its column.
\<close>

definition plain_row :: "mig_row \<Rightarrow> bool" where
  "plain_row m \<longleftrightarrow>
     plain (mg_id m) \<and> plain (mg_name m) \<and> plain (mg_up m) \<and> plain (mg_down m) \<and> plain (mg_checksum m)
     \<and> in_i64 (mg_version m)"

definition wf_migs :: "'w mig_db \<Rightarrow> bool" where
  "wf_migs s \<longleftrightarrow> distinct (map mg_id (migs s)) \<and> distinct (map mg_version (migs s)) \<and> list_all plain_row (migs s)"

definition mig_label :: "mig_row \<Rightarrow> string" where
  "mig_label m = show_nat (as_u64_cast (mg_version m)) @ '': '' @ mg_name m"

lemma read_mig_row [simp]:
  assumes "plain_row m"
  shows "col_str (json_row p b (mig_cells m)) ''id'' = Some (mg_id m)"
    and "col_str (json_row p b (mig_cells m)) ''up_sql'' = Some (mg_up m)"
    and "col_str (json_row p b (mig_cells m)) ''down_sql'' = Some (mg_down m)"
    and "col_str (json_row p b (mig_cells m)) ''checksum'' = Some (mg_checksum m)"
    and "col_i64 (json_row p b (mig_cells m)) ''version'' = Some (mg_version m)"
    and "label (json_row p b (mig_cells m)) = mig_label m"
  using assms
  by (simp_all add: plain_row_def plain_def col_str_def col_i64_def json_row_def mig_cells_def
      get_value_cell_text label_def mig_label_def)

lemma mark_simps [simp]:
  "migs (mark i f s) = map (\<lambda>m. if mg_id m = i then f m else m) (migs s)" "world (mark i f s) = world s"
  by (simp_all add: mark_def)

lemma set_fields [simp]:
  "mg_id (set_applied now ms m) = mg_id m" "mg_id (set_failed m) = mg_id m" "mg_id (set_rolled_back m) = mg_id m"
  "mg_version (set_applied now ms m) = mg_version m" "mg_version (set_failed m) = mg_version m"
  "mg_version (set_rolled_back m) = mg_version m" "mg_name (set_applied now ms m) = mg_name m"
  "mg_status (set_applied now ms m) = ''applied''" "mg_status (set_failed m) = ''failed''"
  "mg_status (set_rolled_back m) = ''rolled_back''"
  by (simp_all add: set_applied_def set_failed_def set_rolled_back_def)

section \<open>A batch and its trace\<close>

text \<open>
  \<open>runs run w sts w'\<close>: the server accepted the statements \<open>sts\<close> one after the other from \<open>w\<close>.
\<close>

definition runs :: "(string \<Rightarrow> 'w \<Rightarrow> 'w result) \<Rightarrow> 'w \<Rightarrow> string list \<Rightarrow> 'w \<Rightarrow> bool" where
  "runs run w sts w' \<longleftrightarrow> try_fold (\<lambda>t q. run q t) w sts = Inr w'"

lemma runs_Nil [simp]: "runs run w [] w' \<longleftrightarrow> w' = w"
  by (auto simp: runs_def)

lemma runs_append: "runs run w (xs @ ys) w' \<longleftrightarrow> (\<exists>v. runs run w xs v \<and> runs run v ys w')"
  by (simp add: runs_def try_fold_append and_then_eq_Inr)

lemma batch_trace:
  assumes "for_io (\<lambda>q _. stmt (\<lambda>t. map_sum id (\<lambda>t'. ((), t')) (on_world run q t))) sts () d = (r, d')"
  shows "\<exists>j \<le> length sts. runs run (world (st d)) (take j sts) (world (st d'))
           \<and> migs (st d') = migs (st d) \<and> (r = Inr () \<longrightarrow> j = length sts)"
  using assms
proof (induction sts arbitrary: d)
  case Nil
  then show ?case by (auto simp: ret_def)
next
  case (Cons q sts)
  from Cons.prems [unfolded for_io.simps] show ?case
  proof (cases rule: bind_io_cases)
    case (stop e)
    from stop(1) have "st d' = st d" by (cases rule: stmt_cases) auto
    with stop(2) show ?thesis by (intro exI [of _ 0]) simp
  next
    case (more a d1)
    from more(1) obtain w where w: "run q (world (st d)) = Inr w" "world (st d1) = w" "migs (st d1) = migs (st d)"
      by (cases rule: stmt_cases) (auto simp: on_world_def map_sum_def split: sum.splits dest!: sym [where t = "st d1"])
    from Cons.IH [OF more(2) [simplified]] obtain j where j: "j \<le> length sts"
      "runs run w (take j sts) (world (st d'))"
      "migs (st d') = migs (st d)" "r = Inr () \<longrightarrow> j = length sts"
      using w by auto
    then have "runs run (world (st d)) (take (Suc j) (q # sts)) (world (st d'))"
      using w(1) by (simp add: runs_def)
    with j show ?thesis by (intro exI [of _ "Suc j"]) auto
  qed
qed

lemma execute_batch_trace:
  assumes "execute_batch (on_world run) sql d = (r, d')"
  shows "\<exists>j \<le> length (batch_statements sql).
           runs run (world (st d)) (take j (batch_statements sql)) (world (st d'))
           \<and> migs (st d') = migs (st d) \<and> (r = Inr () \<longrightarrow> j = length (batch_statements sql))"
  using batch_trace assms unfolding execute_batch_def by blast


section \<open>Forward migration\<close>

definition mig_ids :: "mig_row list \<Rightarrow> string set" where
  "mig_ids ms = set (map mg_id ms)"

text \<open>What becomes of a row when the migrations \<open>ok\<close> were applied and \<open>bad\<close> failed.\<close>

definition migrated :: "string \<Rightarrow> (string \<Rightarrow> nat) \<Rightarrow> string set \<Rightarrow> string set \<Rightarrow> mig_row \<Rightarrow> mig_row" where
  "migrated now elapsed ok bad m =
     (if mg_id m \<in> ok then set_applied now (as_i64_cast (elapsed (mg_id m))) m
      else if mg_id m \<in> bad then set_failed m else m)"

definition up_statements :: "mig_row list \<Rightarrow> string list" where
  "up_statements ms = concat (map (\<lambda>m. batch_statements (mg_up m)) ms)"

lemma migrated_none [simp]: "migrated now elapsed {} {} = id"
  by (auto simp: migrated_def)

lemma up_statements_simps [simp]:
  "up_statements [] = []" "up_statements (m # ms) = batch_statements (mg_up m) @ up_statements ms"
  by (simp_all add: up_statements_def)

lemma mig_ids_simps [simp]: "mig_ids [] = {}" "mig_ids (m # ms) = insert (mg_id m) (mig_ids ms)"
  by (auto simp: mig_ids_def)

lemma mig_ids_sub: "mig_ids (take n ms) \<subseteq> mig_ids ms" "mig_ids (drop n ms) \<subseteq> mig_ids ms"
  by (auto simp: mig_ids_def dest: in_set_takeD in_set_dropD)

text \<open>One migration: what \<open>migrate_step\<close> may do to the two halves of the state.\<close>

lemma migrate_step_outcome:
  assumes "migrate_step run now elapsed (json_row p b (mig_cells m)) acc d = (r, d')" "plain_row m"
  obtains
    (applied) "r = Inr (acc @ [mig_label m])"
      "migs (st d') = map (migrated now elapsed {mg_id m} {}) (migs (st d))"
      "runs run (world (st d)) (batch_statements (mg_up m)) (world (st d'))"
  | (stopped) j bad e where "r = Inl e" "bad \<subseteq> {mg_id m}"
      "migs (st d') = map (migrated now elapsed {} bad) (migs (st d))"
      "runs run (world (st d)) (take j (batch_statements (mg_up m))) (world (st d'))"
proof -
  let ?B = "execute_batch (on_world run) (mg_up m)"
  from assms have step: "bind_io (attempt ?B) (\<lambda>res. case res of
            Inr _ \<Rightarrow> bind_io (exec (mark (mg_id m) (set_applied now (as_i64_cast (elapsed (mg_id m))))))
                             (\<lambda>_. ret (acc @ [mig_label m]))
          | Inl e \<Rightarrow> bind_io (exec (mark (mg_id m) set_failed)) (\<lambda>_. fail e)) d = (r, d')"
    by (simp add: migrate_step_def Let_def)
  obtain r1 d1 where B: "?B d = (r1, d1)" by (cases "?B d")
  from execute_batch_trace [OF B] obtain j where j:
    "runs run (world (st d)) (take j (batch_statements (mg_up m))) (world (st d1))"
    "migs (st d1) = migs (st d)" "r1 = Inr () \<longrightarrow> j = length (batch_statements (mg_up m))"
    by blast
  show thesis
  proof (cases r1)
    case (Inr u)
    with step B have "bind_io (exec (mark (mg_id m) (set_applied now (as_i64_cast (elapsed (mg_id m))))))
                         (\<lambda>_. ret (acc @ [mig_label m])) d1 = (r, d')"
      by (simp add: bind_io_def attempt_def)
    then show thesis
    proof (cases rule: bind_io_cases)
      case (stop e)
      from stop(1) have "st d' = st d1" by (cases rule: exec_cases) auto
      with stop(2) j show thesis by (intro stopped [of e "{}" j]) simp_all
    next
      case (more a d2)
      from more(1) have "st d2 = mark (mg_id m) (set_applied now (as_i64_cast (elapsed (mg_id m)))) (st d1)"
        by (cases rule: exec_cases) auto
      with more(2) Inr j show thesis
        by (intro applied) (auto simp: migrated_def)
    qed
  next
    case (Inl e)
    with step B have "bind_io (exec (mark (mg_id m) set_failed)) (\<lambda>_. fail e) d1 = (r, d')"
      by (simp add: bind_io_def attempt_def)
    then show thesis
    proof (cases rule: bind_io_cases)
      case (stop e')
      from stop(1) have "st d' = st d1" by (cases rule: exec_cases) auto
      with stop(2) j show thesis by (intro stopped [of e' "{}" j]) simp_all
    next
      case (more a d2)
      from more(1) have "st d2 = mark (mg_id m) set_failed (st d1)" by (cases rule: exec_cases) auto
      with more(2) j show thesis
        by (intro stopped [of e "{mg_id m}" j]) (auto simp: migrated_def)
    qed
  qed
qed

lemma migrated_compose:
  assumes "mg_id m \<notin> ok" "mg_id m \<notin> bad"
  shows "map (migrated now elapsed ok bad) (map (migrated now elapsed {mg_id m} {}) ms)
       = map (migrated now elapsed (insert (mg_id m) ok) bad) ms"
  using assms by (auto simp: migrated_def)

lemma migrate_loop:
  assumes "for_io (migrate_step run now elapsed) (map (json_row p b) (map mig_cells ms)) acc d = (r, d')"
    and "list_all plain_row ms" "distinct (map mg_id ms)"
  shows "\<exists>k j bad. k \<le> length ms \<and> bad \<subseteq> mig_ids (take 1 (drop k ms))
    \<and> migs (st d') = map (migrated now elapsed (mig_ids (take k ms)) bad) (migs (st d))
    \<and> runs run (world (st d)) (up_statements (take k ms) @ take j (up_statements (take 1 (drop k ms)))) (world (st d'))
    \<and> (\<forall>l. r = Inr l \<longrightarrow> k = length ms \<and> l = acc @ map mig_label ms)"
  using assms
proof (induction ms arbitrary: acc d)
  case Nil
  then show ?case by auto
next
  case (Cons m ms)
  from Cons.prems have pm: "plain_row m" and pms: "list_all plain_row ms" "distinct (map mg_id ms)"
    and fresh: "mg_id m \<notin> mig_ids ms" by (auto simp: mig_ids_def)
  from Cons.prems(1) have "bind_io (migrate_step run now elapsed (json_row p b (mig_cells m)) acc)
    (\<lambda>acc'. for_io (migrate_step run now elapsed) (map (json_row p b) (map mig_cells ms)) acc') d = (r, d')" by simp
  then show ?case
  proof (cases rule: bind_io_cases)
    case (stop e)
    from stop(1) pm show ?thesis
    proof (cases rule: migrate_step_outcome)
      case (stopped j bad e')
      with stop(2) show ?thesis by (intro exI [of _ 0] exI [of _ j] exI [of _ bad]) simp
    qed simp
  next
    case (more acc1 d1)
    from more(1) pm show ?thesis
    proof (cases rule: migrate_step_outcome)
      case applied
      from Cons.IH [OF more(2) pms] obtain k j bad where IH: "k \<le> length ms"
        "bad \<subseteq> mig_ids (take 1 (drop k ms))"
        "migs (st d') = map (migrated now elapsed (mig_ids (take k ms)) bad) (migs (st d1))"
        "runs run (world (st d1)) (up_statements (take k ms) @ take j (up_statements (take 1 (drop k ms)))) (world (st d'))"
        "\<forall>l. r = Inr l \<longrightarrow> k = length ms \<and> l = acc1 @ map mig_label ms" by blast
      have "mg_id m \<notin> mig_ids (take k ms)" "mg_id m \<notin> bad"
        using fresh IH(2) mig_ids_sub [where ms = ms] mig_ids_sub [where ms = "drop k ms"] by blast+
      with applied IH have "migs (st d') = map (migrated now elapsed (mig_ids (take (Suc k) (m # ms))) bad) (migs (st d))"
        by (simp add: migrated_compose del: map_map)
      moreover have "runs run (world (st d)) (up_statements (take (Suc k) (m # ms))
                 @ take j (up_statements (take 1 (drop (Suc k) (m # ms))))) (world (st d'))"
        using applied(3) IH(4) by (auto simp: runs_append)
      ultimately show ?thesis using IH(1,2,5) applied(1)
        by (intro exI [of _ "Suc k"] exI [of _ j] exI [of _ bad]) simp
    qed simp
  qed
qed


lemma pending_props:
  assumes "wf_migs s"
  shows "list_all plain_row (pending s)" "distinct (map mg_id (pending s))"
    "sorted_wrt (<) (map mg_version (pending s))"
proof -
  let ?f = "filter (\<lambda>m. mg_status m = ''pending'') (migs s)"
  have perm: "set (pending s) = set ?f" "mset (pending s) = mset ?f" by (simp_all add: pending_def)
  show "list_all plain_row (pending s)"
    using assms by (auto simp: perm(1) list_all_iff wf_migs_def)
  have d: "distinct (map f (pending s))" if "distinct (map f (migs s))" for f :: "mig_row \<Rightarrow> 'b"
    using distinct_map_filter [OF that] perm(2) mset_eq_imp_distinct_iff [of "map f (pending s)" "map f ?f"]
    by (simp add: mset_map)
  from assms show "distinct (map mg_id (pending s))" by (intro d) (simp add: wf_migs_def)
  from assms have "distinct (map mg_version (pending s))" by (intro d) (simp add: wf_migs_def)
  moreover have "sorted (map mg_version (pending s))" by (simp add: pending_def)
  ultimately show "sorted_wrt (<) (map mg_version (pending s))" by (simp add: strict_sorted_iff)
qed

text \<open>
  C6. Migrations are applied in version order, and the table of migrations never runs ahead of the
  schema. Whatever database calls fail, there is a prefix of the pending migrations (ascending
  versions) such that exactly those rows became applied, at most the next one became failed, all
  other rows are as they were, and the statements accepted by the server are those of the prefix
  followed by an initial part of the next migration. On success the prefix is everything.
\<close>

theorem migrate_applies_prefix:
  assumes "wf_migs (st d)" "migrate p b run now elapsed d = (r, d')"
  shows "\<exists>k j bad. let ps = pending (st d) in
    sorted_wrt (<) (map mg_version ps) \<and> k \<le> length ps \<and> bad \<subseteq> mig_ids (take 1 (drop k ps))
    \<and> migs (st d') = map (migrated now elapsed (mig_ids (take k ps)) bad) (migs (st d))
    \<and> runs run (world (st d)) (up_statements (take k ps) @ take j (up_statements (take 1 (drop k ps)))) (world (st d'))
    \<and> (\<forall>l. r = Inr l \<longrightarrow> k = length ps \<and> l = map mig_label ps)"
proof -
  note pp = pending_props [OF assms(1)]
  from assms(2) show ?thesis unfolding migrate_def
  proof (cases rule: bind_io_cases)
    case (stop e)
    from stop(1) have "st d' = st d" by (cases rule: query_cases) auto
    with stop(2) pp show ?thesis by (intro exI [of _ 0] exI [of _ "{}"]) simp
  next
    case (more rows d1)
    from more(1) have r: "rows = map (json_row p b) (map mig_cells (pending (st d)))" "st d1 = st d"
      by (cases rule: query_cases; simp)+
    from migrate_loop [OF more(2) [unfolded r(1)] pp(1,2)] pp(3) show ?thesis
      by (simp add: r(2) Let_def)
  qed
qed

text \<open>Two pending migrations, and a server that accepts every statement and logs it.\<close>

definition demo_row :: "string \<Rightarrow> int \<Rightarrow> string \<Rightarrow> string \<Rightarrow> mig_row" where
  "demo_row i v u dn =
     \<lparr>mg_id = i, mg_version = v, mg_name = i, mg_up = u, mg_down = dn, mg_checksum = [], mg_applied_at = None,
      mg_time = None, mg_status = ''pending''\<rparr>"

definition demo_migs :: "string list mig_db" where
  "demo_migs = \<lparr>migs = [demo_row ''b'' 2 ''U2'' ''D2'', demo_row ''a'' 1 ''U1'' ''D1''], world = []\<rparr>"

definition log_run :: "string \<Rightarrow> string list \<Rightarrow> string list result" where
  "log_run q w = Inr (w @ [q])"

lemma demo_migs_wf: "wf_migs demo_migs"
  by (simp add: wf_migs_def demo_migs_def demo_row_def plain_row_def plain_def starts_with_def in_i64_def)

theorem migrate_applies_prefix_witness:
  "\<exists>r d' k j bad. migrate (\<lambda>_. None) id log_run ''now'' (\<lambda>_. 5) (up demo_migs) = (r, d') \<and> k \<le> 2
    \<and> migs (st d') = map (migrated ''now'' (\<lambda>_. 5) (mig_ids (take k (pending demo_migs))) bad) (migs demo_migs)
    \<and> runs log_run [] (up_statements (take k (pending demo_migs))
        @ take j (up_statements (take 1 (drop k (pending demo_migs))))) (world (st d'))"
proof -
  have len: "length (pending demo_migs) = 2"
    by (simp add: pending_def demo_migs_def demo_row_def)
  have w: "world demo_migs = []" by (simp add: demo_migs_def)
  obtain r d' where r: "migrate (\<lambda>_. None) id log_run ''now'' (\<lambda>_. 5) (up demo_migs) = (r, d')"
    by (cases "migrate (\<lambda>_. None) id log_run ''now'' (\<lambda>_. 5) (up demo_migs)")
  have "wf_migs (st (up demo_migs))" by (simp add: demo_migs_wf)
  from migrate_applies_prefix [OF this r] obtain k j bad where
    "k \<le> length (pending demo_migs)"
    "migs (st d') = map (migrated ''now'' (\<lambda>_. 5) (mig_ids (take k (pending demo_migs))) bad) (migs demo_migs)"
    "runs log_run (world demo_migs) (up_statements (take k (pending demo_migs))
        @ take j (up_statements (take 1 (drop k (pending demo_migs))))) (world (st d'))"
    by (auto simp: Let_def)
  with r len w show ?thesis by (metis (no_types, lifting))
qed

section \<open>Rollback\<close>

definition rolled :: "string set \<Rightarrow> mig_row \<Rightarrow> mig_row" where
  "rolled ids m = (if mg_id m \<in> ids then set_rolled_back m else m)"

definition down_statements :: "mig_row list \<Rightarrow> string list" where
  "down_statements ms = concat (map (\<lambda>m. batch_statements (mg_down m)) ms)"

lemma rolled_none [simp]: "rolled {} = id"
  by (auto simp: rolled_def)

lemma down_statements_simps [simp]:
  "down_statements [] = []" "down_statements (m # ms) = batch_statements (mg_down m) @ down_statements ms"
  by (simp_all add: down_statements_def)

lemma rollback_row_outcome:
  assumes "rollback_row run (json_row p b (mig_cells m)) d = (r, d')" "plain_row m"
  obtains
    (rolled) "r = Inr (''Rolled back '' @ mig_label m)"
      "migs (st d') = map (rolled {mg_id m}) (migs (st d))"
      "runs run (world (st d)) (batch_statements (mg_down m)) (world (st d'))"
  | (stopped) j e where "r = Inl e" "migs (st d') = migs (st d)"
      "runs run (world (st d)) (take j (batch_statements (mg_down m))) (world (st d'))"
proof -
  from assms have "bind_io (execute_batch (on_world run) (mg_down m))
       (\<lambda>_. bind_io (exec (mark (mg_id m) set_rolled_back)) (\<lambda>_. ret (''Rolled back '' @ mig_label m))) d = (r, d')"
    by (simp add: rollback_row_def)
  then show thesis
  proof (cases rule: bind_io_cases)
    case (stop e)
    from execute_batch_trace [OF stop(1)] stop(2) show thesis by (auto intro: stopped)
  next
    case (more a d1)
    from execute_batch_trace [OF more(1)] have t: "migs (st d1) = migs (st d)"
      "runs run (world (st d)) (batch_statements (mg_down m)) (world (st d1))" by auto
    from more(2) show thesis
    proof (cases rule: bind_io_cases)
      case (stop e)
      from stop(1) have "st d' = st d1" by (cases rule: exec_cases) auto
      with stop(2) t show thesis by (intro stopped [of e "length (batch_statements (mg_down m))"]) simp_all
    next
      case (more b d2)
      from more(1) have "st d2 = mark (mg_id m) set_rolled_back (st d1)" by (cases rule: exec_cases) auto
      with more(2) t show thesis by (intro rolled) (auto simp: Migrations.rolled_def)
    qed
  qed
qed


lemma rolled_compose: "map (rolled A) (map (rolled {i}) ms) = map (rolled (insert i A)) ms"
  by (auto simp: rolled_def set_rolled_back_def)

abbreviation rollback_rows ::
  "(string \<Rightarrow> 'w \<Rightarrow> 'w result) \<Rightarrow> row list \<Rightarrow> string list \<Rightarrow> ('w mig_db, string list) io" where
  "rollback_rows run \<equiv> for_io (\<lambda>r acc. bind_io (rollback_row run r) (\<lambda>l. ret (acc @ [l])))"

lemma rollback_loop:
  assumes "rollback_rows run (map (json_row p b) (map mig_cells ms)) acc d = (r, d')" "list_all plain_row ms"
  shows "\<exists>k j. k \<le> length ms
    \<and> migs (st d') = map (rolled (mig_ids (take k ms))) (migs (st d))
    \<and> runs run (world (st d)) (down_statements (take k ms) @ take j (down_statements (take 1 (drop k ms)))) (world (st d'))
    \<and> (\<forall>l. r = Inr l \<longrightarrow> k = length ms \<and> l = acc @ map (\<lambda>m. ''Rolled back '' @ mig_label m) ms)"
  using assms
proof (induction ms arbitrary: acc d)
  case Nil
  then show ?case by auto
next
  case (Cons m ms)
  from Cons.prems have pm: "plain_row m" and pms: "list_all plain_row ms" by simp_all
  from Cons.prems(1) have "bind_io (bind_io (rollback_row run (json_row p b (mig_cells m))) (\<lambda>l. ret (acc @ [l])))
    (\<lambda>acc'. rollback_rows run (map (json_row p b) (map mig_cells ms)) acc') d = (r, d')" by simp
  then show ?case
  proof (cases rule: bind_io_cases)
    case (stop e)
    from stop(1) show ?thesis
    proof (cases rule: bind_io_cases)
      case (stop e')
      from stop(1) pm show ?thesis
      proof (cases rule: rollback_row_outcome)
        case (stopped j e'')
        with \<open>r = Inl e\<close> show ?thesis by (intro exI [of _ 0] exI [of _ j]) simp
      qed simp
    qed simp
  next
    case (more acc1 d1)
    note rest = more(2)
    from more(1) show ?thesis
    proof (cases rule: bind_io_cases)
      case (more l d2)
      then have l: "acc1 = acc @ [l]" "d2 = d1" by simp_all
      from more(1) pm show ?thesis
      proof (cases rule: rollback_row_outcome)
        case rolled
        from Cons.IH [OF rest pms] obtain k j where IH: "k \<le> length ms"
          "migs (st d') = map (Migrations.rolled (mig_ids (take k ms))) (migs (st d1))"
          "runs run (world (st d1)) (down_statements (take k ms) @ take j (down_statements (take 1 (drop k ms)))) (world (st d'))"
          "\<forall>l. r = Inr l \<longrightarrow> k = length ms \<and> l = acc1 @ map (\<lambda>m. ''Rolled back '' @ mig_label m) ms"
          by blast
        have "migs (st d') = map (Migrations.rolled (mig_ids (take (Suc k) (m # ms)))) (migs (st d))"
          using IH(2) rolled(2) l by (simp add: rolled_compose del: map_map)
        moreover have "runs run (world (st d)) (down_statements (take (Suc k) (m # ms))
            @ take j (down_statements (take 1 (drop (Suc k) (m # ms))))) (world (st d'))"
          using rolled(3) IH(3) l by (auto simp: runs_append)
        ultimately show ?thesis using IH(1,4) rolled(1) l
          by (intro exI [of _ "Suc k"] exI [of _ j]) simp
      qed simp
    qed simp
  qed
qed

lemma set_applied_above:
  "set (applied_above t s) = {m \<in> set (migs s). mg_status m = ''applied'' \<and> (case t of None \<Rightarrow> True | Some v \<Rightarrow> v < mg_version m)}"
  by (auto simp: applied_above_def)

lemma applied_above_plain: "wf_migs s \<Longrightarrow> list_all plain_row (applied_above t s)"
  by (auto simp: list_all_iff set_applied_above wf_migs_def)

text \<open>
  A rollback to a version undoes applied migrations in descending version order. Whatever calls
  fail, the rows marked rolled back are a prefix of the applied migrations above the target, newest
  first; every other row is as it was; the accepted statements are the down scripts of the prefix and
  an initial part of the next one; and on success nothing above the target is still applied.
\<close>

theorem rollback_to_undoes_prefix:
  assumes "wf_migs (st d)" "rollback_to p b run target d = (r, d')"
  shows "\<exists>k j. let as = applied_above (Some (as_i64_cast target)) (st d) in
    sorted (rev (map mg_version as)) \<and> k \<le> length as
    \<and> migs (st d') = map (rolled (mig_ids (take k as))) (migs (st d))
    \<and> runs run (world (st d)) (down_statements (take k as) @ take j (down_statements (take 1 (drop k as)))) (world (st d'))
    \<and> (\<forall>l. r = Inr l \<longrightarrow> k = length as \<and>
         (\<forall>m \<in> set (migs (st d')). mg_status m = ''applied'' \<longrightarrow> mg_version m \<le> as_i64_cast target))"
proof -
  let ?as = "applied_above (Some (as_i64_cast target)) (st d)"
  have srt: "sorted (rev (map mg_version ?as))" by (simp add: applied_above_def rev_map)
  from assms(2) show ?thesis unfolding rollback_to_def
  proof (cases rule: bind_io_cases)
    case (stop e)
    from stop(1) have "st d' = st d" by (cases rule: query_cases) auto
    with stop(2) srt show ?thesis by (intro exI [of _ 0] exI [of _ 0]) simp
  next
    case (more rows d1)
    from more(1) have rw: "rows = map (json_row p b) (map mig_cells ?as)" "st d1 = st d"
      by (cases rule: query_cases; simp)+
    from rollback_loop [OF more(2) [unfolded rw(1)] applied_above_plain [OF assms(1)]] obtain k j where kj:
      "k \<le> length ?as" "migs (st d') = map (rolled (mig_ids (take k ?as))) (migs (st d))"
      "runs run (world (st d)) (down_statements (take k ?as) @ take j (down_statements (take 1 (drop k ?as)))) (world (st d'))"
      "\<forall>l. r = Inr l \<longrightarrow> k = length ?as"
      by (auto simp: rw(2))
    have "mg_version m \<le> as_i64_cast target"
      if "k = length ?as" "m \<in> set (migs (st d'))" "mg_status m = ''applied''" for m
    proof (rule ccontr)
      assume nle: "\<not> mg_version m \<le> as_i64_cast target"
      from that kj(2) obtain m0 where m0: "m0 \<in> set (migs (st d))" "m = rolled (mig_ids ?as) m0" by auto
      with that nle have "m = m0" "m0 \<in> set ?as"
        by (auto simp: rolled_def set_applied_above split: if_splits)
      then have "mg_id m0 \<in> mig_ids ?as" by (auto simp: mig_ids_def)
    with m0(2) that(3) show False by (simp add: rolled_def)
    qed
    with kj srt show ?thesis unfolding Let_def by (intro exI [of _ k] exI [of _ j]) blast
  qed
qed


theorem rollback_to_undoes_prefix_witness:
  "\<exists>r d'. rollback_to (\<lambda>_. None) id log_run 1 (up demo_migs) = (r, d')
    \<and> (\<exists>k. migs (st d') = map (rolled (mig_ids (take k (applied_above (Some (as_i64_cast 1)) demo_migs)))) (migs demo_migs))"
proof -
  obtain r d' where r: "rollback_to (\<lambda>_. None) id log_run 1 (up demo_migs) = (r, d')"
    by (cases "rollback_to (\<lambda>_. None) id log_run 1 (up demo_migs)")
  have "wf_migs (st (up demo_migs))" by (simp add: demo_migs_wf)
  from rollback_to_undoes_prefix [OF this r] r show ?thesis by (auto simp: Let_def)
qed

lemma rollback_one_outcome:
  assumes "wf_migs (st d)" "rollback_one p b run d = (r, d')"
  shows "(\<exists>e. r = Inl e \<and> migs (st d') = migs (st d)) \<or>
    (\<exists>m \<in> set (migs (st d)). mg_status m = ''applied''
       \<and> (\<forall>m' \<in> set (migs (st d)). mg_status m' = ''applied'' \<longrightarrow> mg_version m' \<le> mg_version m)
       \<and> r = Inr (''Rolled back '' @ mig_label m)
       \<and> migs (st d') = map (rolled {mg_id m}) (migs (st d))
       \<and> runs run (world (st d)) (batch_statements (mg_down m)) (world (st d')))"
  using assms(2) unfolding rollback_one_def
proof (cases rule: bind_io_cases)
  case (stop e)
  from stop(1) have "st d' = st d" by (cases rule: query_cases) auto
  with stop(2) show ?thesis by simp
next
  case (more rows d1)
  let ?as = "applied_above None (st d)"
  from more(1) have rw: "rows = map (json_row p b) (map mig_cells (take 1 ?as))" "st d1 = st d"
    by (cases rule: query_cases; simp)+
  show ?thesis
  proof (cases ?as)
    case Nil
    with rw more(2) show ?thesis by simp
  next
    case (Cons m ms)
    have srt: "sorted (rev (map mg_version ?as))" by (simp add: applied_above_def rev_map)
    have m: "m \<in> set (migs (st d))" "mg_status m = ''applied''"
      using set_applied_above [of None "st d"] Cons by auto
    have newest: "mg_version m' \<le> mg_version m" if "m' \<in> set (migs (st d))" "mg_status m' = ''applied''" for m'
    proof -
      from that have "m' \<in> set ?as" by (simp add: set_applied_above)
      with Cons srt show ?thesis by (auto simp: sorted_append)
    qed
    from applied_above_plain [OF assms(1), of None] Cons have "plain_row m" by simp
    moreover from more(2) rw Cons have "rollback_row run (json_row p b (mig_cells m)) d1 = (r, d')" by simp
    ultimately show ?thesis
      using m newest rw(2) by (elim rollback_row_outcome [rotated]) auto
  qed
qed

section \<open>Registration and checksums\<close>

lemma insert_migration_wf:
  assumes "insert_migration r ms = Inr ms'" "distinct (map mg_id ms)" "distinct (map mg_version ms)"
  shows "distinct (map mg_id ms')" "distinct (map mg_version ms')"
  using assms by (auto simp: insert_migration_def split: if_splits)

text \<open>
  The first registration of a version wins. Registering under any failures keeps versions and ids
  unique and never changes or removes a row; if the version was known the table is unchanged, so a
  rolled-back or failed version can never become pending again.
\<close>

theorem register_first_wins:
  assumes "wf_migs (st d)" "register m d = (r, d')"
  shows "distinct (map mg_id (migs (st d'))) \<and> distinct (map mg_version (migs (st d')))
    \<and> (\<exists>new. migs (st d') = migs (st d) @ new \<and> length new \<le> 1)
    \<and> (as_i64_cast (m_version m) \<in> mg_version ` set (migs (st d)) \<longrightarrow> migs (st d') = migs (st d))
    \<and> (r = Inr () \<longrightarrow> as_i64_cast (m_version m) \<in> mg_version ` set (migs (st d')))"
  using assms(2) unfolding register_def
proof (cases rule: stmt_cases)
  case (err e)
  with assms(1) show ?thesis by (simp add: wf_migs_def)
next
  case (ok a s')
  from ok(1) obtain ms where ms: "insert_migration (row_of_migration m) (migs (st d)) = Inr ms"
    "s' = (st d)\<lparr>migs := ms\<rparr>" by (auto simp: and_then_eq_Inr)
  have "migs (st d') = ms" using ms(2) ok(3) by simp
  moreover have "\<exists>new. ms = migs (st d) @ new \<and> length new \<le> 1"
    "as_i64_cast (m_version m) \<in> mg_version ` set (migs (st d)) \<longrightarrow> ms = migs (st d)"
    "as_i64_cast (m_version m) \<in> mg_version ` set ms"
    using ms(1) by (auto simp: insert_migration_def row_of_migration_def split: if_splits)
  ultimately show ?thesis
    using insert_migration_wf [OF ms(1)] assms(1) by (simp add: wf_migs_def)
qed

definition demo_migration :: migration where
  "demo_migration = \<lparr>m_id = ''c'', m_version = 2, m_name = ''c'', m_up = ''U'', m_down = ''D'', m_checksum = [], m_status = Pending\<rparr>"

theorem register_first_wins_witness:
  "migs (st (snd (register demo_migration (up demo_migs)))) = migs demo_migs"
proof -
  have "as_i64_cast 2 = 2" by (simp add: as_i64_cast_small)
  then have v: "as_i64_cast (m_version demo_migration) \<in> mg_version ` set (migs (st (up demo_migs)))"
    by (simp add: demo_migration_def demo_migs_def demo_row_def)
  have "wf_migs (st (up demo_migs))" by (simp add: demo_migs_wf)
  from register_first_wins [OF this, of demo_migration "fst (register demo_migration (up demo_migs))"] v
  show ?thesis by simp
qed

lemma verify_checksums_up:
  assumes "wf_migs s"
  shows "verify_checksums p b sha (up s) =
    (Inr (map (\<lambda>m. ''Migration '' @ show_nat (as_u64_cast (mg_version m)) @ '' checksum mismatch'')
       (filter (\<lambda>m. mg_checksum m \<noteq> compute_checksum sha (mg_up m)) (migs s))), up s)"
proof -
  have "concat (map (\<lambda>r. let version = as_u64_cast (unwrap_or 0 (col_i64 r ''version''))
          in if compute_checksum sha (unwrap_or [] (col_str r ''up_sql'')) \<noteq> unwrap_or [] (col_str r ''checksum'')
             then [''Migration '' @ show_nat version @ '' checksum mismatch''] else [])
          (map (json_row p b) (map mig_cells ms)))
    = map (\<lambda>m. ''Migration '' @ show_nat (as_u64_cast (mg_version m)) @ '' checksum mismatch'')
       (filter (\<lambda>m. mg_checksum m \<noteq> compute_checksum sha (mg_up m)) ms)" if "list_all plain_row ms" for ms
    using that by (induction ms) (auto simp: Let_def)
  with assms show ?thesis by (simp add: verify_checksums_def wf_migs_def)
qed

text \<open>
  A migration whose status update is lost is applied twice: the call that records the success is
  not in the transaction of the batch, so after its failure the row is still pending, and the next
  \<open>migrate\<close> sends the same statements again.
\<close>

theorem migrate_repeats_after_lost_update:
  "\<exists>d1 d2. migrate (\<lambda>_. None) id log_run ''now'' (\<lambda>_. 5)
       \<lparr>st = \<lparr>migs = [demo_row ''a'' 1 ''U1'' ''D1''], world = []\<rparr>, outages = [False, False, True]\<rparr>
       = (Inl (Database ''connection''), d1)
    \<and> migrate (\<lambda>_. None) id log_run ''now'' (\<lambda>_. 5) d1 = (Inr [''1: a''], d2)
    \<and> world (st d2) = [''U1'', ''U1''] \<and> map mg_status (migs (st d2)) = [''applied'']"
proof -
  let ?row = "demo_row ''a'' 1 ''U1'' ''D1''"
  have q: "batch_statements ''U1'' = [''U1'']"
    by (simp add: batch_statements_def trim_def trim_start_def is_whitespace_def)
  have pr: "plain_row ?row" by (simp add: demo_row_def plain_row_def plain_def starts_with_def in_i64_def)
  have sel: "mg_id ?row = ''a''" "mg_up ?row = ''U1''" "mg_status ?row = ''pending''" "mg_version ?row = 1" "mig_label ?row = ''1: a''"
    by (simp_all add: demo_row_def mig_label_def as_u64_cast_def) code_simp
  note eval = migrate_def query_def stmt_def bind_io_def attempt_def exec_def execute_batch_def migrate_step_def
    Let_def pending_def q log_run_def on_world_def ret_def fail_def pr sel
  have "migrate (\<lambda>_. None) id log_run ''now'' (\<lambda>_. 5)
       \<lparr>st = \<lparr>migs = [?row], world = []\<rparr>, outages = [False, False, True]\<rparr>
       = (Inl (Database ''connection''), \<lparr>st = \<lparr>migs = [?row], world = [''U1'']\<rparr>, outages = []\<rparr>)"
    by (simp add: eval)
  moreover have "migrate (\<lambda>_. None) id log_run ''now'' (\<lambda>_. 5)
       \<lparr>st = \<lparr>migs = [?row], world = [''U1'']\<rparr>, outages = []\<rparr>
       = (Inr [''1: a''], \<lparr>st = \<lparr>migs = [set_applied ''now'' (as_i64_cast 5) ?row], world = [''U1'', ''U1'']\<rparr>, outages = []\<rparr>)"
    by (simp add: eval mark_def)
  ultimately show ?thesis by (intro exI conjI) auto
qed

end
