(* ===== verification/Identifiers.thy ===== *)
theory Identifiers imports Store begin

text \<open>
  The lexical defences of the schema guard (\<open>src/src/security/guard.rs\<close>): which names may be
  spliced into DDL, how an arbitrary name is turned into one, and the filter for row-level-security
  expressions.
\<close>

section \<open>Identifiers\<close>

definition is_ident_start :: "char \<Rightarrow> bool" where
  "is_ident_start c \<longleftrightarrow> is_ascii_alphabetic c \<or> c = CHR ''_''"

definition is_word_char :: "char \<Rightarrow> bool" where
  "is_word_char c \<longleftrightarrow> is_ascii_alphanumeric c \<or> c = CHR ''_''"

definition IDENTIFIER_REGEX :: rx where
  "IDENTIFIER_REGEX = RSeq (RSet is_ident_start) (RStar (RSet is_word_char))"

definition RESERVED_KEYWORDS :: "string list" where
  "RESERVED_KEYWORDS =
     [''ALL'', ''ANALYSE'', ''ANALYZE'', ''AND'', ''ANY'', ''ARRAY'', ''AS'', ''ASC'',
      ''ASYMMETRIC'', ''AUTHORIZATION'', ''BINARY'', ''BOTH'', ''CASE'', ''CAST'', ''CHECK'',
      ''COLLATE'', ''COLLATION'', ''COLUMN'', ''CONCURRENTLY'', ''CONSTRAINT'', ''CREATE'',
      ''CROSS'', ''CURRENT_CATALOG'', ''CURRENT_DATE'', ''CURRENT_ROLE'', ''CURRENT_SCHEMA'',
      ''CURRENT_TIME'', ''CURRENT_TIMESTAMP'', ''CURRENT_USER'', ''DEFAULT'', ''DEFERRABLE'',
      ''DESC'', ''DISTINCT'', ''DO'', ''ELSE'', ''END'', ''EXCEPT'', ''FALSE'', ''FETCH'',
      ''FOR'', ''FOREIGN'', ''FREEZE'', ''FROM'', ''FULL'', ''GRANT'', ''GROUP'', ''HAVING'',
      ''ILIKE'', ''IN'', ''INITIALLY'', ''INNER'', ''INTERSECT'', ''INTO'', ''IS'', ''ISNULL'',
      ''JOIN'', ''LATERAL'', ''LEADING'', ''LEFT'', ''LIKE'', ''LIMIT'', ''LOCALTIME'',
      ''LOCALTIMESTAMP'', ''NATURAL'', ''NOT'', ''NOTNULL'', ''NULL'', ''OFFSET'', ''ON'',
      ''ONLY'', ''OR'', ''ORDER'', ''OUTER'', ''OVERLAPS'', ''PLACING'', ''PRIMARY'',
      ''REFERENCES'', ''RETURNING'', ''RIGHT'', ''SELECT'', ''SESSION_USER'', ''SIMILAR'',
      ''SOME'', ''SYMMETRIC'', ''TABLE'', ''TABLESAMPLE'', ''THEN'', ''TO'', ''TRAILING'',
      ''TRUE'', ''UNION'', ''UNIQUE'', ''USER'', ''USING'', ''VARIADIC'', ''VERBOSE'', ''WHEN'',
      ''WHERE'', ''WINDOW'', ''WITH'', ''ALTER'', ''DROP'', ''INDEX'', ''KEY'', ''TRUNCATE'',
      ''INSERT'', ''UPDATE'', ''DELETE'', ''SET'', ''RESET'', ''SHOW'', ''COPY'', ''EXPLAIN'',
      ''VACUUM'', ''REINDEX'', ''CLUSTER'', ''COMMENT'', ''LISTEN'', ''NOTIFY'', ''UNLISTEN'',
      ''LOCK'', ''REVOKE'', ''ABORT'', ''BEGIN'', ''COMMIT'', ''ROLLBACK'', ''SAVEPOINT'',
      ''RELEASE'', ''PREPARE'', ''EXECUTE'', ''DEALLOCATE'', ''DECLARE'', ''FETCH'', ''CLOSE'',
      ''MERGE'', ''CALL'', ''DO'', ''BIGINT'', ''BOOLEAN'', ''CHAR'', ''DECIMAL'', ''DOUBLE'',
      ''FLOAT'', ''INT'', ''INTEGER'', ''NUMERIC'', ''REAL'', ''SMALLINT'', ''TEXT'',
      ''VARCHAR'', ''DATE'', ''TIME'', ''TIMESTAMP'', ''INTERVAL'', ''BYTEA'', ''JSON'',
      ''JSONB'', ''UUID'', ''SERIAL'', ''BIGSERIAL'', ''MONEY'']"

definition validate_identifier :: "string \<Rightarrow> unit result" where
  "validate_identifier name =
     (if name = [] \<or> 128 < length name
      then Inl (InvalidIdentifier (''Identifier '' @ [CHR 0x27] @ name @ [CHR 0x27] @ '' must be 1-128 characters''))
      else if \<not> rx_match IDENTIFIER_REGEX name
      then Inl (InvalidIdentifier (''Identifier '' @ [CHR 0x27] @ name @ [CHR 0x27]
             @ '' contains invalid characters. Use only alphanumeric and underscores, starting with a letter or underscore''))
      else if to_uppercase name \<in> set RESERVED_KEYWORDS
      then Inl (InvalidIdentifier (''Identifier '' @ [CHR 0x27] @ name @ [CHR 0x27] @ '' is a SQL reserved keyword''))
      else Inr ())"

text \<open>The characters of \<open>chars().enumerate().map(..)\<close>, the first one by its own rule.\<close>

definition sanitize_identifier :: "string \<Rightarrow> string" where
  "sanitize_identifier name =
     take 128 (case name of [] \<Rightarrow> []
       | c # s \<Rightarrow> (if is_ident_start c then c else CHR ''_'')
                  # map (\<lambda>c. if is_word_char c then c else CHR ''_'') s)"

lemma identifier_regex_iff:
  "rx_match IDENTIFIER_REGEX name \<longleftrightarrow>
     (\<exists>c s. name = c # s \<and> is_ident_start c \<and> list_all is_word_char s)"
proof -
  have "rx_match IDENTIFIER_REGEX name \<longleftrightarrow>
          (\<exists>u v. name = u @ v \<and> (\<exists>c. u = [c] \<and> is_ident_start c) \<and> list_all is_word_char v)"
    unfolding rx_match_iff IDENTIFIER_REGEX_def
    by (subst in_lang_simps) (auto simp: in_lang_simps in_lang_RStar_RSet)
  then show ?thesis by (metis append_Cons append_Nil)
qed

lemma ident_start_word: "is_ident_start c \<Longrightarrow> is_word_char c"
  by (auto simp: is_ident_start_def is_word_char_def is_ascii_alphanumeric_def)

definition safe_ident :: "string \<Rightarrow> bool" where
  "safe_ident name \<longleftrightarrow>
     name \<noteq> [] \<and> length name \<le> 128 \<and> is_ident_start (hd name) \<and> (\<forall>c \<in> set name. is_word_char c)"

lemma safe_ident_iff:
  "safe_ident name \<longleftrightarrow> name \<noteq> [] \<and> length name \<le> 128 \<and> rx_match IDENTIFIER_REGEX name"
  unfolding identifier_regex_iff safe_ident_def
  by (cases name) (auto simp: list_all_iff ident_start_word)

lemma validate_identifier_ok_iff:
  "validate_identifier name = Inr () \<longleftrightarrow>
     name \<noteq> [] \<and> length name \<le> 128 \<and> is_ident_start (hd name) \<and> list_all is_word_char name
     \<and> to_uppercase name \<notin> set RESERVED_KEYWORDS"
  using safe_ident_iff [of name]
  by (auto simp: validate_identifier_def safe_ident_def not_less list_all_iff)

text \<open>Evaluation of the check on a literal name.\<close>

lemmas ident_eval = validate_identifier_ok_iff RESERVED_KEYWORDS_def is_ident_start_def is_word_char_def
  char_class_defs str_eval

text \<open>
  The identifier check accepts exactly the names of 1 to 128 letters, digits and underscores
  that do not start with a digit and are not reserved words in any letter case.
\<close>

theorem validate_identifier_iff:
  "validate_identifier name = Inr () \<longleftrightarrow>
     name \<noteq> [] \<and> length name \<le> 128 \<and> is_ident_start (hd name) \<and> list_all is_word_char name
     \<and> to_uppercase name \<notin> set RESERVED_KEYWORDS"
  by (rule validate_identifier_ok_iff)

lemma validate_identifier_safe: "validate_identifier name = Inr u \<Longrightarrow> safe_ident name"
  using safe_ident_iff [of name] by (auto simp: validate_identifier_def split: if_splits)

text \<open>
  Sanitising makes every non-empty name lexically safe, changes nothing on a safe name, and so
  is idempotent.
\<close>

theorem sanitize_identifier_safe:
  "(name \<noteq> [] \<longrightarrow> safe_ident (sanitize_identifier name)) \<and>
   (safe_ident name \<longrightarrow> sanitize_identifier name = name)"
proof (cases name)
  case Nil
  then show ?thesis by (simp add: safe_ident_def)
next
  case (Cons c s)
  have us: "is_ident_start CHR ''_''" "is_word_char CHR ''_''"
    by (simp_all add: is_ident_start_def is_word_char_def)
  have tk: "take 128 (x # xs) = x # take 127 xs" for x :: char and xs by (simp add: take_Cons')
  have "safe_ident (sanitize_identifier name)"
    using us Cons ident_start_word
    by (auto simp: sanitize_identifier_def safe_ident_def tk dest!: in_set_takeD)
  moreover have "safe_ident name \<Longrightarrow> sanitize_identifier name = name"
  proof -
    assume "safe_ident name"
    then have "map (\<lambda>c. if is_word_char c then c else CHR ''_'') s = s" "is_ident_start c"
      "length name \<le> 128"
      using Cons by (auto simp: safe_ident_def intro!: map_idI)
    with Cons show ?thesis by (simp add: sanitize_identifier_def)
  qed
  ultimately show ?thesis by simp
qed

theorem sanitize_identifier_safe_witness:
  "safe_ident (sanitize_identifier ''1; DROP TABLE users'') \<and> sanitize_identifier ''users'' = ''users''"
  using sanitize_identifier_safe [of "''1; DROP TABLE users''"] sanitize_identifier_safe [of "''users''"]
  by (simp add: safe_ident_def is_ident_start_def is_word_char_def char_class_defs)

section \<open>Row-level-security expressions\<close>

definition forbidden_keywords :: "string list" where
  "forbidden_keywords =
     [''delete'', ''drop'', ''insert'', ''update'', ''create'', ''alter'', ''grant'', ''revoke'', ''truncate'',
      ''execute'', ''exec'', ''union'', ''select'', ''copy'', ''listen'', ''notify'', ''load'', ''set'',
      ''reset'', ''show'']"

text \<open>
  The test of one keyword: the position of its first occurrence, the character before it and the
  character after it.
\<close>

definition keyword_hit :: "string \<Rightarrow> string \<Rightarrow> bool" where
  "keyword_hit normalized keyword =
     (case str_find normalized keyword of
        None \<Rightarrow> False
      | Some pos \<Rightarrow>
          (let before = take pos normalized; after = drop (pos + length keyword) normalized;
               before_ok = (before = [] \<or> \<not> is_word_char (last before));
               after_ok = (after = [] \<or> \<not> is_word_char (hd after))
           in before_ok \<and> after_ok))"

definition is_expr_char :: "char \<Rightarrow> bool" where
  "is_expr_char c \<longleftrightarrow>
     is_ascii_alphanumeric c \<or>
     c \<in> set ('' '' @ [CHR 0x09, CHR 0x0A, CHR 0x0D, CHR 0x27, CHR 0x22] @ ''_.,()[]=<>!+-*/%|&~#:?@'')"

definition validate_sql_expression :: "string \<Rightarrow> unit result" where
  "validate_sql_expression expr =
     (if expr = [] \<or> 2048 < length expr
      then Inl (InvalidPayload ''RLS expression must be 1-2048 characters'')
      else
        let normalized = to_lowercase expr in
        if str_contains normalized '';'' \<or> str_contains normalized ''--''
           \<or> str_contains normalized ''/*'' \<or> str_contains normalized ''*/''
        then Inl (InvalidPayload ''RLS expression contains forbidden characters or comments'')
        else case find (keyword_hit normalized) forbidden_keywords of
          Some keyword \<Rightarrow> Inl (InvalidPayload (''RLS expression contains forbidden keyword ''
                            @ [CHR 0x27] @ keyword @ [CHR 0x27]))
        | None \<Rightarrow>
            if \<not> list_all is_expr_char expr
            then Inl (InvalidPayload ''RLS expression contains invalid characters'')
            else Inr ())"

text \<open>
  What an accepted row-level-security expression is free of: it cannot end the statement, open a
  comment or contain a character outside the list, and no forbidden keyword makes its first
  occurrence as a word of its own.
\<close>

theorem validate_sql_expression_sound:
  assumes "validate_sql_expression expr = Inr ()"
  shows "CHR '';'' \<notin> set (to_lowercase expr) \<and> \<not> str_contains (to_lowercase expr) ''--''
    \<and> \<not> str_contains (to_lowercase expr) ''/*'' \<and> (\<forall>c \<in> set expr. is_expr_char c)
    \<and> (\<forall>k \<in> set forbidden_keywords. \<forall>u v. to_lowercase expr = u @ k @ v \<longrightarrow>
         str_find (to_lowercase expr) k = Some (length u) \<longrightarrow>
         (u \<noteq> [] \<and> is_word_char (last u)) \<or> (v \<noteq> [] \<and> is_word_char (hd v)))"
proof -
  let ?n = "to_lowercase expr"
  from assms have *: "\<not> str_contains ?n '';''" "\<not> str_contains ?n ''--''" "\<not> str_contains ?n ''/*''"
    "find (keyword_hit ?n) forbidden_keywords = None" "list_all is_expr_char expr"
    by (auto simp: validate_sql_expression_def Let_def split: if_splits option.splits)
  have "(u \<noteq> [] \<and> is_word_char (last u)) \<or> (v \<noteq> [] \<and> is_word_char (hd v))"
    if "k \<in> set forbidden_keywords" "?n = u @ k @ v" "str_find ?n k = Some (length u)" for k u v
  proof -
    from *(4) that(1) have "\<not> keyword_hit ?n k" by (simp add: find_None_all)
    with that(2,3) show ?thesis by (simp add: keyword_hit_def Let_def)
  qed
  with * show ?thesis by (auto simp: str_contains_char list_all_iff)
qed

theorem validate_sql_expression_sound_witness:
  "CHR '';'' \<notin> set (to_lowercase ''a = 1'') \<and> \<not> str_contains (to_lowercase ''a = 1'') ''--''"
proof -
  have "validate_sql_expression ''a = 1'' = Inr ()" by code_simp
  from validate_sql_expression_sound [OF this] show ?thesis by blast
qed

text \<open>
  The keyword filter looks at the first occurrence only: an expression whose first occurrence of
  a keyword is inside a longer word may use the keyword freely afterwards. Here a subquery passes.
\<close>

theorem validate_sql_expression_bypass:
  "validate_sql_expression ''preselected or (select 1) = 1'' = Inr () \<and>
   str_contains ''preselected or (select 1) = 1'' ''(select ''"
  by code_simp

end
