(* ===== verification/SchemaGuard.thy ===== *)
theory SchemaGuard imports Migrations Identifiers begin

text \<open>
  The schema guard (\<open>src/src/security/guard.rs\<close>): automatic creation and evolution of tables, its
  in-process cache, the churn limit on new columns, the preview of a change, and the history of
  automatic migrations.

  The state is the database (the catalogue of PostgreSQL and the migrations table) and the fields of
  \<open>SchemaGuard\<close>. A DDL statement is a term of \<open>ddl\<close>: \<open>ddl_sql\<close> is the text the program sends and
  \<open>pg_ddl\<close> its documented meaning, unquoted identifiers being folded to lower case and cut to 63 bytes.
  An operation runs to its end before the next one on the same table starts: that is what the table
  lock and the advisory lock are for. Other instances act between operations (theory SchemaFleet).
\<close>

section \<open>State\<close>

record column_info =
  ci_name :: string
  col_type :: string
  notnull :: bool
  pk :: bool

text \<open>A row of \<open>information_schema.columns\<close>, and the columns of each table.\<close>

record pg_column =
  column_name :: string
  data_type :: string
  nullable :: bool

type_synonym catalog = "string \<Rightarrow> pg_column list option"

record churn_tracker =
  additions :: "nat list"

record schema_guard =
  pg :: "catalog mig_db"
  schema_cache :: "string \<Rightarrow> column_info list option"
  churn :: "string \<Rightarrow> churn_tracker option"
  max_new_columns_per_window :: nat
  churn_window :: nat
  service_ready :: bool
  version_counter :: nat

text \<open>What an operation reads from outside: clocks, a fresh UUID, the digest.\<close>

record env =
  now_check :: nat
  now_record :: nat
  nanos :: nat
  fresh_uuid :: string
  sha256_hex :: "string \<Rightarrow> string"
  parse_json :: "string \<Rightarrow> json option"
  base64 :: "string \<Rightarrow> string"

definition MAX_COLUMNS_PER_TABLE :: nat where
  "MAX_COLUMNS_PER_TABLE = 1000"

definition DEFAULT_COLUMN_CHURN_WINDOW :: nat where
  "DEFAULT_COLUMN_CHURN_WINDOW = 60000"

definition DEFAULT_MAX_NEW_COLUMNS_PER_WINDOW :: nat where
  "DEFAULT_MAX_NEW_COLUMNS_PER_WINDOW = 20"

text \<open>\<open>SchemaGuard::new\<close>, with the two environment variables.\<close>

definition new_guard :: "string option \<Rightarrow> string option \<Rightarrow> catalog mig_db \<Rightarrow> schema_guard" where
  "new_guard churn_max churn_secs db =
     \<lparr>pg = db, schema_cache = (\<lambda>_. None), churn = (\<lambda>_. None),
      max_new_columns_per_window = unwrap_or DEFAULT_MAX_NEW_COLUMNS_PER_WINDOW (Option.bind churn_max parse_u64),
      churn_window = unwrap_or DEFAULT_COLUMN_CHURN_WINDOW
        (map_option (\<lambda>secs. 1000 * secs) (Option.bind churn_secs parse_u64)),
      service_ready = False, version_counter = 0\<rparr>"

section \<open>The churn tracker\<close>

definition new_tracker :: churn_tracker where
  "new_tracker = \<lparr>additions = []\<rparr>"

text \<open>Natural subtraction is \<open>saturating_duration_since\<close>.\<close>

definition prune :: "nat \<Rightarrow> nat \<Rightarrow> churn_tracker \<Rightarrow> churn_tracker" where
  "prune window now t = t\<lparr>additions := filter (\<lambda>x. now - x \<le> window) (additions t)\<rparr>"

definition count :: "nat \<Rightarrow> nat \<Rightarrow> churn_tracker \<Rightarrow> nat" where
  "count window now t = length (filter (\<lambda>x. now - x \<le> window) (additions t))"

definition record_additions :: "nat \<Rightarrow> nat \<Rightarrow> churn_tracker \<Rightarrow> churn_tracker" where
  "record_additions now n t = t\<lparr>additions := additions t @ replicate n now\<rparr>"

section \<open>DDL\<close>

datatype ddl =
    CreateTable string
  | AddColumns string "(string \<times> pg_type) list"
  | WidenColumns string "(string \<times> pg_type \<times> pg_type) list"

definition create_sql :: "string \<Rightarrow> string" where
  "create_sql table = ''CREATE TABLE IF NOT EXISTS '' @ table @ '' ( id BIGSERIAL PRIMARY KEY, created_at TIMESTAMP WITH TIME ZONE DEFAULT CURRENT_TIMESTAMP, updated_at TIMESTAMP WITH TIME ZONE DEFAULT CURRENT_TIMESTAMP )''"

definition add_part :: "string \<times> pg_type \<Rightarrow> string" where
  "add_part = (\<lambda>(name, t). ''ADD COLUMN IF NOT EXISTS '' @ name @ '' '' @ as_sql t)"

definition widen_part :: "string \<times> pg_type \<times> pg_type \<Rightarrow> string" where
  "widen_part = (\<lambda>(name, from_t, to_t).
     ''ALTER COLUMN '' @ name @ '' TYPE '' @ as_sql to_t @ '' USING '' @ using_cast_expr to_t from_t name)"

fun ddl_sql :: "ddl \<Rightarrow> string" where
  "ddl_sql (CreateTable table) = create_sql table"
| "ddl_sql (AddColumns table cs) = ''ALTER TABLE '' @ table @ '' '' @ join '', '' (map add_part cs)"
| "ddl_sql (WidenColumns table ws) = ''ALTER TABLE '' @ table @ '' '' @ join '', '' (map widen_part ws)"

text \<open>The script that undoes an evolution, as the history keeps it.\<close>

definition down_sql :: "string \<Rightarrow> (string \<times> pg_type \<times> pg_type) list \<Rightarrow> (string \<times> pg_type) list \<Rightarrow> string" where
  "down_sql table widens adds =
     (let parts = map (\<lambda>(name, from_t, to_t). widen_part (name, to_t, from_t)) widens
                @ map (\<lambda>(name, _). ''DROP COLUMN IF EXISTS '' @ name) adds
      in if parts = [] then [] else ''ALTER TABLE '' @ table @ '' '' @ join '', '' parts)"

text \<open>The meaning of an unquoted identifier, and the names the catalogue gives the types.\<close>

definition pg_ident :: "string \<Rightarrow> string" where
  "pg_ident s = take 63 (to_lowercase s)"

fun data_type_name :: "pg_type \<Rightarrow> string option" where
  "data_type_name BigInt = Some ''bigint''"
| "data_type_name DoublePrecision = Some ''double precision''"
| "data_type_name Boolean = Some ''boolean''"
| "data_type_name Text = Some ''text''"
| "data_type_name Jsonb = Some ''jsonb''"
| "data_type_name Bytea = Some ''bytea''"
| "data_type_name Null = None"
| "data_type_name Date = Some ''date''"
| "data_type_name TimestampTz = Some ''timestamp with time zone''"
| "data_type_name Uuid = Some ''uuid''"

definition base_table :: "pg_column list" where
  "base_table =
     [\<lparr>column_name = ''id'', data_type = ''bigint'', nullable = False\<rparr>,
      \<lparr>column_name = ''created_at'', data_type = ''timestamp with time zone'', nullable = True\<rparr>,
      \<lparr>column_name = ''updated_at'', data_type = ''timestamp with time zone'', nullable = True\<rparr>]"

definition pg_add :: "pg_column list \<Rightarrow> string \<times> pg_type \<Rightarrow> pg_column list result" where
  "pg_add cols = (\<lambda>(name, t).
     case data_type_name t of
       None \<Rightarrow> Inl (Database ''syntax error'')
     | Some ty \<Rightarrow>
         if pg_ident name \<in> column_name ` set cols then Inr cols
         else Inr (cols @ [\<lparr>column_name = pg_ident name, data_type = ty, nullable = True\<rparr>]))"

definition pg_widen :: "pg_column list \<Rightarrow> string \<times> pg_type \<times> pg_type \<Rightarrow> pg_column list result" where
  "pg_widen cols = (\<lambda>(name, _, to_t).
     case data_type_name to_t of
       None \<Rightarrow> Inl (Database ''syntax error'')
     | Some ty \<Rightarrow>
         if pg_ident name \<in> column_name ` set cols
         then Inr (map (\<lambda>c. if column_name c = pg_ident name then c\<lparr>data_type := ty\<rparr> else c) cols)
         else Inl (Database ''column does not exist''))"

definition alter_table :: "string \<Rightarrow> (pg_column list \<Rightarrow> pg_column list result) \<Rightarrow> catalog \<Rightarrow> catalog result" where
  "alter_table table f cat =
     (case cat (pg_ident table) of
        None \<Rightarrow> Inl (Database ''relation does not exist'')
      | Some cols \<Rightarrow> and_then (f cols) (\<lambda>cols'. Inr (cat(pg_ident table \<mapsto> cols'))))"

fun pg_ddl :: "ddl \<Rightarrow> catalog \<Rightarrow> catalog result" where
  "pg_ddl (CreateTable table) cat =
     (if cat (pg_ident table) = None then Inr (cat(pg_ident table \<mapsto> base_table)) else Inr cat)"
| "pg_ddl (AddColumns table cs) cat = alter_table table (\<lambda>cols. try_fold pg_add cols cs) cat"
| "pg_ddl (WidenColumns table ws) cat =
     alter_table table (\<lambda>cols.
       if distinct (map (\<lambda>(name, _). pg_ident name) ws) then try_fold pg_widen cols ws
       else Inl (Database ''cannot alter type of a column twice'')) cat"

definition run_ddl :: "ddl \<Rightarrow> (schema_guard, unit) io" where
  "run_ddl q = stmt (\<lambda>g. and_then (pg_ddl q (world (pg g)))
                        (\<lambda>cat. Inr ((), g\<lparr>pg := (pg g)\<lparr>world := cat\<rparr>\<rparr>)))"

text \<open>A statement without effect on the tables: \<open>BEGIN\<close>, the advisory lock, \<open>pg_notify\<close>, \<open>COMMIT\<close>.\<close>

definition ping :: "(schema_guard, unit) io" where
  "ping = exec id"

text \<open>A transaction whose body fails is rolled back when it is dropped.\<close>

definition in_tx :: "(schema_guard, 'a) io \<Rightarrow> (schema_guard, 'a) io" where
  "in_tx body d =
     (case body d of
        (Inl e, d') \<Rightarrow> (Inl e, d'\<lparr>st := (st d')\<lparr>pg := pg (st d)\<rparr>\<rparr>)
      | (Inr a, d') \<Rightarrow> (Inr a, d'))"

section \<open>Reading the catalogue\<close>

definition to_column_info :: "pg_column \<Rightarrow> column_info" where
  "to_column_info c =
     \<lparr>ci_name = column_name c, col_type = data_type c, notnull = \<not> nullable c, pk = column_name c = ''id''\<rparr>"

text \<open>
  The columns \<open>information_schema\<close> lists for \<open>table_name = $1\<close>: the parameter is compared as it is,
  with no folding.
\<close>

definition catalog_columns :: "string \<Rightarrow> catalog \<Rightarrow> pg_column list" where
  "catalog_columns table cat = unwrap_or [] (cat table)"

definition cell_name :: "string \<Rightarrow> cell" where
  "cell_name s = no_cell\<lparr>type_name := ''NAME'', try_string := Some s\<rparr>"

definition info_cells :: "pg_column \<Rightarrow> (string \<times> cell) list" where
  "info_cells c =
     [(''name'', cell_name (column_name c)), (''type'', cell_text (data_type c)),
      (''nullable'', cell_text (if nullable c then ''YES'' else ''NO''))]"

definition column_of_row :: "row \<Rightarrow> column_info" where
  "column_of_row r =
     (let name = unwrap_or [] (col_str r ''name'')
      in \<lparr>ci_name = name, col_type = unwrap_or [] (col_str r ''type''),
          notnull = unwrap_or ''YES'' (col_str r ''nullable'') \<noteq> ''YES'', pk = name = ''id''\<rparr>)"

definition fetch_table_info :: "env \<Rightarrow> string \<Rightarrow> (schema_guard, column_info list) io" where
  "fetch_table_info e table =
     bind_io (query (parse_json e) (base64 e) (\<lambda>g. map info_cells (catalog_columns table (world (pg g)))))
       (\<lambda>rows. ret (filter (\<lambda>c. ci_name c \<noteq> []) (map column_of_row rows)))"

text \<open>The same query inside a transaction, decoded by the driver instead of through JSON.\<close>

definition fetch_table_info_tx :: "string \<Rightarrow> (schema_guard, column_info list) io" where
  "fetch_table_info_tx table =
     stmt (\<lambda>g. Inr (filter (\<lambda>c. ci_name c \<noteq> []) (map to_column_info (catalog_columns table (world (pg g)))), g))"

definition cache_insert :: "string \<Rightarrow> column_info list \<Rightarrow> schema_guard \<Rightarrow> schema_guard" where
  "cache_insert table cols g = g\<lparr>schema_cache := (schema_cache g)(table \<mapsto> cols)\<rparr>"

definition cache_remove :: "string \<Rightarrow> schema_guard \<Rightarrow> schema_guard" where
  "cache_remove table g = g\<lparr>schema_cache := (schema_cache g)(table := None)\<rparr>"

definition get_table_schema :: "env \<Rightarrow> string \<Rightarrow> (schema_guard, column_info list) io" where
  "get_table_schema e table =
     bind_io (lift (validate_identifier table)) (\<lambda>_.
     bind_io (gets (\<lambda>g. schema_cache g table)) (\<lambda>cached.
     case cached of
       Some cols \<Rightarrow> ret cols
     | None \<Rightarrow>
         bind_io (fetch_table_info e table) (\<lambda>columns.
         if columns \<noteq> [] then bind_io (modify (cache_insert table columns)) (\<lambda>_. ret columns)
         else ret columns)))"

text \<open>A notification on the channel \<open>schema_changed\<close>, as the listener handles it.\<close>

definition cache_invalidation_worker :: "string \<Rightarrow> schema_guard \<Rightarrow> schema_guard" where
  "cache_invalidation_worker payload g =
     (if trim payload \<noteq> [] then cache_remove (trim payload) g else g)"

definition clear_cache :: "schema_guard \<Rightarrow> schema_guard" where
  "clear_cache g = g\<lparr>schema_cache := (\<lambda>_. None)\<rparr>"

definition cached_tables :: "schema_guard \<Rightarrow> string set" where
  "cached_tables g = dom (schema_cache g)"


section \<open>The history of automatic migrations\<close>

text \<open>A call of the migration service acts on the database part of the state.\<close>

definition on_pg :: "(catalog mig_db, 'a) io \<Rightarrow> (schema_guard, 'a) io" where
  "on_pg m d =
     (case m \<lparr>st = pg (st d), outages = outages d\<rparr> of
        (r, d') \<Rightarrow> (r, \<lparr>st = (st d)\<lparr>pg := st d'\<rparr>, outages = outages d'\<rparr>))"

text \<open>The first use creates the migrations table and its index, the two statements of a batch.\<close>

definition migration_service :: "(schema_guard, unit) io" where
  "migration_service =
     bind_io (gets service_ready) (\<lambda>ready.
     if ready then ret ()
     else bind_io ping (\<lambda>_. bind_io ping (\<lambda>_. modify (\<lambda>g. g\<lparr>service_ready := True\<rparr>))))"

definition next_migration_version :: "env \<Rightarrow> (schema_guard, nat) io" where
  "next_migration_version e =
     bind_io (gets version_counter) (\<lambda>counter.
     bind_io (modify (\<lambda>g. g\<lparr>version_counter := (counter + 1) mod 2 ^ 64\<rparr>)) (\<lambda>_.
     ret (min (2 ^ 64 - 1) (nanos e mod 2 ^ 64 + counter))))"

definition record_auto_migration :: "env \<Rightarrow> string \<Rightarrow> string \<Rightarrow> string \<Rightarrow> (schema_guard, unit) io" where
  "record_auto_migration e name up_sql down =
     (if trim up_sql = [] then ret ()
      else bind_io migration_service (\<lambda>_.
           bind_io (next_migration_version e) (\<lambda>version.
           on_pg (register
             \<lparr>m_id = ''auto-'' @ show_nat version @ ''-'' @ fresh_uuid e, m_version = version, m_name = name,
              m_up = up_sql, m_down = down, m_checksum = compute_checksum (sha256_hex e) up_sql,
              m_status = Applied\<rparr>))))"

section \<open>Creating a table\<close>

definition ensure_table_tx :: "string \<Rightarrow> (schema_guard, column_info list) io" where
  "ensure_table_tx table =
     bind_io ping (\<lambda>_. bind_io ping (\<lambda>_.
     bind_io (fetch_table_info_tx table) (\<lambda>live.
     if live \<noteq> [] then bind_io ping (\<lambda>_. ret live)
     else bind_io (run_ddl (CreateTable table)) (\<lambda>_.
          bind_io ping (\<lambda>_. bind_io ping (\<lambda>_. ret []))))))"

definition ensure_table :: "env \<Rightarrow> string \<Rightarrow> (schema_guard, unit) io" where
  "ensure_table e table =
     bind_io (lift (validate_identifier table)) (\<lambda>_.
     bind_io (gets (\<lambda>g. schema_cache g table)) (\<lambda>cached.
     if unwrap_or [] cached \<noteq> [] then ret ()
     else bind_io (fetch_table_info e table) (\<lambda>live.
     if live \<noteq> [] then modify (cache_insert table live)
     else bind_io (in_tx (ensure_table_tx table)) (\<lambda>live.
     if live \<noteq> [] then modify (cache_insert table live)
     else bind_io (attempt (record_auto_migration e (''create_table_'' @ table) (create_sql table)
                              (''DROP TABLE IF EXISTS '' @ table))) (\<lambda>_.
          modify (cache_remove table))))))"

section \<open>The plan of an evolution\<close>

record plan =
  adds :: "(string \<times> pg_type) list"
  widens :: "(string \<times> pg_type \<times> pg_type) list"
  insertable :: "(string \<times> pg_type) list"

definition empty_plan :: plan where
  "empty_plan = \<lparr>adds = [], widens = [], insertable = []\<rparr>"

definition is_base_column :: "string \<Rightarrow> bool" where
  "is_base_column k \<longleftrightarrow> k = ''id'' \<or> k = ''created_at'' \<or> k = ''updated_at''"

text \<open>The \<open>HashMap\<close> keyed by the lower-case name; a later column replaces an earlier one.\<close>

definition live_by_lower :: "column_info list \<Rightarrow> string \<Rightarrow> column_info option" where
  "live_by_lower live k = find (\<lambda>c. to_lowercase (ci_name c) = k) (rev live)"

definition live_count :: "column_info list \<Rightarrow> nat" where
  "live_count live = length (remdups (map (\<lambda>c. to_lowercase (ci_name c)) live))"

definition unknown_type :: "string \<Rightarrow> column_info \<Rightarrow> stackhouse_error" where
  "unknown_type table info =
     Schema (''Unknown existing column type '' @ [CHR 0x27] @ col_type info @ [CHR 0x27] @ '' for '' @ table @ ''.'' @ ci_name info)"

text \<open>The body of the first loop of \<open>ensure_schema\<close>.\<close>

definition plan_column :: "string \<Rightarrow> column_info list \<Rightarrow> plan \<Rightarrow> inferred_column \<Rightarrow> plan result" where
  "plan_column table live pl col =
     (let key_lower = to_lowercase (col_name col) in
      if is_base_column key_lower then Inr pl
      else case live_by_lower live key_lower of
        Some info \<Rightarrow>
          and_then (ok_or (unknown_type table info) (from_data_type (col_type info))) (\<lambda>existing.
          let common = common_type existing (pg_type col);
              pl' = pl\<lparr>insertable := insertable pl @ [(col_name col, common)]\<rparr> in
          if common \<noteq> existing
          then if \<not> can_promote_to existing common
               then Inl (Schema (''Cannot promote column '' @ table @ ''.'' @ ci_name info @ '' from ''
                           @ as_sql existing @ '' to '' @ as_sql common))
               else Inr (pl'\<lparr>widens := widens pl @ [(ci_name info, existing, common)]\<rparr>)
          else Inr pl')
      | None \<Rightarrow>
          Inr (pl\<lparr>adds := adds pl @ [(col_name col, pg_type col)],
                  insertable := insertable pl @ [(col_name col, pg_type col)]\<rparr>))"

definition check_cap :: "string \<Rightarrow> column_info list \<Rightarrow> plan \<Rightarrow> plan result" where
  "check_cap table live pl =
     (if MAX_COLUMNS_PER_TABLE < live_count live + length (adds pl)
      then Inl (ColumnLimitExceeded (''Table '' @ [CHR 0x27] @ table @ [CHR 0x27] @ '' would exceed ''
             @ show_nat MAX_COLUMNS_PER_TABLE @ '' column limit ('' @ show_nat (live_count live) @ '' existing + ''
             @ show_nat (length (adds pl)) @ '' new = '' @ show_nat (live_count live + length (adds pl)) @ '')''))
      else Inr pl)"

definition plan_schema :: "string \<Rightarrow> column_info list \<Rightarrow> inferred_column list \<Rightarrow> plan result" where
  "plan_schema table live inferred =
     and_then (try_fold (plan_column table live) empty_plan inferred) (check_cap table live)"

definition tracker_of :: "string \<Rightarrow> schema_guard \<Rightarrow> churn_tracker" where
  "tracker_of table g = unwrap_or new_tracker (churn g table)"

definition set_tracker :: "string \<Rightarrow> (churn_tracker \<Rightarrow> churn_tracker) \<Rightarrow> schema_guard \<Rightarrow> schema_guard" where
  "set_tracker table f g = g\<lparr>churn := (churn g)(table \<mapsto> f (tracker_of table g))\<rparr>"

definition check_churn :: "env \<Rightarrow> string \<Rightarrow> nat \<Rightarrow> (schema_guard, unit) io" where
  "check_churn e table n =
     (if n = 0 then ret ()
      else bind_io (modify (\<lambda>g. set_tracker table (prune (churn_window g) (now_check e)) g)) (\<lambda>_.
           bind_io (gets id) (\<lambda>g.
           let c = count (churn_window g) (now_check e) (tracker_of table g) in
           if max_new_columns_per_window g < c + n
           then fail (RateLimited (''Table '' @ [CHR 0x27] @ table @ [CHR 0x27] @ '' has added '' @ show_nat c
                  @ '' new columns in the last '' @ show_nat (churn_window g div 1000) @ ''s; limit is ''
                  @ show_nat (max_new_columns_per_window g) @ '' per rolling window. This is a schema churn rate limit, distinct from the hard ''
                  @ show_nat MAX_COLUMNS_PER_TABLE @ ''-column cap.''))
           else ret ())))"

text \<open>The re-check of the widenings against the live types.\<close>

definition final_widens ::
  "column_info list \<Rightarrow> (string \<times> pg_type \<times> pg_type) list \<Rightarrow> (string \<times> pg_type \<times> pg_type) list" where
  "final_widens live = filter (\<lambda>(name, from_t, to_t).
     case live_by_lower live (to_lowercase name) of
       Some info \<Rightarrow> let current = unwrap_or from_t (from_data_type (col_type info))
                    in common_type current to_t \<noteq> current
     | None \<Rightarrow> True)"

section \<open>Evolution\<close>

definition run_unless_empty :: "'b list \<Rightarrow> ddl \<Rightarrow> (schema_guard, unit) io" where
  "run_unless_empty xs q = (if xs = [] then ret () else run_ddl q)"

definition evolve_tx ::
  "env \<Rightarrow> string \<Rightarrow> inferred_column list \<Rightarrow> (schema_guard, plan \<times> (string \<times> pg_type \<times> pg_type) list) io" where
  "evolve_tx e table inferred =
     bind_io ping (\<lambda>_. bind_io ping (\<lambda>_.
     bind_io (fetch_table_info_tx table) (\<lambda>live.
     bind_io (lift (plan_schema table live inferred)) (\<lambda>pl.
     bind_io (check_churn e table (length (adds pl))) (\<lambda>_.
     let fw = final_widens live (widens pl) in
     bind_io (run_unless_empty fw (WidenColumns table fw)) (\<lambda>_.
     bind_io (run_unless_empty (adds pl) (AddColumns table (adds pl))) (\<lambda>_.
     bind_io ping (\<lambda>_. bind_io ping (\<lambda>_. ret (pl, fw))))))))))"

definition record_churn :: "env \<Rightarrow> string \<Rightarrow> nat \<Rightarrow> (schema_guard, unit) io" where
  "record_churn e table n =
     (if n = 0 then ret () else modify (set_tracker table (record_additions (now_record e) n)))"

definition up_sql_of :: "string \<Rightarrow> (string \<times> pg_type \<times> pg_type) list \<Rightarrow> (string \<times> pg_type) list \<Rightarrow> string" where
  "up_sql_of table fw ads =
     join ''; '' (filter (\<lambda>s. s \<noteq> [])
       [if fw = [] then [] else ddl_sql (WidenColumns table fw),
        if ads = [] then [] else ddl_sql (AddColumns table ads)])"

definition record_evolution ::
  "env \<Rightarrow> string \<Rightarrow> (string \<times> pg_type \<times> pg_type) list \<Rightarrow> (string \<times> pg_type) list \<Rightarrow> (schema_guard, unit) io" where
  "record_evolution e table fw ads =
     (let up_sql = up_sql_of table fw ads in
      if up_sql = [] then ret ()
      else bind_io (attempt (record_auto_migration e (''evolve_schema_'' @ table) up_sql (down_sql table fw ads)))
             (\<lambda>_. ret ()))"

definition cached_column ::
  "string \<Rightarrow> column_info list \<Rightarrow> (string \<times> pg_type) list \<Rightarrow> inferred_column \<Rightarrow> (string \<times> pg_type) list result" where
  "cached_column table cached acc col =
     (let key_lower = to_lowercase (col_name col) in
      if is_base_column key_lower then Inr acc
      else case live_by_lower cached key_lower of
        Some info \<Rightarrow>
          and_then (ok_or (unknown_type table info) (from_data_type (col_type info))) (\<lambda>existing.
          let common = common_type existing (pg_type col) in
          if common \<noteq> existing then Inl (Schema ''Cache stale, requires live verify'')
          else Inr (acc @ [(col_name col, common)]))
      | None \<Rightarrow> Inl (Schema ''Cache missing column, requires live verify''))"

definition schema_from_cache ::
  "string \<Rightarrow> inferred_column list \<Rightarrow> column_info list \<Rightarrow> (string \<times> pg_type) list result" where
  "schema_from_cache table inferred cached = try_fold (cached_column table cached) [] inferred"

definition validate_names :: "string \<Rightarrow> inferred_column list \<Rightarrow> unit result" where
  "validate_names table inferred =
     and_then (validate_identifier table) (\<lambda>_.
     try_fold (\<lambda>_ col. validate_identifier (col_name col)) () inferred)"

definition ensure_live :: "env \<Rightarrow> string \<Rightarrow> inferred_column list \<Rightarrow> (schema_guard, (string \<times> pg_type) list) io" where
  "ensure_live e table inferred =
     bind_io (in_tx (evolve_tx e table inferred)) (\<lambda>(pl, fw).
     bind_io (record_churn e table (length (adds pl))) (\<lambda>_.
     bind_io (record_evolution e table fw (adds pl)) (\<lambda>_.
     bind_io (modify (cache_remove table)) (\<lambda>_.
     ret (insertable pl)))))"

definition ensure_schema :: "env \<Rightarrow> string \<Rightarrow> inferred_column list \<Rightarrow> (schema_guard, (string \<times> pg_type) list) io" where
  "ensure_schema e table inferred =
     bind_io (lift (validate_names table inferred)) (\<lambda>_.
     bind_io (gets (\<lambda>g. schema_cache g table)) (\<lambda>cached.
     case cached of
       None \<Rightarrow> ensure_live e table inferred
     | Some cols \<Rightarrow> (case schema_from_cache table inferred cols of
           Inr result \<Rightarrow> ret result
         | Inl _ \<Rightarrow> ensure_live e table inferred)))"

definition ensure_columns :: "env \<Rightarrow> string \<Rightarrow> json \<Rightarrow> (schema_guard, (string \<times> pg_type) list) io" where
  "ensure_columns e table payload = bind_io (lift (infer_schema payload)) (ensure_schema e table)"

definition ensure_batch_columns :: "env \<Rightarrow> string \<Rightarrow> json list \<Rightarrow> (schema_guard, (string \<times> pg_type) list) io" where
  "ensure_batch_columns e table payloads = bind_io (lift (infer_batch_schema payloads)) (ensure_schema e table)"

text \<open>The two operations kept for callers that coordinate by themselves.\<close>

definition add_columns :: "string \<Rightarrow> (string \<times> pg_type) list \<Rightarrow> (schema_guard, unit) io" where
  "add_columns table columns =
     (if columns = [] then ret ()
      else bind_io (run_ddl (AddColumns table columns)) (\<lambda>_. modify (cache_remove table)))"

definition widen_columns :: "string \<Rightarrow> (string \<times> pg_type \<times> pg_type) list \<Rightarrow> (schema_guard, unit) io" where
  "widen_columns table widenings =
     (if widenings = [] then ret ()
      else bind_io (run_ddl (WidenColumns table widenings)) (\<lambda>_. modify (cache_remove table)))"

section \<open>Preview and statistics\<close>

record schema_preview =
  table_exists :: bool
  create_table_sql :: "string option"
  pv_additions :: "(string \<times> pg_type) list"
  pv_widenings :: "(string \<times> pg_type \<times> pg_type) list"
  add_sql :: "string list"
  widen_sql :: "string list"
  insert_columns :: "(string \<times> pg_type) list"
  would_exceed_limit :: bool

definition preview_column :: "column_info list \<Rightarrow> plan \<Rightarrow> inferred_column \<Rightarrow> plan" where
  "preview_column live pl col =
     (let key_lower = to_lowercase (col_name col) in
      if is_base_column key_lower then pl
      else case live_by_lower live key_lower of
        Some info \<Rightarrow> (case from_data_type (col_type info) of
            Some existing \<Rightarrow>
              let common = common_type existing (pg_type col);
                  pl' = (if common \<noteq> existing \<and> can_promote_to existing common
                         then pl\<lparr>widens := widens pl @ [(ci_name info, existing, common)]\<rparr> else pl)
              in pl'\<lparr>insertable := insertable pl' @ [(col_name col, common)]\<rparr>
          | None \<Rightarrow> pl\<lparr>insertable := insertable pl @ [(col_name col, pg_type col)]\<rparr>)
      | None \<Rightarrow>
          pl\<lparr>adds := adds pl @ [(col_name col, pg_type col)],
             insertable := insertable pl @ [(col_name col, pg_type col)]\<rparr>)"

definition preview_of :: "string \<Rightarrow> bool \<Rightarrow> column_info list \<Rightarrow> inferred_column list \<Rightarrow> schema_preview" where
  "preview_of table exists live inferred =
     (let pl = foldl (preview_column live) empty_plan inferred in
      \<lparr>table_exists = exists,
       create_table_sql = (if exists then None else Some (create_sql table)),
       pv_additions = adds pl, pv_widenings = widens pl,
       add_sql = (if adds pl = [] then [] else [ddl_sql (AddColumns table (adds pl))]),
       widen_sql = (if widens pl = [] then [] else [ddl_sql (WidenColumns table (widens pl))]),
       insert_columns = insertable pl,
       would_exceed_limit = MAX_COLUMNS_PER_TABLE < live_count live + length (adds pl)\<rparr>)"

definition preview_schema :: "env \<Rightarrow> string \<Rightarrow> inferred_column list \<Rightarrow> (schema_guard, schema_preview) io" where
  "preview_schema e table inferred =
     bind_io (lift (validate_names table inferred)) (\<lambda>_.
     bind_io (get_table_schema e table) (\<lambda>schema.
     bind_io (attempt (fetch_table_info e table)) (\<lambda>res.
     let live = (case res of Inr live \<Rightarrow> live | Inl _ \<Rightarrow> []) in
     ret (preview_of table (schema \<noteq> []) live inferred))))"

definition preview_schema_changes :: "env \<Rightarrow> string \<Rightarrow> json \<Rightarrow> (schema_guard, schema_preview) io" where
  "preview_schema_changes e table payload =
     bind_io (lift (case as_array payload of Some vs \<Rightarrow> infer_batch_schema vs | None \<Rightarrow> infer_schema payload))
       (preview_schema e table)"

record table_stats =
  ts_name :: string
  ts_column_count :: nat
  ts_row_count :: nat
  ts_columns :: "column_info list"

definition get_table_stats :: "env \<Rightarrow> (string \<Rightarrow> int) \<Rightarrow> string \<Rightarrow> (schema_guard, table_stats) io" where
  "get_table_stats e row_count table =
     bind_io (get_table_schema e table) (\<lambda>schema.
     if schema = [] then fail (TableNotFound table)
     else bind_io (query (parse_json e) (base64 e) (\<lambda>_. [[(''count'', cell_int (row_count table))]])) (\<lambda>rows.
          ret \<lparr>ts_name = table, ts_column_count = length schema,
               ts_row_count = as_u64_cast (unwrap_or 0 (case rows of (kv # _) # _ \<Rightarrow> as_i64 (snd kv) | _ \<Rightarrow> None)),
               ts_columns = schema\<rparr>))"

end
