(* ===== verification/SchemaEvolution.thy ===== *)
theory SchemaEvolution imports SchemaGuard begin

text \<open>
  Correctness of the schema guard (theory \<open>SchemaGuard\<close>): evolution is complete, atomic and
  monotone, the cache and the preview agree with the plan, and the churn limit bounds the number of
  new columns in every window.
\<close>

section \<open>The plan\<close>

text \<open>The plan written as a specification: which columns are considered, and where each one goes.\<close>

definition payload_part :: "inferred_column list \<Rightarrow> inferred_column list" where
  "payload_part = filter (\<lambda>col. \<not> is_base_column (to_lowercase (col_name col)))"

definition live_type :: "column_info list \<Rightarrow> inferred_column \<Rightarrow> pg_type option" where
  "live_type live col =
     Option.bind (live_by_lower live (to_lowercase (col_name col))) (\<lambda>info. from_data_type (col_type info))"

definition target_type :: "column_info list \<Rightarrow> inferred_column \<Rightarrow> pg_type" where
  "target_type live col =
     (case live_type live col of None \<Rightarrow> pg_type col | Some t \<Rightarrow> common_type t (pg_type col))"

definition missing :: "column_info list \<Rightarrow> inferred_column \<Rightarrow> bool" where
  "missing live col \<longleftrightarrow> live_by_lower live (to_lowercase (col_name col)) = None"

definition too_narrow :: "column_info list \<Rightarrow> inferred_column \<Rightarrow> bool" where
  "too_narrow live col \<longleftrightarrow> (\<exists>t. live_type live col = Some t \<and> target_type live col \<noteq> t)"

definition widening :: "column_info list \<Rightarrow> inferred_column \<Rightarrow> string \<times> pg_type \<times> pg_type" where
  "widening live col =
     (ci_name (the (live_by_lower live (to_lowercase (col_name col)))), the (live_type live col), target_type live col)"

definition plan_spec :: "column_info list \<Rightarrow> inferred_column list \<Rightarrow> plan" where
  "plan_spec live inferred =
     \<lparr>adds = map (\<lambda>c. (col_name c, pg_type c)) (filter (missing live) (payload_part inferred)),
      widens = map (widening live) (filter (too_narrow live) (payload_part inferred)),
      insertable = map (\<lambda>c. (col_name c, target_type live c)) (payload_part inferred)\<rparr>"

definition append_plan :: "plan \<Rightarrow> plan \<Rightarrow> plan" where
  "append_plan a b =
     \<lparr>adds = adds a @ adds b, widens = widens a @ widens b, insertable = insertable a @ insertable b\<rparr>"

lemma append_plan_empty [simp]: "append_plan empty_plan p = p" "append_plan p empty_plan = p"
  by (simp_all add: append_plan_def empty_plan_def)

lemma append_plan_assoc: "append_plan (append_plan a b) c = append_plan a (append_plan b c)"
  by (simp add: append_plan_def)

lemma plan_spec_Nil [simp]: "plan_spec live [] = empty_plan"
  by (simp add: plan_spec_def payload_part_def empty_plan_def)

lemma plan_spec_Cons: "plan_spec live (c # cs) = append_plan (plan_spec live [c]) (plan_spec live cs)"
  by (simp add: plan_spec_def payload_part_def append_plan_def)

lemma promote_common [simp]: "can_promote_to t (common_type t u)"
  by (cases t; cases u) (simp_all add: common_type_def can_promote_to_def)

text \<open>The error branch for an impossible promotion is dead: a column goes one of three ways.\<close>

lemma plan_column_spec:
  "plan_column table live pl col = Inr pl' \<longleftrightarrow>
     pl' = append_plan pl (plan_spec live [col]) \<and>
     (is_base_column (to_lowercase (col_name col)) \<or> missing live col \<or> live_type live col \<noteq> None)"
proof (cases "is_base_column (to_lowercase (col_name col))")
  case True
  then show ?thesis by (auto simp: plan_column_def Let_def plan_spec_def payload_part_def append_plan_def)
next
  case False
  show ?thesis
  proof (cases "live_by_lower live (to_lowercase (col_name col))")
    case None
    with False show ?thesis
      by (auto simp: plan_column_def Let_def plan_spec_def payload_part_def append_plan_def missing_def
          too_narrow_def live_type_def target_type_def)
  next
    case (Some info)
    with False show ?thesis
      by (cases "from_data_type (col_type info)")
        (auto simp: plan_column_def Let_def plan_spec_def payload_part_def append_plan_def missing_def
          too_narrow_def live_type_def target_type_def widening_def)
  qed
qed

definition readable :: "column_info list \<Rightarrow> inferred_column list \<Rightarrow> bool" where
  "readable live inferred \<longleftrightarrow>
     list_all (\<lambda>c. missing live c \<or> live_type live c \<noteq> None) (payload_part inferred)"

lemma plan_loop_spec:
  "try_fold (plan_column table live) pl inferred = Inr pl' \<longleftrightarrow>
     pl' = append_plan pl (plan_spec live inferred) \<and> readable live inferred"
proof (induction inferred arbitrary: pl)
  case Nil
  then show ?case by (auto simp: readable_def payload_part_def)
next
  case (Cons c cs)
  have "readable live (c # cs) \<longleftrightarrow>
      (is_base_column (to_lowercase (col_name c)) \<or> missing live c \<or> live_type live c \<noteq> None) \<and> readable live cs"
    by (auto simp: readable_def payload_part_def)
  with Cons show ?case
    by (simp add: and_then_eq_Inr plan_column_spec plan_spec_Cons [of live c cs] append_plan_assoc) blast
qed

lemma plan_schema_spec:
  "plan_schema table live inferred = Inr pl \<longleftrightarrow>
     pl = plan_spec live inferred \<and> readable live inferred
     \<and> live_count live + length (adds pl) \<le> MAX_COLUMNS_PER_TABLE"
  by (auto simp: plan_schema_def and_then_eq_Inr plan_loop_spec check_cap_def not_less)

text \<open>
  The preview runs the same diff as the evolution: whenever an evolution of the same live columns
  is possible, the preview lists exactly its additions, widenings and insertable columns, its DDL text
  is the text the evolution would send, and it does not report the column limit.
\<close>

theorem preview_agrees_with_plan:
  assumes "plan_schema table live inferred = Inr pl"
  shows "let pv = preview_of table exists live inferred in
    pv_additions pv = adds pl \<and> pv_widenings pv = widens pl \<and> insert_columns pv = insertable pl
    \<and> add_sql pv @ widen_sql pv = (if adds pl = [] then [] else [ddl_sql (AddColumns table (adds pl))])
        @ (if widens pl = [] then [] else [ddl_sql (WidenColumns table (widens pl))])
    \<and> \<not> would_exceed_limit pv"
proof -
  have pc: "preview_column live p c = p'" if "plan_column table live p c = Inr p'" for p c p'
  proof (cases "live_by_lower live (to_lowercase (col_name c))")
    case None
    with that show ?thesis by (auto simp: plan_column_def preview_column_def Let_def split: if_splits)
  next
    case (Some info)
    with that show ?thesis
      by (cases "from_data_type (col_type info)")
        (auto simp: plan_column_def preview_column_def Let_def split: if_splits)
  qed
  have "foldl (preview_column live) p inferred = p'" if "try_fold (plan_column table live) p inferred = Inr p'" for p p'
    using that by (induction inferred arbitrary: p) (auto simp: and_then_eq_Inr dest!: pc)
  with assms have "foldl (preview_column live) empty_plan inferred = pl"
    by (auto simp: plan_schema_def and_then_eq_Inr check_cap_def split: if_splits)
  with assms show ?thesis
    by (auto simp: preview_of_def Let_def plan_schema_spec)
qed

lemma schema_from_cache_plan:
  "schema_from_cache table inferred cached = Inr result \<longleftrightarrow>
     try_fold (plan_column table cached) empty_plan inferred
       = Inr \<lparr>adds = [], widens = [], insertable = result\<rparr>"
proof -
  have step: "cached_column table cached acc c = Inr acc' \<longleftrightarrow>
      plan_column table cached \<lparr>adds = [], widens = [], insertable = acc\<rparr> c
        = Inr \<lparr>adds = [], widens = [], insertable = acc'\<rparr>" for acc c acc'
  proof (cases "live_by_lower cached (to_lowercase (col_name c))")
    case None
    then show ?thesis by (simp add: cached_column_def plan_column_def Let_def)
  next
    case (Some info)
    then show ?thesis
      by (cases "from_data_type (col_type info)") (simp_all add: cached_column_def plan_column_def Let_def)
  qed
  have grow: "adds p' \<noteq> [] \<or> widens p' \<noteq> []"
    if "try_fold (plan_column table cached) p cs = Inr p'" "adds p \<noteq> [] \<or> widens p \<noteq> []" for p cs p'
    using that by (auto simp: plan_loop_spec append_plan_def)
  have "try_fold (cached_column table cached) acc inferred = Inr result \<longleftrightarrow>
     try_fold (plan_column table cached) \<lparr>adds = [], widens = [], insertable = acc\<rparr> inferred
       = Inr \<lparr>adds = [], widens = [], insertable = result\<rparr>" for acc
  proof (induction inferred arbitrary: acc)
    case Nil
    then show ?case by simp
  next
    case (Cons c cs)
    show ?case
    proof
      assume "try_fold (cached_column table cached) acc (c # cs) = Inr result"
      then show "try_fold (plan_column table cached) \<lparr>adds = [], widens = [], insertable = acc\<rparr> (c # cs)
         = Inr \<lparr>adds = [], widens = [], insertable = result\<rparr>"
        by (auto simp: and_then_eq_Inr step Cons.IH)
    next
      assume "try_fold (plan_column table cached) \<lparr>adds = [], widens = [], insertable = acc\<rparr> (c # cs)
         = Inr \<lparr>adds = [], widens = [], insertable = result\<rparr>"
      then obtain p where p: "plan_column table cached \<lparr>adds = [], widens = [], insertable = acc\<rparr> c = Inr p"
        "try_fold (plan_column table cached) p cs = Inr \<lparr>adds = [], widens = [], insertable = result\<rparr>"
        by (auto simp: and_then_eq_Inr)
      from grow [OF p(2)] have "adds p = []" "widens p = []" by auto
      then have "p = \<lparr>adds = [], widens = [], insertable = insertable p\<rparr>" by simp
      with p show "try_fold (cached_column table cached) acc (c # cs) = Inr result"
        using step [of acc c "insertable p"] Cons.IH [of "insertable p"] by (simp add: and_then_eq_Inr)
    qed
  qed
  from this [of "[]"] show ?thesis by (simp add: schema_from_cache_def empty_plan_def)
qed


text \<open>
  The cache shortcut is the plan of a change that changes nothing: it answers exactly when
  the plan over the cached columns has neither additions nor widenings, and its answer is then the
  plan's list of insertable columns.
\<close>

theorem schema_from_cache_is_empty_plan:
  "schema_from_cache table inferred cached = Inr result \<longleftrightarrow>
     try_fold (plan_column table cached) empty_plan inferred
       = Inr \<lparr>adds = [], widens = [], insertable = result\<rparr>"
  by (rule schema_from_cache_plan)

lemma find_unique:
  assumes "x \<in> set xs" "P x" "\<And>y. y \<in> set xs \<Longrightarrow> P y \<Longrightarrow> y = x"
  shows "find P xs = Some x"
  using assms
proof (induction xs)
  case Nil
  then show ?case by simp
next
  case (Cons a xs)
  show ?case
  proof (cases "P a")
    case True
    have "a = x" by (rule Cons.prems(3)) (use True in simp_all)
    with True show ?thesis by simp
  next
    case False
    with Cons.prems(1,2) have "x \<in> set xs" by auto
    have "find P xs = Some x"
      by (rule Cons.IH [OF \<open>x \<in> set xs\<close> Cons.prems(2)]) (rule Cons.prems(3), simp_all)
    with False show ?thesis by simp
  qed
qed

text \<open>The re-check of the widenings never drops one: the live types have not changed meanwhile.\<close>

lemma final_widens_plan: "final_widens live (widens (plan_spec live inferred)) = widens (plan_spec live inferred)"
proof -
  have keep: "(case live_by_lower live (to_lowercase (ci_name info)) of
      Some i \<Rightarrow> common_type (unwrap_or t (from_data_type (col_type i))) (target_type live col)
                  \<noteq> unwrap_or t (from_data_type (col_type i))
    | None \<Rightarrow> True)"
    if "live_by_lower live (to_lowercase (col_name col)) = Some info" "live_type live col = Some t"
      "target_type live col \<noteq> t" for col info t
  proof -
    have "live_by_lower live (to_lowercase (ci_name info)) = Some info"
      using that(1) find_Some_in_set [of "\<lambda>c. to_lowercase (ci_name c) = to_lowercase (col_name col)" "rev live" info]
      by (simp add: live_by_lower_def)
    moreover have "common_type t (target_type live col) \<noteq> t"
      using that by (simp add: target_type_def common_type_absorb)
    ultimately show ?thesis using that by (simp add: live_type_def)
  qed
  have "(case live_by_lower live (to_lowercase n) of
      Some i \<Rightarrow> let cur = unwrap_or f (from_data_type (col_type i)) in common_type cur t \<noteq> cur
    | None \<Rightarrow> True)" if "(n, f, t) \<in> set (widens (plan_spec live inferred))" for n f t
  proof -
    from that obtain col where col: "too_narrow live col" "(n, f, t) = widening live col"
      by (auto simp: plan_spec_def)
    then obtain info u where "live_by_lower live (to_lowercase (col_name col)) = Some info"
      "live_type live col = Some u" "target_type live col \<noteq> u"
      by (auto simp: too_narrow_def live_type_def bind_eq_Some_conv)
    with col(2) keep [OF this] show ?thesis by (auto simp: widening_def Let_def split: option.splits)
  qed
  then show ?thesis unfolding final_widens_def filter_id_conv by fast
qed

section \<open>Catalogues\<close>

text \<open>
  What PostgreSQL guarantees of a table whose columns were all written unquoted: the names are
  distinct, not empty, and their own folding; and the type names are words.
\<close>

definition wf_columns :: "pg_column list \<Rightarrow> bool" where
  "wf_columns cols \<longleftrightarrow>
     distinct (map column_name cols)
     \<and> list_all (\<lambda>c. column_name c \<noteq> [] \<and> pg_ident (column_name c) = column_name c \<and> plain (data_type c)) cols"

definition wf_catalog :: "catalog \<Rightarrow> bool" where
  "wf_catalog cat \<longleftrightarrow> (\<forall>t cols. cat t = Some cols \<longrightarrow> wf_columns cols)"

definition live_of :: "pg_column list \<Rightarrow> column_info list" where
  "live_of cols = filter (\<lambda>c. ci_name c \<noteq> []) (map to_column_info cols)"

definition lookup_column :: "pg_column list \<Rightarrow> string \<Rightarrow> pg_column option" where
  "lookup_column cols k = find (\<lambda>c. column_name c = k) cols"

definition folded :: "string \<Rightarrow> bool" where
  "folded s \<longleftrightarrow> pg_ident s = s"

lemma folded_lower: "folded s \<Longrightarrow> to_lowercase s = s \<and> length s \<le> 63"
proof -
  assume "folded s"
  then have *: "take 63 (to_lowercase s) = s" by (simp add: folded_def pg_ident_def)
  then have "length s \<le> 63" by (metis length_take min.cobounded2)
  with * show ?thesis by simp
qed

lemma pg_ident_short: "length s \<le> 63 \<Longrightarrow> pg_ident s = to_lowercase s"
  by (simp add: pg_ident_def)

lemma pg_ident_idem [simp]: "pg_ident (pg_ident s) = pg_ident s"
proof -
  have "to_lowercase (take 63 (to_lowercase s)) = take 63 (to_lowercase s)"
    by (metis take_map to_lowercase_def to_lowercase_idem)
  then show ?thesis by (simp add: pg_ident_def)
qed

lemma pg_ident_Nil [simp]: "pg_ident s = [] \<longleftrightarrow> s = []"
  by (cases s) (auto simp: pg_ident_def to_lowercase_def)

lemma live_of_wf: "wf_columns cols \<Longrightarrow> live_of cols = map to_column_info cols"
  unfolding live_of_def filter_id_conv by (auto simp: wf_columns_def list_all_iff to_column_info_def)

lemma lookup_column_mem:
  assumes "distinct (map column_name cols)" "c \<in> set cols"
  shows "lookup_column cols (column_name c) = Some c"
  unfolding lookup_column_def using assms
  by (intro find_unique) (auto simp: distinct_map dest: inj_onD)

lemma lookup_column_Some: "lookup_column cols k = Some c \<Longrightarrow> c \<in> set cols \<and> column_name c = k"
  unfolding lookup_column_def by (rule find_Some_in_set)

lemma lookup_column_None: "lookup_column cols k = None \<longleftrightarrow> k \<notin> column_name ` set cols"
  by (auto simp: lookup_column_def find_None_all)

lemma wf_column_lower: "wf_columns cols \<Longrightarrow> c \<in> set cols \<Longrightarrow> to_lowercase (column_name c) = column_name c"
  using folded_lower by (auto simp: wf_columns_def list_all_iff folded_def)

lemma live_by_lower_of:
  assumes "wf_columns cols"
  shows "live_by_lower (live_of cols) k = map_option to_column_info (lookup_column cols k)"
proof (cases "lookup_column cols k")
  case None
  then have "c \<in> set cols \<Longrightarrow> column_name c \<noteq> k" for c
    by (auto simp: lookup_column_None)
  then have "find (\<lambda>c. to_lowercase (ci_name c) = k) (rev (map to_column_info cols)) = None"
    using wf_column_lower [OF assms] by (auto simp: find_None_all to_column_info_def)
  with None assms show ?thesis by (simp add: live_by_lower_def live_of_wf)
next
  case (Some c)
  then have c: "c \<in> set cols" "column_name c = k" by (auto dest: lookup_column_Some)
  have "find (\<lambda>c. to_lowercase (ci_name c) = k) (rev (map to_column_info cols)) = Some (to_column_info c)"
  proof (rule find_unique)
    fix y assume y: "y \<in> set (rev (map to_column_info cols))" "to_lowercase (ci_name y) = k"
    then obtain c' where c': "c' \<in> set cols" "y = to_column_info c'" by auto
    with y have "column_name c' = k" using wf_column_lower [OF assms c'(1)] by (simp add: to_column_info_def)
    with c c' lookup_column_mem [of cols] assms have "c' = c" by (metis option.inject wf_columns_def)
    with c' show "y = to_column_info c" by simp
  qed (use c wf_column_lower [OF assms c(1)] in \<open>auto simp: to_column_info_def\<close>)
  with Some assms show ?thesis by (simp add: live_by_lower_def live_of_wf)
qed

lemma live_count_of: "wf_columns cols \<Longrightarrow> live_count (live_of cols) = length cols"
proof -
  assume wf: "wf_columns cols"
  then have "map (\<lambda>c. to_lowercase (ci_name c)) (live_of cols) = map column_name cols"
    using wf_column_lower [OF wf] by (auto simp: live_of_wf to_column_info_def)
  with wf show ?thesis
    by (simp add: live_count_def wf_columns_def distinct_remdups_id)
qed

lemma live_type_of:
  "wf_columns cols \<Longrightarrow> live_type (live_of cols) col =
     Option.bind (lookup_column cols (to_lowercase (col_name col))) (\<lambda>c. from_data_type (data_type c))"
  by (simp add: live_type_def live_by_lower_of bind_map_option comp_def to_column_info_def)

section \<open>The effect of the DDL\<close>

lemma from_data_type_name: "data_type_name t = Some ty \<Longrightarrow> from_data_type ty = Some t"
proof -
  have "case data_type_name t of None \<Rightarrow> True | Some ty \<Rightarrow> from_data_type ty = Some t"
    by (cases t) (simp_all add: from_data_type_def Let_def str_eval)
  then show "data_type_name t = Some ty \<Longrightarrow> from_data_type ty = Some t" by simp
qed

lemma data_type_name_plain: "data_type_name t = Some ty \<Longrightarrow> plain ty"
  by (cases t) (auto simp: plain_def starts_with_def)

definition new_column :: "string \<times> pg_type \<Rightarrow> pg_column" where
  "new_column = (\<lambda>(n, t). \<lparr>column_name = pg_ident n, data_type = the (data_type_name t), nullable = True\<rparr>)"

lemma pg_add_Inr:
  "pg_add cols (n, t) = Inr cols' \<longleftrightarrow> data_type_name t \<noteq> None \<and>
     cols' = (if pg_ident n \<in> column_name ` set cols then cols else cols @ [new_column (n, t)])"
  by (auto simp: pg_add_def new_column_def split: option.splits)

lemma add_fold_fresh:
  assumes "try_fold pg_add cols cs = Inr cols'"
    and "distinct (map (\<lambda>(n, _). pg_ident n) cs)" "(\<lambda>(n, _). pg_ident n) ` set cs \<inter> column_name ` set cols = {}"
  shows "cols' = cols @ map new_column cs \<and> list_all (\<lambda>(_, t). data_type_name t \<noteq> None) cs"
  using assms
proof (induction cs arbitrary: cols)
  case Nil
  then show ?case by simp
next
  case (Cons c cs)
  obtain n t where c: "c = (n, t)" by (cases c)
  with Cons.prems have ty: "data_type_name t \<noteq> None"
    "try_fold pg_add (cols @ [new_column c]) cs = Inr cols'"
    by (auto simp: pg_add_Inr and_then_eq_Inr)
  have "(\<lambda>(n, _). pg_ident n) ` set cs \<inter> column_name ` set (cols @ [new_column c]) = {}"
    using Cons.prems(2,3) c by (auto simp: new_column_def)
  with Cons.IH [OF ty(2)] Cons.prems(2) ty(1) c show ?case by simp
qed

lemma add_fold_extends:
  assumes "try_fold pg_add cols cs = Inr cols'"
  shows "\<exists>new. cols' = cols @ new \<and> length new \<le> length cs
    \<and> (wf_columns cols \<longrightarrow> list_all (\<lambda>(n, _). n \<noteq> []) cs \<longrightarrow> wf_columns cols')"
  using assms
proof (induction cs arbitrary: cols)
  case Nil
  then show ?case by simp
next
  case (Cons c cs)
  obtain n t where c: "c = (n, t)" by (cases c)
  with Cons.prems obtain cols1 where cols1: "pg_add cols (n, t) = Inr cols1" "try_fold pg_add cols1 cs = Inr cols'"
    by (auto simp: and_then_eq_Inr)
  from cols1(1) consider "cols1 = cols" | x where "cols1 = cols @ [x]" "column_name x = pg_ident n" "pg_ident n \<notin> column_name ` set cols"
      "plain (data_type x)"
    by (auto simp: pg_add_Inr new_column_def data_type_name_plain split: if_splits)
  then show ?case
  proof cases
    case 1
    with Cons.IH [OF cols1(2)] c show ?thesis by (auto intro: le_SucI)
  next
    case 2
    with Cons.IH [OF cols1(2)] c show ?thesis by (auto simp: wf_columns_def)
  qed
qed

definition widened :: "(string \<times> pg_type \<times> pg_type) list \<Rightarrow> pg_column \<Rightarrow> pg_column" where
  "widened ws c =
     (case map_of (map (\<lambda>(n, _, t). (pg_ident n, t)) ws) (column_name c) of
        None \<Rightarrow> c | Some t \<Rightarrow> c\<lparr>data_type := the (data_type_name t)\<rparr>)"

lemma column_name_widened [simp]: "column_name (widened ws c) = column_name c"
  by (simp add: widened_def split: option.splits)

lemma pg_widen_Inr:
  "pg_widen cols (n, f, t) = Inr cols' \<longleftrightarrow> data_type_name t \<noteq> None \<and> pg_ident n \<in> column_name ` set cols
     \<and> cols' = map (widened [(n, f, t)]) cols"
proof -
  have "map (\<lambda>c. if column_name c = pg_ident n then c\<lparr>data_type := ty\<rparr> else c) cols = map (widened [(n, f, t)]) cols"
    if "data_type_name t = Some ty" for ty
    using that by (auto simp: widened_def)
  then show ?thesis by (auto simp: pg_widen_def split: option.splits)
qed

lemma widen_fold:
  assumes "try_fold pg_widen cols ws = Inr cols'" "distinct (map (\<lambda>(n, _). pg_ident n) ws)"
  shows "cols' = map (widened ws) cols \<and> list_all (\<lambda>(_, _, t). data_type_name t \<noteq> None) ws"
  using assms
proof (induction ws arbitrary: cols)
  case Nil
  then show ?case by (simp add: widened_def)
next
  case (Cons w ws)
  obtain n f t where w: "w = (n, f, t)" by (cases w)
  with Cons.prems have ty: "data_type_name t \<noteq> None"
    "try_fold pg_widen (map (widened [w]) cols) ws = Inr cols'"
    by (auto simp: pg_widen_Inr and_then_eq_Inr)
  have "pg_ident n \<notin> fst ` set (map (\<lambda>(n, _, t). (pg_ident n, t)) ws)"
    using Cons.prems(2) w by force
  then have none: "map_of (map (\<lambda>(n, _, t). (pg_ident n, t)) ws) (pg_ident n) = None"
    by (simp add: map_of_eq_None_iff)
  have "widened ws (widened [w] c) = widened (w # ws) c" for c
    using none w by (simp add: widened_def split: option.splits)
  with Cons.IH [OF ty(2)] Cons.prems(2) ty(1) w show ?case by simp
qed


section \<open>One evolution\<close>

definition evolve_catalog ::
  "string \<Rightarrow> (string \<times> pg_type \<times> pg_type) list \<Rightarrow> (string \<times> pg_type) list \<Rightarrow> catalog \<Rightarrow> catalog result" where
  "evolve_catalog table fw ads cat =
     and_then (if fw = [] then Inr cat else pg_ddl (WidenColumns table fw) cat)
       (\<lambda>c. if ads = [] then Inr c else pg_ddl (AddColumns table ads) c)"

abbreviation live_in :: "string \<Rightarrow> schema_guard \<Rightarrow> column_info list" where
  "live_in table g \<equiv> live_of (catalog_columns table (world (pg g)))"

lemma count_prune [simp]: "count w now (prune w now t) = count w now t"
  by (simp add: count_def prune_def)

lemma tracker_of_set [simp]: "tracker_of table (set_tracker table f g) = f (tracker_of table g)"
  by (simp add: tracker_of_def set_tracker_def)

lemma set_tracker_fields [simp]:
  "pg (set_tracker table f g) = pg g" "schema_cache (set_tracker table f g) = schema_cache g"
  "max_new_columns_per_window (set_tracker table f g) = max_new_columns_per_window g"
  "churn_window (set_tracker table f g) = churn_window g"
  by (simp_all add: set_tracker_def)

text \<open>
  The outcome of the transaction. The tracker is pruned or not, the cache untouched; on success the
  catalogue is the one the plan leads to, and the churn limit has been respected.
\<close>

definition evolved ::
  "env \<Rightarrow> string \<Rightarrow> inferred_column list \<Rightarrow> schema_guard \<Rightarrow> (plan \<times> (string \<times> pg_type \<times> pg_type) list) result
   \<Rightarrow> schema_guard \<Rightarrow> bool" where
  "evolved e table inferred g r g' \<longleftrightarrow>
     migs (pg g') = migs (pg g) \<and> schema_cache g' = schema_cache g
     \<and> (churn g' = churn g \<or> churn g' = churn (set_tracker table (prune (churn_window g) (now_check e)) g))
     \<and> max_new_columns_per_window g' = max_new_columns_per_window g \<and> churn_window g' = churn_window g
     \<and> (\<forall>pl fw. r = Inr (pl, fw) \<longrightarrow>
          plan_schema table (live_in table g) inferred = Inr pl \<and> fw = widens pl
          \<and> evolve_catalog table fw (adds pl) (world (pg g)) = Inr (world (pg g'))
          \<and> (adds pl \<noteq> [] \<longrightarrow>
               tracker_of table g' = prune (churn_window g) (now_check e) (tracker_of table g) \<and>
               count (churn_window g) (now_check e) (tracker_of table g) + length (adds pl) \<le> max_new_columns_per_window g))"

lemma wp_run_unless_empty:
  assumes "\<And>e. Q (Inl e) g" "\<And>cat. (if xs = [] then Inr (world (pg g)) else pg_ddl q (world (pg g))) = Inr cat
      \<Longrightarrow> Q (Inr ()) (g\<lparr>pg := (pg g)\<lparr>world := cat\<rparr>\<rparr>)"
  shows "wp (run_unless_empty xs q) Q g"
  unfolding run_unless_empty_def run_ddl_def using assms
  by (auto intro!: wp_intro simp: and_then_eq_Inr)

lemma wp_check_churn:
  assumes "\<And>e. Q (Inl e) g" "\<And>e'. Q (Inl e') (set_tracker table (prune (churn_window g) (now_check e)) g)"
    "n = 0 \<Longrightarrow> Q (Inr ()) g"
    "0 < n \<Longrightarrow> count (churn_window g) (now_check e) (tracker_of table g) + n \<le> max_new_columns_per_window g
       \<Longrightarrow> Q (Inr ()) (set_tracker table (prune (churn_window g) (now_check e)) g)"
  shows "wp (check_churn e table n) Q g"
  unfolding check_churn_def using assms
  by (auto intro!: wp_intro simp: Let_def not_less)

lemma evolve_tx_wp: "wp (evolve_tx e table inferred) (evolved e table inferred g) g"
  unfolding evolve_tx_def ping_def fetch_table_info_tx_def Let_def
  by (auto intro!: wp_intro wp_run_unless_empty wp_check_churn simp: evolved_def live_of_def
      plan_schema_spec final_widens_plan evolve_catalog_def tracker_of_def set_tracker_def)

lemma in_tx_wp:
  assumes "wp body R g" "\<And>e g'. R (Inl e) g' \<Longrightarrow> Q (Inl e) (g'\<lparr>pg := pg g\<rparr>)" "\<And>a g'. R (Inr a) g' \<Longrightarrow> Q (Inr a) g'"
  shows "wp (in_tx body) Q g"
  unfolding wp_def
proof (intro allI impI)
  fix d :: "schema_guard db" assume d: "st d = g"
  obtain r d1 where b: "body d = (r, d1)" by (cases "body d")
  from assms(1) d have "R r (st d1)" using b wp_D [of body R d] by simp
  with b d assms(2,3) show "Q (fst (in_tx body d)) (st (snd (in_tx body d)))"
    by (cases r) (simp_all add: in_tx_def)
qed


section \<open>Growth of a catalogue\<close>

text \<open>
  The order in which schemas evolve: every column stays, under its name, with a type that holds what
  the old one held. Other instances move the catalogue along this order too.
\<close>

definition type_le :: "string \<Rightarrow> string \<Rightarrow> bool" where
  "type_le a b \<longleftrightarrow> a = b \<or> (\<exists>s t. from_data_type a = Some s \<and> from_data_type b = Some t \<and> s \<le> t)"

definition columns_le :: "pg_column list \<Rightarrow> pg_column list \<Rightarrow> bool" where
  "columns_le cols cols' \<longleftrightarrow>
     (\<forall>c \<in> set cols. \<exists>c' \<in> set cols'. column_name c' = column_name c \<and> type_le (data_type c) (data_type c'))"

definition catalog_le :: "catalog \<Rightarrow> catalog \<Rightarrow> bool" where
  "catalog_le cat cat' \<longleftrightarrow> (\<forall>t cols. cat t = Some cols \<longrightarrow> (\<exists>cols'. cat' t = Some cols' \<and> columns_le cols cols'))"

lemma type_le_refl [simp]: "type_le a a"
  by (simp add: type_le_def)

lemma type_le_trans: "type_le a b \<Longrightarrow> type_le b c \<Longrightarrow> type_le a c"
  unfolding type_le_def by (metis option.inject order_trans)

lemma columns_le_refl [simp]: "columns_le cols cols"
  by (auto simp: columns_le_def)

lemma columns_le_trans: "columns_le a b \<Longrightarrow> columns_le b c \<Longrightarrow> columns_le a c"
  unfolding columns_le_def by (metis type_le_trans)

lemma catalog_le_refl [simp]: "catalog_le cat cat"
  by (simp add: catalog_le_def)

lemma catalog_le_trans: "catalog_le a b \<Longrightarrow> catalog_le b c \<Longrightarrow> catalog_le a c"
  unfolding catalog_le_def by (metis columns_le_trans)

lemma catalog_le_upd: "cat t = Some cols \<Longrightarrow> columns_le cols cols' \<Longrightarrow> catalog_le cat (cat(t \<mapsto> cols'))"
  by (simp add: catalog_le_def)

text \<open>The result of the two DDL statements of an evolution.\<close>

lemma evolve_catalog_cases:
  assumes "evolve_catalog table fw ads cat = Inr cat'" "folded table"
  obtains (same) "fw = []" "ads = []" "cat' = cat"
  | (changed) cols cols' where "cat table = Some cols" "cat' = cat(table \<mapsto> cols')"
      "try_fold pg_add (map (widened fw) cols) ads = Inr cols'"
      "distinct (map (\<lambda>(n, _). pg_ident n) fw)" "list_all (\<lambda>(_, _, t). data_type_name t \<noteq> None) fw"
proof (cases "fw = [] \<and> ads = []")
  case True
  with assms(1) have "cat' = cat" by (simp add: evolve_catalog_def)
  with True same show thesis by blast
next
  case False
  have t: "pg_ident table = table" using assms(2) by (simp add: folded_def)
  have w: "widened [] = id" by (auto simp: widened_def)
  from False assms(1) t obtain cols where cols: "cat table = Some cols"
    by (auto simp: evolve_catalog_def alter_table_def and_then_eq_Inr split: option.splits if_splits)
  have fw: "cat1 = cat(table \<mapsto> map (widened fw) cols) \<and> distinct (map (\<lambda>(n, _). pg_ident n) fw)
       \<and> list_all (\<lambda>(_, _, t). data_type_name t \<noteq> None) fw"
    if "(if fw = [] then Inr cat else pg_ddl (WidenColumns table fw) cat) = Inr cat1" for cat1
    using that cols t w widen_fold [of cols fw]
    by (auto simp: alter_table_def and_then_eq_Inr map_upd_triv split: if_splits)
  from assms(1) obtain cat1 where
    "(if fw = [] then Inr cat else pg_ddl (WidenColumns table fw) cat) = Inr cat1"
    and ad: "(if ads = [] then Inr cat1 else pg_ddl (AddColumns table ads) cat1) = Inr cat'"
    by (auto simp: evolve_catalog_def and_then_eq_Inr simp del: pg_ddl.simps)
  from fw [OF this(1)] ad t obtain cols' where "cat' = cat(table \<mapsto> cols')"
    "try_fold pg_add (map (widened fw) cols) ads = Inr cols'"
    by (auto simp: alter_table_def and_then_eq_Inr split: if_splits)
  with fw [OF \<open>_ = Inr cat1\<close>] cols changed show thesis by blast
qed

lemma column_names_widened: "map column_name (map (widened fw) cols) = map column_name cols"
  by simp

lemma plain_widened:
  assumes "list_all (\<lambda>(_, _, t). data_type_name t \<noteq> None) fw" "plain (data_type c)"
  shows "plain (data_type (widened fw c))"
proof (cases "map_of (map (\<lambda>(n, _, t). (pg_ident n, t)) fw) (column_name c)")
  case None
  with assms(2) show ?thesis by (simp add: widened_def)
next
  case (Some t)
  then obtain n f where "(n, f, t) \<in> set fw" by (auto dest!: map_of_SomeD)
  with assms(1) obtain ty where "data_type_name t = Some ty" by (auto simp: list_all_iff)
  with Some show ?thesis by (simp add: widened_def data_type_name_plain)
qed

lemma wf_columns_widened:
  "wf_columns cols \<Longrightarrow> list_all (\<lambda>(_, _, t). data_type_name t \<noteq> None) fw \<Longrightarrow> wf_columns (map (widened fw) cols)"
  by (simp add: wf_columns_def list_all_iff comp_def plain_widened)

text \<open>A planned widening only ever raises the type of the column it names.\<close>

lemma widened_plan:
  assumes wf: "wf_columns cols" and c: "c \<in> set cols"
    and fw: "fw = widens (plan_spec (live_of cols) inferred)" "list_all (\<lambda>(_, _, t). data_type_name t \<noteq> None) fw"
  shows "widened fw c = c \<or>
    (\<exists>s t. from_data_type (data_type c) = Some s \<and> s \<le> t \<and> from_data_type (data_type (widened fw c)) = Some t)"
proof (cases "map_of (map (\<lambda>(n, _, t). (pg_ident n, t)) fw) (column_name c)")
  case None
  then show ?thesis by (simp add: widened_def)
next
  case (Some t)
  then obtain n f where nft: "(n, f, t) \<in> set fw" "pg_ident n = column_name c"
    by (auto dest!: map_of_SomeD)
  with fw(1) obtain col where col: "too_narrow (live_of cols) col" "(n, f, t) = widening (live_of cols) col"
    by (auto simp: plan_spec_def)
  then obtain c0 s where c0: "lookup_column cols (to_lowercase (col_name col)) = Some c0"
    "from_data_type (data_type c0) = Some s" "live_type (live_of cols) col = Some s"
    using wf by (auto simp: too_narrow_def live_type_of bind_eq_Some_conv)
  with col(2) wf have nt: "n = column_name c0" "t = target_type (live_of cols) col"
    by (auto simp: widening_def live_by_lower_of to_column_info_def)
  from c0(1) have c0m: "c0 \<in> set cols" by (auto dest: lookup_column_Some)
  with wf nt nft(2) have "column_name c0 = column_name c" by (auto simp: wf_columns_def list_all_iff)
  with wf c c0m have "c0 = c" by (auto simp: wf_columns_def distinct_map dest: inj_onD)
  from fw(2) nft(1) obtain ty where ty: "data_type_name t = Some ty" by (auto simp: list_all_iff)
  have "s \<le> t" using nt(2) c0(3) by (simp add: target_type_def common_type_le)
  moreover have "from_data_type (data_type (widened fw c)) = Some t"
    using Some ty by (simp add: widened_def from_data_type_name)
  ultimately show ?thesis using c0(2) \<open>c0 = c\<close> by blast
qed

lemma widened_plan_le:
  assumes "wf_columns cols" "fw = widens (plan_spec (live_of cols) inferred)" "list_all (\<lambda>(_, _, t). data_type_name t \<noteq> None) fw"
  shows "columns_le cols (map (widened fw) cols)"
  unfolding columns_le_def
proof
  fix c assume "c \<in> set cols"
  with widened_plan [OF assms(1) this assms(2,3)]
  show "\<exists>c' \<in> set (map (widened fw) cols). column_name c' = column_name c \<and> type_le (data_type c) (data_type c')"
    by (intro bexI [of _ "widened fw c"]) (auto simp: type_le_def)
qed

definition names_ok :: "inferred_column list \<Rightarrow> bool" where
  "names_ok inferred \<longleftrightarrow> list_all (\<lambda>col. col_name col \<noteq> []) inferred"

lemma validate_names_ok: "validate_names table inferred = Inr () \<Longrightarrow> names_ok inferred \<and> safe_ident table"
proof -
  assume "validate_names table inferred = Inr ()"
  then have t: "validate_identifier table = Inr ()"
    and f: "try_fold (\<lambda>_ col. validate_identifier (col_name col)) () inferred = Inr ()"
    by (auto simp: validate_names_def and_then_eq_Inr)
  have "list_all (\<lambda>col. col_name col \<noteq> []) inferred"
    using f by (induction inferred) (auto simp: and_then_eq_Inr dest: validate_identifier_safe simp: safe_ident_def)
  with validate_identifier_safe [OF t] show ?thesis by (simp add: names_ok_def)
qed

text \<open>What one evolution does to the catalogue.\<close>

lemma evolve_catalog_grows:
  assumes wf: "wf_catalog cat" and fold: "folded table" and names: "names_ok inferred"
    and pl: "plan_schema table (live_of (catalog_columns table cat)) inferred = Inr pl"
    and ev: "evolve_catalog table (widens pl) (adds pl) cat = Inr cat'"
  shows "catalog_le cat cat'" "wf_catalog cat'"
    "\<And>t cols'. cat' t = Some cols' \<Longrightarrow>
       cat t = Some cols' \<or> length cols' \<le> max MAX_COLUMNS_PER_TABLE (length (catalog_columns t cat))"
    "\<And>t. t \<noteq> table \<Longrightarrow> cat' t = cat t"
proof -
  let ?A = "catalog_le cat cat' \<and> wf_catalog cat' \<and> (\<forall>t cols'. cat' t = Some cols' \<longrightarrow>
       cat t = Some cols' \<or> length cols' \<le> max MAX_COLUMNS_PER_TABLE (length (catalog_columns t cat)))
       \<and> (\<forall>t. t \<noteq> table \<longrightarrow> cat' t = cat t)"
  from ev fold have ?A
  proof (cases rule: evolve_catalog_cases)
    case same
    with wf show ?thesis by simp
  next
    case (changed cols cols')
    from wf changed(1) have wfc: "wf_columns cols" by (auto simp: wf_catalog_def)
    have cc: "catalog_columns table cat = cols" using changed(1) by (simp add: catalog_columns_def)
    from pl have spec: "pl = plan_spec (live_of cols) inferred"
      "live_count (live_of cols) + length (adds pl) \<le> MAX_COLUMNS_PER_TABLE"
      by (auto simp: plan_schema_spec cc)
    have ne: "list_all (\<lambda>(n, _). n \<noteq> []) (adds pl)"
      using names by (auto simp: spec(1) plan_spec_def names_ok_def list_all_iff payload_part_def)
    obtain new where new: "cols' = map (widened (widens pl)) cols @ new" "length new \<le> length (adds pl)" "wf_columns cols'"
      using add_fold_extends [OF changed(3)] ne wf_columns_widened [OF wfc changed(5)] by blast
    have le: "columns_le cols (map (widened (widens pl)) cols)"
      by (rule widened_plan_le [OF wfc _ changed(5)]) (simp add: spec(1))
    have "columns_le cols cols'"
      using le unfolding columns_le_def new(1) set_append by blast
    moreover have "length cols' \<le> MAX_COLUMNS_PER_TABLE"
      using new(1,2) spec(2) live_count_of [OF wfc] by simp
    ultimately show ?thesis
      using wf new(3) changed(1,2) by (auto simp: wf_catalog_def catalog_le_upd)
  qed
  then show "catalog_le cat cat'" "wf_catalog cat'"
    "\<And>t cols'. cat' t = Some cols' \<Longrightarrow>
       cat t = Some cols' \<or> length cols' \<le> max MAX_COLUMNS_PER_TABLE (length (catalog_columns t cat))"
    "\<And>t. t \<noteq> table \<Longrightarrow> cat' t = cat t"
    by blast+
qed


text \<open>
  After an evolution every payload column is in the table, with a type that holds the payload's.
\<close>

lemma evolve_catalog_covers:
  assumes wf: "wf_catalog cat" and fold: "folded table" and names: "names_ok inferred"
    and short: "list_all (\<lambda>col. length (col_name col) \<le> 63) inferred"
    and dist: "distinct (map (\<lambda>col. to_lowercase (col_name col)) inferred)"
    and pl: "plan_schema table (live_of (catalog_columns table cat)) inferred = Inr pl"
    and ev: "evolve_catalog table (widens pl) (adds pl) cat = Inr cat'"
    and col: "col \<in> set (payload_part inferred)"
  shows "\<exists>c t. lookup_column (catalog_columns table cat') (to_lowercase (col_name col)) = Some c
    \<and> from_data_type (data_type c) = Some t \<and> target_type (live_of (catalog_columns table cat)) col \<le> t"
proof -
  let ?cols = "catalog_columns table cat" and ?k = "to_lowercase (col_name col)"
  have wfc: "wf_columns ?cols"
    using wf by (cases "cat table") (auto simp: wf_catalog_def catalog_columns_def wf_columns_def)
  from pl have spec: "pl = plan_spec (live_of ?cols) inferred" "readable (live_of ?cols) inferred"
    by (auto simp: plan_schema_spec)
  have grown: "wf_catalog cat'" "catalog_le cat cat'"
    using evolve_catalog_grows [OF wf fold names pl ev] by blast+
  have wfc': "wf_columns (catalog_columns table cat')"
    using grown(1) by (cases "cat' table") (auto simp: wf_catalog_def catalog_columns_def wf_columns_def)
  show ?thesis
  proof (cases "missing (live_of ?cols) col")
    case False
    with spec(2) col wfc obtain c s where c: "lookup_column ?cols ?k = Some c" "from_data_type (data_type c) = Some s"
      "live_type (live_of ?cols) col = Some s"
      by (auto simp: readable_def list_all_iff missing_def live_type_of live_by_lower_of bind_eq_Some_conv)
    then have cm: "c \<in> set ?cols" "column_name c = ?k" by (auto dest: lookup_column_Some)
    from ev fold show ?thesis
    proof (cases rule: evolve_catalog_cases)
      case same
      have "\<not> too_narrow (live_of ?cols) col"
        using same(1) col unfolding spec(1) plan_spec_def by (auto simp: filter_empty_conv)
      with c same show ?thesis by (auto simp: too_narrow_def)
    next
      case (changed cols cols')
      then have cc: "?cols = cols" "catalog_columns table cat' = cols'" by (auto simp: catalog_columns_def)
      from add_fold_extends [OF changed(3)] obtain new where new: "cols' = map (widened (widens pl)) cols @ new" by blast
      have "widened (widens pl) c \<in> set cols'" using cm cc new by simp
      then have look: "lookup_column cols' ?k = Some (widened (widens pl) c)"
        using lookup_column_mem [of cols'] wfc' cc cm(2) by (metis column_name_widened wf_columns_def)
      show ?thesis
      proof (cases "too_narrow (live_of ?cols) col")
        case True
        let ?t = "target_type (live_of ?cols) col"
        from c(1) wfc have "widening (live_of ?cols) col = (column_name c, s, ?t)"
          using c(3) by (simp add: widening_def live_by_lower_of to_column_info_def)
        with True col have "(column_name c, s, ?t) \<in> set (widens pl)"
          unfolding spec(1) plan_spec_def by force
        moreover have "pg_ident (column_name c) = column_name c"
          using wfc cm(1) unfolding wf_columns_def list_all_iff by blast
        moreover have "distinct (map fst (map (\<lambda>(n, _, t). (pg_ident n, t)) (widens pl)))"
          using changed(4) by (simp add: comp_def split_def)
        ultimately have "map_of (map (\<lambda>(n, _, t). (pg_ident n, t)) (widens pl)) (column_name c) = Some ?t"
          by (intro map_of_is_SomeI) force+
        moreover obtain ty where "data_type_name ?t = Some ty"
          using changed(5) \<open>_ \<in> set (widens pl)\<close> by (fastforce simp: list_all_iff)
        ultimately have "from_data_type (data_type (widened (widens pl) c)) = Some ?t"
          by (simp add: widened_def from_data_type_name)
        with look cc show ?thesis by auto
      next
        case False
        with c(3) have t: "target_type (live_of ?cols) col = s" by (auto simp: too_narrow_def)
        have "widened (widens pl) c = c \<or> (\<exists>s t. from_data_type (data_type c) = Some s \<and> s \<le> t
            \<and> from_data_type (data_type (widened (widens pl) c)) = Some t)"
          using widened_plan [OF wfc cm(1) _ changed(5)] spec(1) by simp
        with look c(2) cc t show ?thesis by auto
      qed
    qed
  next
    case True
    let ?a = "(col_name col, pg_type col)"
    have a: "?a \<in> set (adds pl)" using True col unfolding spec(1) plan_spec_def by auto
    have short_p: "length (col_name x) \<le> 63" if "x \<in> set (payload_part inferred)" for x
      using that short by (auto simp: payload_part_def list_all_iff)
    have idents: "map (\<lambda>(n, _). pg_ident n) (adds pl)
        = map (\<lambda>x. to_lowercase (col_name x)) (filter (missing (live_of ?cols)) (payload_part inferred))"
      unfolding spec(1) plan_spec_def using short_p by (auto simp: pg_ident_short)
    have d: "distinct (map (\<lambda>(n, _). pg_ident n) (adds pl))"
      unfolding idents payload_part_def using dist by (auto intro!: distinct_map_filter)
    have "(\<lambda>(n, _). pg_ident n) ` set (adds pl) = set (map (\<lambda>(n, _). pg_ident n) (adds pl))" by simp
    also have "\<dots> \<inter> column_name ` set ?cols = {}"
      unfolding idents using wfc by (auto simp: missing_def live_by_lower_of lookup_column_None)
    finally have fresh: "(\<lambda>(n, _). pg_ident n) ` set (adds pl) \<inter> column_name ` set ?cols = {}" .
    have tgt: "target_type (live_of ?cols) col = pg_type col"
      using True by (simp add: target_type_def missing_def live_type_def)
    from ev fold show ?thesis
    proof (cases rule: evolve_catalog_cases)
      case same
      with a show ?thesis by simp
    next
      case (changed cols cols')
      then have cc: "?cols = cols" "catalog_columns table cat' = cols'" by (auto simp: catalog_columns_def)
      have "(\<lambda>(n, _). pg_ident n) ` set (adds pl) \<inter> column_name ` set (map (widened (widens pl)) cols) = {}"
        using fresh cc by (simp add: image_image)
      from add_fold_fresh [OF changed(3) d this] have
        cols': "cols' = map (widened (widens pl)) cols @ map new_column (adds pl)"
        and nn: "list_all (\<lambda>(_, t). data_type_name t \<noteq> None) (adds pl)" by blast+
      from nn a obtain ty where ty: "data_type_name (pg_type col) = Some ty" by (fastforce simp: list_all_iff)
      have "new_column ?a \<in> set cols'" using a cols' by simp
      moreover have "column_name (new_column ?a) = ?k"
        using short_p [OF col] by (simp add: new_column_def pg_ident_short)
      ultimately have "lookup_column cols' ?k = Some (new_column ?a)"
        using lookup_column_mem [of cols'] wfc' cc by (metis wf_columns_def)
      then show ?thesis using ty cc tgt by (auto simp: new_column_def from_data_type_name)
    qed
  qed
qed


section \<open>The operation\<close>

text \<open>What recording a migration leaves alone: everything but the migrations table and the counter.\<close>

definition same_schema :: "schema_guard \<Rightarrow> schema_guard \<Rightarrow> bool" where
  "same_schema g g' \<longleftrightarrow> world (pg g') = world (pg g) \<and> schema_cache g' = schema_cache g \<and> churn g' = churn g
     \<and> max_new_columns_per_window g' = max_new_columns_per_window g \<and> churn_window g' = churn_window g"

lemma on_pg_wp: "wp m (\<lambda>r db. Q r (g\<lparr>pg := db\<rparr>)) (pg g) \<Longrightarrow> wp (on_pg m) Q g"
  by (auto simp: wp_def on_pg_def split: prod.splits) (metis db.select_convs(1) prod.sel)

lemma register_wp: "(\<And>r ms. Q r (db\<lparr>migs := ms\<rparr>)) \<Longrightarrow> wp (register m) Q db"
proof -
  assume Q: "\<And>r ms. Q r (db\<lparr>migs := ms\<rparr>)"
  from Q [of _ "migs db"] have "Q r db" for r by simp
  with Q show "wp (register m) Q db"
    unfolding register_def by (intro wp_stmt) (auto simp: and_then_eq_Inr)
qed

lemma record_auto_migration_wp:
  assumes "\<And>r g'. same_schema g g' \<Longrightarrow> Q r g'"
  shows "wp (record_auto_migration e name up_sql down) Q g"
  unfolding record_auto_migration_def migration_service_def next_migration_version_def ping_def
  by (auto intro!: wp_intro on_pg_wp register_wp assms simp: same_schema_def)

definition live_outcome ::
  "env \<Rightarrow> string \<Rightarrow> inferred_column list \<Rightarrow> schema_guard \<Rightarrow> (string \<times> pg_type) list result \<Rightarrow> schema_guard \<Rightarrow> bool" where
  "live_outcome e table inferred g r g' \<longleftrightarrow>
     max_new_columns_per_window g' = max_new_columns_per_window g \<and> churn_window g' = churn_window g \<and>
     (case r of
       Inl err \<Rightarrow> pg g' = pg g \<and> schema_cache g' = schema_cache g
         \<and> (churn g' = churn g \<or> churn g' = churn (set_tracker table (prune (churn_window g) (now_check e)) g))
     | Inr res \<Rightarrow> (\<exists>pl. plan_schema table (live_in table g) inferred = Inr pl \<and> res = insertable pl
         \<and> evolve_catalog table (widens pl) (adds pl) (world (pg g)) = Inr (world (pg g'))
         \<and> schema_cache g' = (schema_cache g)(table := None)
         \<and> (adds pl = [] \<longrightarrow> tracker_of table g' \<in> {tracker_of table g,
                prune (churn_window g) (now_check e) (tracker_of table g)})
         \<and> (adds pl \<noteq> [] \<longrightarrow>
             tracker_of table g' = record_additions (now_record e) (length (adds pl))
                (prune (churn_window g) (now_check e) (tracker_of table g))
             \<and> count (churn_window g) (now_check e) (tracker_of table g) + length (adds pl) \<le> max_new_columns_per_window g)))"

lemma ensure_live_wp: "wp (ensure_live e table inferred) (live_outcome e table inferred g) g"
  unfolding ensure_live_def record_churn_def record_evolution_def Let_def
  by (rule wp_bind_io, rule in_tx_wp [OF evolve_tx_wp])
    (auto intro!: wp_intro record_auto_migration_wp simp: evolved_def live_outcome_def same_schema_def cache_remove_def
      tracker_of_def set_tracker_def)

text \<open>The shortcut through the cache, or the live evolution.\<close>

definition ensured ::
  "env \<Rightarrow> string \<Rightarrow> inferred_column list \<Rightarrow> schema_guard \<Rightarrow> (string \<times> pg_type) list result \<Rightarrow> schema_guard \<Rightarrow> bool" where
  "ensured e table inferred g r g' \<longleftrightarrow>
     (validate_names table inferred = Inr () \<and> live_outcome e table inferred g r g')
     \<or> (\<exists>err. r = Inl err \<and> g' = g \<and> validate_names table inferred = Inl err)
     \<or> (\<exists>cols res. schema_cache g table = Some cols \<and> schema_from_cache table inferred cols = Inr res \<and> r = Inr res \<and> g' = g
          \<and> validate_names table inferred = Inr ())"

lemma ensure_schema_wp: "wp (ensure_schema e table inferred) (ensured e table inferred g) g"
proof -
  have live: "wp (ensure_live e table inferred) (ensured e table inferred g) g" if "validate_names table inferred = Inr ()"
    using ensure_live_wp by (rule wp_weaken) (use that in \<open>simp add: ensured_def\<close>)
  show ?thesis unfolding ensure_schema_def
    by (auto intro!: wp_intro live simp: ensured_def split: option.splits sum.splits)
qed


text \<open>
  C2. A refused evolution changes nothing that is stored: whatever database call fails, when
  \<open>ensure_schema\<close> returns an error the catalogue, the migration history and the cache are exactly as
  before, and the churn tracker has at most lost entries that are outside its window.
\<close>

theorem ensure_schema_error_atomic:
  assumes "ensure_schema e table inferred d = (Inl err, d')"
  shows "pg (st d') = pg (st d) \<and> schema_cache (st d') = schema_cache (st d)
    \<and> (churn (st d') = churn (st d)
       \<or> churn (st d') = churn (set_tracker table (prune (churn_window (st d)) (now_check e)) (st d)))"
  using wp_D [OF ensure_schema_wp assms] by (auto simp: ensured_def live_outcome_def)

text \<open>A guard over an empty database, and the environment of an instance, for the witnesses.\<close>

definition demo_env :: env where
  "demo_env = \<lparr>now_check = 100000, now_record = 100001, nanos = 7, fresh_uuid = ''u'', sha256_hex = id,
     parse_json = (\<lambda>_. None), base64 = id\<rparr>"

definition demo_catalog :: catalog where
  "demo_catalog = [''users'' \<mapsto> base_table @ [\<lparr>column_name = ''age'', data_type = ''bigint'', nullable = True\<rparr>]]"

definition demo_guard :: schema_guard where
  "demo_guard = new_guard None None \<lparr>migs = [], world = demo_catalog\<rparr>"

definition demo_columns :: "inferred_column list" where
  "demo_columns = [new_inferred_column ''age'' DoublePrecision False, new_inferred_column ''Name'' Text False]"

lemma demo_columns_valid: "validate_names ''users'' demo_columns = Inr ()"
proof -
  have "validate_identifier ''users'' = Inr ()" "validate_identifier ''age'' = Inr ()" "validate_identifier ''Name'' = Inr ()"
    by (simp_all add: ident_eval)
  then show ?thesis by (simp add: validate_names_def demo_columns_def new_inferred_column_def)
qed


section \<open>Invariants of the guard\<close>

text \<open>
  A cache entry is an earlier state of the table: the catalogue has only grown since. This is what the
  shortcut relies on between two notifications.
\<close>

definition cache_ok :: "schema_guard \<Rightarrow> bool" where
  "cache_ok g \<longleftrightarrow> (\<forall>t cs. schema_cache g t = Some cs \<longrightarrow>
     (\<exists>cols. wf_columns cols \<and> cs = live_of cols \<and> columns_le cols (catalog_columns t (world (pg g)))))"

definition guard_inv :: "schema_guard \<Rightarrow> bool" where
  "guard_inv g \<longleftrightarrow> wf_catalog (world (pg g)) \<and> cache_ok g"

lemma wf_catalog_columns: "wf_catalog cat \<Longrightarrow> wf_columns (catalog_columns t cat)"
  by (cases "cat t") (auto simp: wf_catalog_def catalog_columns_def wf_columns_def)

lemma catalog_le_columns: "catalog_le cat cat' \<Longrightarrow> columns_le (catalog_columns t cat) (catalog_columns t cat')"
  by (cases "cat t") (auto simp: catalog_le_def catalog_columns_def columns_le_def, force)

lemma guard_inv_growth:
  assumes "guard_inv g" "catalog_le (world (pg g)) cat" "wf_catalog cat"
  shows "guard_inv (g\<lparr>pg := (pg g)\<lparr>world := cat\<rparr>\<rparr>)"
  unfolding guard_inv_def cache_ok_def
proof (intro conjI allI impI)
  fix t cs assume "schema_cache (g\<lparr>pg := (pg g)\<lparr>world := cat\<rparr>\<rparr>) t = Some cs"
  with assms(1) obtain cols where "wf_columns cols" "cs = live_of cols" "columns_le cols (catalog_columns t (world (pg g)))"
    by (auto simp: guard_inv_def cache_ok_def)
  with catalog_le_columns [OF assms(2), of t] columns_le_trans
  show "\<exists>cols. wf_columns cols \<and> cs = live_of cols \<and>
      columns_le cols (catalog_columns t (world (pg (g\<lparr>pg := (pg g)\<lparr>world := cat\<rparr>\<rparr>))))"
    by auto
qed (use assms(3) in simp)

lemma growth_outcome:
  assumes inv: "guard_inv g" and fold: "folded table" and out: "ensured e table inferred g r g'"
  shows "guard_inv g'" "catalog_le (world (pg g)) (world (pg g'))"
    "\<And>t cols'. world (pg g') t = Some cols' \<Longrightarrow> world (pg g) t = Some cols'
        \<or> length cols' \<le> max MAX_COLUMNS_PER_TABLE (length (catalog_columns t (world (pg g))))"
proof -
  let ?A = "guard_inv g' \<and> catalog_le (world (pg g)) (world (pg g')) \<and> (\<forall>t cols'. world (pg g') t = Some cols' \<longrightarrow>
      world (pg g) t = Some cols' \<or> length cols' \<le> max MAX_COLUMNS_PER_TABLE (length (catalog_columns t (world (pg g)))))"
  have same: ?A if "pg g' = pg g" "schema_cache g' = schema_cache g"
    using that inv by (simp add: guard_inv_def cache_ok_def)
  from out consider "pg g' = pg g \<and> schema_cache g' = schema_cache g"
    | res where "r = Inr res" "validate_names table inferred = Inr ()" "live_outcome e table inferred g r g'"
    unfolding ensured_def by (cases r) (auto simp: live_outcome_def)
  then have ?A
  proof cases
    case 1
    with same show ?thesis by blast
  next
    case (2 res)
    then obtain pl where pl: "plan_schema table (live_of (catalog_columns table (world (pg g)))) inferred = Inr pl"
      "evolve_catalog table (widens pl) (adds pl) (world (pg g)) = Inr (world (pg g'))"
      "schema_cache g' = (schema_cache g)(table := None)"
      by (auto simp: live_outcome_def)
    have wf: "wf_catalog (world (pg g))" using inv by (simp add: guard_inv_def)
    note grow = evolve_catalog_grows [OF wf fold conjunct1 [OF validate_names_ok [OF 2(2)]] pl(1,2)]
    have "cache_ok g'"
      unfolding cache_ok_def
    proof (intro allI impI)
      fix t cs assume "schema_cache g' t = Some cs"
      with pl(3) have "schema_cache g t = Some cs" by (simp split: if_splits)
      with inv obtain cols where "wf_columns cols" "cs = live_of cols" "columns_le cols (catalog_columns t (world (pg g)))"
        by (auto simp: guard_inv_def cache_ok_def)
      with catalog_le_columns [OF grow(1), of t] columns_le_trans
      show "\<exists>cols. wf_columns cols \<and> cs = live_of cols \<and> columns_le cols (catalog_columns t (world (pg g')))" by blast
    qed
    with grow show ?thesis by (auto simp: guard_inv_def)
  qed
  then show "guard_inv g'" "catalog_le (world (pg g)) (world (pg g'))"
    "\<And>t cols'. world (pg g') t = Some cols' \<Longrightarrow> world (pg g) t = Some cols'
        \<or> length cols' \<le> max MAX_COLUMNS_PER_TABLE (length (catalog_columns t (world (pg g))))"
    by blast+
qed

text \<open>
  C3. Schema evolution is monotone and bounded, for a table whose name PostgreSQL leaves as it is (lower
  case, at most 63 characters). Whatever the payload and whatever calls fail, after \<open>ensure_schema\<close> for
  such a table every column of every table is still there under its name with a type that holds at
  least what it held; a table that changed has at most 1000 columns (or as many as it had); and the
  invariant of catalogue and cache is kept. For a name that PostgreSQL folds the guard sees no columns,
  so the cap is not respected (\<open>folded_names_hide_tables\<close>).
\<close>

theorem ensure_schema_monotone:
  assumes "guard_inv (st d)" "folded table" "ensure_schema e table inferred d = (r, d')"
  shows "guard_inv (st d') \<and> catalog_le (world (pg (st d))) (world (pg (st d')))
    \<and> (\<forall>t cols'. world (pg (st d')) t = Some cols' \<longrightarrow> world (pg (st d)) t = Some cols'
        \<or> length cols' \<le> max MAX_COLUMNS_PER_TABLE (length (catalog_columns t (world (pg (st d))))))"
  using growth_outcome [OF assms(1,2) wp_D [OF ensure_schema_wp assms(3)]] by blast

text \<open>
  What the cache shortcut answers is true of the table as it is now: every payload column is there,
  with a type that holds the one to bind.
\<close>

lemma cached_covers:
  assumes wf: "wf_catalog cat" and inv: "wf_columns cols" "cs = live_of cols" "columns_le cols (catalog_columns table cat)"
    and hit: "schema_from_cache table inferred cs = Inr res"
  shows "map fst res = map col_name (payload_part inferred) \<and>
    (\<forall>col \<in> set (payload_part inferred). \<exists>c s t. (col_name col, s) \<in> set res
       \<and> lookup_column (catalog_columns table cat) (to_lowercase (col_name col)) = Some c
       \<and> from_data_type (data_type c) = Some t \<and> pg_type col \<le> s \<and> s \<le> t)"
proof -
  have tgt: "pg_type col \<le> target_type live col" for live col
    by (simp add: target_type_def common_type_le split: option.splits)
  from hit have spec: "plan_spec cs inferred = \<lparr>adds = [], widens = [], insertable = res\<rparr>" "readable cs inferred"
    by (auto simp: schema_from_cache_plan plan_loop_spec)
  then have res: "res = map (\<lambda>c. (col_name c, target_type cs c)) (payload_part inferred)"
    by (simp add: plan_spec_def)
  have "\<exists>c s t. (col_name col, s) \<in> set res
     \<and> lookup_column (catalog_columns table cat) (to_lowercase (col_name col)) = Some c
     \<and> from_data_type (data_type c) = Some t \<and> pg_type col \<le> s \<and> s \<le> t" if col: "col \<in> set (payload_part inferred)" for col
  proof -
    have "\<not> missing cs col" "\<not> too_narrow cs col"
      using spec(1) col by (auto simp: plan_spec_def filter_empty_conv)
    with spec(2) col inv(1,2) obtain c s where c: "lookup_column cols (to_lowercase (col_name col)) = Some c"
      "from_data_type (data_type c) = Some s" "target_type cs col = s"
      by (auto simp: readable_def list_all_iff too_narrow_def live_type_of bind_eq_Some_conv)
    then have "c \<in> set cols" "column_name c = to_lowercase (col_name col)" by (auto dest: lookup_column_Some)
    with inv(3) obtain c' where c': "c' \<in> set (catalog_columns table cat)" "column_name c' = to_lowercase (col_name col)"
      "type_le (data_type c) (data_type c')" by (force simp: columns_le_def)
    then obtain t where "from_data_type (data_type c') = Some t" "s \<le> t" using c(2) by (auto simp: type_le_def)
    moreover have "lookup_column (catalog_columns table cat) (to_lowercase (col_name col)) = Some c'"
      using lookup_column_mem [OF _ c'(1)] wf_catalog_columns [OF wf, of table] c'(2) by (simp add: wf_columns_def)
    ultimately show ?thesis using col c(3) tgt [of col cs] unfolding res by auto
  qed
  then show ?thesis by (simp add: res comp_def)
qed

text \<open>
  C1. Evolution is complete, for a table whose name PostgreSQL leaves as it is (lower case, at most 63
  characters) and columns whose names are distinct up to case and at most 63 characters long. Whatever
  calls fail on the way, when \<open>ensure_schema\<close> succeeds for such a table and such columns, every column of
  the payload is in the table afterwards, with a type that holds the inferred one; and the returned
  binding list names exactly the payload columns in order, each with a type between the inferred and
  the stored one. For a name that PostgreSQL folds this fails (\<open>folded_names_hide_tables\<close>).
\<close>

theorem ensure_schema_complete:
  assumes inv: "guard_inv (st d)" and fold: "folded table"
    and short: "list_all (\<lambda>col. length (col_name col) \<le> 63) inferred"
    and dist: "distinct (map (\<lambda>col. to_lowercase (col_name col)) inferred)"
    and ok: "ensure_schema e table inferred d = (Inr res, d')"
  shows "map fst res = map col_name (payload_part inferred) \<and>
    (\<forall>col \<in> set (payload_part inferred). \<exists>c s t. (col_name col, s) \<in> set res
       \<and> lookup_column (catalog_columns table (world (pg (st d')))) (to_lowercase (col_name col)) = Some c
       \<and> from_data_type (data_type c) = Some t \<and> pg_type col \<le> s \<and> s \<le> t)"
proof -
  let ?cat = "world (pg (st d))"
  have tgt: "pg_type col \<le> target_type live col" for live col
    by (simp add: target_type_def common_type_le split: option.splits)
  have wf: "wf_catalog ?cat" using inv by (simp add: guard_inv_def)
  from wp_D [OF ensure_schema_wp ok] consider
    (live) "validate_names table inferred = Inr ()" "live_outcome e table inferred (st d) (Inr res) (st d')"
  | (cached) cs where "schema_cache (st d) table = Some cs" "schema_from_cache table inferred cs = Inr res" "st d' = st d"
    by (auto simp: ensured_def)
  then show ?thesis
  proof cases
    case live
    then obtain pl where pl: "plan_schema table (live_of (catalog_columns table ?cat)) inferred = Inr pl"
      "res = insertable pl" "evolve_catalog table (widens pl) (adds pl) ?cat = Inr (world (pg (st d')))"
      by (auto simp: live_outcome_def)
    then have res: "res = map (\<lambda>c. (col_name c, target_type (live_in table (st d)) c)) (payload_part inferred)"
      by (auto simp: plan_schema_spec plan_spec_def)
    have "\<exists>c s t. (col_name col, s) \<in> set res
       \<and> lookup_column (catalog_columns table (world (pg (st d')))) (to_lowercase (col_name col)) = Some c
       \<and> from_data_type (data_type c) = Some t \<and> pg_type col \<le> s \<and> s \<le> t" if "col \<in> set (payload_part inferred)" for col
      using evolve_catalog_covers [OF wf fold conjunct1 [OF validate_names_ok [OF live(1)]] short dist pl(1,3) that]
        that tgt [of col "live_in table (st d)"] unfolding res by auto
    then show ?thesis by (simp add: res comp_def)
  next
    case (cached cs)
    with inv obtain cols where cols: "wf_columns cols" "cs = live_of cols" "columns_le cols (catalog_columns table ?cat)"
      by (auto simp: guard_inv_def cache_ok_def)
    with cached_covers [OF wf cols cached(2)] cached(3) show ?thesis by simp
  qed
qed


section \<open>The churn limit\<close>

text \<open>
  The history of one tracker: \<open>churn_run w m t log c\<close> says that a tracker with window \<open>w\<close> and limit
  \<open>m\<close> is in state \<open>t\<close> at time \<open>c\<close>, \<open>log\<close> being the times of all columns ever added, those already
  pruned from the tracker included.
\<close>

inductive churn_run :: "nat \<Rightarrow> nat \<Rightarrow> churn_tracker \<Rightarrow> nat list \<Rightarrow> nat \<Rightarrow> bool" for w m where
  start: "churn_run w m new_tracker [] 0"
| tick: "churn_run w m t log c \<Longrightarrow> c \<le> c' \<Longrightarrow> churn_run w m t log c'"
| pruned: "churn_run w m t log c \<Longrightarrow> c \<le> tc \<Longrightarrow> churn_run w m (prune w tc t) log tc"
| admit: "churn_run w m t log c \<Longrightarrow> c \<le> tc \<Longrightarrow> tc \<le> tr \<Longrightarrow> count w tc t + n \<le> m \<Longrightarrow>
    churn_run w m (record_additions tr n (prune w tc t)) (log @ replicate n tr) tr"

definition in_window :: "nat \<Rightarrow> nat \<Rightarrow> nat list \<Rightarrow> nat" where
  "in_window w now log = length (filter (\<lambda>x. x \<le> now \<and> now - x \<le> w) log)"

lemma filter_narrow:
  "tc \<le> now \<Longrightarrow> filter (\<lambda>x. now - x \<le> w) (filter (\<lambda>x. tc - x \<le> w) xs) = filter (\<lambda>x. now - x \<le> w) (xs :: nat list)"
  by (simp add: filter_filter) (rule filter_cong, auto)

lemma count_narrow: "tc \<le> now \<Longrightarrow> count w now (prune w tc t) = count w now t"
  using filter_narrow [of tc now w "additions t"] by (simp add: count_def prune_def)

text \<open>The tracker sees everything that is still inside a window.\<close>

lemma churn_run_count:
  "churn_run w m t log c \<Longrightarrow> (\<forall>x \<in> set log. x \<le> c) \<and> (\<forall>now \<ge> c. count w now t = length (filter (\<lambda>x. now - x \<le> w) log))"
proof (induction rule: churn_run.induct)
  case start
  then show ?case by (simp add: count_def new_tracker_def)
next
  case (tick t log c c')
  then show ?case by (meson order_trans)
next
  case (pruned t log c tc)
  then show ?case by (auto simp: count_narrow intro: order_trans)
next
  case (admit t log c tc tr n)
  have "count w now (record_additions tr n (prune w tc t)) = count w now t + (if now - tr \<le> w then n else 0)"
    if "tr \<le> now" for now
    using that admit.hyps(3) count_narrow [of tc now w t] by (simp add: count_def record_additions_def)
  with admit show ?case by (auto intro: order_trans)
qed

lemma churn_run_bound: "churn_run w m t log c \<Longrightarrow> in_window w now log \<le> m"
proof (induction arbitrary: now rule: churn_run.induct)
  case start
  then show ?case by (simp add: in_window_def)
next
  case (admit t log c tc tr n)
  show ?case
  proof (cases "tr \<le> now")
    case False
    with admit.IH [of now] show ?thesis by (simp add: in_window_def)
  next
    case True
    have "length (filter (\<lambda>x. x \<le> now \<and> now - x \<le> w) log) \<le> length (filter (\<lambda>x. tc - x \<le> w) log)"
      using True admit.hyps(3) by (intro length_filter_mono_pred) auto
    also have "\<dots> = count w tc t"
      using churn_run_count [OF admit.hyps(1)] admit.hyps(2) by simp
    finally have "length (filter (\<lambda>x. x \<le> now \<and> now - x \<le> w) log) + n \<le> m" using admit.hyps(4) by simp
    moreover have "length (filter (\<lambda>x. x \<le> now \<and> now - x \<le> w) (replicate n tr)) \<le> n"
      by (metis length_filter_le length_replicate)
    ultimately show ?thesis by (simp add: in_window_def)
  qed
qed auto

text \<open>
  C4. The churn limit holds in every window. Starting from any history of a table's tracker, one more
  \<open>ensure_schema\<close> extends the history by the columns it adds, never fewer than the table gains, and in
  every window of the configured length the number of columns added, ever, is at most the configured
  maximum, although the tracker forgets old entries.
\<close>

theorem churn_limit_holds:
  assumes fold: "folded table"
    and run: "churn_run (churn_window (st d)) (max_new_columns_per_window (st d)) (tracker_of table (st d)) log c"
    and clock: "c \<le> now_check e" "now_check e \<le> now_record e"
    and call: "ensure_schema e table inferred d = (r, d')"
  shows "\<exists>n. churn_run (churn_window (st d)) (max_new_columns_per_window (st d)) (tracker_of table (st d'))
        (log @ replicate n (now_record e)) (now_record e)
    \<and> length (catalog_columns table (world (pg (st d')))) \<le> length (catalog_columns table (world (pg (st d)))) + n
    \<and> (\<forall>now. in_window (churn_window (st d)) now (log @ replicate n (now_record e)) \<le> max_new_columns_per_window (st d))"
proof -
  let ?g = "st d" and ?g' = "st d'" and ?w = "churn_window (st d)" and ?m = "max_new_columns_per_window (st d)"
  let ?cols = "\<lambda>g. catalog_columns table (world (pg g))"
  have idle: "churn_run ?w ?m t (log @ replicate 0 (now_record e)) (now_record e)"
    if "t = tracker_of table ?g \<or> t = prune ?w (now_check e) (tracker_of table ?g)" for t
    using that run clock churn_run.tick [OF run, of "now_record e"]
      churn_run.tick [OF churn_run.pruned [OF run clock(1)] clock(2)] by auto
  have live: ?thesis if "live_outcome e table inferred ?g r ?g'"
  proof (cases r)
    case (Inl err)
    with that have "pg ?g' = pg ?g"
      "tracker_of table ?g' = tracker_of table ?g \<or> tracker_of table ?g' = prune ?w (now_check e) (tracker_of table ?g)"
      by (auto simp: live_outcome_def tracker_of_def set_tracker_def)
    with idle churn_run_bound [OF run] show ?thesis by (intro exI [of _ 0]) auto
  next
    case (Inr res)
    with that obtain pl where pl: "plan_schema table (live_in table ?g) inferred = Inr pl"
      "evolve_catalog table (widens pl) (adds pl) (world (pg ?g)) = Inr (world (pg ?g'))"
      "adds pl = [] \<longrightarrow> tracker_of table ?g' \<in> {tracker_of table ?g, prune ?w (now_check e) (tracker_of table ?g)}"
      "adds pl \<noteq> [] \<longrightarrow> tracker_of table ?g' = record_additions (now_record e) (length (adds pl))
              (prune ?w (now_check e) (tracker_of table ?g))
           \<and> count ?w (now_check e) (tracker_of table ?g) + length (adds pl) \<le> ?m"
      by (auto simp: live_outcome_def)
    have len: "length (?cols ?g') \<le> length (?cols ?g) + length (adds pl)"
      using pl(2) fold
    proof (cases rule: evolve_catalog_cases)
      case (changed cols cols')
      with add_fold_extends [OF changed(3)] show ?thesis by (auto simp: catalog_columns_def)
    qed simp
    have "churn_run ?w ?m (tracker_of table ?g') (log @ replicate (length (adds pl)) (now_record e)) (now_record e)"
    proof (cases "adds pl = []")
      case True
      with pl(3) idle show ?thesis by auto
    next
      case False
      with pl(4) churn_run.admit [OF run clock] show ?thesis by auto
    qed
    with len churn_run_bound show ?thesis by blast
  qed
  have still: ?thesis if "?g' = ?g"
    using that idle [of "tracker_of table ?g"] churn_run_bound [OF run] by (intro exI [of _ 0]) auto
  from wp_D [OF ensure_schema_wp call] live still show ?thesis unfolding ensured_def by blast
qed

section \<open>Creating tables\<close>

lemma get_value_cell_name [simp]: "get_value_from_row p b (cell_name s) = JString s"
  by (simp add: get_value_from_row_def cell_name_def no_cell_def first_some_def)

lemma read_info_row:
  assumes "plain (data_type c)"
  shows "column_of_row (json_row p b (info_cells c)) = to_column_info c"
proof -
  have "get_value_from_row p b (cell_text (data_type c)) = JString (data_type c)"
    using assms by (simp add: get_value_cell_text plain_def)
  moreover have "get_value_from_row p b (cell_text (if nullable c then ''YES'' else ''NO''))
      = JString (if nullable c then ''YES'' else ''NO'')"
    by (simp add: get_value_cell_text starts_with_def)
  ultimately show ?thesis
    by (simp add: column_of_row_def json_row_def info_cells_def col_str_def to_column_info_def Let_def)
qed

lemma fetch_table_info_wp:
  assumes "wf_catalog (world (pg g))" "\<And>e. Q (Inl e) g" "Q (Inr (live_in table g)) g"
  shows "wp (fetch_table_info e table) Q g"
proof -
  have "wf_columns (catalog_columns table (world (pg g)))" by (rule wf_catalog_columns [OF assms(1)])
  then have "map (\<lambda>c. column_of_row (json_row (parse_json e) (base64 e) (info_cells c))) (catalog_columns table (world (pg g)))
      = map to_column_info (catalog_columns table (world (pg g)))"
    by (simp add: read_info_row wf_columns_def list_all_iff)
  with assms(2,3) show ?thesis
    unfolding fetch_table_info_def by (auto intro!: wp_intro simp: live_of_def comp_def cong: map_cong)
qed

lemma live_of_empty: "wf_columns cols \<Longrightarrow> live_of cols = [] \<longleftrightarrow> cols = []"
  by (simp add: live_of_wf)

lemma base_table_wf: "wf_columns base_table"
  by (simp add: wf_columns_def base_table_def pg_ident_def str_eval plain_def starts_with_def)

lemma guard_inv_cache_insert: "guard_inv g \<Longrightarrow> guard_inv (cache_insert table (live_in table g) g)"
  unfolding guard_inv_def cache_ok_def cache_insert_def
  by (auto intro!: exI [of _ "catalog_columns table (world (pg g))"] intro: wf_catalog_columns)

lemma guard_inv_cache_remove: "guard_inv g \<Longrightarrow> guard_inv (cache_remove table g)"
  by (auto simp: guard_inv_def cache_ok_def cache_remove_def)

lemma guard_inv_same_schema: "guard_inv g \<Longrightarrow> same_schema g g' \<Longrightarrow> guard_inv g'"
  by (simp add: guard_inv_def cache_ok_def same_schema_def)

section \<open>Progress\<close>

text \<open>With the database up, an evolution that has a plan, room in the churn window and valid DDL succeeds.\<close>

lemma run_unless_empty_up:
  "(if xs = [] then Inr (world (pg g)) else pg_ddl q (world (pg g))) = Inr cat \<Longrightarrow>
     run_unless_empty xs q (up g) = (Inr (), up (g\<lparr>pg := (pg g)\<lparr>world := cat\<rparr>\<rparr>))"
  by (auto simp: run_unless_empty_def run_ddl_def split: if_splits)

lemma check_churn_up:
  assumes "n \<noteq> 0 \<longrightarrow> count (churn_window g) (now_check e) (tracker_of table g) + n \<le> max_new_columns_per_window g"
  shows "\<exists>g'. check_churn e table n (up g) = (Inr (), up g') \<and> pg g' = pg g"
  using assms by (auto simp: check_churn_def Let_def not_less intro: exI [of _ g])

lemma evolve_tx_up:
  assumes pl: "plan_schema table (live_in table g) inferred = Inr pl"
    and room: "adds pl \<noteq> [] \<longrightarrow>
      count (churn_window g) (now_check e) (tracker_of table g) + length (adds pl) \<le> max_new_columns_per_window g"
    and ev: "evolve_catalog table (widens pl) (adds pl) (world (pg g)) = Inr cat"
  shows "\<exists>g'. evolve_tx e table inferred (up g) = (Inr (pl, widens pl), up g')"
proof -
  have f: "fetch_table_info_tx table (up g) = (Inr (live_in table g), up g)"
    by (simp add: fetch_table_info_tx_def live_of_def)
  have w: "final_widens (live_in table g) (widens pl) = widens pl"
    using pl by (auto simp: plan_schema_spec final_widens_plan)
  from room have "length (adds pl) \<noteq> 0 \<longrightarrow>
      count (churn_window g) (now_check e) (tracker_of table g) + length (adds pl) \<le> max_new_columns_per_window g"
    by simp
  from check_churn_up [OF this] obtain g1 where c: "check_churn e table (length (adds pl)) (up g) = (Inr (), up g1)"
    and g1: "pg g1 = pg g" by blast
  from ev obtain cat1 where
    a: "(if widens pl = [] then Inr (world (pg g1)) else pg_ddl (WidenColumns table (widens pl)) (world (pg g1))) = Inr cat1"
    and b: "(if adds pl = [] then Inr cat1 else pg_ddl (AddColumns table (adds pl)) cat1) = Inr cat"
    unfolding evolve_catalog_def and_then_eq_Inr g1 by blast
  let ?g2 = "g1\<lparr>pg := (pg g1)\<lparr>world := cat1\<rparr>\<rparr>"
  from b have "(if adds pl = [] then Inr (world (pg ?g2)) else pg_ddl (AddColumns table (adds pl)) (world (pg ?g2))) = Inr cat"
    by (auto split: if_splits)
  note r = run_unless_empty_up [OF a] run_unless_empty_up [OF this]
  show ?thesis
    unfolding evolve_tx_def ping_def Let_def
    by (simp add: f pl w c r del: pg_ddl.simps)
qed

lemma attempt_total: "\<exists>r d'. attempt m d = (Inr r, d')"
  by (cases "m d") (simp add: attempt_def)

lemma ensure_live_up:
  assumes "evolve_tx e table inferred (up g) = (Inr (pl, fw), up g')"
  shows "\<exists>d'. ensure_live e table inferred (up g) = (Inr (insertable pl), d')"
proof -
  obtain d1 where d1: "record_churn e table (length (adds pl)) (up g') = (Inr (), d1)"
    by (cases "adds pl") (simp_all add: record_churn_def)
  have "\<exists>d2. record_evolution e table fw (adds pl) d1 = (Inr (), d2)"
    using attempt_total [of "record_auto_migration e (''evolve_schema_'' @ table) (up_sql_of table fw (adds pl))
      (down_sql table fw (adds pl))" d1]
    by (auto simp: record_evolution_def Let_def bind_io_def ret_def)
  then obtain d2 where d2: "record_evolution e table fw (adds pl) d1 = (Inr (), d2)" by blast
  show ?thesis
    using assms d1 d2 by (simp add: ensure_live_def in_tx_def bind_io_def modify_def ret_def)
qed

lemma ensure_table_tx_wp:
  "wp (ensure_table_tx table) (\<lambda>r g'. case r of
      Inl err \<Rightarrow> \<exists>db. g' = g\<lparr>pg := db\<rparr>
    | Inr live \<Rightarrow> (live \<noteq> [] \<and> live = live_in table g \<and> g' = g)
        \<or> (live = [] \<and> live_in table g = [] \<and>
            (\<exists>cat. pg_ddl (CreateTable table) (world (pg g)) = Inr cat \<and> g' = g\<lparr>pg := (pg g)\<lparr>world := cat\<rparr>\<rparr>))) g"
proof -
  have id: "\<exists>db. g = g\<lparr>pg := db\<rparr>" by (rule exI [of _ "pg g"]) simp
  show ?thesis
    unfolding ensure_table_tx_def ping_def run_ddl_def fetch_table_info_tx_def
    by (auto intro!: wp_intro simp: live_of_def and_then_eq_Inr simp del: pg_ddl.simps intro: id)
qed

lemma create_table_grows:
  assumes "pg_ddl (CreateTable table) cat = Inr cat'" "wf_catalog cat"
  shows "catalog_le cat cat'" "wf_catalog cat'" "folded table \<Longrightarrow> cat table = None \<Longrightarrow> cat' table = Some base_table"
  using assms base_table_wf
  by (auto simp: wf_catalog_def catalog_le_def folded_def split: if_splits)

definition table_ensured :: "string \<Rightarrow> schema_guard \<Rightarrow> unit result \<Rightarrow> schema_guard \<Rightarrow> bool" where
  "table_ensured table g r g' \<longleftrightarrow> guard_inv g' \<and> catalog_le (world (pg g)) (world (pg g'))
     \<and> dom (world (pg g')) \<subseteq> insert (pg_ident table) (dom (world (pg g)))
     \<and> (r = Inr () \<longrightarrow> folded table \<longrightarrow> (\<forall>t. world (pg g) t \<noteq> Some []) \<longrightarrow> world (pg g') table \<noteq> None)"

text \<open>After the transaction found no table and created it.\<close>

lemma after_create_wp:
  assumes inv: "guard_inv g" and none: "live_in table g = []"
    and cr: "pg_ddl (CreateTable table) (world (pg g)) = Inr cat"
  shows "wp (bind_io (attempt (record_auto_migration e n u dn)) (\<lambda>_. modify (cache_remove table)))
           (table_ensured table g) (g\<lparr>pg := (pg g)\<lparr>world := cat\<rparr>\<rparr>)"
proof -
  let ?g1 = "g\<lparr>pg := (pg g)\<lparr>world := cat\<rparr>\<rparr>"
  have wf: "wf_catalog (world (pg g))" using inv by (simp add: guard_inv_def)
  note grow = create_table_grows [OF cr wf]
  from none wf have nocols: "catalog_columns table (world (pg g)) = []" by (simp add: live_of_empty wf_catalog_columns)
  have tb: "cat table \<noteq> None" if "folded table" "\<forall>t. world (pg g) t \<noteq> Some []"
    using nocols that grow(3) by (cases "world (pg g) table") (auto simp: catalog_columns_def)
  have keys: "dom cat \<subseteq> insert (pg_ident table) (dom (world (pg g)))"
    using cr by (auto split: if_splits)
  have inv1: "guard_inv ?g1" by (rule guard_inv_growth [OF inv grow(1,2)])
  have "table_ensured table g (Inr ()) (cache_remove table g')" if "same_schema ?g1 g'" for g'
    using guard_inv_cache_remove [OF guard_inv_same_schema [OF inv1 that]] grow(1) tb that keys
    by (simp add: table_ensured_def same_schema_def cache_remove_def)
  then show ?thesis by (auto intro!: wp_intro record_auto_migration_wp)
qed

lemma ensure_table_wp:
  assumes inv: "guard_inv g"
  shows "wp (ensure_table e table) (table_ensured table g) g"
proof -
  have wf: "wf_catalog (world (pg g))" using inv by (simp add: guard_inv_def)
  have keep: "table_ensured table g r' g" if "r' = Inr () \<longrightarrow> live_in table g \<noteq> []" for r'
    using that inv by (cases "world (pg g) table") (auto simp: table_ensured_def live_of_def catalog_columns_def)
  have ins: "table_ensured table g (Inr ()) (cache_insert table (live_in table g) g)" if "live_in table g \<noteq> []"
    using that keep [of "Inr ()"] guard_inv_cache_insert [OF inv] by (simp add: table_ensured_def cache_insert_def)
  have hit: "live_in table g \<noteq> []" if "unwrap_or [] (schema_cache g table) \<noteq> []"
  proof -
    from that obtain cs where cs: "schema_cache g table = Some cs" "cs \<noteq> []" by (cases "schema_cache g table") auto
    with inv obtain cols where "cs = live_of cols" "columns_le cols (catalog_columns table (world (pg g)))"
      by (auto simp: guard_inv_def cache_ok_def)
    with cs(2) have "catalog_columns table (world (pg g)) \<noteq> []" by (auto simp: live_of_def columns_le_def)
    with wf show ?thesis by (simp add: live_of_empty wf_catalog_columns)
  qed
  have miss: "wp (bind_io (in_tx (ensure_table_tx table)) (\<lambda>live.
     if live \<noteq> [] then modify (cache_insert table live)
     else bind_io (attempt (record_auto_migration e (''create_table_'' @ table) (create_sql table)
                              (''DROP TABLE IF EXISTS '' @ table))) (\<lambda>_.
          modify (cache_remove table)))) (table_ensured table g) g"
    by (rule wp_bind_io, rule in_tx_wp [OF ensure_table_tx_wp])
      (auto intro!: wp_modify ins keep after_create_wp [OF inv] simp del: pg_ddl.simps)
  show ?thesis
    unfolding ensure_table_def
    by (auto intro!: wp_intro fetch_table_info_wp wf miss ins keep hit split del: if_split)
qed

text \<open>
  Creating a table on demand: whatever calls fail, \<open>ensure_table\<close> keeps the invariant and only
  grows the catalogue, and when it succeeds the table exists (for a name that PostgreSQL does not fold;
  a table always has a column).
\<close>

theorem ensure_table_creates:
  assumes inv: "guard_inv (st d)" and fold: "folded table" and nt: "\<forall>t. world (pg (st d)) t \<noteq> Some []"
    and call: "ensure_table e table d = (r, d')"
  shows "guard_inv (st d') \<and> catalog_le (world (pg (st d))) (world (pg (st d'))) \<and>
    (r = Inr () \<longrightarrow> world (pg (st d')) table \<noteq> None)"
  using wp_D [OF ensure_table_wp [OF inv] call] fold nt by (simp add: table_ensured_def)

section \<open>Witnesses\<close>

text \<open>The table \<open>users\<close> gains the column \<open>Name\<close>, and its column \<open>age\<close> becomes a double.\<close>

lemma demo_inv: "guard_inv demo_guard"
proof -
  have "wf_columns (base_table @ [\<lparr>column_name = ''age'', data_type = ''bigint'', nullable = True\<rparr>])"
    by (simp add: wf_columns_def base_table_def pg_ident_def str_eval plain_def starts_with_def)
  then show ?thesis
    by (auto simp: guard_inv_def cache_ok_def demo_guard_def new_guard_def wf_catalog_def demo_catalog_def)
qed

lemma demo_live: "live_in ''users'' demo_guard =
   [\<lparr>ci_name = ''id'', col_type = ''bigint'', notnull = True, pk = True\<rparr>,
    \<lparr>ci_name = ''created_at'', col_type = ''timestamp with time zone'', notnull = False, pk = False\<rparr>,
    \<lparr>ci_name = ''updated_at'', col_type = ''timestamp with time zone'', notnull = False, pk = False\<rparr>,
    \<lparr>ci_name = ''age'', col_type = ''bigint'', notnull = False, pk = False\<rparr>]"
  by (simp add: demo_guard_def new_guard_def demo_catalog_def catalog_columns_def live_of_def to_column_info_def base_table_def)

lemma demo_plan: "plan_schema ''users'' (live_in ''users'' demo_guard) demo_columns =
  Inr \<lparr>adds = [(''Name'', Text)], widens = [(''age'', BigInt, DoublePrecision)],
       insertable = [(''age'', DoublePrecision), (''Name'', Text)]\<rparr>"
  unfolding demo_live
  by (simp add: plan_schema_def demo_columns_def new_inferred_column_def plan_column_def Let_def empty_plan_def
     str_eval is_base_column_def live_by_lower_def from_data_type_def common_type_def can_promote_to_def check_cap_def
     MAX_COLUMNS_PER_TABLE_def live_count_def)

lemma demo_fields: "schema_cache demo_guard = (\<lambda>_. None)" "max_new_columns_per_window demo_guard = 20"
  "tracker_of ''users'' demo_guard = new_tracker" "world (pg demo_guard) = demo_catalog"
  by (simp_all add: demo_guard_def new_guard_def tracker_of_def DEFAULT_MAX_NEW_COLUMNS_PER_WINDOW_def)

lemma demo_evolve: "\<exists>cat. evolve_catalog ''users'' [(''age'', BigInt, DoublePrecision)] [(''Name'', Text)] demo_catalog = Inr cat"
  by (simp add: evolve_catalog_def alter_table_def demo_catalog_def pg_ident_def str_eval pg_add_def pg_widen_def base_table_def)

lemma demo_run: "\<exists>d'. ensure_schema demo_env ''users'' demo_columns (up demo_guard)
    = (Inr [(''age'', DoublePrecision), (''Name'', Text)], d')"
proof -
  obtain cat where "evolve_catalog ''users'' [(''age'', BigInt, DoublePrecision)] [(''Name'', Text)] demo_catalog = Inr cat"
    using demo_evolve by blast
  with evolve_tx_up [OF demo_plan, of demo_env cat] obtain g' where
    "evolve_tx demo_env ''users'' demo_columns (up demo_guard) =
       (Inr (\<lparr>adds = [(''Name'', Text)], widens = [(''age'', BigInt, DoublePrecision)],
       insertable = [(''age'', DoublePrecision), (''Name'', Text)]\<rparr>, [(''age'', BigInt, DoublePrecision)]), up g')"
    by (auto simp: demo_fields count_def new_tracker_def)
  from ensure_live_up [OF this] show ?thesis
    by (simp add: ensure_schema_def demo_columns_valid demo_fields)
qed

theorem ensure_schema_complete_witness:
  "\<exists>d' c t. ensure_schema demo_env ''users'' demo_columns (up demo_guard)
      = (Inr [(''age'', DoublePrecision), (''Name'', Text)], d')
    \<and> lookup_column (catalog_columns ''users'' (world (pg (st d')))) ''name'' = Some c
    \<and> from_data_type (data_type c) = Some t \<and> Text \<le> t"
proof -
  obtain d' where r: "ensure_schema demo_env ''users'' demo_columns (up demo_guard)
      = (Inr [(''age'', DoublePrecision), (''Name'', Text)], d')" using demo_run by blast
  let ?col = "new_inferred_column ''Name'' Text False"
  have low: "to_lowercase ''Name'' = ''name''" "to_lowercase ''age'' = ''age''" by (simp_all add: str_eval)
  have col: "?col \<in> set (payload_part demo_columns)"
    by (simp add: payload_part_def demo_columns_def is_base_column_def new_inferred_column_def low)
  have "folded ''users''" by (simp add: folded_def pg_ident_def str_eval)
  moreover have "list_all (\<lambda>col. length (col_name col) \<le> 63) demo_columns"
    "distinct (map (\<lambda>col. to_lowercase (col_name col)) demo_columns)"
    by (simp_all add: demo_columns_def new_inferred_column_def low)
  ultimately obtain c s t where
    "lookup_column (catalog_columns ''users'' (world (pg (st d')))) (to_lowercase (col_name ?col)) = Some c"
    "from_data_type (data_type c) = Some t" "pg_type ?col \<le> s" "s \<le> t"
    using ensure_schema_complete [OF _ _ _ _ r] demo_inv col by auto
  then show ?thesis using r by (auto simp: new_inferred_column_def low intro: order_trans)
qed

theorem ensure_schema_monotone_witness:
  "catalog_le demo_catalog (world (pg (st (snd (ensure_schema demo_env ''users'' demo_columns (up demo_guard))))))"
proof -
  have "folded ''users''" by (simp add: folded_def pg_ident_def str_eval)
  with ensure_schema_monotone [of "up demo_guard" "''users''" demo_env demo_columns
      "fst (ensure_schema demo_env ''users'' demo_columns (up demo_guard))"
      "snd (ensure_schema demo_env ''users'' demo_columns (up demo_guard))"] demo_inv
  show ?thesis by (simp add: demo_fields)
qed

theorem ensure_schema_error_atomic_witness:
  "\<exists>err d'. ensure_schema demo_env ''users'' demo_columns \<lparr>st = demo_guard, outages = [True]\<rparr> = (Inl err, d')
    \<and> pg (st d') = pg demo_guard"
proof -
  let ?d = "\<lparr>st = demo_guard, outages = [True]\<rparr>"
  have "ensure_schema demo_env ''users'' demo_columns ?d = (Inl (Database ''connection''), ?d\<lparr>outages := []\<rparr>)"
    unfolding ensure_schema_def ensure_live_def in_tx_def evolve_tx_def ping_def exec_def stmt_def
    by (simp add: demo_columns_valid demo_fields bind_io_def lift_def gets_def)
  from this ensure_schema_error_atomic [OF this] show ?thesis by auto
qed


theorem preview_agrees_with_plan_witness:
  "pv_widenings (preview_of ''users'' True (live_in ''users'' demo_guard) demo_columns) = [(''age'', BigInt, DoublePrecision)]
   \<and> \<not> would_exceed_limit (preview_of ''users'' True (live_in ''users'' demo_guard) demo_columns)"
  using preview_agrees_with_plan [OF demo_plan, of True] by (simp add: Let_def)

lemma folded_users: "folded ''users''"
  by (simp add: folded_def pg_ident_def str_eval)

theorem churn_limit_holds_witness:
  "\<exists>n d'. ensure_schema demo_env ''users'' demo_columns (up demo_guard) = (Inr [(''age'', DoublePrecision), (''Name'', Text)], d')
    \<and> in_window 60000 100001 (replicate n 100001) \<le> 20"
proof -
  obtain d' where r: "ensure_schema demo_env ''users'' demo_columns (up demo_guard)
      = (Inr [(''age'', DoublePrecision), (''Name'', Text)], d')" using demo_run by blast
  have w: "churn_window demo_guard = 60000"
    by (simp add: demo_guard_def new_guard_def DEFAULT_COLUMN_CHURN_WINDOW_def)
  have "churn_run (churn_window (st (up demo_guard))) (max_new_columns_per_window (st (up demo_guard)))
     (tracker_of ''users'' (st (up demo_guard))) [] 0"
    by (simp add: demo_fields churn_run.start)
  from churn_limit_holds [OF folded_users this _ _ r] r w show ?thesis
    by (auto simp: demo_env_def demo_fields)
qed

theorem ensure_table_creates_witness:
  "guard_inv (st (snd (ensure_table demo_env ''users'' (up demo_guard))))"
proof -
  have "\<forall>t. world (pg (st (up demo_guard))) t \<noteq> Some []" by (simp add: demo_fields demo_catalog_def)
  with ensure_table_creates [of "up demo_guard" "''users''" demo_env "fst (ensure_table demo_env ''users'' (up demo_guard))"
      "snd (ensure_table demo_env ''users'' (up demo_guard))"] demo_inv folded_users
  show ?thesis by simp
qed

section \<open>Names that PostgreSQL folds\<close>

lemma unseen_columns:
  "(\<forall>t. cat t \<noteq> None \<longrightarrow> folded t) \<Longrightarrow> \<not> folded table \<Longrightarrow> catalog_columns table cat = []"
  by (cases "cat table") (auto simp: catalog_columns_def)

text \<open>
  A table whose name is not its own folding (capital letters, or more than 63 characters) is never
  seen by the guard: the catalogue is asked for the name as written. An evolution of such a table that
  succeeds has widened nothing, whatever the stored types are, and reports the inferred types as the
  types to bind; the columns that existed keep their types.
\<close>

theorem folded_names_hide_tables:
  assumes keys: "\<forall>t. world (pg (st d)) t \<noteq> None \<longrightarrow> folded t" and tab: "\<not> folded table"
    and cache: "schema_cache (st d) table = None"
    and ok: "ensure_schema e table inferred d = (Inr res, d')"
  shows "res = map (\<lambda>col. (col_name col, pg_type col)) (payload_part inferred) \<and>
    set (catalog_columns (pg_ident table) (world (pg (st d))))
      \<subseteq> set (catalog_columns (pg_ident table) (world (pg (st d'))))"
proof -
  let ?cat = "world (pg (st d))"
  have "catalog_columns table ?cat = []" using keys tab by (rule unseen_columns)
  then have live: "live_in table (st d) = []" by (simp add: live_of_def)
  from wp_D [OF ensure_schema_wp ok] cache obtain pl where
    pl: "plan_schema table [] inferred = Inr pl" "res = insertable pl"
      "evolve_catalog table (widens pl) (adds pl) ?cat = Inr (world (pg (st d')))"
    by (auto simp: ensured_def live_outcome_def live)
  have nolive: "live_type [] col = None" for col by (simp add: live_type_def live_by_lower_def)
  have spec: "pl = plan_spec [] inferred" using pl(1) by (auto simp: plan_schema_spec)
  have "widens pl = []" "res = map (\<lambda>col. (col_name col, pg_type col)) (payload_part inferred)"
    using pl(2) spec by (simp_all add: plan_spec_def too_narrow_def nolive target_type_def)
  moreover have "set (catalog_columns (pg_ident table) ?cat) \<subseteq> set (catalog_columns (pg_ident table) (world (pg (st d'))))"
  proof (cases "adds pl = []")
    case True
    with pl(3) \<open>widens pl = []\<close> show ?thesis by (simp add: evolve_catalog_def)
  next
    case False
    with pl(3) \<open>widens pl = []\<close> obtain cols cols' where "?cat (pg_ident table) = Some cols"
      "try_fold pg_add cols (adds pl) = Inr cols'" "world (pg (st d')) = ?cat(pg_ident table \<mapsto> cols')"
      by (auto simp: evolve_catalog_def alter_table_def and_then_eq_Inr split: option.splits)
    with add_fold_extends [of cols "adds pl" cols'] show ?thesis by (auto simp: catalog_columns_def)
  qed
  ultimately show ?thesis by blast
qed

definition demo_text_age :: "inferred_column list" where
  "demo_text_age = [new_inferred_column ''age'' Text False]"

lemma demo_mixed_run: "\<exists>d'. ensure_schema demo_env ''Users'' demo_text_age (up demo_guard) = (Inr [(''age'', Text)], d')"
proof -
  have v: "validate_identifier ''Users'' = Inr ()" "validate_identifier ''age'' = Inr ()"
    by (simp_all add: ident_eval)
  have l: "live_in ''Users'' demo_guard = []"
    by (simp add: demo_fields demo_catalog_def catalog_columns_def live_of_def)
  have pl: "plan_schema ''Users'' (live_in ''Users'' demo_guard) demo_text_age
      = Inr \<lparr>adds = [(''age'', Text)], widens = [], insertable = [(''age'', Text)]\<rparr>"
    unfolding l
    by (simp add: plan_schema_def demo_text_age_def new_inferred_column_def plan_column_def Let_def empty_plan_def
       str_eval is_base_column_def live_by_lower_def check_cap_def MAX_COLUMNS_PER_TABLE_def live_count_def)
  have ev: "evolve_catalog ''Users'' [] [(''age'', Text)] (world (pg demo_guard)) = Inr demo_catalog"
    by (simp add: demo_fields evolve_catalog_def alter_table_def demo_catalog_def pg_ident_def str_eval pg_add_def base_table_def)
  have "tracker_of ''Users'' demo_guard = new_tracker"
    by (simp add: demo_guard_def new_guard_def tracker_of_def)
  with evolve_tx_up [OF pl, of demo_env demo_catalog] ev obtain g' where
    "evolve_tx demo_env ''Users'' demo_text_age (up demo_guard) =
       (Inr (\<lparr>adds = [(''age'', Text)], widens = [], insertable = [(''age'', Text)]\<rparr>, []), up g')"
    by (auto simp: demo_fields count_def new_tracker_def)
  from ensure_live_up [OF this] v show ?thesis
    by (simp add: ensure_schema_def demo_fields validate_names_def demo_text_age_def new_inferred_column_def)
qed

theorem folded_names_hide_tables_witness:
  "\<exists>d'. ensure_schema demo_env ''Users'' demo_text_age (up demo_guard) = (Inr [(''age'', Text)], d')
    \<and> \<lparr>column_name = ''age'', data_type = ''bigint'', nullable = True\<rparr>
        \<in> set (catalog_columns ''users'' (world (pg (st d'))))"
proof -
  obtain d' where r: "ensure_schema demo_env ''Users'' demo_text_age (up demo_guard) = (Inr [(''age'', Text)], d')"
    using demo_mixed_run by blast
  have "pg_ident ''Users'' = ''users''" "\<not> folded ''Users''"
    by (simp_all add: folded_def pg_ident_def str_eval)
  moreover have "\<forall>t. world (pg (st (up demo_guard))) t \<noteq> None \<longrightarrow> folded t"
    using folded_users by (auto simp: demo_fields demo_catalog_def split: if_splits)
  ultimately have "set (catalog_columns ''users'' demo_catalog) \<subseteq> set (catalog_columns ''users'' (world (pg (st d'))))"
    using folded_names_hide_tables [OF _ _ _ r] by (auto simp: demo_fields)
  with r show ?thesis by (auto simp: demo_catalog_def catalog_columns_def)
qed

end
