(* ===== verification/SchemaFleet.thy ===== *)
theory SchemaFleet imports SchemaEvolution begin

text \<open>
  Several instances of the server on one database (\<open>src/src/security/guard.rs\<close>): every instance has a
  guard with a cache of its own, the catalogue and the migrations table are shared. The instances act
  in any order and any database call may fail; reading the columns of a table and keeping them in the
  cache are two events, so that another instance may change the table in between. What an instance
  answers from its cache is true of the shared table, then and ever after.
\<close>

section \<open>The fleet\<close>

record fleet =
  shared :: "catalog mig_db"
  guards :: "nat \<Rightarrow> schema_guard"
  reads :: "(nat \<times> string \<times> column_info list) list"

text \<open>
  The events name the instance: a call of \<open>ensure_schema\<close>, one of \<open>ensure_table\<close>, the query that
  \<open>get_table_schema\<close> and \<open>ensure_table\<close> make when the cache has nothing, the insertion of what the
  \<open>n\<close>-th such query returned, a notification on \<open>schema_changed\<close>, and \<open>clear_cache\<close>. The lists of
  booleans say which database calls fail.
\<close>

datatype fleet_event =
    Evolve nat env string "inferred_column list" "bool list"
  | Create nat env string "bool list"
  | LookUp nat env string "bool list"
  | KeepRead nat
  | Notified nat string
  | Cleared nat

definition guard_of :: "fleet \<Rightarrow> nat \<Rightarrow> schema_guard" where
  "guard_of f i = (guards f i)\<lparr>pg := shared f\<rparr>"

definition put_guard :: "nat \<Rightarrow> schema_guard \<Rightarrow> fleet \<Rightarrow> fleet" where
  "put_guard i g f = f\<lparr>shared := pg g, guards := (guards f)(i := g)\<rparr>"

fun fleet_step :: "fleet \<Rightarrow> fleet_event \<Rightarrow> fleet" where
  "fleet_step f (Evolve i e table inferred os) =
     put_guard i (st (snd (ensure_schema e table inferred \<lparr>st = guard_of f i, outages = os\<rparr>))) f"
| "fleet_step f (Create i e table os) =
     put_guard i (st (snd (ensure_table e table \<lparr>st = guard_of f i, outages = os\<rparr>))) f"
| "fleet_step f (LookUp i e table os) =
     (case fst (fetch_table_info e table \<lparr>st = guard_of f i, outages = os\<rparr>) of
        Inl _ \<Rightarrow> f
      | Inr cols \<Rightarrow> f\<lparr>reads := reads f @ [(i, table, cols)]\<rparr>)"
| "fleet_step f (KeepRead n) =
     (if n < length (reads f)
      then (case reads f ! n of (i, table, cols) \<Rightarrow>
              if cols \<noteq> [] then put_guard i (cache_insert table cols (guard_of f i)) f else f)
      else f)"
| "fleet_step f (Notified i payload) = put_guard i (cache_invalidation_worker payload (guard_of f i)) f"
| "fleet_step f (Cleared i) = put_guard i (clear_cache (guard_of f i)) f"

text \<open>The instances have just started: their caches are empty.\<close>

definition fresh_fleet :: "(nat \<Rightarrow> string option \<times> string option) \<Rightarrow> catalog mig_db \<Rightarrow> fleet" where
  "fresh_fleet settings db =
     \<lparr>shared = db, guards = (\<lambda>i. new_guard (fst (settings i)) (snd (settings i)) db), reads = []\<rparr>"

section \<open>The invariant\<close>

definition snapshot :: "catalog \<Rightarrow> string \<Rightarrow> column_info list \<Rightarrow> bool" where
  "snapshot cat t cs \<longleftrightarrow> (\<exists>cols. wf_columns cols \<and> cs = live_of cols \<and> columns_le cols (catalog_columns t cat))"

definition keys_folded :: "catalog \<Rightarrow> bool" where
  "keys_folded cat \<longleftrightarrow> (\<forall>t. cat t \<noteq> None \<longrightarrow> folded t)"

lemma keys_folded_dom: "keys_folded cat \<longleftrightarrow> dom cat \<subseteq> {t. folded t}"
  by (auto simp: keys_folded_def)

definition fleet_ok :: "fleet \<Rightarrow> bool" where
  "fleet_ok f \<longleftrightarrow> wf_catalog (world (shared f)) \<and> keys_folded (world (shared f))
     \<and> (\<forall>i t cs. schema_cache (guards f i) t = Some cs \<longrightarrow> snapshot (world (shared f)) t cs)
     \<and> (\<forall>(i, t, cs) \<in> set (reads f). snapshot (world (shared f)) t cs)"

lemma snapshot_grows: "snapshot cat t cs \<Longrightarrow> catalog_le cat cat' \<Longrightarrow> snapshot cat' t cs"
  unfolding snapshot_def using catalog_le_columns [of cat cat' t] columns_le_trans by blast

lemma cache_ok_snapshot: "cache_ok g \<longleftrightarrow> (\<forall>t cs. schema_cache g t = Some cs \<longrightarrow> snapshot (world (pg g)) t cs)"
  by (simp add: cache_ok_def snapshot_def)

lemma guard_of_fields [simp]:
  "pg (guard_of f i) = shared f" "schema_cache (guard_of f i) = schema_cache (guards f i)"
  by (simp_all add: guard_of_def)

lemma guard_of_inv: "fleet_ok f \<Longrightarrow> guard_inv (guard_of f i)"
  by (simp add: fleet_ok_def guard_inv_def cache_ok_snapshot)

text \<open>An instance that keeps its own invariant and only lets the catalogue grow keeps the fleet's.\<close>

lemma put_guard_ok:
  assumes "fleet_ok f" "guard_inv g" "catalog_le (world (shared f)) (world (pg g))" "keys_folded (world (pg g))"
  shows "fleet_ok (put_guard i g f)"
  using assms snapshot_grows [OF _ assms(3)]
  by (auto simp: fleet_ok_def put_guard_def guard_inv_def cache_ok_snapshot)

lemma alter_table_dom: "alter_table table h cat = Inr cat' \<Longrightarrow> dom cat' = dom cat"
  by (auto simp: alter_table_def and_then_eq_Inr dom_def split: option.splits if_splits)

lemma evolve_catalog_dom: "evolve_catalog table fw ads cat = Inr cat' \<Longrightarrow> dom cat' = dom cat"
  by (auto simp: evolve_catalog_def and_then_eq_Inr dom_def dest!: alter_table_dom split: if_splits) blast+

text \<open>
  An evolution lets the catalogue grow whatever the name of the table. Where PostgreSQL folds the name
  the guard sees no columns and plans no widening, and a column that exists is not added again.
\<close>

lemma evolve_folded_away:
  assumes wf: "wf_catalog cat" and keys: "keys_folded cat" and fold: "\<not> folded table" and names: "names_ok inferred"
    and pl: "plan_schema table (live_of (catalog_columns table cat)) inferred = Inr pl"
    and ev: "evolve_catalog table (widens pl) (adds pl) cat = Inr cat'"
  shows "catalog_le cat cat'" "wf_catalog cat'"
proof -
  have "catalog_columns table cat = []"
    using keys fold by (cases "cat table") (auto simp: catalog_columns_def keys_folded_def)
  with pl have spec: "pl = plan_spec [] inferred" by (auto simp: plan_schema_spec live_of_def)
  then have w: "widens pl = []" by (simp add: plan_spec_def too_narrow_def live_type_def live_by_lower_def)
  have ne: "list_all (\<lambda>(n, _). n \<noteq> []) (adds pl)"
    using names by (auto simp: spec plan_spec_def names_ok_def list_all_iff payload_part_def)
  have "catalog_le cat cat' \<and> wf_catalog cat'"
  proof (cases "adds pl = []")
    case True
    with ev w wf show ?thesis by (simp add: evolve_catalog_def)
  next
    case False
    with ev w obtain cols cols' where c: "cat (pg_ident table) = Some cols"
      "try_fold pg_add cols (adds pl) = Inr cols'" "cat' = cat(pg_ident table \<mapsto> cols')"
      by (auto simp: evolve_catalog_def alter_table_def and_then_eq_Inr split: option.splits)
    from wf c(1) have "wf_columns cols" by (auto simp: wf_catalog_def)
    with add_fold_extends [OF c(2)] ne obtain new where "cols' = cols @ new" "wf_columns cols'" by auto
    then have "columns_le cols cols'" by (auto simp: columns_le_def)
    with c(1,3) wf \<open>wf_columns cols'\<close> show ?thesis by (simp add: catalog_le_upd wf_catalog_def)
  qed
  then show "catalog_le cat cat'" "wf_catalog cat'" by blast+
qed

lemma ensured_grows:
  assumes inv: "guard_inv g" and keys: "keys_folded (world (pg g))" and out: "ensured e table inferred g r g'"
  shows "guard_inv g' \<and> catalog_le (world (pg g)) (world (pg g')) \<and> keys_folded (world (pg g'))"
proof -
  have same: ?thesis if "pg g' = pg g" "schema_cache g' = schema_cache g"
    using that inv keys by (simp add: guard_inv_def cache_ok_def)
  from out consider "pg g' = pg g \<and> schema_cache g' = schema_cache g"
    | res where "r = Inr res" "validate_names table inferred = Inr ()" "live_outcome e table inferred g r g'"
    unfolding ensured_def by (cases r) (auto simp: live_outcome_def)
  then show ?thesis
  proof cases
    case 1
    with same show ?thesis by blast
  next
    case (2 res)
    then obtain pl where pl: "plan_schema table (live_of (catalog_columns table (world (pg g)))) inferred = Inr pl"
      "evolve_catalog table (widens pl) (adds pl) (world (pg g)) = Inr (world (pg g'))"
      "schema_cache g' = (schema_cache g)(table := None)"
      by (auto simp: live_outcome_def)
    have wf: "wf_catalog (world (pg g))" using inv by (simp add: guard_inv_def)
    have names: "names_ok inferred" using validate_names_ok [OF 2(2)] by blast
    have grow: "catalog_le (world (pg g)) (world (pg g'))" "wf_catalog (world (pg g'))"
      using evolve_catalog_grows(1,2) [OF wf _ names pl(1,2)] evolve_folded_away [OF wf keys _ names pl(1,2)] by blast+
    have "cache_ok g'"
      using inv snapshot_grows [OF _ grow(1)] by (auto simp: cache_ok_snapshot guard_inv_def pl(3) split: if_splits)
    with grow show ?thesis
      using keys evolve_catalog_dom [OF pl(2)] by (simp add: guard_inv_def keys_folded_dom)
  qed
qed

lemma table_ensured_grows:
  "table_ensured table g r g' \<Longrightarrow> keys_folded (world (pg g)) \<Longrightarrow>
     guard_inv g' \<and> catalog_le (world (pg g)) (world (pg g')) \<and> keys_folded (world (pg g'))"
  by (simp add: table_ensured_def keys_folded_dom) (force simp: folded_def)

lemma read_is_snapshot:
  assumes "fleet_ok f" "fst (fetch_table_info e table \<lparr>st = guard_of f i, outages = os\<rparr>) = Inr cols"
  shows "snapshot (world (shared f)) table cols"
proof -
  have wf: "wf_catalog (world (pg (guard_of f i)))" using assms(1) by (simp add: fleet_ok_def)
  have "wp (fetch_table_info e table) (\<lambda>r g'. \<forall>cols. r = Inr cols \<longrightarrow> cols = live_in table (guard_of f i)) (guard_of f i)"
    by (rule fetch_table_info_wp [OF wf]) auto
  then have "wp (fetch_table_info e table) (\<lambda>r g'. \<forall>cols. r = Inr cols \<longrightarrow> cols = live_in table (guard_of f i))
      (st \<lparr>st = guard_of f i, outages = os\<rparr>)" by simp
  from wp_D [OF this prod.collapse [symmetric]] assms(2)
  have "cols = live_in table (guard_of f i)" by simp
  with wf wf_catalog_columns [OF wf, of table] show ?thesis
    by (auto simp: snapshot_def intro!: exI [of _ "catalog_columns table (world (shared f))"])
qed

lemma cache_insert_ok:
  "guard_inv g \<Longrightarrow> snapshot (world (pg g)) t cs \<Longrightarrow> guard_inv (cache_insert t cs g)"
  by (auto simp: guard_inv_def cache_ok_snapshot cache_insert_def split: if_splits)

lemma fleet_step_ok:
  assumes "fleet_ok f"
  shows "fleet_ok (fleet_step f ev) \<and> catalog_le (world (shared f)) (world (shared (fleet_step f ev)))"
proof -
  have keys: "keys_folded (world (pg (guard_of f i)))" for i using assms by (simp add: fleet_ok_def)
  have put: "fleet_ok (put_guard i g f) \<and> catalog_le (world (shared f)) (world (shared (put_guard i g f)))"
    if "guard_inv g \<and> catalog_le (world (pg (guard_of f i))) (world (pg g)) \<and> keys_folded (world (pg g))" for i g
    using put_guard_ok [OF assms, of g i] that by (simp add: put_guard_def)
  show ?thesis
  proof (cases ev)
    case (Evolve i e table inferred os)
    have "ensured e table inferred (guard_of f i) (fst (ensure_schema e table inferred \<lparr>st = guard_of f i, outages = os\<rparr>))
        (st (snd (ensure_schema e table inferred \<lparr>st = guard_of f i, outages = os\<rparr>)))"
      using wp_D [OF ensure_schema_wp, where d = "\<lparr>st = guard_of f i, outages = os\<rparr>"] by (metis prod.collapse db.select_convs(1))
    from put [OF ensured_grows [OF guard_of_inv [OF assms] keys this]] Evolve show ?thesis by simp
  next
    case (Create i e table os)
    have "table_ensured table (guard_of f i) (fst (ensure_table e table \<lparr>st = guard_of f i, outages = os\<rparr>))
        (st (snd (ensure_table e table \<lparr>st = guard_of f i, outages = os\<rparr>)))"
      using wp_D [OF ensure_table_wp, where d = "\<lparr>st = guard_of f i, outages = os\<rparr>"] guard_of_inv [OF assms]
      by (metis prod.collapse db.select_convs(1))
    from put [OF table_ensured_grows [OF this keys]] Create show ?thesis by simp
  next
    case (LookUp i e table os)
    with read_is_snapshot [OF assms] assms show ?thesis by (auto simp: fleet_ok_def split: sum.splits)
  next
    case (KeepRead n)
    show ?thesis
    proof (cases "n < length (reads f)")
      case True
      obtain i t cs where r: "reads f ! n = (i, t, cs)" by (cases "reads f ! n")
      with True have "(i, t, cs) \<in> set (reads f)" by (metis nth_mem)
      with assms have "snapshot (world (pg (guard_of f i))) t cs" by (auto simp: fleet_ok_def)
      from cache_insert_ok [OF guard_of_inv [OF assms] this] keys
      have "guard_inv (cache_insert t cs (guard_of f i))
        \<and> catalog_le (world (pg (guard_of f i))) (world (pg (cache_insert t cs (guard_of f i))))
        \<and> keys_folded (world (pg (cache_insert t cs (guard_of f i))))" by (simp add: cache_insert_def)
      from put [OF this] KeepRead True r assms show ?thesis by simp
    qed (use KeepRead assms in simp)
  next
    case (Notified i payload)
    have "guard_inv (cache_invalidation_worker payload (guard_of f i))"
      using guard_of_inv [OF assms] by (simp add: cache_invalidation_worker_def guard_inv_cache_remove)
    with put [of "cache_invalidation_worker payload (guard_of f i)" i] keys [of i] Notified show ?thesis
      by (simp add: cache_invalidation_worker_def cache_remove_def split: if_splits)
  next
    case (Cleared i)
    have "guard_inv (clear_cache (guard_of f i))"
      using guard_of_inv [OF assms, of i] by (simp add: clear_cache_def guard_inv_def cache_ok_def)
    with put [of "clear_cache (guard_of f i)" i] keys [of i] Cleared show ?thesis by (simp add: clear_cache_def)
  qed
qed

lemma fleet_run_ok:
  "fleet_ok f \<Longrightarrow> fleet_ok (foldl fleet_step f evs) \<and> catalog_le (world (shared f)) (world (shared (foldl fleet_step f evs)))"
proof (induction evs arbitrary: f)
  case (Cons ev evs)
  from Cons.IH [OF conjunct1 [OF fleet_step_ok [OF Cons.prems, of ev]]] fleet_step_ok [OF Cons.prems, of ev]
  show ?case by (auto intro: catalog_le_trans)
qed simp

lemma fresh_fleet_ok: "wf_catalog (world db) \<Longrightarrow> keys_folded (world db) \<Longrightarrow> fleet_ok (fresh_fleet settings db)"
  by (simp add: fleet_ok_def fresh_fleet_def new_guard_def)

section \<open>Answers from the cache\<close>

text \<open>
  C5. An answer from the cache is right for the whole fleet. Any number of instances start with empty
  caches on one database and evolve, create, look up and cache tables in any order, while any database
  call may fail; an instance may keep in its cache what it read before others changed the table. When the
  cached columns of a table suffice for a payload, \<open>ensure_schema\<close> returns the binding list without a
  call of the database and changes nothing; and whatever the instances do afterwards, every payload
  column is in the shared table, with a type that holds the type to bind, which holds the inferred one.
\<close>

theorem cached_answers_stay_valid:
  assumes start: "wf_catalog (world db)" "\<forall>t. world db t \<noteq> None \<longrightarrow> folded t"
    and run: "f = foldl fleet_step (fresh_fleet settings db) evs"
    and hit: "validate_names table inferred = Inr ()" "schema_cache (guards f i) table = Some cs"
      "schema_from_cache table inferred cs = Inr res"
    and on: "f' = foldl fleet_step f evs'"
  shows "ensure_schema e table inferred \<lparr>st = guard_of f i, outages = os\<rparr> = (Inr res, \<lparr>st = guard_of f i, outages = os\<rparr>)
    \<and> map fst res = map col_name (payload_part inferred)
    \<and> (\<forall>col \<in> set (payload_part inferred). \<exists>c s t. (col_name col, s) \<in> set res
       \<and> lookup_column (catalog_columns table (world (shared f'))) (to_lowercase (col_name col)) = Some c
       \<and> from_data_type (data_type c) = Some t \<and> pg_type col \<le> s \<and> s \<le> t)"
proof -
  have ok: "fleet_ok f" unfolding run using fleet_run_ok fresh_fleet_ok start by (simp add: keys_folded_def)
  from fleet_run_ok [OF this] have ok': "fleet_ok f'" "catalog_le (world (shared f)) (world (shared f'))"
    by (simp_all add: on)
  have "snapshot (world (shared f')) table cs"
    using ok hit(2) snapshot_grows [OF _ ok'(2)] by (simp add: fleet_ok_def)
  then obtain cols where cols: "wf_columns cols" "cs = live_of cols" "columns_le cols (catalog_columns table (world (shared f')))"
    by (auto simp: snapshot_def)
  have "ensure_schema e table inferred \<lparr>st = guard_of f i, outages = os\<rparr> = (Inr res, \<lparr>st = guard_of f i, outages = os\<rparr>)"
    using hit by (simp add: ensure_schema_def bind_io_def lift_def gets_def ret_def)
  with cached_covers [OF _ cols hit(3)] ok'(1) show ?thesis by (simp add: fleet_ok_def)
qed

text \<open>
  Instance 0 reads the table \<open>users\<close>, instance 1 makes its column \<open>age\<close> a double, and only then does
  instance 0 keep what it read. It goes on binding \<open>age\<close> as a big integer, which the double holds.
\<close>

definition demo_events :: "fleet_event list" where
  "demo_events = [LookUp 0 demo_env ''users'' [], Evolve 1 demo_env ''users'' demo_columns [], KeepRead 0]"

definition demo_fleet :: fleet where
  "demo_fleet = foldl fleet_step (fresh_fleet (\<lambda>_. (None, None)) \<lparr>migs = [], world = demo_catalog\<rparr>) demo_events"

definition demo_age :: "inferred_column list" where
  "demo_age = [new_inferred_column ''age'' BigInt False]"

theorem cached_answers_stay_valid_witness:
  "schema_cache (guards demo_fleet 0) ''users'' = Some (live_in ''users'' demo_guard)
   \<and> ensure_schema demo_env ''users'' demo_age \<lparr>st = guard_of demo_fleet 0, outages = [True]\<rparr>
       = (Inr [(''age'', BigInt)], \<lparr>st = guard_of demo_fleet 0, outages = [True]\<rparr>)
   \<and> (\<exists>c t. lookup_column (catalog_columns ''users''
          (world (shared (fleet_step demo_fleet (Evolve 1 demo_env ''users'' demo_text_age []))))) ''age'' = Some c
        \<and> from_data_type (data_type c) = Some t \<and> BigInt \<le> t)"
proof -
  let ?db = "\<lparr>migs = [], world = demo_catalog\<rparr>"
  let ?f0 = "fresh_fleet (\<lambda>_. (None, None)) ?db"
  have g0: "guard_of ?f0 0 = demo_guard" by (simp add: guard_of_def fresh_fleet_def demo_guard_def new_guard_def)
  have wf: "wf_catalog demo_catalog" using demo_inv by (simp add: guard_inv_def demo_fields)
  then have "wf_columns (catalog_columns ''users'' demo_catalog)" by (rule wf_catalog_columns)
  then have r: "map (\<lambda>c. column_of_row (json_row (parse_json demo_env) (base64 demo_env) (info_cells c)))
       (catalog_columns ''users'' demo_catalog) = map to_column_info (catalog_columns ''users'' demo_catalog)"
    by (simp add: read_info_row wf_columns_def list_all_iff)
  have "fetch_table_info demo_env ''users'' (up demo_guard) = (Inr (live_in ''users'' demo_guard), up demo_guard)"
    by (simp add: fetch_table_info_def live_of_def demo_fields comp_def r [unfolded comp_def])
  then have l: "fleet_step ?f0 (LookUp 0 demo_env ''users'' [])
      = ?f0\<lparr>reads := [(0, ''users'', live_in ''users'' demo_guard)]\<rparr>"
    by (simp add: g0 up_def) (simp add: fresh_fleet_def)
  have cache: "schema_cache (guards demo_fleet 0) ''users'' = Some (live_in ''users'' demo_guard)"
    unfolding demo_fleet_def demo_events_def foldl.simps l
    by (simp add: put_guard_def cache_insert_def demo_live)
  have idents: "validate_identifier ''users'' = Inr ()" "validate_identifier ''age'' = Inr ()"
    by (simp_all add: ident_eval)
  have v: "validate_names ''users'' demo_age = Inr ()"
    by (simp add: validate_names_def demo_age_def new_inferred_column_def idents)
  have h: "schema_from_cache ''users'' demo_age (live_in ''users'' demo_guard) = Inr [(''age'', BigInt)]"
    unfolding demo_live
    by (simp add: schema_from_cache_def demo_age_def cached_column_def Let_def new_inferred_column_def str_eval
        is_base_column_def live_by_lower_def from_data_type_def common_type_def can_promote_to_def)
  have p: "payload_part demo_age = demo_age"
    by (simp add: payload_part_def demo_age_def new_inferred_column_def is_base_column_def str_eval)
  have k: "\<forall>t. world ?db t \<noteq> None \<longrightarrow> folded t"
    using folded_users by (auto simp: demo_catalog_def split: if_splits)
  have on: "fleet_step demo_fleet (Evolve 1 demo_env ''users'' demo_text_age [])
      = foldl fleet_step demo_fleet [Evolve 1 demo_env ''users'' demo_text_age []]" by simp
  have wf': "wf_catalog (world ?db)" using wf by simp
  from cached_answers_stay_valid [OF wf' k demo_fleet_def v cache h on, of demo_env "[True]"] cache
  show ?thesis unfolding p by (auto simp: demo_age_def new_inferred_column_def str_eval)
qed

end
