(* ===== verification/RawSql.thy ===== *)
theory RawSql imports Store begin

text \<open>
  The filter for raw SQL statements (\<open>src/src/api/handlers.rs\<close>): the two scanners that walk past
  comments and literals, and the decision taken from their results. The scanners are proved equal to a
  lexer followed by a search in its output.
\<close>

section \<open>The scanners\<close>

text \<open>
  The flags \<open>in_block_comment\<close>, \<open>in_line_comment\<close>, \<open>in_string\<close> with \<open>string_quote\<close> are mutually
  exclusive: they are one mode.
\<close>

datatype scan_mode = Code | BlockComment | LineComment | InString char

definition is_quote :: "char \<Rightarrow> bool" where
  "is_quote c \<longleftrightarrow> c = CHR 0x27 \<or> c = CHR 0x22"

definition is_token_char :: "char \<Rightarrow> bool" where
  "is_token_char c \<longleftrightarrow> is_ascii_alphanumeric c \<or> c = CHR ''_''"

definition peeks :: "string \<Rightarrow> char \<Rightarrow> bool" where
  "peeks s c \<longleftrightarrow> (case s of [] \<Rightarrow> False | x # _ \<Rightarrow> x = c)"

function keyword_loop :: "scan_mode \<Rightarrow> string \<Rightarrow> string \<Rightarrow> string" where
  "keyword_loop mode token [] = token"
| "keyword_loop BlockComment token (c # s) =
     (if c = CHR ''*'' \<and> peeks s CHR ''/'' then keyword_loop Code token (tl s) else keyword_loop BlockComment token s)"
| "keyword_loop LineComment token (c # s) =
     (if c = CHR 0x0A then keyword_loop Code token s else keyword_loop LineComment token s)"
| "keyword_loop (InString q) token (c # s) =
     (if c = q then keyword_loop Code token s
      else if c = CHR 0x5C \<and> q = CHR 0x27 then keyword_loop (InString q) token (tl s)
      else keyword_loop (InString q) token s)"
| "keyword_loop Code token (c # s) =
     (if c = CHR ''-'' \<and> peeks s CHR ''-'' then keyword_loop LineComment token (tl s)
      else if c = CHR ''/'' \<and> peeks s CHR ''*'' then keyword_loop BlockComment token (tl s)
      else if is_quote c then keyword_loop (InString c) token s
      else if is_token_char c then keyword_loop Code (token @ [c]) s
      else if token \<noteq> [] then token
      else keyword_loop Code token s)"
  by pat_completeness auto
termination
  by (relation "measure (\<lambda>(_, _, s). length s)") auto

definition first_sql_keyword :: "string \<Rightarrow> string option" where
  "first_sql_keyword sql =
     (let token = keyword_loop Code [] sql in if token = [] then None else Some (to_uppercase token))"

function multiple_loop :: "scan_mode \<Rightarrow> bool \<Rightarrow> string \<Rightarrow> bool" where
  "multiple_loop mode saw [] = False"
| "multiple_loop BlockComment saw (c # s) =
     (if c = CHR ''*'' \<and> peeks s CHR ''/'' then multiple_loop Code saw (tl s) else multiple_loop BlockComment saw s)"
| "multiple_loop LineComment saw (c # s) =
     (if c = CHR 0x0A then multiple_loop Code saw s else multiple_loop LineComment saw s)"
| "multiple_loop (InString q) saw (c # s) =
     (if c = q then multiple_loop Code saw s
      else if c = CHR 0x5C \<and> q = CHR 0x27 then multiple_loop (InString q) saw (tl s)
      else multiple_loop (InString q) saw s)"
| "multiple_loop Code saw (c # s) =
     (if c = CHR ''-'' \<and> peeks s CHR ''-'' then multiple_loop LineComment saw (tl s)
      else if c = CHR ''/'' \<and> peeks s CHR ''*'' then multiple_loop BlockComment saw (tl s)
      else if is_quote c then (if saw then True else multiple_loop (InString c) saw s)
      else if saw then (if \<not> is_whitespace c then True else multiple_loop Code saw s)
      else if c = CHR '';'' then multiple_loop Code True s
      else multiple_loop Code saw s)"
  by pat_completeness auto
termination
  by (relation "measure (\<lambda>(_, _, s). length s)") auto

definition has_multiple_statements :: "string \<Rightarrow> bool" where
  "has_multiple_statements sql = multiple_loop Code False sql"

section \<open>The decision\<close>

definition DESTRUCTIVE_KEYWORDS :: "string list" where
  "DESTRUCTIVE_KEYWORDS = [''DROP'', ''TRUNCATE'', ''ALTER'']"

text \<open>\<open>show_list\<close> is the debug text of the allow list.\<close>

definition validate_raw_sql ::
  "(string list \<Rightarrow> string) \<Rightarrow> string \<Rightarrow> string \<Rightarrow> string list option \<Rightarrow> string list option \<Rightarrow> bool \<Rightarrow> unit result" where
  "validate_raw_sql show_list mode sql allowlist blocklist allow_destructive =
     (if trim sql = [] then Inl (InvalidPayload ''Empty SQL statement'')
      else if \<not> allow_destructive \<and> has_multiple_statements sql
      then Inl (InvalidPayload ''Multiple SQL statements are not allowed'')
      else and_then (ok_or (InvalidPayload ''Could not determine SQL statement type'') (first_sql_keyword sql)) (\<lambda>keyword.
        let destructive = to_uppercase keyword \<in> set DESTRUCTIVE_KEYWORDS in
        if \<not> allow_destructive \<and> destructive
        then Inl (InvalidPayload (''Destructive SQL statement type '' @ [CHR 0x27] @ keyword @ [CHR 0x27]
               @ '' is not allowed unless destructive admin is enabled''))
        else if allow_destructive \<and> destructive then Inr ()
        else if (case allowlist of None \<Rightarrow> False | Some l \<Rightarrow> \<not> list_ex (\<lambda>a. eq_ignore_ascii_case a keyword) l)
        then Inl (InvalidPayload (''SQL statement type '' @ [CHR 0x27] @ keyword @ [CHR 0x27] @ '' is not allowed for ''
               @ mode @ ''. Allowed: '' @ show_list (unwrap_or [] allowlist)))
        else if (case blocklist of None \<Rightarrow> False | Some l \<Rightarrow> list_ex (\<lambda>b. eq_ignore_ascii_case b keyword) l)
        then Inl (InvalidPayload (''SQL statement type '' @ [CHR 0x27] @ keyword @ [CHR 0x27] @ '' is blocked for '' @ mode))
        else Inr ()))"

definition keyword_list :: "string list \<Rightarrow> string option \<Rightarrow> string list" where
  "keyword_list dflt v =
     (case v of Some s \<Rightarrow> filter (\<lambda>t. t \<noteq> []) (map (\<lambda>t. to_uppercase (trim t)) (split_on CHR '','' s))
      | None \<Rightarrow> dflt)"

definition raw_sql_query_allowlist_from_env :: "string option \<Rightarrow> string list" where
  "raw_sql_query_allowlist_from_env =
     keyword_list [''SELECT'', ''WITH'', ''EXPLAIN'', ''SHOW'', ''DESCRIBE'', ''VALUES'']"

definition raw_sql_execute_blocklist_from_env :: "string option \<Rightarrow> string list" where
  "raw_sql_execute_blocklist_from_env = keyword_list [''DROP'', ''TRUNCATE'', ''ALTER'']"

text \<open>\<open>decode_jwt_payload\<close>, with the base64 decoder and the UTF-8 check of the crates.\<close>

definition decode_jwt_payload :: "(string \<Rightarrow> 'b option) \<Rightarrow> ('b \<Rightarrow> string option) \<Rightarrow> string \<Rightarrow> string option" where
  "decode_jwt_payload b64 utf8 token =
     (let parts = split_on CHR ''.'' token in
      if length parts \<noteq> 3 then None else Option.bind (b64 (parts ! 1)) utf8)"

section \<open>The lexer as specification\<close>

text \<open>
  What a statement looks like with its comments and literals taken out: the remaining characters, and
  a mark where a literal starts. The flag says whether a backslash escapes the next character of a
  literal in single quotes: the program assumes it does, standard SQL says it does not.
\<close>

datatype item = Literal | Char char

function lex :: "bool \<Rightarrow> scan_mode \<Rightarrow> string \<Rightarrow> item list" where
  "lex esc mode [] = []"
| "lex esc BlockComment (c # s) =
     (if c = CHR ''*'' \<and> peeks s CHR ''/'' then lex esc Code (tl s) else lex esc BlockComment s)"
| "lex esc LineComment (c # s) = (if c = CHR 0x0A then lex esc Code s else lex esc LineComment s)"
| "lex esc (InString q) (c # s) =
     (if c = q then lex esc Code s
      else if esc \<and> c = CHR 0x5C \<and> q = CHR 0x27 then lex esc (InString q) (tl s)
      else lex esc (InString q) s)"
| "lex esc Code (c # s) =
     (if c = CHR ''-'' \<and> peeks s CHR ''-'' then lex esc LineComment (tl s)
      else if c = CHR ''/'' \<and> peeks s CHR ''*'' then lex esc BlockComment (tl s)
      else if is_quote c then Literal # lex esc (InString c) s
      else Char c # lex esc Code s)"
  by pat_completeness auto
termination
  by (relation "measure (\<lambda>(_, _, s). length s)") auto

definition visible :: "item list \<Rightarrow> string" where
  "visible items = concat (map (\<lambda>i. case i of Literal \<Rightarrow> [] | Char c \<Rightarrow> [c]) items)"

definition is_blank :: "item \<Rightarrow> bool" where
  "is_blank i = (case i of Literal \<Rightarrow> False | Char c \<Rightarrow> is_whitespace c)"

definition after_semicolon :: "item list \<Rightarrow> item list" where
  "after_semicolon items = tl (dropWhile (\<lambda>i. i \<noteq> Char CHR '';'') items)"

lemma visible_simps [simp]:
  "visible [] = []" "visible (Literal # is) = visible is" "visible (Char c # is) = c # visible is"
  by (simp_all add: visible_def)

lemma keyword_loop_lex:
  "keyword_loop mode token s =
     (if token = [] then takeWhile is_token_char (dropWhile (\<lambda>c. \<not> is_token_char c) (visible (lex True mode s)))
      else token @ takeWhile is_token_char (visible (lex True mode s)))"
  by (induction mode token s rule: keyword_loop.induct) auto

text \<open>
  The keyword scanner is the lexer followed by a search: it finds the first maximal run of letters,
  digits and underscores among the characters outside comments and literals, in upper case.
\<close>

theorem first_sql_keyword_spec:
  "first_sql_keyword sql =
     (let w = takeWhile is_token_char (dropWhile (\<lambda>c. \<not> is_token_char c) (visible (lex True Code sql)))
      in if w = [] then None else Some (to_uppercase w))"
  by (simp add: first_sql_keyword_def keyword_loop_lex)

lemma after_semicolon_Nil [simp]: "after_semicolon [] = []"
  by (simp add: after_semicolon_def)

lemma multiple_loop_lex:
  "multiple_loop mode saw s =
     (if saw then \<not> list_all is_blank (lex True mode s)
      else \<not> list_all is_blank (after_semicolon (lex True mode s)))"
proof (induction mode saw s rule: multiple_loop.induct)
  case (5 saw c s)
  have lit: "\<not> is_blank Literal" "is_blank (Char c) = is_whitespace c" by (simp_all add: is_blank_def)
  have af: "after_semicolon (Literal # is) = after_semicolon is"
    "after_semicolon (Char c # is) = (if c = CHR '';'' then is else after_semicolon is)" for "is"
    by (simp_all add: after_semicolon_def)
  show ?case
  proof (cases "c = CHR ''-'' \<and> peeks s CHR ''-''")
    case True
    with 5(1) show ?thesis by simp
  next
    case F1: False
    show ?thesis
    proof (cases "c = CHR ''/'' \<and> peeks s CHR ''*''")
      case True
      with F1 5(2) show ?thesis by simp
    next
      case False
      have m: "multiple_loop Code saw (c # s) =
          (if is_quote c then (if saw then True else multiple_loop (InString c) saw s)
           else if saw then (if \<not> is_whitespace c then True else multiple_loop Code saw s)
           else if c = CHR '';'' then multiple_loop Code True s
           else multiple_loop Code saw s)"
        by (simp only: multiple_loop.simps F1 False if_False)
      have l: "lex True Code (c # s) = (if is_quote c then Literal # lex True (InString c) s else Char c # lex True Code s)"
        by (simp only: lex.simps F1 False if_False)
      show ?thesis
        unfolding m l using 5(3-6) [OF F1 False] by (cases saw) (auto simp: lit af)
    qed
  qed
next
  case (4 q saw c s)
  then show ?case by (cases "c = q"; cases "c = CHR 0x5C \<and> q = CHR 0x27") auto
next
  case (2 saw c s)
  then show ?case by (cases "c = CHR ''*'' \<and> peeks s CHR ''/''") auto
next
  case (3 saw c s)
  then show ?case by (cases "c = CHR 0x0A") auto
qed simp

text \<open>
  The chaining scanner is the same lexer followed by a search: it reports more than one statement
  exactly when, after the first semicolon outside comments and literals, something other than white
  space and comments follows.
\<close>

theorem has_multiple_statements_spec:
  "has_multiple_statements sql \<longleftrightarrow> \<not> list_all is_blank (after_semicolon (lex True Code sql))"
  by (simp add: has_multiple_statements_def multiple_loop_lex)


section \<open>What an accepted statement satisfies\<close>

lemma lex_no_backslash: "CHR 0x5C \<notin> set s \<Longrightarrow> lex e m s = lex e' m s"
proof (induction e m s rule: lex.induct)
  case (4 esc q c s)
  have c: "c \<noteq> CHR 0x5C" "CHR 0x5C \<notin> set s" using 4(4) by auto
  show ?case using 4(1) 4(3) c by (cases "c = q") simp_all
next
  case (5 esc c s)
  have "CHR 0x5C \<notin> set (tl s)" using 5(5) by (cases s) auto
  moreover have "CHR 0x5C \<notin> set s" using 5(5) by simp
  ultimately show ?case
    using 5(1-4) by (cases "c = CHR ''-'' \<and> peeks s CHR ''-''"; cases "c = CHR ''/'' \<and> peeks s CHR ''*''"; cases "is_quote c") auto
next
  case (2 esc c s)
  have "CHR 0x5C \<notin> set (tl s)" using 2(3) by (cases s) auto
  moreover have "CHR 0x5C \<notin> set s" using 2(3) by simp
  ultimately show ?case using 2(1,2) by (cases "c = CHR ''*'' \<and> peeks s CHR ''/''") auto
qed simp_all

text \<open>
  The default filter works for statements without backslashes and with a proper first word: an
  accepted statement is a single statement for a lexer of either convention, and its first word,
  found outside comments and literals, is none of \<open>DROP\<close>, \<open>TRUNCATE\<close> and \<open>ALTER\<close>; it is
  on the allow list if there is one and not on the block list, up to letter case.
\<close>

theorem validate_raw_sql_sound:
  assumes "validate_raw_sql sl mode sql allowlist blocklist False = Inr ()" "CHR 0x5C \<notin> set sql"
  shows "list_all is_blank (after_semicolon (lex esc Code sql)) \<and>
    (\<exists>w. w = takeWhile is_token_char (dropWhile (\<lambda>c. \<not> is_token_char c) (visible (lex esc Code sql)))
      \<and> w \<noteq> [] \<and> to_uppercase w \<notin> {''DROP'', ''TRUNCATE'', ''ALTER''}
      \<and> (case allowlist of None \<Rightarrow> True | Some l \<Rightarrow> list_ex (\<lambda>a. eq_ignore_ascii_case a w) l)
      \<and> (case blocklist of None \<Rightarrow> True | Some l \<Rightarrow> \<not> list_ex (\<lambda>b. eq_ignore_ascii_case b w) l))"
proof -
  let ?w = "takeWhile is_token_char (dropWhile (\<lambda>c. \<not> is_token_char c) (visible (lex True Code sql)))"
  have fold: "eq_ignore_ascii_case a (to_uppercase w) = eq_ignore_ascii_case a w" for a w
  proof -
    have "to_lower_char (to_upper_char c) = to_lower_char c" for c
      by (auto simp: to_lower_char_def to_upper_char_def is_ascii_upper_def is_ascii_lower_def of_char_char_of_nat)
    then show ?thesis by (simp add: eq_ignore_ascii_case_def to_lowercase_def to_uppercase_def comp_def)
  qed
  have eq: "lex esc Code sql = lex True Code sql" by (rule lex_no_backslash [OF assms(2)])
  from assms(1) have "\<not> has_multiple_statements sql" by (auto simp: validate_raw_sql_def split: if_splits)
  moreover from assms(1) have "\<exists>k. first_sql_keyword sql = Some k"
    by (auto simp: validate_raw_sql_def and_then_eq_Inr ok_or_eq_Inr split: if_splits)
  then have w: "first_sql_keyword sql = Some (to_uppercase ?w)" "?w \<noteq> []"
    by (auto simp: first_sql_keyword_def keyword_loop_lex Let_def split: if_splits)
  moreover from assms(1) w have "to_uppercase ?w \<notin> set DESTRUCTIVE_KEYWORDS"
    "case allowlist of None \<Rightarrow> True | Some l \<Rightarrow> list_ex (\<lambda>a. eq_ignore_ascii_case a ?w) l"
    "case blocklist of None \<Rightarrow> True | Some l \<Rightarrow> \<not> list_ex (\<lambda>b. eq_ignore_ascii_case b ?w) l"
    by (auto simp: validate_raw_sql_def Let_def fold split: if_splits option.splits)
  ultimately show ?thesis
    unfolding eq by (auto simp: has_multiple_statements_def multiple_loop_lex DESTRUCTIVE_KEYWORDS_def)
qed

theorem validate_raw_sql_sound_witness:
  "list_all is_blank (after_semicolon (lex False Code ''SELECT 1;''))"
proof -
  have "validate_raw_sql concat ''query'' ''SELECT 1;'' (Some [''SELECT'']) None False = Inr ()" by code_simp
  from validate_raw_sql_sound [OF this] show ?thesis by simp
qed

text \<open>
  The filter can be passed by a destructive statement: a comment between the first two words does
  not end the first one for the scanner, so it looks up the word \<open>DROPTABLE\<close>, which is on no list.
\<close>

theorem validate_raw_sql_comment_bypass:
  "validate_raw_sql concat ''execute'' ''DROP/**/TABLE users'' None (Some [''DROP'', ''TRUNCATE'', ''ALTER'']) False = Inr ()
   \<and> first_sql_keyword ''DROP/**/TABLE users'' = Some ''DROPTABLE''"
  by code_simp

text \<open>
  The chaining check assumes that a backslash escapes a quote. Under the standard convention of
  PostgreSQL the literal of this statement ends at the second quote, and a second statement follows;
  the scanner sees one statement and accepts it.
\<close>

theorem validate_raw_sql_backslash_bypass:
  "let sql = ''SELECT '' @ [CHR 0x27, CHR 0x5C, CHR 0x27] @ ''; DROP TABLE users; SELECT '' @ [CHR 0x27, CHR 0x27] in
   validate_raw_sql concat ''query'' sql (Some [''SELECT'']) None False = Inr ()
   \<and> \<not> list_all is_blank (after_semicolon (lex False Code sql))"
  by code_simp

end
