(* ===== verification/Abac.thy ===== *)
theory Abac imports Store "HOL-Library.Multiset" "HOL-Library.List_Lexorder" "HOL-Library.Char_ord" begin

unbundle bit_operations_syntax

text \<open>
  The attribute-based access control engine (\<open>src/src/security/abac.rs\<close>): the policy language, the
  evaluation of a request against the policies of a tenant, and the table of policies. Parameters: the
  regular expression engine \<open>rx_search\<close>, the order of doubles \<open>num_less\<close>, the serde codecs of the lists
  stored in a row, and what the server makes of a text bound to a boolean column.
\<close>

section \<open>Policies\<close>

datatype policy_effect = Allow | Deny

record principal_matcher =
  principal_type :: string
  pm_value :: string

record resource_matcher =
  rm_type :: string
  rm_id :: string

datatype condition_op =
    Equals | NotEquals | Contains | In | NotIn | GreaterThan | LessThan | StartsWith | EndsWith | Matches
  | IpInCidr | TimeBetween

record condition =
  attribute :: string
  operator :: condition_op
  cond_value :: json

record policy =
  pol_id :: string
  pol_name :: string
  description :: string
  effect :: policy_effect
  principals :: "principal_matcher list"
  actions :: "string list"
  resources :: "resource_matcher list"
  conditions :: "condition list"
  priority :: int
  enabled :: bool
  tenant_id :: int
  created_at :: string
  updated_at :: string

record principal_context =
  pc_id :: int
  pc_roles :: "string list"
  pc_groups :: "string list"
  pc_attributes :: "string \<Rightarrow> json option"

record resource_context =
  rc_type :: string
  rc_id :: string
  rc_attributes :: "string \<Rightarrow> json option"

record authorization_request =
  principal :: principal_context
  action :: string
  resource :: resource_context
  environment :: "string \<Rightarrow> json option"

record authorization_decision =
  allowed :: bool
  matching_policy :: "string option"
  dec_effect :: policy_effect
  reason :: string

text \<open>What the engine asks of its surroundings: the regular expression crate, doubles, the clock.\<close>

record abac_env =
  rx_search :: "string \<Rightarrow> string \<Rightarrow> bool"
  num_less :: "number \<Rightarrow> number \<Rightarrow> bool"
  now_hhmm :: string

section \<open>Conditions\<close>

definition resolve_attribute :: "string \<Rightarrow> authorization_request \<Rightarrow> json option" where
  "resolve_attribute attr rq =
     (case split_once CHR ''.'' attr of
        None \<Rightarrow> None
      | Some (scope, key) \<Rightarrow>
          if scope = ''user'' \<or> scope = ''principal'' then pc_attributes (principal rq) key
          else if scope = ''resource'' then rc_attributes (resource rq) key
          else if scope = ''env'' \<or> scope = ''environment'' then environment rq key
          else None)"

text \<open>
  The CIDR check. The octets that do not parse are dropped. The subtraction and the shift are those of
  a release build, which wrap when the mask has more than 32 bits (a debug build panics).
\<close>

definition octets :: "string \<Rightarrow> nat list" where
  "octets s = List.map_filter parse_u8 (split_on CHR ''.'' s)"

definition from_be_bytes :: "nat list \<Rightarrow> 32 word" where
  "from_be_bytes os = foldl (\<lambda>w o'. push_bit 8 w OR word_of_nat o') 0 os"

definition cidr_mask :: "nat \<Rightarrow> 32 word" where
  "cidr_mask bits =
     (if bits = 0 then 0 else push_bit (unat (32 - word_of_nat bits :: 32 word) mod 32) (- 1))"

definition ip_in_cidr :: "string \<Rightarrow> string \<Rightarrow> bool" where
  "ip_in_cidr ip cidr =
     (case split_on CHR ''/'' cidr of
        [addr, bits] \<Rightarrow>
          let cidr_ip = octets addr; mask_bits = unwrap_or 32 (parse_u32 bits); check_ip = octets ip in
          if length cidr_ip \<noteq> 4 \<or> length check_ip \<noteq> 4 then False
          else from_be_bytes cidr_ip AND cidr_mask mask_bits = from_be_bytes check_ip AND cidr_mask mask_bits
      | _ \<Rightarrow> False)"

definition evaluate_condition :: "abac_env \<Rightarrow> condition \<Rightarrow> authorization_request \<Rightarrow> bool" where
  "evaluate_condition e c rq =
     (let actual = resolve_attribute (attribute c) rq; v = cond_value c in
      case operator c of
        Equals \<Rightarrow> actual = Some v
      | NotEquals \<Rightarrow> actual \<noteq> Some v
      | Contains \<Rightarrow> (case (actual, v) of (Some (JString a), JString x) \<Rightarrow> str_contains a x | _ \<Rightarrow> False)
      | In \<Rightarrow> (case (actual, v) of (Some a, JArray xs) \<Rightarrow> a \<in> set xs | _ \<Rightarrow> False)
      | NotIn \<Rightarrow> (case (actual, v) of (Some a, JArray xs) \<Rightarrow> a \<notin> set xs | _ \<Rightarrow> True)
      | GreaterThan \<Rightarrow> (case (actual, v) of (Some (JNumber a), JNumber b) \<Rightarrow> num_less e b a | _ \<Rightarrow> False)
      | LessThan \<Rightarrow> (case (actual, v) of (Some (JNumber a), JNumber b) \<Rightarrow> num_less e a b | _ \<Rightarrow> False)
      | StartsWith \<Rightarrow> (case (actual, v) of (Some (JString a), JString x) \<Rightarrow> starts_with a x | _ \<Rightarrow> False)
      | EndsWith \<Rightarrow> (case (actual, v) of (Some (JString a), JString x) \<Rightarrow> ends_with a x | _ \<Rightarrow> False)
      | Matches \<Rightarrow> (case (actual, v) of (Some (JString a), JString x) \<Rightarrow> rx_search e x a | _ \<Rightarrow> False)
      | IpInCidr \<Rightarrow> (case (actual, v) of (Some (JString a), JString x) \<Rightarrow> ip_in_cidr a x | _ \<Rightarrow> False)
      | TimeBetween \<Rightarrow> (case v of
            JObject bounds \<Rightarrow>
              let start = unwrap_or ''00:00'' (Option.bind (map_of bounds ''start'') as_str);
                  stop = unwrap_or ''23:59'' (Option.bind (map_of bounds ''end'') as_str)
              in start \<le> now_hhmm e \<and> now_hhmm e \<le> stop
          | _ \<Rightarrow> False))"

section \<open>Matching and evaluation\<close>

definition principal_matches :: "authorization_request \<Rightarrow> principal_matcher \<Rightarrow> bool" where
  "principal_matches rq p =
     (let ty = principal_type p; v = pm_value p in
      if ty = ''any'' \<or> ty = ''*'' then True
      else if ty = ''user'' then v = show_int (pc_id (principal rq)) \<or> v = ''*''
      else if ty = ''role'' then v \<in> set (pc_roles (principal rq)) \<or> v = ''*''
      else if ty = ''group'' then v \<in> set (pc_groups (principal rq)) \<or> v = ''*''
      else False)"

definition glob_matches :: "string \<Rightarrow> string \<Rightarrow> bool" where
  "glob_matches pat s \<longleftrightarrow>
     pat = ''*'' \<or> pat = s \<or> (case strip_suffix pat ''*'' of Some pre \<Rightarrow> starts_with s pre | None \<Rightarrow> False)"

definition resource_matches :: "authorization_request \<Rightarrow> resource_matcher \<Rightarrow> bool" where
  "resource_matches rq r \<longleftrightarrow>
     (rm_type r = ''any'' \<or> rm_type r = ''*'' \<or> rm_type r = rc_type (resource rq))
     \<and> glob_matches (rm_id r) (rc_id (resource rq))"

definition matches_policy :: "abac_env \<Rightarrow> policy \<Rightarrow> authorization_request \<Rightarrow> bool" where
  "matches_policy e p rq =
     (if \<not> (principals p = [] \<or> list_ex (principal_matches rq) (principals p)) then False
      else if \<not> (actions p = [] \<or> list_ex (\<lambda>a. glob_matches a (action rq)) (actions p)) then False
      else if \<not> (resources p = [] \<or> list_ex (resource_matches rq) (resources p)) then False
      else list_all (\<lambda>c. evaluate_condition e c rq) (conditions p))"

definition implicit_deny :: authorization_decision where
  "implicit_deny = \<lparr>allowed = False, matching_policy = None, dec_effect = Deny,
     reason = ''No matching allow policy found (implicit deny)''\<rparr>"

text \<open>The loop over the sorted policies, with \<open>first_allow\<close>.\<close>

fun evaluate_loop :: "abac_env \<Rightarrow> authorization_request \<Rightarrow> policy option \<Rightarrow> policy list \<Rightarrow> authorization_decision" where
  "evaluate_loop e rq first_allow [] =
     (case first_allow of
        Some p \<Rightarrow> \<lparr>allowed = True, matching_policy = Some (pol_id p), dec_effect = Allow,
                   reason = ''Allowed by policy: '' @ pol_name p\<rparr>
      | None \<Rightarrow> implicit_deny)"
| "evaluate_loop e rq first_allow (p # ps) =
     (if matches_policy e p rq
      then (case effect p of
          Deny \<Rightarrow> \<lparr>allowed = False, matching_policy = Some (pol_id p), dec_effect = Deny,
                   reason = ''Denied by policy: '' @ pol_name p\<rparr>
        | Allow \<Rightarrow> evaluate_loop e rq (if first_allow = None then Some p else first_allow) ps)
      else evaluate_loop e rq first_allow ps)"

definition decide :: "abac_env \<Rightarrow> policy list \<Rightarrow> authorization_request \<Rightarrow> authorization_decision" where
  "decide e policies rq = evaluate_loop e rq None (sort_key (\<lambda>p. - priority p) policies)"

section \<open>The table of policies\<close>

record abac_row =
  ab_id :: string
  ab_name :: string
  ab_description :: string
  ab_effect :: string
  ab_principals :: string
  ab_actions :: string
  ab_resources :: string
  ab_conditions :: string
  ab_priority :: int
  ab_enabled :: bool
  ab_tenant :: int
  ab_created :: string
  ab_updated :: string

text \<open>
  serde: the text of each list and its reading. \<open>coerce_bool\<close> is what the server makes of a text that
  is bound to a boolean column; PostgreSQL has no such assignment, so its answer is a type error.
\<close>

record codec =
  enc_principals :: "principal_matcher list \<Rightarrow> string"
  enc_actions :: "string list \<Rightarrow> string"
  enc_resources :: "resource_matcher list \<Rightarrow> string"
  enc_conditions :: "condition list \<Rightarrow> string"
  dec_principals :: "string \<Rightarrow> principal_matcher list option"
  dec_actions :: "string \<Rightarrow> string list option"
  dec_resources :: "string \<Rightarrow> resource_matcher list option"
  dec_conditions :: "string \<Rightarrow> condition list option"
  coerce_bool :: "string \<Rightarrow> bool option"

definition policy_cells :: "abac_row \<Rightarrow> (string \<times> cell) list" where
  "policy_cells r =
     [(''id'', cell_text (ab_id r)), (''name'', cell_text (ab_name r)), (''description'', cell_text (ab_description r)),
      (''effect'', cell_text (ab_effect r)), (''principals'', cell_text (ab_principals r)),
      (''actions'', cell_text (ab_actions r)), (''resources'', cell_text (ab_resources r)),
      (''conditions'', cell_text (ab_conditions r)), (''priority'', cell_int (ab_priority r)),
      (''enabled'', cell_bool (ab_enabled r)), (''created_at'', cell_time (ab_created r)),
      (''updated_at'', cell_time (ab_updated r))]"

definition list_column :: "(string \<Rightarrow> 'a list option) \<Rightarrow> row \<Rightarrow> string \<Rightarrow> 'a list" where
  "list_column dec r k = unwrap_or [] (Option.bind (col_str r k) dec)"

definition as_i32_cast :: "int \<Rightarrow> int" where
  "as_i32_cast i = sint (word_of_int i :: 32 word)"

definition policy_of_row :: "codec \<Rightarrow> int \<Rightarrow> row \<Rightarrow> policy option" where
  "policy_of_row cd tenant r =
     Option.bind (col_str r ''id'') (\<lambda>i.
     Option.bind (col_str r ''name'') (\<lambda>n.
     Option.bind (col_str r ''effect'') (\<lambda>ef.
     Some \<lparr>pol_id = i, pol_name = n, description = unwrap_or [] (col_str r ''description''),
       effect = (if ef = ''allow'' then Allow else Deny),
       principals = list_column (dec_principals cd) r ''principals'',
       actions = list_column (dec_actions cd) r ''actions'',
       resources = list_column (dec_resources cd) r ''resources'',
       conditions = list_column (dec_conditions cd) r ''conditions'',
       priority = as_i32_cast (unwrap_or 0 (col_i64 r ''priority'')), enabled = True, tenant_id = tenant,
       created_at = unwrap_or [] (col_str r ''created_at''), updated_at = unwrap_or [] (col_str r ''updated_at'')\<rparr>)))"

text \<open>\<open>WHERE tenant_id = ? [AND enabled = true] ORDER BY priority DESC\<close>.\<close>

definition tenant_rows :: "int \<Rightarrow> bool \<Rightarrow> abac_row list \<Rightarrow> abac_row list" where
  "tenant_rows tenant only_enabled rows =
     sort_key (\<lambda>r. - ab_priority r) (filter (\<lambda>r. ab_tenant r = tenant \<and> (only_enabled \<longrightarrow> ab_enabled r)) rows)"

definition get_active_policies ::
  "(string \<Rightarrow> json option) \<Rightarrow> (string \<Rightarrow> string) \<Rightarrow> codec \<Rightarrow> int \<Rightarrow> (abac_row list, policy list) io" where
  "get_active_policies p b cd tenant =
     bind_io (query p b (\<lambda>t. map policy_cells (tenant_rows tenant True t)))
       (\<lambda>rows. ret (List.map_filter (policy_of_row cd tenant) rows))"

definition evaluate ::
  "(string \<Rightarrow> json option) \<Rightarrow> (string \<Rightarrow> string) \<Rightarrow> codec \<Rightarrow> abac_env \<Rightarrow> int \<Rightarrow> authorization_request
   \<Rightarrow> (abac_row list, authorization_decision) io" where
  "evaluate p b cd e tenant rq =
     bind_io (get_active_policies p b cd tenant) (\<lambda>policies. ret (decide e policies rq))"

definition create_policy :: "codec \<Rightarrow> string \<Rightarrow> string \<Rightarrow> int \<Rightarrow> policy \<Rightarrow> (abac_row list, policy) io" where
  "create_policy cd uuid now tenant pol =
     (let i = (if pol_id pol = [] then uuid else pol_id pol) in
      bind_io (stmt (\<lambda>t. case coerce_bool cd (if enabled pol then ''true'' else ''false'') of
          None \<Rightarrow> Inl (Database ''column enabled is of type boolean but expression is of type text'')
        | Some en \<Rightarrow>
            if i \<in> ab_id ` set t then Inl (Database ''duplicate key'')
            else Inr ((), t @ [\<lparr>ab_id = i, ab_name = pol_name pol, ab_description = description pol,
              ab_effect = (case effect pol of Allow \<Rightarrow> ''allow'' | Deny \<Rightarrow> ''deny''),
              ab_principals = enc_principals cd (principals pol), ab_actions = enc_actions cd (actions pol),
              ab_resources = enc_resources cd (resources pol), ab_conditions = enc_conditions cd (conditions pol),
              ab_priority = priority pol, ab_enabled = en, ab_tenant = tenant, ab_created = now, ab_updated = now\<rparr>])))
        (\<lambda>_. ret (pol\<lparr>pol_id := i, tenant_id := tenant, created_at := now, updated_at := now\<rparr>)))"

definition list_policies ::
  "(string \<Rightarrow> json option) \<Rightarrow> (string \<Rightarrow> string) \<Rightarrow> int \<Rightarrow> (abac_row list, json list) io" where
  "list_policies p b tenant =
     bind_io (query p b (\<lambda>t. map (\<lambda>r. butlast (policy_cells r)) (tenant_rows tenant False t)))
       (\<lambda>rows. ret (map (\<lambda>r. JObject (sort_key fst r)) rows))"

definition delete_policy :: "string \<Rightarrow> int \<Rightarrow> (abac_row list, unit) io" where
  "delete_policy i tenant = exec (filter (\<lambda>r. \<not> (ab_id r = i \<and> ab_tenant r = tenant)))"

definition update_row :: "string \<Rightarrow> int \<Rightarrow> (abac_row \<Rightarrow> abac_row) \<Rightarrow> abac_row list \<Rightarrow> abac_row list" where
  "update_row i tenant f = map (\<lambda>r. if ab_id r = i \<and> ab_tenant r = tenant then f r else r)"

definition update_policy :: "codec \<Rightarrow> string \<Rightarrow> string \<Rightarrow> int \<Rightarrow> json \<Rightarrow> (abac_row list, unit) io" where
  "update_policy cd now i tenant updates =
     bind_io (case Option.bind (jget updates ''name'') as_str of
         None \<Rightarrow> ret ()
       | Some n \<Rightarrow> exec (update_row i tenant (\<lambda>r. r\<lparr>ab_name := n, ab_updated := now\<rparr>)))
     (\<lambda>_. case Option.bind (jget updates ''enabled'') as_bool of
         None \<Rightarrow> ret ()
       | Some en \<Rightarrow> stmt (\<lambda>t. case coerce_bool cd (if en then ''true'' else ''false'') of
             None \<Rightarrow> Inl (Database ''column enabled is of type boolean but expression is of type text'')
           | Some v \<Rightarrow> Inr ((), update_row i tenant (\<lambda>r. r\<lparr>ab_enabled := v, ab_updated := now\<rparr>) t)))"


section \<open>Deny overrides\<close>

lemma matches_empty: "principals p = [] \<Longrightarrow> actions p = [] \<Longrightarrow> resources p = [] \<Longrightarrow> conditions p = [] \<Longrightarrow> matches_policy e p rq"
  by (simp add: matches_policy_def)

lemma evaluate_loop_spec:
  "evaluate_loop e rq fa ps =
     (case find (\<lambda>p. matches_policy e p rq \<and> effect p = Deny) ps of
        Some p \<Rightarrow> \<lparr>allowed = False, matching_policy = Some (pol_id p), dec_effect = Deny,
                   reason = ''Denied by policy: '' @ pol_name p\<rparr>
      | None \<Rightarrow>
          (case (if fa = None then find (\<lambda>p. matches_policy e p rq \<and> effect p = Allow) ps else fa) of
             Some p \<Rightarrow> \<lparr>allowed = True, matching_policy = Some (pol_id p), dec_effect = Allow,
                        reason = ''Allowed by policy: '' @ pol_name p\<rparr>
           | None \<Rightarrow> implicit_deny))"
proof (induction ps arbitrary: fa)
  case Nil
  then show ?case by (cases fa) simp_all
next
  case (Cons p ps)
  then show ?case by (cases "effect p") (auto split: option.splits)
qed

lemma find_sorted_max:
  assumes "find P (sort_key (\<lambda>p. - f p) xs) = Some x"
  shows "x \<in> set xs \<and> P x \<and> (\<forall>y \<in> set xs. P y \<longrightarrow> f y \<le> (f x :: int))"
proof -
  have srt: "find P ys = Some x \<Longrightarrow> sorted (map (\<lambda>p. - f p) ys) \<Longrightarrow> \<forall>y \<in> set ys. P y \<longrightarrow> f y \<le> f x" for ys
    by (induction ys) (auto split: if_splits)
  from srt [OF assms] find_Some_in_set [OF assms] show ?thesis by simp
qed

lemma decide_props:
  "(allowed (decide e ps rq) \<longleftrightarrow>
      (\<exists>p \<in> set ps. matches_policy e p rq \<and> effect p = Allow) \<and>
      \<not> (\<exists>p \<in> set ps. matches_policy e p rq \<and> effect p = Deny))
   \<and> (\<forall>i. matching_policy (decide e ps rq) = Some i \<longrightarrow>
        (\<exists>p \<in> set ps. pol_id p = i \<and> matches_policy e p rq \<and> effect p = dec_effect (decide e ps rq)
           \<and> (\<forall>q \<in> set ps. matches_policy e q rq \<longrightarrow> effect q = effect p \<longrightarrow> priority q \<le> priority p)))"
proof (cases "find (\<lambda>p. matches_policy e p rq \<and> effect p = Deny) (sort_key (\<lambda>p. - priority p) ps)")
  case (Some p)
  with find_sorted_max [OF Some] show ?thesis by (auto simp: decide_def evaluate_loop_spec)
next
  case None
  then have nodeny: "p \<in> set ps \<Longrightarrow> matches_policy e p rq \<Longrightarrow> effect p \<noteq> Deny" for p
    by (auto simp: find_None_all)
  show ?thesis
  proof (cases "find (\<lambda>p. matches_policy e p rq \<and> effect p = Allow) (sort_key (\<lambda>p. - priority p) ps)")
    case (Some p)
    with find_sorted_max [OF Some] None nodeny show ?thesis by (auto simp: decide_def evaluate_loop_spec)
  next
    case none: None
    then have "p \<in> set ps \<Longrightarrow> matches_policy e p rq \<Longrightarrow> effect p \<noteq> Allow" for p
      by (auto simp: find_None_all)
    with None none show ?thesis by (auto simp: decide_def evaluate_loop_spec implicit_deny_def)
  qed
qed

text \<open>A tenant that lets its administrators drop tables, and a request of a user with no role.\<close>

definition demo_codec :: codec where
  "demo_codec = \<lparr>enc_principals = (\<lambda>_. ''[]''), enc_actions = (\<lambda>_. ''[]''), enc_resources = (\<lambda>_. ''[]''),
     enc_conditions = (\<lambda>_. ''[]''), dec_principals = (\<lambda>_. Some [\<lparr>principal_type = ''role'', pm_value = ''admin''\<rparr>]),
     dec_actions = (\<lambda>_. Some [''drop'']), dec_resources = (\<lambda>_. Some []), dec_conditions = (\<lambda>_. Some []),
     coerce_bool = (\<lambda>_. None)\<rparr>"

definition demo_policy :: abac_row where
  "demo_policy = \<lparr>ab_id = ''p1'', ab_name = ''admins drop'', ab_description = [], ab_effect = ''allow'',
     ab_principals = ''[admin]'', ab_actions = ''[drop]'', ab_resources = ''[]'', ab_conditions = ''[]'',
     ab_priority = 0, ab_enabled = True, ab_tenant = 1, ab_created = [], ab_updated = []\<rparr>"

definition demo_request :: authorization_request where
  "demo_request = \<lparr>principal = \<lparr>pc_id = 7, pc_roles = [], pc_groups = [], pc_attributes = (\<lambda>_. None)\<rparr>,
     action = ''drop'', resource = \<lparr>rc_type = ''table'', rc_id = ''users'', rc_attributes = (\<lambda>_. None)\<rparr>,
     environment = (\<lambda>_. None)\<rparr>"

definition demo_abac_env :: abac_env where
  "demo_abac_env = \<lparr>rx_search = (\<lambda>_ _. False), num_less = (\<lambda>_ _. False), now_hhmm = ''12:00''\<rparr>"

text \<open>
  C7. Deny overrides, whatever the priorities and the order of the policies: a request is allowed
  exactly when some matching policy allows it and no matching policy denies it. The policy named in the
  decision is a matching one of the decided effect with the highest priority among those.
\<close>

theorem decide_deny_overrides:
  "(allowed (decide e ps rq) \<longleftrightarrow>
      (\<exists>p \<in> set ps. matches_policy e p rq \<and> effect p = Allow) \<and>
      \<not> (\<exists>p \<in> set ps. matches_policy e p rq \<and> effect p = Deny))
   \<and> (\<forall>i. matching_policy (decide e ps rq) = Some i \<longrightarrow>
        (\<exists>p \<in> set ps. pol_id p = i \<and> matches_policy e p rq \<and> effect p = dec_effect (decide e ps rq)
           \<and> (\<forall>q \<in> set ps. matches_policy e q rq \<longrightarrow> effect q = effect p \<longrightarrow> priority q \<le> priority p)))"
  by (rule decide_props)

theorem decide_deny_overrides_witness:
  "let pol = (\<lambda>i eff pr. \<lparr>pol_id = i, pol_name = i, description = [], effect = eff, principals = [], actions = [],
       resources = [], conditions = [], priority = pr, enabled = True, tenant_id = 1, created_at = [], updated_at = []\<rparr>);
     ps = [pol ''a'' Allow 9, pol ''d'' Deny 1] in
     \<not> allowed (decide demo_abac_env ps demo_request) \<and> (\<exists>q \<in> set ps. matching_policy (decide demo_abac_env ps demo_request) = Some (pol_id q) \<and> effect q = Deny)"
proof -
  let ?pol = "\<lambda>i eff pr. \<lparr>pol_id = i, pol_name = i, description = [], effect = eff, principals = [], actions = [],
       resources = [], conditions = [], priority = pr, enabled = True, tenant_id = 1, created_at = [], updated_at = []\<rparr>"
  let ?ps = "[?pol ''a'' Allow 9, ?pol ''d'' Deny 1]"
  have m: "matches_policy demo_abac_env p demo_request" if "p \<in> set ?ps" for p using that by (auto intro: matches_empty)
  from decide_deny_overrides [of demo_abac_env ?ps demo_request] m have "\<not> allowed (decide demo_abac_env ?ps demo_request)" by auto
  moreover have "matching_policy (decide demo_abac_env ?ps demo_request) = Some ''d''"
    using m by (simp add: decide_def matches_empty)
  ultimately show ?thesis by (simp add: Let_def)
qed

section \<open>Policies read back from the table\<close>

text \<open>
  A column text that the row reader turns into a JSON array: what serde writes for a list.
\<close>

definition array_text :: "(string \<Rightarrow> json option) \<Rightarrow> string \<Rightarrow> bool" where
  "array_text p s \<longleftrightarrow> starts_with s ''['' \<and> (case p s of Some (JArray _) \<Rightarrow> True | _ \<Rightarrow> False)"

definition serde_row :: "(string \<Rightarrow> json option) \<Rightarrow> abac_row \<Rightarrow> bool" where
  "serde_row p r \<longleftrightarrow>
     array_text p (ab_principals r) \<and> array_text p (ab_actions r) \<and> array_text p (ab_resources r)
     \<and> array_text p (ab_conditions r) \<and> plain (ab_id r) \<and> plain (ab_name r) \<and> plain (ab_effect r)"

lemma array_text_reads: "array_text p s \<Longrightarrow> as_str (get_value_from_row p b (cell_text s)) = None"
  by (auto simp: array_text_def get_value_from_row_def cell_text_def no_cell_def split: option.splits json.splits)

lemma policy_of_serde_row:
  assumes "serde_row p r"
  shows "\<exists>pol. policy_of_row cd tenant (json_row p b (policy_cells r)) = Some pol
    \<and> principals pol = [] \<and> actions pol = [] \<and> resources pol = [] \<and> conditions pol = []
    \<and> effect pol = (if ab_effect r = ''allow'' then Allow else Deny)"
proof -
  have lost: "list_column dec (json_row p b (policy_cells r)) k = []"
    if "k \<in> {''principals'', ''actions'', ''resources'', ''conditions''}" for dec :: "string \<Rightarrow> 'c list option" and k
    using that assms
    by (auto simp: list_column_def col_str_def json_row_def policy_cells_def serde_row_def array_text_reads)
  have str: "col_str (json_row p b (policy_cells r)) ''id'' = Some (ab_id r)"
    "col_str (json_row p b (policy_cells r)) ''name'' = Some (ab_name r)"
    "col_str (json_row p b (policy_cells r)) ''effect'' = Some (ab_effect r)"
    using assms
    by (simp_all add: col_str_def json_row_def policy_cells_def serde_row_def plain_def get_value_cell_text)
  show ?thesis by (simp add: policy_of_row_def str lost)
qed

lemma map_filter_of_map: "List.map_filter f (map g xs) = List.map_filter (\<lambda>x. f (g x)) xs"
  by (simp add: List.map_filter_def filter_map comp_def)

text \<open>
  Stored policies lose their matchers. The row reader turns a text column that holds a JSON array
  into an array, and the loader then asks it for a string, so principals, actions, resources and
  conditions all read back as empty lists, which match everything: if a tenant has an enabled allow
  policy, for whomever it was written, and no enabled deny policy, every request of anyone is allowed.
\<close>

theorem stored_allow_policy_allows_everything:
  assumes rows: "\<forall>r \<in> set t. serde_row p r"
    and allow: "r \<in> set t" "ab_tenant r = tenant" "ab_enabled r" "ab_effect r = ''allow''"
    and nodeny: "\<forall>r \<in> set t. ab_tenant r = tenant \<longrightarrow> ab_enabled r \<longrightarrow> ab_effect r = ''allow''"
  shows "\<exists>dec. evaluate p b cd e tenant rq (up t) = (Inr dec, up t) \<and> allowed dec"
proof -
  let ?rs = "tenant_rows tenant True t"
  let ?load = "\<lambda>r. policy_of_row cd tenant (json_row p b (policy_cells r))"
  let ?ps = "List.map_filter ?load ?rs"
  have rs: "set ?rs = {r \<in> set t. ab_tenant r = tenant \<and> ab_enabled r}" by (simp add: tenant_rows_def)
  have ps: "matches_policy e q rq \<and> effect q = Allow" if "q \<in> set ?ps" for q
  proof -
    from that obtain r' where r': "r' \<in> set ?rs" "?load r' = Some q"
      by (auto simp: List.map_filter_def)
    with rows nodeny rs policy_of_serde_row [of p r' cd tenant b] show ?thesis by (auto intro: matches_empty)
  qed
  from policy_of_serde_row [of p r cd tenant b] rows allow obtain q where "?load r = Some q" by blast
  with allow rs have "q \<in> set ?ps" by (force simp: List.map_filter_def)
  with ps have "allowed (decide e ?ps rq)"
    using decide_props [of e ?ps rq] by force
  moreover have "evaluate p b cd e tenant rq (up t) = (Inr (decide e ?ps rq), up t)"
    by (simp add: evaluate_def get_active_policies_def map_filter_of_map)
  ultimately show ?thesis by blast
qed

theorem stored_allow_policy_allows_everything_witness:
  "\<exists>dec. evaluate (\<lambda>_. Some (JArray [])) id demo_codec demo_abac_env 1 demo_request (up [demo_policy]) = (Inr dec, up [demo_policy])
     \<and> allowed dec"
  by (rule stored_allow_policy_allows_everything [of _ _ demo_policy])
    (simp_all add: demo_policy_def serde_row_def array_text_def plain_def starts_with_def)

section \<open>CIDR blocks\<close>

lemma or_octet: "m < 256 \<Longrightarrow> push_bit 8 w OR word_of_nat m = push_bit 8 w + (word_of_nat m :: 32 word)"
proof -
  assume m: "m < 256"
  have "push_bit 8 w AND (word_of_nat m :: 32 word) = 0"
  proof (rule bit_word_eqI)
    fix n assume "n < LENGTH(32)"
    have "\<not> bit m n" if "8 \<le> n"
    proof -
      have "m < 2 ^ n" using m that power_increasing [of 8 n "2 :: nat"] by simp
      then show ?thesis by (simp add: bit_iff_odd)
    qed
    then show "bit (push_bit 8 w AND (word_of_nat m :: 32 word)) n = bit (0 :: 32 word) n"
      by (auto simp: bit_simps)
  qed
  then show ?thesis by (simp add: disjunctive_add_eq_or)
qed

definition ipv4 :: "nat \<Rightarrow> nat \<Rightarrow> nat \<Rightarrow> nat \<Rightarrow> nat" where
  "ipv4 a b c d = ((a * 256 + b) * 256 + c) * 256 + d"

lemma be_bytes: 
  assumes "a < 256" "b < 256" "c < 256" "d < 256"
  shows "from_be_bytes [a, b, c, d] = word_of_nat (ipv4 a b c d)" and "unat (from_be_bytes [a, b, c, d]) = ipv4 a b c d"
proof -
  show *: "from_be_bytes [a, b, c, d] = word_of_nat (ipv4 a b c d)"
  proof -
    have "from_be_bytes [a, b, c, d] = ((push_bit 8 (push_bit 8 (push_bit 8 (0 :: 32 word)
        + word_of_nat a) + word_of_nat b) + word_of_nat c) * 256) + word_of_nat d"
      using assms by (simp only: from_be_bytes_def foldl.simps or_octet) (simp add: push_bit_eq_mult)
    then show ?thesis by (simp add: ipv4_def push_bit_eq_mult algebra_simps)
  qed
  have "ipv4 a b c d < 2 ^ 32" using assms by (simp add: ipv4_def)
  then show "unat (from_be_bytes [a, b, c, d]) = ipv4 a b c d"
    by (simp add: * unsigned_of_nat take_bit_nat_eq_self)
qed

lemma mask_eq: 
  assumes "n \<le> 32"
  shows "x AND cidr_mask n = y AND cidr_mask n \<longleftrightarrow> unat x div 2 ^ (32 - n) = unat y div 2 ^ (32 - n)"
proof -
  have shift: "cidr_mask n = push_bit (32 - n) (- 1)"
  proof (cases "n = 0")
    case True
    have "push_bit 32 (- 1 :: 32 word) = 0" by (simp add: push_bit_eq_mult)
    with True show ?thesis by (simp add: cidr_mask_def)
  next
    case False
    have "unat (32 - word_of_nat n :: 32 word) = 32 - n"
      using assms by (simp add: unat_sub word_le_nat_alt unsigned_of_nat take_bit_nat_eq_self)
    with False show ?thesis by (simp add: cidr_mask_def)
  qed
  have "x AND push_bit k (- 1) = y AND push_bit k (- 1) \<longleftrightarrow> drop_bit k x = drop_bit k y" for k
  proof -
    have "x AND push_bit k (- 1) = push_bit k (drop_bit k x)" for x :: "32 word"
      by (rule bit_word_eqI) (auto simp: bit_simps)
    moreover have "drop_bit k (push_bit k (drop_bit k x)) = drop_bit k x" for x :: "32 word"
      by (rule bit_word_eqI) (auto simp: bit_simps dest: bit_imp_le_length)
    ultimately show ?thesis by metis
  qed
  moreover have "drop_bit k x = drop_bit k y \<longleftrightarrow> unat x div 2 ^ k = unat y div 2 ^ k" for k
  proof -
    have "unat (drop_bit k v) = unat v div 2 ^ k" for v :: "32 word"
      by (subst unat_drop_bit_eq) (simp add: drop_bit_eq_div)
    then show ?thesis by (metis word_unat_eq_iff)
  qed
  ultimately show ?thesis unfolding shift by blast
qed

definition dotted :: "nat \<Rightarrow> nat \<Rightarrow> nat \<Rightarrow> nat \<Rightarrow> string" where
  "dotted a b c d = show_nat a @ ''.'' @ show_nat b @ ''.'' @ show_nat c @ ''.'' @ show_nat d"

lemma octets_dotted:
  assumes "a < 256" "b < 256" "c < 256" "d < 256"
  shows "octets (dotted a b c d) = [a, b, c, d]"
proof -
  have nd: "CHR ''.'' \<notin> set (show_nat n)" for n by (rule show_nat_no_sep) (simp add: is_ascii_digit_def)
  have "split_on CHR ''.'' (dotted a b c d) = [show_nat a, show_nat b, show_nat c, show_nat d]"
    by (simp add: dotted_def split_on_append split_on_none nd)
  with assms show ?thesis by (simp add: octets_def List.map_filter_def parse_u8_def parse_show_nat)
qed

text \<open>
  For well-formed addresses the CIDR check is the textbook one: an address \<open>x.y.z.w\<close> is in the
  block \<open>a.b.c.d/n\<close> exactly when the two 32-bit numbers agree in their upper \<open>n\<close> bits, for every prefix
  length up to 32, zero included.
\<close>

theorem ip_in_cidr_spec:
  assumes "a < 256" "b < 256" "c < 256" "d < 256" "x < 256" "y < 256" "z < 256" "w < 256" "n \<le> 32"
  shows "ip_in_cidr (dotted x y z w) (dotted a b c d @ ''/'' @ show_nat n) \<longleftrightarrow>
     ipv4 x y z w div 2 ^ (32 - n) = ipv4 a b c d div 2 ^ (32 - n)"
proof -
  have ns: "CHR ''/'' \<notin> set (show_nat m)" for m by (rule show_nat_no_sep) (simp add: is_ascii_digit_def)
  then have nd: "CHR ''/'' \<notin> set (dotted a b c d)" by (simp add: dotted_def)
  have "split_on CHR ''/'' (dotted a b c d @ ''/'' @ show_nat n) = [dotted a b c d, show_nat n]"
    using ns [of n] by (simp add: split_on_append [OF nd] split_on_none)
  moreover have "parse_u32 (show_nat n) = Some n" using assms(9) by (simp add: parse_u32_def parse_show_nat)
  ultimately show ?thesis
    using assms by (auto simp: ip_in_cidr_def Let_def octets_dotted mask_eq be_bytes(2))
qed

theorem ip_in_cidr_spec_witness:
  "ip_in_cidr (dotted 10 1 2 3) (dotted 10 0 0 0 @ ''/'' @ show_nat 8)
   \<and> \<not> ip_in_cidr (dotted 11 1 2 3) (dotted 10 0 0 0 @ ''/'' @ show_nat 8)"
  using ip_in_cidr_spec [of 10 0 0 0 10 1 2 3 8] ip_in_cidr_spec [of 10 0 0 0 11 1 2 3 8]
  by (simp add: ipv4_def)

text \<open>
  The CIDR check accepts what is not an address: parts that do not parse as an octet are dropped
  before the four parts are counted, so an address with extra parts is in the block; and a prefix length
  over 32 makes the mask cover one bit only (in a release build), so an address far away is in the block.
\<close>

theorem ip_in_cidr_accepts_malformed:
  "ip_in_cidr ''10.x.0.999.0.1'' ''10.0.0.1/32'' \<and> ip_in_cidr ''100.1.1.1'' ''10.0.0.1/33''"
proof -
  have oct: "octets ''10.x.0.999.0.1'' = [10, 0, 0, 1]" "octets ''10.0.0.1'' = [10, 0, 0, 1]"
    "octets ''100.1.1.1'' = [100, 1, 1, 1]" by code_simp+
  have sp: "split_on CHR ''/'' ''10.0.0.1/32'' = [''10.0.0.1'', ''32'']"
    "split_on CHR ''/'' ''10.0.0.1/33'' = [''10.0.0.1'', ''33'']" by simp_all
  have bits: "parse_u32 ''32'' = Some 32" "parse_u32 ''33'' = Some 33"
    by (simp_all add: parse_u32_def parse_unsigned_def is_ascii_digit_def digits_val_def digit_val_def)
  have "unat (- 1 :: 32 word) = 4294967295" by (simp add: unsigned_minus_1_eq_mask mask_eq_exp_minus_1)
  then have "unat (32 - word_of_nat 33 :: 32 word) mod 32 = 31" by simp
  then have "cidr_mask 33 = push_bit 31 (- 1)" by (simp add: cidr_mask_def)
  also have "\<dots> = 2147483648" by (subst push_bit_eq_mult) simp
  finally have m: "cidr_mask 33 = 2147483648" .
  have "from_be_bytes [100, 1, 1, 1] AND 2147483648 = from_be_bytes [10, 0, 0, 1] AND 2147483648"
    by (simp add: from_be_bytes_def)
  then show ?thesis unfolding ip_in_cidr_def sp by (simp add: Let_def oct bits m)
qed

end
