(* ===== verification/AuditLog.thy ===== *)
theory AuditLog imports Store "HOL-Library.List_Lexorder" "HOL-Library.Char_ord" begin

text \<open>
  The audit log (\<open>src/src/platform/audit_log.rs\<close>): the table \<open>stackhouse_immutable_audit_log\<close>, the hash
  chain kept across appends, queries, and the integrity check. Time stamps are microseconds; SHA-256, the
  casts between text and \<open>timestamptz\<close> and what the server does with a statement of the set-up batch are
  parameters. Appends are modelled twice: as one call, and as the three accesses to shared state that
  concurrent callers interleave.
\<close>

section \<open>Hash chains\<close>

text \<open>Every entry points back at its predecessor, the first one at \<open>g\<close>.\<close>

fun chained :: "('r \<Rightarrow> 'h) \<Rightarrow> ('r \<Rightarrow> 'h) \<Rightarrow> 'h \<Rightarrow> 'r list \<Rightarrow> bool" where
  "chained prior link g [] \<longleftrightarrow> True"
| "chained prior link g (r # rs) \<longleftrightarrow> prior r = g \<and> chained prior link (link r) rs"

fun chain_tip :: "('r \<Rightarrow> 'h) \<Rightarrow> 'h \<Rightarrow> 'r list \<Rightarrow> 'h" where
  "chain_tip link g [] = g"
| "chain_tip link g (r # rs) = chain_tip link (link r) rs"

lemma chained_append:
  "chained prior link g (rs @ qs) \<longleftrightarrow> chained prior link g rs \<and> chained prior link (chain_tip link g rs) qs"
  by (induction rs arbitrary: g) auto

lemma chain_tip_append: "chain_tip link g (rs @ qs) = chain_tip link (chain_tip link g rs) qs"
  by (induction rs arbitrary: g) auto

lemma chained_take: "chained prior link g rs \<Longrightarrow> chained prior link g (take n rs)"
  by (metis append_take_drop_id chained_append)

text \<open>An append-only log whose writer remembers the tip of the chain.\<close>

locale chained_log =
  fixes entries :: "'s \<Rightarrow> 'r list" and tip :: "'s \<Rightarrow> 'h" and prior :: "'r \<Rightarrow> 'h" and link :: "'r \<Rightarrow> 'h"
    and genesis :: 'h and add :: "'x \<Rightarrow> 's \<Rightarrow> 's"
  assumes add_entry: "\<exists>r. entries (add x s) = entries s @ [r] \<and> prior r = tip s \<and> tip (add x s) = link r"
begin

definition intact :: "'s \<Rightarrow> bool" where
  "intact s \<longleftrightarrow> chained prior link genesis (entries s) \<and> tip s = chain_tip link genesis (entries s)"

lemma intact_add: "intact s \<Longrightarrow> intact (add x s)"
  using add_entry [of x s] by (auto simp: intact_def chained_append chain_tip_append)

lemma intact_adds: "intact s \<Longrightarrow> intact (fold add xs s)"
  by (induction xs arbitrary: s) (auto intro: intact_add)

lemma length_adds: "length (entries (fold add xs s)) = length (entries s) + length xs"
proof (induction xs arbitrary: s)
  case Nil
  then show ?case by simp
next
  case (Cons x xs)
  then show ?case using add_entry [of x s] by auto
qed

lemma take_adds: "take (length (entries s)) (entries (fold add xs s)) = entries s"
proof (induction xs arbitrary: s)
  case Nil
  then show ?case by simp
next
  case (Cons x xs)
  obtain r where r: "entries (add x s) = entries s @ [r]" using add_entry [of x s] by auto
  from Cons [of "add x s"] have "take (length (entries s)) (take (Suc (length (entries s))) (entries (fold add xs (add x s))))
      = take (length (entries s)) (entries s @ [r])" by (simp add: r)
  then show ?case by simp
qed

end

section \<open>The table and its service\<close>

datatype actor_type = User | ApiKey | System | Agent | Admin

fun actor_text :: "actor_type \<Rightarrow> string" where
  "actor_text User = ''user''"
| "actor_text ApiKey = ''api_key''"
| "actor_text System = ''system''"
| "actor_text Agent = ''agent''"
| "actor_text Admin = ''admin''"

record audit_row =
  au_id :: string
  au_tenant :: int
  au_actor :: string
  au_actor_type :: string
  au_action :: string
  au_resource_type :: string
  au_resource_id :: string
  au_details :: json
  au_ip :: string
  au_agent :: string
  au_prev :: string
  au_hash :: string
  au_time :: nat

record audit_entry =
  ae_id :: string
  ae_tenant_id :: int
  ae_actor_id :: string
  ae_actor_type :: actor_type
  ae_action :: string
  ae_resource_type :: string
  ae_resource_id :: string
  ae_details :: json
  ae_ip_address :: "string option"
  ae_user_agent :: "string option"
  ae_prev_hash :: string
  ae_entry_hash :: string
  ae_timestamp :: string

record audit_query =
  aq_tenant_id :: int
  aq_actor_id :: "string option"
  aq_action :: "string option"
  aq_resource_type :: "string option"
  aq_from :: "string option"
  aq_to :: "string option"
  aq_limit :: nat
  aq_offset :: nat

record audit_env =
  sha256_hex :: "string \<Rightarrow> string"
  parse_tz :: "string \<Rightarrow> nat option"
  show_tz :: "nat \<Rightarrow> string"

text \<open>The state: the rows in the order of insertion, and the hash kept in memory.\<close>

record audit_log =
  au_rows :: "audit_row list"
  last_hash :: string

definition genesis :: string where
  "genesis = ''genesis''"

text \<open>The arguments of one \<open>append\<close>, with the id and the times it draws.\<close>

record audit_call =
  ac_uuid :: string
  ac_millis :: int
  ac_db_now :: nat
  ac_rfc3339 :: string
  ac_tenant :: int
  ac_actor :: string
  ac_actor_type :: actor_type
  ac_action :: string
  ac_resource_type :: string
  ac_resource_id :: string
  ac_details :: json
  ac_ip :: "string option"
  ac_ua :: "string option"

definition entry_data :: "string \<Rightarrow> audit_call \<Rightarrow> string" where
  "entry_data prev c = join '':'' [prev, show_int (ac_tenant c), ac_actor c, ac_action c,
     ac_resource_type c, ac_resource_id c, show_int (ac_millis c)]"

definition audit_row_of :: "audit_env \<Rightarrow> string \<Rightarrow> audit_call \<Rightarrow> audit_row" where
  "audit_row_of e prev c =
     \<lparr>au_id = ac_uuid c, au_tenant = ac_tenant c, au_actor = ac_actor c,
      au_actor_type = actor_text (ac_actor_type c), au_action = ac_action c,
      au_resource_type = ac_resource_type c, au_resource_id = ac_resource_id c, au_details = ac_details c,
      au_ip = unwrap_or [] (ac_ip c), au_agent = unwrap_or [] (ac_ua c), au_prev = prev,
      au_hash = sha256_hex e (entry_data prev c), au_time = ac_db_now c\<rparr>"

definition insert_audit :: "audit_row \<Rightarrow> audit_log \<Rightarrow> (unit \<times> audit_log) result" where
  "insert_audit r s =
     (if au_id r \<in> au_id ` set (au_rows s) then Inl (Database ''duplicate key'')
      else Inr ((), s\<lparr>au_rows := au_rows s @ [r]\<rparr>))"

definition append_audit :: "audit_env \<Rightarrow> audit_call \<Rightarrow> (audit_log, audit_entry) io" where
  "append_audit e c =
     bind_io (gets last_hash) (\<lambda>prev.
     let r = audit_row_of e prev c in
     bind_io (stmt (insert_audit r)) (\<lambda>_.
     bind_io (modify (\<lambda>s. s\<lparr>last_hash := au_hash r\<rparr>)) (\<lambda>_.
     ret \<lparr>ae_id = ac_uuid c, ae_tenant_id = ac_tenant c, ae_actor_id = ac_actor c,
       ae_actor_type = ac_actor_type c, ae_action = ac_action c, ae_resource_type = ac_resource_type c,
       ae_resource_id = ac_resource_id c, ae_details = ac_details c, ae_ip_address = ac_ip c,
       ae_user_agent = ac_ua c, ae_prev_hash = prev, ae_entry_hash = au_hash r,
       ae_timestamp = ac_rfc3339 c\<rparr>)))"

definition load_last_hash ::
  "(string \<Rightarrow> json option) \<Rightarrow> (string \<Rightarrow> string) \<Rightarrow> (audit_log, unit) io" where
  "load_last_hash p b =
     bind_io (query p b (\<lambda>s. map (\<lambda>r. [(''entry_hash'', cell_text (au_hash r))])
         (take 1 (rev (sort_key au_time (au_rows s))))))
       (\<lambda>rows. case rows of
           [] \<Rightarrow> ret ()
         | row # _ \<Rightarrow> modify (\<lambda>s. s\<lparr>last_hash := unwrap_or genesis (col_str row ''entry_hash'')\<rparr>))"

text \<open>The query: its conditions, the order, and the page.\<close>

definition tz_arg :: "audit_env \<Rightarrow> string option \<Rightarrow> nat option result" where
  "tz_arg e x =
     (case x of
        None \<Rightarrow> Inr None
      | Some s \<Rightarrow> (case parse_tz e s of
            None \<Rightarrow> Inl (Database ''invalid input syntax for type timestamp with time zone'')
          | Some t \<Rightarrow> Inr (Some t)))"

definition query_matches :: "audit_query \<Rightarrow> nat option \<Rightarrow> nat option \<Rightarrow> audit_row \<Rightarrow> bool" where
  "query_matches q from to r \<longleftrightarrow>
     au_tenant r = aq_tenant_id q
     \<and> (case aq_actor_id q of None \<Rightarrow> True | Some a \<Rightarrow> au_actor r = a)
     \<and> (case aq_action q of None \<Rightarrow> True | Some a \<Rightarrow> au_action r = a)
     \<and> (case aq_resource_type q of None \<Rightarrow> True | Some a \<Rightarrow> au_resource_type r = a)
     \<and> (case from of None \<Rightarrow> True | Some t \<Rightarrow> t \<le> au_time r)
     \<and> (case to of None \<Rightarrow> True | Some t \<Rightarrow> au_time r \<le> t)"

definition query_cells :: "audit_env \<Rightarrow> audit_row \<Rightarrow> (string \<times> cell) list" where
  "query_cells e r =
     [(''id'', cell_text (au_id r)), (''actor_id'', cell_text (au_actor r)),
      (''actor_type'', cell_text (au_actor_type r)), (''action'', cell_text (au_action r)),
      (''resource_type'', cell_text (au_resource_type r)), (''resource_id'', cell_text (au_resource_id r)),
      (''details'', cell_jsonb (au_details r)), (''timestamp'', cell_time (show_tz e (au_time r)))]"

definition audit_query_page ::
  "audit_env \<Rightarrow> (string \<Rightarrow> json option) \<Rightarrow> (string \<Rightarrow> string) \<Rightarrow> audit_query \<Rightarrow> (audit_log, json list) io" where
  "audit_query_page e p b q =
     bind_io (stmt (\<lambda>s.
         and_then (tz_arg e (aq_from q)) (\<lambda>from.
         and_then (tz_arg e (aq_to q)) (\<lambda>to.
         Inr (map (\<lambda>r. json_row p b (query_cells e r))
             (take (aq_limit q) (drop (aq_offset q)
               (rev (sort_key au_time (filter (query_matches q from to) (au_rows s)))))), s)))))
       (\<lambda>rows. ret (map (\<lambda>r. JObject (sort_key fst r)) rows))"

text \<open>The loop of the integrity check: the verdict, the count, and the expected hash it ends with.\<close>

fun verify_loop :: "row list \<Rightarrow> string \<Rightarrow> nat \<Rightarrow> bool \<times> nat \<times> string" where
  "verify_loop [] expected checked = (True, checked, expected)"
| "verify_loop (row # rows) expected checked =
     (if unwrap_or [] (col_str row ''prev_hash'') \<noteq> expected then (False, checked, expected)
      else verify_loop rows (unwrap_or [] (col_str row ''entry_hash'')) (Suc checked))"

definition hash_cells :: "audit_row \<Rightarrow> (string \<times> cell) list" where
  "hash_cells r = [(''prev_hash'', cell_text (au_prev r)), (''entry_hash'', cell_text (au_hash r))]"

definition tenant_log :: "int \<Rightarrow> audit_log \<Rightarrow> audit_row list" where
  "tenant_log tenant s = sort_key au_time (filter (\<lambda>r. au_tenant r = tenant) (au_rows s))"

definition verify_integrity ::
  "(string \<Rightarrow> json option) \<Rightarrow> (string \<Rightarrow> string) \<Rightarrow> int \<Rightarrow> nat \<Rightarrow> (audit_log, bool \<times> nat \<times> string) io" where
  "verify_integrity p b tenant limit =
     bind_io (query p b (\<lambda>s. map hash_cells (take limit (tenant_log tenant s))))
       (\<lambda>rows. ret (verify_loop rows genesis 0))"

section \<open>The set-up batch\<close>

text \<open>The text of the batch \<open>initialize_tables\<close> sends, cut at its semicolons, line by line.\<close>

definition audit_schema_parts :: "string list" where
  "audit_schema_parts =
  [join [CHR 0x0A]
     [[],
      ''            CREATE TABLE IF NOT EXISTS stackhouse_immutable_audit_log ('',
      ''                id TEXT PRIMARY KEY,'',
      ''                tenant_id BIGINT NOT NULL,'',
      ''                actor_id TEXT NOT NULL,'',
      ''                actor_type TEXT NOT NULL,'',
      ''                action TEXT NOT NULL,'',
      ''                resource_type TEXT NOT NULL,'',
      ''                resource_id TEXT NOT NULL DEFAULT '' @ [CHR 0x27] @ [CHR 0x27] @ '','',
      ''                details JSONB DEFAULT '' @ [CHR 0x27] @ ''{}'' @ [CHR 0x27] @ '','',
      ''                ip_address TEXT,'',
      ''                user_agent TEXT,'',
      ''                prev_hash TEXT NOT NULL,'',
      ''                entry_hash TEXT NOT NULL,'',
      ''                timestamp TIMESTAMPTZ DEFAULT NOW()'',
      ''            )''],
   join [CHR 0x0A]
     [[],
      ''            CREATE INDEX IF NOT EXISTS idx_audit_tenant_time ON stackhouse_immutable_audit_log(tenant_id, timestamp)''],
   join [CHR 0x0A]
     [[],
      ''            CREATE INDEX IF NOT EXISTS idx_audit_actor ON stackhouse_immutable_audit_log(actor_id)''],
   join [CHR 0x0A]
     [[],
      ''            CREATE INDEX IF NOT EXISTS idx_audit_action ON stackhouse_immutable_audit_log(action)''],
   join [CHR 0x0A]
     [[],
      ''            CREATE INDEX IF NOT EXISTS idx_audit_resource ON stackhouse_immutable_audit_log(resource_type, resource_id)''],
   join [CHR 0x0A]
     [[],
      [],
      ''            -- Prevent updates and deletes via a trigger'',
      ''            CREATE OR REPLACE FUNCTION prevent_audit_modification() RETURNS TRIGGER AS $$'',
      ''            BEGIN'',
      ''                RAISE EXCEPTION '' @ [CHR 0x27] @ ''Audit log entries cannot be modified or deleted'' @ [CHR 0x27]],
   join [CHR 0x0A]
     [[],
      ''                RETURN NULL''],
   join [CHR 0x0A]
     [[],
      ''            END''],
   join [CHR 0x0A]
     [[],
      ''            $$ LANGUAGE plpgsql''],
   join [CHR 0x0A]
     [[],
      [],
      ''            DROP TRIGGER IF EXISTS audit_immutable_trigger ON stackhouse_immutable_audit_log''],
   join [CHR 0x0A]
     [[],
      ''            CREATE TRIGGER audit_immutable_trigger'',
      ''                BEFORE UPDATE OR DELETE ON stackhouse_immutable_audit_log'',
      ''                FOR EACH ROW EXECUTE FUNCTION prevent_audit_modification()''],
   join [CHR 0x0A]
     [[],
      ''        '']]"

definition audit_schema_sql :: string where
  "audit_schema_sql = join '';'' audit_schema_parts"

definition initialize_tables :: "(string \<Rightarrow> audit_log \<Rightarrow> audit_log result) \<Rightarrow> (audit_log, unit) io" where
  "initialize_tables run = execute_batch run audit_schema_sql"

definition new_audit_log ::
  "(string \<Rightarrow> audit_log \<Rightarrow> audit_log result) \<Rightarrow> (string \<Rightarrow> json option) \<Rightarrow> (string \<Rightarrow> string)
   \<Rightarrow> (audit_log, unit) io" where
  "new_audit_log run p b =
     bind_io (modify (\<lambda>s. s\<lparr>last_hash := genesis\<rparr>)) (\<lambda>_.
     bind_io (initialize_tables run) (\<lambda>_. load_last_hash p b))"

text \<open>The number of dollar-quote delimiters of a statement: an odd one leaves a literal open.\<close>

fun dollar_quotes :: "string \<Rightarrow> nat" where
  "dollar_quotes (c # d # s) =
     (if c = CHR 0x24 \<and> d = CHR 0x24 then Suc (dollar_quotes s) else dollar_quotes (d # s))"
| "dollar_quotes s = 0"

lemma parts_split: "split_on CHR '';'' audit_schema_sql = audit_schema_parts"
  unfolding audit_schema_sql_def
  by (rule split_on_join) (simp_all add: audit_schema_parts_def)

lemma part5: "odd (dollar_quotes (trim (audit_schema_parts ! 5)))"
  by (simp add: audit_schema_parts_def trim_def is_whitespace_def)

lemma part5_sent: "trim (audit_schema_parts ! 5) \<in> set (batch_statements audit_schema_sql)"
proof -
  have "5 < length audit_schema_parts" by (simp add: audit_schema_parts_def)
  then have "trim (audit_schema_parts ! 5) \<in> set (map trim audit_schema_parts)" by simp
  moreover have "trim (audit_schema_parts ! 5) \<noteq> []" using part5 by (metis dollar_quotes.simps(2) even_zero)
  ultimately show ?thesis by (simp only: batch_statements_def parts_split set_filter mem_Collect_eq simp_thms)
qed

lemma for_io_stops:
  assumes "x \<in> set xs" "\<And>acc d. \<exists>err d'. f x acc d = (Inl err, d')"
  shows "\<exists>err d'. for_io f xs acc d = (Inl err, d')"
  using assms(1)
proof (induction xs arbitrary: acc d)
  case Nil
  then show ?case by simp
next
  case (Cons y ys)
  show ?case
  proof (cases "f y acc d")
    case (Pair r d1)
    show ?thesis
    proof (cases r)
      case (Inl err)
      with Pair show ?thesis by (simp add: bind_io_def)
    next
      case (Inr acc')
      with Pair assms(2) [of acc d] have "x \<noteq> y" by auto
      with Cons have "\<exists>err d'. for_io f ys acc' d1 = (Inl err, d')" by simp
      with Pair Inr show ?thesis by (auto simp: bind_io_def)
    qed
  qed
qed

text \<open>
  The service cannot be started on a server that rejects a statement with an open literal: the batch
  is cut at every semicolon, also at those inside the dollar-quoted body of the trigger function, so one of
  the statements sent has a single dollar-quote delimiter, and the constructor returns that error.
\<close>

theorem audit_log_never_starts:
  assumes "\<And>q t. odd (dollar_quotes q) \<Longrightarrow> \<exists>err. run q t = Inl err"
  shows "\<exists>err d'. new_audit_log run p b d = (Inl err, d')"
proof -
  let ?q = "trim (audit_schema_parts ! 5)"
  have stop: "\<exists>err d'. (stmt (\<lambda>t. map_sum id (\<lambda>t'. ((), t')) (run ?q t)) :: (audit_log, unit) io) d0 = (Inl err, d')" for d0
    using assms [OF part5, of "st d0"] by (auto simp: stmt_def Let_def)
  have "\<exists>err d'. initialize_tables run d0 = (Inl err, d')" for d0
    unfolding initialize_tables_def execute_batch_def by (rule for_io_stops [OF part5_sent]) (rule stop)
  then obtain err d' where "initialize_tables run (d\<lparr>st := (st d)\<lparr>last_hash := genesis\<rparr>\<rparr>) = (Inl err, d')" by blast
  then show ?thesis by (simp add: new_audit_log_def bind_io_def modify_def)
qed

theorem audit_log_never_starts_witness:
  "\<exists>err d'. new_audit_log (\<lambda>q t. if odd (dollar_quotes q) then Inl (Database ''unterminated dollar-quoted string'') else Inr t)
     (\<lambda>_. None) id (up \<lparr>au_rows = [], last_hash = []\<rparr>) = (Inl err, d')"
  by (rule audit_log_never_starts) simp

section \<open>Appends keep the chain\<close>

definition logged :: "audit_env \<Rightarrow> audit_call \<Rightarrow> audit_log \<Rightarrow> audit_log" where
  "logged e c s =
     (let r = audit_row_of e (last_hash s) c in s\<lparr>au_rows := au_rows s @ [r], last_hash := au_hash r\<rparr>)"

lemma audit_row_of_hashes [simp]:
  "au_prev (audit_row_of e prev c) = prev" "au_tenant (audit_row_of e prev c) = ac_tenant c"
  "au_hash (audit_row_of e prev c) = sha256_hex e (entry_data prev c)" "au_time (audit_row_of e prev c) = ac_db_now c"
  by (simp_all add: audit_row_of_def)

interpretation audit: chained_log au_rows last_hash au_prev au_hash genesis "logged e" for e
  by unfold_locales (simp add: logged_def Let_def)

definition audit_intact :: "audit_log \<Rightarrow> bool" where
  "audit_intact s \<longleftrightarrow>
     chained au_prev au_hash genesis (au_rows s) \<and> last_hash s = chain_tip au_hash genesis (au_rows s)"

lemma audit_intact_eq: "audit_intact s = audit.intact s"
  by (simp add: audit_intact_def audit.intact_def)

text \<open>Whatever fails, an append has no effect or that of \<open>logged\<close>.\<close>

lemma append_audit_wp:
  "wp (append_audit e c) (\<lambda>r s'. case r of Inl _ \<Rightarrow> s' = s
     | Inr a \<Rightarrow> s' = logged e c s \<and> ae_prev_hash a = last_hash s \<and> ae_entry_hash a = last_hash s') s"
  unfolding append_audit_def Let_def
  by (auto intro!: wp_intro simp: insert_audit_def logged_def Let_def split: if_splits)

lemma append_result:
  assumes "append_audit e c d = (r, d')"
  shows "case r of Inl _ \<Rightarrow> st d' = st d
     | Inr a \<Rightarrow> st d' = logged e c (st d) \<and> ae_prev_hash a = last_hash (st d) \<and> ae_entry_hash a = last_hash (st d')"
  by (rule wp_D [OF append_audit_wp assms])

text \<open>A client that appends one entry after the other and goes on after a failure.\<close>

definition append_step :: "audit_env \<Rightarrow> audit_call \<Rightarrow> audit_call list \<Rightarrow> (audit_log, audit_call list) io" where
  "append_step e c acc = bind_io (attempt (append_audit e c)) (\<lambda>r. ret (case r of Inl _ \<Rightarrow> acc | Inr _ \<Rightarrow> acc @ [c]))"

lemma append_step_eq:
  "append_audit e c d = (q, d1) \<Longrightarrow> append_step e c acc d = (Inr (case q of Inl _ \<Rightarrow> acc | Inr _ \<Rightarrow> acc @ [c]), d1)"
  by (simp add: append_step_def bind_io_def attempt_def ret_def)

definition append_all :: "audit_env \<Rightarrow> audit_call list \<Rightarrow> (audit_log, audit_call list) io" where
  "append_all e cs = for_io (append_step e) cs []"

lemma append_all_logged:
  assumes "for_io (append_step e) cs acc d = (r, d')"
  shows "\<exists>done'. r = Inr (acc @ done') \<and> set done' \<subseteq> set cs \<and> st d' = fold (logged e) done' (st d)"
  using assms
proof (induction cs arbitrary: acc d)
  case Nil
  then show ?case by simp
next
  case (Cons c cs)
  obtain q d1 where q: "append_audit e c d = (q, d1)" by (cases "append_audit e c d")
  from append_result [OF q] show ?case
  proof (cases q)
    case (Inl err)
    with append_step_eq [OF q] Cons.prems have "for_io (append_step e) cs acc d1 = (r, d')"
      by (simp add: bind_io_def)
    from Cons.IH [OF this] append_result [OF q] Inl show ?thesis by auto
  next
    case (Inr a)
    with append_step_eq [OF q] Cons.prems have "for_io (append_step e) cs (acc @ [c]) d1 = (r, d')"
      by (simp add: bind_io_def)
    from Cons.IH [OF this] obtain dn where dn: "r = Inr ((acc @ [c]) @ dn)" "set dn \<subseteq> set cs"
      "st d' = fold (logged e) dn (st d1)" by blast
    with append_result [OF q] Inr show ?thesis by (intro exI [of _ "c # dn"]) auto
  qed
qed

text \<open>
  C8. One writer keeps the log append-only and the chain intact, whatever calls to the database fail: the
  rows there were are still there and in front, one row is added per append that reported success, every
  entry points back at the one before it, and the hash in memory is that of the last row.
\<close>

theorem append_all_keeps_chain:
  assumes "audit_intact (st d)" "append_all e cs d = (r, d')"
  shows "audit_intact (st d') \<and> take (length (au_rows (st d))) (au_rows (st d')) = au_rows (st d)
    \<and> (\<exists>ok. r = Inr ok \<and> length (au_rows (st d')) = length (au_rows (st d)) + length ok)"
proof -
  from append_all_logged [OF assms(2) [unfolded append_all_def]] obtain ok
    where ok: "r = Inr ok" "st d' = fold (logged e) ok (st d)" by auto
  then show ?thesis
    using assms(1) audit.intact_adds [of "st d" e ok] audit.length_adds [of e ok "st d"]
      audit.take_adds [of "st d" e ok]
    by (simp add: audit_intact_eq)
qed

definition demo_audit_env :: audit_env where
  "demo_audit_env = \<lparr>sha256_hex = (\<lambda>s. CHR ''h'' # s), parse_tz = (\<lambda>_. None), show_tz = show_nat\<rparr>"

definition demo_call :: "string \<Rightarrow> int \<Rightarrow> nat \<Rightarrow> audit_call" where
  "demo_call i t now = \<lparr>ac_uuid = i, ac_millis = 5, ac_db_now = now, ac_rfc3339 = [], ac_tenant = t, ac_actor = ''ann'',
     ac_actor_type = User, ac_action = ''login'', ac_resource_type = ''session'', ac_resource_id = [],
     ac_details = JNull, ac_ip = None, ac_ua = None\<rparr>"

theorem append_all_keeps_chain_witness:
  "\<exists>r d'. append_all demo_audit_env [demo_call ''a'' 1 10, demo_call ''a'' 1 20, demo_call ''b'' 1 30]
       \<lparr>st = \<lparr>au_rows = [], last_hash = genesis\<rparr>, outages = [False, True]\<rparr> = (r, d')
     \<and> audit_intact (st d')"
proof -
  let ?d = "\<lparr>st = \<lparr>au_rows = [], last_hash = genesis\<rparr>, outages = [False, True]\<rparr> :: audit_log db"
  obtain r d' where run: "append_all demo_audit_env [demo_call ''a'' 1 10, demo_call ''a'' 1 20, demo_call ''b'' 1 30] ?d = (r, d')"
    by (cases "append_all demo_audit_env [demo_call ''a'' 1 10, demo_call ''a'' 1 20, demo_call ''b'' 1 30] ?d")
  from append_all_keeps_chain [OF _ run] run show ?thesis by (simp add: audit_intact_def)
qed

section \<open>The integrity check\<close>

lemma verify_loop_rows:
  assumes "list_all (\<lambda>r. plain (au_prev r) \<and> plain (au_hash r)) rs" "chained au_prev au_hash g rs"
  shows "verify_loop (map (json_row p b) (map hash_cells rs)) g n = (True, n + length rs, chain_tip au_hash g rs)"
  using assms
  by (induction rs arbitrary: g n) (simp_all add: col_str_def json_row_def hash_cells_def)

lemma verify_integrity_up:
  "verify_integrity p b t limit (up s) =
     (Inr (verify_loop (map (json_row p b) (map hash_cells (take limit (tenant_log t s)))) genesis 0), up s)"
  by (simp add: verify_integrity_def)

lemma tenant_log_single:
  assumes "list_all (\<lambda>r. au_tenant r = t) (au_rows s)" "sorted (map au_time (au_rows s))"
  shows "tenant_log t s = au_rows s"
proof -
  have "filter (\<lambda>r. au_tenant r = t) (au_rows s) = au_rows s" using assms(1) by (simp add: list_all_iff)
  with assms(2) show ?thesis by (simp add: tenant_log_def sort_key_id_if_sorted)
qed

text \<open>
  On an installation with one tenant the check is right: an intact log whose rows are in the order of
  their time stamps is reported valid, with the number of rows looked at and the hash of the last one.
\<close>

theorem verify_integrity_one_tenant:
  assumes "audit_intact s" "list_all (\<lambda>r. au_tenant r = t \<and> plain (au_prev r) \<and> plain (au_hash r)) (au_rows s)"
    and "sorted (map au_time (au_rows s))"
  shows "verify_integrity p b t limit (up s) =
     (Inr (True, min limit (length (au_rows s)), chain_tip au_hash genesis (take limit (au_rows s))), up s)"
proof -
  have log: "tenant_log t s = au_rows s" by (rule tenant_log_single) (use assms in \<open>auto simp: list_all_iff\<close>)
  have "list_all (\<lambda>r. plain (au_prev r) \<and> plain (au_hash r)) (take limit (au_rows s))"
    using assms(2) by (auto simp: list_all_iff dest: in_set_takeD)
  moreover have "chained au_prev au_hash genesis (take limit (au_rows s))"
    using assms(1) by (simp add: audit_intact_def chained_take)
  ultimately show ?thesis by (simp add: verify_integrity_up log verify_loop_rows min.commute del: map_map)
qed

theorem verify_integrity_one_tenant_witness:
  "\<exists>s. au_rows s \<noteq> [] \<and> (\<exists>h. verify_integrity (\<lambda>_. None) id 1 10 (up s) = (Inr (True, 1, h), up s))"
proof -
  let ?s = "logged demo_audit_env (demo_call ''a'' 1 10) \<lparr>au_rows = [], last_hash = genesis\<rparr>"
  have "audit_intact ?s" by (simp add: audit_intact_def logged_def Let_def)
  then have "verify_integrity (\<lambda>_. None) id 1 10 (up ?s) =
      (Inr (True, min 10 (length (au_rows ?s)), chain_tip au_hash genesis (take 10 (au_rows ?s))), up ?s)"
    by (rule verify_integrity_one_tenant)
      (simp_all add: logged_def Let_def genesis_def plain_Cons demo_audit_env_def demo_call_def)
  moreover have "length (au_rows ?s) = 1" "au_rows ?s \<noteq> []" by (simp_all add: logged_def Let_def)
  ultimately show ?thesis by (metis One_nat_def min.absorb2 one_le_numeral)
qed

text \<open>
  With more than one tenant the check raises false alarms. The chain runs through all tenants but the
  check looks at one tenant's rows only: on an intact log without tampering, every tenant except the one
  that wrote the first row of the log is told that its log is invalid, at its very first row.
\<close>

theorem verify_integrity_false_alarm:
  assumes "audit_intact s" "au_rows s = r0 # rs" "au_tenant r0 \<noteq> t"
    and "list_all (\<lambda>r. plain (au_prev r) \<and> au_hash r \<noteq> genesis) (au_rows s)" "list_ex (\<lambda>r. au_tenant r = t) rs"
  shows "verify_integrity p b t (Suc n) (up s) = (Inr (False, 0, genesis), up s)"
proof -
  have later: "au_prev r \<noteq> genesis" if "chained au_prev au_hash g qs" "g \<noteq> genesis"
    "list_all (\<lambda>r. au_hash r \<noteq> genesis) qs" "r \<in> set qs" for g qs r
    using that by (induction qs arbitrary: g) auto
  from assms(5) obtain r1 where "r1 \<in> set rs" "au_tenant r1 = t" by (auto simp: list_ex_iff)
  then have "r1 \<in> set (tenant_log t s)" using assms(2) by (simp add: tenant_log_def)
  then obtain r qs where r: "tenant_log t s = r # qs" by (cases "tenant_log t s") auto
  then have "r \<in> set (tenant_log t s)" by simp
  then have "r \<in> set (au_rows s)" "au_tenant r = t" by (simp_all add: tenant_log_def)
  with assms(2,3) have "r \<in> set rs" by auto
  moreover have "chained au_prev au_hash (au_hash r0) rs" using assms(1,2) by (simp add: audit_intact_def)
  ultimately have "au_prev r \<noteq> genesis" using later [of "au_hash r0" rs r] assms(2,4) by (auto simp: list_all_iff)
  moreover have "plain (au_prev r)" using assms(4) \<open>r \<in> set (au_rows s)\<close> by (auto simp: list_all_iff)
  ultimately show ?thesis
    by (simp add: verify_integrity_up r col_str_def json_row_def hash_cells_def)
qed

theorem verify_integrity_false_alarm_witness:
  "\<exists>s. audit_intact s \<and> verify_integrity (\<lambda>_. None) id 2 10 (up s) = (Inr (False, 0, genesis), up s)"
proof -
  let ?s = "fold (logged demo_audit_env) [demo_call ''a'' 1 10, demo_call ''b'' 2 20] \<lparr>au_rows = [], last_hash = genesis\<rparr>"
  have i: "audit_intact ?s" by (simp add: audit_intact_def logged_def Let_def)
  have "verify_integrity (\<lambda>_. None) id 2 (Suc 9) (up ?s) = (Inr (False, 0, genesis), up ?s)"
    by (rule verify_integrity_false_alarm [OF i, of "audit_row_of demo_audit_env genesis (demo_call ''a'' 1 10)"
          "[audit_row_of demo_audit_env (CHR ''h'' # entry_data genesis (demo_call ''a'' 1 10)) (demo_call ''b'' 2 20)]"])
      (simp_all add: logged_def Let_def genesis_def plain_Cons demo_audit_env_def demo_call_def)
  with i show ?thesis by (intro exI [of _ ?s]) simp
qed

text \<open>
  The check does not look at what was logged: any change of the rows that leaves their tenant, time
  stamp and two hash columns alone - another actor, action, resource or details - and the removal of rows
  after the checked ones go unnoticed.
\<close>

theorem verify_integrity_ignores_content:
  assumes "\<And>r. au_tenant (f r) = au_tenant r \<and> au_time (f r) = au_time r \<and> au_prev (f r) = au_prev r \<and> au_hash (f r) = au_hash r"
  shows "fst (verify_integrity p b t limit (up \<lparr>au_rows = map f rows, last_hash = h\<rparr>))
       = fst (verify_integrity p b t limit (up \<lparr>au_rows = rows, last_hash = h'\<rparr>))"
proof -
  have ins: "insort_key au_time (f r) (map f rs) = map f (insort_key au_time r rs)" for r rs
    using assms by (induction rs) auto
  have "sort_key au_time (map f rs) = map f (sort_key au_time rs)" for rs
    by (induction rs) (simp_all add: ins)
  moreover have "filter (\<lambda>r. au_tenant r = t) (map f rows) = map f (filter (\<lambda>r. au_tenant r = t) rows)"
    using assms by (induction rows) auto
  moreover have "hash_cells (f r) = hash_cells r" for r using assms by (simp add: hash_cells_def)
  ultimately show ?thesis by (simp add: verify_integrity_up tenant_log_def take_map comp_def)
qed

theorem verify_integrity_ignores_content_witness:
  "let rows = [audit_row_of demo_audit_env genesis (demo_call ''a'' 1 10)] in
   fst (verify_integrity (\<lambda>_. None) id 1 10 (up \<lparr>au_rows = map (au_action_update (\<lambda>_. ''none'')) rows, last_hash = genesis\<rparr>))
     = fst (verify_integrity (\<lambda>_. None) id 1 10 (up \<lparr>au_rows = rows, last_hash = genesis\<rparr>))"
  unfolding Let_def by (rule verify_integrity_ignores_content) simp

section \<open>Concurrent appends\<close>

text \<open>
  \<open>append\<close> takes the lock on the hash for reading, releases it, inserts the row, and takes the lock for
  writing: the three accesses of two callers may interleave. A state is the log with the calls that have
  read the hash and the rows that are inserted but whose hash is not yet published.
\<close>

record audit_conc =
  shared :: audit_log
  reading :: "(audit_call \<times> string) list"
  publishing :: "audit_row list"

inductive audit_step :: "audit_env \<Rightarrow> audit_conc \<Rightarrow> audit_conc \<Rightarrow> bool" for e where
  read_hash: "audit_step e x (x\<lparr>reading := (c, last_hash (shared x)) # reading x\<rparr>)"
| insert_row: "(c, prev) \<in> set (reading x) \<Longrightarrow> insert_audit (audit_row_of e prev c) (shared x) = Inr ((), s)
    \<Longrightarrow> audit_step e x (x\<lparr>shared := s, reading := remove1 (c, prev) (reading x),
          publishing := audit_row_of e prev c # publishing x\<rparr>)"
| give_up: "cp \<in> set (reading x) \<Longrightarrow> audit_step e x (x\<lparr>reading := remove1 cp (reading x)\<rparr>)"
| publish: "r \<in> set (publishing x)
    \<Longrightarrow> audit_step e x (x\<lparr>shared := (shared x)\<lparr>last_hash := au_hash r\<rparr>, publishing := remove1 r (publishing x)\<rparr>)"

definition audit_start :: audit_conc where
  "audit_start = \<lparr>shared = \<lparr>au_rows = [], last_hash = genesis\<rparr>, reading = [], publishing = []\<rparr>"

text \<open>The hashes a caller can have seen.\<close>

definition known :: "audit_row list \<Rightarrow> string set" where
  "known rs = insert genesis (au_hash ` set rs)"

fun links_back :: "string set \<Rightarrow> audit_row list \<Rightarrow> bool" where
  "links_back K [] \<longleftrightarrow> True"
| "links_back K (r # rs) \<longleftrightarrow> au_prev r \<in> K \<and> links_back (insert (au_hash r) K) rs"

lemma links_back_snoc: "links_back K (rs @ [r]) \<longleftrightarrow> links_back K rs \<and> au_prev r \<in> K \<union> au_hash ` set rs"
  by (induction rs arbitrary: K) auto

definition conc_ok :: "audit_conc \<Rightarrow> bool" where
  "conc_ok x \<longleftrightarrow> links_back {genesis} (au_rows (shared x))
     \<and> last_hash (shared x) \<in> known (au_rows (shared x))
     \<and> snd ` set (reading x) \<subseteq> known (au_rows (shared x))
     \<and> au_hash ` set (publishing x) \<subseteq> known (au_rows (shared x))"

lemma conc_ok_step: "audit_step e x y \<Longrightarrow> conc_ok x \<Longrightarrow> conc_ok y"
proof (induction rule: audit_step.induct)
  case (read_hash x c)
  then show ?case by (simp add: conc_ok_def)
next
  case (insert_row c prev x s)
  let ?r = "audit_row_of e prev c"
  have s: "au_rows s = au_rows (shared x) @ [?r]" "last_hash s = last_hash (shared x)"
    using insert_row(2) by (auto simp: insert_audit_def split: if_splits)
  have known: "known (au_rows s) = insert (au_hash ?r) (known (au_rows (shared x)))" by (auto simp: known_def s(1))
  from insert_row have ok: "links_back {genesis} (au_rows (shared x))" "last_hash (shared x) \<in> known (au_rows (shared x))"
    "snd ` set (reading x) \<subseteq> known (au_rows (shared x))" "au_hash ` set (publishing x) \<subseteq> known (au_rows (shared x))"
    by (simp_all add: conc_ok_def)
  have prev: "prev \<in> known (au_rows (shared x))" using ok(3) insert_row(1) by (metis image_subset_iff snd_conv)
  then have "links_back {genesis} (au_rows s)" using ok(1) by (simp add: s(1) links_back_snoc known_def)
  moreover have "snd ` set (remove1 (c, prev) (reading x)) \<subseteq> known (au_rows s)"
    using ok(3) set_remove1_subset [of "(c, prev)" "reading x"] unfolding known by blast
  moreover have "au_hash ` set (?r # publishing x) \<subseteq> known (au_rows s)" using ok(4) unfolding known by auto
  moreover have "last_hash s \<in> known (au_rows s)" using ok(2) unfolding known s(2) by simp
  ultimately show ?case by (simp add: conc_ok_def)
next
  case (give_up cp x)
  then show ?case using set_remove1_subset [of cp "reading x"] by (force simp: conc_ok_def)
next
  case (publish r x)
  then show ?case using set_remove1_subset [of r "publishing x"] by (force simp: conc_ok_def)
qed

lemma links_back_nth: "links_back K rs \<Longrightarrow> i < length rs \<Longrightarrow> au_prev (rs ! i) \<in> K \<union> au_hash ` set (take i rs)"
proof (induction rs arbitrary: K i)
  case Nil
  then show ?case by simp
next
  case (Cons r rs)
  then show ?case by (cases i) auto
qed

text \<open>
  C9. Under every interleaving of concurrent appends each row points back at the start of the log or at a
  row inserted before it: the rows form a tree rooted at the start. They need not form a chain: already two
  overlapping calls can give two rows with the same predecessor.
\<close>

theorem concurrent_appends_form_a_tree:
  "(\<forall>x. (audit_step e)\<^sup>*\<^sup>* audit_start x \<longrightarrow> (\<forall>i < length (au_rows (shared x)).
      au_prev (au_rows (shared x) ! i) \<in> insert genesis (au_hash ` set (take i (au_rows (shared x))))))
   \<and> (\<exists>x. (audit_step e)\<^sup>*\<^sup>* audit_start x \<and> reading x = [] \<and> publishing x = [] \<and> length (au_rows (shared x)) = 2
      \<and> au_prev (au_rows (shared x) ! 0) = au_prev (au_rows (shared x) ! 1))"
proof
  have "conc_ok x" if "(audit_step e)\<^sup>*\<^sup>* audit_start x" for x
    using that
  proof (induction rule: rtranclp_induct)
    case base
    then show ?case by (simp add: conc_ok_def audit_start_def known_def)
  next
    case (step y z)
    then show ?case by (auto intro: conc_ok_step)
  qed
  then show "\<forall>x. (audit_step e)\<^sup>*\<^sup>* audit_start x \<longrightarrow> (\<forall>i < length (au_rows (shared x)).
      au_prev (au_rows (shared x) ! i) \<in> insert genesis (au_hash ` set (take i (au_rows (shared x)))))"
    using links_back_nth [of "{genesis}"] by (fastforce simp: conc_ok_def)
next
  let ?c = "demo_call ''a'' 1 10" and ?c' = "demo_call ''b'' 1 20"
  let ?r = "audit_row_of e genesis ?c" and ?r' = "audit_row_of e genesis ?c'"
  let ?x1 = "\<lparr>shared = \<lparr>au_rows = [], last_hash = genesis\<rparr>, reading = [(?c, genesis)], publishing = []\<rparr>"
  let ?x2 = "\<lparr>shared = \<lparr>au_rows = [], last_hash = genesis\<rparr>, reading = [(?c', genesis), (?c, genesis)], publishing = []\<rparr>"
  let ?x3 = "\<lparr>shared = \<lparr>au_rows = [?r], last_hash = genesis\<rparr>, reading = [(?c', genesis)], publishing = [?r]\<rparr>"
  let ?x4 = "\<lparr>shared = \<lparr>au_rows = [?r, ?r'], last_hash = genesis\<rparr>, reading = [], publishing = [?r', ?r]\<rparr>"
  let ?x5 = "\<lparr>shared = \<lparr>au_rows = [?r, ?r'], last_hash = au_hash ?r'\<rparr>, reading = [], publishing = [?r]\<rparr>"
  let ?x6 = "\<lparr>shared = \<lparr>au_rows = [?r, ?r'], last_hash = au_hash ?r\<rparr>, reading = [], publishing = []\<rparr>"
  have ids: "au_id ?r = ''a''" "au_id ?r' = ''b''" by (simp_all add: audit_row_of_def demo_call_def)
  have ne: "?c \<noteq> ?c'" by (simp add: demo_call_def)
  have s1: "audit_step e audit_start ?x1" using read_hash [of e audit_start ?c] by (simp add: audit_start_def)
  have s2: "audit_step e ?x1 ?x2" using read_hash [of e ?x1 ?c'] by simp
  have s3: "audit_step e ?x2 ?x3"
    using insert_row [of ?c genesis ?x2 e "\<lparr>au_rows = [?r], last_hash = genesis\<rparr>"] ne by (simp add: insert_audit_def)
  have s4: "audit_step e ?x3 ?x4"
    using insert_row [of ?c' genesis ?x3 e "\<lparr>au_rows = [?r, ?r'], last_hash = genesis\<rparr>"] ids by (simp add: insert_audit_def)
  have s5: "audit_step e ?x4 ?x5" using publish [of ?r' ?x4 e] by simp
  have s6: "audit_step e ?x5 ?x6" using publish [of ?r ?x5 e] by simp
  note steps = converse_rtranclp_into_rtranclp [of "audit_step e"]
  have "(audit_step e)\<^sup>*\<^sup>* audit_start ?x6"
    by (rule steps [OF s1 steps [OF s2 steps [OF s3 steps [OF s4 steps [OF s5 r_into_rtranclp [of "audit_step e", OF s6]]]]]])
  then show "\<exists>x. (audit_step e)\<^sup>*\<^sup>* audit_start x \<and> reading x = [] \<and> publishing x = [] \<and> length (au_rows (shared x)) = 2
      \<and> au_prev (au_rows (shared x) ! 0) = au_prev (au_rows (shared x) ! 1)"
    by (intro exI [of _ ?x6]) simp
qed

theorem concurrent_appends_form_a_tree_witness:
  "\<exists>x. (audit_step demo_audit_env)\<^sup>*\<^sup>* audit_start x \<and> length (au_rows (shared x)) = 2
     \<and> au_prev (au_rows (shared x) ! 0) = genesis"
  using concurrent_appends_form_a_tree [of demo_audit_env] by fastforce

end
