(* ===== verification/OneShot.thy ===== *)
theory OneShot imports Store begin

text \<open>
  One-shot secrets: the contract that refresh tokens (\<open>Auth\<close>) and magic links (\<open>MagicLink\<close>) share, and what
  a client may conclude from it. A call presents a secret, \<open>secret c\<close>, and is accepted or not; the state
  decides which secrets are live; a call may issue new secrets, \<open>fresh c\<close>. The calls are made one after the
  other. Recovery codes (\<open>Mfa\<close>) and invitations (\<open>Orgs\<close>) are followed statement by statement: a request reads
  the row of its secret and marks it later, and other requests come in between.
\<close>

text \<open>Calls made one after the other, with the answers they get.\<close>

fun redeem_all :: "('c \<Rightarrow> 's db \<Rightarrow> bool \<times> 's db) \<Rightarrow> 'c list \<Rightarrow> 's db \<Rightarrow> ('c \<times> bool) list \<times> 's db" where
  "redeem_all f [] d = ([], d)"
| "redeem_all f (c # cs) d =
     (case f c d of (ok, d') \<Rightarrow> (case redeem_all f cs d' of (rs, d'') \<Rightarrow> ((c, ok) # rs, d'')))"

definition accepted :: "('c \<Rightarrow> 't) \<Rightarrow> 't \<Rightarrow> ('c \<times> bool) list \<Rightarrow> nat" where
  "accepted secret t rs = length (filter (\<lambda>(c, ok). secret c = t \<and> ok) rs)"

lemma accepted_simps [simp]:
  "accepted secret t [] = 0"
  "accepted secret t ((c, ok) # rs) = (if secret c = t \<and> ok then Suc (accepted secret t rs) else accepted secret t rs)"
  by (simp_all add: accepted_def)

lemma redeem_all_Cons:
  assumes "redeem_all f (c # cs) d = (rs, d'')"
  obtains ok d' rs' where "f c d = (ok, d')" "redeem_all f cs d' = (rs', d'')" "rs = (c, ok) # rs'"
  using assms by (auto split: prod.splits)

locale one_shot =
  fixes inv :: "'s \<Rightarrow> bool" and live :: "'t \<Rightarrow> 's \<Rightarrow> bool" and redeem :: "'c \<Rightarrow> 's db \<Rightarrow> bool \<times> 's db"
    and secret :: "'c \<Rightarrow> 't" and fresh :: "'c \<Rightarrow> 't set"
  assumes inv: "redeem c d = (ok, d') \<Longrightarrow> inv (st d) \<Longrightarrow> inv (st d')"
    and spent: "redeem c d = (True, d') \<Longrightarrow> inv (st d) \<Longrightarrow>
      live (secret c) (st d) \<and> (live (secret c) (st d') \<longrightarrow> secret c \<in> fresh c)"
    and not_revived: "redeem c d = (ok, d') \<Longrightarrow> inv (st d) \<Longrightarrow> live t (st d') \<Longrightarrow> t \<notin> fresh c \<Longrightarrow> live t (st d)"
begin

lemma accepted_bound:
  "redeem_all redeem cs d = (rs, d') \<Longrightarrow> inv (st d) \<Longrightarrow> list_all (\<lambda>c. t \<notin> fresh c) cs
   \<Longrightarrow> accepted secret t rs \<le> (if live t (st d) then 1 else 0)"
proof (induction cs arbitrary: d rs)
  case Nil
  then show ?case by simp
next
  case (Cons u us)
  from Cons.prems(1) obtain ok d1 rs' where r: "redeem u d = (ok, d1)" "redeem_all redeem us d1 = (rs', d')"
    "rs = (u, ok) # rs'" by (rule redeem_all_Cons)
  from Cons.prems(3) have fresh: "t \<notin> fresh u" "list_all (\<lambda>c. t \<notin> fresh c) us" by simp_all
  from Cons.IH [OF r(2) inv [OF r(1) Cons.prems(2)] fresh(2)]
  have IH: "accepted secret t rs' \<le> (if live t (st d1) then 1 else 0)" .
  show ?case
  proof (cases "secret u = t \<and> ok")
    case True
    with r(1) spent [of u d d1] Cons.prems(2) fresh(1) have "live t (st d)" "\<not> live t (st d1)" by auto
    with IH r(3) True show ?thesis by simp
  next
    case False
    with IH r(3) not_revived [OF r(1) Cons.prems(2), of t] fresh(1) show ?thesis by (auto split: if_splits)
  qed
qed

lemma at_most_once:
  "redeem_all redeem cs d = (rs, d') \<Longrightarrow> inv (st d) \<Longrightarrow> list_all (\<lambda>c. t \<notin> fresh c) cs \<Longrightarrow> accepted secret t rs \<le> 1"
  using accepted_bound [of cs d rs d' t] by (auto split: if_splits)

end

section \<open>Requests that interleave\<close>

text \<open>
  A request reads first, with \<open>look\<close>: it is refused, or it gets a handle and goes on. What it does with the
  handle, \<open>spend\<close>, comes later. \<open>Reads c\<close> starts a request, \<open>Spends k\<close> is the second statement of the \<open>k\<close>-th
  request under way, and \<open>Other a\<close> is any other call of the program.
\<close>

datatype ('c, 'a) phase = Reads 'c | Spends nat | Other 'a

fun phase_step ::
  "('c \<Rightarrow> 's db \<Rightarrow> 'h option \<times> 's db) \<Rightarrow> ('c \<Rightarrow> 'h \<Rightarrow> 's db \<Rightarrow> bool \<times> 's db) \<Rightarrow> ('a \<Rightarrow> 's db \<Rightarrow> 's db)
   \<Rightarrow> ('c, 'a) phase \<Rightarrow> ('c \<times> 'h) list \<Rightarrow> 's db \<Rightarrow> ('c \<times> bool) list \<times> ('c \<times> 'h) list \<times> 's db" where
  "phase_step look spend other (Reads c) ps d =
     (case look c d of (None, d') \<Rightarrow> ([(c, False)], ps, d') | (Some h, d') \<Rightarrow> ([], ps @ [(c, h)], d'))"
| "phase_step look spend other (Spends k) ps d =
     (if k < length ps
      then (case ps ! k of (c, h) \<Rightarrow> (case spend c h d of (ok, d') \<Rightarrow> ([(c, ok)], take k ps @ drop (Suc k) ps, d')))
      else ([], ps, d))"
| "phase_step look spend other (Other a) ps d = ([], ps, other a d)"

text \<open>A run gives the answers in their order, the requests still under way and the database.\<close>

fun run_phases ::
  "('c \<Rightarrow> 's db \<Rightarrow> 'h option \<times> 's db) \<Rightarrow> ('c \<Rightarrow> 'h \<Rightarrow> 's db \<Rightarrow> bool \<times> 's db) \<Rightarrow> ('a \<Rightarrow> 's db \<Rightarrow> 's db)
   \<Rightarrow> ('c, 'a) phase list \<Rightarrow> ('c \<times> 'h) list \<Rightarrow> 's db \<Rightarrow> ('c \<times> bool) list \<times> ('c \<times> 'h) list \<times> 's db" where
  "run_phases look spend other [] ps d = ([], ps, d)"
| "run_phases look spend other (x # xs) ps d =
     (case phase_step look spend other x ps d of (rs, ps', d') \<Rightarrow>
       (case run_phases look spend other xs ps' d' of (rs', z) \<Rightarrow> (rs @ rs', z)))"

definition under_way :: "('c \<Rightarrow> 't) \<Rightarrow> 't \<Rightarrow> ('c \<times> 'h) list \<Rightarrow> nat" where
  "under_way secret t ps = length (filter (\<lambda>(c, h). secret c = t) ps)"

lemma accepted_append [simp]: "accepted secret t (rs @ rs') = accepted secret t rs + accepted secret t rs'"
  by (simp add: accepted_def)

lemma under_way_simps [simp]:
  "under_way secret t [] = 0"
  "under_way secret t (p # ps) = (if secret (fst p) = t then Suc (under_way secret t ps) else under_way secret t ps)"
  "under_way secret t (ps @ ps') = under_way secret t ps + under_way secret t ps'"
  by (auto simp: under_way_def)

lemma under_way_remove:
  "k < length ps \<Longrightarrow> under_way secret t ps =
     (if secret (fst (ps ! k)) = t then 1 else 0) + under_way secret t (take k ps @ drop (Suc k) ps)"
  by (subst id_take_nth_drop [of k ps]) auto

definition quiet :: "('a \<Rightarrow> 't \<Rightarrow> bool) \<Rightarrow> 't \<Rightarrow> ('c, 'a) phase list \<Rightarrow> bool" where
  "quiet disturbs t xs \<longleftrightarrow> list_all (\<lambda>x. case x of Other a \<Rightarrow> \<not> disturbs a t | _ \<Rightarrow> True) xs"

text \<open>
  The contract of such a secret. A handle that was read for a secret keeps naming the row of that secret, so
  that spending it leaves the secret dead; nothing brings a secret back but a call that disturbs it.
\<close>

locale two_phase =
  fixes inv :: "'s \<Rightarrow> bool" and live :: "'t \<Rightarrow> 's \<Rightarrow> bool" and names :: "'h \<Rightarrow> 't \<Rightarrow> 's \<Rightarrow> bool"
    and look :: "'c \<Rightarrow> 's db \<Rightarrow> 'h option \<times> 's db" and spend :: "'c \<Rightarrow> 'h \<Rightarrow> 's db \<Rightarrow> bool \<times> 's db"
    and other :: "'a \<Rightarrow> 's db \<Rightarrow> 's db" and secret :: "'c \<Rightarrow> 't" and disturbs :: "'a \<Rightarrow> 't \<Rightarrow> bool"
  assumes look_reads: "look c d = (x, d') \<Longrightarrow> st d' = st d"
    and look_finds: "look c d = (Some h, d') \<Longrightarrow> inv (st d) \<Longrightarrow> live (secret c) (st d) \<and> names h (secret c) (st d)"
    and spend_kills: "spend c h d = (True, d') \<Longrightarrow> inv (st d) \<Longrightarrow> names h (secret c) (st d) \<Longrightarrow> \<not> live (secret c) (st d')"
    and spend_keeps: "spend c h d = (ok, d') \<Longrightarrow> inv (st d) \<Longrightarrow>
      inv (st d') \<and> (live t (st d') \<longrightarrow> live t (st d)) \<and> (names g t (st d) \<longrightarrow> names g t (st d'))"
    and other_keeps: "\<not> disturbs a t \<Longrightarrow> inv (st d) \<Longrightarrow>
      inv (st (other a d)) \<and> (live t (st (other a d)) \<longrightarrow> live t (st d)) \<and> (names g t (st d) \<longrightarrow> names g t (st (other a d)))"
begin

definition named :: "'t \<Rightarrow> ('c \<times> 'h) list \<Rightarrow> 's \<Rightarrow> bool" where
  "named t ps s \<longleftrightarrow> (\<forall>(c, h) \<in> set ps. secret c = t \<longrightarrow> names h t s)"

lemma step_facts:
  assumes "phase_step look spend other x ps d = (rs, ps', d')" "inv (st d)" "named t ps (st d)"
    "case x of Other a \<Rightarrow> \<not> disturbs a t | _ \<Rightarrow> True"
  shows "inv (st d') \<and> named t ps' (st d') \<and> (live t (st d') \<longrightarrow> live t (st d))
    \<and> (0 < accepted secret t rs \<longrightarrow> \<not> live t (st d'))
    \<and> (\<not> live t (st d) \<longrightarrow> accepted secret t rs + under_way secret t ps' \<le> under_way secret t ps)"
proof (cases x)
  case (Reads c)
  obtain r d1 where l: "look c d = (r, d1)" by (cases "look c d")
  have s: "st d1 = st d" by (rule look_reads [OF l])
  show ?thesis
  proof (cases r)
    case None
    with Reads l assms s show ?thesis by auto
  next
    case (Some h)
    with l look_finds assms(2) have "live (secret c) (st d)" "names h (secret c) (st d)" by blast+
    with Reads l Some assms s show ?thesis by (auto simp: named_def)
  qed
next
  case (Spends k)
  show ?thesis
  proof (cases "k < length ps")
    case False
    with Spends assms show ?thesis by simp
  next
    case True
    obtain c h where p: "ps ! k = (c, h)" by (cases "ps ! k")
    obtain ok d1 where sp: "spend c h d = (ok, d1)" by (cases "spend c h d")
    have eqs: "rs = [(c, ok)]" "ps' = take k ps @ drop (Suc k) ps" "d' = d1"
      using assms(1) Spends True p sp by auto
    have keep: "inv (st d1)" "live t (st d1) \<longrightarrow> live t (st d)" "\<And>g. names g t (st d) \<Longrightarrow> names g t (st d1)"
      using spend_keeps [OF sp assms(2)] by blast+
    have "set ps' \<subseteq> set ps" unfolding eqs(2) by (auto dest: in_set_takeD in_set_dropD)
    with assms(3) keep(3) have n: "named t ps' (st d1)" unfolding named_def by blast
    have "(c, h) \<in> set ps" using True p by (metis nth_mem)
    with assms(3) have "secret c = t \<longrightarrow> names h t (st d)" unfolding named_def by blast
    with spend_kills [of c h d d1] sp assms(2) have "ok \<and> secret c = t \<longrightarrow> \<not> live t (st d1)" by auto
    with keep n under_way_remove [OF True, of secret t] p show ?thesis by (auto simp: eqs)
  qed
next
  case (Other a)
  with assms other_keeps [of a t d] show ?thesis by (auto simp: named_def)
qed

lemma run_facts:
  "run_phases look spend other xs ps d = (rs, ps', d') \<Longrightarrow> inv (st d) \<Longrightarrow> named t ps (st d) \<Longrightarrow> quiet disturbs t xs \<Longrightarrow>
     inv (st d') \<and> named t ps' (st d') \<and> (live t (st d') \<longrightarrow> live t (st d))
     \<and> (0 < accepted secret t rs \<longrightarrow> \<not> live t (st d'))
     \<and> (\<not> live t (st d) \<longrightarrow> accepted secret t rs + under_way secret t ps' \<le> under_way secret t ps)"
proof (induction xs arbitrary: ps d rs)
  case Nil
  then show ?case by simp
next
  case (Cons x xs)
  obtain rs1 ps1 d1 where s: "phase_step look spend other x ps d = (rs1, ps1, d1)"
    by (cases "phase_step look spend other x ps d")
  with Cons.prems(1) obtain rs2 where r: "run_phases look spend other xs ps1 d1 = (rs2, ps', d')" "rs = rs1 @ rs2"
    by (auto split: prod.splits)
  from Cons.prems(4) have q: "case x of Other a \<Rightarrow> \<not> disturbs a t | _ \<Rightarrow> True" "quiet disturbs t xs" by (simp_all add: quiet_def)
  note one = step_facts [OF s Cons.prems(2,3) q(1)]
  from Cons.IH [OF r(1) _ _ q(2)] one r(2) show ?case by auto
qed

text \<open>
  Once a secret was accepted, only requests that were under way then can still be: nobody who reads
  afterwards is accepted.
\<close>

lemma accepted_then_dead:
  assumes "run_phases look spend other xs [] d = (rs, ps, d1)" "inv (st d)" "quiet disturbs t xs"
    and "0 < accepted secret t rs"
    and "run_phases look spend other ys ps d1 = (rs', ps', d2)" "quiet disturbs t ys"
  shows "accepted secret t rs' \<le> under_way secret t ps"
proof -
  from run_facts [OF assms(1,2) _ assms(3)] assms(4)
  have "inv (st d1)" "named t ps (st d1)" "\<not> live t (st d1)" by (simp_all add: named_def)
  from run_facts [OF assms(5) this(1,2) assms(6)] this(3) show ?thesis by simp
qed

end

end
