(* ===== verification/Mfa.thy ===== *)
theory Mfa imports OneShot begin

text \<open>
  Multi-factor authentication (\<open>src/src/auth/mfa.rs\<close>): enrolment, TOTP verification with its failure
  counter and lockout, recovery codes, and the HTTP handlers over them. Parameters: the TOTP crate, the
  data protector, SHA-256, random bytes, the clock and the text of a time stamp; the authenticated caller
  of a handler is the outcome of \<open>extract_auth_user\<close>.
\<close>

section \<open>State and parameters\<close>

definition RECOVERY_CODE_COUNT :: nat where "RECOVERY_CODE_COUNT = 10"

definition MAX_FAILED_ATTEMPTS :: int where "MAX_FAILED_ATTEMPTS = 5"

text \<open>Seconds; the interval of \<open>record_failed_attempt\<close>.\<close>

definition LOCKOUT_DURATION_SECS :: nat where "LOCKOUT_DURATION_SECS = 900"

record mfa_row =
  mf_user :: int
  mf_secret :: string
  mf_enabled :: bool
  mf_verified :: bool
  mf_failed :: int
  mf_locked :: "nat option"
  mf_enrolled :: nat
  mf_updated :: nat

record code_row =
  rc_id :: int
  rc_user :: int
  rc_hash :: string
  rc_used :: bool

record mfa_state =
  mfa_rows :: "mfa_row list"
  rec_codes :: "code_row list"
  next_code :: int
  user_ids :: "int list"

record 'k mfa_env =
  issuer :: string
  mandatory_mfa :: bool
  new_secret :: string
  secret_bytes :: "string \<Rightarrow> 'k option"
  totp_ok :: "'k \<Rightarrow> string \<Rightarrow> string \<Rightarrow> bool"
  totp_url :: "'k \<Rightarrow> string \<Rightarrow> string \<Rightarrow> string"
  check_current :: "'k \<Rightarrow> string \<Rightarrow> bool option"
  protect :: "string \<Rightarrow> string result"
  unprotect :: "string \<Rightarrow> string result"
  sha_hex :: "string \<Rightarrow> string"
  rand_bytes :: "nat \<Rightarrow> 8 word list"
  mfa_now :: nat
  show_ts :: "nat \<Rightarrow> string"

record mfa_enroll_response =
  er_secret :: string
  er_otpauth_url :: string
  er_qr_code_svg :: "string option"
  er_recovery_codes :: "string list"

record mfa_status =
  ms_enabled :: bool
  ms_enrolled_at :: "string option"
  ms_codes_remaining :: int

text \<open>\<open>hex::encode\<close> and the shape of a recovery code.\<close>

definition hex_encode :: "8 word list \<Rightarrow> string" where
  "hex_encode bs = concat (map (\<lambda>b. [''0123456789abcdef'' ! (unat b div 16), ''0123456789abcdef'' ! (unat b mod 16)]) bs)"

definition format_code :: "8 word list \<Rightarrow> string" where
  "format_code bs = to_uppercase (hex_encode (take 4 bs)) @ ''-'' @ to_uppercase (hex_encode (drop 4 bs))"

section \<open>Helpers\<close>

abbreviation ask :: "(mfa_state \<Rightarrow> (string \<times> cell) list list) \<Rightarrow> (mfa_state, row list) io" where
  "ask \<equiv> query (\<lambda>_. None) id"

definition rows_of :: "int \<Rightarrow> mfa_state \<Rightarrow> mfa_row list" where
  "rows_of u s = filter (\<lambda>r. mf_user r = u) (mfa_rows s)"

definition update_mfa :: "int \<Rightarrow> (mfa_row \<Rightarrow> mfa_row) \<Rightarrow> mfa_state \<Rightarrow> mfa_state" where
  "update_mfa u f s = s\<lparr>mfa_rows := map (\<lambda>r. if mf_user r = u then f r else r) (mfa_rows s)\<rparr>"

definition verify_totp :: "'k mfa_env \<Rightarrow> string \<Rightarrow> string \<Rightarrow> bool result" where
  "verify_totp e secret code =
     (case secret_bytes e secret of
        None \<Rightarrow> Inl (Internal ''TOTP secret decode'')
      | Some k \<Rightarrow>
          if \<not> totp_ok e k (issuer e) [] then Inl (Internal ''TOTP error'')
          else (case check_current e k code of
              None \<Rightarrow> Inl (Internal ''TOTP check error'')
            | Some ok \<Rightarrow> Inr ok))"

definition get_secret :: "'k mfa_env \<Rightarrow> int \<Rightarrow> (mfa_state, string) io" where
  "get_secret e u =
     bind_io (ask (\<lambda>s. map (\<lambda>r. [(''totp_secret'', cell_text (mf_secret r))]) (rows_of u s)))
       (\<lambda>rows. case rows of
           [] \<Rightarrow> fail (NotFound ''MFA not enrolled'')
         | row # _ \<Rightarrow> (case col_str row ''totp_secret'' of
               None \<Rightarrow> fail (NotFound ''MFA not enrolled'')
             | Some t \<Rightarrow> lift (unprotect e t)))"

definition check_lockout :: "'k mfa_env \<Rightarrow> int \<Rightarrow> (mfa_state, unit) io" where
  "check_lockout e u =
     bind_io (ask (\<lambda>s. map (\<lambda>r. [(''failed_attempts'', cell_int (mf_failed r)),
         (''locked_until'', cell_opt ''TIMESTAMPTZ'' (\<lambda>t. cell_time (show_ts e t)) (mf_locked r))]) (rows_of u s)))
       (\<lambda>rows. case rows of
           [] \<Rightarrow> ret ()
         | row # _ \<Rightarrow>
             if MAX_FAILED_ATTEMPTS \<le> unwrap_or 0 (col_i64 row ''failed_attempts'')
                \<and> unwrap_or [] (col_str row ''locked_until'') \<noteq> []
             then fail (Unauthorized ''Account locked due to too many failed MFA attempts. Try again later.'')
             else ret ())"

text \<open>The counter is a 32-bit column.\<close>

definition record_failed_attempt :: "'k mfa_env \<Rightarrow> int \<Rightarrow> (mfa_state, unit) io" where
  "record_failed_attempt e u = stmt (\<lambda>s.
     if list_ex (\<lambda>r. mf_failed r = 2147483647) (rows_of u s) then Inl (Database ''integer out of range'')
     else Inr ((), update_mfa u (\<lambda>r. r\<lparr>mf_failed := mf_failed r + 1,
         mf_locked := (if MAX_FAILED_ATTEMPTS \<le> mf_failed r + 1 then Some (mfa_now e + LOCKOUT_DURATION_SECS) else mf_locked r),
         mf_updated := mfa_now e\<rparr>) s))"

definition insert_code :: "int \<Rightarrow> string \<Rightarrow> mfa_state \<Rightarrow> (unit \<times> mfa_state) result" where
  "insert_code u h s =
     (if u \<notin> set (user_ids s) then Inl (Database ''violates foreign key constraint'')
      else Inr ((), s\<lparr>rec_codes := rec_codes s @ [\<lparr>rc_id = next_code s, rc_user = u, rc_hash = h, rc_used = False\<rparr>],
                      next_code := next_code s + 1\<rparr>))"

definition generate_recovery_codes :: "'k mfa_env \<Rightarrow> int \<Rightarrow> (mfa_state, string list) io" where
  "generate_recovery_codes e u =
     for_io (\<lambda>i codes.
         let code = format_code (rand_bytes e i) in
         bind_io (stmt (insert_code u (sha_hex e code))) (\<lambda>_. ret (codes @ [code])))
       [0..<RECOVERY_CODE_COUNT] []"

section \<open>Operations\<close>

definition flag :: "string \<Rightarrow> row list \<Rightarrow> bool" where
  "flag k rows = (case rows of [] \<Rightarrow> False | row # _ \<Rightarrow> unwrap_or False (col_bool row k))"

definition ask_enabled :: "int \<Rightarrow> (mfa_state, row list) io" where
  "ask_enabled u = ask (\<lambda>s. map (\<lambda>r. [(''enabled'', cell_bool (mf_enabled r))]) (rows_of u s))"

definition delete_mfa :: "int \<Rightarrow> mfa_state \<Rightarrow> mfa_state" where
  "delete_mfa u s = s\<lparr>mfa_rows := filter (\<lambda>r. mf_user r \<noteq> u) (mfa_rows s)\<rparr>"

definition delete_codes :: "int \<Rightarrow> mfa_state \<Rightarrow> mfa_state" where
  "delete_codes u s = s\<lparr>rec_codes := filter (\<lambda>c. rc_user c \<noteq> u) (rec_codes s)\<rparr>"

definition insert_mfa :: "'k mfa_env \<Rightarrow> int \<Rightarrow> string \<Rightarrow> mfa_state \<Rightarrow> (unit \<times> mfa_state) result" where
  "insert_mfa e u t s =
     (if u \<notin> set (user_ids s) then Inl (Database ''violates foreign key constraint'')
      else if rows_of u s \<noteq> [] then Inl (Database ''duplicate key'')
      else Inr ((), s\<lparr>mfa_rows := mfa_rows s @ [\<lparr>mf_user = u, mf_secret = t, mf_enabled = False, mf_verified = False,
             mf_failed = 0, mf_locked = None, mf_enrolled = mfa_now e, mf_updated = mfa_now e\<rparr>]\<rparr>))"

definition enroll :: "'k mfa_env \<Rightarrow> int \<Rightarrow> string \<Rightarrow> (mfa_state, mfa_enroll_response) io" where
  "enroll e u email =
     bind_io (ask_enabled u) (\<lambda>existing.
     bind_io (if existing = [] then ret ()
              else if flag ''enabled'' existing
              then fail (Conflict ''MFA is already enabled. Disable first to re-enroll.'')
              else bind_io (exec (delete_mfa u)) (\<lambda>_. exec (delete_codes u))) (\<lambda>_.
     case secret_bytes e (new_secret e) of
       None \<Rightarrow> fail (Internal ''TOTP secret error'')
     | Some k \<Rightarrow>
         if \<not> totp_ok e k (issuer e) email then fail (Internal ''TOTP creation error'')
         else
           bind_io (lift (protect e (new_secret e))) (\<lambda>t.
           bind_io (stmt (insert_mfa e u t)) (\<lambda>_.
           bind_io (generate_recovery_codes e u) (\<lambda>codes.
           ret \<lparr>er_secret = new_secret e, er_otpauth_url = totp_url e k (issuer e) email,
                er_qr_code_svg = None, er_recovery_codes = codes\<rparr>)))))"

definition verify_enrollment :: "'k mfa_env \<Rightarrow> int \<Rightarrow> string \<Rightarrow> (mfa_state, unit) io" where
  "verify_enrollment e u code =
     bind_io (get_secret e u) (\<lambda>secret.
     bind_io (check_lockout e u) (\<lambda>_.
     bind_io (lift (verify_totp e secret code)) (\<lambda>ok.
     if ok then exec (update_mfa u (\<lambda>r. r\<lparr>mf_enabled := True, mf_verified := True, mf_failed := 0, mf_updated := mfa_now e\<rparr>))
     else bind_io (record_failed_attempt e u) (\<lambda>_. fail (Unauthorized ''Invalid MFA code'')))))"

definition verify_code :: "'k mfa_env \<Rightarrow> int \<Rightarrow> string \<Rightarrow> (mfa_state, bool) io" where
  "verify_code e u code =
     bind_io (check_lockout e u) (\<lambda>_.
     bind_io (ask_enabled u) (\<lambda>rows.
     if rows = [] then ret True
     else if \<not> flag ''enabled'' rows then ret True
     else
       bind_io (get_secret e u) (\<lambda>secret.
       bind_io (lift (verify_totp e secret code)) (\<lambda>ok.
       if ok then bind_io (exec (update_mfa u (\<lambda>r. r\<lparr>mf_failed := 0, mf_updated := mfa_now e\<rparr>))) (\<lambda>_. ret True)
       else bind_io (record_failed_attempt e u) (\<lambda>_. ret False)))))"

text \<open>The two statements of \<open>use_recovery_code\<close>: the code is looked up, and its row is marked by its number.\<close>

definition find_recovery_code :: "'k mfa_env \<Rightarrow> int \<Rightarrow> string \<Rightarrow> (mfa_state, int option) io" where
  "find_recovery_code e u code =
     bind_io (ask (\<lambda>s. map (\<lambda>c. [(''id'', cell_int (rc_id c))])
         (filter (\<lambda>c. rc_user c = u \<and> rc_hash c = sha_hex e code \<and> \<not> rc_used c) (rec_codes s)))) (\<lambda>rows.
     case rows of
       [] \<Rightarrow> ret None
     | row # _ \<Rightarrow>
         (case col_i64 row ''id'' of
            None \<Rightarrow> fail (Internal ''Missing recovery code id'')
          | Some i \<Rightarrow> ret (Some i)))"

definition mark_recovery_code :: "int \<Rightarrow> (mfa_state, unit) io" where
  "mark_recovery_code i =
     exec (\<lambda>s. s\<lparr>rec_codes := map (\<lambda>c. if rc_id c = i then c\<lparr>rc_used := True\<rparr> else c) (rec_codes s)\<rparr>)"

definition use_recovery_code :: "'k mfa_env \<Rightarrow> int \<Rightarrow> string \<Rightarrow> (mfa_state, bool) io" where
  "use_recovery_code e u code =
     bind_io (find_recovery_code e u code) (\<lambda>found.
     case found of
       None \<Rightarrow> ret False
     | Some i \<Rightarrow> bind_io (mark_recovery_code i) (\<lambda>_. ret True))"

lemmas recovery_code_defs = use_recovery_code_def find_recovery_code_def mark_recovery_code_def

definition disable :: "int \<Rightarrow> (mfa_state, unit) io" where
  "disable u = bind_io (exec (delete_mfa u)) (\<lambda>_. exec (delete_codes u))"

definition get_status :: "'k mfa_env \<Rightarrow> int \<Rightarrow> (mfa_state, mfa_status) io" where
  "get_status e u =
     bind_io (ask (\<lambda>s. map (\<lambda>r. [(''enabled'', cell_bool (mf_enabled r)),
         (''enrolled_at'', cell_time (show_ts e (mf_enrolled r)))]) (rows_of u s))) (\<lambda>rows.
     case rows of
       [] \<Rightarrow> ret \<lparr>ms_enabled = False, ms_enrolled_at = None, ms_codes_remaining = 0\<rparr>
     | row # _ \<Rightarrow>
         bind_io (ask (\<lambda>s. [[(''cnt'', cell_int (int (length (filter (\<lambda>c. rc_user c = u \<and> \<not> rc_used c) (rec_codes s)))))]]))
           (\<lambda>code_rows. ret \<lparr>ms_enabled = flag ''enabled'' rows, ms_enrolled_at = col_str row ''enrolled_at'',
              ms_codes_remaining = (case code_rows of [] \<Rightarrow> 0 | c # _ \<Rightarrow> unwrap_or 0 (col_i64 c ''cnt''))\<rparr>))"

definition enforce_mfa :: "'k mfa_env \<Rightarrow> int \<Rightarrow> (mfa_state, unit) io" where
  "enforce_mfa e u =
     (if \<not> mandatory_mfa e then ret ()
      else bind_io (get_status e u) (\<lambda>status.
        if \<not> ms_enabled status
        then fail (Unauthorized ''MFA is required for this action. Please enroll in MFA.'') else ret ()))"

section \<open>Handlers\<close>

datatype mfa_request =
    EnrollRequest
  | VerifyRequest string
  | ChallengeRequest string
  | RecoveryRequest string
  | DisableRequest string
  | StatusRequest

datatype mfa_answer =
    Enrolled mfa_enroll_response
  | Message string
  | Status mfa_status

fun mfa_handler :: "'k mfa_env \<Rightarrow> (int \<times> string) result \<Rightarrow> mfa_request \<Rightarrow> (mfa_state, mfa_answer) io" where
  "mfa_handler e auth EnrollRequest =
     bind_io (lift auth) (\<lambda>(u, email). bind_io (enroll e u email) (\<lambda>r. ret (Enrolled r)))"
| "mfa_handler e auth (VerifyRequest code) =
     bind_io (lift auth) (\<lambda>(u, _). bind_io (verify_enrollment e u code) (\<lambda>_. ret (Message ''MFA enabled successfully'')))"
| "mfa_handler e auth (ChallengeRequest code) =
     bind_io (lift auth) (\<lambda>(u, _). bind_io (verify_code e u code) (\<lambda>valid.
       if valid then ret (Message ''MFA verification successful'') else fail (Unauthorized ''Invalid MFA code'')))"
| "mfa_handler e auth (RecoveryRequest code) =
     bind_io (lift auth) (\<lambda>(u, _). bind_io (use_recovery_code e u code) (\<lambda>valid.
       if valid then ret (Message ''Recovery code accepted'') else fail (Unauthorized ''Invalid recovery code'')))"
| "mfa_handler e auth (DisableRequest code) =
     bind_io (lift auth) (\<lambda>(u, _). bind_io (verify_code e u code) (\<lambda>valid.
       if \<not> valid then fail (Unauthorized ''Invalid MFA code'')
       else bind_io (disable u) (\<lambda>_. ret (Message ''MFA disabled''))))"
| "mfa_handler e auth StatusRequest =
     bind_io (lift auth) (\<lambda>(u, _). bind_io (get_status e u) (\<lambda>s. ret (Status s)))"

section \<open>Users do not affect each other\<close>

lemma filter_map_other: "(\<And>x. P (f x) = P x) \<Longrightarrow> (\<And>x. P x \<Longrightarrow> f x = x) \<Longrightarrow> filter P (map f xs) = filter P xs"
  by (induction xs) auto

lemma rows_of_update: "v \<noteq> u \<Longrightarrow> (\<And>r. mf_user (f r) = mf_user r) \<Longrightarrow> rows_of u (update_mfa v f s) = rows_of u s"
  by (simp add: rows_of_def update_mfa_def) (rule filter_map_other; auto)

lemma rows_of_other [simp]:
  "v \<noteq> u \<Longrightarrow> rows_of u (delete_mfa v s) = rows_of u s"
  "rows_of u (delete_codes w s) = rows_of u s"
  "rows_of u (s\<lparr>rec_codes := cs\<rparr>) = rows_of u s"
  by (auto simp: rows_of_def delete_mfa_def delete_codes_def intro!: filter_cong)

lemma insert_code_rows: "insert_code v h s = Inr (x, s') \<Longrightarrow> rows_of u s' = rows_of u s"
  by (auto simp: insert_code_def rows_of_def split: if_splits)

lemma insert_mfa_rows: "insert_mfa e v t s = Inr (x, s') \<Longrightarrow> v \<noteq> u \<Longrightarrow> rows_of u s' = rows_of u s"
  by (auto simp: insert_mfa_def rows_of_def split: if_splits)

lemma keeps_record_failed_attempt:
  "v \<noteq> u \<Longrightarrow> keeps (\<lambda>s. rows_of u s = R) (record_failed_attempt e v)"
  unfolding record_failed_attempt_def by (rule keeps_stmt) (auto simp: rows_of_update split: if_splits)

lemma keeps_reads [keeps_intro]:
  "keeps P (get_secret e u)" "keeps P (check_lockout e u)" "keeps P (ask_enabled u)" "keeps P (get_status e u)"
  unfolding get_secret_def check_lockout_def ask_enabled_def get_status_def
  by (auto intro!: keeps_intro split: list.splits option.splits)

lemma keeps_recovery_codes: "keeps (\<lambda>s. rows_of u s = R) (generate_recovery_codes e v)"
  unfolding generate_recovery_codes_def Let_def
  by (intro keeps_intro) (auto dest: insert_code_rows)

lemma keeps_use_recovery_code: "keeps (\<lambda>s. rows_of u s = R) (use_recovery_code e v c)"
  unfolding recovery_code_defs by (auto intro!: keeps_intro split: list.splits option.splits)

lemma keeps_other:
  assumes "v \<noteq> u"
  shows "keeps (\<lambda>s. rows_of u s = R) (enroll e v email)" "keeps (\<lambda>s. rows_of u s = R) (verify_enrollment e v c)"
    "keeps (\<lambda>s. rows_of u s = R) (verify_code e v c)" "keeps (\<lambda>s. rows_of u s = R) (disable v)"
  unfolding enroll_def verify_enrollment_def verify_code_def disable_def
  using assms keeps_record_failed_attempt [OF assms] keeps_recovery_codes
  by (auto intro!: keeps_intro simp: rows_of_update split: option.splits dest: insert_mfa_rows)

lemma mfa_handler_other:
  assumes "v \<noteq> u"
  shows "keeps (\<lambda>s. rows_of u s = R) (mfa_handler e (Inr (v, email)) rq)"
  using keeps_other [OF assms] keeps_use_recovery_code
  by (cases rq) (auto intro!: keeps_intro)

section \<open>The lockout never ends\<close>

text \<open>The user has a row, enabled, with the counter at its limit and a lockout time.\<close>

definition locked_row :: "mfa_row \<Rightarrow> bool" where
  "locked_row r \<longleftrightarrow> mf_enabled r \<and> MAX_FAILED_ATTEMPTS \<le> mf_failed r \<and> mf_failed r \<le> 2147483647 \<and> mf_locked r \<noteq> None"

definition locked_out :: "int \<Rightarrow> mfa_state \<Rightarrow> bool" where
  "locked_out u s \<longleftrightarrow> rows_of u s \<noteq> [] \<and> list_all locked_row (rows_of u s)"

definition shows_time :: "'k mfa_env \<Rightarrow> bool" where
  "shows_time e \<longleftrightarrow> (\<forall>t. show_ts e t \<noteq> [])"

definition refused :: "mfa_state \<Rightarrow> 'a result \<Rightarrow> mfa_state \<Rightarrow> bool" where
  "refused s r s' \<longleftrightarrow> s' = s \<and> (\<exists>err. r = Inl err)"

lemma refused_bind: "wp m (refused s) s \<Longrightarrow> wp (bind_io m k) (refused s) s"
  by (rule wp_bind_io, erule wp_weaken) (auto simp: refused_def)

lemma locked_rows:
  assumes "locked_out u s"
  obtains r rs where "rows_of u s = r # rs" "locked_row r"
  using assms by (cases "rows_of u s") (auto simp: locked_out_def)

lemma check_lockout_refuses:
  assumes "locked_out u s" "shows_time e"
  shows "wp (check_lockout e u) (refused s) s"
proof -
  obtain r rs where r: "rows_of u s = r # rs" "locked_row r" using assms(1) by (rule locked_rows)
  then obtain t where t: "mf_locked r = Some t" by (auto simp: locked_row_def)
  have "in_i64 (mf_failed r)" using r(2) by (simp add: locked_row_def MAX_FAILED_ATTEMPTS_def in_i64_def)
  with r t assms(2) show ?thesis
    unfolding check_lockout_def
    by (auto intro!: wp_intro simp: refused_def json_row_def col_i64_def col_str_def cell_opt_def locked_row_def shows_time_def)
qed

lemma ask_enabled_flag:
  assumes "locked_out u s"
  shows "wp (ask_enabled u) (\<lambda>r s'. s' = s \<and> (\<forall>rows. r = Inr rows \<longrightarrow> rows \<noteq> [] \<and> flag ''enabled'' rows)) s"
proof -
  obtain r rs where r: "rows_of u s = r # rs" "locked_row r" using assms(1) by (rule locked_rows)
  then show ?thesis unfolding ask_enabled_def
    by (auto intro!: wp_intro simp: flag_def json_row_def col_bool_def locked_row_def)
qed

lemma wp_get_secret: "wp (get_secret e u) (\<lambda>_ s'. s' = s) s"
  unfolding get_secret_def by (auto intro!: wp_intro split: list.splits option.splits)

lemma locked_refuses:
  assumes "locked_out u s" "shows_time e"
  shows "wp (verify_code e u c) (refused s) s" "wp (verify_enrollment e u c) (refused s) s"
    "wp (enroll e u email) (refused s) s"
proof -
  show "wp (verify_code e u c) (refused s) s"
    unfolding verify_code_def by (rule refused_bind [OF check_lockout_refuses [OF assms]])
  have then_refused: "wp (bind_io (check_lockout e u) k) (refused s) s" for k :: "unit \<Rightarrow> (mfa_state, unit) io"
    by (rule refused_bind [OF check_lockout_refuses [OF assms]])
  show "wp (verify_enrollment e u c) (refused s) s"
    unfolding verify_enrollment_def
    by (rule wp_bind_io, rule wp_weaken [OF wp_get_secret]) (simp add: then_refused refused_def [of s "Inl _"])
  show "wp (enroll e u email) (refused s) s"
    unfolding enroll_def
    by (rule wp_bind_io, rule wp_weaken [OF ask_enabled_flag [OF assms(1)]])
      (auto simp: refused_def intro!: wp_intro)
qed

text \<open>Requests of the locked-out user that need the TOTP code, or a new enrolment.\<close>

fun needs_totp :: "mfa_request \<Rightarrow> bool" where
  "needs_totp (RecoveryRequest _) \<longleftrightarrow> False"
| "needs_totp StatusRequest \<longleftrightarrow> False"
| "needs_totp _ \<longleftrightarrow> True"

lemma mfa_handler_locked:
  assumes "locked_out u s" "shows_time e" "needs_totp rq"
  shows "wp (mfa_handler e (Inr (u, email)) rq) (refused s) s"
  using assms(3) locked_refuses [OF assms(1,2)] by (cases rq) (auto intro: refused_bind)

lemma mfa_handler_keeps_rows:
  assumes "\<not> needs_totp rq"
  shows "keeps (\<lambda>s. rows_of u s = R) (mfa_handler e (Inr (v, email)) rq)"
  using assms keeps_use_recovery_code by (cases rq) (auto intro!: keeps_intro)

lemma locked_out_step:
  assumes "mfa_handler e auth rq d = (r, d')" "locked_out u (st d)" "shows_time e"
  shows "locked_out u (st d') \<and> ((\<exists>email. auth = Inr (u, email)) \<and> needs_totp rq \<longrightarrow> (\<exists>err. r = Inl err))"
proof (cases auth)
  case (Inl err)
  then have "r = Inl err" "st d' = st d" using assms(1) by (cases rq; simp)+
  with assms(2) show ?thesis by simp
next
  case (Inr who)
  obtain v email where who: "who = (v, email)" by (cases who)
  show ?thesis
  proof (cases "v = u \<and> needs_totp rq")
    case True
    then have "refused (st d) r (st d')"
      using assms(1) Inr who by (auto intro: wp_D mfa_handler_locked [OF assms(2,3)])
    with assms(2) show ?thesis by (auto simp: refused_def)
  next
    case False
    have "keeps (\<lambda>s. rows_of u s = rows_of u (st d)) (mfa_handler e auth rq)"
      using False Inr who mfa_handler_other [of v u] mfa_handler_keeps_rows [of rq u] by (cases "v = u") auto
    from keeps_D [OF this _ assms(1)] have "rows_of u (st d') = rows_of u (st d)" by simp
    with assms(2) False Inr who show ?thesis by (auto simp: locked_out_def)
  qed
qed

text \<open>Requests served one after the other, each with its own clock, random bytes and caller.\<close>

type_synonym 'k mfa_call = "'k mfa_env \<times> (int \<times> string) result \<times> mfa_request"

fun mfa_serve :: "'k mfa_call list \<Rightarrow> mfa_state db \<Rightarrow> mfa_answer result list \<times> mfa_state db" where
  "mfa_serve [] d = ([], d)"
| "mfa_serve ((e, auth, rq) # cs) d =
     (case mfa_handler e auth rq d of (r, d1) \<Rightarrow> (case mfa_serve cs d1 of (rs, d2) \<Rightarrow> (r # rs, d2)))"

text \<open>
  A lockout is for ever, although it is set to end after fifteen minutes: from the moment a user with
  MFA enabled is locked out, whatever requests arrive from whomever, in whatever order, however late, and
  whatever database calls fail, the user stays locked out and each of the user's requests to verify a code,
  to disable MFA or to enrol again is refused.
\<close>

theorem lockout_never_ends:
  assumes "locked_out u (st d)" "list_all (\<lambda>c. shows_time (fst c)) cs" "mfa_serve cs d = (rs, d')"
  shows "locked_out u (st d') \<and>
    list_all2 (\<lambda>(e, auth, rq) r. (\<exists>email. auth = Inr (u, email)) \<and> needs_totp rq \<longrightarrow> (\<exists>err. r = Inl err)) cs rs"
  using assms
proof (induction cs arbitrary: d rs)
  case Nil
  then show ?case by simp
next
  case (Cons c cs)
  obtain e auth rq where c: "c = (e, auth, rq)" by (cases c)
  obtain r d1 where r: "mfa_handler e auth rq d = (r, d1)" by (cases "mfa_handler e auth rq d")
  obtain rs' where rs: "mfa_serve cs d1 = (rs', d')" "rs = r # rs'"
    using Cons.prems(3) r by (auto simp: c split: prod.splits)
  from Cons.prems(2) c have "shows_time e" "list_all (\<lambda>c. shows_time (fst c)) cs" by simp_all
  with locked_out_step [OF r Cons.prems(1)] Cons.IH [OF _ _ rs(1)] show ?case by (simp add: c rs(2))
qed

text \<open>A server without the TOTP crate's arithmetic: a code is right when it is the secret.\<close>

definition demo_mfa_env :: "string mfa_env" where
  "demo_mfa_env = \<lparr>issuer = ''S'', mandatory_mfa = True, new_secret = ''123456'', secret_bytes = Some,
     totp_ok = (\<lambda>_ _ _. True), totp_url = (\<lambda>k _ _. k), check_current = (\<lambda>k c. Some (k = c)),
     protect = Inr, unprotect = Inr, sha_hex = id, rand_bytes = (\<lambda>i. replicate 8 (word_of_nat i)),
     mfa_now = 1000000, show_ts = (\<lambda>t. CHR ''t'' # show_nat t)\<rparr>"

definition demo_mfa_row :: mfa_row where
  "demo_mfa_row = \<lparr>mf_user = 7, mf_secret = ''123456'', mf_enabled = True, mf_verified = True, mf_failed = 5,
     mf_locked = Some 900, mf_enrolled = 0, mf_updated = 0\<rparr>"

definition demo_mfa_state :: mfa_state where
  "demo_mfa_state = \<lparr>mfa_rows = [demo_mfa_row],
     rec_codes = [\<lparr>rc_id = 1, rc_user = 7, rc_hash = ''AAAA'', rc_used = False\<rparr>], next_code = 2, user_ids = [7]\<rparr>"

theorem lockout_never_ends_witness:
  "\<exists>r d'. mfa_serve [(demo_mfa_env, Inr (7, ''a@b.c''), ChallengeRequest ''123456'')] (up demo_mfa_state) = ([r], d')
     \<and> (\<exists>err. r = Inl err)"
proof -
  obtain r d' where "mfa_handler demo_mfa_env (Inr (7, ''a@b.c'')) (ChallengeRequest ''123456'') (up demo_mfa_state) = (r, d')"
    by (meson surj_pair)
  then have run: "mfa_serve [(demo_mfa_env, Inr (7, ''a@b.c''), ChallengeRequest ''123456'')] (up demo_mfa_state) = ([r], d')"
    by (simp del: mfa_handler.simps)
  have "locked_out 7 (st (up demo_mfa_state))"
    by (simp add: locked_out_def rows_of_def demo_mfa_state_def demo_mfa_row_def locked_row_def MAX_FAILED_ATTEMPTS_def)
  from lockout_never_ends [OF this _ run] run show ?thesis
    by (simp add: shows_time_def demo_mfa_env_def)
qed

section \<open>Wrong codes are counted\<close>

definition counted :: "mfa_row \<Rightarrow> bool" where
  "counted r \<longleftrightarrow> 0 \<le> mf_failed r \<and> mf_failed r \<le> MAX_FAILED_ATTEMPTS
     \<and> (mf_failed r = MAX_FAILED_ATTEMPTS \<longrightarrow> mf_locked r \<noteq> None)"

definition mfa_inv :: "mfa_state \<Rightarrow> bool" where
  "mfa_inv s \<longleftrightarrow> distinct (map mf_user (mfa_rows s)) \<and> list_all counted (mfa_rows s)"

lemma mfa_inv_update:
  assumes "mfa_inv s" "\<And>r. mf_user (f r) = mf_user r" "\<And>r. r \<in> set (rows_of u s) \<Longrightarrow> counted r \<Longrightarrow> counted (f r)"
  shows "mfa_inv (update_mfa u f s)"
proof -
  have "map mf_user (map (\<lambda>r. if mf_user r = u then f r else r) (mfa_rows s)) = map mf_user (mfa_rows s)"
    using assms(2) by simp
  moreover have "list_all counted (map (\<lambda>r. if mf_user r = u then f r else r) (mfa_rows s))"
    using assms(1,3) by (auto simp: mfa_inv_def list_all_iff rows_of_def)
  ultimately show ?thesis using assms(1) by (simp add: mfa_inv_def update_mfa_def del: map_map)
qed

lemma mfa_inv_delete [simp]:
  "mfa_inv s \<Longrightarrow> mfa_inv (delete_mfa u s)"
  "mfa_inv (delete_codes u s) = mfa_inv s" "mfa_inv (s\<lparr>rec_codes := cs\<rparr>) = mfa_inv s"
  by (auto simp: mfa_inv_def delete_mfa_def delete_codes_def list_all_iff distinct_map inj_on_def)

lemma mfa_inv_insert: "insert_mfa e u t s = Inr (x, s') \<Longrightarrow> mfa_inv s \<Longrightarrow> mfa_inv s'"
  by (auto simp: insert_mfa_def mfa_inv_def rows_of_def counted_def MAX_FAILED_ATTEMPTS_def filter_empty_conv split: if_splits)

lemma mfa_inv_insert_code: "insert_code u h s = Inr (x, s') \<Longrightarrow> mfa_inv s \<Longrightarrow> mfa_inv s'"
  by (auto simp: insert_code_def mfa_inv_def split: if_splits)

text \<open>A call that passes the lockout check finds a counter below the limit.\<close>

lemma check_lockout_passes:
  assumes "mfa_inv s" "shows_time e"
  shows "wp (check_lockout e u) (\<lambda>r s'. s' = s \<and> (r = Inr () \<longrightarrow> list_all (\<lambda>q. mf_failed q < MAX_FAILED_ATTEMPTS) (rows_of u s))) s"
proof (cases "rows_of u s")
  case Nil
  then show ?thesis unfolding check_lockout_def by (auto intro!: wp_intro)
next
  case (Cons r rs)
  have one: "rs = []"
  proof (rule ccontr)
    assume "rs \<noteq> []"
    then obtain q qs where "rs = q # qs" by (cases rs) auto
    with Cons have two: "filter (\<lambda>r. mf_user r = u) (mfa_rows s) = r # q # qs" by (simp add: rows_of_def)
    have "distinct (map mf_user (filter (\<lambda>r. mf_user r = u) (mfa_rows s)))"
      using assms(1) by (simp add: mfa_inv_def distinct_map_filter)
    moreover have "set (r # q # qs) \<subseteq> {x. mf_user x = u}" unfolding two [symmetric] by auto
    ultimately show False by (simp add: two)
  qed
  have "r \<in> set (mfa_rows s)" using Cons by (metis filter_is_subset list.set_intros(1) rows_of_def subsetD)
  then have c: "counted r" using assms(1) by (simp add: mfa_inv_def list_all_iff)
  then have "in_i64 (mf_failed r)" by (simp add: counted_def MAX_FAILED_ATTEMPTS_def in_i64_def)
  with Cons one c assms(2) show ?thesis
    unfolding check_lockout_def
    by (auto intro!: wp_intro simp: json_row_def col_i64_def col_str_def cell_opt_def counted_def shows_time_def)
qed

lemma record_failed_attempt_inv:
  assumes "mfa_inv s" "list_all (\<lambda>q. mf_failed q < MAX_FAILED_ATTEMPTS) (rows_of u s)"
  shows "wp (record_failed_attempt e u) (\<lambda>_. mfa_inv) s"
  unfolding record_failed_attempt_def
  by (rule wp_stmt) (use assms in \<open>auto intro!: mfa_inv_update simp: counted_def list_all_iff split: if_splits\<close>)

lemma reset_inv: "mfa_inv s \<Longrightarrow> mfa_inv (update_mfa u (\<lambda>r. r\<lparr>mf_failed := 0, mf_updated := n\<rparr>) s)"
    "mfa_inv s \<Longrightarrow> mfa_inv (update_mfa u (\<lambda>r. r\<lparr>mf_enabled := True, mf_verified := True, mf_failed := 0, mf_updated := n\<rparr>) s)"
  by (auto intro!: mfa_inv_update simp: counted_def MAX_FAILED_ATTEMPTS_def)

lemma wp_ask_enabled: "wp (ask_enabled u) (\<lambda>_ s'. s' = s) s"
  unfolding ask_enabled_def by (auto intro!: wp_intro)

lemma verify_inv:
  assumes "mfa_inv s" "shows_time e"
  shows "wp (verify_code e u c) (\<lambda>_. mfa_inv) s" "wp (verify_enrollment e u c) (\<lambda>_. mfa_inv) s"
proof -
  let ?k = "\<lambda>t. bind_io (check_lockout e u) (\<lambda>_. bind_io (lift (verify_totp e t c))
     (\<lambda>ok. if ok then exec (update_mfa u (\<lambda>r. r\<lparr>mf_enabled := True, mf_verified := True, mf_failed := 0, mf_updated := mfa_now e\<rparr>))
       else bind_io (record_failed_attempt e u) (\<lambda>_. fail (Unauthorized ''Invalid MFA code''))))"
  have after: "wp (?k t) (\<lambda>_. mfa_inv) s" for t
    by (rule wp_bind_io, rule wp_weaken [OF check_lockout_passes [OF assms]])
      (use assms(1) in \<open>auto intro!: wp_intro reset_inv wp_weaken [OF record_failed_attempt_inv]\<close>)
  show "wp (verify_enrollment e u c) (\<lambda>_. mfa_inv) s"
    unfolding verify_enrollment_def
    by (rule wp_bind_io, rule wp_weaken [OF wp_get_secret]) (use assms(1) after in auto)
  have "wp (bind_io (get_secret e u) (\<lambda>secret. bind_io (lift (verify_totp e secret c)) (\<lambda>ok.
       if ok then bind_io (exec (update_mfa u (\<lambda>r. r\<lparr>mf_failed := 0, mf_updated := mfa_now e\<rparr>))) (\<lambda>_. ret True)
       else bind_io (record_failed_attempt e u) (\<lambda>_. ret False)))) (\<lambda>_. mfa_inv) s"
    if "list_all (\<lambda>q. mf_failed q < MAX_FAILED_ATTEMPTS) (rows_of u s)"
    by (rule wp_bind_io, rule wp_weaken [OF wp_get_secret])
      (use assms(1) that in \<open>auto intro!: wp_intro reset_inv wp_weaken [OF record_failed_attempt_inv]\<close>)
  then show "wp (verify_code e u c) (\<lambda>_. mfa_inv) s"
    unfolding verify_code_def
    by - (rule wp_bind_io, rule wp_weaken [OF check_lockout_passes [OF assms]],
      use assms(1) in \<open>auto intro!: wp_bind_io wp_ret wp_weaken [OF wp_ask_enabled]\<close>)
qed

lemma enroll_disable_inv: "keeps mfa_inv (enroll e u email)" "keeps mfa_inv (disable u)" "keeps mfa_inv (use_recovery_code e u c)"
  unfolding enroll_def disable_def recovery_code_defs generate_recovery_codes_def Let_def
  by (auto intro!: keeps_intro split: list.splits option.splits dest: mfa_inv_insert mfa_inv_insert_code)

lemma mfa_handler_inv:
  assumes "mfa_inv s" "shows_time e"
  shows "wp (mfa_handler e (Inr (u, email)) rq) (\<lambda>_. mfa_inv) s"
proof -
  have post: "wp (bind_io m k) (\<lambda>_. mfa_inv) s" if "wp m (\<lambda>_. mfa_inv) s" "\<And>a. keeps mfa_inv (k a)"
    for m :: "(mfa_state, 'b) io" and k :: "'b \<Rightarrow> (mfa_state, mfa_answer) io"
    by (rule wp_bind_io, rule wp_weaken [OF that(1)]) (auto intro: wp_keeps that(2))
  show ?thesis
    using verify_inv [OF assms] enroll_disable_inv(2) wp_keeps [OF enroll_disable_inv(1) assms(1)]
      wp_keeps [OF enroll_disable_inv(3) assms(1)]
    by (cases rq) (auto intro!: post keeps_intro intro: wp_keeps assms(1))
qed

text \<open>
  The failure counter of a user never passes the limit, and a counter at the limit has a lockout time,
  whatever requests are served one after the other and whatever calls fail: at most five wrong codes in a
  row are ever compared, since a call that finds the counter at the limit compares none.
\<close>

theorem failures_stay_counted:
  assumes "mfa_inv (st d)" "list_all (\<lambda>c. shows_time (fst c)) cs" "mfa_serve cs d = (rs, d')"
  shows "mfa_inv (st d') \<and> list_all (\<lambda>r. mf_failed r \<le> MAX_FAILED_ATTEMPTS) (mfa_rows (st d'))"
proof -
  from assms have "mfa_inv (st d')"
  proof (induction cs arbitrary: d rs)
    case Nil
    then show ?case by simp
  next
    case (Cons c cs)
    obtain e auth rq where c: "c = (e, auth, rq)" by (cases c)
    obtain r d1 where r: "mfa_handler e auth rq d = (r, d1)" by (cases "mfa_handler e auth rq d")
    obtain rs' where rs: "mfa_serve cs d1 = (rs', d')"
      using Cons.prems(3) r by (auto simp: c split: prod.splits)
    have "mfa_inv (st d1)"
    proof (cases auth)
      case (Inl err)
      then have "st d1 = st d" using r by (cases rq; simp)+
      with Cons.prems(1) show ?thesis by simp
    next
      case (Inr who)
      obtain u email where who: "who = (u, email)" by (cases who)
      from Cons.prems(1,2) have "wp (mfa_handler e auth rq) (\<lambda>_. mfa_inv) (st d)"
        unfolding Inr who by (intro mfa_handler_inv) (simp_all add: c)
      from wp_D [OF this r] show ?thesis .
    qed
    with Cons.IH [OF _ _ rs] Cons.prems(2) show ?case by simp
  qed
  then show ?thesis by (auto simp: mfa_inv_def counted_def list_all_iff)
qed

theorem failures_stay_counted_witness:
  "mfa_inv (st (snd (mfa_serve [(demo_mfa_env, Inr (7, ''a@b.c''), ChallengeRequest ''000000'')] (up demo_mfa_state))))"
  by (rule conjunct1 [OF failures_stay_counted [of "up demo_mfa_state"
        "[(demo_mfa_env, Inr (7, ''a@b.c''), ChallengeRequest ''000000'')]", OF _ _ prod.collapse [symmetric]]])
    (simp_all add: mfa_inv_def demo_mfa_state_def demo_mfa_row_def counted_def MAX_FAILED_ATTEMPTS_def shows_time_def demo_mfa_env_def)

section \<open>Recovery codes are single use\<close>

definition codes_ok :: "mfa_state \<Rightarrow> bool" where
  "codes_ok s \<longleftrightarrow> distinct (map rc_id (rec_codes s)) \<and> distinct (map (\<lambda>c. (rc_user c, rc_hash c)) (rec_codes s))
     \<and> list_all (\<lambda>c. in_i64 (rc_id c)) (rec_codes s)"

text \<open>A code is known by its user and its hash; it is live while a row of it is not used.\<close>

definition code_key :: "'k mfa_env \<Rightarrow> int \<times> string \<Rightarrow> int \<times> string" where
  "code_key e c = (fst c, sha_hex e (snd c))"

definition live_code :: "int \<times> string \<Rightarrow> mfa_state \<Rightarrow> bool" where
  "live_code t s \<longleftrightarrow> list_ex (\<lambda>c. rc_user c = fst t \<and> rc_hash c = snd t \<and> \<not> rc_used c) (rec_codes s)"

definition names_code :: "int \<Rightarrow> int \<times> string \<Rightarrow> mfa_state \<Rightarrow> bool" where
  "names_code i t s \<longleftrightarrow> list_all (\<lambda>c. rc_user c = fst t \<and> rc_hash c = snd t \<longrightarrow> rc_id c = i) (rec_codes s)"

text \<open>
  A request in its two statements. Between them other requests act: other uses of codes in the same two
  statements, and every request of the service except an enrolment, which writes new codes.
\<close>

definition look_code :: "'k mfa_env \<Rightarrow> int \<times> string \<Rightarrow> mfa_state db \<Rightarrow> int option \<times> mfa_state db" where
  "look_code e c d =
     (case find_recovery_code e (fst c) (snd c) d of (Inr (Some i), d') \<Rightarrow> (Some i, d') | (_, d') \<Rightarrow> (None, d'))"

definition spend_code :: "int \<times> string \<Rightarrow> int \<Rightarrow> mfa_state db \<Rightarrow> bool \<times> mfa_state db" where
  "spend_code c i d = (case mark_recovery_code i d of (r, d') \<Rightarrow> (r = Inr (), d'))"

definition other_request :: "'k mfa_env \<times> (int \<times> string) result \<times> mfa_request \<Rightarrow> mfa_state db \<Rightarrow> mfa_state db" where
  "other_request = (\<lambda>(e, auth, rq) d. snd (mfa_handler e auth rq d))"

definition enrols :: "'k mfa_env \<times> (int \<times> string) result \<times> mfa_request \<Rightarrow> int \<times> string \<Rightarrow> bool" where
  "enrols = (\<lambda>(_, _, rq) _. rq = EnrollRequest)"

text \<open>The handler of a recovery code is these two statements, one after the other.\<close>

lemma recovery_request_phases:
  "mfa_handler e (Inr (u, email)) (RecoveryRequest code) d =
     (case find_recovery_code e u code d of
        (Inl err, d') \<Rightarrow> (Inl err, d')
      | (Inr None, d') \<Rightarrow> (Inl (Unauthorized ''Invalid recovery code''), d')
      | (Inr (Some i), d') \<Rightarrow>
          (case mark_recovery_code i d' of
             (Inl err, d'') \<Rightarrow> (Inl err, d'')
           | (Inr _, d'') \<Rightarrow> (Inr (Message ''Recovery code accepted''), d'')))"
  by (auto simp: use_recovery_code_def bind_io_def lift_def ret_def fail_def split: prod.split sum.split option.split)

text \<open>Whatever is not an enrolment forgets codes or marks them, and adds none.\<close>

definition fewer_codes :: "code_row list \<Rightarrow> mfa_state \<Rightarrow> bool" where
  "fewer_codes cs s \<longleftrightarrow> (\<exists>m P. rec_codes s = map m (filter P cs)
     \<and> (\<forall>c. rc_id (m c) = rc_id c \<and> rc_user (m c) = rc_user c \<and> rc_hash (m c) = rc_hash c \<and> (rc_used c \<longrightarrow> rc_used (m c))))"

lemma fewer_codes_intros:
  "fewer_codes (rec_codes s) s"
  "fewer_codes cs s \<Longrightarrow> fewer_codes cs (update_mfa u f s)"
  "fewer_codes cs s \<Longrightarrow> fewer_codes cs (delete_mfa u s)"
  "fewer_codes cs s \<Longrightarrow> fewer_codes cs (delete_codes u s)"
  "fewer_codes cs s \<Longrightarrow> fewer_codes cs (s\<lparr>rec_codes := map (\<lambda>c. if rc_id c = i then c\<lparr>rc_used := True\<rparr> else c) (rec_codes s)\<rparr>)"
proof -
  show "fewer_codes (rec_codes s) s"
    unfolding fewer_codes_def by (intro exI [of _ id] exI [of _ "\<lambda>_. True"]) simp
  show "fewer_codes cs s \<Longrightarrow> fewer_codes cs (update_mfa u f s)" "fewer_codes cs s \<Longrightarrow> fewer_codes cs (delete_mfa u s)"
    by (simp_all add: fewer_codes_def update_mfa_def delete_mfa_def)
  assume "fewer_codes cs s"
  then obtain m P where m: "rec_codes s = map m (filter P cs)"
    "\<And>c. rc_id (m c) = rc_id c \<and> rc_user (m c) = rc_user c \<and> rc_hash (m c) = rc_hash c \<and> (rc_used c \<longrightarrow> rc_used (m c))"
    by (auto simp: fewer_codes_def)
  show "fewer_codes cs (delete_codes u s)"
    unfolding fewer_codes_def
    by (intro exI [of _ m] exI [of _ "\<lambda>c. P c \<and> rc_user c \<noteq> u"])
      (use m in \<open>simp add: delete_codes_def filter_map comp_def conj_commute\<close>)
  show "fewer_codes cs (s\<lparr>rec_codes := map (\<lambda>c. if rc_id c = i then c\<lparr>rc_used := True\<rparr> else c) (rec_codes s)\<rparr>)"
    unfolding fewer_codes_def
    by (intro exI [of _ "\<lambda>c. if rc_id c = i then (m c)\<lparr>rc_used := True\<rparr> else m c"] exI [of _ P])
      (use m in \<open>simp add: comp_def\<close>)
qed

lemma fewer_codes_keeps:
  assumes "fewer_codes (rec_codes s) s'"
  shows "(codes_ok s \<longrightarrow> codes_ok s') \<and> (live_code t s' \<longrightarrow> live_code t s) \<and> (names_code i t s \<longrightarrow> names_code i t s')"
proof -
  from assms obtain m P where m: "rec_codes s' = map m (filter P (rec_codes s))"
    "\<And>c. rc_id (m c) = rc_id c \<and> rc_user (m c) = rc_user c \<and> rc_hash (m c) = rc_hash c \<and> (rc_used c \<longrightarrow> rc_used (m c))"
    by (auto simp: fewer_codes_def)
  have "map rc_id (rec_codes s') = map rc_id (filter P (rec_codes s))"
    "map (\<lambda>c. (rc_user c, rc_hash c)) (rec_codes s') = map (\<lambda>c. (rc_user c, rc_hash c)) (filter P (rec_codes s))"
    using m by simp_all
  moreover have "list_all (\<lambda>c. in_i64 (rc_id c)) (rec_codes s) \<longrightarrow> list_all (\<lambda>c. in_i64 (rc_id c)) (rec_codes s')"
    using m by (auto simp: list_all_iff)
  ultimately have "codes_ok s \<longrightarrow> codes_ok s'"
    unfolding codes_ok_def by (simp add: distinct_map_filter)
  moreover have "live_code t s' \<longrightarrow> live_code t s" using m by (auto simp: live_code_def list_ex_iff)
  moreover have "names_code i t s \<longrightarrow> names_code i t s'" using m by (auto simp: names_code_def list_all_iff)
  ultimately show ?thesis by blast
qed

lemma handler_adds_no_codes:
  assumes "rq \<noteq> EnrollRequest"
  shows "keeps (fewer_codes cs) (mfa_handler e auth rq)"
proof -
  have r: "keeps (fewer_codes cs) (record_failed_attempt e u)" for u
    unfolding record_failed_attempt_def by (auto intro!: keeps_intro fewer_codes_intros(2) split: if_splits)
  have "keeps (fewer_codes cs) (verify_enrollment e u code)" "keeps (fewer_codes cs) (verify_code e u code)" for u code
    unfolding verify_enrollment_def verify_code_def by (auto intro!: keeps_intro r fewer_codes_intros(2))
  moreover have "keeps (fewer_codes cs) (disable u)" for u
    unfolding disable_def by (auto intro!: keeps_intro fewer_codes_intros(3,4))
  moreover have "keeps (fewer_codes cs) (use_recovery_code e u code)" for u code
    unfolding recovery_code_defs by (auto intro!: keeps_intro fewer_codes_intros(5) split: list.splits option.splits)
  ultimately show ?thesis using assms by (cases rq) (auto intro!: keeps_intro)
qed

lemma mark_wp: "wp (mark_recovery_code i) (\<lambda>r s'. fewer_codes (rec_codes s) s'
    \<and> (r = Inr () \<longrightarrow> rec_codes s' = map (\<lambda>c. if rc_id c = i then c\<lparr>rc_used := True\<rparr> else c) (rec_codes s))) s"
  unfolding mark_recovery_code_def
  by (rule wp_exec) (auto intro: fewer_codes_intros(1) fewer_codes_intros(5) [OF fewer_codes_intros(1)])

lemma find_wp:
  assumes "codes_ok s"
  shows "wp (find_recovery_code e u code) (\<lambda>r s'. s' = s \<and>
    (\<forall>i. r = Inr (Some i) \<longrightarrow> live_code (u, sha_hex e code) s \<and> names_code i (u, sha_hex e code) s)) s"
proof (cases "filter (\<lambda>c. rc_user c = u \<and> rc_hash c = sha_hex e code \<and> \<not> rc_used c) (rec_codes s)")
  case Nil
  then show ?thesis unfolding find_recovery_code_def by (auto intro!: wp_intro)
next
  case (Cons c cs)
  then have "c \<in> set (filter (\<lambda>c. rc_user c = u \<and> rc_hash c = sha_hex e code \<and> \<not> rc_used c) (rec_codes s))" by simp
  then have c: "c \<in> set (rec_codes s)" "rc_user c = u" "rc_hash c = sha_hex e code" "\<not> rc_used c" by auto
  then have "in_i64 (rc_id c)" using assms by (auto simp: codes_ok_def list_all_iff)
  have one: "c' = c" if "c' \<in> set (rec_codes s)" "rc_user c' = u" "rc_hash c' = sha_hex e code" for c'
    using inj_onD [of "\<lambda>c. (rc_user c, rc_hash c)" "set (rec_codes s)" c' c] assms c that by (simp add: codes_ok_def distinct_map)
  have "names_code (rc_id c) (u, sha_hex e code) s"
    unfolding names_code_def list_all_iff using one by fastforce
  moreover have "live_code (u, sha_hex e code) s" using c by (auto simp: live_code_def list_ex_iff)
  ultimately show ?thesis
    using Cons \<open>in_i64 (rc_id c)\<close> unfolding find_recovery_code_def
    by (auto intro!: wp_intro simp: json_row_def col_i64_def)
qed

interpretation recovery: two_phase codes_ok live_code names_code "look_code e" spend_code other_request "code_key e" enrols for e
proof unfold_locales
  have look: "st d' = st d" "codes_ok (st d) \<Longrightarrow> x = Some i \<Longrightarrow> live_code (code_key e c) (st d) \<and> names_code i (code_key e c) (st d)"
    if l: "look_code e c d = (x, d')" for c d x d' i
  proof -
    obtain r where r: "find_recovery_code e (fst c) (snd c) d = (r, d')" "x = Some i \<Longrightarrow> r = Inr (Some i)" for i
      using l by (auto simp: look_code_def split: prod.splits sum.splits option.splits)
    have "keeps (\<lambda>s. s = st d) (find_recovery_code e (fst c) (snd c))"
      unfolding find_recovery_code_def by (auto intro!: keeps_intro split: list.splits option.splits)
    from wp_D [OF wp_keeps [OF this refl] r(1)] show "st d' = st d" by simp
    assume "codes_ok (st d)" "x = Some i"
    with wp_D [OF find_wp r(1)] r(2) show "live_code (code_key e c) (st d) \<and> names_code i (code_key e c) (st d)"
      by (simp add: code_key_def)
  qed
  show "st d' = st d" if "look_code e c d = (x, d')" for c d x d' using look(1) [OF that] .
  show "live_code (code_key e c) (st d) \<and> names_code h (code_key e c) (st d)"
    if "look_code e c d = (Some h, d')" "codes_ok (st d)" for c d h d' using look(2) [OF that refl] .
  have spend: "fewer_codes (rec_codes (st d)) (st d') \<and> (ok \<longrightarrow>
      rec_codes (st d') = map (\<lambda>c. if rc_id c = i then c\<lparr>rc_used := True\<rparr> else c) (rec_codes (st d)))"
    if s: "spend_code c i d = (ok, d')" for c i d ok d'
  proof -
    obtain r where r: "mark_recovery_code i d = (r, d')" "ok = (r = Inr ())"
      using s by (auto simp: spend_code_def split: prod.splits)
    from wp_D [OF mark_wp r(1)] r(2) show ?thesis by simp
  qed
  show "\<not> live_code (code_key e c) (st d')"
    if "spend_code c h d = (True, d')" "codes_ok (st d)" "names_code h (code_key e c) (st d)" for c h d d'
    using spend [OF that(1)] that(3) by (auto simp: live_code_def names_code_def list_ex_iff list_all_iff)
  show "codes_ok (st d') \<and> (live_code t (st d') \<longrightarrow> live_code t (st d)) \<and> (names_code g t (st d) \<longrightarrow> names_code g t (st d'))"
    if "spend_code c h d = (ok, d')" "codes_ok (st d)" for c h d ok d' t g
    using fewer_codes_keeps spend [OF that(1)] that(2) by blast
  show "codes_ok (st (other_request a d)) \<and> (live_code t (st (other_request a d)) \<longrightarrow> live_code t (st d))
      \<and> (names_code g t (st d) \<longrightarrow> names_code g t (st (other_request a d)))"
    if "\<not> enrols a t" "codes_ok (st d)" for a :: "'x mfa_env \<times> (int \<times> string) result \<times> mfa_request" and t d g
  proof -
    obtain e' auth rq where a: "a = (e', auth, rq)" by (cases a)
    with that(1) have "rq \<noteq> EnrollRequest" by (simp add: enrols_def)
    from wp_D [OF wp_keeps [OF handler_adds_no_codes [OF this] fewer_codes_intros(1)] prod.collapse [symmetric]]
    have "fewer_codes (rec_codes (st d)) (st (other_request a d))" by (simp add: other_request_def a)
    with fewer_codes_keeps that(2) show ?thesis by blast
  qed
qed



lemmas demo_code_defs = look_code_def spend_code_def find_recovery_code_def mark_recovery_code_def demo_mfa_state_def
  demo_mfa_env_def json_row_def col_i64_def in_i64_def

theorem recovery_code_race:
  "fst (run_phases (look_code demo_mfa_env) spend_code other_request
      ([Reads (7, ''AAAA''), Reads (7, ''AAAA''), Spends 0, Spends 0]
         :: (int \<times> string, string mfa_env \<times> (int \<times> string) result \<times> mfa_request) phase list) [] (up demo_mfa_state))
     = [((7, ''AAAA''), True), ((7, ''AAAA''), True)]"
  by (simp add: demo_code_defs)


end
