(* ===== verification/Scheduler.thy ===== *)
theory Scheduler imports Store "HOL-Library.List_Lexorder" "HOL-Library.Char_ord" begin

text \<open>
  Scheduled jobs (\<open>src/src/platform/scheduler.rs\<close>): the cron parser and matcher, and the service with its
  two tables and the list of jobs kept in memory. The loop that enumerates a stepped field works on
  \<open>u8\<close> values that wrap around in a release build; it need not end, so it is a partial function whose
  value \<open>None\<close> says that the call does not return. The HTTP client, serde's reading of a job type, and
  what the server makes of a text bound to a boolean column are parameters.
\<close>

section \<open>Cron expressions\<close>

text \<open>\<open>let mut v = start; while v <= end { values.push(v); v += step; }\<close>\<close>

partial_function (option) step_values :: "8 word \<Rightarrow> 8 word \<Rightarrow> 8 word \<Rightarrow> 8 word list option" where
  "step_values v end_value step =
     (if v \<le> end_value then Option.bind (step_values (v + step) end_value step) (\<lambda>vs. Some (v # vs)) else Some [])"

text \<open>\<open>start..=end\<close>\<close>

definition range_values :: "nat \<Rightarrow> nat \<Rightarrow> nat list" where
  "range_values a b = [a..<Suc b]"

definition u8_or :: "string \<Rightarrow> string \<Rightarrow> nat result" where
  "u8_or what s = ok_or (InvalidPayload what) (parse_u8 s)"

text \<open>The bounds of a stepped part.\<close>

definition step_bounds :: "string \<Rightarrow> nat \<Rightarrow> nat \<Rightarrow> (nat \<times> nat) result" where
  "step_bounds range_text min_value max_value =
     (if range_text = ''*'' then Inr (min_value, max_value)
      else (case split_once CHR ''-'' range_text of
          Some (s, e) \<Rightarrow> and_then (u8_or ''Invalid cron range'' s) (\<lambda>a. and_then (u8_or ''Invalid cron range'' e) (\<lambda>b. Inr (a, b)))
        | None \<Rightarrow> and_then (u8_or ''Invalid cron value'' range_text) (\<lambda>a. Inr (a, max_value))))"

text \<open>The values of one part between commas; \<open>None\<close>: the loop does not end.\<close>

definition parse_part :: "nat \<Rightarrow> nat \<Rightarrow> string \<Rightarrow> nat list result option" where
  "parse_part min_value max_value part =
     (case split_once CHR ''/'' part of
        Some (range_text, step_text) \<Rightarrow>
          (case and_then (u8_or ''Invalid cron step'' step_text)
                (\<lambda>step. and_then (step_bounds range_text min_value max_value) (\<lambda>(a, b). Inr (step, a, b))) of
             Inl e \<Rightarrow> Some (Inl e)
           | Inr (step, a, b) \<Rightarrow>
               map_option (\<lambda>vs. Inr (map unat vs)) (step_values (word_of_nat a) (word_of_nat b) (word_of_nat step)))
      | None \<Rightarrow>
          (case split_once CHR ''-'' part of
             Some (s, e) \<Rightarrow>
               Some (and_then (u8_or ''Invalid cron range'' s)
                 (\<lambda>a. and_then (u8_or ''Invalid cron range'' e) (\<lambda>b. Inr (range_values a b))))
           | None \<Rightarrow> Some (and_then (u8_or ''Invalid cron value'' part) (\<lambda>v. Inr [v]))))"

fun parse_parts :: "nat \<Rightarrow> nat \<Rightarrow> string list \<Rightarrow> nat list \<Rightarrow> nat list result option" where
  "parse_parts lo hi [] acc = Some (Inr acc)"
| "parse_parts lo hi (p # ps) acc =
     (case parse_part lo hi p of
        None \<Rightarrow> None
      | Some (Inl e) \<Rightarrow> Some (Inl e)
      | Some (Inr vs) \<Rightarrow> parse_parts lo hi ps (acc @ vs))"

text \<open>\<open>Vec::dedup\<close> removes adjacent duplicates, that is \<open>remdups_adj\<close>.\<close>

definition parse_field :: "string \<Rightarrow> nat \<Rightarrow> nat \<Rightarrow> nat list result option" where
  "parse_field field lo hi =
     (if field = ''*'' then Some (Inr (range_values lo hi))
      else map_option (map_sum id (\<lambda>values. remdups_adj (sort (filter (\<lambda>v. lo \<le> v \<and> v \<le> hi) values))))
             (parse_parts lo hi (split_on CHR '','' field) []))"

record cron_expression =
  minutes :: "nat list"
  hours :: "nat list"
  days_of_month :: "nat list"
  months :: "nat list"
  days_of_week :: "nat list"

text \<open>The question-mark operator over a call that may not return.\<close>

definition then_field :: "'a result option \<Rightarrow> ('a \<Rightarrow> 'b result option) \<Rightarrow> 'b result option" where
  "then_field m k = (case m of None \<Rightarrow> None | Some (Inl e) \<Rightarrow> Some (Inl e) | Some (Inr a) \<Rightarrow> k a)"

definition parse_cron :: "string \<Rightarrow> cron_expression result option" where
  "parse_cron expr =
     (let parts = split_whitespace (trim expr) in
      if length parts \<noteq> 5
      then Some (Inl (InvalidPayload ''Cron expression must have 5 fields (min hour dom month dow)''))
      else
        then_field (parse_field (parts ! 0) 0 59) (\<lambda>mi.
        then_field (parse_field (parts ! 1) 0 23) (\<lambda>ho.
        then_field (parse_field (parts ! 2) 1 31) (\<lambda>dm.
        then_field (parse_field (parts ! 3) 1 12) (\<lambda>mo.
        then_field (parse_field (parts ! 4) 0 6) (\<lambda>dw.
        Some (Inr \<lparr>minutes = mi, hours = ho, days_of_month = dm, months = mo, days_of_week = dw\<rparr>)))))))"

text \<open>The clock as \<open>matches_now\<close> reads it: minute, hour, day, month, and ISO day of the week (1 to 7).\<close>

record clock =
  c_minute :: nat
  c_hour :: nat
  c_day :: nat
  c_month :: nat
  c_weekday :: nat

definition matches_now :: "cron_expression \<Rightarrow> clock \<Rightarrow> bool" where
  "matches_now c now \<longleftrightarrow>
     c_minute now \<in> set (minutes c) \<and> c_hour now \<in> set (hours c) \<and> c_day now \<in> set (days_of_month c)
     \<and> c_month now \<in> set (months c) \<and> c_weekday now mod 7 \<in> set (days_of_week c)"

section \<open>The service\<close>

datatype job_type = SqlQuery | HttpWebhook | FunctionInvoke | DataCleanup | AnalyticsRollup

fun job_type_text :: "job_type \<Rightarrow> string" where
  "job_type_text SqlQuery = ''sql_query''"
| "job_type_text HttpWebhook = ''http_webhook''"
| "job_type_text FunctionInvoke = ''function_invoke''"
| "job_type_text DataCleanup = ''data_cleanup''"
| "job_type_text AnalyticsRollup = ''analytics_rollup''"

definition job_type_of :: "string \<Rightarrow> job_type option" where
  "job_type_of s = find (\<lambda>t. job_type_text t = s) [SqlQuery, HttpWebhook, FunctionInvoke, DataCleanup, AnalyticsRollup]"

record scheduled_job =
  sj_id :: string
  sj_tenant :: int
  sj_name :: string
  sj_cron :: string
  sj_type :: job_type
  sj_payload :: json
  sj_timezone :: string
  sj_enabled :: bool
  sj_max_retries :: int
  sj_timeout :: int
  sj_last_run :: "string option"
  sj_next_run :: "string option"
  sj_created :: string

record job_row =
  jr_id :: string
  jr_tenant :: int
  jr_name :: string
  jr_cron :: string
  jr_type :: string
  jr_payload :: json
  jr_timezone :: string
  jr_enabled :: bool
  jr_max_retries :: int
  jr_timeout :: int
  jr_last_run :: "nat option"
  jr_next_run :: "nat option"
  jr_created :: nat

record exec_row =
  ex_id :: string
  ex_job :: string
  ex_status :: string
  ex_started :: nat
  ex_completed :: "nat option"
  ex_duration :: "int option"
  ex_result :: "json option"
  ex_error :: "string option"
  ex_attempt :: int

text \<open>The two tables, and the jobs in memory.\<close>

record scheduler =
  sch_jobs :: "job_row list"
  sch_execs :: "exec_row list"
  mem_jobs :: "scheduled_job list"

record sched_env =
  se_uuid :: string
  se_now :: nat
  se_elapsed :: int
  se_show :: "nat \<Rightarrow> string"
  se_rfc3339 :: string
  run_sql :: "string \<Rightarrow> nat result"
  http_get :: "string \<Rightarrow> nat option"
  http_post :: "string \<Rightarrow> json \<Rightarrow> nat option"
  text_to_bool :: "string \<Rightarrow> bool option"

definition job_cells :: "sched_env \<Rightarrow> job_row \<Rightarrow> (string \<times> cell) list" where
  "job_cells e r =
     [(''id'', cell_text (jr_id r)), (''tenant_id'', cell_int (jr_tenant r)), (''name'', cell_text (jr_name r)),
      (''cron_expression'', cell_text (jr_cron r)), (''job_type'', cell_text (jr_type r)),
      (''payload'', cell_jsonb (jr_payload r)), (''timezone'', cell_text (jr_timezone r)),
      (''enabled'', cell_bool (jr_enabled r)), (''max_retries'', cell_int (jr_max_retries r)),
      (''timeout_secs'', cell_int (jr_timeout r)),
      (''last_run_at'', cell_opt ''TIMESTAMPTZ'' (\<lambda>t. cell_time (se_show e t)) (jr_last_run r)),
      (''next_run_at'', cell_opt ''TIMESTAMPTZ'' (\<lambda>t. cell_time (se_show e t)) (jr_next_run r)),
      (''created_at'', cell_time (se_show e (jr_created r)))]"

text \<open>\<open>as u32\<close> and \<open>as u64\<close> keep the low bits.\<close>

definition job_of_row :: "(string \<Rightarrow> json option) \<Rightarrow> row \<Rightarrow> scheduled_job" where
  "job_of_row p row =
     \<lparr>sj_id = unwrap_or [] (col_str row ''id''), sj_tenant = unwrap_or 0 (col_i64 row ''tenant_id''),
      sj_name = unwrap_or [] (col_str row ''name''), sj_cron = unwrap_or [] (col_str row ''cron_expression''),
      sj_type = unwrap_or SqlQuery (Option.bind (p (unwrap_or [] (map_option (\<lambda>s. [CHR 0x22] @ s @ [CHR 0x22]) (col_str row ''job_type''))))
          (\<lambda>v. Option.bind (as_str v) job_type_of)),
      sj_payload = unwrap_or (JObject []) (row_get row ''payload''),
      sj_timezone = unwrap_or ''UTC'' (col_str row ''timezone''), sj_enabled = True,
      sj_max_retries = unwrap_or 3 (col_i64 row ''max_retries'') mod 4294967296,
      sj_timeout = unwrap_or 300 (col_i64 row ''timeout_secs'') mod 18446744073709551616,
      sj_last_run = col_str row ''last_run_at'', sj_next_run = col_str row ''next_run_at'',
      sj_created = unwrap_or [] (col_str row ''created_at'')\<rparr>"

definition load_jobs :: "sched_env \<Rightarrow> (string \<Rightarrow> json option) \<Rightarrow> (string \<Rightarrow> string) \<Rightarrow> (scheduler, unit) io" where
  "load_jobs e p b =
     bind_io (query p b (\<lambda>s. map (job_cells e) (filter jr_enabled (sch_jobs s))))
       (\<lambda>rows. modify (\<lambda>s. s\<lparr>mem_jobs := mem_jobs s @ map (job_of_row p) rows\<rparr>))"

definition insert_job :: "job_row \<Rightarrow> scheduler \<Rightarrow> (unit \<times> scheduler) result" where
  "insert_job r s =
     (if jr_id r \<in> jr_id ` set (sch_jobs s) then Inl (Database ''duplicate key'')
      else Inr ((), s\<lparr>sch_jobs := sch_jobs s @ [r]\<rparr>))"

text \<open>\<open>None\<close>: the validation of the cron expression does not return.\<close>

definition create_job ::
  "sched_env \<Rightarrow> int \<Rightarrow> string \<Rightarrow> string \<Rightarrow> job_type \<Rightarrow> json \<Rightarrow> (scheduler, scheduled_job) io option" where
  "create_job e tenant name cron ty payload =
     map_option (\<lambda>valid.
       bind_io (lift valid) (\<lambda>_.
       bind_io (stmt (insert_job \<lparr>jr_id = se_uuid e, jr_tenant = tenant, jr_name = name, jr_cron = cron,
           jr_type = job_type_text ty, jr_payload = payload, jr_timezone = ''UTC'', jr_enabled = True,
           jr_max_retries = 3, jr_timeout = 300, jr_last_run = None, jr_next_run = None, jr_created = se_now e\<rparr>)) (\<lambda>_.
       let job = \<lparr>sj_id = se_uuid e, sj_tenant = tenant, sj_name = name, sj_cron = cron, sj_type = ty,
           sj_payload = payload, sj_timezone = ''UTC'', sj_enabled = True, sj_max_retries = 3, sj_timeout = 300,
           sj_last_run = None, sj_next_run = None, sj_created = se_rfc3339 e\<rparr> in
       bind_io (modify (\<lambda>s. s\<lparr>mem_jobs := mem_jobs s @ [job]\<rparr>)) (\<lambda>_. ret job))))
     (parse_cron cron)"

definition list_jobs ::
  "sched_env \<Rightarrow> (string \<Rightarrow> json option) \<Rightarrow> (string \<Rightarrow> string) \<Rightarrow> int \<Rightarrow> (scheduler, json list) io" where
  "list_jobs e p b tenant =
     bind_io (query p b (\<lambda>s. map (\<lambda>r. filter (\<lambda>(k, _). k \<notin> {''tenant_id'', ''payload'', ''timezone'', ''max_retries'', ''timeout_secs''})
           (job_cells e r))
         (rev (sort_key jr_created (filter (\<lambda>r. jr_tenant r = tenant) (sch_jobs s))))))
       (\<lambda>rows. ret (map (\<lambda>r. JObject (sort_key fst r)) rows))"

definition exec_cells :: "sched_env \<Rightarrow> exec_row \<Rightarrow> (string \<times> cell) list" where
  "exec_cells e r =
     [(''id'', cell_text (ex_id r)), (''status'', cell_text (ex_status r)), (''started_at'', cell_time (se_show e (ex_started r))),
      (''completed_at'', cell_opt ''TIMESTAMPTZ'' (\<lambda>t. cell_time (se_show e t)) (ex_completed r)),
      (''duration_ms'', cell_opt ''INT8'' cell_int (ex_duration r)), (''result'', cell_opt ''JSONB'' cell_jsonb (ex_result r)),
      (''error'', cell_opt ''TEXT'' cell_text (ex_error r)), (''attempt'', cell_int (ex_attempt r))]"

definition get_executions ::
  "sched_env \<Rightarrow> (string \<Rightarrow> json option) \<Rightarrow> (string \<Rightarrow> string) \<Rightarrow> string \<Rightarrow> nat \<Rightarrow> (scheduler, json list) io" where
  "get_executions e p b job limit =
     bind_io (query p b (\<lambda>s. map (exec_cells e)
         (take limit (rev (sort_key ex_started (filter (\<lambda>r. ex_job r = job) (sch_execs s)))))))
       (\<lambda>rows. ret (map (\<lambda>r. JObject (sort_key fst r)) rows))"

text \<open>Deleting a job deletes its executions (\<open>ON DELETE CASCADE\<close>).\<close>

definition delete_rows :: "string \<Rightarrow> int \<Rightarrow> scheduler \<Rightarrow> scheduler" where
  "delete_rows job tenant s =
     (let gone = (\<lambda>r. jr_id r = job \<and> jr_tenant r = tenant) in
      s\<lparr>sch_execs := filter (\<lambda>x. \<not> list_ex (\<lambda>r. gone r \<and> jr_id r = ex_job x) (sch_jobs s)) (sch_execs s),
        sch_jobs := filter (\<lambda>r. \<not> gone r) (sch_jobs s)\<rparr>)"

definition delete_job :: "string \<Rightarrow> int \<Rightarrow> (scheduler, unit) io" where
  "delete_job job tenant =
     bind_io (exec (delete_rows job tenant)) (\<lambda>_.
     modify (\<lambda>s. s\<lparr>mem_jobs := filter (\<lambda>j. sj_id j \<noteq> job) (mem_jobs s)\<rparr>))"

fun update_first :: "('a \<Rightarrow> bool) \<Rightarrow> ('a \<Rightarrow> 'a) \<Rightarrow> 'a list \<Rightarrow> 'a list" where
  "update_first P f [] = []"
| "update_first P f (x # xs) = (if P x then f x # xs else x # update_first P f xs)"

definition toggle_job :: "sched_env \<Rightarrow> string \<Rightarrow> int \<Rightarrow> bool \<Rightarrow> (scheduler, unit) io" where
  "toggle_job e job tenant on =
     bind_io (stmt (\<lambda>s. case text_to_bool e (if on then ''true'' else ''false'') of
         None \<Rightarrow> Inl (Database ''column enabled is of type boolean but expression is of type text'')
       | Some v \<Rightarrow> Inr ((), s\<lparr>sch_jobs := map (\<lambda>r. if jr_id r = job \<and> jr_tenant r = tenant then r\<lparr>jr_enabled := v\<rparr> else r) (sch_jobs s)\<rparr>)))
     (\<lambda>_. modify (\<lambda>s. s\<lparr>mem_jobs := update_first (\<lambda>j. sj_id j = job) (\<lambda>j. j\<lparr>sj_enabled := on\<rparr>) (mem_jobs s)\<rparr>))"

text \<open>\<open>execute_job\<close>: what the job does, then its record.\<close>

definition payload_str :: "scheduled_job \<Rightarrow> string \<Rightarrow> string \<Rightarrow> string" where
  "payload_str j k d = unwrap_or d (Option.bind (jget (sj_payload j) k) as_str)"

definition run_job :: "sched_env \<Rightarrow> scheduled_job \<Rightarrow> (scheduler, json result) io" where
  "run_job e j =
     (case sj_type j of
        SqlQuery \<Rightarrow> attempt (stmt (\<lambda>s. and_then (run_sql e (payload_str j ''query'' []))
            (\<lambda>n. Inr (JObject [(''rows_affected'', json_int (int n))], s))))
      | HttpWebhook \<Rightarrow>
          let url = payload_str j ''url'' []; method = payload_str j ''method'' ''POST'';
              resp = (if method = ''GET'' then http_get e url
                      else http_post e url (unwrap_or (JObject []) (jget (sj_payload j) ''body''))) in
          ret (case resp of None \<Rightarrow> Inl (Internal ''Webhook failed'')
               | Some status \<Rightarrow> Inr (JObject [(''status'', json_int (int status))]))
      | _ \<Rightarrow> ret (Inr (JObject [(''status'', JString ''executed'')])))"

definition insert_exec :: "exec_row \<Rightarrow> scheduler \<Rightarrow> (unit \<times> scheduler) result" where
  "insert_exec r s =
     (if ex_job r \<notin> jr_id ` set (sch_jobs s) then Inl (Database ''violates foreign key constraint'')
      else if ex_id r \<in> ex_id ` set (sch_execs s) then Inl (Database ''duplicate key'')
      else Inr ((), s\<lparr>sch_execs := sch_execs s @ [r]\<rparr>))"

definition update_exec :: "string \<Rightarrow> (exec_row \<Rightarrow> exec_row) \<Rightarrow> scheduler \<Rightarrow> scheduler" where
  "update_exec i f s = s\<lparr>sch_execs := map (\<lambda>r. if ex_id r = i then f r else r) (sch_execs s)\<rparr>"

definition execute_job :: "sched_env \<Rightarrow> scheduled_job \<Rightarrow> (scheduler, unit) io" where
  "execute_job e j =
     bind_io (stmt (insert_exec \<lparr>ex_id = se_uuid e, ex_job = sj_id j, ex_status = ''running'', ex_started = se_now e,
         ex_completed = None, ex_duration = None, ex_result = None, ex_error = None, ex_attempt = 1\<rparr>)) (\<lambda>_.
     bind_io (run_job e j) (\<lambda>result.
     bind_io (case result of
         Inr res \<Rightarrow> exec (update_exec (se_uuid e) (\<lambda>r. r\<lparr>ex_status := ''success'', ex_completed := Some (se_now e),
            ex_duration := Some (se_elapsed e), ex_result := Some res\<rparr>))
       | Inl err \<Rightarrow> exec (update_exec (se_uuid e) (\<lambda>r. r\<lparr>ex_status := ''failed'', ex_completed := Some (se_now e),
            ex_duration := Some (se_elapsed e), ex_error := Some (error_display err)\<rparr>))) (\<lambda>_.
     exec (\<lambda>s. s\<lparr>sch_jobs := map (\<lambda>r. if jr_id r = sj_id j then r\<lparr>jr_last_run := Some (se_now e)\<rparr> else r) (sch_jobs s)\<rparr>))))"

text \<open>One tick of the scheduler: the jobs it starts, and whether the walk over the jobs ends.\<close>

fun due_jobs :: "clock \<Rightarrow> scheduled_job list \<Rightarrow> scheduled_job list \<times> bool" where
  "due_jobs now [] = ([], True)"
| "due_jobs now (j # js) =
     (case parse_cron (sj_cron j) of
        None \<Rightarrow> ([], False)
      | Some (Inl _) \<Rightarrow> due_jobs now js
      | Some (Inr c) \<Rightarrow>
          (if matches_now c now then (case due_jobs now js of (due, ended) \<Rightarrow> (j # due, ended)) else due_jobs now js))"

section \<open>Enumeration of a stepped field\<close>

lemma step_values_more: "v \<le> b \<Longrightarrow> step_values v b k = Option.bind (step_values (v + k) b k) (\<lambda>vs. Some (v # vs))"
  by (subst step_values.simps) simp

lemma step_values_end: "\<not> v \<le> b \<Longrightarrow> step_values v b k = Some []"
  by (subst step_values.simps) simp

text \<open>A set of values closed under the step and below the end is never left.\<close>

lemma step_values_diverges:
  assumes "v \<in> S" "\<And>w. w \<in> S \<Longrightarrow> w \<le> b \<and> w + k \<in> S"
  shows "step_values v b k = None"
proof (rule ccontr)
  assume "step_values v b k \<noteq> None"
  then obtain vs where "step_values v b k = Some vs" by auto
  with assms(1) show False
  proof (induction vs arbitrary: v)
    case Nil
    with assms(2) [of v] show False by (auto simp: step_values_more bind_eq_Some_conv)
  next
    case (Cons x xs)
    with assms(2) [of v] Cons.IH [of "v + k"] show False by (auto simp: step_values_more bind_eq_Some_conv)
  qed
qed

lemma unat_u8: "n < 256 \<Longrightarrow> unat (word_of_nat n :: 8 word) = n"
  by (simp add: unsigned_of_nat take_bit_nat_eq_self)

lemma u8_le: "a < 256 \<Longrightarrow> b < 256 \<Longrightarrow> (word_of_nat a :: 8 word) \<le> word_of_nat b \<longleftrightarrow> a \<le> b"
  by (simp add: word_le_nat_alt unat_u8)

text \<open>The values a stepped part stands for.\<close>

definition stepped :: "nat \<Rightarrow> nat \<Rightarrow> nat \<Rightarrow> nat set" where
  "stepped a b k = {v. a \<le> v \<and> v \<le> b \<and> (v - a) mod k = 0}"

lemma stepped_more: "a \<le> b \<Longrightarrow> 0 < k \<Longrightarrow> stepped a b k = insert a (stepped (a + k) b k)"
proof (rule set_eqI)
  fix v assume *: "a \<le> b" "0 < k"
  have "v \<in> stepped (a + k) b k" if "v \<in> stepped a b k" "v \<noteq> a"
  proof -
    from that have v: "a < v" "v \<le> b" "(v - a) mod k = 0" by (auto simp: stepped_def)
    then have "k \<le> v - a" using dvd_imp_le [of k "v - a"] by (simp add: mod_eq_0_iff_dvd)
    moreover from this have "(v - (a + k)) mod k = (v - a) mod k"
      using le_mod_geq [of k "v - a"] by (simp add: diff_diff_left)
    ultimately show ?thesis using v by (simp add: stepped_def)
  qed
  moreover have "v \<in> stepped a b k" if "v \<in> stepped (a + k) b k"
  proof -
    from that have v: "a + k \<le> v" "v \<le> b" "(v - (a + k)) mod k = 0" by (auto simp: stepped_def)
    then have "(v - a) mod k = 0" using le_mod_geq [of k "v - a"] by (simp add: diff_diff_left)
    with v show ?thesis by (simp add: stepped_def)
  qed
  moreover have "a \<in> stepped a b k" using * by (simp add: stepped_def)
  ultimately show "v \<in> stepped a b k \<longleftrightarrow> v \<in> insert a (stepped (a + k) b k)" by auto
qed

text \<open>Without wrap-around the loop ends and enumerates them.\<close>

lemma step_values_enumerates:
  assumes "0 < k" "b + k < 256" "a < 256"
  shows "\<exists>vs. step_values (word_of_nat a) (word_of_nat b) (word_of_nat k) = Some vs \<and> unat ` set vs = stepped a b k"
  using assms
proof (induction "Suc b - a" arbitrary: a rule: less_induct)
  case less
  show ?case
  proof (cases "a \<le> b")
    case True
    then have le: "(word_of_nat a :: 8 word) \<le> word_of_nat b" using less.prems by (simp add: u8_le)
    have "(word_of_nat a + word_of_nat k :: 8 word) = word_of_nat (a + k)" by simp
    moreover obtain vs where "step_values (word_of_nat (a + k)) (word_of_nat b) (word_of_nat k) = Some vs"
      "unat ` set vs = stepped (a + k) b k"
      using less.hyps [of "a + k"] less.prems True by fastforce
    ultimately have "step_values (word_of_nat a) (word_of_nat b) (word_of_nat k) = Some (word_of_nat a # vs)"
      using step_values_more [OF le, of "word_of_nat k"] by simp
    moreover have "unat ` set (word_of_nat a # vs) = stepped a b k"
      using \<open>unat ` set vs = _\<close> stepped_more [OF True less.prems(1)] less.prems(3) by (simp add: unat_u8)
    ultimately show ?thesis by blast
  next
    case False
    then have "\<not> (word_of_nat a :: 8 word) \<le> word_of_nat b" using less.prems by (simp add: u8_le)
    moreover have "stepped a b k = {}" using False by (auto simp: stepped_def)
    ultimately show ?thesis by (simp add: step_values_end)
  qed
qed

section \<open>The parser\<close>

text \<open>What a part stands for, and when its loop makes progress without wrapping around.\<close>

definition part_selects :: "nat \<Rightarrow> nat \<Rightarrow> string \<Rightarrow> nat \<Rightarrow> bool" where
  "part_selects lo hi part v \<longleftrightarrow>
     (case split_once CHR ''/'' part of
        Some (r, stp) \<Rightarrow>
          (case (parse_u8 stp, step_bounds r lo hi) of (Some k, Inr (a, b)) \<Rightarrow> v \<in> stepped a b k | _ \<Rightarrow> False)
      | None \<Rightarrow>
          (case split_once CHR ''-'' part of
             Some (s, e) \<Rightarrow> (case (parse_u8 s, parse_u8 e) of (Some a, Some b) \<Rightarrow> a \<le> v \<and> v \<le> b | _ \<Rightarrow> False)
           | None \<Rightarrow> parse_u8 part = Some v))"

definition progresses :: "nat \<Rightarrow> nat \<Rightarrow> string \<Rightarrow> bool" where
  "progresses lo hi part \<longleftrightarrow>
     (case split_once CHR ''/'' part of
        Some (r, stp) \<Rightarrow>
          (case (parse_u8 stp, step_bounds r lo hi) of (Some k, Inr (a, b)) \<Rightarrow> 0 < k \<and> b + k < 256 | _ \<Rightarrow> True)
      | None \<Rightarrow> True)"

lemma u8_or_Inr: "u8_or w s = Inr n \<longleftrightarrow> parse_u8 s = Some n"
  by (simp add: u8_or_def ok_or_eq_Inr)

lemma u8_or_split: "u8_or w s = (case parse_u8 s of None \<Rightarrow> Inl (InvalidPayload w) | Some n \<Rightarrow> Inr n)"
  by (simp add: u8_or_def ok_or_def)

lemma step_bounds_lt: "step_bounds r lo hi = Inr (a, b) \<Longrightarrow> lo < 256 \<Longrightarrow> a < 256"
  using parse_u8_le by (fastforce simp: step_bounds_def and_then_eq_Inr u8_or_Inr split: if_splits option.splits)

lemma parse_part_spec:
  assumes "progresses lo hi part" "lo < 256"
  shows "\<exists>r. parse_part lo hi part = Some r \<and> (\<forall>vs. r = Inr vs \<longrightarrow> set vs = {v. part_selects lo hi part v})"
proof (cases "split_once CHR ''/'' part")
  case None
  then show ?thesis
    by (auto simp: parse_part_def part_selects_def u8_or_split range_values_def split: option.splits)
next
  case (Some rs)
  obtain r stp where rs: "rs = (r, stp)" by (cases rs)
  show ?thesis
  proof (cases "parse_u8 stp")
    case none: None
    with Some rs show ?thesis by (simp add: parse_part_def u8_or_split)
  next
    case k: (Some k)
    show ?thesis
    proof (cases "step_bounds r lo hi")
      case (Inl e)
      with Some rs k show ?thesis by (simp add: parse_part_def u8_or_split)
    next
      case (Inr ab)
      obtain a b where ab: "ab = (a, b)" by (cases ab)
      have "0 < k" "b + k < 256" using assms(1) Some rs k Inr ab by (auto simp: progresses_def)
      then obtain vs where "step_values (word_of_nat a) (word_of_nat b) (word_of_nat k) = Some vs" "unat ` set vs = stepped a b k"
        using step_values_enumerates step_bounds_lt [OF Inr [unfolded ab] assms(2)] by blast
      with Some rs k Inr ab show ?thesis by (simp add: parse_part_def part_selects_def u8_or_split)
    qed
  qed
qed

lemma parse_parts_spec:
  assumes "list_all (progresses lo hi) ps" "lo < 256"
  shows "\<exists>r. parse_parts lo hi ps acc = Some r \<and>
    (\<forall>vs. r = Inr vs \<longrightarrow> set vs = set acc \<union> {v. list_ex (\<lambda>p. part_selects lo hi p v) ps})"
  using assms(1)
proof (induction ps arbitrary: acc)
  case Nil
  then show ?case by simp
next
  case (Cons p ps)
  from Cons.prems parse_part_spec [of lo hi p] assms(2) obtain r where r: "parse_part lo hi p = Some r"
    "\<And>vs. r = Inr vs \<Longrightarrow> set vs = {v. part_selects lo hi p v}" by auto
  show ?case
  proof (cases r)
    case (Inl e)
    with r show ?thesis by simp
  next
    case (Inr vs)
    from Cons obtain r' where "parse_parts lo hi ps (acc @ vs) = Some r'"
      "\<And>ws. r' = Inr ws \<Longrightarrow> set ws = set (acc @ vs) \<union> {v. list_ex (\<lambda>p. part_selects lo hi p v) ps}"
      by fastforce
    with r Inr show ?thesis by auto
  qed
qed

lemma strict_remdups_adj: "sorted xs \<Longrightarrow> sorted_wrt (<) (remdups_adj xs)" for xs :: "nat list"
  by (induction xs rule: remdups_adj.induct) auto

text \<open>
  C11. A cron field whose steps are positive and do not overflow is parsed: the call returns, and an accepted
  field is the strictly increasing list of exactly those values in the range that one of its parts stands
  for: a single value, a range, or every k-th value of a range.
\<close>

theorem parse_field_spec:
  assumes "list_all (progresses lo hi) (split_on CHR '','' field)" "lo < 256"
  shows "\<exists>r. parse_field field lo hi = Some r \<and> (\<forall>vs. r = Inr vs \<longrightarrow> sorted_wrt (<) vs \<and>
    (\<forall>v. v \<in> set vs \<longleftrightarrow> lo \<le> v \<and> v \<le> hi \<and>
       (field = ''*'' \<or> list_ex (\<lambda>p. part_selects lo hi p v) (split_on CHR '','' field))))"
proof (cases "field = ''*''")
  case True
  then show ?thesis by (auto simp: parse_field_def range_values_def simp del: upt_Suc)
next
  case False
  from parse_parts_spec [OF assms, of "[]"] obtain r where r: "parse_parts lo hi (split_on CHR '','' field) [] = Some r"
    "\<And>vs. r = Inr vs \<Longrightarrow> set vs = {v. list_ex (\<lambda>p. part_selects lo hi p v) (split_on CHR '','' field)}" by auto
  with strict_remdups_adj [OF sorted_sort] False show ?thesis by (cases r) (auto simp: parse_field_def)
qed

theorem parse_field_spec_witness:
  "\<exists>vs. parse_field ''*/20,7'' 0 59 = Some (Inr vs) \<and> sorted_wrt (<) vs \<and> 20 \<in> set vs \<and> 21 \<notin> set vs"
proof -
  have digits: "parse_u8 ''20'' = Some 20" "parse_u8 ''7'' = Some 7"
    by (simp_all add: parse_u8_def parse_unsigned_def digits_val_def digit_val_def is_ascii_digit_def)
  have sp: "split_on CHR '','' ''*/20,7'' = [''*/20'', ''7'']" "split_once CHR ''/'' ''*/20'' = Some (''*'', ''20'')"
    "split_once CHR ''/'' ''7'' = None" "split_once CHR ''-'' ''7'' = None" by simp_all
  have pr: "list_all (progresses 0 59) (split_on CHR '','' ''*/20,7'')"
    by (simp add: sp progresses_def digits step_bounds_def del: split_once.simps split_on.simps)
  have ok: "parse_field ''*/20,7'' 0 59 = Some (Inr [0, 7, 20, 40])"
    unfolding parse_field_def sp
    by (simp add: parse_part_def sp digits u8_or_def step_bounds_def step_values.simps del: split_once.simps)
  have sel: "list_ex (\<lambda>p. part_selects 0 59 p v) (split_on CHR '','' ''*/20,7'') \<longleftrightarrow> v \<le> 59 \<and> v mod 20 = 0 \<or> v = 7" for v
    by (auto simp: sp part_selects_def digits step_bounds_def stepped_def simp del: split_once.simps split_on.simps)
  have z: "(0 :: nat) < 256" by simp
  obtain r where r: "parse_field ''*/20,7'' 0 59 = Some r" and spec: "\<forall>vs. r = Inr vs \<longrightarrow> sorted_wrt (<) vs \<and>
      (\<forall>v. v \<in> set vs \<longleftrightarrow> 0 \<le> v \<and> v \<le> 59 \<and>
         (''*/20,7'' = ''*'' \<or> list_ex (\<lambda>p. part_selects 0 59 p v) (split_on CHR '','' ''*/20,7'')))"
    using parse_field_spec [OF pr z] by (elim exE conjE)
  from r ok have "r = Inr [0, 7, 20, 40]" by simp
  with spec have "sorted_wrt (<) [0, 7, 20, 40 :: nat] \<and> (\<forall>v. v \<in> set [0, 7, 20, 40] \<longleftrightarrow> 0 \<le> v \<and> v \<le> 59 \<and>
         (''*/20,7'' = ''*'' \<or> list_ex (\<lambda>p. part_selects 0 59 p v) (split_on CHR '','' ''*/20,7'')))" by blast
  then have srt: "sorted_wrt (<) [0, 7, 20, 40 :: nat]"
    and mem: "v \<in> set [0, 7, 20, 40] \<longleftrightarrow> v \<le> 59 \<and> (v \<le> 59 \<and> v mod 20 = 0 \<or> v = 7)" for v :: nat
    unfolding sel by (blast, simp)
  have "(20 :: nat) \<in> set [0, 7, 20, 40]" unfolding mem by simp
  moreover have "(21 :: nat) \<notin> set [0, 7, 20, 40]" unfolding mem by simp
  ultimately show ?thesis using ok srt by blast
qed

text \<open>
  C12. A step of zero hangs the parser, although the field is well-formed otherwise: the loop adds zero to a
  value below the end. So the request that creates such a job never returns, and when such a job is in memory
  the scheduler's walk over the jobs stops at it: no job after it is ever started.
\<close>

theorem zero_step_never_returns:
  "parse_field ''*/0'' 0 59 = None
   \<and> create_job e tenant name ''*/0 * * * *'' ty payload = None
   \<and> due_jobs now (j\<lparr>sj_cron := ''*/0 * * * *''\<rparr> # js) = ([], False)"
proof -
  have "parse_u8 ''0'' = Some 0"
    by (simp add: parse_u8_def parse_unsigned_def digits_val_def digit_val_def is_ascii_digit_def)
  moreover have "split_once CHR ''/'' ''*/0'' = Some (''*'', ''0'')" "split_on CHR '','' ''*/0'' = [''*/0'']" by simp_all
  moreover have "step_values 0 59 0 = None" by (rule step_values_diverges [of _ "{0}"]) auto
  ultimately have field: "parse_field ''*/0'' 0 59 = None"
    by (simp add: parse_field_def parse_part_def u8_or_def step_bounds_def del: split_once.simps split_on.simps)
  have "split_whitespace (trim ''*/0 * * * *'') = [''*/0'', ''*'', ''*'', ''*'', ''*'']"
    by (simp add: trim_def is_whitespace_def split_whitespace.simps)
  then have "parse_cron ''*/0 * * * *'' = None" by (simp add: parse_cron_def Let_def then_field_def field)
  with field show ?thesis by (simp add: create_job_def)
qed

section \<open>Jobs\<close>

lemma due_jobs_ignore_enabled:
  "due_jobs now (map (\<lambda>j. j\<lparr>sj_enabled := b\<rparr>) js) = map_prod (map (\<lambda>j. j\<lparr>sj_enabled := b\<rparr>)) id (due_jobs now js)"
  by (induction js) (auto split: option.splits sum.splits prod.splits)

lemma due_jobs_update_first:
  "map sj_id (fst (due_jobs now (update_first (\<lambda>j. sj_id j = i) (\<lambda>j. j\<lparr>sj_enabled := b\<rparr>) js))) = map sj_id (fst (due_jobs now js))"
  by (induction js) (auto split: option.splits sum.splits prod.splits)

lemma delete_rows_other:
  assumes "list_all (\<lambda>r. jr_id r = job \<longrightarrow> jr_tenant r \<noteq> tenant) (sch_jobs s)"
  shows "delete_rows job tenant s = s"
proof -
  have "filter (\<lambda>r. \<not> (jr_id r = job \<and> jr_tenant r = tenant)) (sch_jobs s) = sch_jobs s"
    using assms by (auto simp: list_all_iff filter_id_conv)
  moreover have "\<not> list_ex (\<lambda>r. (jr_id r = job \<and> jr_tenant r = tenant) \<and> jr_id r = i) (sch_jobs s)" for i
    using assms by (auto simp: list_all_iff list_ex_iff)
  ultimately show ?thesis by (simp add: delete_rows_def Let_def)
qed

text \<open>
  Any tenant can stop another tenant's job. A request to delete a job under the wrong tenant leaves the
  tables as they are and answers success, but the job is taken off the list in memory, which is the only one
  the scheduler walks; conversely, disabling a job in memory does not stop it.
\<close>

theorem delete_job_crosses_tenants:
  assumes "list_all (\<lambda>r. jr_id r = job \<longrightarrow> jr_tenant r \<noteq> tenant) (sch_jobs s)"
  shows "\<exists>s'. delete_job job tenant (up s) = (Inr (), up s') \<and> sch_jobs s' = sch_jobs s \<and> sch_execs s' = sch_execs s
     \<and> \<not> list_ex (\<lambda>j. sj_id j = job) (fst (due_jobs now (mem_jobs s')))
     \<and> map sj_id (fst (due_jobs now (update_first (\<lambda>j. sj_id j = job) (\<lambda>j. j\<lparr>sj_enabled := False\<rparr>) (mem_jobs s))))
         = map sj_id (fst (due_jobs now (mem_jobs s)))"
proof -
  have due: "set (fst (due_jobs now js)) \<subseteq> set js" for js
    by (induction js) (auto split: option.splits sum.splits prod.splits)
  let ?s = "s\<lparr>mem_jobs := filter (\<lambda>j. sj_id j \<noteq> job) (mem_jobs s)\<rparr>"
  have "delete_job job tenant (up s) = (Inr (), up ?s)"
    by (simp add: delete_job_def delete_rows_other [OF assms])
  moreover have "\<not> list_ex (\<lambda>j. sj_id j = job) (fst (due_jobs now (mem_jobs ?s)))"
    using due [of "mem_jobs ?s"] by (auto simp: list_ex_iff)
  ultimately show ?thesis using due_jobs_update_first by (intro exI [of _ ?s]) simp
qed

definition demo_job_row :: job_row where
  "demo_job_row = \<lparr>jr_id = ''j'', jr_tenant = 1, jr_name = ''nightly'', jr_cron = ''0 3 * * *'', jr_type = ''sql_query'',
     jr_payload = JObject [], jr_timezone = ''UTC'', jr_enabled = True, jr_max_retries = 3, jr_timeout = 300,
     jr_last_run = None, jr_next_run = None, jr_created = 0\<rparr>"

theorem delete_job_crosses_tenants_witness:
  "\<exists>s'. delete_job ''j'' 2 (up \<lparr>sch_jobs = [demo_job_row], sch_execs = [], mem_jobs = []\<rparr>) = (Inr (), up s')
     \<and> sch_jobs s' = [demo_job_row]"
  using delete_job_crosses_tenants [of "''j''" 2 "\<lparr>sch_jobs = [demo_job_row], sch_execs = [], mem_jobs = []\<rparr>"]
  by (auto simp: demo_job_row_def)

text \<open>
  What a run leaves behind: an execution that reports success has a finished record with its outcome, and
  under failures of the database the record may be missing or stay at \<open>running\<close>; the job is run once and
  never retried.
\<close>

definition finished :: "exec_row \<Rightarrow> bool" where
  "finished x \<longleftrightarrow> ex_completed x \<noteq> None \<and> ex_attempt x = 1 \<and>
     (ex_status x = ''success'' \<and> ex_result x \<noteq> None \<or> ex_status x = ''failed'' \<and> ex_error x \<noteq> None)"

lemma wp_run_job: "wp (run_job e j) (\<lambda>r s'. s' = s \<and> (\<exists>res. r = Inr res)) s"
  unfolding run_job_def Let_def
  by (cases "sj_type j") (auto intro!: wp_intro simp: and_then_eq_Inr)

lemma update_exec_hits:
  "list_ex (\<lambda>x. ex_id x = i \<and> P x) (sch_execs s) \<Longrightarrow> (\<And>x. ex_id x = i \<Longrightarrow> P x \<Longrightarrow> Q (f x)) \<Longrightarrow> list_ex Q (sch_execs (update_exec i f s))"
  by (auto simp: list_ex_iff update_exec_def)

lemma execute_job_wp:
  "wp (execute_job e j) (\<lambda>r s'. r = Inr () \<longrightarrow> list_ex (\<lambda>x. ex_id x = se_uuid e \<and> ex_job x = sj_id j \<and> finished x) (sch_execs s')) s"
proof -
  let ?Q = "\<lambda>r s'. r = Inr () \<longrightarrow> list_ex (\<lambda>x. ex_id x = se_uuid e \<and> ex_job x = sj_id j \<and> finished x) (sch_execs s')"
  let ?rest = "bind_io (run_job e j) (\<lambda>result.
     bind_io (case result of
         Inr res \<Rightarrow> exec (update_exec (se_uuid e) (\<lambda>r. r\<lparr>ex_status := ''success'', ex_completed := Some (se_now e),
            ex_duration := Some (se_elapsed e), ex_result := Some res\<rparr>))
       | Inl err \<Rightarrow> exec (update_exec (se_uuid e) (\<lambda>r. r\<lparr>ex_status := ''failed'', ex_completed := Some (se_now e),
            ex_duration := Some (se_elapsed e), ex_error := Some (error_display err)\<rparr>))) (\<lambda>_.
     exec (\<lambda>s. s\<lparr>sch_jobs := map (\<lambda>r. if jr_id r = sj_id j then r\<lparr>jr_last_run := Some (se_now e)\<rparr> else r) (sch_jobs s)\<rparr>)))"
  have rest: "wp ?rest ?Q s'" if "list_ex (\<lambda>x. ex_id x = se_uuid e \<and> ex_job x = sj_id j \<and> ex_attempt x = 1) (sch_execs s')" for s'
    by (rule wp_bind_io, rule wp_weaken [OF wp_run_job])
      (auto intro!: wp_intro update_exec_hits [OF that] simp: finished_def split: sum.splits)
  show ?thesis
    unfolding execute_job_def
    by (rule wp_bind_io, rule wp_stmt, simp) (auto intro!: rest simp: insert_exec_def split: if_splits)
qed

end
