(* ===== verification/Auth.thy ===== *)
theory Auth imports OneShot begin

text \<open>
  Accounts and sessions (\<open>src/src/auth/mod.rs\<close>) and the service-admin check
  (\<open>src/src/security/authorization.rs\<close>): sign-up, login, refresh, logout with its blacklist, the user
  operations, and the HTTP handlers. The state is an extensible record, so that services which add tables
  of their own (\<open>MagicLink\<close>) run these operations on their larger state. Parameters: password hashing, the
  JWT crate, random tokens, the clock, and serde's JSON text.
\<close>

section \<open>State and parameters\<close>

definition MIN_PASSWORD_LENGTH :: nat where "MIN_PASSWORD_LENGTH = 8"

text \<open>Seconds.\<close>

definition DEFAULT_ACCESS_TOKEN_DURATION :: nat where "DEFAULT_ACCESS_TOKEN_DURATION = 3600"

definition DEFAULT_REFRESH_TOKEN_DURATION :: nat where "DEFAULT_REFRESH_TOKEN_DURATION = 7 * 24 * 3600"

record user_row =
  ur_id :: int
  ur_email :: string
  ur_hash :: string
  ur_meta :: string
  ur_created :: nat
  ur_updated :: nat

record session_row =
  sn_id :: int
  sn_user :: int
  sn_token :: string
  sn_expires :: nat
  sn_created :: nat

record black_row =
  bl_jti :: string
  bl_user :: int
  bl_expires :: nat

record auth_db =
  users :: "user_row list"
  sessions :: "session_row list"
  blacklist :: "black_row list"
  next_user :: int
  next_session :: int

record claims =
  cl_sub :: int
  cl_email :: string
  cl_jti :: string
  cl_exp :: nat
  cl_iat :: nat

record user =
  us_id :: int
  us_email :: string
  us_created_at :: string
  us_updated_at :: string
  us_metadata :: json

record auth_tokens =
  at_access_token :: string
  at_refresh_token :: string
  at_expires_in :: nat
  at_token_type :: string
  at_user :: user

record auth_user =
  aw_id :: int
  aw_email :: string

record auth_env =
  hash_password :: "string \<Rightarrow> string result"
  verify_password :: "string \<Rightarrow> string \<Rightarrow> bool result"
  encode_jwt :: "claims \<Rightarrow> string result"
  decode_jwt :: "string \<Rightarrow> claims option"
  new_uuid :: string
  new_refresh_token :: string
  au_now :: nat
  show_time :: "nat \<Rightarrow> string"
  parse_text :: "string \<Rightarrow> json option"
  json_text :: "json \<Rightarrow> string"

abbreviation auth_query :: "auth_env \<Rightarrow> ('s \<Rightarrow> (string \<times> cell) list list) \<Rightarrow> ('s, row list) io" where
  "auth_query e \<equiv> query (parse_text e) id"

section \<open>Checks\<close>

definition validate_email :: "string \<Rightarrow> unit result" where
  "validate_email email =
     (if \<not> str_contains email ''@'' \<or> length email < 5 then Inl (InvalidPayload ''Invalid email format'') else Inr ())"

definition validate_password :: "string \<Rightarrow> unit result" where
  "validate_password password =
     (if length password < MIN_PASSWORD_LENGTH
      then Inl (InvalidPayload (''Password must be at least '' @ show_nat MIN_PASSWORD_LENGTH @ '' characters''))
      else Inr ())"

text \<open>\<open>map.remove("service_admin")\<close> on the key-sorted object.\<close>

definition strip_reserved_metadata_flags :: "json option \<Rightarrow> json option" where
  "strip_reserved_metadata_flags metadata =
     map_option (\<lambda>v. case v of JObject kvs \<Rightarrow> JObject (filter (\<lambda>(k, _). k \<noteq> ''service_admin'') kvs) | _ \<Rightarrow> v) metadata"

definition validate_token :: "auth_env \<Rightarrow> string \<Rightarrow> claims result" where
  "validate_token e token = ok_or (Unauthorized ''Invalid token'') (decode_jwt e token)"

section \<open>Users\<close>

definition required :: "string \<Rightarrow> (row \<Rightarrow> string \<Rightarrow> 'a option) \<Rightarrow> row \<Rightarrow> 'a result" where
  "required key f row = ok_or (Internal (''Missing field: '' @ key)) (f row key)"

definition metadata_of :: "auth_env \<Rightarrow> row \<Rightarrow> json" where
  "metadata_of e row =
     (case row_get row ''metadata'' of
        None \<Rightarrow> JObject []
      | Some v \<Rightarrow> (case v of
            JString raw \<Rightarrow> unwrap_or (JObject []) (parse_text e raw)
          | JNull \<Rightarrow> JObject []
          | _ \<Rightarrow> v))"

definition row_to_user :: "auth_env \<Rightarrow> row \<Rightarrow> user result" where
  "row_to_user e row =
     and_then (required ''id'' col_i64 row) (\<lambda>i.
     and_then (required ''email'' col_str row) (\<lambda>m.
     and_then (required ''created_at'' col_str row) (\<lambda>c.
     and_then (required ''updated_at'' col_str row) (\<lambda>u.
     Inr \<lparr>us_id = i, us_email = m, us_created_at = c, us_updated_at = u, us_metadata = metadata_of e row\<rparr>))))"

definition user_cells :: "auth_env \<Rightarrow> user_row \<Rightarrow> (string \<times> cell) list" where
  "user_cells e r =
     [(''id'', cell_int (ur_id r)), (''email'', cell_text (ur_email r)), (''password_hash'', cell_text (ur_hash r)),
      (''metadata'', cell_text (ur_meta r)), (''created_at'', cell_time (show_time e (ur_created r))),
      (''updated_at'', cell_time (show_time e (ur_updated r)))]"

definition get_user_by_id :: "auth_env \<Rightarrow> int \<Rightarrow> ('x auth_db_scheme, user) io" where
  "get_user_by_id e i =
     bind_io (auth_query e (\<lambda>s. map (user_cells e) (filter (\<lambda>r. ur_id r = i) (users s)))) (\<lambda>rows.
     case rows of
       [] \<Rightarrow> fail (NotFound ''User not found'')
     | row # _ \<Rightarrow> lift (row_to_user e row))"

text \<open>\<open>INSERT INTO stackhouse_users ... RETURNING id\<close>; the id is a 32-bit sequence.\<close>

definition insert_user :: "auth_env \<Rightarrow> string \<Rightarrow> string \<Rightarrow> string \<Rightarrow> 'x auth_db_scheme \<Rightarrow> (int \<times> 'x auth_db_scheme) result" where
  "insert_user e email pw_hash meta s =
     (if next_user s > 2147483647 then Inl (Database ''Insert failed: nextval: reached maximum value of sequence'')
      else if email \<in> ur_email ` set (users s) then Inl (Database ''Insert failed: duplicate key'')
      else Inr (next_user s, s\<lparr>users := users s @ [\<lparr>ur_id = next_user s, ur_email = email, ur_hash = pw_hash,
          ur_meta = meta, ur_created = au_now e, ur_updated = au_now e\<rparr>], next_user := next_user s + 1\<rparr>))"

section \<open>Sessions\<close>

definition generate_access_token :: "auth_env \<Rightarrow> user \<Rightarrow> string result" where
  "generate_access_token e u = encode_jwt e \<lparr>cl_sub = us_id u, cl_email = us_email u, cl_jti = new_uuid e,
     cl_exp = au_now e + DEFAULT_ACCESS_TOKEN_DURATION, cl_iat = au_now e\<rparr>"

definition insert_session :: "session_row \<Rightarrow> 'x auth_db_scheme \<Rightarrow> (unit \<times> 'x auth_db_scheme) result" where
  "insert_session r s =
     (if sn_user r \<notin> ur_id ` set (users s) then Inl (Database ''Execute failed: violates foreign key constraint'')
      else if sn_token r \<in> sn_token ` set (sessions s) then Inl (Database ''Execute failed: duplicate key'')
      else Inr ((), s\<lparr>sessions := sessions s @ [r\<lparr>sn_id := next_session s\<rparr>], next_session := next_session s + 1\<rparr>))"

definition create_session :: "auth_env \<Rightarrow> user \<Rightarrow> ('x auth_db_scheme, auth_tokens) io" where
  "create_session e u =
     bind_io (lift (generate_access_token e u)) (\<lambda>access.
     bind_io (stmt (insert_session \<lparr>sn_id = 0, sn_user = us_id u, sn_token = new_refresh_token e,
         sn_expires = au_now e + DEFAULT_REFRESH_TOKEN_DURATION, sn_created = au_now e\<rparr>)) (\<lambda>_.
     ret \<lparr>at_access_token = access, at_refresh_token = new_refresh_token e,
          at_expires_in = DEFAULT_ACCESS_TOKEN_DURATION, at_token_type = ''Bearer'', at_user = u\<rparr>))"

definition signup :: "auth_env \<Rightarrow> string \<Rightarrow> string \<Rightarrow> json option \<Rightarrow> ('x auth_db_scheme, auth_tokens) io" where
  "signup e email password metadata =
     bind_io (lift (validate_email email)) (\<lambda>_.
     bind_io (lift (validate_password password)) (\<lambda>_.
     bind_io (auth_query e (\<lambda>s. map (\<lambda>r. [(''id'', cell_int (ur_id r))]) (filter (\<lambda>r. ur_email r = email) (users s)))) (\<lambda>existing.
     if existing \<noteq> [] then fail (Conflict ''User already exists'')
     else
       bind_io (lift (hash_password e password)) (\<lambda>pw_hash.
       bind_io (stmt (insert_user e email pw_hash (json_text e (unwrap_or (JObject []) metadata)))) (\<lambda>user_id.
       bind_io (get_user_by_id e user_id) (\<lambda>u.
       create_session e u))))))"

definition login :: "auth_env \<Rightarrow> string \<Rightarrow> string \<Rightarrow> ('x auth_db_scheme, auth_tokens) io" where
  "login e email password =
     bind_io (auth_query e (\<lambda>s. map (user_cells e) (filter (\<lambda>r. ur_email r = email) (users s)))) (\<lambda>rows.
     case rows of
       [] \<Rightarrow> fail (Unauthorized ''Invalid credentials'')
     | row # _ \<Rightarrow>
         bind_io (lift (ok_or (Internal ''Missing password_hash'') (col_str row ''password_hash''))) (\<lambda>pw_hash.
         bind_io (lift (verify_password e password pw_hash)) (\<lambda>ok.
         if \<not> ok then fail (Unauthorized ''Invalid credentials'')
         else bind_io (lift (row_to_user e row)) (\<lambda>u. create_session e u))))"

definition delete_token :: "string \<Rightarrow> 'x auth_db_scheme \<Rightarrow> 'x auth_db_scheme" where
  "delete_token t s = s\<lparr>sessions := filter (\<lambda>r. sn_token r \<noteq> t) (sessions s)\<rparr>"

definition refresh :: "auth_env \<Rightarrow> string \<Rightarrow> ('x auth_db_scheme, auth_tokens) io" where
  "refresh e token =
     bind_io (auth_query e (\<lambda>s. map (\<lambda>r. [(''user_id'', cell_int (sn_user r)),
         (''expires_at'', cell_time (show_time e (sn_expires r)))]) (filter (\<lambda>r. sn_token r = token) (sessions s)))) (\<lambda>rows.
     case rows of
       [] \<Rightarrow> fail (Unauthorized ''Invalid refresh token'')
     | row # _ \<Rightarrow>
         bind_io (lift (ok_or (Internal ''Missing user_id'') (col_i64 row ''user_id''))) (\<lambda>user_id.
         bind_io (exec (delete_token token)) (\<lambda>_.
         bind_io (get_user_by_id e user_id) (\<lambda>u.
         create_session e u))))"

definition insert_black :: "black_row \<Rightarrow> 'x auth_db_scheme \<Rightarrow> 'x auth_db_scheme" where
  "insert_black r s =
     (if bl_jti r \<in> bl_jti ` set (blacklist s) then s else s\<lparr>blacklist := blacklist s @ [r]\<rparr>)"

definition logout :: "auth_env \<Rightarrow> string \<Rightarrow> string option \<Rightarrow> int \<Rightarrow> ('x auth_db_scheme, unit) io" where
  "logout e token access_jti user_id =
     bind_io (exec (delete_token token)) (\<lambda>_.
     case access_jti of
       None \<Rightarrow> ret ()
     | Some jti \<Rightarrow> exec (insert_black \<lparr>bl_jti = jti, bl_user = user_id, bl_expires = au_now e + DEFAULT_ACCESS_TOKEN_DURATION\<rparr>))"

definition is_token_blacklisted :: "auth_env \<Rightarrow> string \<Rightarrow> ('x auth_db_scheme, bool) io" where
  "is_token_blacklisted e jti =
     bind_io (auth_query e (\<lambda>s. map (\<lambda>_. [(''?column?'', cell_int 1)]) (filter (\<lambda>r. bl_jti r = jti) (blacklist s))))
       (\<lambda>rows. ret (rows \<noteq> []))"

text \<open>\<open>format!("{:.8}", token)\<close> keeps the first eight characters.\<close>

definition list_sessions :: "auth_env \<Rightarrow> int \<Rightarrow> ('x auth_db_scheme, json list) io" where
  "list_sessions e user_id =
     bind_io (auth_query e (\<lambda>s. map (\<lambda>r. [(''id'', cell_int (sn_id r)), (''refresh_token'', cell_text (sn_token r)),
         (''created_at'', cell_time (show_time e (sn_created r))), (''expires_at'', cell_time (show_time e (sn_expires r)))])
         (rev (sort_key sn_created (filter (\<lambda>r. sn_user r = user_id) (sessions s)))))) (\<lambda>rows.
     ret (map (\<lambda>row. JObject
       [(''created_at'', JString (unwrap_or [] (col_str row ''created_at''))), (''device'', JString ''Unknown device''),
        (''expires_at'', JString (unwrap_or [] (col_str row ''expires_at''))), (''id'', json_int (unwrap_or 0 (col_i64 row ''id''))),
        (''ip'', JString ''-''), (''token_hash'', JString (take 8 (unwrap_or [] (col_str row ''refresh_token''))))]) rows))"

definition revoke_session :: "int \<Rightarrow> ('x auth_db_scheme, unit) io" where
  "revoke_session i = exec (\<lambda>s. s\<lparr>sessions := filter (\<lambda>r. sn_id r \<noteq> i) (sessions s)\<rparr>)"

definition update_user_row :: "int \<Rightarrow> (user_row \<Rightarrow> user_row) \<Rightarrow> 'x auth_db_scheme \<Rightarrow> 'x auth_db_scheme" where
  "update_user_row i f s = s\<lparr>users := map (\<lambda>r. if ur_id r = i then f r else r) (users s)\<rparr>"

definition update_user :: "auth_env \<Rightarrow> int \<Rightarrow> json option \<Rightarrow> ('x auth_db_scheme, user) io" where
  "update_user e user_id metadata =
     bind_io (case metadata of
         None \<Rightarrow> ret ()
       | Some m \<Rightarrow> exec (update_user_row user_id (\<lambda>r. r\<lparr>ur_meta := json_text e m, ur_updated := au_now e\<rparr>)))
       (\<lambda>_. get_user_by_id e user_id)"

definition change_password :: "auth_env \<Rightarrow> int \<Rightarrow> string \<Rightarrow> string \<Rightarrow> ('x auth_db_scheme, unit) io" where
  "change_password e user_id current new =
     bind_io (lift (validate_password new)) (\<lambda>_.
     bind_io (auth_query e (\<lambda>s. map (\<lambda>r. [(''password_hash'', cell_text (ur_hash r))]) (filter (\<lambda>r. ur_id r = user_id) (users s)))) (\<lambda>rows.
     case rows of
       [] \<Rightarrow> fail (NotFound ''User not found'')
     | row # _ \<Rightarrow>
         bind_io (lift (ok_or (Internal ''Missing password_hash'') (col_str row ''password_hash''))) (\<lambda>pw_hash.
         bind_io (lift (verify_password e current pw_hash)) (\<lambda>ok.
         if \<not> ok then fail (Unauthorized ''Current password is incorrect'')
         else bind_io (lift (hash_password e new)) (\<lambda>new_hash.
           exec (update_user_row user_id (\<lambda>r. r\<lparr>ur_hash := new_hash, ur_updated := au_now e\<rparr>)))))))"

section \<open>Handlers\<close>

text \<open>The \<open>Authorization\<close> header of a request, when it has one that is text.\<close>

definition extract_auth_user :: "auth_env \<Rightarrow> string option \<Rightarrow> auth_user result" where
  "extract_auth_user e header =
     and_then (ok_or (Unauthorized ''Missing authorization header'') header) (\<lambda>h.
     and_then (ok_or (Unauthorized ''Invalid authorization format'') (strip_prefix h ''Bearer '')) (\<lambda>token.
     and_then (validate_token e token) (\<lambda>c. Inr \<lparr>aw_id = cl_sub c, aw_email = cl_email c\<rparr>)))"

definition token_blacklist_middleware ::
  "auth_env \<Rightarrow> string option \<Rightarrow> ('x auth_db_scheme, 'a) io \<Rightarrow> ('x auth_db_scheme, 'a) io" where
  "token_blacklist_middleware e header handler =
     (case Option.bind header (\<lambda>h. strip_prefix h ''Bearer '') of
        None \<Rightarrow> handler
      | Some token \<Rightarrow>
          (case validate_token e token of
             Inl _ \<Rightarrow> handler
           | Inr c \<Rightarrow>
               bind_io (is_token_blacklisted e (cl_jti c)) (\<lambda>revoked.
               if revoked then fail (Unauthorized ''Token has been revoked'') else handler)))"

datatype auth_request =
    SignupRequest string string "json option"
  | LoginRequest string string
  | RefreshRequest string
  | LogoutRequest string
  | MeRequest
  | UpdateUserRequest "json option"
  | ChangePasswordRequest string string
  | ListSessionsRequest
  | RevokeSessionRequest int

datatype auth_response =
    TokensResponse auth_tokens
  | UserResponse user
  | SessionsResponse "json list"
  | MessageResponse string

fun auth_handler :: "auth_env \<Rightarrow> string option \<Rightarrow> auth_request \<Rightarrow> ('x auth_db_scheme, auth_response) io" where
  "auth_handler e header (SignupRequest email password metadata) =
     bind_io (signup e email password (strip_reserved_metadata_flags metadata)) (\<lambda>t. ret (TokensResponse t))"
| "auth_handler e header (LoginRequest email password) =
     bind_io (login e email password) (\<lambda>t. ret (TokensResponse t))"
| "auth_handler e header (RefreshRequest token) =
     bind_io (refresh e token) (\<lambda>t. ret (TokensResponse t))"
| "auth_handler e header (LogoutRequest token) =
     (let c = Option.bind (Option.bind header (\<lambda>h. strip_prefix h ''Bearer '')) (decode_jwt e) in
      bind_io (logout e token (map_option cl_jti c) (case c of None \<Rightarrow> 0 | Some c \<Rightarrow> cl_sub c))
        (\<lambda>_. ret (MessageResponse ''Logged out successfully'')))"
| "auth_handler e header MeRequest =
     bind_io (lift (extract_auth_user e header)) (\<lambda>u. bind_io (get_user_by_id e (aw_id u)) (\<lambda>r. ret (UserResponse r)))"
| "auth_handler e header (UpdateUserRequest metadata) =
     bind_io (lift (extract_auth_user e header)) (\<lambda>u.
     bind_io (update_user e (aw_id u) (strip_reserved_metadata_flags metadata)) (\<lambda>r. ret (UserResponse r)))"
| "auth_handler e header (ChangePasswordRequest current new) =
     bind_io (lift (extract_auth_user e header)) (\<lambda>u.
     bind_io (change_password e (aw_id u) current new) (\<lambda>_. ret (MessageResponse ''Password changed successfully'')))"
| "auth_handler e header ListSessionsRequest =
     bind_io (lift (extract_auth_user e header)) (\<lambda>u. bind_io (list_sessions e (aw_id u)) (\<lambda>r. ret (SessionsResponse r)))"
| "auth_handler e header (RevokeSessionRequest i) =
     bind_io (lift (extract_auth_user e header)) (\<lambda>_. bind_io (revoke_session i) (\<lambda>_. ret (MessageResponse ''Session revoked'')))"

section \<open>Service administrators\<close>

record authorization_service =
  require_admin_for_logs :: bool
  admin_emails :: "string list"

text \<open>\<open>new\<close>, with the value of \<open>STACKHOUSE_ADMIN_EMAILS\<close>.\<close>

definition new_authorization :: "bool \<Rightarrow> string option \<Rightarrow> authorization_service" where
  "new_authorization required_for_logs env_emails =
     \<lparr>require_admin_for_logs = required_for_logs,
      admin_emails = filter (\<lambda>s. s \<noteq> []) (map (\<lambda>s. to_lowercase (trim s)) (split_on CHR '','' (unwrap_or [] env_emails)))\<rparr>"

definition is_service_admin :: "authorization_service \<Rightarrow> user \<Rightarrow> bool" where
  "is_service_admin z u \<longleftrightarrow>
     Option.bind (jget (us_metadata u) ''service_admin'') as_bool = Some True \<or> to_lowercase (us_email u) \<in> set (admin_emails z)"

definition require_service_admin :: "authorization_service \<Rightarrow> user \<Rightarrow> unit result" where
  "require_service_admin z u =
     (if require_admin_for_logs z \<and> \<not> is_service_admin z u then Inl (Forbidden ''Service admin access required'') else Inr ())"

definition require_service_admin_unconditional :: "authorization_service \<Rightarrow> user \<Rightarrow> unit result" where
  "require_service_admin_unconditional z u =
     (if \<not> is_service_admin z u then Inl (Forbidden ''Service admin access required'') else Inr ())"

section \<open>Requests in sequence\<close>

type_synonym auth_call = "auth_env \<times> string option \<times> auth_request"

fun auth_serve :: "auth_call list \<Rightarrow> 'x auth_db_scheme db \<Rightarrow> auth_response result list \<times> 'x auth_db_scheme db" where
  "auth_serve [] d = ([], d)"
| "auth_serve ((e, header, rq) # cs) d =
     (case auth_handler e header rq d of (r, d1) \<Rightarrow> (case auth_serve cs d1 of (rs, d2) \<Rightarrow> (r # rs, d2)))"

lemma auth_serve_keeps:
  assumes "auth_serve cs d = (rs, d')" "P (st d)"
    and "\<And>e header rq. (e, header, rq) \<in> set cs \<Longrightarrow> keeps P (auth_handler e header rq)"
  shows "P (st d')"
  using assms
proof (induction cs arbitrary: d rs)
  case Nil
  then show ?case by simp
next
  case (Cons c cs)
  obtain e header rq where c: "c = (e, header, rq)" by (cases c)
  obtain r d1 where r: "auth_handler e header rq d = (r, d1)" by (cases "auth_handler e header rq d")
  obtain rs' where rs: "auth_serve cs d1 = (rs', d')" using Cons.prems(1) r by (auto simp: c split: prod.splits)
  have "keeps P (auth_handler e header rq)" by (rule Cons.prems(3)) (simp add: c)
  from keeps_D [OF this Cons.prems(2) r] Cons.IH [OF rs] Cons.prems(3) show ?case by simp
qed

lemma keeps_get_user_by_id [keeps_intro]: "keeps P (get_user_by_id e i)"
  unfolding get_user_by_id_def by (auto intro!: keeps_intro split: list.splits)

section \<open>The service-admin flag\<close>

text \<open>The metadata a stored text is read back as.\<close>

definition meta_value :: "(string \<Rightarrow> json option) \<Rightarrow> string \<Rightarrow> json" where
  "meta_value p t =
     (case get_value_from_row p id (cell_text t) of
        JString raw \<Rightarrow> unwrap_or (JObject []) (p raw) | JNull \<Rightarrow> JObject [] | v \<Rightarrow> v)"

lemma metadata_of_cells: "metadata_of e (json_row (parse_text e) id (user_cells e r)) = meta_value (parse_text e) (ur_meta r)"
  by (simp add: metadata_of_def json_row_def user_cells_def meta_value_def split: json.splits)

definition flagged :: "(string \<Rightarrow> json option) \<Rightarrow> user_row \<Rightarrow> bool" where
  "flagged p r \<longleftrightarrow> Option.bind (jget (meta_value p (ur_meta r)) ''service_admin'') as_bool = Some True"

text \<open>serde writes a value to a text that it reads back as the value; a string's text starts with a quote.\<close>

definition serde_writes :: "auth_env \<Rightarrow> json \<Rightarrow> bool" where
  "serde_writes e v \<longleftrightarrow> parse_text e (json_text e v) = Some v \<and> (plain (json_text e v) \<or> as_str v = None)"

lemma meta_value_written:
  assumes "serde_writes e v"
  shows "meta_value (parse_text e) (json_text e v) \<in> {v, JObject []}"
proof (cases "plain (json_text e v)")
  case True
  with assms show ?thesis by (simp add: meta_value_def serde_writes_def)
next
  case False
  with assms have "get_value_from_row (parse_text e) id (cell_text (json_text e v)) = v" "as_str v = None"
    by (auto simp: serde_writes_def plain_def get_value_from_row_def cell_text_def no_cell_def)
  then show ?thesis by (cases v) (simp_all add: meta_value_def)
qed

lemma map_of_filter_key: "map_of (filter (\<lambda>(k, _). k \<noteq> x) kvs) x = None"
  by (induction kvs) auto

lemma stripped_no_flag:
  assumes "strip_reserved_metadata_flags m = Some v"
  shows "jget v ''service_admin'' = None"
proof -
  from assms obtain w where "m = Some w"
    "v = (case w of JObject kvs \<Rightarrow> JObject (filter (\<lambda>(k, _). k \<noteq> ''service_admin'') kvs) | _ \<Rightarrow> w)"
    by (auto simp: strip_reserved_metadata_flags_def)
  then show ?thesis by (cases w) (simp_all add: jget_def map_of_filter_key)
qed

lemma written_not_flagged:
  assumes "jget v ''service_admin'' = None" "serde_writes e v" "ur_meta r = json_text e v"
  shows "\<not> flagged (parse_text e) r"
  using meta_value_written [OF assms(2)] assms(1,3) by (auto simp: flagged_def jget_def)

definition flags_within :: "(string \<Rightarrow> json option) \<Rightarrow> int set \<Rightarrow> 'x auth_db_scheme \<Rightarrow> bool" where
  "flags_within p F s \<longleftrightarrow> (\<forall>r \<in> set (users s). flagged p r \<longrightarrow> ur_id r \<in> F)"

lemma flags_within_users [simp]: "flags_within p F s \<Longrightarrow> users s' = users s \<Longrightarrow> flags_within p F s'"
  by (simp add: flags_within_def)

lemma flags_within_other [simp]:
  "flags_within p F (s\<lparr>sessions := x\<rparr>) = flags_within p F s"
  "flags_within p F (delete_token t s) = flags_within p F s"
  "flags_within p F (insert_black b s) = flags_within p F s"
  by (auto simp: flags_within_def delete_token_def insert_black_def)

lemma flags_within_insert_session: "insert_session r s = Inr (x, s') \<Longrightarrow> flags_within p F s \<Longrightarrow> flags_within p F s'"
  by (auto simp: insert_session_def split: if_splits intro: flags_within_users)

lemma flags_within_insert_user:
  "insert_user e m h t s = Inr (x, s') \<Longrightarrow> flags_within p F s \<Longrightarrow> (\<And>r. ur_meta r = t \<Longrightarrow> \<not> flagged p r) \<Longrightarrow> flags_within p F s'"
  by (auto simp: insert_user_def flags_within_def split: if_splits)

lemma flags_within_update:
  "flags_within p F s \<Longrightarrow> (\<And>r. ur_id (f r) = ur_id r) \<Longrightarrow> (\<And>r. flagged p (f r) \<Longrightarrow> flagged p r) \<Longrightarrow> flags_within p F (update_user_row i f s)"
  by (auto simp: flags_within_def update_user_row_def)

lemma keeps_create_session: "keeps (flags_within p F) (create_session e u)"
  unfolding create_session_def by (auto intro!: keeps_intro dest: flags_within_insert_session)

text \<open>The metadata a request carries.\<close>

fun written_metadata :: "auth_request \<Rightarrow> json option" where
  "written_metadata (SignupRequest _ _ m) = Some (unwrap_or (JObject []) (strip_reserved_metadata_flags m))"
| "written_metadata (UpdateUserRequest m) = strip_reserved_metadata_flags m"
| "written_metadata _ = None"

lemma written_metadata_no_flag: "written_metadata rq = Some v \<Longrightarrow> jget v ''service_admin'' = None"
  by (cases rq) (auto simp: unwrap_or_def jget_def dest: stripped_no_flag split: option.splits)

lemma keeps_flags:
  assumes "case written_metadata rq of None \<Rightarrow> True | Some v \<Rightarrow> serde_writes e v"
  shows "keeps (flags_within (parse_text e) F) (auth_handler e header rq)"
proof (cases rq)
  case (SignupRequest email password metadata)
  let ?v = "unwrap_or (JObject []) (strip_reserved_metadata_flags metadata)"
  have "\<not> flagged (parse_text e) r" if "ur_meta r = json_text e ?v" for r
    using that assms written_metadata_no_flag [of rq ?v] by (intro written_not_flagged [of ?v]) (simp_all add: SignupRequest)
  then show ?thesis
    unfolding SignupRequest auth_handler.simps signup_def
    by (auto intro!: keeps_intro keeps_create_session dest: flags_within_insert_user)
next
  case (UpdateUserRequest metadata)
  have "\<not> flagged (parse_text e) r" if "strip_reserved_metadata_flags metadata = Some v" "ur_meta r = json_text e v" for r v
    using that assms written_metadata_no_flag [of rq v] by (intro written_not_flagged [of v]) (simp_all add: UpdateUserRequest)
  then show ?thesis
    unfolding UpdateUserRequest auth_handler.simps update_user_def
    by (auto intro!: keeps_intro flags_within_update split: option.splits)
next
  case (ChangePasswordRequest current new)
  have "flagged p (r\<lparr>ur_hash := h, ur_updated := n\<rparr>) = flagged p r" for p r h n by (simp add: flagged_def)
  then show ?thesis
    unfolding ChangePasswordRequest auth_handler.simps change_password_def
    by (auto intro!: keeps_intro flags_within_update split: list.splits)
qed (auto simp: login_def refresh_def logout_def list_sessions_def revoke_session_def Let_def
    intro!: keeps_intro keeps_create_session split: list.splits option.splits)

text \<open>
  C13. The service-admin flag cannot be claimed through the account routes: whatever requests are served,
  with whatever metadata, tokens and failures, a user whose stored metadata carry the flag afterwards had it
  before (new users included: none has it).
\<close>

theorem service_admin_flag_not_claimable:
  assumes "auth_serve cs d = (rs, d')"
    and "list_all (\<lambda>(e, _, rq). parse_text e = p \<and> (case written_metadata rq of None \<Rightarrow> True | Some v \<Rightarrow> serde_writes e v)) cs"
  shows "{ur_id r |r. r \<in> set (users (st d')) \<and> flagged p r} \<subseteq> {ur_id r |r. r \<in> set (users (st d)) \<and> flagged p r}"
proof -
  let ?F = "{ur_id r |r. r \<in> set (users (st d)) \<and> flagged p r}"
  have "flags_within p ?F (st d')"
    by (rule auth_serve_keeps [OF assms(1)])
      (use assms(2) in \<open>auto simp: flags_within_def [of p ?F "st d"] list_all_iff intro: keeps_flags\<close>)
  then show ?thesis by (auto simp: flags_within_def)
qed

text \<open>A server with one user, and a toy token crate: a token is the name of its user.\<close>

definition demo_auth_env :: auth_env where
  "demo_auth_env = \<lparr>hash_password = (\<lambda>p. Inr (CHR ''$'' # p)), verify_password = (\<lambda>p h. Inr (h = CHR ''$'' # p)),
     encode_jwt = (\<lambda>c. Inr (cl_email c)),
     decode_jwt = (\<lambda>t. Some \<lparr>cl_sub = 1, cl_email = t, cl_jti = t, cl_exp = 9, cl_iat = 0\<rparr>),
     new_uuid = ''u'', new_refresh_token = ''r2'', au_now = 1000000, show_time = (\<lambda>t. CHR ''t'' # show_nat t),
     parse_text = (\<lambda>t. if t = ''{}'' then Some (JObject []) else None), json_text = (\<lambda>_. ''{}'')\<rparr>"

definition demo_user_row :: user_row where
  "demo_user_row = \<lparr>ur_id = 1, ur_email = ''boss@acme.io'', ur_hash = ''$secret'', ur_meta = ''{}'', ur_created = 0, ur_updated = 0\<rparr>"

definition demo_auth_db :: auth_db where
  "demo_auth_db = \<lparr>users = [demo_user_row],
     sessions = [\<lparr>sn_id = 1, sn_user = 1, sn_token = ''r1'', sn_expires = 0, sn_created = 0\<rparr>],
     blacklist = [], next_user = 2, next_session = 2\<rparr>"

theorem service_admin_flag_not_claimable_witness:
  "\<exists>rs d'. auth_serve [(demo_auth_env, None, SignupRequest ''eve@evil.io'' ''password'' (Some (JObject [(''service_admin'', JBool True)])))]
       (up demo_auth_db) = (rs, d') \<and> \<not> (\<exists>r \<in> set (users (st d')). flagged (parse_text demo_auth_env) r)"
proof -
  let ?cs = "[(demo_auth_env, None, SignupRequest ''eve@evil.io'' ''password'' (Some (JObject [(''service_admin'', JBool True)])))]"
  obtain rs d' where run: "auth_serve ?cs (up demo_auth_db) = (rs, d')" by (meson surj_pair)
  have "list_all (\<lambda>(e, _, rq). parse_text e = parse_text demo_auth_env
      \<and> (case written_metadata rq of None \<Rightarrow> True | Some v \<Rightarrow> serde_writes e v)) ?cs"
    by (simp add: strip_reserved_metadata_flags_def serde_writes_def demo_auth_env_def)
  moreover have "\<not> flagged (parse_text demo_auth_env) demo_user_row"
    by (simp add: flagged_def meta_value_def get_value_from_row_def cell_text_def no_cell_def demo_user_row_def
        demo_auth_env_def jget_def starts_with_def)
  ultimately show ?thesis
    using service_admin_flag_not_claimable [OF run, of "parse_text demo_auth_env"] run
    by (intro exI [of _ rs] exI [of _ d']) (auto simp: demo_auth_db_def)
qed

section \<open>Becoming an administrator by spelling\<close>

definition auth_inv :: "'x auth_db_scheme \<Rightarrow> bool" where
  "auth_inv s \<longleftrightarrow> list_all (\<lambda>r. ur_id r < next_user s) (users s) \<and> 0 < next_user s \<and> next_user s \<le> 2147483647"

lemma get_user_by_id_up:
  assumes "filter (\<lambda>r. ur_id r = i) (users s) = r # rs" "in_i64 i" "plain (ur_email r)"
  shows "get_user_by_id e i (up s) = (Inr \<lparr>us_id = i, us_email = ur_email r, us_created_at = show_time e (ur_created r),
     us_updated_at = show_time e (ur_updated r), us_metadata = meta_value (parse_text e) (ur_meta r)\<rparr>, up s)"
proof -
  have "ur_id r = i" using assms(1) by (metis (mono_tags, lifting) filter_eq_ConsD)
  then have "row_to_user e (json_row (parse_text e) id (user_cells e r)) = Inr \<lparr>us_id = i, us_email = ur_email r,
      us_created_at = show_time e (ur_created r), us_updated_at = show_time e (ur_updated r),
      us_metadata = meta_value (parse_text e) (ur_meta r)\<rparr>"
    using assms(2,3)
    by (simp add: row_to_user_def required_def metadata_of_cells)
      (simp add: json_row_def user_cells_def col_i64_def col_str_def)
  then show ?thesis by (simp add: get_user_by_id_def assms(1))
qed

text \<open>
  Anyone can become a service administrator: an account is administrator when its address, in lower case,
  is on the list, while sign-up accepts every address that is not registered in the same spelling and asks
  for no confirmation. So a sign-up with the administrator's address in capitals succeeds next to the
  administrator's own account and passes the admin check.
\<close>

theorem signup_case_variant_becomes_admin:
  assumes "auth_inv s" "email \<notin> ur_email ` set (users s)" "to_lowercase email \<in> set (admin_emails z)"
    and "validate_email email = Inr ()" "plain email" "validate_password password = Inr ()"
    and "hash_password e password = Inr pw_hash" "\<And>c. \<exists>t. encode_jwt e c = Inr t"
    and "new_refresh_token e \<notin> sn_token ` set (sessions s)"
  shows "\<exists>t s'. signup e email password metadata (up s) = (Inr t, up s') \<and> us_email (at_user t) = email
     \<and> require_service_admin_unconditional z (at_user t) = Inr ()"
proof -
  let ?row = "\<lparr>ur_id = next_user s, ur_email = email, ur_hash = pw_hash,
     ur_meta = json_text e (unwrap_or (JObject []) metadata), ur_created = au_now e, ur_updated = au_now e\<rparr>"
  let ?s = "s\<lparr>users := users s @ [?row], next_user := next_user s + 1\<rparr>"
  let ?u = "\<lparr>us_id = next_user s, us_email = email, us_created_at = show_time e (au_now e),
     us_updated_at = show_time e (au_now e), us_metadata = meta_value (parse_text e) (ur_meta ?row)\<rparr>"
  have none: "filter (\<lambda>r. ur_email r = email) (users s) = []" using assms(2) by (auto simp: filter_empty_conv)
  have ins: "insert_user e email pw_hash (ur_meta ?row) s = Inr (next_user s, ?s)"
    using assms(1,2) by (simp add: insert_user_def auth_inv_def)
  have "filter (\<lambda>r. ur_id r = next_user s) (users s) = []"
    using assms(1) by (auto simp: auth_inv_def list_all_iff filter_empty_conv)
  then have "filter (\<lambda>r. ur_id r = next_user s) (users ?s) = [?row]" by simp
  moreover have "in_i64 (next_user s)" using assms(1) by (simp add: auth_inv_def in_i64_def)
  ultimately have get: "get_user_by_id e (next_user s) (up ?s) = (Inr ?u, up ?s)"
    using get_user_by_id_up [of "next_user s" ?s ?row "[]" e] assms(5) by simp
  obtain access where "encode_jwt e \<lparr>cl_sub = us_id ?u, cl_email = us_email ?u, cl_jti = new_uuid e,
     cl_exp = au_now e + DEFAULT_ACCESS_TOKEN_DURATION, cl_iat = au_now e\<rparr> = Inr access" using assms(8) by blast
  then have "\<exists>t s'. create_session e ?u (up ?s) = (Inr t, up s') \<and> at_user t = ?u"
    using assms(9) by (simp add: create_session_def generate_access_token_def insert_session_def)
  then obtain t s' where t: "create_session e ?u (up ?s) = (Inr t, up s')" "at_user t = ?u" by blast
  have "signup e email password metadata (up s) = (Inr t, up s')"
    using none ins get t(1) assms(4,6,7) by (simp add: signup_def)
  moreover have "require_service_admin_unconditional z (at_user t) = Inr ()"
    using assms(3) by (simp add: require_service_admin_unconditional_def is_service_admin_def t(2))
  ultimately show ?thesis using t(2) by auto
qed

theorem signup_case_variant_becomes_admin_witness:
  "\<exists>t s'. signup demo_auth_env ''BOSS@acme.io'' ''password'' None (up demo_auth_db) = (Inr t, up s')
     \<and> require_service_admin_unconditional (new_authorization True (Some ''boss@acme.io'')) (at_user t) = Inr ()"
proof -
  have "\<exists>t s'. signup demo_auth_env ''BOSS@acme.io'' ''password'' None (up demo_auth_db) = (Inr t, up s')
     \<and> us_email (at_user t) = ''BOSS@acme.io''
     \<and> require_service_admin_unconditional (new_authorization True (Some ''boss@acme.io'')) (at_user t) = Inr ()"
  proof (rule signup_case_variant_becomes_admin)
    show "to_lowercase ''BOSS@acme.io'' \<in> set (admin_emails (new_authorization True (Some ''boss@acme.io'')))"
      by (simp add: new_authorization_def trim_def str_eval)
    show "validate_email ''BOSS@acme.io'' = Inr ()" by (simp add: validate_email_def str_contains_char)
  qed (simp_all add: auth_inv_def demo_auth_db_def demo_user_row_def demo_auth_env_def plain_Cons validate_password_def MIN_PASSWORD_LENGTH_def)
  then show ?thesis by blast
qed

section \<open>Refresh tokens\<close>

definition live_token :: "string \<Rightarrow> 'x auth_db_scheme \<Rightarrow> bool" where
  "live_token t s \<longleftrightarrow> t \<in> sn_token ` set (sessions s)"

definition redeem_token :: "auth_env \<times> string \<Rightarrow> 'x auth_db_scheme db \<Rightarrow> bool \<times> 'x auth_db_scheme db" where
  "redeem_token c d = (case refresh (fst c) (snd c) d of (r, d') \<Rightarrow> (\<not> (\<exists>err. r = Inl err), d'))"

lemma wp_get_user_by_id: "wp (get_user_by_id e i) (\<lambda>_ s'. s' = s) s"
  unfolding get_user_by_id_def by (auto intro!: wp_intro split: list.splits)

lemma create_session_tokens:
  "wp (create_session e u) (\<lambda>r s'. (s' = s \<and> (\<exists>err. r = Inl err)) \<or> (\<exists>t. r = Inr t \<and> at_refresh_token t = new_refresh_token e
      \<and> sn_token ` set (sessions s') = insert (new_refresh_token e) (sn_token ` set (sessions s))) \<and> users s' = users s \<and> blacklist s' = blacklist s) s"
  unfolding create_session_def
  by (auto intro!: wp_intro simp: insert_session_def split: if_splits)

text \<open>A refresh keeps the state, or deletes the token and then opens a session or fails.\<close>

lemma refresh_tokens:
  "wp (refresh e token) (\<lambda>r s'.
     (s' = s \<and> (\<exists>err. r = Inl err)) \<or>
     (live_token token s \<and> sn_token ` set (sessions s') \<subseteq> insert (new_refresh_token e) (sn_token ` set (sessions s) - {token}))) s"
proof (cases "filter (\<lambda>r. sn_token r = token) (sessions s)")
  case Nil
  then show ?thesis unfolding refresh_def by (auto intro!: wp_intro)
next
  case (Cons r rs)
  then have "r \<in> set (filter (\<lambda>r. sn_token r = token) (sessions s))" by simp
  then have live: "live_token token s" by (auto simp: live_token_def)
  let ?Q = "\<lambda>r' s'. live_token token s \<and> sn_token ` set (sessions s') \<subseteq> insert (new_refresh_token e) (sn_token ` set (sessions s) - {token})"
  have del: "sn_token ` set (sessions (delete_token token s)) = sn_token ` set (sessions s) - {token}"
    by (auto simp: delete_token_def)
  have "wp (create_session e u) ?Q (delete_token token s)" for u
    by (rule wp_weaken [OF create_session_tokens]) (use live del in auto)
  then have "wp (bind_io (get_user_by_id e i) (create_session e)) ?Q (delete_token token s)" for i
    by (intro wp_bind_io, intro wp_weaken [OF wp_get_user_by_id]) (use live del in auto)
  then have "wp (bind_io (exec (delete_token token)) (\<lambda>_. bind_io (get_user_by_id e i) (create_session e)))
     (\<lambda>r s'. (s' = s \<and> (\<exists>err. r = Inl err)) \<or> ?Q r s') s" for i
    by (intro wp_bind_io wp_exec) (auto intro: wp_weaken)
  with Cons show ?thesis
    unfolding refresh_def
    by (auto intro!: wp_bind_io [of "query _ _ _"] wp_query simp: ok_or_def wp_fail split: option.splits)
qed

lemma redeem_token_cases:
  assumes "redeem_token (e, t) d = (ok, d')"
  shows "(st d' = st d \<and> \<not> ok) \<or> (live_token t (st d) \<and>
    sn_token ` set (sessions (st d')) \<subseteq> insert (new_refresh_token e) (sn_token ` set (sessions (st d)) - {t}))"
proof -
  obtain r where r: "refresh e t d = (r, d')" "ok = (\<not> (\<exists>err. r = Inl err))"
    using assms by (auto simp: redeem_token_def split: prod.splits)
  from wp_D [OF refresh_tokens r(1)] r(2) show ?thesis by auto
qed

interpretation refresh: one_shot "\<lambda>_. True" live_token redeem_token snd "\<lambda>c. {new_refresh_token (fst c)}"
proof unfold_locales
  fix c :: "auth_env \<times> string" and d d' :: "'a auth_db_scheme db"
  obtain e t where c: "c = (e, t)" by (cases c)
  assume "redeem_token c d = (True, d')"
  then have "redeem_token (e, t) d = (True, d')" by (simp add: c)
  from redeem_token_cases [OF this]
  show "live_token (snd c) (st d) \<and> (live_token (snd c) (st d') \<longrightarrow> snd c \<in> {new_refresh_token (fst c)})"
    by (auto simp: c live_token_def)
next
  fix c :: "auth_env \<times> string" and d d' :: "'a auth_db_scheme db" and ok t'
  obtain e t where c: "c = (e, t)" by (cases c)
  assume r: "redeem_token c d = (ok, d')" and l: "live_token t' (st d')" "t' \<notin> {new_refresh_token (fst c)}"
  from r have "redeem_token (e, t) d = (ok, d')" by (simp add: c)
  from redeem_token_cases [OF this] l show "live_token t' (st d)" by (auto simp: c live_token_def)
qed simp

text \<open>
  A refresh token is rotated: in any sequence of refreshes, under any failures, a token that none of them
  draws as its new token is exchanged at most once, and never if no session holds it.
\<close>

theorem refresh_tokens_rotate:
  assumes "redeem_all redeem_token cs d = (rs, d')" "list_all (\<lambda>c. new_refresh_token (fst c) \<noteq> t) cs"
  shows "accepted snd t rs \<le> (if live_token t (st d) then 1 else 0)"
  by (rule refresh.accepted_bound [OF assms(1)]) (use assms(2) in \<open>auto simp: list_all_iff\<close>)

theorem refresh_tokens_rotate_witness:
  "accepted snd ''r1'' (fst (redeem_all redeem_token [(demo_auth_env, ''r1''), (demo_auth_env, ''r1'')] (up demo_auth_db))) \<le> 1"
proof -
  have "list_all (\<lambda>c. new_refresh_token (fst c) \<noteq> ''r1'') [(demo_auth_env, ''r1''), (demo_auth_env, ''r1'')]"
    by (simp add: demo_auth_env_def)
  from refresh_tokens_rotate [OF prod.collapse [symmetric] this, of "up demo_auth_db"] show ?thesis by (simp split: if_splits)
qed

text \<open>
  The expiry of a refresh token is stored and never looked at: a token is exchanged for a new session
  whatever its expiry time, however long ago that was.
\<close>

theorem refresh_ignores_expiry:
  assumes "filter (\<lambda>r. sn_token r = token) (sessions s) = [\<lparr>sn_id = i, sn_user = u, sn_token = token, sn_expires = expired, sn_created = c\<rparr>]"
    and "filter (\<lambda>r. ur_id r = u) (users s) = [r]" "plain (ur_email r)" "in_i64 u"
    and "\<And>c. \<exists>t. encode_jwt e c = Inr t" "new_refresh_token e \<notin> sn_token ` set (sessions s)"
  shows "\<exists>t s'. refresh e token (up s) = (Inr t, up s') \<and> us_id (at_user t) = u \<and> live_token (at_refresh_token t) s'"
proof -
  let ?s = "delete_token token s"
  let ?u = "\<lparr>us_id = u, us_email = ur_email r, us_created_at = show_time e (ur_created r),
     us_updated_at = show_time e (ur_updated r), us_metadata = meta_value (parse_text e) (ur_meta r)\<rparr>"
  have users: "users ?s = users s" by (simp add: delete_token_def)
  have get: "get_user_by_id e u (up ?s) = (Inr ?u, up ?s)"
    using get_user_by_id_up [of u ?s r "[]" e] assms(2,3,4) by (simp add: users)
  have "r \<in> set (filter (\<lambda>r. ur_id r = u) (users s))" using assms(2) by simp
  then have "u \<in> ur_id ` set (users ?s)" by (auto simp: users)
  moreover have "new_refresh_token e \<notin> sn_token ` set (sessions ?s)" using assms(6) by (auto simp: delete_token_def)
  moreover obtain access where "encode_jwt e \<lparr>cl_sub = us_id ?u, cl_email = us_email ?u, cl_jti = new_uuid e,
     cl_exp = au_now e + DEFAULT_ACCESS_TOKEN_DURATION, cl_iat = au_now e\<rparr> = Inr access" using assms(5) by blast
  ultimately have "\<exists>t s'. create_session e ?u (up ?s) = (Inr t, up s') \<and> at_user t = ?u \<and> live_token (at_refresh_token t) s'"
    by (simp add: create_session_def generate_access_token_def insert_session_def live_token_def)
  with get assms(1,4) show ?thesis
    by (auto simp: refresh_def json_row_def col_i64_def)
qed

theorem refresh_ignores_expiry_witness:
  "\<exists>t s'. refresh demo_auth_env ''r1'' (up demo_auth_db) = (Inr t, up s') \<and> us_id (at_user t) = 1"
proof -
  have "\<exists>t s'. refresh demo_auth_env ''r1'' (up demo_auth_db) = (Inr t, up s') \<and> us_id (at_user t) = 1 \<and> live_token (at_refresh_token t) s'"
    by (rule refresh_ignores_expiry [of _ _ 1 _ 0 0 demo_user_row])
      (simp_all add: demo_auth_db_def demo_user_row_def demo_auth_env_def plain_Cons in_i64_def)
  then show ?thesis by blast
qed

section \<open>Logout\<close>

definition blacklisted :: "string \<Rightarrow> 'x auth_db_scheme \<Rightarrow> bool" where
  "blacklisted jti s \<longleftrightarrow> jti \<in> bl_jti ` set (blacklist s)"

lemma blacklisted_other [simp]:
  "blacklisted j (s\<lparr>sessions := x\<rparr>) = blacklisted j s" "blacklisted j (delete_token t s) = blacklisted j s"
  "blacklisted j (update_user_row i f s) = blacklisted j s"
  "blacklisted j s \<Longrightarrow> blacklisted j (insert_black b s)"
  by (auto simp: blacklisted_def delete_token_def update_user_row_def insert_black_def)

lemma blacklisted_inserts:
  "insert_user e m h t s = Inr (x, s') \<Longrightarrow> blacklisted j s' = blacklisted j s"
  "insert_session r s = Inr (y, s') \<Longrightarrow> blacklisted j s' = blacklisted j s"
  by (auto simp: insert_user_def insert_session_def blacklisted_def split: if_splits)

lemma keeps_blacklisted: "keeps (blacklisted j) (auth_handler e header rq)"
  by (cases rq)
    (auto simp: signup_def login_def refresh_def logout_def update_user_def change_password_def list_sessions_def
      revoke_session_def create_session_def Let_def blacklisted_inserts intro!: keeps_intro split: list.splits option.splits)

lemma blacklisted_refused:
  assumes "blacklisted (cl_jti c) s" "decode_jwt e token = Some c"
  shows "wp (token_blacklist_middleware e (Some (''Bearer '' @ token)) handler) (\<lambda>r s'. s' = s \<and> (\<exists>err. r = Inl err)) s"
proof -
  have "filter (\<lambda>r. bl_jti r = cl_jti c) (blacklist s) \<noteq> []" using assms(1) by (auto simp: blacklisted_def filter_empty_conv)
  moreover have "strip_prefix (''Bearer '' @ token) ''Bearer '' = Some token" by (simp only: strip_prefix_Some)
  ultimately show ?thesis
    using assms(2)
    by (auto intro!: wp_intro simp: token_blacklist_middleware_def validate_token_def is_token_blacklisted_def)
qed

text \<open>
  C14. Logging out ends a session: once a logout with a valid access token has succeeded, no session holds the
  refresh token, and on the routes behind the blacklist middleware every later request with that access
  token is refused, whatever is served in between and whatever calls fail.
\<close>

theorem logout_revokes:
  assumes "auth_handler e (Some (''Bearer '' @ token)) (LogoutRequest refresh_token) d = (Inr a, d1)"
    and "decode_jwt e token = Some c" "auth_serve cs d1 = (rs, d2)"
    and "decode_jwt e' token' = Some c'" "cl_jti c' = cl_jti c"
    and "token_blacklist_middleware e' (Some (''Bearer '' @ token')) handler d2 = (r, d3)"
  shows "\<not> live_token refresh_token (st d1) \<and> (\<exists>err. r = Inl err) \<and> st d3 = st d2"
proof -
  have "strip_prefix (''Bearer '' @ token) ''Bearer '' = Some token" by (simp only: strip_prefix_Some)
  then have "wp (auth_handler e (Some (''Bearer '' @ token)) (LogoutRequest refresh_token))
      (\<lambda>r s'. (\<exists>err. r = Inl err) \<or> (\<not> live_token refresh_token s' \<and> blacklisted (cl_jti c) s')) (st d)"
    using assms(2)
    by (auto intro!: wp_intro simp: Let_def logout_def live_token_def blacklisted_def delete_token_def insert_black_def split: if_splits)
  from wp_D [OF this assms(1)] have out: "\<not> live_token refresh_token (st d1)" "blacklisted (cl_jti c) (st d1)" by auto
  have "blacklisted (cl_jti c') (st d2)"
    by (rule auth_serve_keeps [OF assms(3)]) (use out(2) assms(5) keeps_blacklisted in auto)
  from wp_D [OF blacklisted_refused [OF this assms(4)] assms(6)] out(1) show ?thesis by auto
qed

theorem logout_revokes_witness:
  "\<exists>d1 r d3. auth_handler demo_auth_env (Some ''Bearer tok'') (LogoutRequest ''r1'') (up demo_auth_db) = (Inr (MessageResponse ''Logged out successfully''), d1)
     \<and> token_blacklist_middleware demo_auth_env (Some ''Bearer tok'') (auth_handler demo_auth_env (Some ''Bearer tok'') MeRequest) d1 = (r, d3)
     \<and> (\<exists>err. r = Inl err)"
proof -
  have sp: "strip_prefix ''Bearer tok'' ''Bearer '' = Some ''tok''" by (simp add: strip_prefix_def starts_with_def)
  obtain d1 where d1: "auth_handler demo_auth_env (Some (''Bearer '' @ ''tok'')) (LogoutRequest ''r1'') (up demo_auth_db)
      = (Inr (MessageResponse ''Logged out successfully''), d1)"
    by (simp add: Let_def sp logout_def demo_auth_env_def)
  obtain r d3 where r: "token_blacklist_middleware demo_auth_env (Some (''Bearer '' @ ''tok''))
      (auth_handler demo_auth_env (Some ''Bearer tok'') MeRequest) d1 = (r, d3)" by (meson surj_pair)
  let ?c = "\<lparr>cl_sub = 1, cl_email = ''tok'', cl_jti = ''tok'', cl_exp = 9, cl_iat = 0\<rparr>"
  have c: "decode_jwt demo_auth_env ''tok'' = Some ?c" by (simp add: demo_auth_env_def)
  have run: "auth_serve [] d1 = ([], d1)" by simp
  from logout_revokes [OF d1 c run c refl r] d1 r show ?thesis by auto
qed

end
