(* ===== verification/MagicLink.thy ===== *)
theory MagicLink imports Auth begin

text \<open>
  Magic links (\<open>src/src/auth/magic_link.rs\<close>): requests with their rate limit, verification, and the periodic
  clean-up. The state extends that of the accounts (\<open>Auth\<close>), on which a verified link opens a session.
  Parameters: random tokens, SHA-256 with the secret, the mail server and the clock, which is the same in the
  program and in the database. Times are seconds.
\<close>

section \<open>State and parameters\<close>

definition MAGIC_LINK_EXPIRY_SECS :: nat where "MAGIC_LINK_EXPIRY_SECS = 900"

definition RATE_LIMIT_MAX :: int where "RATE_LIMIT_MAX = 5"

definition RATE_LIMIT_WINDOW_SECS :: nat where "RATE_LIMIT_WINDOW_SECS = 900"

record link_row =
  lk_id :: int
  lk_email :: string
  lk_hash :: string
  lk_redirect :: string
  lk_expires :: nat
  lk_used :: bool
  lk_created :: nat

record magic_db = auth_db +
  links :: "link_row list"
  rate_rows :: "(string \<times> nat) list"
  next_link :: int
  outbox :: "(string \<times> string) list"

record magic_env =
  me_auth :: auth_env
  me_token :: string
  me_hash :: "string \<Rightarrow> string"
  me_base_url :: string
  me_smtp :: "(string \<Rightarrow> string \<Rightarrow> unit result) option"
  me_password_hash :: string

abbreviation me_now :: "magic_env \<Rightarrow> nat" where
  "me_now e \<equiv> au_now (me_auth e)"

section \<open>Operations\<close>

definition check_rate_limit :: "magic_env \<Rightarrow> string \<Rightarrow> ('x magic_db_scheme, unit) io" where
  "check_rate_limit e email =
     bind_io (auth_query (me_auth e) (\<lambda>s. [[(''cnt'', cell_int (int (length (filter
         (\<lambda>(m, t). m = email \<and> me_now e - RATE_LIMIT_WINDOW_SECS < t) (rate_rows s)))))]])) (\<lambda>rows.
     let count = (case rows of [] \<Rightarrow> 0 | row # _ \<Rightarrow> unwrap_or 0 (col_i64 row ''cnt'')) in
     if RATE_LIMIT_MAX \<le> count
     then fail (InvalidPayload ''Too many magic link requests. Please try again later.'')
     else exec (\<lambda>s. s\<lparr>rate_rows := rate_rows s @ [(email, me_now e)]\<rparr>))"

definition insert_link :: "magic_env \<Rightarrow> string \<Rightarrow> string option \<Rightarrow> 'x magic_db_scheme \<Rightarrow> (unit \<times> 'x magic_db_scheme) result" where
  "insert_link e email redirect s =
     (let h = me_hash e (me_token e) in
      if h \<in> lk_hash ` set (links s) then Inl (Database ''Execute failed: duplicate key'')
      else Inr ((), s\<lparr>links := links s @ [\<lparr>lk_id = next_link s, lk_email = email, lk_hash = h,
          lk_redirect = unwrap_or [] redirect, lk_expires = me_now e + MAGIC_LINK_EXPIRY_SECS, lk_used = False,
          lk_created = me_now e\<rparr>], next_link := next_link s + 1\<rparr>))"

definition send_email :: "(string \<Rightarrow> string \<Rightarrow> unit result) \<Rightarrow> string \<Rightarrow> string \<Rightarrow> ('x magic_db_scheme, unit) io" where
  "send_email smtp email url =
     bind_io (lift (smtp email url)) (\<lambda>_. modify (\<lambda>s. s\<lparr>outbox := outbox s @ [(email, url)]\<rparr>))"

text \<open>What follows the rate limit check: the token is stored, then the link is sent, or logged without a mail server.\<close>

definition deliver_link :: "magic_env \<Rightarrow> string \<Rightarrow> string option \<Rightarrow> ('x magic_db_scheme, unit) io" where
  "deliver_link e email redirect =
     bind_io (stmt (insert_link e email redirect)) (\<lambda>_.
     let url = me_base_url e @ ''/v1/auth/magic-link/verify?token='' @ me_token e in
     case me_smtp e of
       Some smtp \<Rightarrow> send_email smtp email url
     | None \<Rightarrow> ret ())"

definition send_magic_link :: "magic_env \<Rightarrow> string \<Rightarrow> string option \<Rightarrow> ('x magic_db_scheme, unit) io" where
  "send_magic_link e email redirect =
     (if \<not> str_contains email ''@'' \<or> length email < 5 then fail (InvalidPayload ''Invalid email format'')
      else bind_io (check_rate_limit e email) (\<lambda>_. deliver_link e email redirect))"

definition link_cells :: "magic_env \<Rightarrow> link_row \<Rightarrow> (string \<times> cell) list" where
  "link_cells e r =
     [(''email'', cell_text (lk_email r)), (''redirect_to'', cell_text (lk_redirect r)),
      (''expires_at'', cell_time (show_time (me_auth e) (lk_expires r))), (''used'', cell_bool (lk_used r))]"

definition use_link :: "string \<Rightarrow> 'x magic_db_scheme \<Rightarrow> 'x magic_db_scheme" where
  "use_link h s = s\<lparr>links := map (\<lambda>r. if lk_hash r = h then r\<lparr>lk_used := True\<rparr> else r) (links s)\<rparr>"

text \<open>The account a verified link logs in: the one with the address, or a new one.\<close>

definition find_or_create :: "magic_env \<Rightarrow> string \<Rightarrow> ('x magic_db_scheme, user) io" where
  "find_or_create e email =
     bind_io (auth_query (me_auth e) (\<lambda>s. map (\<lambda>r. filter (\<lambda>(k, _). k \<noteq> ''password_hash'') (user_cells (me_auth e) r))
         (filter (\<lambda>r. ur_email r = email) (users s)))) (\<lambda>user_rows.
     case user_rows of
       row # _ \<Rightarrow> bind_io (lift (ok_or (Internal ''Missing id'') (col_i64 row ''id''))) (get_user_by_id (me_auth e))
     | [] \<Rightarrow> bind_io (stmt (insert_user (me_auth e) email (''magic_link_no_password_'' @ me_password_hash e) ''{}''))
              (get_user_by_id (me_auth e)))"

definition verify_magic_link :: "magic_env \<Rightarrow> string \<Rightarrow> ('x magic_db_scheme, auth_tokens) io" where
  "verify_magic_link e token =
     bind_io (auth_query (me_auth e) (\<lambda>s. map (link_cells e) (filter (\<lambda>r. lk_hash r = me_hash e token) (links s)))) (\<lambda>rows.
     case rows of
       [] \<Rightarrow> fail (Unauthorized ''Invalid or expired magic link'')
     | row # _ \<Rightarrow>
         if unwrap_or False (col_bool row ''used'') then fail (Unauthorized ''Magic link already used'')
         else
           bind_io (lift (ok_or (Internal ''Missing email'') (col_str row ''email''))) (\<lambda>email.
           bind_io (exec (use_link (me_hash e token))) (\<lambda>_.
           bind_io (find_or_create e email) (\<lambda>u.
           create_session (me_auth e) u))))"

definition cleanup_expired :: "magic_env \<Rightarrow> ('x magic_db_scheme, nat) io" where
  "cleanup_expired e =
     (let gone = (\<lambda>r. lk_expires r < me_now e \<or> lk_used r) in
      bind_io (stmt (\<lambda>s. Inr (length (filter gone (links s)), s\<lparr>links := filter (\<lambda>r. \<not> gone r) (links s)\<rparr>))) (\<lambda>deleted.
      bind_io (exec (\<lambda>s. s\<lparr>rate_rows := filter (\<lambda>(_, t). \<not> t + RATE_LIMIT_WINDOW_SECS < me_now e) (rate_rows s)\<rparr>))
        (\<lambda>_. ret deleted)))"

section \<open>Links are single use\<close>

definition live_link :: "string \<Rightarrow> 'x magic_db_scheme \<Rightarrow> bool" where
  "live_link h s \<longleftrightarrow> list_ex (\<lambda>r. lk_hash r = h \<and> \<not> lk_used r) (links s)"

definition redeem_link :: "magic_env \<times> string \<Rightarrow> 'x magic_db_scheme db \<Rightarrow> bool \<times> 'x magic_db_scheme db" where
  "redeem_link c d = (case verify_magic_link (fst c) (snd c) d of (r, d') \<Rightarrow> (\<not> (\<exists>err. r = Inl err), d'))"

definition link_key :: "magic_env \<times> string \<Rightarrow> string" where
  "link_key c = me_hash (fst c) (snd c)"

lemma keeps_links:
  "keeps (\<lambda>s. links s = L) (create_session e u)" "keeps (\<lambda>s. links s = L) (find_or_create e' m)"
  unfolding create_session_def find_or_create_def
  by (auto intro!: keeps_intro simp: insert_session_def insert_user_def split: list.splits if_splits)

lemma live_use_link:
  "live_link t (use_link h s) \<longleftrightarrow> live_link t s \<and> t \<noteq> h"
  by (auto simp: live_link_def use_link_def list_ex_iff)

lemma verify_magic_link_links:
  "wp (verify_magic_link e token) (\<lambda>r s'.
     (links s' = links s \<and> (\<exists>err. r = Inl err)) \<or>
     (links s' = links (use_link (me_hash e token) s) \<and> live_link (me_hash e token) s)) s"
proof (cases "filter (\<lambda>r. lk_hash r = me_hash e token) (links s)")
  case Nil
  then show ?thesis unfolding verify_magic_link_def by (auto intro!: wp_intro)
next
  case (Cons r rs)
  then have "r \<in> set (filter (\<lambda>r. lk_hash r = me_hash e token) (links s))" by simp
  then have live: "\<not> lk_used r \<Longrightarrow> live_link (me_hash e token) s" by (auto simp: live_link_def list_ex_iff)
  let ?L = "\<lambda>_ s'. links s' = links (use_link (me_hash e token) s)"
  have "wp (bind_io (find_or_create e m) (create_session (me_auth e))) ?L (use_link (me_hash e token) s)" for m
    by (rule wp_keeps) (intro keeps_intro keeps_links, simp)
  then have "wp (bind_io (exec (use_link (me_hash e token))) (\<lambda>_. bind_io (find_or_create e m) (create_session (me_auth e))))
    (\<lambda>r s'. (links s' = links s \<and> (\<exists>err. r = Inl err)) \<or> ?L r s') s" for m
    by (intro wp_bind_io wp_exec) (auto intro: wp_weaken)
  with live Cons show ?thesis
    unfolding verify_magic_link_def
    by (auto intro!: wp_bind_io [of "query _ _ _"] wp_query simp: ok_or_def wp_fail json_row_def link_cells_def col_bool_def
        intro: wp_weaken split: option.splits)
qed

lemma redeem_link_cases:
  assumes "redeem_link c d = (ok, d')"
  shows "(links (st d') = links (st d) \<and> \<not> ok) \<or> (live_link (link_key c) (st d) \<and> links (st d') = links (use_link (link_key c) (st d)))"
proof -
  obtain r where r: "verify_magic_link (fst c) (snd c) d = (r, d')" "ok = (\<not> (\<exists>err. r = Inl err))"
    using assms by (auto simp: redeem_link_def split: prod.splits)
  from wp_D [OF verify_magic_link_links r(1)] r(2) show ?thesis by (auto simp: link_key_def)
qed

lemma live_link_links: "links s = links s' \<Longrightarrow> live_link t s = live_link t s'"
  by (simp add: live_link_def)

interpretation magic: one_shot "\<lambda>_. True" live_link redeem_link link_key "\<lambda>_. {}"
proof unfold_locales
  fix c :: "magic_env \<times> string" and d d' :: "'a magic_db_scheme db"
  assume "redeem_link c d = (True, d')"
  from redeem_link_cases [OF this] live_use_link [of "link_key c" "link_key c" "st d"]
  show "live_link (link_key c) (st d) \<and> (live_link (link_key c) (st d') \<longrightarrow> link_key c \<in> {})"
    by (metis live_link_links)
next
  fix c :: "magic_env \<times> string" and d d' :: "'a magic_db_scheme db" and ok t
  assume "redeem_link c d = (ok, d')" "live_link t (st d')"
  from redeem_link_cases [OF this(1)] this(2) live_use_link [of t "link_key c" "st d"]
  show "live_link t (st d)" by (metis live_link_links)
qed simp

text \<open>
  A magic link logs in at most once: in any sequence of verifications, under any failures, the tokens
  with one stored hash are accepted at most once together, and never if no unused link has that hash. A link
  whose verification fails half way is spent.
\<close>

theorem magic_links_single_use:
  assumes "redeem_all redeem_link cs d = (rs, d')"
  shows "accepted link_key h rs \<le> (if live_link h (st d) then 1 else 0)"
  by (rule magic.accepted_bound [OF assms]) (simp_all add: list_all_iff)

definition demo_magic_env :: magic_env where
  "demo_magic_env = \<lparr>me_auth = demo_auth_env, me_token = ''tok'', me_hash = (\<lambda>t. CHR ''h'' # t), me_base_url = ''https://s'',
     me_smtp = Some (\<lambda>_ _. Inr ()), me_password_hash = ''x''\<rparr>"

definition demo_link :: link_row where
  "demo_link = \<lparr>lk_id = 1, lk_email = ''boss@acme.io'', lk_hash = ''hold'', lk_redirect = [], lk_expires = 0,
     lk_used = False, lk_created = 0\<rparr>"

definition demo_magic_db :: magic_db where
  "demo_magic_db = \<lparr>users = [demo_user_row], sessions = [], blacklist = [], next_user = 2, next_session = 2,
     links = [demo_link], rate_rows = [], next_link = 2, outbox = []\<rparr>"

theorem magic_links_single_use_witness:
  "accepted link_key ''hold'' (fst (redeem_all redeem_link [(demo_magic_env, ''old''), (demo_magic_env, ''old'')] (up demo_magic_db))) \<le> 1"
  using magic_links_single_use [OF prod.collapse [symmetric], where h = "''hold''" and d = "up demo_magic_db"
      and cs = "[(demo_magic_env, ''old''), (demo_magic_env, ''old'')]"]
  by (simp split: if_splits)

section \<open>Expiry\<close>

text \<open>
  The expiry of a magic link is stored and selected but never looked at: an unused link of a registered
  address logs its owner in whenever it is presented before the clean-up has deleted it, however long after
  its fifteen minutes.
\<close>

theorem verify_ignores_expiry:
  assumes "filter (\<lambda>r. lk_hash r = me_hash e token) (links s) = [l]" "\<not> lk_used l" "plain (lk_email l)"
    and "filter (\<lambda>r. ur_email r = lk_email l) (users s) = [r]" "filter (\<lambda>q. ur_id q = ur_id r) (users s) = [r]" "in_i64 (ur_id r)"
    and "\<And>c. \<exists>t. encode_jwt (me_auth e) c = Inr t" "new_refresh_token (me_auth e) \<notin> sn_token ` set (sessions s)"
  shows "\<exists>t s'. verify_magic_link (e\<lparr>me_auth := (me_auth e)\<lparr>au_now := now\<rparr>\<rparr>) token (up s) = (Inr t, up s') \<and> us_email (at_user t) = lk_email l"
proof -
  let ?e = "e\<lparr>me_auth := (me_auth e)\<lparr>au_now := now\<rparr>\<rparr>" and ?s = "use_link (me_hash e token) s"
  have r: "ur_email r = lk_email l" using assms(4) by (metis (mono_tags, lifting) filter_eq_ConsD)
  have users: "users ?s = users s" "sessions ?s = sessions s" by (simp_all add: use_link_def)
  let ?u = "\<lparr>us_id = ur_id r, us_email = ur_email r, us_created_at = show_time (me_auth ?e) (ur_created r),
     us_updated_at = show_time (me_auth ?e) (ur_updated r), us_metadata = meta_value (parse_text (me_auth ?e)) (ur_meta r)\<rparr>"
  have "get_user_by_id (me_auth ?e) (ur_id r) (up ?s) = (Inr ?u, up ?s)"
    using get_user_by_id_up [of "ur_id r" ?s r "[]" "me_auth ?e"] assms(3,5,6) by (simp add: users r)
  then have user: "find_or_create ?e (lk_email l) (up ?s) = (Inr ?u, up ?s)"
    using assms(4,6) by (simp add: find_or_create_def users json_row_def user_cells_def col_i64_def)
  have "r \<in> set (filter (\<lambda>q. ur_id q = ur_id r) (users s))" using assms(5) by simp
  then have "ur_id r \<in> ur_id ` set (users ?s)" by (auto simp: users)
  moreover obtain access where "encode_jwt (me_auth e) \<lparr>cl_sub = us_id ?u, cl_email = us_email ?u, cl_jti = new_uuid (me_auth e),
     cl_exp = now + DEFAULT_ACCESS_TOKEN_DURATION, cl_iat = now\<rparr> = Inr access" using assms(7) by blast
  ultimately have "\<exists>t s'. create_session (me_auth ?e) ?u (up ?s) = (Inr t, up s') \<and> at_user t = ?u"
    using assms(8) by (simp add: create_session_def generate_access_token_def insert_session_def users)
  with user assms(1-3) r show ?thesis
    by (auto simp: verify_magic_link_def json_row_def link_cells_def col_bool_def col_str_def)
qed

theorem verify_ignores_expiry_witness:
  "\<exists>t s'. verify_magic_link (demo_magic_env\<lparr>me_auth := demo_auth_env\<lparr>au_now := 5000000\<rparr>\<rparr>) ''old'' (up demo_magic_db) = (Inr t, up s')
     \<and> us_email (at_user t) = ''boss@acme.io''"
  using verify_ignores_expiry [of demo_magic_env "''old''" demo_magic_db demo_link demo_user_row 5000000]
  by (simp add: demo_magic_env_def demo_magic_db_def demo_link_def demo_user_row_def demo_auth_env_def plain_Cons in_i64_def)

section \<open>The rate limit\<close>

text \<open>The recorded requests of an address in a window that starts after \<open>w\<close>.\<close>

definition in_window :: "string \<Rightarrow> nat \<Rightarrow> (string \<times> nat) list \<Rightarrow> nat" where
  "in_window m w rows = length (filter (\<lambda>(m', t). m' = m \<and> w < t \<and> t \<le> w + RATE_LIMIT_WINDOW_SECS) rows)"

definition rate_ok :: "nat \<Rightarrow> 'x magic_db_scheme \<Rightarrow> bool" where
  "rate_ok now s \<longleftrightarrow> list_all (\<lambda>(_, t). t \<le> now) (rate_rows s) \<and> (\<forall>m w. in_window m w (rate_rows s) \<le> 5)"

lemma in_window_record:
  assumes "list_all (\<lambda>(_, t). t \<le> now) rows" "\<forall>m w. in_window m w rows \<le> 5"
    and "length (filter (\<lambda>(m', t). m' = m \<and> now - RATE_LIMIT_WINDOW_SECS < t) rows) < 5"
  shows "in_window m' w (rows @ [(m, now)]) \<le> 5"
proof (cases "m' = m \<and> w < now \<and> now \<le> w + RATE_LIMIT_WINDOW_SECS")
  case True
  have "length (filter (\<lambda>(m', t). m' = m \<and> w < t \<and> t \<le> w + RATE_LIMIT_WINDOW_SECS) rows)
      \<le> length (filter (\<lambda>(m', t). m' = m \<and> now - RATE_LIMIT_WINDOW_SECS < t) rows)"
    by (rule length_filter_mono_pred) (use True in auto)
  with True assms(3) show ?thesis by (simp add: in_window_def)
next
  case False
  with assms(2) show ?thesis by (auto simp: in_window_def)
qed

lemma rate_ok_insert_link: "insert_link e m r s = Inr (x, s') \<Longrightarrow> rate_rows s' = rate_rows s"
  by (auto simp: insert_link_def Let_def split: if_splits)

text \<open>What the check records: nothing on a refusal, one request below the limit.\<close>

lemma check_rate_limit_ok:
  assumes "rate_ok now s" "now \<le> me_now e"
  shows "wp (check_rate_limit e m) (\<lambda>r s'. rate_ok (me_now e) s' \<and>
     (rate_rows s' = rate_rows s \<and> (\<exists>err. r = Inl err) \<or> rate_rows s' = rate_rows s @ [(m, me_now e)] \<and> r = Inr ())) s"
proof -
  have old: "rate_ok (me_now e) s" using assms(1,2) by (fastforce simp: rate_ok_def list_all_iff)
  let ?n = "length (filter (\<lambda>(m', t). m' = m \<and> me_now e - RATE_LIMIT_WINDOW_SECS < t) (rate_rows s))"
  have "?n \<le> in_window m (me_now e - RATE_LIMIT_WINDOW_SECS) (rate_rows s)"
    unfolding in_window_def by (rule length_filter_mono_pred) (use old in \<open>auto simp: rate_ok_def list_all_iff\<close>)
  also have "\<dots> \<le> 5" using old by (simp add: rate_ok_def)
  finally have i: "in_i64 (int ?n)" by (simp add: in_i64_def)
  have "rate_ok (me_now e) (s\<lparr>rate_rows := rate_rows s @ [(m, me_now e)]\<rparr>)" if "?n < 5"
    using old in_window_record [OF _ _ that] by (auto simp: rate_ok_def)
  then show ?thesis
    unfolding check_rate_limit_def Let_def
    using old i by (auto intro!: wp_intro simp: json_row_def col_i64_def RATE_LIMIT_MAX_def)
qed

lemma keeps_rate_after: "keeps (\<lambda>s. rate_rows s = R) (deliver_link e m r)"
  unfolding deliver_link_def Let_def send_email_def
  by (auto intro!: keeps_intro simp: rate_ok_insert_link split: option.splits)

lemma send_magic_link_rate:
  assumes "rate_ok now s" "now \<le> me_now e"
  shows "wp (send_magic_link e m redirect) (\<lambda>r s'. rate_ok (me_now e) s' \<and>
     (rate_rows s' = rate_rows s \<and> (\<exists>err. r = Inl err) \<or> rate_rows s' = rate_rows s @ [(m, me_now e)])) s"
proof -
  have "rate_ok (me_now e) s" using assms by (fastforce simp: rate_ok_def list_all_iff)
  moreover have "wp (deliver_link e m redirect) (\<lambda>r s''. rate_ok (me_now e) s'' \<and>
     (rate_rows s'' = rate_rows s \<and> (\<exists>err. r = Inl err) \<or> rate_rows s'' = rate_rows s @ [(m, me_now e)])) s'"
    if "rate_ok (me_now e) s'" "rate_rows s' = rate_rows s @ [(m, me_now e)]" for s'
  proof -
    have "wp (deliver_link e m redirect) (\<lambda>_ s''. rate_rows s'' = rate_rows s') s'"
      by (rule wp_keeps [OF keeps_rate_after]) simp
    then show ?thesis by (rule wp_weaken) (use that in \<open>auto simp: rate_ok_def\<close>)
  qed
  ultimately show ?thesis
    unfolding send_magic_link_def
    by (intro wp_if wp_fail wp_bind_io wp_weaken [OF check_rate_limit_ok [OF assms]]) auto
qed

fun send_all :: "(magic_env \<times> string \<times> string option) list \<Rightarrow> 'x magic_db_scheme db \<Rightarrow> unit result list \<times> 'x magic_db_scheme db" where
  "send_all [] d = ([], d)"
| "send_all ((e, m, redirect) # cs) d =
     (case send_magic_link e m redirect d of (r, d1) \<Rightarrow> (case send_all cs d1 of (rs, d2) \<Rightarrow> (r # rs, d2)))"

text \<open>The successful requests for an address in a window.\<close>

definition sent_in_window :: "string \<Rightarrow> nat \<Rightarrow> (magic_env \<times> string \<times> string option) list \<Rightarrow> unit result list \<Rightarrow> nat" where
  "sent_in_window m w cs rs = length (filter (\<lambda>((e, m', _), r).
     r = Inr () \<and> m' = m \<and> w < me_now e \<and> me_now e \<le> w + RATE_LIMIT_WINDOW_SECS) (zip cs rs))"

lemma send_all_rate:
  assumes "send_all cs d = (rs, d')" "rate_ok now (st d)" "sorted (now # map (\<lambda>c. me_now (fst c)) cs)"
  shows "(\<exists>t. rate_ok t (st d')) \<and> in_window m w (rate_rows (st d)) + sent_in_window m w cs rs \<le> in_window m w (rate_rows (st d'))"
  using assms
proof (induction cs arbitrary: d rs now)
  case Nil
  then show ?case by (auto simp: sent_in_window_def)
next
  case (Cons c cs)
  obtain e m' redirect where c: "c = (e, m', redirect)" by (cases c)
  obtain r d1 where r: "send_magic_link e m' redirect d = (r, d1)" by (cases "send_magic_link e m' redirect d")
  obtain rs' where rs: "send_all cs d1 = (rs', d')" "rs = r # rs'"
    using Cons.prems(1) r by (auto simp: c split: prod.splits)
  have le: "now \<le> me_now e" and srt: "sorted (me_now e # map (\<lambda>c. me_now (fst c)) cs)" using Cons.prems(3) by (simp_all add: c)
  from wp_D [OF send_magic_link_rate [OF Cons.prems(2) le] r]
  have ok: "rate_ok (me_now e) (st d1)" and
    rows: "rate_rows (st d1) = rate_rows (st d) \<and> (\<exists>err. r = Inl err) \<or> rate_rows (st d1) = rate_rows (st d) @ [(m', me_now e)]"
    by simp_all
  from Cons.IH [OF rs(1) ok srt] rows show ?case
    by (auto simp: rs(2) c sent_in_window_def in_window_def)
qed

text \<open>
  At most five magic links are sent to one address within fifteen minutes: for requests served one after
  the other on a clock that does not run backwards, under any failures, every window of that length holds at
  most five successful requests for an address, those recorded before included.
\<close>

theorem magic_link_rate_limit:
  assumes "send_all cs d = (rs, d')" "rate_ok now (st d)" "sorted (now # map (\<lambda>c. me_now (fst c)) cs)"
  shows "in_window m w (rate_rows (st d)) + sent_in_window m w cs rs \<le> 5"
  using send_all_rate [OF assms, of m w] by (auto simp: rate_ok_def intro: le_trans)

theorem magic_link_rate_limit_witness:
  "sent_in_window ''ann@acme.io'' 999990 [(demo_magic_env, ''ann@acme.io'', None), (demo_magic_env, ''ann@acme.io'', None)]
     (fst (send_all [(demo_magic_env, ''ann@acme.io'', None), (demo_magic_env, ''ann@acme.io'', None)] (up demo_magic_db))) \<le> 5"
proof -
  let ?cs = "[(demo_magic_env, ''ann@acme.io'', None), (demo_magic_env, ''ann@acme.io'', None)]"
  have "rate_ok 0 (st (up demo_magic_db))" by (simp add: rate_ok_def demo_magic_db_def in_window_def)
  moreover have "sorted (0 # map (\<lambda>c. me_now (fst c)) ?cs)" by simp
  ultimately have "in_window ''ann@acme.io'' 999990 (rate_rows (st (up demo_magic_db)))
      + sent_in_window ''ann@acme.io'' 999990 ?cs (fst (send_all ?cs (up demo_magic_db))) \<le> 5"
    by (rule magic_link_rate_limit [OF prod.collapse [symmetric]])
  then show ?thesis by simp
qed

end
