(* ===== verification/Loops.thy ===== *)
theory Loops imports Store begin

text \<open>
  Operations that may not return. An operation of this theory answers \<open>None\<close> when the bound it was given on
  nested calls and iterations is used up; that it returns is shown by exhibiting a bound for which the answer
  is \<open>Some\<close>, that it does not by showing \<open>None\<close> for every bound. The predicate \<open>pwp\<close> is the calculus of
  theory \<open>Store\<close> for them: its first argument says whether the operation must return.
\<close>

type_synonym ('s, 'a) pio = "'s db \<Rightarrow> ('a result \<times> 's db) option"

definition returns :: "('s, 'a) io \<Rightarrow> ('s, 'a) pio" where
  "returns m d = Some (m d)"

definition no_answer :: "('s, 'a) pio" where
  "no_answer d = None"

definition bind_p :: "('s, 'a) pio \<Rightarrow> ('a \<Rightarrow> ('s, 'b) pio) \<Rightarrow> ('s, 'b) pio" where
  "bind_p m k d =
     (case m d of None \<Rightarrow> None | Some (Inl e, d') \<Rightarrow> Some (Inl e, d') | Some (Inr a, d') \<Rightarrow> k a d')"

text \<open>A call whose result the caller inspects.\<close>

definition attempt_p :: "('s, 'a) pio \<Rightarrow> ('s, 'a result) pio" where
  "attempt_p m d = map_option (\<lambda>(r, d'). (Inr r, d')) (m d)"

fun for_p :: "('a \<Rightarrow> 'acc \<Rightarrow> ('s, 'acc) pio) \<Rightarrow> 'a list \<Rightarrow> 'acc \<Rightarrow> ('s, 'acc) pio" where
  "for_p f [] acc = returns (ret acc)"
| "for_p f (x # xs) acc = bind_p (f x acc) (\<lambda>acc'. for_p f xs acc')"

lemma pio_up [simp]:
  "returns m (up s) = Some (m (up s))"
  "no_answer (up s) = None"
  by (simp_all add: returns_def no_answer_def)

lemma bind_p_up [simp]:
  "m (up s) = Some (Inr a, up s') \<Longrightarrow> bind_p m k (up s) = k a (up s')"
  "m (up s) = Some (Inl e, up s') \<Longrightarrow> bind_p m k (up s) = Some (Inl e, up s')"
  "m (up s) = None \<Longrightarrow> bind_p m k (up s) = None"
  by (simp_all add: bind_p_def)

lemma attempt_p_up [simp]: "m (up s) = Some (r, up s') \<Longrightarrow> attempt_p m (up s) = Some (Inr r, up s')"
  by (simp add: attempt_p_def)

text \<open>The calculus.\<close>

definition pwp :: "bool \<Rightarrow> ('s, 'a) pio \<Rightarrow> ('a result \<Rightarrow> 's \<Rightarrow> bool) \<Rightarrow> 's \<Rightarrow> bool" where
  "pwp tot m Q s \<longleftrightarrow>
     (\<forall>d. st d = s \<longrightarrow> (case m d of None \<Rightarrow> \<not> tot | Some (r, d') \<Rightarrow> Q r (st d')))"

named_theorems pwp_intro

lemma pwp_D: "pwp tot m Q (st d) \<Longrightarrow> m d = Some (r, d') \<Longrightarrow> Q r (st d')"
  by (auto simp: pwp_def dest: spec [of _ d])

lemma pwp_total: "pwp True m Q (st d) \<Longrightarrow> \<exists>r d'. m d = Some (r, d') \<and> Q r (st d')"
  by (auto simp: pwp_def dest!: spec [of _ d] split: option.splits)

lemma pwp_weaken: "pwp tot m Q s \<Longrightarrow> (\<And>r s'. Q r s' \<Longrightarrow> Q' r s') \<Longrightarrow> pwp tot m Q' s"
  by (auto simp: pwp_def split: option.splits)

lemma pwp_partial: "pwp tot m Q s \<Longrightarrow> pwp False m Q s"
  by (auto simp: pwp_def split: option.splits)

lemma pwp_returns [pwp_intro]: "wp m Q s \<Longrightarrow> pwp tot (returns m) Q s"
  by (auto simp: pwp_def wp_def returns_def split: prod.splits)

lemma pwp_no_answer [pwp_intro]: "\<not> tot \<Longrightarrow> pwp tot no_answer Q s"
  by (simp add: pwp_def no_answer_def)

lemma pwp_bind_p [pwp_intro]:
  assumes "pwp tot m (\<lambda>r s'. (\<forall>e. r = Inl e \<longrightarrow> Q (Inl e) s') \<and> (\<forall>a. r = Inr a \<longrightarrow> pwp tot (k a) Q s')) s"
  shows "pwp tot (bind_p m k) Q s"
  unfolding pwp_def
proof (intro allI impI)
  fix d :: "'a db" assume d: "st d = s"
  show "case bind_p m k d of None \<Rightarrow> \<not> tot | Some (r, d') \<Rightarrow> Q r (st d')"
  proof (cases "m d")
    case None
    from assms [unfolded pwp_def, THEN spec, THEN mp, OF d] None have "\<not> tot" by simp
    with None show ?thesis by (simp add: bind_p_def)
  next
    case (Some p)
    obtain r d1 where p: "p = (r, d1)" by (cases p)
    from assms [unfolded pwp_def [of tot m], THEN spec, THEN mp, OF d] Some p
    have r: "(\<forall>e. r = Inl e \<longrightarrow> Q (Inl e) (st d1)) \<and> (\<forall>a. r = Inr a \<longrightarrow> pwp tot (k a) Q (st d1))" by simp
    show ?thesis
    proof (cases r)
      case (Inl e)
      with Some p r show ?thesis by (simp add: bind_p_def)
    next
      case (Inr a)
      with r have "pwp tot (k a) Q (st d1)" by simp
      with Some p Inr show ?thesis unfolding pwp_def by (simp add: bind_p_def)
    qed
  qed
qed

lemma pwp_attempt_p [pwp_intro]: "pwp tot m (\<lambda>r. Q (Inr r)) s \<Longrightarrow> pwp tot (attempt_p m) Q s"
  by (auto simp: pwp_def attempt_p_def split: option.splits)

text \<open>The loop rule: an invariant between the accumulator, what is left to do and the state.\<close>

lemma pwp_for_p:
  assumes "I xs acc s"
    and step: "\<And>x ys acc s. I (x # ys) acc s \<Longrightarrow> pwp tot (f x acc) (\<lambda>r s'. (\<forall>e. r = Inl e \<longrightarrow> Q (Inl e) s') \<and> (\<forall>a. r = Inr a \<longrightarrow> I ys a s')) s"
    and fin: "\<And>acc s. I [] acc s \<Longrightarrow> Q (Inr acc) s"
  shows "pwp tot (for_p f xs acc) Q s"
  using assms(1)
proof (induction xs arbitrary: acc s)
  case Nil
  then show ?case by (auto intro!: pwp_intro wp_intro fin)
next
  case (Cons x xs)
  show ?case
    unfolding for_p.simps
    by (rule pwp_bind_p, rule pwp_weaken [OF step [OF Cons.prems]]) (auto intro: Cons.IH)
qed

text \<open>An operation that answers nothing whatever the state and the failures.\<close>

lemma bind_p_None: "m d = None \<Longrightarrow> bind_p m k d = None"
  by (simp add: bind_p_def)

lemma pwp_total_partial: "pwp True m Q s \<Longrightarrow> pwp False m Q' s \<Longrightarrow> pwp True m (\<lambda>r s'. Q r s' \<and> Q' r s') s"
  by (auto simp: pwp_def split: option.splits)

end
