(* ===== verification/JsonMap.thy ===== *)
theory JsonMap imports Json "HOL-Library.List_Lexorder" "HOL-Library.Char_ord" begin

text \<open>
  Building objects: serde_json's map keeps its entries ordered by key, so inserting replaces the entry or
  puts a new one in its place in the order; an object read off a hash map is built by insertions.
\<close>

fun obj_put :: "string \<Rightarrow> 'a \<Rightarrow> (string \<times> 'a) list \<Rightarrow> (string \<times> 'a) list" where
  "obj_put k v [] = [(k, v)]"
| "obj_put k v ((k', v') # kvs) =
     (if k = k' then (k, v) # kvs else if k < k' then (k, v) # (k', v') # kvs else (k', v') # obj_put k v kvs)"

definition obj_of :: "(string \<times> 'a) list \<Rightarrow> (string \<times> 'a) list" where
  "obj_of kvs = fold (\<lambda>(k, v). obj_put k v) kvs []"

definition sorted_obj :: "(string \<times> 'a) list \<Rightarrow> bool" where
  "sorted_obj kvs \<longleftrightarrow> sorted_wrt (<) (map fst kvs)"

lemma map_of_obj_put [simp]: "sorted_obj kvs \<Longrightarrow> map_of (obj_put k v kvs) = (map_of kvs)(k \<mapsto> v)"
proof (induction kvs)
  case Nil
  then show ?case by simp
next
  case (Cons kv kvs)
  obtain k' v' where kv: "kv = (k', v')" by (cases kv)
  from Cons.prems kv have s: "sorted_obj kvs" by (simp add: sorted_obj_def)
  from Cons.IH [OF s] kv show ?case by (auto simp: fun_eq_iff)
qed

lemma keys_obj_put [simp]: "fst ` set (obj_put k v kvs) = insert k (fst ` set kvs)"
  by (induction k v kvs rule: obj_put.induct) auto

lemma sorted_obj_Cons: "sorted_obj ((k, v) # kvs) \<longleftrightarrow> (\<forall>x \<in> fst ` set kvs. k < x) \<and> sorted_obj kvs"
  by (simp add: sorted_obj_def)

lemma sorted_obj_put [simp]: "sorted_obj kvs \<Longrightarrow> sorted_obj (obj_put k v kvs)"
proof (induction kvs)
  case Nil
  then show ?case by (simp add: sorted_obj_def)
next
  case (Cons kv kvs)
  obtain k' v' where kv: "kv = (k', v')" by (cases kv)
  from Cons.prems kv have s: "\<forall>x \<in> fst ` set kvs. k' < x" "sorted_obj kvs" by (simp_all add: sorted_obj_Cons)
  consider "k = k'" | "k < k'" | "k' < k" by (meson linorder_cases)
  then show ?case
  proof cases
    case 1
    with s kv show ?thesis by (simp add: sorted_obj_Cons)
  next
    case 2
    with s have "\<forall>x \<in> fst ` set kvs. k < x" by (metis order.strict_trans)
    with 2 s kv show ?thesis by (simp add: sorted_obj_Cons)
  next
    case 3
    then have "k \<noteq> k'" "\<not> k < k'" by auto
    with 3 s kv Cons.IH [OF s(2)] show ?thesis by (simp add: sorted_obj_Cons)
  qed
qed

lemma sorted_obj_distinct: "sorted_obj kvs \<Longrightarrow> distinct (map fst kvs)"
  by (simp add: sorted_obj_def strict_sorted_iff)

lemma fold_obj_put:
  "sorted_obj acc \<Longrightarrow>
     sorted_obj (fold (\<lambda>(k, v). obj_put k v) kvs acc) \<and>
     map_of (fold (\<lambda>(k, v). obj_put k v) kvs acc) = (map_of acc) ++ (map_of (rev kvs))"
  by (induction kvs arbitrary: acc) (auto simp: fun_eq_iff map_add_def split: option.splits)

lemma sorted_obj_of [simp]: "sorted_obj (obj_of kvs)"
  using fold_obj_put [of "[]" kvs] by (simp add: obj_of_def sorted_obj_def)

lemma map_of_obj_of: "map_of (obj_of kvs) = map_of (rev kvs)"
  using fold_obj_put [of "[]" kvs] by (simp add: obj_of_def sorted_obj_def)

lemma map_of_obj_of_distinct: "distinct (map fst kvs) \<Longrightarrow> map_of (obj_of kvs) = map_of kvs"
  by (simp add: map_of_obj_of map_of_inject_set rev_map [symmetric])

text \<open>Decoding the elements of an array: one that does not decode spoils the whole.\<close>

fun all_some :: "'a option list \<Rightarrow> 'a list option" where
  "all_some [] = Some []"
| "all_some (x # xs) = (case x of None \<Rightarrow> None | Some a \<Rightarrow> map_option (Cons a) (all_some xs))"

lemma all_some_map: "(\<And>x. x \<in> set xs \<Longrightarrow> f (g x) = Some x) \<Longrightarrow> all_some (map f (map g xs)) = Some xs"
  by (induction xs) simp_all

definition decode_array :: "(json \<Rightarrow> 'a option) \<Rightarrow> json \<Rightarrow> 'a list option" where
  "decode_array f v = (case v of JArray xs \<Rightarrow> all_some (map f xs) | _ \<Rightarrow> None)"

end
