(* ===== verification/Workflow.thy ===== *)
theory Workflow imports Loops JsonMap "HOL-Library.AList" begin

text \<open>
  Workflows (\<open>src/src/compute/workflows.rs\<close>): the definitions of steps, the runs in the database and in
  memory, and the engine that executes the steps of a run in the order of their dependencies. The
  engine calls itself through parallel groups and sub-workflows, so its operations carry a bound
  on nested calls and rounds (theory \<open>Loops\<close>). HTTP, the JavaScript engine, serde's texts, the clock and
  fresh identifiers are parameters; a counter of the outside calls in the state lets each of them answer
  differently every time. A call of HTTP or JavaScript may never return, and then the step does not. The futures of a parallel group are run one after the other.
\<close>

section \<open>Types\<close>

datatype step_type =
    Function string
  | HttpRequest string string "(string \<times> string) list"
  | AiAgent string string
  | Delay nat
  | Condition string string string
  | Parallel "string list"
  | SubWorkflow string
  | Transform string
  | Webhook string string

record retry_config =
  max_retries :: nat
  initial_delay_ms :: nat
  backoff_multiplier :: "64 word"
  max_delay_ms :: nat

record workflow_step =
  ws_id :: string
  ws_name :: string
  step_type :: step_type
  ws_config :: json
  depends_on :: "string list"
  condition :: "string option"
  ws_retry :: retry_config
  timeout_secs :: nat

datatype failure_policy = StopAll | ContinueOthers | Retry | Compensate

record workflow_config =
  max_duration_secs :: nat
  concurrency_limit :: nat
  on_failure :: failure_policy

datatype workflow_trigger =
    Event string "string option"
  | Cron string
  | WebhookTrigger string
  | Manual

record workflow =
  wf_id :: string
  wf_tenant :: int
  wf_name :: string
  wf_description :: string
  wf_steps :: "workflow_step list"
  wf_triggers :: "workflow_trigger list"
  wf_config :: workflow_config
  wf_version :: nat
  wf_enabled :: bool
  wf_created :: string

datatype run_status = Pending | Running | Completed | Failed | Cancelled | Paused

datatype step_status = StepPending | StepRunning | StepCompleted | StepFailed | StepSkipped | StepWaiting

record step_state =
  ss_step :: string
  ss_status :: step_status
  ss_input :: "json option"
  ss_output :: "json option"
  ss_attempts :: nat
  ss_error :: "string option"
  ss_started :: "string option"
  ss_completed :: "string option"

record workflow_run =
  run_id :: string
  run_workflow :: string
  run_tenant :: int
  run_state :: run_status
  run_input :: json
  run_output :: "json option"
  step_states :: "(string \<times> step_state) list"
  run_started :: string
  run_completed :: "string option"
  run_error :: "string option"

fun status_str :: "step_status \<Rightarrow> string" where
  "status_str StepPending = ''pending''"
| "status_str StepRunning = ''running''"
| "status_str StepCompleted = ''completed''"
| "status_str StepFailed = ''failed''"
| "status_str StepSkipped = ''skipped''"
| "status_str StepWaiting = ''waiting''"

fun status_str_run :: "run_status \<Rightarrow> string" where
  "status_str_run Pending = ''pending''"
| "status_str_run Running = ''running''"
| "status_str_run Completed = ''completed''"
| "status_str_run Failed = ''failed''"
| "status_str_run Cancelled = ''cancelled''"
| "status_str_run Paused = ''paused''"

section \<open>Tables and surroundings\<close>

record workflow_row =
  wr_id :: string
  wr_tenant :: int
  wr_name :: string
  wr_description :: string
  wr_steps :: json
  wr_triggers :: json
  wr_config :: json
  wr_version :: int
  wr_enabled :: bool
  wr_created :: string

record run_row =
  rr_id :: string
  rr_workflow :: string
  rr_tenant :: int
  rr_status :: string
  rr_input :: json
  rr_output :: "json option"
  rr_steps :: json
  rr_error :: "string option"
  rr_started :: string
  rr_completed :: "string option"

text \<open>What the engine reads of a function (\<open>stackhouse_functions\<close>).\<close>

record function_row =
  fr_id :: string
  fr_tenant :: int
  fr_source :: "string option"
  fr_runtime :: string
  fr_entrypoint :: string
  fr_status :: string

text \<open>
  No code of the repository creates the table \<open>stackhouse_ai_agents\<close>; \<open>wf_agents\<close> is \<open>None\<close> where it does not
  exist. The last field counts the calls to the outside world.
\<close>

record wf_db =
  wf_rows :: "workflow_row list"
  wf_runs :: "run_row list"
  wf_functions :: "function_row list"
  wf_agents :: "(string \<times> cell) list option"
  active_runs :: "string \<rightharpoonup> workflow_run"
  wf_ticks :: nat

record http_request =
  rq_method :: string
  rq_url :: string
  rq_headers :: "(string \<times> string) list"
  rq_body :: "json option"

text \<open>
  An HTTP call fails or answers a status with a body that is JSON or not, and \<open>None\<close> is a call of HTTP or of
  the JavaScript engine that never returns: neither has a time limit. \<open>wf_jsonb\<close> is what the server makes
  of a text cast to \<open>jsonb\<close>, \<open>wf_bool\<close> of a text bound to a boolean column.
\<close>

record wf_env =
  wf_parse_steps :: "string \<Rightarrow> workflow_step list option"
  wf_steps_text :: "workflow_step list \<Rightarrow> string"
  wf_triggers_text :: "workflow_trigger list \<Rightarrow> string"
  wf_config_text :: "workflow_config \<Rightarrow> string"
  wf_to_text :: "json \<Rightarrow> string"
  wf_parse_json :: "string \<Rightarrow> json option"
  wf_base64 :: "string \<Rightarrow> string"
  wf_jsonb :: "string \<Rightarrow> json option"
  wf_bool :: "string \<Rightarrow> bool option"
  wf_uuid :: "nat \<Rightarrow> string"
  wf_clock :: "nat \<Rightarrow> string"
  wf_http :: "nat \<Rightarrow> http_request \<Rightarrow> (string + (nat \<times> (string + json))) option"
  wf_js :: "nat \<Rightarrow> string \<Rightarrow> (string + json) option"

definition outside :: "(nat \<Rightarrow> 'a) \<Rightarrow> (wf_db, 'a) io" where
  "outside f = bind_io (gets wf_ticks) (\<lambda>n. bind_io (modify (\<lambda>s. s\<lparr>wf_ticks := Suc (wf_ticks s)\<rparr>)) (\<lambda>_. ret (f n)))"

definition outside_p :: "(nat \<Rightarrow> 'a option) \<Rightarrow> (wf_db, 'a) pio" where
  "outside_p f = bind_p (returns (outside f)) (\<lambda>x. case x of None \<Rightarrow> no_answer | Some v \<Rightarrow> returns (ret v))"

definition bound_jsonb :: "wf_env \<Rightarrow> string \<Rightarrow> json result" where
  "bound_jsonb e s = ok_or (Database ''invalid input syntax for type json'') (wf_jsonb e s)"

section \<open>Workflows\<close>

definition upsert_workflow :: "wf_env \<Rightarrow> string \<Rightarrow> workflow \<Rightarrow> (wf_db, unit) io" where
  "upsert_workflow e now w =
     stmt (\<lambda>s.
       and_then (bound_jsonb e (wf_steps_text e (wf_steps w))) (\<lambda>steps.
       and_then (bound_jsonb e (wf_triggers_text e (wf_triggers w))) (\<lambda>triggers.
       and_then (bound_jsonb e (wf_config_text e (wf_config w))) (\<lambda>config.
       and_then (ok_or (Database ''column enabled is of type boolean but expression is of type text'')
           (wf_bool e (if wf_enabled w then ''true'' else ''false''))) (\<lambda>on.
         Inr ((), if \<exists>r \<in> set (wf_rows s). wr_id r = wf_id w
           then s\<lparr>wf_rows := map (\<lambda>r. if wr_id r = wf_id w
             then r\<lparr>wr_name := wf_name w, wr_description := wf_description w, wr_steps := steps,
               wr_triggers := triggers, wr_config := config, wr_version := wr_version r + 1, wr_enabled := on\<rparr>
             else r) (wf_rows s)\<rparr>
           else s\<lparr>wf_rows := wf_rows s @ [\<lparr>wr_id = wf_id w, wr_tenant = wf_tenant w, wr_name = wf_name w,
             wr_description = wf_description w, wr_steps = steps, wr_triggers = triggers, wr_config = config,
             wr_version = int (wf_version w), wr_enabled = on, wr_created = now\<rparr>]\<rparr>))))))"

definition list_workflows :: "wf_env \<Rightarrow> int \<Rightarrow> (wf_db, row list) io" where
  "list_workflows e tenant =
     query (wf_parse_json e) (wf_base64 e) (\<lambda>s.
       map (\<lambda>r. [(''id'', cell_text (wr_id r)), (''name'', cell_text (wr_name r)),
         (''description'', cell_text (wr_description r)), (''version'', cell_int (wr_version r)),
         (''enabled'', cell_bool (wr_enabled r)), (''created_at'', cell_time (wr_created r))])
       (rev (sort_key wr_created (filter (\<lambda>r. wr_tenant r = tenant) (wf_rows s)))))"

section \<open>Runs\<close>

definition get_step_status_sync :: "string \<Rightarrow> string \<Rightarrow> wf_db \<Rightarrow> step_status" where
  "get_step_status_sync rid sid s =
     (case active_runs s rid of
        None \<Rightarrow> StepPending
      | Some run \<Rightarrow> (case map_of (step_states run) sid of None \<Rightarrow> StepPending | Some x \<Rightarrow> ss_status x))"

definition opt_json :: "json option \<Rightarrow> json" where
  "opt_json x = unwrap_or JNull x"

text \<open>\<open>step_states || patch\<close>\<close>

fun jsonb_concat :: "json \<Rightarrow> json \<Rightarrow> json" where
  "jsonb_concat (JObject a) (JObject b) = JObject (fold (\<lambda>(k, v). obj_put k v) b a)"
| "jsonb_concat (JArray a) (JArray b) = JArray (a @ b)"
| "jsonb_concat (JArray a) b = JArray (a @ [b])"
| "jsonb_concat a (JArray b) = JArray (a # b)"
| "jsonb_concat a b = JArray [a, b]"

definition set_step :: "wf_env \<Rightarrow> string \<Rightarrow> string \<Rightarrow> step_status \<Rightarrow> json option \<Rightarrow> wf_db \<Rightarrow> wf_db" where
  "set_step e rid sid status out s =
     (case active_runs s rid of
        None \<Rightarrow> s
      | Some run \<Rightarrow> s\<lparr>active_runs := (active_runs s)(rid \<mapsto>
          run\<lparr>step_states := map (\<lambda>(k, x). if k = sid
            then (k, x\<lparr>ss_status := status, ss_output := out, ss_completed := Some (wf_clock e (wf_ticks s))\<rparr>)
            else (k, x)) (step_states run)\<rparr>)\<rparr>)"

definition patch_steps :: "string \<Rightarrow> json \<Rightarrow> wf_db \<Rightarrow> wf_db" where
  "patch_steps rid patch s =
     s\<lparr>wf_runs := map (\<lambda>r. if rr_id r = rid then r\<lparr>rr_steps := jsonb_concat (rr_steps r) patch\<rparr> else r) (wf_runs s)\<rparr>"

definition update_step_state :: "wf_env \<Rightarrow> string \<Rightarrow> string \<Rightarrow> step_status \<Rightarrow> json option \<Rightarrow> (wf_db, unit) io" where
  "update_step_state e rid sid status out =
     bind_io (modify (set_step e rid sid status out)) (\<lambda>_.
     bind_io (attempt (stmt (\<lambda>s.
       and_then (bound_jsonb e (wf_to_text e
           (JObject [(sid, JObject [(''output'', opt_json out), (''status'', JString (status_str status))])])))
         (\<lambda>patch. Inr ((), patch_steps rid patch s))))) (\<lambda>_. ret ()))"

definition finish_row :: "wf_env \<Rightarrow> string \<Rightarrow> string \<Rightarrow> json \<Rightarrow> wf_db \<Rightarrow> wf_db" where
  "finish_row e rid status out s =
     s\<lparr>wf_runs := map (\<lambda>r. if rr_id r = rid
       then r\<lparr>rr_status := status, rr_output := Some out, rr_completed := Some (wf_clock e (wf_ticks s))\<rparr> else r)
       (wf_runs s)\<rparr>"

text \<open>An absent output is sent as the empty text.\<close>

definition complete_run :: "wf_env \<Rightarrow> string \<Rightarrow> run_status \<Rightarrow> json option \<Rightarrow> (wf_db, unit) io" where
  "complete_run e rid status out =
     bind_io (attempt (stmt (\<lambda>s.
       and_then (bound_jsonb e (case out of None \<Rightarrow> [] | Some v \<Rightarrow> wf_to_text e v))
         (\<lambda>v. Inr ((), finish_row e rid (status_str_run status) v s))))) (\<lambda>_.
     modify (\<lambda>s. s\<lparr>active_runs := (active_runs s)(rid := None)\<rparr>))"

definition cancel_run :: "wf_env \<Rightarrow> string \<Rightarrow> (wf_db, unit) io" where
  "cancel_run e rid = complete_run e rid Cancelled None"

definition run_cells :: "run_row \<Rightarrow> (string \<times> cell) list" where
  "run_cells r = [(''run_id'', cell_text (rr_id r)), (''workflow_id'', cell_text (rr_workflow r)),
     (''tenant_id'', cell_int (rr_tenant r)), (''status'', cell_text (rr_status r)),
     (''input'', cell_jsonb (rr_input r)), (''output'', cell_opt ''JSONB'' cell_jsonb (rr_output r)),
     (''step_states'', cell_jsonb (rr_steps r)), (''error'', cell_opt ''TEXT'' cell_text (rr_error r)),
     (''started_at'', cell_time (rr_started r)), (''completed_at'', cell_opt ''TIMESTAMPTZ'' cell_time (rr_completed r))]"

definition get_run :: "wf_env \<Rightarrow> string \<Rightarrow> (wf_db, json) io" where
  "get_run e rid =
     bind_io (query (wf_parse_json e) (wf_base64 e) (\<lambda>s. map run_cells (filter (\<lambda>r. rr_id r = rid) (wf_runs s))))
       (\<lambda>rows. case rows of [] \<Rightarrow> fail (NotFound ''Run not found'') | r # _ \<Rightarrow> ret (JObject (obj_of r)))"

definition resolve_step_input :: "workflow_step \<Rightarrow> (string \<times> json) list \<Rightarrow> json" where
  "resolve_step_input step completed =
     (case depends_on step of
        [] \<Rightarrow> unwrap_or (JObject []) (map_of completed ''$input'')
      | [dep] \<Rightarrow> unwrap_or (JObject []) (map_of completed dep)
      | deps \<Rightarrow> JObject (fold (\<lambda>dep acc. case map_of completed dep of None \<Rightarrow> acc | Some v \<Rightarrow> obj_put dep v acc) deps []))"

section \<open>Single steps\<close>

definition jpath :: "json \<Rightarrow> string \<Rightarrow> json" where
  "jpath v expression = fold (\<lambda>key acc. unwrap_or JNull (jget acc key)) (split_on CHR ''.'' expression) v"

fun is_truthy :: "json \<Rightarrow> bool" where
  "is_truthy JNull \<longleftrightarrow> False"
| "is_truthy (JBool b) \<longleftrightarrow> b"
| "is_truthy (JNumber (PosInt n)) \<longleftrightarrow> n \<noteq> 0"
| "is_truthy (JNumber (NegInt i)) \<longleftrightarrow> i \<noteq> 0"
| "is_truthy (JNumber (Float f)) \<longleftrightarrow> f \<noteq> 0 \<and> f \<noteq> 0x8000000000000000"
| "is_truthy (JString s) \<longleftrightarrow> s \<noteq> [] \<and> to_lowercase s \<noteq> ''false''"
| "is_truthy (JArray xs) \<longleftrightarrow> xs \<noteq> []"
| "is_truthy (JObject kvs) \<longleftrightarrow> kvs \<noteq> []"

definition json_u64 :: "nat \<Rightarrow> json" where
  "json_u64 n = JNumber (PosInt n)"

text \<open>Sending a request: the body of the answer is JSON or read as null.\<close>

definition send_request :: "wf_env \<Rightarrow> string \<Rightarrow> http_request \<Rightarrow> (wf_db, nat \<times> json) pio" where
  "send_request e what rq =
     bind_p (outside_p (\<lambda>n. wf_http e n rq)) (\<lambda>answer. returns (case answer of
       Inl err \<Rightarrow> fail (Internal (what @ err))
     | Inr (status, body) \<Rightarrow> ret (status, (case body of Inl _ \<Rightarrow> JNull | Inr v \<Rightarrow> v))))"

definition http_step :: "wf_env \<Rightarrow> string \<Rightarrow> string \<Rightarrow> (string \<times> string) list \<Rightarrow> json \<Rightarrow> (wf_db, json) pio" where
  "http_step e verb url headers input =
     (let m = to_uppercase verb
      in bind_p (send_request e ''HTTP step: '' \<lparr>rq_method = (if m \<in> {''POST'', ''PUT'', ''DELETE'', ''PATCH''} then m else ''GET''),
             rq_url = url, rq_headers = headers,
             rq_body = (if m \<in> {''POST'', ''PUT'', ''PATCH''} then Some input else None)\<rparr>)
           (\<lambda>(status, body). returns (ret (JObject [(''body'', body), (''status'', json_u64 status)]))))"

definition webhook_step :: "wf_env \<Rightarrow> string \<Rightarrow> string \<Rightarrow> json \<Rightarrow> (wf_db, json) pio" where
  "webhook_step e url verb input =
     (let m = to_uppercase verb
      in bind_p (send_request e ''Webhook step: '' \<lparr>rq_method = (if m \<in> {''POST'', ''PUT'', ''DELETE''} then m else ''GET''),
             rq_url = url, rq_headers = [(''Content-Type'', ''application/json'')],
             rq_body = (if m \<noteq> ''GET'' then Some input else None)\<rparr>)
           (\<lambda>(status, body). returns (ret (JObject [(''body'', body), (''status'', json_u64 status), (''webhook_url'', JString url)]))))"

definition condition_step :: "string \<Rightarrow> string \<Rightarrow> string \<Rightarrow> json \<Rightarrow> json" where
  "condition_step expression if_true if_false input =
     (let t = is_truthy (jpath input expression)
      in JObject [(''branch'', JString (if t then if_true else if_false)), (''condition_met'', JBool t)])"

text \<open>The JavaScript text around a function.\<close>

definition line :: "nat \<Rightarrow> string \<Rightarrow> string" where
  "line n s = replicate n (CHR '' '') @ s @ [CHR 0x0A]"

definition js_wrap :: "string \<Rightarrow> string \<Rightarrow> string \<Rightarrow> string" where
  "js_wrap source source_expr input_str = concat
     [line 0 ''(function(input) {'', line 28 ''let module = {};'', line 28 ''let exports = {};'', line 28 ''let handler;'',
      line 28 source, line 28 ''let fn_handler = (typeof handler !== 'undefined') ? handler'',
      line 32 '': (exports && exports.handler) ? exports.handler'',
      line 32 '': (module && module.exports) ? module.exports'', line 32 '': null;'',
      line 28 ''if (typeof fn_handler === 'function') {'', line 32 ''return fn_handler(input);'', line 28 ''}'',
      line 28 (''return eval('' @ source_expr @ '');''), replicate 24 (CHR '' ''), ''})('' @ input_str @ '')'']"

definition function_step :: "wf_env \<Rightarrow> string \<Rightarrow> json \<Rightarrow> (wf_db, json) pio" where
  "function_step e fid input =
     bind_p (returns (query (wf_parse_json e) (wf_base64 e) (\<lambda>s.
       map (\<lambda>r. [(''source_code'', cell_opt ''TEXT'' cell_text (fr_source r)), (''runtime'', cell_text (fr_runtime r)),
           (''entrypoint'', cell_text (fr_entrypoint r))])
         (filter (\<lambda>r. fr_id r = fid \<and> fr_status r = ''active'') (wf_functions s)))))
     (\<lambda>rows. case rows of
        [] \<Rightarrow> returns (fail (NotFound (''Function '' @ fid @ '' not found for workflow step'')))
      | row # _ \<Rightarrow>
          (let source = unwrap_or [] (col_str row ''source_code''); runtime = unwrap_or ''javascript'' (col_str row ''runtime'')
           in if runtime = ''javascript'' \<or> runtime = ''typescript''
              then bind_p (outside_p (\<lambda>n. wf_js e n (js_wrap source (wf_to_text e (JString source)) (wf_to_text e input))))
                (\<lambda>answer. returns (case answer of Inl err \<Rightarrow> fail (Internal err) | Inr v \<Rightarrow> ret v))
              else returns (fail (Internal (''Unsupported function runtime: '' @ runtime)))))"

definition jfield :: "json \<Rightarrow> string \<Rightarrow> string \<Rightarrow> string" where
  "jfield v k dflt = unwrap_or dflt (Option.bind (jget v k) as_str)"

definition ai_request :: "string \<Rightarrow> string \<Rightarrow> json" where
  "ai_request model user_prompt = JObject
     [(''messages'', JArray
        [JObject [(''content'', JString ''You are a workflow step executor. Process the input and return a JSON result.''), (''role'', JString ''system'')],
         JObject [(''content'', JString user_prompt), (''role'', JString ''user'')]]),
      (''model'', JString model), (''temperature'', JNumber (Float 0x3FD3333333333333))]"

text \<open>\<open>choices[0].message.content\<close> of the answer.\<close>

definition ai_content :: "json \<Rightarrow> string" where
  "ai_content v = unwrap_or []
     (Option.bind (jget v ''choices'') (\<lambda>c. Option.bind (as_array c) (\<lambda>xs. case xs of [] \<Rightarrow> None
        | x # _ \<Rightarrow> Option.bind (jget x ''message'') (\<lambda>m. Option.bind (jget m ''content'') as_str))))"

definition ai_step :: "wf_env \<Rightarrow> string \<Rightarrow> string \<Rightarrow> json \<Rightarrow> (wf_db, json) pio" where
  "ai_step e agent_id prompt input =
     bind_p (returns (stmt (\<lambda>s. map_sum id (\<lambda>as. (map (\<lambda>(i, c). json_row (wf_parse_json e) (wf_base64 e) [(''config'', c)])
          (filter (\<lambda>(i, c). i = agent_id) as), s))
        (ok_or (Database ''relation stackhouse_ai_agents does not exist'') (wf_agents s)))))
     (\<lambda>rows. case rows of
        [] \<Rightarrow> returns (fail (NotFound (''AI Agent '' @ agent_id @ '' not found'')))
      | row # _ \<Rightarrow>
          (let config = unwrap_or (JObject []) (wf_parse_json e (unwrap_or ''{}'' (col_str row ''config'')));
               provider = jfield config ''provider'' ''openai'';
               model = jfield config ''model'' ''gpt-4'';
               api_key = jfield config ''api_key'' [];
               api_url = jfield config ''api_url'' ''https://api.openai.com/v1/chat/completions''
           in if api_key = [] then returns (fail (Internal (''AI Agent '' @ agent_id @ '' has no API key configured'')))
              else bind_p (outside_p (\<lambda>n. wf_http e n \<lparr>rq_method = ''POST'', rq_url = api_url,
                  rq_headers = [(''Authorization'', ''Bearer '' @ api_key), (''Content-Type'', ''application/json'')],
                  rq_body = Some (ai_request model (prompt @ [CHR 0x0A, CHR 0x0A] @ ''Input data: '' @ wf_to_text e input))\<rparr>))
                (\<lambda>answer. returns (case answer of
                   Inl err \<Rightarrow> fail (Internal (''AI Agent API call failed: '' @ err))
                 | Inr (status, Inl err) \<Rightarrow> fail (Internal (''AI Agent response parse error: '' @ err))
                 | Inr (status, Inr v) \<Rightarrow>
                     (let content = ai_content v;
                          parsed = unwrap_or (JObject [(''response'', JString content)]) (wf_parse_json e content)
                      in ret (JObject [(''agent_id'', JString agent_id), (''model'', JString model),
                           (''provider'', JString provider), (''result'', parsed)]))))))"

section \<open>The engine\<close>

text \<open>The answer of a sub-workflow whose run has ended; \<open>None\<close>: the run is still going.\<close>

definition sub_answer :: "string \<Rightarrow> string \<Rightarrow> json \<Rightarrow> json result option" where
  "sub_answer wid rid run =
     (let status = jfield run ''status'' []
      in if status = ''completed''
         then Some (Inr (JObject [(''output'', unwrap_or JNull (jget run ''output'')), (''run_id'', JString rid),
                (''status'', JString ''completed''), (''sub_workflow_id'', JString wid)]))
         else if status = ''failed'' \<or> status = ''cancelled''
         then Some (Inl (Internal (''Sub-workflow '' @ wid @ '' finished with status: '' @ status)))
         else None)"

text \<open>\<open>k\<close> is the number of sleeps of 100 ms until the time limit has passed.\<close>

fun poll_run :: "wf_env \<Rightarrow> string \<Rightarrow> string \<Rightarrow> nat \<Rightarrow> (wf_db, json) io" where
  "poll_run e wid rid 0 = fail (Internal (''Sub-workflow '' @ wid @ '' timed out''))"
| "poll_run e wid rid (Suc k) =
     bind_io (get_run e rid) (\<lambda>run. case sub_answer wid rid run of None \<Rightarrow> poll_run e wid rid k | Some r \<Rightarrow> lift r)"

definition await_run :: "wf_env \<Rightarrow> workflow_step \<Rightarrow> string \<Rightarrow> string \<Rightarrow> (wf_db, json) io" where
  "await_run e step wid rid =
     bind_io (get_run e rid) (\<lambda>run. case sub_answer wid rid run of
        Some r \<Rightarrow> lift r
      | None \<Rightarrow> poll_run e wid rid (Suc (10 * (if timeout_secs step > 0 then timeout_secs step else 3600))))"

text \<open>The children of a parallel group: found, marked as running, executed, and their states updated.\<close>

definition find_children :: "workflow_step list \<Rightarrow> string list \<Rightarrow> workflow_step list result" where
  "find_children steps ids = try_fold (\<lambda>acc i. and_then
       (ok_or (NotFound (''Parallel step '' @ i @ '' not found in workflow'')) (find (\<lambda>s. ws_id s = i) steps))
       (\<lambda>sub. Inr (acc @ [sub]))) [] ids"

definition error_json :: "stackhouse_error \<Rightarrow> json" where
  "error_json err = JObject [(''error'', JString (error_display err))]"

definition child_done :: "wf_env \<Rightarrow> string \<Rightarrow> workflow_step \<times> json result \<Rightarrow> (string \<times> json) list \<Rightarrow>
    (wf_db, (string \<times> json) list) io" where
  "child_done e rid sr acc = (case sr of (sub, r) \<Rightarrow> (case r of
       Inr v \<Rightarrow> bind_io (update_step_state e rid (ws_id sub) StepCompleted (Some v)) (\<lambda>_. ret (obj_put (ws_id sub) v acc))
     | Inl err \<Rightarrow> bind_io (update_step_state e rid (ws_id sub) StepFailed (Some (error_json err)))
         (\<lambda>_. ret (obj_put (ws_id sub) (error_json err) acc))))"

definition parallel_step :: "wf_env \<Rightarrow> (workflow_step \<Rightarrow> (wf_db, json) pio) \<Rightarrow> string \<Rightarrow> workflow_step list \<Rightarrow>
    string list \<Rightarrow> (wf_db, json) pio" where
  "parallel_step e exec_sub rid steps ids =
     bind_p (returns (lift (find_children steps ids))) (\<lambda>subs.
     bind_p (returns (for_io (\<lambda>sub _. update_step_state e rid (ws_id sub) StepRunning None) subs ())) (\<lambda>_.
     bind_p (for_p (\<lambda>sub acc. bind_p (attempt_p (exec_sub sub)) (\<lambda>r. returns (ret (acc @ [(sub, r)])))) subs []) (\<lambda>results.
     returns (bind_io (for_io (child_done e rid) results []) (\<lambda>kvs. ret (JObject kvs))))))"

text \<open>One pass of the loop of \<open>execute_dag\<close>; the answer tells whether the run has ended.\<close>

definition ready_steps :: "string \<Rightarrow> workflow_step list \<Rightarrow> (string \<times> json) list \<Rightarrow> wf_db \<Rightarrow> workflow_step list" where
  "ready_steps rid steps completed s = filter (\<lambda>x. get_step_status_sync rid (ws_id x) s = StepPending
     \<and> list_all (\<lambda>dep. dep \<in> fst ` set completed) (depends_on x)) steps"

definition all_done :: "string \<Rightarrow> workflow_step list \<Rightarrow> wf_db \<Rightarrow> bool" where
  "all_done rid steps s = list_all (\<lambda>x. get_step_status_sync rid (ws_id x) s \<in> {StepCompleted, StepSkipped, StepFailed}) steps"

definition run_ready :: "wf_env \<Rightarrow> (workflow_step \<Rightarrow> json \<Rightarrow> (wf_db, json) pio) \<Rightarrow> string \<Rightarrow> workflow_step \<Rightarrow>
    (string \<times> json) list \<Rightarrow> (wf_db, (string \<times> json) list) pio" where
  "run_ready e run_step rid step completed =
     bind_p (attempt_p (run_step step (resolve_step_input step completed))) (\<lambda>r. returns (case r of
        Inr out \<Rightarrow> bind_io (update_step_state e rid (ws_id step) StepCompleted (Some out))
          (\<lambda>_. ret (AList.update (ws_id step) out completed))
      | Inl err \<Rightarrow> bind_io (update_step_state e rid (ws_id step) StepFailed None) (\<lambda>_. ret completed)))"

definition dag_round :: "wf_env \<Rightarrow> (workflow_step \<Rightarrow> json \<Rightarrow> (wf_db, json) pio) \<Rightarrow> string \<Rightarrow> workflow_step list \<Rightarrow>
    (string \<times> json) list \<Rightarrow> (wf_db, bool \<times> (string \<times> json) list) pio" where
  "dag_round e run_step rid steps completed =
     bind_p (returns (gets (ready_steps rid steps completed))) (\<lambda>ready.
       if ready = []
       then returns (bind_io (gets (all_done rid steps)) (\<lambda>fin.
         bind_io (if fin then complete_run e rid Completed (Some (JObject (obj_of completed)))
                  else complete_run e rid Failed None) (\<lambda>_. ret (True, completed))))
       else bind_p (for_p (run_ready e run_step rid) ready completed) (\<lambda>c. returns (ret (False, c))))"

definition initial_states :: "workflow_step list \<Rightarrow> (string \<times> step_state) list" where
  "initial_states steps =
     (let children = concat (map (\<lambda>s. case step_type s of Parallel ids \<Rightarrow> ids | _ \<Rightarrow> []) steps)
      in fold (\<lambda>s acc. AList.update (ws_id s) \<lparr>ss_step = ws_id s,
           ss_status = (if ws_id s \<in> set children then StepWaiting else StepPending), ss_input = None, ss_output = None,
           ss_attempts = 0, ss_error = None, ss_started = None, ss_completed = None\<rparr> acc) steps [])"

definition opt_text :: "string option \<Rightarrow> json" where
  "opt_text x = (case x of None \<Rightarrow> JNull | Some s \<Rightarrow> JString s)"

definition step_state_json :: "step_state \<Rightarrow> json" where
  "step_state_json x = JObject [(''attempts'', json_u64 (ss_attempts x)), (''completed_at'', opt_text (ss_completed x)),
     (''error'', opt_text (ss_error x)), (''input'', opt_json (ss_input x)), (''output'', opt_json (ss_output x)),
     (''started_at'', opt_text (ss_started x)), (''status'', JString (status_str (ss_status x))), (''step_id'', JString (ss_step x))]"

definition load_steps :: "wf_env \<Rightarrow> row \<Rightarrow> workflow_step list" where
  "load_steps e row = unwrap_or [] (wf_parse_steps e (unwrap_or ''[]'' (col_str row ''steps'')))"

definition insert_run :: "wf_env \<Rightarrow> workflow_run \<Rightarrow> wf_db \<Rightarrow> (unit \<times> wf_db) result" where
  "insert_run e run s =
     and_then (bound_jsonb e (wf_to_text e (run_input run))) (\<lambda>input.
     and_then (bound_jsonb e (wf_to_text e (JObject (obj_of (map (\<lambda>(k, x). (k, step_state_json x)) (step_states run)))))) (\<lambda>states.
       if \<exists>r \<in> set (wf_runs s). rr_id r = run_id run then Inl (Database ''duplicate key value violates unique constraint'')
       else Inr ((), s\<lparr>wf_runs := wf_runs s @ [\<lparr>rr_id = run_id run, rr_workflow = run_workflow run, rr_tenant = run_tenant run,
         rr_status = ''running'', rr_input = input, rr_output = None, rr_steps = states, rr_error = None,
         rr_started = wf_clock e (wf_ticks s), rr_completed = None\<rparr>]\<rparr>)))"

definition new_run :: "wf_env \<Rightarrow> nat \<Rightarrow> string \<Rightarrow> int \<Rightarrow> json \<Rightarrow> workflow_step list \<Rightarrow> workflow_run" where
  "new_run e n wid tenant input steps = \<lparr>run_id = wf_uuid e n, run_workflow = wid, run_tenant = tenant, run_state = Running,
     run_input = input, run_output = None, step_states = initial_states steps, run_started = wf_clock e n,
     run_completed = None, run_error = None\<rparr>"

definition begin_run :: "wf_env \<Rightarrow> string \<Rightarrow> int \<Rightarrow> json \<Rightarrow> (wf_db, workflow_run \<times> workflow_step list) io" where
  "begin_run e wid tenant input =
     bind_io (query (wf_parse_json e) (wf_base64 e) (\<lambda>s.
       map (\<lambda>r. [(''steps'', cell_jsonb (wr_steps r)), (''config'', cell_jsonb (wr_config r))])
         (filter (\<lambda>r. wr_id r = wid \<and> wr_tenant r = tenant \<and> wr_enabled r) (wf_rows s))))
     (\<lambda>rows. case rows of
        [] \<Rightarrow> fail (NotFound ''Workflow not found or disabled'')
      | row # _ \<Rightarrow>
          (let steps = load_steps e row
           in bind_io (outside (\<lambda>n. new_run e n wid tenant input steps)) (\<lambda>run.
              bind_io (stmt (insert_run e run)) (\<lambda>_.
              bind_io (modify (\<lambda>s. s\<lparr>active_runs := (active_runs s)(run_id run \<mapsto> run)\<rparr>)) (\<lambda>_.
              ret (run, steps))))))"

definition tenant_of_run :: "string \<Rightarrow> wf_db \<Rightarrow> int" where
  "tenant_of_run rid s = (case active_runs s rid of None \<Rightarrow> 0 | Some run \<Rightarrow> run_tenant run)"

fun start_run :: "nat \<Rightarrow> wf_env \<Rightarrow> string \<Rightarrow> int \<Rightarrow> json \<Rightarrow> (wf_db, workflow_run) pio"
  and dag_loop :: "nat \<Rightarrow> wf_env \<Rightarrow> string \<Rightarrow> int \<Rightarrow> workflow_step list \<Rightarrow> (string \<times> json) list \<Rightarrow> (wf_db, unit) pio"
  and execute_step :: "nat \<Rightarrow> wf_env \<Rightarrow> string \<Rightarrow> int \<Rightarrow> workflow_step list \<Rightarrow> workflow_step \<Rightarrow> json \<Rightarrow> (wf_db, json) pio" where
  "start_run 0 e wid tenant input = no_answer"
| "start_run (Suc n) e wid tenant input =
     bind_p (returns (begin_run e wid tenant input)) (\<lambda>(run, steps).
     bind_p (returns (gets (tenant_of_run (run_id run)))) (\<lambda>t.
     bind_p (dag_loop n e (run_id run) t steps [(''$input'', input)]) (\<lambda>_. returns (ret run))))"
| "dag_loop 0 e rid tenant steps completed = no_answer"
| "dag_loop (Suc n) e rid tenant steps completed =
     bind_p (dag_round e (\<lambda>step input. execute_step n e rid tenant steps step input) rid steps completed) (\<lambda>(fin, c).
       if fin then returns (ret ()) else dag_loop n e rid tenant steps c)"
| "execute_step 0 e rid tenant steps step input = no_answer"
| "execute_step (Suc n) e rid tenant steps step input = (case step_type step of
       Delay seconds \<Rightarrow> returns (ret (JObject [(''delayed'', json_u64 seconds)]))
     | HttpRequest verb url headers \<Rightarrow> http_step e verb url headers input
     | Transform expression \<Rightarrow> returns (ret (jpath input expression))
     | Condition expression if_true if_false \<Rightarrow> returns (ret (condition_step expression if_true if_false input))
     | Function fid \<Rightarrow> function_step e fid input
     | Webhook url verb \<Rightarrow> webhook_step e url verb input
     | AiAgent agent_id prompt \<Rightarrow> ai_step e agent_id prompt input
     | SubWorkflow wid \<Rightarrow> bind_p (start_run n e wid tenant input) (\<lambda>sub_run. returns (await_run e step wid (run_id sub_run)))
     | Parallel ids \<Rightarrow> parallel_step e (\<lambda>sub. execute_step n e rid tenant steps sub input) rid steps ids)"

definition execute_dag :: "nat \<Rightarrow> wf_env \<Rightarrow> string \<Rightarrow> workflow_step list \<Rightarrow> json \<Rightarrow> (wf_db, unit) pio" where
  "execute_dag n e rid steps input =
     bind_p (returns (gets (tenant_of_run rid))) (\<lambda>t. dag_loop n e rid t steps [(''$input'', input)])"

section \<open>What the engine keeps\<close>

text \<open>All calls of HTTP and of the JavaScript engine return, with an answer or an error.\<close>

definition answers :: "wf_env \<Rightarrow> bool" where
  "answers e \<longleftrightarrow> (\<forall>n rq. wf_http e n rq \<noteq> None) \<and> (\<forall>n source. wf_js e n source \<noteq> None)"

text \<open>
  A claim about the state that survives every change the engine makes; \<open>own\<close> are the runs the engine may
  end: the runs started from here on, and the run it was asked to execute.
\<close>

locale engine_invariant =
  fixes e :: wf_env and P :: "wf_db \<Rightarrow> bool" and own :: "string \<Rightarrow> bool"
  assumes tick: "P s \<Longrightarrow> P (s\<lparr>wf_ticks := Suc (wf_ticks s)\<rparr>)"
    and step: "P s \<Longrightarrow> status \<noteq> StepPending \<Longrightarrow> P (set_step e rid sid status out s)"
    and patch: "P s \<Longrightarrow> P (patch_steps rid p s)"
    and finish: "P s \<Longrightarrow> P (finish_row e rid ''completed'' v s)"
    and finish_failed: "P s \<Longrightarrow> wf_jsonb e [] = Some v \<Longrightarrow> P (finish_row e rid ''failed'' v s)"
    and close: "P s \<Longrightarrow> own rid \<Longrightarrow> P (s\<lparr>active_runs := (active_runs s)(rid := None)\<rparr>)"
    and new_id: "P s \<Longrightarrow> own (wf_uuid e (wf_ticks s))"
    and insert: "P s \<Longrightarrow> insert_run e run s = Inr ((), s') \<Longrightarrow> P s'"
    and activate: "P s \<Longrightarrow> own (run_id run) \<Longrightarrow> P (s\<lparr>active_runs := (active_runs s)(run_id run \<mapsto> run)\<rparr>)"
begin

lemma keeps_outside: "keeps P (outside f)"
  unfolding outside_def by (intro keeps_intro tick)

lemma keeps_update: "status \<noteq> StepPending \<Longrightarrow> keeps P (update_step_state e rid sid status out)"
  unfolding update_step_state_def
  by (intro keeps_intro step) (auto simp: and_then_eq_Inr patch)

lemma keeps_complete:
  "own rid \<Longrightarrow> keeps P (complete_run e rid Completed (Some v))"
  "own rid \<Longrightarrow> keeps P (complete_run e rid Failed None)"
  unfolding complete_run_def
  by (intro keeps_intro close; auto simp: and_then_eq_Inr bound_jsonb_def ok_or_eq_Inr finish finish_failed)+

lemma keeps_get_run: "keeps P (get_run e rid)"
  unfolding get_run_def by (auto intro!: keeps_intro split: list.split)

lemma keeps_poll: "keeps P (poll_run e wid rid k)"
  by (induction k) (auto intro!: keeps_intro keeps_get_run split: option.split)

lemma keeps_await: "keeps P (await_run e x wid rid)"
  unfolding await_run_def by (auto intro!: keeps_intro keeps_get_run keeps_poll split: option.split simp del: poll_run.simps)

lemma insert': "insert_run e run (s\<lparr>wf_ticks := Suc (wf_ticks s)\<rparr>) = Inr (a, s') \<Longrightarrow> P s \<Longrightarrow> P s'"
  by (rule insert [OF tick]) simp_all

lemma begin_own: "P s \<Longrightarrow> wp (begin_run e wid tenant input) (\<lambda>r s'. P s' \<and> (\<forall>run steps. r = Inr (run, steps) \<longrightarrow> own (run_id run))) s"
  using new_id [of s] unfolding begin_run_def outside_def Let_def
  by (auto intro!: wp_intro activate simp: new_run_def intro: tick dest: insert' split: list.split)

text \<open>The loops of operations that may not return.\<close>

lemma pwp_keeps: "keeps P m \<Longrightarrow> P s \<Longrightarrow> pwp tot (returns m) (\<lambda>_. P) s"
  by (intro pwp_returns wp_keeps)

lemma pwp_for_keeps:
  "P s \<Longrightarrow> (\<And>x acc s. x \<in> set xs \<Longrightarrow> P s \<Longrightarrow> pwp tot (f x acc) (\<lambda>_. P) s) \<Longrightarrow> pwp tot (for_p f xs acc) (\<lambda>_. P) s"
  by (rule pwp_for_p [where I = "\<lambda>ys _ s. P s \<and> set ys \<subseteq> set xs"]) (auto intro: pwp_weaken)

lemma pwp_bind_keeps:
  "pwp tot m (\<lambda>_. P) s \<Longrightarrow> (\<And>a s'. P s' \<Longrightarrow> pwp tot (k a) (\<lambda>_. P) s') \<Longrightarrow> pwp tot (bind_p m k) (\<lambda>_. P) s"
  by (rule pwp_bind_p, erule pwp_weaken) auto

lemma pwp_outside:
  assumes "P s" and "tot \<longrightarrow> (\<forall>n. f n \<noteq> None)"
  shows "pwp tot (outside_p f) (\<lambda>_. P) s"
proof -
  have "wp (outside f) (\<lambda>r s'. P s' \<and> (\<exists>n. r = Inr (f n))) s"
    unfolding outside_def using assms(1) by (auto intro!: wp_intro tick)
  then show ?thesis
    unfolding outside_p_def
    by (intro pwp_bind_p pwp_returns, elim wp_weaken)
      (use assms(2) in \<open>auto intro!: pwp_no_answer pwp_returns wp_ret dest: spec split: option.split, metis option.distinct(1)\<close>)
qed

lemma simple_keeps:
  assumes "P s" and "tot \<longrightarrow> answers e"
  shows "pwp tot (http_step e verb url headers input) (\<lambda>_. P) s" "pwp tot (webhook_step e url verb input) (\<lambda>_. P) s"
    "pwp tot (function_step e fid input) (\<lambda>_. P) s" "pwp tot (ai_step e agent prompt input) (\<lambda>_. P) s"
proof -
  have http: "pwp tot (outside_p (\<lambda>n. wf_http e n rq)) (\<lambda>_. P) s'" if "P s'" for rq s'
    using that assms(2) by (intro pwp_outside) (simp_all add: answers_def)
  have js: "pwp tot (outside_p (\<lambda>n. wf_js e n src)) (\<lambda>_. P) s'" if "P s'" for src s'
    using that assms(2) by (intro pwp_outside) (simp_all add: answers_def)
  have send: "pwp tot (send_request e what rq) (\<lambda>_. P) s'" if "P s'" for what rq s'
    unfolding send_request_def
    by (intro pwp_bind_keeps http that pwp_keeps) (auto intro!: keeps_intro split: sum.split)
  show "pwp tot (http_step e verb url headers input) (\<lambda>_. P) s" "pwp tot (webhook_step e url verb input) (\<lambda>_. P) s"
    unfolding http_step_def webhook_step_def Let_def
    by (intro pwp_bind_keeps send assms(1); auto intro!: pwp_keeps keeps_intro split: prod.split)+
  show "pwp tot (function_step e fid input) (\<lambda>_. P) s"
    unfolding function_step_def Let_def
    by (intro pwp_bind_keeps) (auto intro!: pwp_bind_keeps js assms(1) pwp_keeps keeps_intro split: list.split sum.split)
  show "pwp tot (ai_step e agent prompt input) (\<lambda>_. P) s"
    unfolding ai_step_def Let_def
    by (intro pwp_bind_keeps)
      (auto intro!: pwp_bind_keeps http assms(1) pwp_keeps keeps_intro simp: ok_or_def split: list.split sum.split option.splits)
qed

lemma parallel_keeps:
  assumes "P s"
    and exec: "\<And>subs sub s. find_children steps ids = Inr subs \<Longrightarrow> sub \<in> set subs \<Longrightarrow> P s \<Longrightarrow> pwp tot (f sub) (\<lambda>_. P) s"
  shows "pwp tot (parallel_step e f rid steps ids) (\<lambda>_. P) s"
proof -
  have loop: "pwp tot (for_p (\<lambda>sub acc. bind_p (attempt_p (f sub)) (\<lambda>r. returns (ret (acc @ [(sub, r)])))) subs []) (\<lambda>_. P) s'"
    if "find_children steps ids = Inr subs" "P s'" for subs s'
    using that(2) by (rule pwp_for_keeps) (intro pwp_bind_keeps pwp_attempt_p exec [OF that(1)] pwp_keeps keeps_ret)
  have children: "keeps P (child_done e rid sr acc)" for sr acc
    by (auto simp: child_done_def intro!: keeps_intro keeps_update split: prod.split sum.split)
  show ?thesis
    unfolding parallel_step_def
    by (rule pwp_bind_p, rule pwp_returns, rule wp_lift)
      (use assms(1) in \<open>auto intro!: pwp_bind_keeps loop pwp_keeps keeps_intro keeps_update children\<close>)
qed

lemma run_ready_keeps:
  assumes "P s" and "\<And>i s. P s \<Longrightarrow> pwp tot (f x i) (\<lambda>_. P) s"
  shows "pwp tot (run_ready e f rid x completed) (\<lambda>_. P) s"
  unfolding run_ready_def
  by (intro pwp_bind_keeps pwp_attempt_p assms pwp_keeps)
    (auto intro!: keeps_intro keeps_update split: sum.split)

lemma round_keeps:
  assumes "P s" and "own rid" and f: "\<And>x i s. x \<in> set steps \<Longrightarrow> P s \<Longrightarrow> pwp tot (f x i) (\<lambda>_. P) s"
  shows "pwp tot (dag_round e f rid steps completed) (\<lambda>_. P) s"
proof -
  have loop: "pwp tot (for_p (run_ready e f rid) (ready_steps rid steps completed s) c) (\<lambda>_. P) s" for c
    using assms(1) by (rule pwp_for_keeps) (auto simp: ready_steps_def intro!: run_ready_keeps f)
  show ?thesis
    unfolding dag_round_def
    by (rule pwp_bind_p, rule pwp_returns, rule wp_gets)
      (use assms(1,2) loop in \<open>auto intro!: pwp_bind_keeps pwp_keeps keeps_intro keeps_complete\<close>)
qed

lemma engine_keeps:
  "P s \<Longrightarrow> pwp False (start_run n e wid tenant input) (\<lambda>_. P) s"
  "P s \<Longrightarrow> own rid \<Longrightarrow> pwp False (dag_loop n e rid tenant steps completed) (\<lambda>_. P) s"
  "P s \<Longrightarrow> pwp False (execute_step n e rid tenant steps x input) (\<lambda>_. P) s"
proof (induction n arbitrary: s wid tenant input rid steps completed x)
  case 0
  { case 1 show ?case by (simp add: pwp_no_answer) }
  { case 2 show ?case by (simp add: pwp_no_answer) }
  { case 3 show ?case by (simp add: pwp_no_answer) }
next
  case (Suc n)
  { case 1
    show ?case
      unfolding start_run.simps
      by (rule pwp_bind_p, rule pwp_returns, rule wp_weaken [OF begin_own [OF 1]])
        (auto intro!: pwp_bind_keeps Suc.IH(2) pwp_keeps keeps_intro) }
  { case 2
    show ?case
      unfolding dag_loop.simps
      by (intro pwp_bind_keeps round_keeps 2 Suc.IH(3)) (auto intro!: Suc.IH(2) 2 pwp_keeps keeps_intro) }
  { case 3
    then show ?case
      by (cases "step_type x")
        (auto intro!: pwp_keeps keeps_intro simple_keeps keeps_await parallel_keeps pwp_bind_keeps Suc.IH) }
qed

text \<open>The loop body neither fails nor leaves the claim.\<close>

lemma update_ok: "P s \<Longrightarrow> status \<noteq> StepPending \<Longrightarrow> wp (update_step_state e rid sid status out) (\<lambda>r s'. r = Inr () \<and> P s') s"
  unfolding update_step_state_def
  by (auto intro!: wp_intro step patch simp: and_then_eq_Inr)

lemma run_ready_ok:
  assumes "P s" and "\<And>i s. P s \<Longrightarrow> pwp tot (f x i) (\<lambda>_. P) s"
  shows "pwp tot (run_ready e f rid x completed) (\<lambda>r s'. (\<forall>err. r \<noteq> Inl err) \<and> P s') s"
  unfolding run_ready_def
proof (rule pwp_bind_p, rule pwp_attempt_p, rule pwp_weaken [OF assms(2) [OF assms(1)]], intro conjI allI impI)
  fix r a :: "json result" and s' assume "P s'" "Inr r = (Inr a :: json result result)"
  then show "pwp tot (returns (case a of
       Inr out \<Rightarrow> bind_io (update_step_state e rid (ws_id x) StepCompleted (Some out)) (\<lambda>_. ret (AList.update (ws_id x) out completed))
     | Inl err \<Rightarrow> bind_io (update_step_state e rid (ws_id x) StepFailed None) (\<lambda>_. ret completed)))
     (\<lambda>r s'. (\<forall>err. r \<noteq> Inl err) \<and> P s') s'"
    by (cases a) (auto intro!: pwp_returns wp_bind_io wp_weaken [OF update_ok] wp_ret)
qed simp

end

section \<open>The stored status of a run\<close>

text \<open>The texts \<open>running\<close> and \<open>completed\<close> are the only ones a run ever has in its table.\<close>

definition running_or_completed :: "wf_db \<Rightarrow> bool" where
  "running_or_completed s \<longleftrightarrow> (\<forall>r \<in> set (wf_runs s). rr_status r = ''running'' \<or> rr_status r = ''completed'')"

interpretation status: engine_invariant e "\<lambda>s. wf_jsonb e [] = None \<longrightarrow> running_or_completed s" "\<lambda>_. True"
  by unfold_locales
    (auto simp: running_or_completed_def set_step_def patch_steps_def finish_row_def insert_run_def and_then_eq_Inr
      split: option.splits if_splits)

text \<open>
  The status of a run in the database is never \<open>failed\<close> and never \<open>cancelled\<close>: an output that is absent is
  sent as the empty text, which is not JSON, and the failure of that statement is dropped. Starting runs,
  executing their steps, and cancelling runs, under any failures of the database, leave every stored run
  \<open>running\<close> or \<open>completed\<close>; after a cancellation the run is gone from memory and its row is as it was.
\<close>

theorem failed_and_cancelled_never_stored:
  assumes "wf_jsonb e [] = None" and "running_or_completed (st d)"
  shows "(\<forall>r d'. start_run n e wid tenant input d = Some (r, d') \<longrightarrow> running_or_completed (st d')) \<and>
    (\<forall>r d'. dag_loop n e rid tenant steps completed d = Some (r, d') \<longrightarrow> running_or_completed (st d')) \<and>
    (\<forall>r d'. cancel_run e rid d = (r, d') \<longrightarrow>
       r = Inr () \<and> active_runs (st d') rid = None \<and> wf_runs (st d') = wf_runs (st d))"
proof (intro conjI allI impI)
  fix r d' assume "start_run n e wid tenant input d = Some (r, d')"
  from pwp_D [OF status.engine_keeps(1) this] assms show "running_or_completed (st d')" by simp
next
  fix r d' assume "dag_loop n e rid tenant steps completed d = Some (r, d')"
  from pwp_D [OF status.engine_keeps(2) this] assms show "running_or_completed (st d')" by simp
next
  have wp: "wp (cancel_run e rid) (\<lambda>r s'. r = Inr () \<and> active_runs s' rid = None \<and> wf_runs s' = wf_runs (st d)) (st d)"
    unfolding cancel_run_def complete_run_def
    by (auto intro!: wp_intro simp: bound_jsonb_def assms(1))
  fix r d' assume "cancel_run e rid d = (r, d')"
  from wp_D [OF wp this] show "r = Inr ()" "active_runs (st d') rid = None" "wf_runs (st d') = wf_runs (st d)"
    by simp_all
qed

section \<open>A run while its steps are executed\<close>

text \<open>
  What the execution of the steps of the run \<open>rid\<close> may change, seen from the state \<open>s0\<close>: no workflow, and the run
  keeps its place in memory and its steps, of which none becomes pending.
\<close>

definition evolves :: "wf_env \<Rightarrow> string \<Rightarrow> wf_db \<Rightarrow> wf_db \<Rightarrow> bool" where
  "evolves e rid s0 s \<longleftrightarrow>
     wf_rows s = wf_rows s0 \<and> wf_ticks s0 \<le> wf_ticks s \<and>
     map_option (\<lambda>run. (map fst (step_states run), run_tenant run)) (active_runs s rid)
       = map_option (\<lambda>run. (map fst (step_states run), run_tenant run)) (active_runs s0 rid) \<and>
     (\<forall>sid. get_step_status_sync rid sid s = StepPending \<longrightarrow> get_step_status_sync rid sid s0 = StepPending)"

text \<open>The identifier of the run has been given out, and no identifier is given out twice.\<close>

definition given :: "wf_env \<Rightarrow> string \<Rightarrow> wf_db \<Rightarrow> bool" where
  "given e rid s \<longleftrightarrow> inj (wf_uuid e) \<and> (\<exists>k < wf_ticks s. rid = wf_uuid e k)"

lemma given_fresh: "given e rid s \<Longrightarrow> wf_ticks s \<le> n \<Longrightarrow> wf_uuid e n \<noteq> rid"
  by (auto simp: given_def dest!: injD)

lemma evolves_refl: "evolves e rid s s"
  by (simp add: evolves_def)

lemma map_of_set_step:
  "map_of (map (\<lambda>(k, x). if k = sid then (k, f x) else (k, x)) xs) k' = (if k' = sid then map_option f (map_of xs k') else map_of xs k')"
  by (induction xs) auto

lemma keys_set_step: "map (fst \<circ> (\<lambda>(k, x). if k = sid then (k, f x) else (k, x))) xs = map fst xs"
  by (induction xs) auto

lemma status_set_step:
  "get_step_status_sync rid k (set_step e rid' sid status out s) =
     (if rid = rid' \<and> k = sid \<and> (\<exists>run. active_runs s rid = Some run \<and> k \<in> fst ` set (step_states run)) then status
      else get_step_status_sync rid k s)"
  by (auto simp: get_step_status_sync_def set_step_def map_of_set_step map_of_eq_None_iff
      split: option.splits) (metis domI dom_map_of_conv_image_fst)+

interpretation execution: engine_invariant e "\<lambda>s. given e rid s0 \<longrightarrow> evolves e rid s0 s" "\<lambda>r. given e rid s0 \<longrightarrow> r \<noteq> rid"
proof unfold_locales
  fix s status rid' sid out
  assume s: "given e rid s0 \<longrightarrow> evolves e rid s0 s" and "status \<noteq> StepPending"
  then show "given e rid s0 \<longrightarrow> evolves e rid s0 (set_step e rid' sid status out s)"
    by (auto simp: evolves_def status_set_step) (auto simp: set_step_def keys_set_step split: option.split)
qed (auto simp: evolves_def get_step_status_sync_def patch_steps_def finish_row_def insert_run_def and_then_eq_Inr
    dest: given_fresh split: if_splits)

section \<open>Cancellation while the steps are executed\<close>

lemma evolves_forgotten: "evolves e rid s0 s \<Longrightarrow> active_runs s0 rid = None \<Longrightarrow> active_runs s rid = None"
  by (auto simp: evolves_def)

lemma forgotten_pending: "active_runs s rid = None \<Longrightarrow> get_step_status_sync rid sid s = StepPending"
  by (simp add: get_step_status_sync_def)

lemma given_mono: "given e rid s0 \<Longrightarrow> wf_ticks s0 \<le> wf_ticks s \<Longrightarrow> given e rid s"
  unfolding given_def using order.strict_trans2 by blast

text \<open>A round on a run that is no longer in memory does not end the loop, and keeps the results it has.\<close>

lemma run_ready_keys:
  assumes "given e rid s0" and "evolves e rid s0 s"
  shows "pwp False (run_ready e (\<lambda>x i. execute_step n e rid t steps x i) rid x completed)
     (\<lambda>r s'. (\<forall>err. r \<noteq> Inl err) \<and> evolves e rid s0 s') s"
proof (rule pwp_weaken [OF execution.run_ready_ok [of e rid s0]])
  show "given e rid s0 \<longrightarrow> evolves e rid s0 s" using assms(2) by simp
  show "pwp False (execute_step n e rid t steps x i) (\<lambda>_ s'. given e rid s0 \<longrightarrow> evolves e rid s0 s') s'"
    if "given e rid s0 \<longrightarrow> evolves e rid s0 s'" for i s'
    by (rule execution.engine_keeps(3) [OF that])
qed (use assms(1) in simp)

lemma dag_loop_of_forgotten_run:
  assumes "given e rid s" and "active_runs s rid = None" and "x \<in> set steps" and "depends_on x = []"
  shows "pwp False (dag_loop n e rid t steps completed) (\<lambda>_ _. False) s"
  using assms(1,2)
proof (induction n arbitrary: s completed)
  case 0
  show ?case by (simp add: pwp_no_answer)
next
  case (Suc n)
  let ?f = "\<lambda>x i. execute_step n e rid t steps x i"
  let ?Q = "\<lambda>r s'. (\<forall>err. r \<noteq> Inl err) \<and> evolves e rid s s'"
  from Suc.prems(2) assms(3,4) have ready: "ready_steps rid steps completed s \<noteq> []"
    by (auto simp: ready_steps_def filter_empty_conv forgotten_pending intro!: bexI [of _ x])
  have loop: "pwp False (for_p (run_ready e ?f rid) xs c) ?Q s'" if "evolves e rid s s'" for xs c s'
    by (rule pwp_for_p [where I = "\<lambda>_ _ s'. evolves e rid s s'"])
      (use that in \<open>auto intro: pwp_weaken [OF run_ready_keys [OF Suc.prems(1)]]\<close>)
  have "pwp False (dag_round e ?f rid steps completed)
      (\<lambda>r s'. (\<forall>err. r \<noteq> Inl err) \<and> (\<forall>p. r = Inr p \<longrightarrow> \<not> fst p) \<and> evolves e rid s s') s"
    unfolding dag_round_def
    by (rule pwp_bind_p, rule pwp_returns, rule wp_gets)
      (use ready in \<open>auto intro!: pwp_bind_p pwp_weaken [OF loop] pwp_returns wp_ret simp: evolves_refl\<close>)
  then show ?case
    unfolding dag_loop.simps
  proof (rule pwp_bind_p [OF pwp_weaken], intro conjI allI impI; elim conjE)
    fix r :: "(bool \<times> (string \<times> json) list) result" and s' p
    assume r: "r = Inr p" "\<forall>p. r = Inr p \<longrightarrow> \<not> fst p" and ev: "evolves e rid s s'"
    then have "wf_ticks s \<le> wf_ticks s'" by (simp add: evolves_def)
    from Suc.IH [OF given_mono [OF Suc.prems(1) this] evolves_forgotten [OF ev Suc.prems(2)]] r
    show "pwp False (case p of (fin, c) \<Rightarrow> if fin then returns (ret ()) else dag_loop n e rid t steps c) (\<lambda>_ _. False) s'"
      by (cases p) simp
  qed blast
qed

text \<open>
  Cancelling a run does not stop it. The task that executes the steps reads the state of a step from the
  run in memory and takes a step of a run that is gone for pending; so once \<open>cancel_run\<close> has removed the
  run, a run with a step that depends on nothing never stops executing it: \<open>execute_dag\<close> returns for no
  number of rounds, from any stage of the run, under any failures of the database.
\<close>

theorem cancelled_run_never_stops:
  assumes "given e rid (st d)" and "cancel_run e rid d = (r, d')" and "x \<in> set steps" and "depends_on x = []"
  shows "dag_loop n e rid tenant steps completed d' = None \<and> execute_dag n e rid steps input d' = None"
proof -
  have "wp (cancel_run e rid) (\<lambda>r s'. active_runs s' rid = None \<and> wf_ticks s' = wf_ticks (st d)) (st d)"
    unfolding cancel_run_def complete_run_def
    by (auto intro!: wp_intro simp: and_then_eq_Inr finish_row_def)
  from wp_D [OF this assms(2)] assms(1) have gone: "active_runs (st d') rid = None" "given e rid (st d')"
    by (auto simp: given_def)
  have loop: "dag_loop n e rid t steps c d' = None" for t c
    using dag_loop_of_forgotten_run [OF gone(2,1) assms(3,4), of n t c]
    by (cases "dag_loop n e rid t steps c d'") (auto simp: pwp_def dest!: spec [of _ d'])
  then show ?thesis by (simp add: execute_dag_def bind_p_def returns_def gets_def)
qed

section \<open>Termination\<close>

text \<open>Groups of steps nested at most \<open>k\<close> deep below a step.\<close>

fun nested :: "nat \<Rightarrow> workflow_step list \<Rightarrow> workflow_step \<Rightarrow> bool" where
  "nested 0 steps x = (case step_type x of Parallel ids \<Rightarrow> False | _ \<Rightarrow> True)"
| "nested (Suc k) steps x = (case step_type x of
       Parallel ids \<Rightarrow> list_all (\<lambda>i. case find (\<lambda>s. ws_id s = i) steps of None \<Rightarrow> True | Some y \<Rightarrow> nested k steps y) ids
     | _ \<Rightarrow> True)"

text \<open>The stored steps of every workflow are JSON other than a string; \<open>load_steps\<close> then sees none.\<close>

definition no_text_steps :: "wf_env \<Rightarrow> wf_db \<Rightarrow> bool" where
  "no_text_steps e s \<longleftrightarrow> wf_parse_steps e ''[]'' = Some [] \<and> (\<forall>r \<in> set (wf_rows s). as_str (wr_steps r) = None)"

lemma no_text_cong: "wf_rows s = wf_rows s' \<Longrightarrow> no_text_steps e s = no_text_steps e s'"
  by (simp add: no_text_steps_def)

lemma load_no_steps:
  "wf_parse_steps e ''[]'' = Some [] \<Longrightarrow> as_str v = None \<Longrightarrow> load_steps e (json_row p b [(''steps'', cell_jsonb v), c]) = []"
  by (simp add: load_steps_def col_str_def json_row_def split: prod.split)

lemma begin_no_steps:
  "no_text_steps e s \<Longrightarrow> wp (begin_run e wid tenant input)
     (\<lambda>r s'. wf_rows s' = wf_rows s \<and> (\<forall>run steps. r = Inr (run, steps) \<longrightarrow> steps = [] \<and> step_states run = [])) s"
  unfolding begin_run_def outside_def Let_def
  by (auto intro!: wp_intro simp: insert_run_def and_then_eq_Inr new_run_def initial_states_def load_no_steps no_text_steps_def
      split: list.split if_splits dest!: filter_eq_ConsD)

lemma dag_loop_no_steps:
  "pwp True (dag_loop (Suc n) e rid t [] c) (\<lambda>r s'. r = Inr () \<and> wf_rows s' = wf_rows s \<and> wf_ticks s' = wf_ticks s) s"
  by (auto intro!: pwp_intro wp_intro simp: dag_round_def ready_steps_def all_done_def complete_run_def and_then_eq_Inr
      finish_row_def)

lemma start_run_returns:
  "no_text_steps e s \<Longrightarrow> pwp True (start_run (Suc (Suc n)) e wid tenant input) (\<lambda>_ s'. wf_rows s' = wf_rows s) s"
  unfolding start_run.simps
  by (rule pwp_bind_p, rule pwp_returns, rule wp_weaken [OF begin_no_steps])
    (auto intro!: pwp_bind_p pwp_weaken [OF dag_loop_no_steps] pwp_returns wp_intro simp del: dag_loop.simps)

interpretation workflows: engine_invariant e "\<lambda>s. wf_rows s = W" "\<lambda>_. True"
  by unfold_locales (auto simp: set_step_def patch_steps_def finish_row_def insert_run_def and_then_eq_Inr
      split: option.splits if_splits)

lemma find_children_nested:
  assumes "find_children steps ids = Inr subs"
    and "list_all (\<lambda>i. case find (\<lambda>s. ws_id s = i) steps of None \<Rightarrow> True | Some y \<Rightarrow> Q y) ids" and "sub \<in> set subs"
  shows "Q sub \<and> sub \<in> set steps"
proof -
  have "\<forall>sub \<in> set subs. Q sub \<and> sub \<in> set steps"
    using assms(1) unfolding find_children_def
    by (rule try_fold_invariant) (use assms(2) in \<open>auto simp: and_then_eq_Inr ok_or_eq_Inr list_all_iff
        dest!: bspec dest: find_Some_in_set\<close>)
  with assms(3) show ?thesis by blast
qed

lemma execute_step_returns:
  assumes "answers e" and "no_text_steps e s0" and "nested k steps x" and "k + 3 \<le> n" and "wf_rows s = wf_rows s0"
  shows "pwp True (execute_step n e rid t steps x input) (\<lambda>_ s'. wf_rows s' = wf_rows s0) s"
  using assms(3-5)
proof (induction n arbitrary: k x input s)
  case 0
  then show ?case by simp
next
  case (Suc n)
  let ?goal = "pwp True (execute_step (Suc n) e rid t steps x input) (\<lambda>_ s'. wf_rows s' = wf_rows s0) s"
  note simple = workflows.pwp_keeps workflows.simple_keeps keeps_intro Suc.prems(3) assms(1) impI
  show ?case
  proof (cases "step_type x")
    case (SubWorkflow wid)
    from Suc.prems(2) obtain m where n: "n = Suc (Suc m)" by (intro that [of "n - 2"]) simp
    from assms(2) Suc.prems(3) have "no_text_steps e s" using no_text_cong [of s s0 e] by simp
    from start_run_returns [OF this, of m wid t input]
    have start: "pwp True (start_run n e wid t input) (\<lambda>_ s'. wf_rows s' = wf_rows s0) s"
      by (simp only: n Suc.prems(3))
    have "pwp True (bind_p (start_run n e wid t input) (\<lambda>sub_run. returns (await_run e x wid (run_id sub_run))))
        (\<lambda>_ s'. wf_rows s' = wf_rows s0) s"
      by (rule workflows.pwp_bind_keeps [OF start]) (intro workflows.pwp_keeps workflows.keeps_await)
    with SubWorkflow show ?goal by simp
  next
    case (Parallel ids)
    with Suc.prems(1) obtain j where j: "k = Suc j"
      "list_all (\<lambda>i. case find (\<lambda>s. ws_id s = i) steps of None \<Rightarrow> True | Some y \<Rightarrow> nested j steps y) ids"
      by (cases k) auto
    have "pwp True (parallel_step e (\<lambda>sub. execute_step n e rid t steps sub input) rid steps ids)
        (\<lambda>_ s'. wf_rows s' = wf_rows s0) s"
      by (rule workflows.parallel_keeps [OF Suc.prems(3)], rule Suc.IH [of j])
        (use Suc.prems(2) j find_children_nested [OF _ j(2)] in auto)
    with Parallel show ?goal by simp
  qed (auto intro!: simple)
qed


section \<open>The loop ends\<close>

definition tracked :: "string \<Rightarrow> workflow_step \<Rightarrow> wf_db \<Rightarrow> bool" where
  "tracked rid x s \<longleftrightarrow> (\<exists>run. active_runs s rid = Some run \<and> ws_id x \<in> fst ` set (step_states run))"

definition pending_steps :: "string \<Rightarrow> workflow_step list \<Rightarrow> wf_db \<Rightarrow> nat" where
  "pending_steps rid steps s = length (filter (\<lambda>x. get_step_status_sync rid (ws_id x) s = StepPending) steps)"

lemma evolves_tracked: "evolves e rid s0 s \<Longrightarrow> tracked rid x s0 \<Longrightarrow> tracked rid x s"
proof -
  assume ev: "evolves e rid s0 s" and "tracked rid x s0"
  then obtain run0 where r0: "active_runs s0 rid = Some run0" "ws_id x \<in> fst ` set (step_states run0)"
    unfolding tracked_def by blast
  from ev r0(1) obtain run where r: "active_runs s rid = Some run" "map fst (step_states run) = map fst (step_states run0)"
    by (auto simp: evolves_def)
  from r(2) have "fst ` set (step_states run) = fst ` set (step_states run0)" by (metis set_map)
  with r r0 show ?thesis by (auto simp: tracked_def)
qed

lemma evolves_trans: "evolves e rid s0 s1 \<Longrightarrow> evolves e rid s1 s2 \<Longrightarrow> evolves e rid s0 s2"
  unfolding evolves_def by auto

text \<open>A step that was executed is not pending any more.\<close>

lemma update_settles:
  assumes "tracked rid x s" and "status \<noteq> StepPending"
  shows "wp (update_step_state e rid (ws_id x) status out)
     (\<lambda>r s'. r = Inr () \<and> evolves e rid s s' \<and> get_step_status_sync rid (ws_id x) s' \<noteq> StepPending) s"
proof -
  have set: "evolves e rid s (set_step e rid (ws_id x) status out s)" (is "evolves e rid s ?s")
    using assms(2) by (auto simp: evolves_def status_set_step) (auto simp: set_step_def keys_set_step split: option.split)
  from assms have settled: "get_step_status_sync rid (ws_id x) ?s \<noteq> StepPending"
    by (auto simp: status_set_step tracked_def)
  have "evolves e rid s (patch_steps rid p ?s) \<and> get_step_status_sync rid (ws_id x) (patch_steps rid p ?s) \<noteq> StepPending" for p
    using set settled by (simp add: evolves_def get_step_status_sync_def patch_steps_def)
  with set settled show ?thesis
    unfolding update_step_state_def by (auto intro!: wp_intro simp: and_then_eq_Inr)
qed

lemma run_ready_settles:
  assumes "given e rid s0" and "evolves e rid s0 s" and "tracked rid x s0" and "no_text_steps e s0" and "nested k steps x" and "k + 3 \<le> n"
    and "answers e"
  shows "pwp True (run_ready e (\<lambda>x i. execute_step n e rid t steps x i) rid x completed)
    (\<lambda>r s'. (\<forall>err. r \<noteq> Inl err) \<and> evolves e rid s0 s' \<and> get_step_status_sync rid (ws_id x) s' \<noteq> StepPending) s"
proof -
  have rows: "wf_rows s = wf_rows s0" using assms(2) by (simp add: evolves_def)
  have "pwp False (execute_step n e rid t steps x i) (\<lambda>_ s'. given e rid s0 \<longrightarrow> evolves e rid s0 s') s" for i
    by (rule execution.engine_keeps(3)) (use assms(2) in simp)
  from pwp_total_partial [OF execute_step_returns [OF assms(7,4,5,6) rows] this]
  have exec: "pwp True (execute_step n e rid t steps x i) (\<lambda>_ s'. evolves e rid s0 s') s" for i
    by (rule pwp_weaken) (use assms(1) in simp)
  have update: "wp (update_step_state e rid (ws_id x) status out)
      (\<lambda>r s'. r = Inr () \<and> evolves e rid s0 s' \<and> get_step_status_sync rid (ws_id x) s' \<noteq> StepPending) s'"
    if "evolves e rid s0 s'" "status \<noteq> StepPending" for s' status out
    by (rule wp_weaken [OF update_settles [OF evolves_tracked [OF that(1) assms(3)] that(2)]])
      (auto intro: evolves_trans [OF that(1)])
  show ?thesis
    unfolding run_ready_def
    by (rule pwp_bind_p, rule pwp_attempt_p, rule pwp_weaken [OF exec])
      (auto intro!: pwp_returns wp_bind_io wp_ret wp_weaken [OF update] split: sum.split)
qed

lemma ready_loop_settles:
  assumes "given e rid s0" and "no_text_steps e s0" and steps: "\<forall>x \<in> set steps. tracked rid x s0 \<and> nested k steps x"
    and "k + 3 \<le> n" and "x0 \<in> set xs" and "set xs \<subseteq> set steps" and "answers e"
  shows "pwp True (for_p (run_ready e (\<lambda>x i. execute_step n e rid t steps x i) rid) xs c)
    (\<lambda>r s'. (\<forall>err. r \<noteq> Inl err) \<and> evolves e rid s0 s' \<and> get_step_status_sync rid (ws_id x0) s' \<noteq> StepPending) s0"
proof (rule pwp_for_p [where I = "\<lambda>ys _ s. set ys \<subseteq> set steps \<and> evolves e rid s0 s \<and>
      (x0 \<in> set ys \<or> get_step_status_sync rid (ws_id x0) s \<noteq> StepPending)"], goal_cases)
  case 1
  show ?case using assms(5,6) by (simp add: evolves_refl)
next
  case (2 x ys acc s)
  have x: "tracked rid x s0" "nested k steps x" and ev: "evolves e rid s0 s" using 2 steps by auto
  have later: "get_step_status_sync rid (ws_id x0) s' \<noteq> StepPending"
    if "get_step_status_sync rid (ws_id x0) s \<noteq> StepPending" "evolves e rid s s'" for s'
    using that by (auto simp: evolves_def)
  from ev assms(1) have "given e rid s" by (auto simp: evolves_def intro: given_mono)
  moreover from ev assms(2) have "no_text_steps e s" by (auto simp: evolves_def no_text_steps_def)
  ultimately have "pwp True (run_ready e (\<lambda>x i. execute_step n e rid t steps x i) rid x acc)
      (\<lambda>r s'. (\<forall>err. r \<noteq> Inl err) \<and> evolves e rid s s' \<and> get_step_status_sync rid (ws_id x) s' \<noteq> StepPending) s"
    by (rule run_ready_settles [OF _ evolves_refl evolves_tracked [OF ev x(1)] _ x(2) assms(4,7)])
  then show ?case
    by (rule pwp_weaken) (use 2 later evolves_trans [OF ev] in auto)
next
  case (3 acc s)
  then show ?case by auto
qed

lemma dag_loop_returns:
  assumes "given e rid s" and "no_text_steps e s" and "\<forall>x \<in> set steps. tracked rid x s \<and> nested k steps x"
    and "pending_steps rid steps s + k + 4 \<le> n" and "answers e"
  shows "pwp True (dag_loop n e rid t steps c) (\<lambda>r s'. r = Inr () \<and> active_runs s' rid = None) s"
  using assms
proof (induction n arbitrary: s c)
  case 0
  then show ?case by simp
next
  case (Suc n)
  let ?f = "\<lambda>x i. execute_step n e rid t steps x i"
  let ?ready = "ready_steps rid steps c s"
  have complete: "wp (complete_run e rid status out) (\<lambda>r s'. r = Inr () \<and> active_runs s' rid = None) s" for status out
    unfolding complete_run_def by (auto intro!: wp_intro)
  show ?case
  proof (cases "?ready = []")
    case True
    have "pwp True (dag_round e ?f rid steps c) (\<lambda>r s'. r = Inr (True, c) \<and> active_runs s' rid = None) s"
      unfolding dag_round_def
      by (rule pwp_bind_p, rule pwp_returns, rule wp_gets)
        (use True in \<open>auto intro!: pwp_returns wp_bind_io wp_gets wp_ret wp_weaken [OF complete]\<close>)
    then show ?thesis
      unfolding dag_loop.simps
      by (intro pwp_bind_p, elim pwp_weaken) (auto intro!: pwp_returns wp_ret)
  next
    case False
    then obtain x0 where x0: "x0 \<in> set ?ready" by (cases ?ready) auto
    then have x0': "x0 \<in> set steps" "get_step_status_sync rid (ws_id x0) s = StepPending" by (auto simp: ready_steps_def)
    have "pwp True (for_p (run_ready e ?f rid) ?ready c)
      (\<lambda>r s'. (\<forall>err. r \<noteq> Inl err) \<and> evolves e rid s s' \<and> get_step_status_sync rid (ws_id x0) s' \<noteq> StepPending) s"
      by (rule ready_loop_settles [OF Suc.prems(1-3) _ x0 _ Suc.prems(5)]) (use Suc.prems(4) in \<open>auto simp: ready_steps_def\<close>)
    then have round: "pwp True (dag_round e ?f rid steps c)
      (\<lambda>r s'. (\<exists>c'. r = Inr (False, c')) \<and> evolves e rid s s' \<and> get_step_status_sync rid (ws_id x0) s' \<noteq> StepPending) s"
      unfolding dag_round_def
      by (intro pwp_bind_p pwp_returns wp_gets conjI allI impI)
        (use False in \<open>auto intro!: pwp_bind_p pwp_returns wp_ret elim!: pwp_weaken\<close>)
    have less: "pending_steps rid steps s' < pending_steps rid steps s"
      if "evolves e rid s s'" "get_step_status_sync rid (ws_id x0) s' \<noteq> StepPending" for s'
      unfolding pending_steps_def
      by (rule length_filter_less [where y = x0]) (use that x0' in \<open>auto simp: evolves_def\<close>)
    have IH: "pwp True (dag_loop n e rid t steps c') (\<lambda>r s'. r = Inr () \<and> active_runs s' rid = None) s'"
      if ev: "evolves e rid s s'" and st: "get_step_status_sync rid (ws_id x0) s' \<noteq> StepPending" for s' c'
    proof (rule Suc.IH)
      from ev Suc.prems(1) show "given e rid s'" by (auto simp: evolves_def intro: given_mono)
      from ev Suc.prems(2) show "no_text_steps e s'" by (auto simp: evolves_def no_text_steps_def)
      from Suc.prems(3) evolves_tracked [OF ev] show "\<forall>x \<in> set steps. tracked rid x s' \<and> nested k steps x" by blast
      from less [OF ev st] Suc.prems(4) show "pending_steps rid steps s' + k + 4 \<le> n" by simp
      show "answers e" by (rule Suc.prems(5))
    qed
    show ?thesis
      unfolding dag_loop.simps
      by (rule pwp_bind_p, rule pwp_weaken [OF round]) (auto intro: IH)
  qed
qed

text \<open>
  C15. The loop over the steps of a run ends, for a run in memory with a state for each of its steps whose
  parallel groups are nested at most \<open>k\<close> deep, when nobody cancels it, when every call of HTTP and of the
  JavaScript engine returns, and when the stored steps of all workflows are JSON other than a text, so that
  the runs sub-workflows start have no steps. It is worked off after at most as many rounds as it has steps,
  also when its dependencies are cyclic or name steps that do not exist, when steps fail, and under any
  failures of the database. The call succeeds and the run is no longer in memory.
\<close>

theorem execute_dag_returns:
  assumes "given e rid (st d)" and "no_text_steps e (st d)"
    and "\<forall>x \<in> set steps. tracked rid x (st d) \<and> nested k steps x" and "length steps + k + 4 \<le> n"
    and "answers e"
  shows "\<exists>d'. execute_dag n e rid steps input d = Some (Inr (), d') \<and> active_runs (st d') rid = None"
proof -
  have "pending_steps rid steps (st d) \<le> length steps" by (simp add: pending_steps_def)
  with assms(4) have "pending_steps rid steps (st d) + k + 4 \<le> n" by simp
  from dag_loop_returns [OF assms(1-3) this assms(5)]
  have "pwp True (execute_dag n e rid steps input) (\<lambda>r s'. r = Inr () \<and> active_runs s' rid = None) (st d)"
    unfolding execute_dag_def by (auto intro!: pwp_bind_p pwp_returns wp_gets)
  from pwp_total [OF this] show ?thesis by auto
qed


section \<open>The order of the steps\<close>


















text \<open>
  A group starts its children whatever they depend on: for steps that differ in their dependencies only, it runs
  the same child.
\<close>

lemma groups_ignore_dependencies:
  "find_children (map (\<lambda>x. x\<lparr>depends_on := f x\<rparr>) steps) ids
     = map_sum id (map (\<lambda>x. x\<lparr>depends_on := f x\<rparr>)) (find_children steps ids)"
proof -
  have look: "find (\<lambda>s. ws_id s = i) (map (\<lambda>x. x\<lparr>depends_on := f x\<rparr>) steps)
      = map_option (\<lambda>x. x\<lparr>depends_on := f x\<rparr>) (find (\<lambda>s. ws_id s = i) steps)" for i
    by (induction steps) auto
  have "try_fold (\<lambda>acc i. and_then (ok_or (NotFound (''Parallel step '' @ i @ '' not found in workflow''))
          (find (\<lambda>s. ws_id s = i) (map (\<lambda>x. x\<lparr>depends_on := f x\<rparr>) steps))) (\<lambda>sub. Inr (acc @ [sub])))
        (map (\<lambda>x. x\<lparr>depends_on := f x\<rparr>) acc) ids
      = map_sum id (map (\<lambda>x. x\<lparr>depends_on := f x\<rparr>)) (try_fold (\<lambda>acc i. and_then
          (ok_or (NotFound (''Parallel step '' @ i @ '' not found in workflow'')) (find (\<lambda>s. ws_id s = i) steps))
          (\<lambda>sub. Inr (acc @ [sub]))) acc ids)" for acc
  proof (induction ids arbitrary: acc)
    case (Cons i ids)
    from Cons.IH [of "acc @ [the (find (\<lambda>s. ws_id s = i) steps)]"] show ?case
      by (cases "find (\<lambda>s. ws_id s = i) steps") (simp_all add: look ok_or_def and_then_def)
  qed simp
  from this [of "[]"] show ?thesis by (simp add: find_children_def)
qed

section \<open>What a stored workflow does\<close>

definition finished_row :: "wf_env \<Rightarrow> nat \<Rightarrow> string \<Rightarrow> int \<Rightarrow> json \<Rightarrow> run_row" where
  "finished_row e n wid tenant input = \<lparr>rr_id = wf_uuid e n, rr_workflow = wid, rr_tenant = tenant, rr_status = ''completed'',
     rr_input = input, rr_output = Some (JObject [(''$input'', input)]), rr_steps = JObject [], rr_error = None,
     rr_started = wf_clock e (Suc n), rr_completed = Some (wf_clock e (Suc n))\<rparr>"

text \<open>
  No stored workflow executes a step. The steps come back from their \<open>jsonb\<close> column as an array, the engine
  asks for a string and goes on with none: a run of any enabled workflow succeeds at once, without a call to
  the outside, its row says \<open>completed\<close> with its own input as the output, and what is returned has no steps.
\<close>

theorem stored_steps_never_run:
  assumes "no_text_steps e s" and "\<exists>w \<in> set (wf_rows s). wr_id w = wid \<and> wr_tenant w = tenant \<and> wr_enabled w"
    and "\<forall>r \<in> set (wf_runs s). rr_id r \<noteq> wf_uuid e (wf_ticks s)"
    and "\<forall>v \<in> {input, JObject [], JObject [(''$input'', input)]}. wf_jsonb e (wf_to_text e v) = Some v"
  shows "\<exists>run s'. start_run (Suc (Suc n)) e wid tenant input (up s) = Some (Inr run, up s') \<and> step_states run = [] \<and>
    wf_runs s' = wf_runs s @ [finished_row e (wf_ticks s) wid tenant input] \<and> wf_ticks s' = Suc (wf_ticks s)"
proof -
  obtain w ws where w: "filter (\<lambda>r. wr_id r = wid \<and> wr_tenant r = tenant \<and> wr_enabled r) (wf_rows s) = w # ws"
    using assms(2) by (cases "filter (\<lambda>r. wr_id r = wid \<and> wr_tenant r = tenant \<and> wr_enabled r) (wf_rows s)")
      (auto simp: filter_empty_conv)
  then have "w \<in> set (wf_rows s)" by (metis filter_is_subset list.set_intros(1) subsetD)
  with assms(1) have w': "load_steps e (json_row (wf_parse_json e) (wf_base64 e)
      [(''steps'', cell_jsonb (wr_steps w)), (''config'', cell_jsonb (wr_config w))]) = []"
    by (auto simp: no_text_steps_def intro: load_no_steps)
  define run where "run = new_run e (wf_ticks s) wid tenant input []"
  have run [simp]: "run_id run = wf_uuid e (wf_ticks s)" "step_states run = []" "run_input run = input"
    "run_workflow run = wid" "run_tenant run = tenant"
    by (simp_all add: run_def new_run_def initial_states_def)
  define row where "row = (finished_row e (wf_ticks s) wid tenant input)\<lparr>rr_status := ''running'', rr_output := None, rr_completed := None\<rparr>"
  define s1 where "s1 = s\<lparr>wf_ticks := Suc (wf_ticks s), wf_runs := wf_runs s @ [row], active_runs := (active_runs s)(run_id run \<mapsto> run)\<rparr>"
  have begin_up: "begin_run e wid tenant input (up s) = (Inr (run, []), up s1)"
    using assms(3,4) w w'
    by (auto simp: begin_run_def outside_def insert_run_def bound_jsonb_def obj_of_def run_def [symmetric] s1_def row_def
        finished_row_def)
  define s2 where "s2 = s1\<lparr>wf_runs := wf_runs s @ [finished_row e (wf_ticks s) wid tenant input], active_runs := (active_runs s1)(run_id run := None)\<rparr>"
  have ids: "map (\<lambda>r. if rr_id r = wf_uuid e (wf_ticks s) then f r else r) (wf_runs s) = wf_runs s" for f
    by (rule map_idI) (use assms(3) in auto)
  have complete: "complete_run e (run_id run) Completed (Some (JObject [(''$input'', input)])) (up s1) = (Inr (), up s2)"
    using assms(4)
    by (simp add: complete_run_def bound_jsonb_def finish_row_def s1_def s2_def ids row_def finished_row_def)
  have round: "dag_round e f (run_id run) [] [(''$input'', input)] (up s1) = Some (Inr (True, [(''$input'', input)]), up s2)" for f
    using complete by (simp add: dag_round_def ready_steps_def all_done_def obj_of_def)
  have "dag_loop (Suc n) e (run_id run) t [] [(''$input'', input)] (up s1) = Some (Inr (), up s2)" for t
    using round by simp
  then have "start_run (Suc (Suc n)) e wid tenant input (up s) = Some (Inr run, up s2)"
    using begin_up by (simp del: dag_loop.simps run)
  then show ?thesis by (intro exI [of _ run] exI [of _ s2]) (simp add: s2_def s1_def)
qed

text \<open>
  A workflow belongs to whoever names it last: the statement that stores a workflow resolves a conflict on the
  identifier alone, so a tenant that stores a workflow under the identifier of another tenant's replaces its
  name, steps, triggers and configuration, and the row stays with its owner, whose next run uses them.
\<close>

theorem upsert_replaces_foreign_workflow:
  assumes "wf_jsonb e (wf_steps_text e (wf_steps w)) = Some steps" and "wf_jsonb e (wf_triggers_text e (wf_triggers w)) = Some triggers"
    and "wf_jsonb e (wf_config_text e (wf_config w)) = Some config" and "wf_bool e (if wf_enabled w then ''true'' else ''false'') = Some on"
    and "r \<in> set (wf_rows s)" and "wr_id r = wf_id w"
  shows "\<exists>s'. upsert_workflow e now w (up s) = (Inr (), up s') \<and>
    r\<lparr>wr_name := wf_name w, wr_description := wf_description w, wr_steps := steps, wr_triggers := triggers,
      wr_config := config, wr_version := wr_version r + 1, wr_enabled := on\<rparr> \<in> set (wf_rows s') \<and>
    map (\<lambda>r. (wr_id r, wr_tenant r)) (wf_rows s') = map (\<lambda>r. (wr_id r, wr_tenant r)) (wf_rows s)"
proof -
  have "\<exists>r \<in> set (wf_rows s). wr_id r = wf_id w" using assms(5,6) by blast
  then show ?thesis
    using assms
    by (auto simp: upsert_workflow_def bound_jsonb_def intro!: image_eqI [where x = r])
qed

section \<open>Witnesses\<close>

definition demo_jsonb :: "string \<Rightarrow> json option" where
  "demo_jsonb t = (if t = ''null'' then Some JNull else if t = ''{}'' then Some (JObject [])
     else if t = ''i'' then Some (JObject [(''$input'', JNull)]) else if t = ''[]'' then Some (JArray []) else None)"

definition demo_text :: "json \<Rightarrow> string" where
  "demo_text v = (if v = JNull then ''null'' else if v = JObject [(''$input'', JNull)] then ''i'' else ''{}'')"

definition demo_wf_env :: wf_env where
  "demo_wf_env = \<lparr>wf_parse_steps = (\<lambda>t. if t = ''[]'' then Some [] else None), wf_steps_text = (\<lambda>_. ''[]''),
     wf_triggers_text = (\<lambda>_. ''[]''), wf_config_text = (\<lambda>_. ''{}''), wf_to_text = demo_text, wf_parse_json = demo_jsonb,
     wf_base64 = id, wf_jsonb = demo_jsonb, wf_bool = (\<lambda>t. Some (t = ''true'')), wf_uuid = (\<lambda>n. replicate n (CHR ''u'')),
     wf_clock = (\<lambda>_. ''now''), wf_http = (\<lambda>_ _. Some (Inl ''offline'')), wf_js = (\<lambda>_ _. Some (Inl ''no engine''))\<rparr>"

definition demo_retry :: retry_config where
  "demo_retry = \<lparr>max_retries = 3, initial_delay_ms = 1000, backoff_multiplier = 0x4000000000000000, max_delay_ms = 60000\<rparr>"

definition demo_step :: "string \<Rightarrow> string list \<Rightarrow> workflow_step" where
  "demo_step i deps = \<lparr>ws_id = i, ws_name = i, step_type = Delay 1, ws_config = JNull, depends_on = deps, condition = None,
     ws_retry = demo_retry, timeout_secs = 0\<rparr>"

definition demo_steps :: "workflow_step list" where
  "demo_steps = [demo_step ''b'' [''a''], demo_step ''a'' []]"

definition demo_workflow :: workflow where
  "demo_workflow = \<lparr>wf_id = ''w'', wf_tenant = 2, wf_name = ''mine'', wf_description = [], wf_steps = demo_steps, wf_triggers = [Manual],
     wf_config = \<lparr>max_duration_secs = 3600, concurrency_limit = 10, on_failure = StopAll\<rparr>, wf_version = 1, wf_enabled = True, wf_created = []\<rparr>"

definition demo_row :: workflow_row where
  "demo_row = \<lparr>wr_id = ''w'', wr_tenant = 1, wr_name = ''theirs'', wr_description = [], wr_steps = JArray [JNull], wr_triggers = JArray [],
     wr_config = JObject [], wr_version = 1, wr_enabled = True, wr_created = ''now''\<rparr>"

text \<open>A tenant with one workflow, and a run of \<open>demo_steps\<close> in memory under the first identifier.\<close>

definition demo_wf_db :: wf_db where
  "demo_wf_db = \<lparr>wf_rows = [demo_row], wf_runs = [], wf_functions = [], wf_agents = None,
     active_runs = [[] \<mapsto> new_run demo_wf_env 0 ''w'' 1 JNull demo_steps], wf_ticks = 1\<rparr>"

lemma demo_env_simps [simp]:
  "wf_parse_steps demo_wf_env = (\<lambda>t. if t = ''[]'' then Some [] else None)" "wf_steps_text demo_wf_env = (\<lambda>_. ''[]'')"
  "wf_triggers_text demo_wf_env = (\<lambda>_. ''[]'')" "wf_config_text demo_wf_env = (\<lambda>_. ''{}'')" "wf_to_text demo_wf_env = demo_text"
  "wf_jsonb demo_wf_env = demo_jsonb" "wf_bool demo_wf_env = (\<lambda>t. Some (t = ''true''))"
  "wf_uuid demo_wf_env = (\<lambda>n. replicate n (CHR ''u''))"
  by (simp_all add: demo_wf_env_def)

lemma demo_given: "given demo_wf_env [] demo_wf_db"
  by (auto simp: given_def demo_wf_db_def inj_def intro!: exI [of _ 0] dest: arg_cong [of _ _ length])

lemma demo_no_text: "no_text_steps demo_wf_env demo_wf_db"
  by (simp add: no_text_steps_def demo_wf_db_def demo_row_def)

lemma demo_tracked: "x \<in> set demo_steps \<Longrightarrow> tracked [] x demo_wf_db \<and> nested 0 demo_steps x"
  by (auto simp: tracked_def demo_wf_db_def demo_steps_def new_run_def initial_states_def demo_step_def Let_def)

theorem failed_and_cancelled_never_stored_witness:
  "\<exists>r d'. start_run 5 demo_wf_env ''w'' 1 JNull (up demo_wf_db) = Some (r, d') \<and> running_or_completed (st d')"
proof -
  have five: "5 = Suc (Suc (3::nat))" by simp
  have "pwp True (start_run 5 demo_wf_env ''w'' 1 JNull) (\<lambda>_ s'. wf_rows s' = wf_rows demo_wf_db) (st (up demo_wf_db))"
    unfolding five st_up by (rule start_run_returns [OF demo_no_text])
  from pwp_total [OF this]
  obtain r d' where run: "start_run 5 demo_wf_env ''w'' 1 JNull (up demo_wf_db) = Some (r, d')" by blast
  moreover have "running_or_completed (st d')"
    using failed_and_cancelled_never_stored [of demo_wf_env "up demo_wf_db" 5 "''w''" 1 JNull] run
    by (simp add: demo_jsonb_def running_or_completed_def demo_wf_db_def del: start_run.simps)
  ultimately show ?thesis by blast
qed

theorem cancelled_run_never_stops_witness:
  "execute_dag 100 demo_wf_env [] demo_steps JNull (snd (cancel_run demo_wf_env [] (up demo_wf_db))) = None"
  using cancelled_run_never_stops [of demo_wf_env "[]" "up demo_wf_db" _ "snd (cancel_run demo_wf_env [] (up demo_wf_db))"
      "demo_step ''a'' []" demo_steps 100 1 "[]" JNull, OF _ prod.collapse [symmetric]] demo_given
  by (simp add: demo_steps_def demo_step_def)

theorem execute_dag_returns_witness:
  "\<exists>d'. execute_dag 6 demo_wf_env [] demo_steps JNull (up demo_wf_db) = Some (Inr (), d') \<and> active_runs (st d') [] = None"
  by (rule execute_dag_returns [of _ _ _ _ 0]) (use demo_given demo_no_text demo_tracked in \<open>auto simp: demo_steps_def answers_def demo_wf_env_def\<close>)

theorem stored_steps_never_run_witness:
  "\<exists>run s'. start_run 2 demo_wf_env ''w'' 1 JNull (up demo_wf_db) = Some (Inr run, up s') \<and>
     wf_runs s' = [finished_row demo_wf_env 1 ''w'' 1 JNull]"
  using stored_steps_never_run [OF demo_no_text, of "''w''" 1 JNull 0]
  by (auto simp: demo_wf_db_def demo_row_def demo_text_def demo_jsonb_def numeral_2_eq_2 simp del: start_run.simps)

theorem upsert_replaces_foreign_workflow_witness:
  "\<exists>s'. upsert_workflow demo_wf_env ''now'' demo_workflow (up demo_wf_db) = (Inr (), up s') \<and> map wr_name (wf_rows s') = [''mine'']
     \<and> map wr_tenant (wf_rows s') = [1] \<and> wf_tenant demo_workflow = 2"
proof -
  from upsert_replaces_foreign_workflow [of demo_wf_env demo_workflow "JArray []" "JArray []" "JObject []" True demo_row demo_wf_db "''now''"]
  obtain s' where s': "upsert_workflow demo_wf_env ''now'' demo_workflow (up demo_wf_db) = (Inr (), up s')"
    "demo_row\<lparr>wr_name := ''mine'', wr_description := [], wr_steps := JArray [], wr_triggers := JArray [], wr_config := JObject [],
       wr_version := 2, wr_enabled := True\<rparr> \<in> set (wf_rows s')"
    "map (\<lambda>r. (wr_id r, wr_tenant r)) (wf_rows s') = [(''w'', 1)]"
    by (auto simp: demo_jsonb_def demo_workflow_def demo_wf_db_def demo_row_def)
  from s'(3) obtain r where "wf_rows s' = [r]" "wr_tenant r = 1" by auto
  with s' show ?thesis by (auto simp: demo_workflow_def demo_row_def)
qed



end
