(* ===== verification/Entitlements.thy ===== *)
theory Entitlements imports Json "HOL-Library.Multiset" begin

text \<open>
  What a customer is entitled to (\<open>src/src/billing/entitlements.rs\<close>) and which variant of an experiment a
  customer sees (\<open>src/src/billing/experiments.rs\<close>), with the types of \<open>src/src/billing/models.rs\<close> they read.
  A point in time is an integer. The hash that picks the bucket is a parameter; the z-test, which computes
  with doubles, is not modelled.
\<close>

section \<open>Types\<close>

record product =
  p_id :: int
  p_app_id :: int
  p_store :: string
  store_product_id :: string
  product_type :: string
  p_period :: "string option"
  price_micros :: "int option"
  p_currency :: "string option"
  p_metadata :: json

record entitlement =
  e_id :: int
  e_app_id :: int
  e_identifier :: string
  e_display_name :: "string option"

record subscription =
  s_id :: int
  s_customer_id :: int
  s_product_id :: "int option"
  s_store :: string
  original_transaction_id :: "string option"
  current_period_start :: "int option"
  current_period_end :: "int option"
  s_status :: string
  auto_renew :: bool
  unsubscribe_detected_at :: "int option"
  billing_issues_detected_at :: "int option"
  grace_period_expires_at :: "int option"
  is_trial :: bool
  s_updated_at :: int

record entitlement_info =
  i_identifier :: string
  is_active :: bool
  will_renew :: bool
  period_type :: string
  latest_purchase_date :: "int option"
  expires_date :: "int option"
  grace_period_expires_date :: "int option"
  i_store :: string
  product_identifier :: "string option"

record variant =
  v_id :: int
  v_experiment_id :: int
  v_identifier :: string
  v_offering_id :: int
  is_control :: bool
  traffic_weight :: int

section \<open>The resolver\<close>

text \<open>A subscription without an end of its period does not expire.\<close>

definition runs :: "int \<Rightarrow> subscription \<Rightarrow> bool" where
  "runs now s = (case current_period_end s of None \<Rightarrow> True | Some t \<Rightarrow> t > now)"

definition is_more_relevant :: "subscription option \<Rightarrow> subscription \<Rightarrow> int \<Rightarrow> bool" where
  "is_more_relevant current candidate now =
     (case current of
        None \<Rightarrow> True
      | Some cur \<Rightarrow>
          (if runs now candidate \<noteq> runs now cur then runs now candidate
           else (case (current_period_end candidate, current_period_end cur) of
               (Some a, Some b) \<Rightarrow> a > b
             | (Some _, None) \<Rightarrow> True
             | _ \<Rightarrow> False)))"

text \<open>The loop over the subscriptions, for the products of one entitlement.\<close>

fun best_from :: "int list \<Rightarrow> int \<Rightarrow> subscription option \<Rightarrow> subscription list \<Rightarrow> subscription option" where
  "best_from pids now best [] = best"
| "best_from pids now best (sub # subs) =
     (case s_product_id sub of
        None \<Rightarrow> best_from pids now best subs
      | Some pid \<Rightarrow>
          if pid \<notin> set pids then best_from pids now best subs
          else best_from pids now (if is_more_relevant best sub now then Some sub else best) subs)"

definition in_grace :: "int \<Rightarrow> subscription \<Rightarrow> bool" where
  "in_grace now s = (case grace_period_expires_at s of None \<Rightarrow> False | Some g \<Rightarrow> g > now)"

text \<open>The index is collected into a map: of products with one id the last one counts.\<close>

definition info_of :: "product list \<Rightarrow> int \<Rightarrow> entitlement \<Rightarrow> subscription option \<Rightarrow> entitlement_info" where
  "info_of products now ent best =
     (case best of
        None \<Rightarrow> \<lparr>i_identifier = e_identifier ent, is_active = False, will_renew = False, period_type = ''normal'',
          latest_purchase_date = None, expires_date = None, grace_period_expires_date = None, i_store = ''unknown'',
          product_identifier = None\<rparr>
      | Some s \<Rightarrow>
          (let expired = (case current_period_end s of None \<Rightarrow> False | Some t \<Rightarrow> t \<le> now)
           in \<lparr>i_identifier = e_identifier ent, is_active = (\<not> expired \<or> in_grace now s), will_renew = auto_renew s,
             period_type = (if is_trial s then ''trial'' else if in_grace now s then ''grace'' else ''normal''),
             latest_purchase_date = current_period_start s, expires_date = current_period_end s,
             grace_period_expires_date = grace_period_expires_at s, i_store = s_store s,
             product_identifier = Option.bind (s_product_id s)
               (\<lambda>pid. map_option store_product_id (find (\<lambda>p. p_id p = pid) (rev products)))\<rparr>))"

definition resolve :: "(entitlement \<times> int list) list \<Rightarrow> subscription list \<Rightarrow> product list \<Rightarrow> int \<Rightarrow> entitlement_info list" where
  "resolve entitlements subs products now =
     map (\<lambda>(ent, pids). info_of products now ent (best_from pids now None subs)) entitlements"

subsection \<open>What the resolver computes\<close>

definition covers :: "int list \<Rightarrow> subscription \<Rightarrow> bool" where
  "covers pids s = (case s_product_id s of None \<Rightarrow> False | Some pid \<Rightarrow> pid \<in> set pids)"

text \<open>The order in which the best subscription is chosen: a rank, compared lexicographically.\<close>

definition rank :: "int \<Rightarrow> subscription \<Rightarrow> nat \<times> nat \<times> int" where
  "rank now s = (if runs now s then 1 else 0, case current_period_end s of None \<Rightarrow> (0, 0) | Some t \<Rightarrow> (1, t))"

definition rank_less :: "nat \<times> nat \<times> int \<Rightarrow> nat \<times> nat \<times> int \<Rightarrow> bool" where
  "rank_less a b \<longleftrightarrow> fst a < fst b \<or> fst a = fst b \<and> (fst (snd a) < fst (snd b) \<or> fst (snd a) = fst (snd b) \<and> snd (snd a) < snd (snd b))"

lemma is_more_relevant_rank: "is_more_relevant (Some cur) cand now \<longleftrightarrow> rank_less (rank now cur) (rank now cand)"
  by (auto simp: is_more_relevant_def rank_less_def rank_def runs_def split: option.splits)

lemma rank_less_linear: "\<not> rank_less a b \<Longrightarrow> \<not> rank_less b c \<Longrightarrow> \<not> rank_less a c"
  "\<not> rank_less a a" "rank_less a b \<Longrightarrow> rank_less b c \<Longrightarrow> rank_less a c" "rank_less a b \<Longrightarrow> \<not> rank_less b a"
  by (auto simp: rank_less_def)

lemma best_from_spec:
  "(case best_from pids now best subs of
      None \<Rightarrow> best = None \<and> (\<forall>s \<in> set subs. \<not> covers pids s)
    | Some b \<Rightarrow> (best = Some b \<or> b \<in> set subs \<and> covers pids b) \<and>
        (\<forall>s \<in> set subs. covers pids s \<longrightarrow> \<not> rank_less (rank now b) (rank now s)) \<and>
        (\<forall>b0. best = Some b0 \<longrightarrow> \<not> rank_less (rank now b) (rank now b0)))"
proof (induction subs arbitrary: best)
  case Nil
  show ?case by (cases best) (simp_all add: rank_less_linear(2))
next
  case (Cons s subs)
  show ?case
  proof (cases "covers pids s")
    case False
    then have "best_from pids now best (s # subs) = best_from pids now best subs"
      by (auto simp: covers_def split: option.splits)
    with Cons.IH [of best] False show ?thesis by (auto split: option.splits)
  next
    case True
    define best' where "best' = (if is_more_relevant best s now then Some s else best)"
    from True have step: "best_from pids now best (s # subs) = best_from pids now best' subs"
      by (auto simp: covers_def best'_def split: option.splits)
    have "\<exists>b1. best' = Some b1 \<and> (b1 = s \<or> best = Some b1) \<and> \<not> rank_less (rank now b1) (rank now s) \<and>
      (\<forall>b0. best = Some b0 \<longrightarrow> \<not> rank_less (rank now b1) (rank now b0))"
    proof (cases best)
      case None
      then show ?thesis by (simp add: best'_def is_more_relevant_def rank_less_linear(2))
    next
      case (Some b0)
      then show ?thesis
        using rank_less_linear(4) by (simp add: best'_def is_more_relevant_rank rank_less_linear(2))
    qed
    then obtain b1 where b1: "best' = Some b1" "b1 = s \<or> best = Some b1" "\<not> rank_less (rank now b1) (rank now s)"
      "\<forall>b0. best = Some b0 \<longrightarrow> \<not> rank_less (rank now b1) (rank now b0)" by blast
    show ?thesis
    proof (cases "best_from pids now best' subs")
      case None
      with Cons.IH [of best'] b1(1) show ?thesis by simp
    next
      case (Some b)
      with Cons.IH [of best'] b1(1) have b: "b = b1 \<or> b \<in> set subs \<and> covers pids b"
        "\<forall>s \<in> set subs. covers pids s \<longrightarrow> \<not> rank_less (rank now b) (rank now s)"
        "\<not> rank_less (rank now b) (rank now b1)" by auto
      from rank_less_linear(1) [OF b(3)] b1(3,4)
      have later: "\<not> rank_less (rank now b) (rank now s)" "\<forall>b0. best = Some b0 \<longrightarrow> \<not> rank_less (rank now b) (rank now b0)"
        by blast+
      from b(1) b1(2) True have "best = Some b \<or> b \<in> set (s # subs) \<and> covers pids b" by auto
      with b(2) later Some step show ?thesis by simp
    qed
  qed
qed

lemma best_None: "best_from pids now None subs = None \<Longrightarrow> s \<in> set subs \<Longrightarrow> \<not> covers pids s"
  using best_from_spec [where pids = pids and now = now and best = None and subs = subs] by simp

lemma best_Some:
  assumes "best_from pids now None subs = Some b"
  shows "b \<in> set subs" "covers pids b" "s \<in> set subs \<Longrightarrow> covers pids s \<Longrightarrow> \<not> rank_less (rank now b) (rank now s)"
  using best_from_spec [where pids = pids and now = now and best = None and subs = subs] assms by simp_all

lemma best_exists:
  assumes "s \<in> set subs" and "covers pids s"
  obtains b where "best_from pids now None subs = Some b" "b \<in> set subs" "covers pids b" "\<not> rank_less (rank now b) (rank now s)"
proof (cases "best_from pids now None subs")
  case None
  with assms best_None show thesis by blast
next
  case (Some b)
  show thesis by (rule that [OF Some]) (use best_Some [OF Some] assms in blast)+
qed

text \<open>
  An active entitlement is always backed by a subscription of the customer to one of its products that has not
  ended or is in its grace period, and the answers come one for one in the order of the entitlements. Where no
  subscription is in a grace period the converse holds too, so that the resolver is exact.
\<close>

theorem resolve_exact_without_grace:
  "map i_identifier (resolve ents subs products now) = map (e_identifier \<circ> fst) ents \<and>
   (\<forall>i < length ents. is_active (resolve ents subs products now ! i) \<longrightarrow>
      (\<exists>s \<in> set subs. covers (snd (ents ! i)) s \<and> (runs now s \<or> in_grace now s))) \<and>
   ((\<forall>s \<in> set subs. \<not> in_grace now s) \<longrightarrow> (\<forall>i < length ents. is_active (resolve ents subs products now ! i) \<longleftrightarrow>
      (\<exists>s \<in> set subs. covers (snd (ents ! i)) s \<and> runs now s)))"
proof (intro conjI allI impI)
  show "map i_identifier (resolve ents subs products now) = map (e_identifier \<circ> fst) ents"
    by (auto simp: resolve_def info_of_def Let_def split: option.split)
next
  fix i assume i: "i < length ents"
  obtain ent pids where ep: "ents ! i = (ent, pids)" by (cases "ents ! i")
  have active: "is_active (resolve ents subs products now ! i) \<longleftrightarrow>
      (\<exists>b. best_from pids now None subs = Some b \<and> (runs now b \<or> in_grace now b))"
    using i ep by (auto simp: resolve_def info_of_def runs_def split: option.split)
  {
    assume "is_active (resolve ents subs products now ! i)"
    with active obtain b where "best_from pids now None subs = Some b" "runs now b \<or> in_grace now b" by auto
    with best_Some [OF this(1)] ep show "\<exists>s \<in> set subs. covers (snd (ents ! i)) s \<and> (runs now s \<or> in_grace now s)"
      by auto
  } note sound = this
  assume none: "\<forall>s \<in> set subs. \<not> in_grace now s"
  show "is_active (resolve ents subs products now ! i) \<longleftrightarrow> (\<exists>s \<in> set subs. covers (snd (ents ! i)) s \<and> runs now s)"
  proof
    assume "is_active (resolve ents subs products now ! i)"
    from sound [OF this] none show "\<exists>s \<in> set subs. covers (snd (ents ! i)) s \<and> runs now s" by blast
  next
    assume "\<exists>s \<in> set subs. covers (snd (ents ! i)) s \<and> runs now s"
    then obtain s where s: "s \<in> set subs" "covers pids s" "runs now s" using ep by auto
    from s(1,2) obtain b where b: "best_from pids now None subs = Some b" "\<not> rank_less (rank now b) (rank now s)"
      by (rule best_exists)
    with s(3) have "runs now b" by (auto simp: rank_less_def rank_def split: if_splits)
    with active b(1) show "is_active (resolve ents subs products now ! i)" by auto
  qed
qed

text \<open>
  The grace period of one subscription is lost to another one: when all subscriptions to the products of an
  entitlement have ended and the one that ended last is in no grace period, the entitlement is inactive
  although another is still in its grace period, since the choice of the subscription never looks at it.
\<close>

theorem grace_period_overlooked:
  assumes "\<forall>s \<in> set subs. covers pids s \<longrightarrow> \<not> runs now s \<and> (in_grace now s \<longrightarrow> s = a)"
    and "b \<in> set subs" and "covers pids b" and "\<not> in_grace now b"
    and "\<exists>ta tb. current_period_end a = Some ta \<and> current_period_end b = Some tb \<and> ta < tb"
  shows "\<not> is_active (resolve [(ent, pids)] subs products now ! 0)"
proof -
  from assms(2,3) obtain s where s: "best_from pids now None subs = Some s" "s \<in> set subs" "covers pids s"
    "\<not> rank_less (rank now s) (rank now b)" by (rule best_exists)
  have "s \<noteq> a"
  proof
    assume "s = a"
    from assms(5) obtain ta tb where t: "current_period_end a = Some ta" "current_period_end b = Some tb" "ta < tb" by blast
    from assms(1-3) s(2,3) \<open>s = a\<close> have "\<not> runs now a" "\<not> runs now b" by blast+
    with t have "rank now a = (0, 1, ta)" "rank now b = (0, 1, tb)" by (simp_all add: rank_def)
    with s(4) \<open>s = a\<close> t(3) show False by (simp add: rank_less_def)
  qed
  with s assms(1) have "\<not> runs now s" "\<not> in_grace now s" by auto
  with s(1) show ?thesis by (auto simp: resolve_def info_of_def runs_def split: option.splits)
qed

section \<open>Experiments\<close>

text \<open>\<open>as u64\<close>\<close>

definition as_u64_cast :: "int \<Rightarrow> int" where
  "as_u64_cast i = i mod 18446744073709551616"

fun walk_variants :: "nat \<Rightarrow> int \<Rightarrow> variant list \<Rightarrow> int option" where
  "walk_variants bucket cumulative_bp [] = None"
| "walk_variants bucket cumulative_bp (v # vs) =
     (let c = cumulative_bp + traffic_weight v * 100
      in if int bucket < as_u64_cast c then Some (v_id v) else walk_variants bucket c vs)"

definition variant_of_bucket :: "variant list \<Rightarrow> nat \<Rightarrow> int option" where
  "variant_of_bucket variants bucket =
     (if variants = [] then None
      else (let ordered = sort_key v_id variants
            in case walk_variants bucket 0 ordered of Some i \<Rightarrow> Some i | None \<Rightarrow> Some (v_id (last ordered))))"

text \<open>\<open>digest\<close> is the number read off the first eight bytes of the hash of the two identifiers.\<close>

definition assign_variant :: "(int \<Rightarrow> int \<Rightarrow> nat) \<Rightarrow> int \<Rightarrow> int \<Rightarrow> variant list \<Rightarrow> int option" where
  "assign_variant digest experiment_id customer_id variants =
     variant_of_bucket variants (digest experiment_id customer_id mod 10000)"

definition weights :: "variant list \<Rightarrow> int" where
  "weights vs = sum_list (map traffic_weight vs)"

lemma weights_simps [simp]: "weights [] = 0" "weights (v # vs) = traffic_weight v + weights vs"
  by (simp_all add: weights_def)

lemma weights_nonneg: "\<forall>v \<in> set vs. 0 \<le> traffic_weight v \<Longrightarrow> 0 \<le> weights vs"
  by (induction vs) auto

lemma walk_skips:
  assumes "\<forall>v \<in> set xs. 0 \<le> traffic_weight v" and "0 \<le> c" and "c + 100 * weights xs \<le> int b" and "b < 10000"
  shows "walk_variants b c (xs @ ys) = walk_variants b (c + 100 * weights xs) ys"
  using assms
proof (induction xs arbitrary: c)
  case (Cons x xs)
  from Cons.prems have w: "0 \<le> weights xs" by (intro weights_nonneg) simp
  have "c + traffic_weight x * 100 \<le> int b" using Cons.prems(3) w by simp
  then have skip: "\<not> int b < as_u64_cast (c + traffic_weight x * 100)"
    using Cons.prems(1,2,4) by (simp add: as_u64_cast_def)
  have "walk_variants b (c + traffic_weight x * 100) (xs @ ys) = walk_variants b (c + traffic_weight x * 100 + 100 * weights xs) ys"
    by (rule Cons.IH) (use Cons.prems in auto)
  with skip show ?case by (simp add: Let_def algebra_simps)
qed simp

lemma walk_hits:
  assumes "\<forall>v \<in> set (xs @ v # ys). 0 \<le> traffic_weight v" and "weights (xs @ v # ys) \<le> 100"
    and "100 * weights xs \<le> int b" and "int b < 100 * weights xs + 100 * traffic_weight v"
  shows "walk_variants b 0 (xs @ v # ys) = Some (v_id v)"
proof -
  have w: "0 \<le> weights xs" "0 \<le> weights ys" "weights (xs @ v # ys) = weights xs + traffic_weight v + weights ys"
    using assms(1) weights_nonneg [of xs] weights_nonneg [of ys] by (auto simp: weights_def)
  with assms(2,4) have b: "b < 10000" by simp
  have "walk_variants b 0 (xs @ v # ys) = walk_variants b (100 * weights xs) (v # ys)"
    using walk_skips [of xs 0 b "v # ys"] assms(1,3) b by simp
  moreover have "int b < as_u64_cast (100 * weights xs + traffic_weight v * 100)"
    using assms(2,4) w by (simp add: as_u64_cast_def)
  ultimately show ?thesis by (simp add: Let_def)
qed

lemma interval_exists:
  "\<forall>v \<in> set vs. 0 \<le> traffic_weight v \<Longrightarrow> 0 \<le> int b \<Longrightarrow> c \<le> int b \<Longrightarrow> int b < c + 100 * weights vs \<Longrightarrow>
   \<exists>xs w ys. vs = xs @ w # ys \<and> c + 100 * weights xs \<le> int b \<and> int b < c + 100 * weights xs + 100 * traffic_weight w"
proof (induction vs arbitrary: c)
  case (Cons v vs)
  show ?case
  proof (cases "int b < c + 100 * traffic_weight v")
    case True
    with Cons.prems show ?thesis by (intro exI [of _ "[]"] exI [of _ v] exI [of _ vs]) simp
  next
    case False
    have "\<exists>xs w ys. vs = xs @ w # ys \<and> (c + 100 * traffic_weight v) + 100 * weights xs \<le> int b \<and>
        int b < (c + 100 * traffic_weight v) + 100 * weights xs + 100 * traffic_weight w"
      by (rule Cons.IH) (use Cons.prems False in \<open>auto simp: algebra_simps\<close>)
    then obtain xs w ys where "vs = xs @ w # ys" "(c + 100 * traffic_weight v) + 100 * weights xs \<le> int b"
      "int b < (c + 100 * traffic_weight v) + 100 * weights xs + 100 * traffic_weight w" by blast
    then show ?thesis
      by (intro exI [of _ "v # xs"] exI [of _ w] exI [of _ ys]) (simp add: algebra_simps)
  qed
qed simp

lemma unique_split: "distinct (map f (xs @ v # ys)) \<Longrightarrow> xs @ v # ys = xs' @ v # ys' \<Longrightarrow> xs = xs'"
proof -
  assume d: "distinct (map f (xs @ v # ys))" and eq: "xs @ v # ys = xs' @ v # ys'"
  from d have "v \<notin> set xs" by auto
  moreover have "distinct (map f (xs' @ v # ys'))" using d by (simp only: eq)
  then have "v \<notin> set xs'" by auto
  moreover have "takeWhile (\<lambda>z. z \<noteq> v) (us @ v # vs) = us" if "v \<notin> set us" for us vs
    using that by (induction us) auto
  ultimately have "takeWhile (\<lambda>z. z \<noteq> v) (xs @ v # ys) = xs" "takeWhile (\<lambda>z. z \<noteq> v) (xs' @ v # ys') = xs'"
    by blast+
  with eq show ?thesis by simp
qed

text \<open>The buckets of one variant are an interval.\<close>

lemma walk_interval:
  assumes vs: "vs = xs @ v # ys" and d: "distinct (map v_id vs)" and w: "\<forall>v \<in> set vs. 0 \<le> traffic_weight v" "weights vs = 100"
    and b: "b < 10000"
  shows "walk_variants b 0 vs = Some (v_id v) \<longleftrightarrow> 100 * weights xs \<le> int b \<and> int b < 100 * weights xs + 100 * traffic_weight v"
    and "\<exists>w \<in> set vs. walk_variants b 0 vs = Some (v_id w)"
proof -
  obtain xs' u ys' where u: "vs = xs' @ u # ys'" "100 * weights xs' \<le> int b"
    "int b < 100 * weights xs' + 100 * traffic_weight u"
    using interval_exists [of vs b 0] w b by auto
  then have hit: "walk_variants b 0 vs = Some (v_id u)" using walk_hits [of xs' u ys' b] w by simp
  then show "\<exists>w \<in> set vs. walk_variants b 0 vs = Some (v_id w)" using u(1) by auto
  show "walk_variants b 0 vs = Some (v_id v) \<longleftrightarrow> 100 * weights xs \<le> int b \<and> int b < 100 * weights xs + 100 * traffic_weight v"
  proof
    assume "walk_variants b 0 vs = Some (v_id v)"
    with hit have "v_id u = v_id v" by simp
    with d u(1) vs have "u = v" by (metis in_set_conv_decomp distinct_map inj_onD)
    with d u(1) vs have "xs' = xs" using unique_split [of v_id xs v ys xs' ys'] by simp
    with u \<open>u = v\<close> show "100 * weights xs \<le> int b \<and> int b < 100 * weights xs + 100 * traffic_weight v" by simp
  next
    assume "100 * weights xs \<le> int b \<and> int b < 100 * weights xs + 100 * traffic_weight v"
    then show "walk_variants b 0 vs = Some (v_id v)" using walk_hits [of xs v ys b] w vs by simp
  qed
qed

lemma card_interval: "0 \<le> a \<Longrightarrow> 0 \<le> w \<Longrightarrow> card {b. a \<le> int b \<and> int b < a + w} = nat w"
proof -
  assume "0 \<le> a" "0 \<le> w"
  then have "{b. a \<le> int b \<and> int b < a + w} = {nat a ..< nat a + nat w}" by auto
  then show ?thesis by simp
qed

lemma weights_sort: "weights (sort_key v_id vs) = weights vs"
  by (simp add: weights_def flip: sum_mset_sum_list)

text \<open>
  Where the weights of the variants are percentages that add up to a hundred, each variant gets exactly its
  share of the ten thousand buckets, and every customer sees one of the variants, the same one whatever the
  order in which they are given.
\<close>

theorem variants_get_their_share:
  assumes "distinct (map v_id variants)" and "\<forall>v \<in> set variants. 0 \<le> traffic_weight v" and "weights variants = 100"
    and "v \<in> set variants"
  shows "card {b. b < 10000 \<and> variant_of_bucket variants b = Some (v_id v)} = 100 * nat (traffic_weight v) \<and>
    (\<exists>w \<in> set variants. assign_variant digest experiment customer variants = Some (v_id w)) \<and>
    (\<forall>vs. set vs = set variants \<and> distinct (map v_id vs) \<longrightarrow>
       assign_variant digest experiment customer vs = assign_variant digest experiment customer variants)"
proof (intro conjI allI impI)
  let ?vs = "sort_key v_id variants"
  have d: "distinct (map v_id ?vs)" using assms(1) by (metis distinct_map set_sort distinct_sort inj_on_def)
  have w: "\<forall>v \<in> set ?vs. 0 \<le> traffic_weight v" "weights ?vs = 100" using assms(2,3) by (simp_all add: weights_sort)
  have ne: "variants \<noteq> []" using assms(4) by auto
  from assms(4) have "v \<in> set ?vs" by simp
  then obtain xs ys where vs: "?vs = xs @ v # ys" by (meson split_list)
  have walk: "variant_of_bucket variants b = walk_variants b 0 ?vs" if "b < 10000" for b
    using walk_interval(2) [OF vs d w that] ne by (auto simp: variant_of_bucket_def Let_def)
  have nn: "0 \<le> weights xs" "0 \<le> traffic_weight v" "0 \<le> weights ys" using w(1) weights_nonneg [of xs] weights_nonneg [of ys] vs by auto
  have total: "weights xs + traffic_weight v + weights ys = 100" using w(2) vs by (simp add: weights_def)
  have "{b. b < 10000 \<and> variant_of_bucket variants b = Some (v_id v)} =
      {b. 100 * weights xs \<le> int b \<and> int b < 100 * weights xs + 100 * traffic_weight v}"
    using walk_interval(1) [OF vs d w] walk nn total by auto
  then show "card {b. b < 10000 \<and> variant_of_bucket variants b = Some (v_id v)} = 100 * nat (traffic_weight v)"
    using card_interval [of "100 * weights xs" "100 * traffic_weight v"] nn by (simp add: nat_mult_distrib)
  have "digest experiment customer mod 10000 < 10000" by simp
  from walk_interval(2) [OF vs d w this] walk [OF this]
  show "\<exists>w \<in> set variants. assign_variant digest experiment customer variants = Some (v_id w)"
    by (auto simp: assign_variant_def)
next
  fix vs assume vs: "set vs = set variants \<and> distinct (map v_id vs)"
  with assms(1) have "mset vs = mset variants" by (metis set_eq_iff_mset_eq_distinct distinct_map)
  moreover have "inj_on v_id (set variants)" using assms(1) by (simp add: distinct_map)
  ultimately have "sort_key v_id variants = sort_key v_id vs"
    by (intro sort_key_inj_key_eq) simp_all
  moreover have "vs = [] \<longleftrightarrow> variants = []" using vs by auto
  ultimately show "assign_variant digest experiment customer vs = assign_variant digest experiment customer variants"
    by (simp add: assign_variant_def variant_of_bucket_def)
qed


section \<open>Witnesses\<close>

definition demo_sub :: "int \<Rightarrow> int \<Rightarrow> int option \<Rightarrow> subscription" where
  "demo_sub i t grace = \<lparr>s_id = i, s_customer_id = 1, s_product_id = Some 10, s_store = ''app_store'', original_transaction_id = None,
     current_period_start = None, current_period_end = Some t, s_status = ''active'', auto_renew = True,
     unsubscribe_detected_at = None, billing_issues_detected_at = None, grace_period_expires_at = grace, is_trial = False, s_updated_at = 0\<rparr>"

definition demo_variant :: "int \<Rightarrow> int \<Rightarrow> variant" where
  "demo_variant i w = \<lparr>v_id = i, v_experiment_id = 1, v_identifier = ''v'', v_offering_id = i, is_control = False, traffic_weight = w\<rparr>"

theorem resolve_exact_without_grace_witness:
  "\<forall>ent. is_active (resolve [(ent, [10])] [demo_sub 1 5 None, demo_sub 2 30 None] [] 20 ! 0)"
  using resolve_exact_without_grace [of "[(_, [10])]" "[demo_sub 1 5 None, demo_sub 2 30 None]" "[]" 20]
  by (auto simp: demo_sub_def covers_def runs_def in_grace_def)

theorem grace_period_overlooked_witness:
  "\<forall>ent. \<not> is_active (resolve [(ent, [10])] [demo_sub 1 5 (Some 100), demo_sub 2 10 None] [] 20 ! 0)"
  using grace_period_overlooked [of "[demo_sub 1 5 (Some 100), demo_sub 2 10 None]" "[10]" 20 "demo_sub 1 5 (Some 100)" "demo_sub 2 10 None"]
  by (auto simp: demo_sub_def covers_def runs_def in_grace_def)

theorem variants_get_their_share_witness:
  "card {b. b < 10000 \<and> variant_of_bucket [demo_variant 2 25, demo_variant 1 75] b = Some 2} = 2500"
  using variants_get_their_share [of "[demo_variant 2 25, demo_variant 1 75]" "demo_variant 2 25"]
  by (simp add: demo_variant_def)

end
