(* ===== verification/Plans.thy ===== *)
theory Plans imports Store JsonMap "HOL-Library.AList" begin

text \<open>
  Plans: what a tenant has subscribed to (\<open>src/src/billing/subscription_plans.rs\<close>) and what its plan entitles it to
  (\<open>src/src/billing/entitlement_engine.rs\<close>). Times are microseconds. The texts serde writes and reads, and
  what the server makes of a text bound to a column of another type, are parameters.
\<close>

record bill_env =
  b_parse_json :: "string \<Rightarrow> json option"
  b_base64 :: "string \<Rightarrow> string"
  b_jsonb :: "string \<Rightarrow> json option"
  b_bool :: "string \<Rightarrow> bool option"
  b_float :: "string \<Rightarrow> 64 word option"
  b_timestamp :: "string \<Rightarrow> int option"
  b_show_time :: "int \<Rightarrow> string"
  b_parse_time :: "string \<Rightarrow> int option"

definition b_query :: "bill_env \<Rightarrow> ('s \<Rightarrow> (string \<times> cell) list list) \<Rightarrow> ('s, row list) io" where
  "b_query e = query (b_parse_json e) (b_base64 e)"

definition as_jsonb :: "bill_env \<Rightarrow> string \<Rightarrow> json result" where
  "as_jsonb e s = ok_or (Database ''invalid input syntax for type json'') (b_jsonb e s)"

definition as_bool_column :: "bill_env \<Rightarrow> bool \<Rightarrow> bool result" where
  "as_bool_column e b = ok_or (Database ''column is of type boolean but expression is of type text'')
     (b_bool e (if b then ''true'' else ''false''))"

definition as_float_column :: "bill_env \<Rightarrow> string \<Rightarrow> 64 word result" where
  "as_float_column e s = ok_or (Database ''column is of type double precision but expression is of type text'') (b_float e s)"

definition as_timestamp :: "bill_env \<Rightarrow> string \<Rightarrow> int result" where
  "as_timestamp e s = ok_or (Database ''invalid input syntax for type timestamp with time zone'') (b_timestamp e s)"

text \<open>Division of \<open>i64\<close> rounds towards zero.\<close>

definition trunc_div :: "int \<Rightarrow> int \<Rightarrow> int" where
  "trunc_div a b = (if (a < 0) = (b < 0) then \<bar>a\<bar> div \<bar>b\<bar> else - (\<bar>a\<bar> div \<bar>b\<bar>))"

lemma trunc_div_minus: "trunc_div (- a) b = - trunc_div a b"
  by (auto simp: trunc_div_def)

lemma trunc_div_nonneg: "0 \<le> a \<Longrightarrow> 0 < b \<Longrightarrow> trunc_div a b = a div b"
  by (simp add: trunc_div_def)

section \<open>Subscription plans\<close>

datatype plan_tier = Free | Starter | Pro | Enterprise | Custom
datatype billing_interval = Monthly | Yearly | Weekly | Daily

fun tier_text :: "plan_tier \<Rightarrow> string" where
  "tier_text Free = ''free''"
| "tier_text Starter = ''starter''"
| "tier_text Pro = ''pro''"
| "tier_text Enterprise = ''enterprise''"
| "tier_text Custom = ''custom''"

fun interval_text :: "billing_interval \<Rightarrow> string" where
  "interval_text Monthly = ''monthly''"
| "interval_text Yearly = ''yearly''"
| "interval_text Weekly = ''weekly''"
| "interval_text Daily = ''daily''"

record plan_feature =
  pf_key :: string
  pf_name :: string
  included :: bool
  pf_limit :: "nat option"
  overage_price_cents :: "int option"

record plan_limits =
  seats :: nat
  storage_gb :: nat
  api_calls_per_month :: nat
  vector_operations_per_month :: nat
  vector_documents :: nat
  bandwidth_gb :: nat
  pl_functions :: nat
  concurrent_jobs :: nat

record subscription_plan =
  sp_id :: string
  sp_name :: string
  tier :: plan_tier
  sp_description :: string
  base_price_cents :: int
  billing_interval :: billing_interval
  sp_features :: "plan_feature list"
  sp_limits :: plan_limits
  sp_active :: bool

record add_on =
  ao_id :: string
  ao_name :: string
  ao_description :: string
  price_cents :: int
  ao_interval :: billing_interval
  applies_to_tiers :: "string list"
  feature_override :: "plan_feature option"

datatype subscription_status = Active | Trialing | PastDue | Cancelled | Paused

record tenant_subscription =
  ts_tenant :: int
  ts_plan :: string
  add_on_ids :: "string list"
  ts_status :: subscription_status
  ts_started_at :: string
  ts_next_billing_at :: string
  ts_cancelled_at :: "string option"
  ts_proration :: int

record plan_row =
  pr_id :: string
  pr_name :: string
  pr_tier :: string
  pr_description :: string
  pr_price :: int
  pr_interval :: string
  pr_features :: json
  pr_limits :: json
  pr_active :: bool

record add_on_row =
  ar_id :: string
  ar_name :: string
  ar_description :: string
  ar_price :: int
  ar_interval :: string
  ar_tiers :: json
  ar_override :: json

record sub_row =
  sr_tenant :: int
  sr_plan :: string
  sr_add_ons :: json
  sr_status :: string
  sr_started :: int
  sr_next :: "int option"
  sr_cancelled :: "int option"
  sr_proration :: int

record plan_db =
  plan_rows :: "plan_row list"
  add_on_rows :: "add_on_row list"
  sub_rows :: "sub_row list"

text \<open>The texts serde writes for the fields stored as \<open>jsonb\<close>.\<close>

record plan_text =
  features_text :: "plan_feature list \<Rightarrow> string"
  limits_text :: "plan_limits \<Rightarrow> string"
  strings_text :: "string list \<Rightarrow> string"
  override_text :: "plan_feature option \<Rightarrow> string"

definition create_plan :: "bill_env \<Rightarrow> plan_text \<Rightarrow> subscription_plan \<Rightarrow> (plan_db, unit) io" where
  "create_plan e x p =
     stmt (\<lambda>s. and_then (as_jsonb e (features_text x (sp_features p))) (\<lambda>fs. and_then (as_jsonb e (limits_text x (sp_limits p))) (\<lambda>ls.
       and_then (as_bool_column e (sp_active p)) (\<lambda>on.
         if \<exists>r \<in> set (plan_rows s). pr_id r = sp_id p then Inl (Database ''duplicate key value violates unique constraint'')
         else Inr ((), s\<lparr>plan_rows := plan_rows s @ [\<lparr>pr_id = sp_id p, pr_name = sp_name p, pr_tier = tier_text (tier p),
           pr_description = sp_description p, pr_price = base_price_cents p, pr_interval = interval_text (billing_interval p),
           pr_features = fs, pr_limits = ls, pr_active = on\<rparr>]\<rparr>)))))"

definition create_add_on :: "bill_env \<Rightarrow> plan_text \<Rightarrow> add_on \<Rightarrow> (plan_db, unit) io" where
  "create_add_on e x a =
     stmt (\<lambda>s. and_then (as_jsonb e (strings_text x (applies_to_tiers a))) (\<lambda>ts. and_then (as_jsonb e (override_text x (feature_override a))) (\<lambda>ov.
       if \<exists>r \<in> set (add_on_rows s). ar_id r = ao_id a then Inl (Database ''duplicate key value violates unique constraint'')
       else Inr ((), s\<lparr>add_on_rows := add_on_rows s @ [\<lparr>ar_id = ao_id a, ar_name = ao_name a, ar_description = ao_description a,
         ar_price = price_cents a, ar_interval = interval_text (ao_interval a), ar_tiers = ts, ar_override = ov\<rparr>]\<rparr>))))"

definition days :: "int \<Rightarrow> int" where
  "days n = n * 86400000000"

definition update_sub :: "int \<Rightarrow> (sub_row \<Rightarrow> sub_row) \<Rightarrow> plan_db \<Rightarrow> plan_db" where
  "update_sub tenant f s = s\<lparr>sub_rows := map (\<lambda>r. if sr_tenant r = tenant then f r else r) (sub_rows s)\<rparr>"

definition subscribe :: "bill_env \<Rightarrow> plan_text \<Rightarrow> int \<Rightarrow> int \<Rightarrow> string \<Rightarrow> string list \<Rightarrow> (plan_db, tenant_subscription) io" where
  "subscribe e x now tenant plan add_ons =
     (let next_billing = b_show_time e (now + days 30)
      in bind_io (stmt (\<lambda>s. and_then (as_jsonb e (strings_text x add_ons)) (\<lambda>ids. and_then (as_timestamp e next_billing) (\<lambda>next.
           Inr ((), if \<exists>r \<in> set (sub_rows s). sr_tenant r = tenant
             then update_sub tenant (\<lambda>r. r\<lparr>sr_plan := plan, sr_add_ons := ids, sr_status := ''active''\<rparr>) s
             else s\<lparr>sub_rows := sub_rows s @ [\<lparr>sr_tenant = tenant, sr_plan = plan, sr_add_ons = ids, sr_status = ''active'',
               sr_started = now, sr_next = Some next, sr_cancelled = None, sr_proration = 0\<rparr>]\<rparr>))))) (\<lambda>_.
         ret \<lparr>ts_tenant = tenant, ts_plan = plan, add_on_ids = add_ons, ts_status = Active, ts_started_at = b_show_time e now,
           ts_next_billing_at = next_billing, ts_cancelled_at = None, ts_proration = 0\<rparr>))"

definition time_cell :: "bill_env \<Rightarrow> int \<Rightarrow> cell" where
  "time_cell e t = cell_time (b_show_time e t)"

text \<open>The prices and the current subscription, as \<open>change_plan\<close> reads them.\<close>

definition first_str :: "row list \<Rightarrow> string \<Rightarrow> string" where
  "first_str rows k = (case rows of [] \<Rightarrow> [] | r # _ \<Rightarrow> unwrap_or [] (col_str r k))"

definition price_of :: "bill_env \<Rightarrow> string \<Rightarrow> (plan_db, int) io" where
  "price_of e plan =
     bind_io (b_query e (\<lambda>s. map (\<lambda>r. [(''base_price_cents'', cell_int (pr_price r))]) (filter (\<lambda>r. pr_id r = plan) (plan_rows s))))
       (\<lambda>rows. ret (case rows of [] \<Rightarrow> 0 | r # _ \<Rightarrow> unwrap_or 0 (col_i64 r ''base_price_cents'')))"

definition num_days :: "int \<Rightarrow> int" where
  "num_days d = trunc_div d 86400000000"

definition proration_cents :: "int \<Rightarrow> int \<Rightarrow> int \<Rightarrow> int \<Rightarrow> int \<Rightarrow> int" where
  "proration_cents old_price new_price started next_billing now =
     (let total_days = max (num_days (next_billing - started)) 1;
          used_days = max (num_days (now - started)) 0;
          unused_days = max (total_days - used_days) 0
      in trunc_div (wrap_i64 (wrap_i64 (old_price - new_price) * unused_days)) total_days)"

definition prorate :: "bill_env \<Rightarrow> int \<Rightarrow> string \<Rightarrow> string \<Rightarrow> int \<Rightarrow> int \<Rightarrow> int \<times> string" where
  "prorate e now started_text next_text old_price new_price =
     (if started_text = [] \<or> next_text = [] then (0, b_show_time e (now + days 30))
      else (let started = unwrap_or now (b_parse_time e started_text);
                next = unwrap_or (now + days 30) (b_parse_time e next_text)
            in (proration_cents old_price new_price started next now, b_show_time e next)))"

definition change_plan :: "bill_env \<Rightarrow> int \<Rightarrow> int \<Rightarrow> string \<Rightarrow> (plan_db, json) io" where
  "change_plan e now tenant new_plan =
     bind_io (b_query e (\<lambda>s. map (\<lambda>r. [(''plan_id'', cell_text (sr_plan r)), (''started_at'', time_cell e (sr_started r)),
         (''next_billing_at'', cell_opt ''TIMESTAMPTZ'' (time_cell e) (sr_next r))]) (filter (\<lambda>r. sr_tenant r = tenant) (sub_rows s))))
     (\<lambda>current.
       (let old_plan = first_str current ''plan_id''
        in bind_io (if old_plan = [] then ret 0 else price_of e old_plan) (\<lambda>old_price.
           bind_io (price_of e new_plan) (\<lambda>new_price.
           (case prorate e now (first_str current ''started_at'') (first_str current ''next_billing_at'') old_price new_price of
             (proration, next_billing) \<Rightarrow>
               bind_io (stmt (\<lambda>s. and_then (as_timestamp e next_billing) (\<lambda>next.
                 Inr ((), update_sub tenant (\<lambda>r. r\<lparr>sr_plan := new_plan, sr_proration := proration, sr_next := Some next\<rparr>) s)))) (\<lambda>_.
               ret (JObject [(''new_plan'', JString new_plan), (''old_plan'', JString old_plan),
                 (''proration_cents'', json_int proration), (''tenant_id'', json_int tenant)])))))))"

definition cancel :: "int \<Rightarrow> int \<Rightarrow> bool \<Rightarrow> (plan_db, unit) io" where
  "cancel now tenant end_of_period =
     (if end_of_period
      then exec (update_sub tenant (\<lambda>r. r\<lparr>sr_status := ''cancelled'', sr_cancelled := Some now\<rparr>))
      else exec (update_sub tenant (\<lambda>r. r\<lparr>sr_status := ''cancelled'', sr_cancelled := Some now, sr_next := Some now\<rparr>)))"

definition pause :: "int \<Rightarrow> (plan_db, unit) io" where
  "pause tenant = exec (update_sub tenant (\<lambda>r. r\<lparr>sr_status := ''paused''\<rparr>))"

definition resume :: "bill_env \<Rightarrow> int \<Rightarrow> int \<Rightarrow> (plan_db, unit) io" where
  "resume e now tenant =
     stmt (\<lambda>s. and_then (as_timestamp e (b_show_time e (now + days 30))) (\<lambda>next.
       Inr ((), update_sub tenant (\<lambda>r. r\<lparr>sr_status := ''active'', sr_next := Some next\<rparr>) s)))"

definition list_plans :: "bill_env \<Rightarrow> (plan_db, json list) io" where
  "list_plans e = bind_io (b_query e (\<lambda>s. map (\<lambda>r. [(''id'', cell_text (pr_id r)), (''name'', cell_text (pr_name r)), (''tier'', cell_text (pr_tier r)),
       (''description'', cell_text (pr_description r)), (''base_price_cents'', cell_int (pr_price r)),
       (''billing_interval'', cell_text (pr_interval r)), (''features'', cell_jsonb (pr_features r)), (''limits'', cell_jsonb (pr_limits r))])
     (sort_key pr_price (filter pr_active (plan_rows s))))) (\<lambda>rows. ret (map (\<lambda>r. JObject (obj_of r)) rows))"

definition get_tenant_subscription :: "bill_env \<Rightarrow> int \<Rightarrow> (plan_db, json option) io" where
  "get_tenant_subscription e tenant = bind_io (b_query e (\<lambda>s. concat (map (\<lambda>r. map (\<lambda>p.
       [(''tenant_id'', cell_int (sr_tenant r)), (''plan_id'', cell_text (sr_plan r)), (''add_on_ids'', cell_jsonb (sr_add_ons r)),
        (''status'', cell_text (sr_status r)), (''started_at'', time_cell e (sr_started r)),
        (''next_billing_at'', cell_opt ''TIMESTAMPTZ'' (time_cell e) (sr_next r)), (''cancelled_at'', cell_opt ''TIMESTAMPTZ'' (time_cell e) (sr_cancelled r)),
        (''proration_cents'', cell_int (sr_proration r)), (''plan_name'', cell_text (pr_name p)), (''base_price_cents'', cell_int (pr_price p)),
        (''billing_interval'', cell_text (pr_interval p))]) (filter (\<lambda>p. pr_id p = sr_plan r) (plan_rows s)))
     (filter (\<lambda>r. sr_tenant r = tenant) (sub_rows s)))))
   (\<lambda>rows. ret (case rows of [] \<Rightarrow> None | r # _ \<Rightarrow> Some (JObject (obj_of r))))"


subsection \<open>Proration\<close>

text \<open>Times survive the way through their texts.\<close>

definition times_ok :: "bill_env \<Rightarrow> bool" where
  "times_ok e \<longleftrightarrow> (\<forall>t. b_parse_time e (b_show_time e t) = Some t \<and> b_timestamp e (b_show_time e t) = Some t \<and> b_show_time e t \<noteq> [])"

definition period_days :: "int \<Rightarrow> int \<Rightarrow> int" where
  "period_days started next_billing = max (num_days (next_billing - started)) 1"

definition unused_days :: "int \<Rightarrow> int \<Rightarrow> int \<Rightarrow> int" where
  "unused_days started next_billing now = max (period_days started next_billing - max (num_days (now - started)) 0) 0"

lemma unused_le: "0 \<le> unused_days a b now" "unused_days a b now \<le> period_days a b" "1 \<le> period_days a b"
  by (auto simp: unused_days_def period_days_def)

text \<open>No overflow occurs for amounts below \<open>9.2 * 10^18\<close> cents times days.\<close>

definition amounts_ok :: "int \<Rightarrow> int \<Rightarrow> int \<Rightarrow> bool" where
  "amounts_ok old_price new_price total_days \<longleftrightarrow> \<bar>old_price - new_price\<bar> * total_days \<le> 9223372036854775807"

lemma proration_eq:
  assumes "amounts_ok p q (period_days a b)"
  shows "proration_cents p q a b now = trunc_div ((p - q) * unused_days a b now) (period_days a b)"
proof -
  have "\<bar>p - q\<bar> * unused_days a b now \<le> \<bar>p - q\<bar> * period_days a b"
    by (rule mult_left_mono) (simp_all add: unused_le)
  with assms have "\<bar>(p - q) * unused_days a b now\<bar> \<le> 9223372036854775807"
    using unused_le(1) [of a b now] by (simp add: amounts_ok_def abs_mult)
  moreover have "\<bar>p - q\<bar> * 1 \<le> \<bar>p - q\<bar> * period_days a b"
    by (rule mult_left_mono) (simp_all add: unused_le)
  with assms have "\<bar>p - q\<bar> \<le> 9223372036854775807" by (simp add: amounts_ok_def)
  ultimately have "in_i64 (p - q)" "in_i64 ((p - q) * unused_days a b now)" by (auto simp: in_i64_def abs_le_iff)
  then show ?thesis
    by (simp add: proration_cents_def Let_def unused_days_def period_days_def)
qed

text \<open>What is credited is at most the difference of the prices, with its sign, and nothing once the period is over.\<close>

lemma credit_bounds:
  fixes started next_billing now :: int
  defines "u \<equiv> unused_days started next_billing now" and "t \<equiv> period_days started next_billing"
  shows "(q \<le> p \<longrightarrow> 0 \<le> trunc_div ((p - q) * u) t \<and> trunc_div ((p - q) * u) t \<le> p - q)
    \<and> (p \<le> q \<longrightarrow> p - q \<le> trunc_div ((p - q) * u) t \<and> trunc_div ((p - q) * u) t \<le> 0)
    \<and> (t \<le> num_days (now - started) \<longrightarrow> trunc_div ((p - q) * u) t = 0)"
proof -
  have t: "0 < t" using unused_le(3) [of started next_billing] by (simp add: t_def)
  have u: "0 \<le> u" "u \<le> t" by (simp_all add: u_def t_def unused_le)
  have up: "0 \<le> trunc_div (x * u) t \<and> trunc_div (x * u) t \<le> x" if "0 \<le> x" for x
  proof -
    have nn: "0 \<le> x * u" using that u(1) by simp
    have d: "trunc_div (x * u) t = x * u div t" by (rule trunc_div_nonneg [OF nn t])
    have "x * u \<le> x * t" using that u(2) by (intro mult_left_mono) simp_all
    then have "x * u div t \<le> x" using t by (metis nonzero_mult_div_cancel_right zdiv_mono1 less_irrefl)
    with nn t show ?thesis unfolding d by (simp add: pos_imp_zdiv_nonneg_iff)
  qed
  have flip: "trunc_div ((p - q) * u) t = - trunc_div ((q - p) * u) t"
    using trunc_div_minus [of "(q - p) * u" t] by (simp add: algebra_simps)
  have over: "t \<le> num_days (now - started) \<Longrightarrow> u = 0" by (simp add: u_def t_def unused_days_def)
  show ?thesis using up [of "p - q"] up [of "q - p"] flip over by (auto simp: trunc_div_def)
qed

text \<open>The price of a plan as \<open>change_plan\<close> finds it: nothing for a plan that is not listed.\<close>

definition listed_price :: "plan_db \<Rightarrow> string \<Rightarrow> int" where
  "listed_price s plan = (case filter (\<lambda>p. pr_id p = plan) (plan_rows s) of [] \<Rightarrow> 0 | p # _ \<Rightarrow> pr_price p)"

lemma price_of_wp:
  assumes "\<forall>p \<in> set (plan_rows s). in_i64 (pr_price p)"
  shows "wp (price_of e plan) (\<lambda>r s'. s' = s \<and> (\<forall>x. r = Inr x \<longrightarrow> x = listed_price s plan)) s"
proof -
  have "in_i64 (pr_price p)" if "filter (\<lambda>p. pr_id p = plan) (plan_rows s) = p # ps" for p ps
  proof -
    from that have "p \<in> set (filter (\<lambda>p. pr_id p = plan) (plan_rows s))" by simp
    with assms show ?thesis by simp
  qed
  then show ?thesis
    unfolding price_of_def b_query_def
    by (auto intro!: wp_intro simp: listed_price_def json_row_def col_i64_def split: list.split)
qed

lemma wp_query_then:
  "(\<And>e. Q (Inl e) s) \<Longrightarrow> wp (k (map (json_row p b) (f s))) Q s \<Longrightarrow> wp (bind_io (query p b f) k) Q s"
  by (rule wp_bind_io, rule wp_query) auto

lemma wp_call_then:
  "wp m (\<lambda>r s'. s' = s \<and> (\<forall>x. r = Inr x \<longrightarrow> x = v)) s \<Longrightarrow> (\<And>e. Q (Inl e) s) \<Longrightarrow> wp (k v) Q s \<Longrightarrow> wp (bind_io m k) Q s"
  by (rule wp_bind_io, erule wp_weaken) auto

lemma price_of_listed:
  assumes "\<forall>p \<in> set (plan_rows s). in_i64 (pr_price p)"
  shows "price_of e plan (up s) = (Inr (listed_price s plan), up s)"
proof -
  have "\<exists>x. price_of e plan (up s) = (Inr x, up s)" by (simp add: price_of_def b_query_def)
  then obtain x where "price_of e plan (up s) = (Inr x, up s)" ..
  with wp_D [OF price_of_wp, of "up s" e plan] assms show ?thesis by auto
qed

text \<open>
  C17. A change of plans in the middle of a period settles the unused days. For a tenant with one subscription that
  has a next payment, and prices that do not overflow 64 bits, a call of \<open>change_plan\<close> between whose statements
  nobody else changes these rows either returns an error and leaves everything as it was, or stores the new plan
  with a credit that is exactly the difference of the two prices for the unused part of the days of the period,
  rounded towards zero, and returns it. The credit has the sign of the difference and is at most as large; once the
  period is over it is nothing. With the database up the call succeeds.
\<close>

theorem change_plan_settles:
  assumes "times_ok e" and sub: "filter (\<lambda>r. sr_tenant r = tenant) (sub_rows s) = [r]" "sr_next r = Some nx"
    and plan: "sr_plan r \<noteq> []" "plain (sr_plan r)" and prices: "\<forall>p \<in> set (plan_rows s). in_i64 (pr_price p)"
    and amounts: "amounts_ok (listed_price s (sr_plan r)) (listed_price s new_plan) (period_days (sr_started r) nx)"
  shows "wp (change_plan e now tenant new_plan) (\<lambda>res s'. case res of
      Inl _ \<Rightarrow> s' = s
    | Inr v \<Rightarrow>
        let old = listed_price s (sr_plan r); new = listed_price s new_plan;
            credit = trunc_div ((old - new) * unused_days (sr_started r) nx now) (period_days (sr_started r) nx)
        in jget v ''proration_cents'' = Some (json_int credit)
          \<and> s' = update_sub tenant (\<lambda>_. r\<lparr>sr_plan := new_plan, sr_proration := credit, sr_next := Some nx\<rparr>) s
          \<and> (new \<le> old \<longrightarrow> 0 \<le> credit \<and> credit \<le> old - new) \<and> (old \<le> new \<longrightarrow> old - new \<le> credit \<and> credit \<le> 0)
          \<and> (period_days (sr_started r) nx \<le> num_days (now - sr_started r) \<longrightarrow> credit = 0)) s
    \<and> \<not> isl (fst (change_plan e now tenant new_plan (up s)))"
proof -
  let ?old = "listed_price s (sr_plan r)" and ?new = "listed_price s new_plan"
  let ?credit = "trunc_div ((?old - ?new) * unused_days (sr_started r) nx now) (period_days (sr_started r) nx)"
  let ?Q = "\<lambda>res s'. case res of Inl _ \<Rightarrow> s' = s | Inr v \<Rightarrow> jget v ''proration_cents'' = Some (json_int ?credit)
    \<and> s' = update_sub tenant (\<lambda>_. r\<lparr>sr_plan := new_plan, sr_proration := ?credit, sr_next := Some nx\<rparr>) s"
  have times: "b_parse_time e (b_show_time e t) = Some t" "b_timestamp e (b_show_time e t) = Some t" "b_show_time e t \<noteq> []" for t
    using assms(1) by (simp_all add: times_ok_def)
  have one: "update_sub tenant (\<lambda>x. x\<lparr>sr_plan := new_plan, sr_proration := c, sr_next := Some nx\<rparr>) s
      = update_sub tenant (\<lambda>_. r\<lparr>sr_plan := new_plan, sr_proration := c, sr_next := Some nx\<rparr>) s" for c
  proof -
    have "x = r" if "x \<in> set (sub_rows s)" "sr_tenant x = tenant" for x
    proof -
      from that have "x \<in> set (filter (\<lambda>r. sr_tenant r = tenant) (sub_rows s))" by simp
      with sub show ?thesis by simp
    qed
    then show ?thesis by (auto simp: update_sub_def)
  qed
  note read = b_query_def json_row_def first_str_def col_str_def time_cell_def cell_opt_def Let_def prorate_def as_timestamp_def
  let ?rows = "map (json_row (b_parse_json e) (b_base64 e)) (map (\<lambda>r. [(''plan_id'', cell_text (sr_plan r)), (''started_at'', time_cell e (sr_started r)),
         (''next_billing_at'', cell_opt ''TIMESTAMPTZ'' (time_cell e) (sr_next r))]) (filter (\<lambda>r. sr_tenant r = tenant) (sub_rows s)))"
  have f: "first_str ?rows ''plan_id'' = sr_plan r" "first_str ?rows ''started_at'' = b_show_time e (sr_started r)"
    "first_str ?rows ''next_billing_at'' = b_show_time e nx"
    by (simp_all add: read sub plan times)
  have pr: "prorate e now (b_show_time e (sr_started r)) (b_show_time e nx) ?old ?new = (?credit, b_show_time e nx)"
    by (simp add: prorate_def times proration_eq [OF amounts])
  have store: "wp (stmt (\<lambda>s. and_then (as_timestamp e (b_show_time e nx)) (\<lambda>next.
      Inr ((), update_sub tenant (\<lambda>r. r\<lparr>sr_plan := new_plan, sr_proration := ?credit, sr_next := Some next\<rparr>) s))))
    (\<lambda>res s'. (isl res \<and> s' = s) \<or> (res = Inr () \<and> s' = update_sub tenant (\<lambda>_. r\<lparr>sr_plan := new_plan, sr_proration := ?credit, sr_next := Some nx\<rparr>) s)) s"
    by (rule wp_stmt) (auto simp: as_timestamp_def times one)
  have "wp (change_plan e now tenant new_plan) ?Q s"
    unfolding change_plan_def b_query_def Let_def
    by (rule wp_query_then, simp, unfold f if_not_P [OF plan(1)],
        rule wp_call_then [OF price_of_wp [OF prices]], simp, rule wp_call_then [OF price_of_wp [OF prices]], simp,
        unfold pr prod.case, rule wp_bind_io, rule wp_weaken [OF store], auto intro!: wp_ret simp: jget_def)
  moreover have "\<not> isl (fst (change_plan e now tenant new_plan (up s)))"
    using price_of_listed [OF prices] by (simp add: change_plan_def read sub plan times)
  ultimately show ?thesis
  proof (intro conjI, elim wp_weaken)
    fix res :: "json result" and s' assume "?Q res s'"
    with credit_bounds [of ?new ?old "sr_started r" nx now]
    show "case res of Inl _ \<Rightarrow> s' = s
    | Inr v \<Rightarrow>
        let old = ?old; new = ?new;
            credit = trunc_div ((old - new) * unused_days (sr_started r) nx now) (period_days (sr_started r) nx)
        in jget v ''proration_cents'' = Some (json_int credit)
          \<and> s' = update_sub tenant (\<lambda>_. r\<lparr>sr_plan := new_plan, sr_proration := credit, sr_next := Some nx\<rparr>) s
          \<and> (new \<le> old \<longrightarrow> 0 \<le> credit \<and> credit \<le> old - new) \<and> (old \<le> new \<longrightarrow> old - new \<le> credit \<and> credit \<le> 0)
          \<and> (period_days (sr_started r) nx \<le> num_days (now - sr_started r) \<longrightarrow> credit = 0)"
      unfolding Let_def by (cases res; simp only: sum.case; blast)
  qed
qed

lemma price_of_up:
  "filter (\<lambda>r. pr_id r = plan) (plan_rows s) = [p] \<Longrightarrow> in_i64 (pr_price p) \<Longrightarrow> price_of e plan (up s) = (Inr (pr_price p), up s)"
  by (simp add: price_of_def b_query_def json_row_def col_i64_def)

lemma change_plan_up:
  assumes "times_ok e" and sub: "filter (\<lambda>r. sr_tenant r = tenant) (sub_rows s) = [r]" and "sr_next r = Some nx"
    and p: "filter (\<lambda>p. pr_id p = sr_plan r) (plan_rows s) = [p]" "in_i64 (pr_price p)" "sr_plan r \<noteq> []" "plain (sr_plan r)"
    and q: "filter (\<lambda>p. pr_id p = new_plan) (plan_rows s) = [q]" "in_i64 (pr_price q)"
  shows "\<exists>v. change_plan e now tenant new_plan (up s) = (Inr v, up (update_sub tenant (\<lambda>r. r\<lparr>sr_plan := new_plan,
      sr_proration := proration_cents (pr_price p) (pr_price q) (sr_started r) nx now, sr_next := Some nx\<rparr>) s))"
proof -
  have times: "b_parse_time e (b_show_time e t) = Some t" "b_timestamp e (b_show_time e t) = Some t" "b_show_time e t \<noteq> []" for t
    using assms(1) by (simp_all add: times_ok_def)
  have cells: "update_sub tenant (\<lambda>x. x\<lparr>sr_plan := new_plan, sr_proration := f r, sr_next := Some nx\<rparr>) s =
      update_sub tenant (\<lambda>x. x\<lparr>sr_plan := new_plan, sr_proration := f x, sr_next := Some nx\<rparr>) s" for f
  proof -
    have "x = r" if "x \<in> set (sub_rows s)" "sr_tenant x = tenant" for x
    proof -
      from that have "x \<in> set (filter (\<lambda>r. sr_tenant r = tenant) (sub_rows s))" by simp
      with sub show ?thesis by simp
    qed
    then show ?thesis by (auto simp: update_sub_def)
  qed
  show ?thesis
    using assms times price_of_up [OF p(1,2)] price_of_up [OF q] cells [of "\<lambda>r. proration_cents (pr_price p) (pr_price q) (sr_started r) nx now"]
    by (auto simp: change_plan_def b_query_def json_row_def first_str_def col_str_def time_cell_def cell_opt_def Let_def prorate_def
        as_timestamp_def)
qed


text \<open>
  A change to a dearer plan and straight back costs nothing and leaves a credit: the second change replaces
  the charge of the first by its own credit, the price difference for the unused days, so the tenant ends with the
  plan it had and an amount in its favour that it never paid.
\<close>

theorem plan_round_trip_leaves_credit:
  assumes "times_ok e" and sub: "filter (\<lambda>r. sr_tenant r = tenant) (sub_rows s) = [r]" and nx: "sr_next r = Some nx"
    and p: "filter (\<lambda>x. pr_id x = pr_id p) (plan_rows s) = [p]" "in_i64 (pr_price p)" "pr_id p \<noteq> []" "plain (pr_id p)"
    and q: "filter (\<lambda>x. pr_id x = pr_id q) (plan_rows s) = [q]" "in_i64 (pr_price q)" "pr_id q \<noteq> []" "plain (pr_id q)"
    and plan: "sr_plan r = pr_id p" and le: "pr_price p \<le> pr_price q" and ok: "amounts_ok (pr_price q) (pr_price p) (period_days (sr_started r) nx)"
  shows "\<exists>v w s1 s2. change_plan e now tenant (pr_id q) (up s) = (Inr v, up s1) \<and> change_plan e now tenant (pr_id p) (up s1) = (Inr w, up s2) \<and>
    s2 = update_sub tenant (\<lambda>x. x\<lparr>sr_proration := (pr_price q - pr_price p) * unused_days (sr_started r) nx now div period_days (sr_started r) nx\<rparr>) s"
proof -
  define f where "f = (\<lambda>(a :: plan_row) (b :: plan_row) (x :: sub_row). x\<lparr>sr_plan := pr_id b, sr_proration := proration_cents (pr_price a) (pr_price b) (sr_started x) nx now, sr_next := Some nx\<rparr>)"
  have f_qp: "f q p = (\<lambda>x. x\<lparr>sr_plan := pr_id p, sr_proration := proration_cents (pr_price q) (pr_price p) (sr_started x) nx now, sr_next := Some nx\<rparr>)"
    by (simp add: f_def)
  have up1: "\<exists>v. change_plan e now tenant (pr_id q) (up s) = (Inr v, up (update_sub tenant (f p q) s))"
    unfolding f_def by (rule change_plan_up [OF assms(1) sub nx]) (use p q plan in simp_all)
  let ?s1 = "update_sub tenant (f p q) s"
  have filt: "filter (\<lambda>r. sr_tenant r = tenant) (map (\<lambda>r. if sr_tenant r = tenant then f p q r else r) xs)
      = map (f p q) (filter (\<lambda>r. sr_tenant r = tenant) xs)" for xs
    by (induction xs) (auto simp: f_def)
  have sub1: "filter (\<lambda>r. sr_tenant r = tenant) (sub_rows ?s1) = [f p q r]"
    using sub by (simp add: update_sub_def filt)
  have up2: "\<exists>w. change_plan e now tenant (pr_id p) (up ?s1) = (Inr w, up (update_sub tenant (f q p) ?s1))"
    unfolding f_qp by (rule change_plan_up [OF assms(1) sub1]) (use p q in \<open>simp_all add: f_def update_sub_def\<close>)
  have only: "x = r" if "x \<in> set (sub_rows s)" "sr_tenant x = tenant" for x
  proof -
    from that have "x \<in> set (filter (\<lambda>r. sr_tenant r = tenant) (sub_rows s))" by simp
    with sub show ?thesis by simp
  qed
  have "proration_cents (pr_price q) (pr_price p) (sr_started r) nx now
      = trunc_div ((pr_price q - pr_price p) * unused_days (sr_started r) nx now) (period_days (sr_started r) nx)"
    by (rule proration_eq [OF ok])
  also have "\<dots> = (pr_price q - pr_price p) * unused_days (sr_started r) nx now div period_days (sr_started r) nx"
    using le unused_le(1) [of "sr_started r" nx now] unused_le(3) [of "sr_started r" nx] by (intro trunc_div_nonneg) simp_all
  finally have credit: "proration_cents (pr_price q) (pr_price p) (sr_started r) nx now = \<dots>" .
  have keep: "sr_tenant (f a b x) = sr_tenant x" for a b x by (simp add: f_def)
  have each: "f q p (f p q r) = r\<lparr>sr_proration := (pr_price q - pr_price p) * unused_days (sr_started r) nx now div period_days (sr_started r) nx\<rparr>"
    using credit plan nx by (simp add: f_def)
  have "map (\<lambda>x. if sr_tenant x = tenant then f q p x else x) (map (\<lambda>x. if sr_tenant x = tenant then f p q x else x) (sub_rows s)) =
      map (\<lambda>x. if sr_tenant x = tenant then x\<lparr>sr_proration := (pr_price q - pr_price p) * unused_days (sr_started r) nx now
        div period_days (sr_started r) nx\<rparr> else x) (sub_rows s)"
    using each by (auto simp: keep dest!: only)
  then have "update_sub tenant (f q p) ?s1 = update_sub tenant
      (\<lambda>x. x\<lparr>sr_proration := (pr_price q - pr_price p) * unused_days (sr_started r) nx now div period_days (sr_started r) nx\<rparr>) s"
    by (simp add: update_sub_def)
  with up1 up2 show ?thesis by auto
qed

section \<open>The entitlement engine\<close>

datatype entitlement_source = PlanSource | AddOnSource | Override | TrialSource | Legacy

record grant_answer =
  ga_feature :: string
  entitled :: bool
  ga_limit :: "64 word option"
  current_usage :: "64 word option"
  ga_source :: entitlement_source

record feature_grant =
  fg_enabled :: bool
  fg_limit :: "64 word option"
  meter_name :: "string option"

record plan_definition =
  pd_id :: string
  pd_name :: string
  pd_tier :: nat
  pd_features :: "(string \<times> feature_grant) list"
  pd_limits :: "(string \<times> 64 word) list"

record engine_plan_row =
  ep_id :: string
  ep_name :: string
  ep_tier :: int
  ep_features :: json
  ep_limits :: json

record tenant_plan_row =
  tp_tenant :: int
  tp_plan :: string
  tp_add_ons :: json
  tp_started :: int
  tp_expires :: "int option"

record override_row =
  or_tenant :: int
  or_feature :: string
  or_enabled :: bool
  or_limit :: "64 word option"
  or_reason :: string
  or_expires :: "int option"

record engine_db =
  engine_plans :: "engine_plan_row list"
  tenant_plans :: "tenant_plan_row list"
  overrides :: "override_row list"
  plan_cache :: "string \<rightharpoonup> plan_definition"

record engine_text =
  grants_text :: "(string \<times> feature_grant) list \<Rightarrow> string"
  parse_grants :: "string \<Rightarrow> (string \<times> feature_grant) list option"
  numbers_text :: "(string \<times> 64 word) list \<Rightarrow> string"
  parse_numbers :: "string \<Rightarrow> (string \<times> 64 word) list option"
  float_text :: "64 word \<Rightarrow> string"

definition as_float :: "json \<Rightarrow> 64 word option" where
  "as_float v = (case v of JNumber (Float f) \<Rightarrow> Some f | _ \<Rightarrow> None)"

definition cell_float :: "64 word \<Rightarrow> cell" where
  "cell_float f = no_cell\<lparr>type_name := ''FLOAT8'', try_f64 := Some f\<rparr>"

definition engine_plan_cells :: "engine_plan_row \<Rightarrow> (string \<times> cell) list" where
  "engine_plan_cells r = [(''id'', cell_text (ep_id r)), (''name'', cell_text (ep_name r)), (''tier'', cell_int (ep_tier r)),
     (''features'', cell_jsonb (ep_features r)), (''limits'', cell_jsonb (ep_limits r))]"

definition plan_of_row :: "engine_text \<Rightarrow> row \<Rightarrow> plan_definition" where
  "plan_of_row x r = \<lparr>pd_id = unwrap_or [] (col_str r ''id''), pd_name = unwrap_or [] (col_str r ''name''),
     pd_tier = nat (unwrap_or 0 (col_i64 r ''tier'') mod 4294967296),
     pd_features = unwrap_or [] (parse_grants x (unwrap_or ''{}'' (col_str r ''features''))),
     pd_limits = unwrap_or [] (parse_numbers x (unwrap_or ''{}'' (col_str r ''limits'')))\<rparr>"

definition load_plans :: "bill_env \<Rightarrow> engine_text \<Rightarrow> (engine_db, unit) io" where
  "load_plans e x =
     bind_io (b_query e (\<lambda>s. map engine_plan_cells (engine_plans s))) (\<lambda>rows.
     modify (\<lambda>s. s\<lparr>plan_cache := fold (\<lambda>r c. c(pd_id (plan_of_row x r) \<mapsto> plan_of_row x r)) rows (plan_cache s)\<rparr>))"

definition live :: "int \<Rightarrow> int option \<Rightarrow> bool" where
  "live now t = (case t of None \<Rightarrow> True | Some t \<Rightarrow> t > now)"

definition answer :: "string \<Rightarrow> bool \<Rightarrow> 64 word option \<Rightarrow> entitlement_source \<Rightarrow> grant_answer" where
  "answer feature ok lim src = \<lparr>ga_feature = feature, entitled = ok, ga_limit = lim, current_usage = None, ga_source = src\<rparr>"

definition check :: "bill_env \<Rightarrow> int \<Rightarrow> int \<Rightarrow> string \<Rightarrow> (engine_db, grant_answer) io" where
  "check e now tenant feature =
     bind_io (b_query e (\<lambda>s. map (\<lambda>r. [(''enabled'', cell_bool (or_enabled r)), (''custom_limit'', cell_opt ''FLOAT8'' cell_float (or_limit r))])
       (filter (\<lambda>r. or_tenant r = tenant \<and> or_feature r = feature \<and> live now (or_expires r)) (overrides s))))
     (\<lambda>override_rows. case override_rows of
        row # _ \<Rightarrow> ret (answer feature
          (case col_str row ''enabled'' of None \<Rightarrow> False | Some t \<Rightarrow> t = ''true'' \<or> t = ''t'')
          (Option.bind (row_get row ''custom_limit'') as_float) Override)
      | [] \<Rightarrow>
          bind_io (b_query e (\<lambda>s. map (\<lambda>r. [(''plan_id'', cell_text (tp_plan r)), (''add_ons'', cell_jsonb (tp_add_ons r))])
            (filter (\<lambda>r. tp_tenant r = tenant \<and> live now (tp_expires r)) (tenant_plans s))))
          (\<lambda>plan_rows. bind_io (gets plan_cache) (\<lambda>cache.
             ret (case plan_rows of
                 [] \<Rightarrow> answer feature False None PlanSource
               | row # _ \<Rightarrow> (case cache (unwrap_or [] (col_str row ''plan_id'')) of
                   None \<Rightarrow> answer feature False None PlanSource
                 | Some plan \<Rightarrow> (case map_of (pd_features plan) feature of
                     None \<Rightarrow> answer feature False None PlanSource
                   | Some g \<Rightarrow> answer feature (fg_enabled g) (fg_limit g) PlanSource))))))"

definition check_many :: "bill_env \<Rightarrow> int \<Rightarrow> int \<Rightarrow> string list \<Rightarrow> (engine_db, (string \<times> grant_answer) list) io" where
  "check_many e now tenant features =
     for_io (\<lambda>f acc. bind_io (check e now tenant f) (\<lambda>a. ret (AList.update f a acc))) features []"

definition upsert_plan :: "bill_env \<Rightarrow> engine_text \<Rightarrow> plan_definition \<Rightarrow> (engine_db, unit) io" where
  "upsert_plan e x plan =
     bind_io (stmt (\<lambda>s. and_then (as_jsonb e (grants_text x (pd_features plan))) (\<lambda>fs. and_then (as_jsonb e (numbers_text x (pd_limits plan))) (\<lambda>ls.
       (let row = \<lparr>ep_id = pd_id plan, ep_name = pd_name plan, ep_tier = int (pd_tier plan), ep_features = fs, ep_limits = ls\<rparr>
        in Inr ((), s\<lparr>engine_plans := (if \<exists>r \<in> set (engine_plans s). ep_id r = pd_id plan
             then map (\<lambda>r. if ep_id r = pd_id plan then row else r) (engine_plans s) else engine_plans s @ [row])\<rparr>)))))) (\<lambda>_.
     modify (\<lambda>s. s\<lparr>plan_cache := (plan_cache s)(pd_id plan \<mapsto> plan)\<rparr>))"

definition assign_plan :: "int \<Rightarrow> int \<Rightarrow> string \<Rightarrow> (engine_db, unit) io" where
  "assign_plan now tenant plan =
     exec (\<lambda>s. if \<exists>r \<in> set (tenant_plans s). tp_tenant r = tenant
       then s\<lparr>tenant_plans := map (\<lambda>r. if tp_tenant r = tenant then r\<lparr>tp_plan := plan, tp_started := now\<rparr> else r) (tenant_plans s)\<rparr>
       else s\<lparr>tenant_plans := tenant_plans s @ [\<lparr>tp_tenant = tenant, tp_plan = plan, tp_add_ons = JArray [], tp_started = now, tp_expires = None\<rparr>]\<rparr>)"

text \<open>An absent limit is sent as the empty text.\<close>

definition set_override :: "bill_env \<Rightarrow> engine_text \<Rightarrow> int \<Rightarrow> string \<Rightarrow> bool \<Rightarrow> 64 word option \<Rightarrow> string \<Rightarrow> (engine_db, unit) io" where
  "set_override e x tenant feature on lim reason =
     stmt (\<lambda>s. and_then (as_bool_column e on) (\<lambda>b. and_then (as_float_column e (case lim of None \<Rightarrow> [] | Some l \<Rightarrow> float_text x l)) (\<lambda>l.
       Inr ((), if \<exists>r \<in> set (overrides s). or_tenant r = tenant \<and> or_feature r = feature
         then s\<lparr>overrides := map (\<lambda>r. if or_tenant r = tenant \<and> or_feature r = feature
           then r\<lparr>or_enabled := b, or_limit := Some l, or_reason := reason\<rparr> else r) (overrides s)\<rparr>
         else s\<lparr>overrides := overrides s @ [\<lparr>or_tenant = tenant, or_feature = feature, or_enabled = b, or_limit = Some l,
           or_reason = reason, or_expires = None\<rparr>]\<rparr>))))"

text \<open>
  After a start of the server nobody is entitled to anything: the grants of the plans come back from their
  \<open>jsonb\<close> column as objects, the engine asks for strings and loads every plan without grants, and an override that
  enables a feature is read as one that disables it. Whatever tenants, plans and overrides the tables hold and
  whatever accesses fail, a check that answers answers no.
\<close>

theorem nobody_entitled_after_restart:
  assumes "parse_grants x ''{}'' = Some []" and "\<forall>r \<in> set (engine_plans (st d)). as_str (ep_features r) = None"
    and "plan_cache (st d) = Map.empty" and "bind_io (load_plans e x) (\<lambda>_. check e now tenant feature) d = (Inr a, d')"
  shows "\<not> entitled a"
proof -
  define bare where "bare c \<longleftrightarrow> (\<forall>plan \<in> ran c. pd_features plan = [])" for c :: "string \<rightharpoonup> plan_definition"
  have rows: "pd_features (plan_of_row x (json_row p b (engine_plan_cells r))) = []"
    if "r \<in> set (engine_plans (st d))" for p b r
    using that assms(1,2) by (simp add: plan_of_row_def engine_plan_cells_def json_row_def col_str_def)
  have put: "bare c \<Longrightarrow> pd_features plan = [] \<Longrightarrow> bare (c(k \<mapsto> plan))" for c k plan
    by (auto simp: bare_def ran_def)
  have load: "bare c \<Longrightarrow> (\<forall>r \<in> set rs. pd_features (plan_of_row x r) = []) \<Longrightarrow>
      bare (fold (\<lambda>r c. c(pd_id (plan_of_row x r) \<mapsto> plan_of_row x r)) rs c)" for rs c
    by (induction rs arbitrary: c) (auto intro: put)
  have bareD: "map_of (pd_features plan) f = Some g \<Longrightarrow> c k = Some plan \<Longrightarrow> bare c \<Longrightarrow> False" for c k plan f g
    by (auto simp: bare_def ran_def)
  have empty: "bare Map.empty" by (simp add: bare_def)
  have check: "wp (check e now tenant feature) (\<lambda>r s'. \<forall>a. r = Inr a \<longrightarrow> \<not> entitled a) s" if "bare (plan_cache s)" for s
  proof -
    have none: "map_of (pd_features plan) f = Some g \<Longrightarrow> plan_cache s k = Some plan \<Longrightarrow> False" for plan f g k
      using bareD [OF _ _ that] by blast
    show ?thesis
      unfolding check_def b_query_def
    by (auto intro!: wp_intro simp: answer_def json_row_def col_str_def split: list.splits option.splits) (metis none)
  qed
  have "wp (bind_io (load_plans e x) (\<lambda>_. check e now tenant feature)) (\<lambda>r s'. \<forall>a. r = Inr a \<longrightarrow> \<not> entitled a) (st d)"
    unfolding load_plans_def b_query_def
    by (auto intro!: wp_intro check load [OF empty] simp: assms(3) rows)
  from wp_D [OF this assms(4)] show ?thesis by simp
qed


section \<open>Witnesses\<close>

text \<open>Times written as as many letters, one kind for each sign.\<close>

definition demo_show_time :: "int \<Rightarrow> string" where
  "demo_show_time t = (if t < 0 then replicate (nat (- t)) (CHR ''n'') else replicate (Suc (nat t)) (CHR ''p''))"

definition demo_parse_time :: "string \<Rightarrow> int option" where
  "demo_parse_time s = (if s = [] then None else if hd s = CHR ''n'' then Some (- int (length s)) else Some (int (length s) - 1))"

definition demo_bill_env :: bill_env where
  "demo_bill_env = \<lparr>b_parse_json = (\<lambda>_. None), b_base64 = id, b_jsonb = (\<lambda>_. Some (JObject [])), b_bool = (\<lambda>t. Some (t = ''true'')),
     b_float = (\<lambda>_. None), b_timestamp = demo_parse_time, b_show_time = demo_show_time, b_parse_time = demo_parse_time\<rparr>"

lemma demo_times_ok: "times_ok demo_bill_env"
  by (auto simp: times_ok_def demo_bill_env_def demo_show_time_def demo_parse_time_def)

definition demo_plan_row :: "string \<Rightarrow> int \<Rightarrow> plan_row" where
  "demo_plan_row i c = \<lparr>pr_id = i, pr_name = i, pr_tier = ''pro'', pr_description = [], pr_price = c, pr_interval = ''monthly'',
     pr_features = JArray [], pr_limits = JObject [], pr_active = True\<rparr>"

definition demo_sub_row :: sub_row where
  "demo_sub_row = \<lparr>sr_tenant = 7, sr_plan = ''free'', sr_add_ons = JArray [], sr_status = ''active'', sr_started = 0,
     sr_next = Some (days 30), sr_cancelled = None, sr_proration = 0\<rparr>"

definition demo_plan_db :: plan_db where
  "demo_plan_db = \<lparr>plan_rows = [demo_plan_row ''free'' 0, demo_plan_row ''pro'' 9000], add_on_rows = [], sub_rows = [demo_sub_row]\<rparr>"

lemma demo_period: "period_days 0 (days 30) = 30" "unused_days 0 (days 30) (days 10) = 20"
  by (simp_all add: period_days_def unused_days_def num_days_def days_def trunc_div_def)

text \<open>From the free plan to one for 90, with 20 of 30 days unused: 60 are due.\<close>

theorem change_plan_settles_witness:
  "\<exists>v d'. change_plan demo_bill_env (days 10) 7 ''pro'' (up demo_plan_db) = (Inr v, d')
     \<and> jget v ''proration_cents'' = Some (json_int (- 6000)) \<and> map sr_proration (sub_rows (st d')) = [- 6000]
     \<and> map sr_plan (sub_rows (st d')) = [''pro'']"
proof -
  have rows: "filter (\<lambda>r. sr_tenant r = 7) (sub_rows demo_plan_db) = [demo_sub_row]" "sr_next demo_sub_row = Some (days 30)"
    "sr_plan demo_sub_row \<noteq> []" "plain (sr_plan demo_sub_row)" "\<forall>p \<in> set (plan_rows demo_plan_db). in_i64 (pr_price p)"
    and fields: "sr_started demo_sub_row = 0" "sr_plan demo_sub_row = ''free''"
    by (simp_all add: demo_plan_db_def demo_sub_row_def demo_plan_row_def plain_Cons in_i64_def)
  have listed: "listed_price demo_plan_db ''free'' = 0" "listed_price demo_plan_db ''pro'' = 9000"
    by (simp_all add: listed_price_def demo_plan_db_def demo_plan_row_def)
  have amounts: "amounts_ok (listed_price demo_plan_db (sr_plan demo_sub_row)) (listed_price demo_plan_db ''pro'')
      (period_days (sr_started demo_sub_row) (days 30))"
    by (simp add: fields listed amounts_ok_def demo_period)
  obtain res d' where run: "change_plan demo_bill_env (days 10) 7 ''pro'' (up demo_plan_db) = (res, d')"
    by (cases "change_plan demo_bill_env (days 10) 7 ''pro'' (up demo_plan_db)")
  note settled = change_plan_settles [OF demo_times_ok rows amounts, of "days 10"]
  from conjunct2 [OF settled] run obtain v where v: "res = Inr v" by (cases res) auto
  have credit: "trunc_div (- 180000) 30 = - 6000" by (simp add: trunc_div_def)
  from conjunct1 [OF settled] have "wp (change_plan demo_bill_env (days 10) 7 ''pro'') (\<lambda>res s'. case res of Inl _ \<Rightarrow> s' = demo_plan_db
    | Inr v \<Rightarrow> jget v ''proration_cents'' = Some (json_int (- 6000)) \<and>
        s' = update_sub 7 (\<lambda>_. demo_sub_row\<lparr>sr_plan := ''pro'', sr_proration := - 6000, sr_next := Some (days 30)\<rparr>) demo_plan_db) demo_plan_db"
    by (rule wp_weaken) (simp add: fields listed demo_period credit Let_def split: sum.splits)
  from wp_up [OF this] run v have "jget v ''proration_cents'' = Some (json_int (- 6000))"
    "st d' = update_sub 7 (\<lambda>_. demo_sub_row\<lparr>sr_plan := ''pro'', sr_proration := - 6000, sr_next := Some (days 30)\<rparr>) demo_plan_db"
    by auto
  with run v show ?thesis by (intro exI [of _ v] exI [of _ d']) (simp add: update_sub_def demo_plan_db_def demo_sub_row_def)
qed

text \<open>Twenty unused days of a plan for 90 are worth 60.\<close>

theorem plan_round_trip_leaves_credit_witness:
  "\<exists>v w s1 s2. change_plan demo_bill_env (days 10) 7 ''pro'' (up demo_plan_db) = (Inr v, up s1) \<and>
     change_plan demo_bill_env (days 10) 7 ''free'' (up s1) = (Inr w, up s2) \<and> sub_rows s2 = [demo_sub_row\<lparr>sr_proration := 6000\<rparr>]"
proof -
  have rows: "filter (\<lambda>r. sr_tenant r = 7) (sub_rows demo_plan_db) = [demo_sub_row]"
    "filter (\<lambda>x. pr_id x = pr_id (demo_plan_row ''free'' 0)) (plan_rows demo_plan_db) = [demo_plan_row ''free'' 0]"
    "filter (\<lambda>x. pr_id x = pr_id (demo_plan_row ''pro'' 9000)) (plan_rows demo_plan_db) = [demo_plan_row ''pro'' 9000]"
    by (simp_all add: demo_plan_db_def demo_sub_row_def demo_plan_row_def)
  have "\<exists>v w s1 s2. change_plan demo_bill_env (days 10) 7 (pr_id (demo_plan_row ''pro'' 9000)) (up demo_plan_db) = (Inr v, up s1) \<and>
      change_plan demo_bill_env (days 10) 7 (pr_id (demo_plan_row ''free'' 0)) (up s1) = (Inr w, up s2) \<and>
      s2 = update_sub 7 (\<lambda>x. x\<lparr>sr_proration := (pr_price (demo_plan_row ''pro'' 9000) - pr_price (demo_plan_row ''free'' 0))
        * unused_days (sr_started demo_sub_row) (days 30) (days 10) div period_days (sr_started demo_sub_row) (days 30)\<rparr>) demo_plan_db"
    by (rule plan_round_trip_leaves_credit [OF demo_times_ok rows(1) _ rows(2) _ _ _ rows(3)])
      (simp_all add: demo_sub_row_def demo_plan_row_def in_i64_def plain_Cons amounts_ok_def demo_period)
  then show ?thesis
    by (auto simp: demo_plan_row_def demo_sub_row_def demo_period update_sub_def demo_plan_db_def)
qed

definition demo_engine_text :: engine_text where
  "demo_engine_text = \<lparr>grants_text = (\<lambda>_. ''g''), parse_grants = (\<lambda>t. if t = ''{}'' then Some [] else None), numbers_text = (\<lambda>_. ''n''),
     parse_numbers = (\<lambda>_. Some []), float_text = (\<lambda>_. ''1.0'')\<rparr>"

definition demo_engine_db :: engine_db where
  "demo_engine_db = \<lparr>engine_plans = [\<lparr>ep_id = ''pro'', ep_name = ''Pro'', ep_tier = 1,
       ep_features = JObject [(''export'', JObject [(''enabled'', JBool True)])], ep_limits = JObject []\<rparr>],
     tenant_plans = [\<lparr>tp_tenant = 7, tp_plan = ''pro'', tp_add_ons = JArray [], tp_started = 0, tp_expires = None\<rparr>],
     overrides = [\<lparr>or_tenant = 7, or_feature = ''export'', or_enabled = True, or_limit = None, or_reason = [], or_expires = None\<rparr>],
     plan_cache = Map.empty\<rparr>"

theorem nobody_entitled_after_restart_witness:
  "\<exists>a d'. bind_io (load_plans demo_bill_env demo_engine_text) (\<lambda>_. check demo_bill_env 5 7 ''export'') (up demo_engine_db) = (Inr a, d')
     \<and> \<not> entitled a"
proof -
  obtain a d' where run: "bind_io (load_plans demo_bill_env demo_engine_text) (\<lambda>_. check demo_bill_env 5 7 ''export'') (up demo_engine_db) = (Inr a, d')"
    by (simp add: load_plans_def check_def b_query_def demo_engine_db_def live_def)
  moreover have "\<not> entitled a"
    by (rule nobody_entitled_after_restart [OF _ _ _ run]) (simp_all add: demo_engine_text_def demo_engine_db_def)
  ultimately show ?thesis by blast
qed

end
