(* ===== verification/Charges.thy ===== *)
theory Charges imports Plans begin

text \<open>
  What is charged: the recovery of failed payments (\<open>src/src/billing/dunning.rs\<close>), invoices
  (\<open>src/src/billing/invoices.rs\<close>), trials and promotional codes (\<open>src/src/billing/trials.rs\<close>) and metered usage
  (\<open>src/src/billing/metering.rs\<close>). Stripe, the tax providers, fresh identifiers and the arithmetic on doubles
  are parameters.
\<close>

section \<open>Dunning\<close>

datatype dunning_action = Cancel | Downgrade string | Pause

record dunning_config =
  dc_tenant :: int
  retry_schedule :: "nat list"
  grace_period_days :: nat
  final_action :: dunning_action
  send_emails :: bool
  email_template_ids :: "string list"

datatype dunning_status = Retrying | Recovered | DunningFailed | GracePeriod | DunningCancelled

record dunning_event =
  de_id :: string
  de_subscription :: string
  de_tenant :: int
  attempt_number :: nat
  de_status :: dunning_status
  amount_cents :: int
  de_currency :: string
  next_retry_at :: "string option"
  de_created :: string

record config_row =
  cr_tenant :: int
  cr_schedule :: json
  cr_grace :: int
  cr_action :: string
  cr_emails :: bool

record event_row =
  ev_id :: string
  ev_subscription :: string
  ev_tenant :: int
  ev_attempt :: int
  ev_status :: string
  ev_amount :: int
  ev_currency :: string
  ev_next_retry :: "int option"
  ev_created :: int

record dunning_db =
  config_rows :: "config_row list"
  event_rows :: "event_row list"
  dn_calls :: nat

text \<open>
  \<open>dn_invoices\<close> is the answer of Stripe to the question for the open invoices of a subscription, \<open>dn_pay\<close> whether
  the payment of an invoice succeeds; both may differ from call to call.
\<close>

record dunning_env =
  stripe_key :: bool
  dn_invoices :: "nat \<Rightarrow> string \<Rightarrow> json option"
  dn_pay :: "nat \<Rightarrow> string \<Rightarrow> bool"
  parse_schedule :: "string \<Rightarrow> nat list option"
  schedule_text :: "nat list \<Rightarrow> string"
  action_text :: "dunning_action \<Rightarrow> string"

text \<open>\<open>data[0].id\<close> of the answer.\<close>

definition open_invoice :: "json \<Rightarrow> string option" where
  "open_invoice v = Option.bind (jget v ''data'') (\<lambda>d. Option.bind (as_array d) (\<lambda>xs. case xs of [] \<Rightarrow> None
     | i # _ \<Rightarrow> Option.bind (jget i ''id'') as_str))"

definition retry_payment :: "dunning_env \<Rightarrow> nat \<Rightarrow> string \<Rightarrow> bool" where
  "retry_payment g n sub =
     (stripe_key g \<and> sub \<noteq> [] \<and>
      (case Option.bind (dn_invoices g n sub) open_invoice of None \<Rightarrow> False | Some i \<Rightarrow> dn_pay g n i))"

definition update_event :: "string \<Rightarrow> (event_row \<Rightarrow> event_row) \<Rightarrow> dunning_db \<Rightarrow> dunning_db" where
  "update_event i f s = s\<lparr>event_rows := map (\<lambda>r. if ev_id r = i then f r else r) (event_rows s)\<rparr>"

definition max_attempts :: "dunning_env \<Rightarrow> row list \<Rightarrow> nat" where
  "max_attempts g rows = unwrap_or 5 (case rows of [] \<Rightarrow> None
     | r # _ \<Rightarrow> map_option length (Option.bind (col_str r ''retry_schedule'') (parse_schedule g)))"

text \<open>\<open>.unwrap_or_default()\<close> on a query.\<close>

definition attempt_query :: "('s, row list) io \<Rightarrow> ('s, row list) io" where
  "attempt_query m = bind_io (attempt m) (\<lambda>r. ret (case r of Inl _ \<Rightarrow> [] | Inr rows \<Rightarrow> rows))"

definition process_event :: "bill_env \<Rightarrow> dunning_env \<Rightarrow> int \<Rightarrow> row \<Rightarrow> (dunning_db, unit) io" where
  "process_event e g now row =
     (let event_id = unwrap_or [] (col_str row ''id''); tenant = unwrap_or 0 (col_i64 row ''tenant_id'');
          tried = u32_cast (unwrap_or 0 (col_i64 row ''attempt_number''))
      in bind_io (attempt_query (b_query e (\<lambda>s. map (\<lambda>r. [(''retry_schedule'', cell_jsonb (cr_schedule r)), (''final_action'', cell_text (cr_action r))])
             (filter (\<lambda>r. cr_tenant r = tenant) (config_rows s))))) (\<lambda>configs.
         bind_io (gets dn_calls) (\<lambda>n.
         bind_io (modify (\<lambda>s. s\<lparr>dn_calls := Suc n\<rparr>)) (\<lambda>_.
         bind_io (attempt (exec
           (if retry_payment g n (unwrap_or [] (col_str row ''subscription_id''))
            then update_event event_id (\<lambda>r. r\<lparr>ev_status := ''recovered''\<rparr>)
            else if tried + 1 \<ge> max_attempts g configs
            then update_event event_id (\<lambda>r. r\<lparr>ev_status := ''cancelled''\<rparr>)
            else update_event event_id (\<lambda>r. r\<lparr>ev_attempt := int (tried + 1), ev_next_retry := Some (now + days (int ((tried + 1) * 2)))\<rparr>))))
         (\<lambda>_. ret ())))))"


definition due :: "int \<Rightarrow> event_row \<Rightarrow> bool" where
  "due now r \<longleftrightarrow> ev_status r = ''retrying'' \<and> (case ev_next_retry r of None \<Rightarrow> False | Some t \<Rightarrow> t \<le> now)"

definition event_cells :: "event_row \<Rightarrow> (string \<times> cell) list" where
  "event_cells r = [(''id'', cell_text (ev_id r)), (''subscription_id'', cell_text (ev_subscription r)), (''tenant_id'', cell_int (ev_tenant r)),
     (''attempt_number'', cell_int (ev_attempt r)), (''amount_cents'', cell_int (ev_amount r)), (''currency'', cell_text (ev_currency r))]"

definition process_dunning :: "bill_env \<Rightarrow> dunning_env \<Rightarrow> int \<Rightarrow> (dunning_db, unit) io" where
  "process_dunning e g now =
     bind_io (attempt_query (b_query e (\<lambda>s. map event_cells (filter (due now) (event_rows s)))))
       (\<lambda>rows. for_io (\<lambda>row _. process_event e g now row) rows ())"

definition start_dunning :: "bill_env \<Rightarrow> int \<Rightarrow> string \<Rightarrow> int \<Rightarrow> string \<Rightarrow> int \<Rightarrow> string \<Rightarrow> (dunning_db, dunning_event) io" where
  "start_dunning e now fresh tenant sub amount currency =
     bind_io (stmt (\<lambda>s. if \<exists>r \<in> set (event_rows s). ev_id r = fresh then Inl (Database ''duplicate key value violates unique constraint'')
       else Inr ((), s\<lparr>event_rows := event_rows s @ [\<lparr>ev_id = fresh, ev_subscription = sub, ev_tenant = tenant, ev_attempt = 0,
         ev_status = ''retrying'', ev_amount = amount, ev_currency = currency, ev_next_retry = Some (now + days 1), ev_created = now\<rparr>]\<rparr>)))
     (\<lambda>_. ret \<lparr>de_id = fresh, de_subscription = sub, de_tenant = tenant, attempt_number = 0, de_status = Retrying, amount_cents = amount,
        de_currency = currency, next_retry_at = Some (b_show_time e now), de_created = b_show_time e now\<rparr>)"

definition dunning_get_status :: "bill_env \<Rightarrow> string \<Rightarrow> (dunning_db, json list) io" where
  "dunning_get_status e sub =
     bind_io (b_query e (\<lambda>s. map (\<lambda>r. [(''id'', cell_text (ev_id r)), (''attempt_number'', cell_int (ev_attempt r)), (''status'', cell_text (ev_status r)),
         (''amount_cents'', cell_int (ev_amount r)), (''next_retry_at'', cell_opt ''TIMESTAMPTZ'' (time_cell e) (ev_next_retry r)),
         (''created_at'', time_cell e (ev_created r))])
       (rev (sort_key ev_created (filter (\<lambda>r. ev_subscription r = sub) (event_rows s)))))) (\<lambda>rows. ret (map (\<lambda>r. JObject (obj_of r)) rows))"

definition set_config :: "bill_env \<Rightarrow> dunning_env \<Rightarrow> dunning_config \<Rightarrow> (dunning_db, unit) io" where
  "set_config e g c =
     stmt (\<lambda>s. and_then (as_jsonb e (schedule_text g (retry_schedule c))) (\<lambda>schedule. and_then (as_bool_column e (send_emails c)) (\<lambda>emails.
       (let row = \<lparr>cr_tenant = dc_tenant c, cr_schedule = schedule, cr_grace = int (grace_period_days c), cr_action = action_text g (final_action c), cr_emails = emails\<rparr>
        in Inr ((), s\<lparr>config_rows := (if \<exists>r \<in> set (config_rows s). cr_tenant r = dc_tenant c
             then map (\<lambda>r. if cr_tenant r = dc_tenant c then row else r) (config_rows s) else config_rows s @ [row])\<rparr>)))))"

section \<open>Invoices\<close>

datatype invoice_status = Draft | Sent | Paid | Overdue | Void | Refunded

record line_item =
  li_description :: string
  quantity :: "64 word"
  unit_price_cents :: int
  li_amount_cents :: int
  tax_code :: "string option"

record tax_line =
  jurisdiction :: string
  tax_type :: string
  tax_rate :: "64 word"
  tl_amount_cents :: int

record billing_address =
  company_name :: "string option"
  line1 :: string
  line2 :: "string option"
  city :: string
  ba_state :: "string option"
  postal_code :: string
  country :: string

record invoice =
  in_id :: string
  in_tenant :: int
  invoice_number :: string
  in_status :: invoice_status
  in_currency :: string
  subtotal_cents :: int
  tax_cents :: int
  total_cents :: int
  line_items :: "line_item list"
  tax_breakdown :: "tax_line list"
  in_address :: billing_address
  due_date :: string
  paid_at :: "string option"
  in_created :: string

record invoice_row =
  ir_id :: string
  ir_tenant :: int
  ir_number :: string
  ir_status :: string
  ir_currency :: string
  ir_subtotal :: int
  ir_tax :: int
  ir_total :: int
  ir_items :: json
  ir_taxes :: json
  ir_address :: json
  ir_due :: "int option"
  ir_paid :: "int option"
  ir_created :: int

record invoice_db =
  invoice_rows :: "invoice_row list"
  sequences :: "(int \<times> int) list"

record invoice_env =
  taxes :: "line_item list \<Rightarrow> billing_address \<Rightarrow> tax_line list result"
  items_text :: "line_item list \<Rightarrow> string"
  taxes_text :: "tax_line list \<Rightarrow> string"
  address_text :: "billing_address \<Rightarrow> string"

text \<open>\<open>{:06}\<close>\<close>

definition pad6 :: "int \<Rightarrow> string" where
  "pad6 n = (if n < 0 then CHR ''-'' # replicate (5 - length (show_nat (nat (- n)))) (CHR ''0'') @ show_nat (nat (- n))
     else replicate (6 - length (show_nat (nat n))) (CHR ''0'') @ show_nat (nat n))"

definition next_invoice_number :: "bill_env \<Rightarrow> int \<Rightarrow> (invoice_db, string) io" where
  "next_invoice_number e tenant =
     bind_io (exec (\<lambda>s. s\<lparr>sequences := (case map_of (sequences s) tenant of
         None \<Rightarrow> sequences s @ [(tenant, 1)] | Some n \<Rightarrow> AList.update tenant (n + 1) (sequences s))\<rparr>)) (\<lambda>_.
     bind_io (b_query e (\<lambda>s. map (\<lambda>(t, n). [(''next_number'', cell_int n)]) (filter (\<lambda>(t, n). t = tenant) (sequences s)))) (\<lambda>rows.
     ret (''INV-'' @ pad6 (case rows of [] \<Rightarrow> 1 | r # _ \<Rightarrow> unwrap_or 1 (col_i64 r ''next_number'')))))"

definition sum_i64 :: "int list \<Rightarrow> int" where
  "sum_i64 xs = fold (\<lambda>x acc. wrap_i64 (acc + x)) xs 0"

definition insert_invoice :: "bill_env \<Rightarrow> invoice_env \<Rightarrow> int \<Rightarrow> invoice \<Rightarrow> invoice_db \<Rightarrow> (unit \<times> invoice_db) result" where
  "insert_invoice e g now i s =
     and_then (as_jsonb e (items_text g (line_items i))) (\<lambda>items. and_then (as_jsonb e (taxes_text g (tax_breakdown i))) (\<lambda>txs.
     and_then (as_jsonb e (address_text g (in_address i))) (\<lambda>address. and_then (as_timestamp e (due_date i)) (\<lambda>due_at.
       if \<exists>r \<in> set (invoice_rows s). ir_id r = in_id i \<or> ir_number r = invoice_number i
       then Inl (Database ''duplicate key value violates unique constraint'')
       else Inr ((), s\<lparr>invoice_rows := invoice_rows s @ [\<lparr>ir_id = in_id i, ir_tenant = in_tenant i, ir_number = invoice_number i, ir_status = ''draft'',
         ir_currency = in_currency i, ir_subtotal = subtotal_cents i, ir_tax = tax_cents i, ir_total = total_cents i, ir_items = items,
         ir_taxes = txs, ir_address = address, ir_due = Some due_at, ir_paid = None, ir_created = now\<rparr>]\<rparr>)))))"

definition create_invoice :: "bill_env \<Rightarrow> invoice_env \<Rightarrow> int \<Rightarrow> string \<Rightarrow> int \<Rightarrow> line_item list \<Rightarrow> billing_address \<Rightarrow> string \<Rightarrow> nat \<Rightarrow>
    (invoice_db, invoice) io" where
  "create_invoice e g now fresh tenant items address currency due_days =
     bind_io (next_invoice_number e tenant) (\<lambda>number.
       (let subtotal = sum_i64 (map li_amount_cents items)
        in bind_io (lift (taxes g items address)) (\<lambda>txs.
           (let tax_total = sum_i64 (map tl_amount_cents txs);
                i = \<lparr>in_id = fresh, in_tenant = tenant, invoice_number = number, in_status = Draft, in_currency = currency,
                  subtotal_cents = subtotal, tax_cents = tax_total, total_cents = wrap_i64 (subtotal + tax_total), line_items = items,
                  tax_breakdown = txs, in_address = address, due_date = b_show_time e (now + days (int due_days)), paid_at = None,
                  in_created = b_show_time e now\<rparr>
            in bind_io (stmt (insert_invoice e g now i)) (\<lambda>_. ret i)))))"

definition mark_paid :: "int \<Rightarrow> string \<Rightarrow> (invoice_db, unit) io" where
  "mark_paid now i = exec (\<lambda>s. s\<lparr>invoice_rows := map (\<lambda>r. if ir_id r = i then r\<lparr>ir_status := ''paid'', ir_paid := Some now\<rparr> else r) (invoice_rows s)\<rparr>)"

definition list_invoices :: "bill_env \<Rightarrow> int \<Rightarrow> (invoice_db, json list) io" where
  "list_invoices e tenant =
     bind_io (b_query e (\<lambda>s. map (\<lambda>r. [(''id'', cell_text (ir_id r)), (''invoice_number'', cell_text (ir_number r)), (''status'', cell_text (ir_status r)),
         (''currency'', cell_text (ir_currency r)), (''total_cents'', cell_int (ir_total r)), (''due_date'', cell_opt ''TIMESTAMPTZ'' (time_cell e) (ir_due r)),
         (''paid_at'', cell_opt ''TIMESTAMPTZ'' (time_cell e) (ir_paid r)), (''created_at'', time_cell e (ir_created r))])
       (rev (sort_key ir_created (filter (\<lambda>r. ir_tenant r = tenant) (invoice_rows s)))))) (\<lambda>rows. ret (map (\<lambda>r. JObject (obj_of r)) rows))"

section \<open>Trials and promotional codes\<close>

datatype trial_status = TrialActive | TrialExpired | TrialConverted | TrialCancelled

record trial =
  tr_id :: string
  tr_tenant :: int
  tr_plan :: string
  tr_status :: trial_status
  tr_started :: string
  tr_expires :: string
  converted :: bool
  converted_at :: "string option"

datatype discount_type = Percentage | FixedAmount | TrialExtension nat

record promo_code =
  pc_id :: string
  pc_code :: string
  discount_type :: discount_type
  discount_value :: "64 word"
  pc_currency :: "string option"
  max_redemptions :: "nat option"
  current_redemptions :: nat
  valid_from :: string
  valid_until :: "string option"
  applicable_plans :: "string list"
  pc_created :: string

record trial_row =
  tw_id :: string
  tw_tenant :: int
  tw_plan :: string
  tw_status :: string
  tw_started :: int
  tw_expires :: int
  tw_converted :: "int option"

record promo_row =
  pw_id :: string
  pw_code :: string
  pw_type :: string
  pw_value :: "64 word"
  pw_max :: "int option"
  pw_current :: int
  pw_until :: "int option"
  pw_plans :: json

record promo_db =
  trial_rows :: "trial_row list"
  promo_rows :: "promo_row list"
  redemptions :: "(string \<times> string \<times> int) list"
  rates :: "((string \<times> string) \<times> 64 word) list"

record promo_env =
  type_text :: "discount_type \<Rightarrow> string"
  value_text :: "64 word \<Rightarrow> string"
  plans_text :: "string list \<Rightarrow> string"
  f_mult :: "64 word \<Rightarrow> 64 word \<Rightarrow> 64 word"

definition start_trial :: "bill_env \<Rightarrow> int \<Rightarrow> string \<Rightarrow> int \<Rightarrow> string \<Rightarrow> nat \<Rightarrow> (promo_db, trial) io" where
  "start_trial e now fresh tenant plan trial_days =
     (let expires = b_show_time e (now + days (int trial_days))
      in bind_io (stmt (\<lambda>s. and_then (as_timestamp e expires) (\<lambda>t.
           if \<exists>r \<in> set (trial_rows s). tw_id r = fresh then Inl (Database ''duplicate key value violates unique constraint'')
           else Inr ((), s\<lparr>trial_rows := trial_rows s @ [\<lparr>tw_id = fresh, tw_tenant = tenant, tw_plan = plan, tw_status = ''active'',
             tw_started = now, tw_expires = t, tw_converted = None\<rparr>]\<rparr>)))) (\<lambda>_.
         ret \<lparr>tr_id = fresh, tr_tenant = tenant, tr_plan = plan, tr_status = TrialActive, tr_started = b_show_time e now, tr_expires = expires,
           converted = False, converted_at = None\<rparr>))"

definition convert_trial :: "int \<Rightarrow> string \<Rightarrow> (promo_db, unit) io" where
  "convert_trial now i = exec (\<lambda>s. s\<lparr>trial_rows := map (\<lambda>r. if tw_id r = i \<and> tw_status r = ''active''
     then r\<lparr>tw_status := ''converted'', tw_converted := Some now\<rparr> else r) (trial_rows s)\<rparr>)"

definition has_active_trial :: "bill_env \<Rightarrow> int \<Rightarrow> int \<Rightarrow> (promo_db, trial option) io" where
  "has_active_trial e now tenant =
     bind_io (b_query e (\<lambda>s. take 1 (map (\<lambda>r. [(''id'', cell_text (tw_id r)), (''plan_id'', cell_text (tw_plan r)), (''status'', cell_text (tw_status r)),
         (''started_at'', time_cell e (tw_started r)), (''expires_at'', time_cell e (tw_expires r))])
       (rev (sort_key tw_started (filter (\<lambda>r. tw_tenant r = tenant \<and> tw_status r = ''active'' \<and> tw_expires r > now) (trial_rows s)))))))
     (\<lambda>rows. ret (case rows of [] \<Rightarrow> None
        | row # _ \<Rightarrow> Some \<lparr>tr_id = unwrap_or [] (col_str row ''id''), tr_tenant = tenant, tr_plan = unwrap_or [] (col_str row ''plan_id''),
            tr_status = TrialActive, tr_started = unwrap_or [] (col_str row ''started_at''), tr_expires = unwrap_or [] (col_str row ''expires_at''),
            converted = False, converted_at = None\<rparr>))"

text \<open>An absent limit is sent as zero, an absent end as the empty text.\<close>

definition create_promo :: "bill_env \<Rightarrow> promo_env \<Rightarrow> int \<Rightarrow> string \<Rightarrow> string \<Rightarrow> discount_type \<Rightarrow> 64 word \<Rightarrow> nat option \<Rightarrow> string option \<Rightarrow> string list \<Rightarrow>
    (promo_db, promo_code) io" where
  "create_promo e g now fresh code ty val max_r until_at plans =
     bind_io (stmt (\<lambda>s. and_then (as_float_column e (value_text g val)) (\<lambda>v. and_then (as_timestamp e (unwrap_or [] until_at)) (\<lambda>t.
       and_then (as_jsonb e (plans_text g plans)) (\<lambda>ps.
         if \<exists>r \<in> set (promo_rows s). pw_id r = fresh \<or> pw_code r = code then Inl (Database ''duplicate key value violates unique constraint'')
         else Inr ((), s\<lparr>promo_rows := promo_rows s @ [\<lparr>pw_id = fresh, pw_code = code, pw_type = type_text g ty, pw_value = v,
           pw_max = Some (int (unwrap_or 0 max_r)), pw_current = 0, pw_until = Some t, pw_plans = ps\<rparr>]\<rparr>)))))) (\<lambda>_.
     ret \<lparr>pc_id = fresh, pc_code = code, discount_type = ty, discount_value = val, pc_currency = None, max_redemptions = max_r,
       current_redemptions = 0, valid_from = b_show_time e now, valid_until = until_at, applicable_plans = plans, pc_created = b_show_time e now\<rparr>)"

definition promo_cells :: "bill_env \<Rightarrow> promo_row \<Rightarrow> (string \<times> cell) list" where
  "promo_cells e r = [(''id'', cell_text (pw_id r)), (''discount_type'', cell_text (pw_type r)), (''discount_value'', cell_float (pw_value r)),
     (''max_redemptions'', cell_opt ''INT4'' cell_int (pw_max r)), (''current_redemptions'', cell_int (pw_current r)),
     (''valid_until'', cell_opt ''TIMESTAMPTZ'' (time_cell e) (pw_until r)), (''applicable_plans'', cell_jsonb (pw_plans r))]"

text \<open>One more redemption; the column is an \<open>INTEGER\<close>.\<close>

definition counted_once :: "promo_row \<Rightarrow> promo_row" where
  "counted_once r = r\<lparr>pw_current := pw_current r + 1\<rparr>"

definition redeem_promo :: "bill_env \<Rightarrow> string \<Rightarrow> string \<Rightarrow> int \<Rightarrow> string \<Rightarrow> (promo_db, 64 word) io" where
  "redeem_promo e fresh code tenant plan =
     bind_io (b_query e (\<lambda>s. map (promo_cells e) (filter (\<lambda>r. pw_code r = code) (promo_rows s)))) (\<lambda>rows. case rows of
        [] \<Rightarrow> fail (NotFound ''Promo code not found'')
      | row # _ \<Rightarrow>
          (let promo_id = unwrap_or [] (col_str row ''id'');
               max_r = u32_cast (unwrap_or 0 (col_i64 row ''max_redemptions''));
               cur_r = u32_cast (unwrap_or 0 (col_i64 row ''current_redemptions''))
           in if max_r > 0 \<and> cur_r \<ge> max_r then fail (InvalidPayload ''Promo code redemption limit reached'')
              else bind_io (exec (\<lambda>s. s\<lparr>redemptions := redemptions s @ [(fresh, promo_id, tenant)]\<rparr>)) (\<lambda>_.
                bind_io (stmt (\<lambda>s. if \<exists>r \<in> set (promo_rows s). pw_id r = promo_id \<and> pw_current r = 2147483647
                  then Inl (Database ''integer out of range'')
                  else Inr ((), s\<lparr>promo_rows := map (\<lambda>r. if pw_id r = promo_id then counted_once r else r) (promo_rows s)\<rparr>))) (\<lambda>_.
                ret (unwrap_or 0 (Option.bind (row_get row ''discount_value'') as_float))))))"

definition convert_currency :: "bill_env \<Rightarrow> promo_env \<Rightarrow> 64 word \<Rightarrow> string \<Rightarrow> string \<Rightarrow> (promo_db, 64 word) io" where
  "convert_currency e g amount from_currency to_currency =
     (if from_currency = to_currency then ret amount
      else bind_io (b_query e (\<lambda>s. map (\<lambda>(k, v). [(''rate'', cell_float v)]) (filter (\<lambda>(k, v). k = (from_currency, to_currency)) (rates s))))
        (\<lambda>rows. bind_io (lift (ok_or (NotFound (''No rate for '' @ from_currency @ '' -> '' @ to_currency))
            (case rows of [] \<Rightarrow> None | r # _ \<Rightarrow> Option.bind (row_get r ''rate'') as_float)))
          (\<lambda>rate. ret (f_mult g amount rate))))"

definition set_currency_rate :: "bill_env \<Rightarrow> promo_env \<Rightarrow> string \<Rightarrow> string \<Rightarrow> 64 word \<Rightarrow> (promo_db, unit) io" where
  "set_currency_rate e g from_currency to_currency rate =
     stmt (\<lambda>s. and_then (as_float_column e (value_text g rate)) (\<lambda>r.
       Inr ((), s\<lparr>rates := AList.update (from_currency, to_currency) r (rates s)\<rparr>)))"

section \<open>Metering\<close>

record metering_event =
  event_id :: string
  me_tenant :: int
  meter_id :: string
  me_quantity :: "64 word"
  me_properties :: "(string \<times> string) list"
  me_timestamp :: string
  me_source :: string

datatype aggregate_type = Sum | Count | MaxValue | UniqueCount | LastValue
datatype reset_period = MonthlyReset | WeeklyReset | DailyReset | Never

record meter_config =
  mc_id :: string
  mc_name :: string
  aggregate :: aggregate_type
  reset_period :: reset_period
  property_filters :: "string list"

record metering_row =
  mr_event :: string
  mr_tenant :: int
  mr_meter :: string
  mr_quantity :: "64 word"
  mr_properties :: json
  mr_source :: string
  mr_time :: int

record total_row =
  to_tenant :: int
  to_meter :: string
  to_period :: int
  to_total :: "64 word"
  to_count :: int
  to_updated :: int

record metering_db =
  metering_rows :: "metering_row list"
  total_rows :: "total_row list"
  meter_rows :: "(string \<times> string \<times> string \<times> string \<times> json) list"

record metering_env =
  properties_text :: "(string \<times> string) list \<Rightarrow> string"
  quantity_text :: "64 word \<Rightarrow> string"
  filters_text :: "string list \<Rightarrow> string"
  f_plus :: "64 word \<Rightarrow> 64 word \<Rightarrow> 64 word"
  month_of :: "int \<Rightarrow> int"

fun aggregate_text :: "aggregate_type \<Rightarrow> string" where
  "aggregate_text Sum = ''sum''"
| "aggregate_text Count = ''count''"
| "aggregate_text MaxValue = ''max''"
| "aggregate_text UniqueCount = ''unique_count''"
| "aggregate_text LastValue = ''last_value''"

fun reset_text :: "reset_period \<Rightarrow> string" where
  "reset_text MonthlyReset = ''monthly''"
| "reset_text WeeklyReset = ''weekly''"
| "reset_text DailyReset = ''daily''"
| "reset_text Never = ''never''"

definition store_event :: "bill_env \<Rightarrow> metering_env \<Rightarrow> metering_event \<Rightarrow> metering_db \<Rightarrow> (unit \<times> metering_db) result" where
  "store_event e g ev s =
     and_then (as_float_column e (quantity_text g (me_quantity ev))) (\<lambda>q. and_then (as_jsonb e (properties_text g (me_properties ev))) (\<lambda>ps.
     and_then (as_timestamp e (me_timestamp ev)) (\<lambda>t.
       Inr ((), if \<exists>r \<in> set (metering_rows s). mr_event r = event_id ev then s
         else s\<lparr>metering_rows := metering_rows s @ [\<lparr>mr_event = event_id ev, mr_tenant = me_tenant ev, mr_meter = meter_id ev, mr_quantity = q,
           mr_properties = ps, mr_source = me_source ev, mr_time = t\<rparr>]\<rparr>))))"

definition same_total :: "metering_env \<Rightarrow> int \<Rightarrow> int \<Rightarrow> string \<Rightarrow> total_row \<Rightarrow> bool" where
  "same_total g now tenant meter r \<longleftrightarrow> to_tenant r = tenant \<and> to_meter r = meter \<and> to_period r = month_of g now"

definition add_total :: "bill_env \<Rightarrow> metering_env \<Rightarrow> int \<Rightarrow> metering_event \<Rightarrow> metering_db \<Rightarrow> (unit \<times> metering_db) result" where
  "add_total e g now ev s =
     and_then (as_float_column e (quantity_text g (me_quantity ev))) (\<lambda>q.
       Inr ((), if \<exists>r \<in> set (total_rows s). same_total g now (me_tenant ev) (meter_id ev) r
         then s\<lparr>total_rows := map (\<lambda>r. if same_total g now (me_tenant ev) (meter_id ev) r
           then r\<lparr>to_total := f_plus g (to_total r) q, to_count := to_count r + 1, to_updated := now\<rparr> else r) (total_rows s)\<rparr>
         else s\<lparr>total_rows := total_rows s @ [\<lparr>to_tenant = me_tenant ev, to_meter = meter_id ev, to_period = month_of g now, to_total = q,
           to_count = 1, to_updated = now\<rparr>]\<rparr>))"

definition ingest :: "bill_env \<Rightarrow> metering_env \<Rightarrow> int \<Rightarrow> metering_event \<Rightarrow> (metering_db, unit) io" where
  "ingest e g now ev = bind_io (stmt (store_event e g ev)) (\<lambda>_. stmt (add_total e g now ev))"

definition ingest_batch :: "bill_env \<Rightarrow> metering_env \<Rightarrow> int \<Rightarrow> metering_event list \<Rightarrow> (metering_db, nat) io" where
  "ingest_batch e g now evs = for_io (\<lambda>ev n. bind_io (ingest e g now ev) (\<lambda>_. ret (Suc n))) evs 0"

definition get_usage :: "bill_env \<Rightarrow> metering_env \<Rightarrow> int \<Rightarrow> int \<Rightarrow> string \<Rightarrow> (metering_db, 64 word) io" where
  "get_usage e g now tenant meter =
     bind_io (b_query e (\<lambda>s. map (\<lambda>r. [(''total'', cell_float (to_total r))]) (filter (same_total g now tenant meter) (total_rows s))))
       (\<lambda>rows. ret (case rows of [] \<Rightarrow> 0 | r # _ \<Rightarrow> unwrap_or 0 (Option.bind (row_get r ''total'') as_float)))"

definition get_usage_breakdown :: "bill_env \<Rightarrow> metering_env \<Rightarrow> int \<Rightarrow> int \<Rightarrow> (metering_db, json list) io" where
  "get_usage_breakdown e g now tenant =
     bind_io (b_query e (\<lambda>s. map (\<lambda>r. [(''meter_id'', cell_text (to_meter r)), (''total'', cell_float (to_total r)), (''event_count'', cell_int (to_count r)),
         (''last_updated'', time_cell e (to_updated r))]) (filter (\<lambda>r. to_tenant r = tenant \<and> to_period r = month_of g now) (total_rows s))))
       (\<lambda>rows. ret (map (\<lambda>r. JObject (obj_of r)) rows))"

definition upsert_meter :: "bill_env \<Rightarrow> metering_env \<Rightarrow> meter_config \<Rightarrow> (metering_db, unit) io" where
  "upsert_meter e g c =
     stmt (\<lambda>s. and_then (as_jsonb e (filters_text g (property_filters c))) (\<lambda>fs.
       (let row = (mc_name c, aggregate_text (aggregate c), reset_text (reset_period c))
        in Inr ((), s\<lparr>meter_rows := (if mc_id c \<in> fst ` set (meter_rows s)
             then map (\<lambda>(i, n, a, r, p). if i = mc_id c then (i, fst row, fst (snd row), snd (snd row), p) else (i, n, a, r, p)) (meter_rows s)
             else meter_rows s @ [(mc_id c, mc_name c, aggregate_text (aggregate c), reset_text (reset_period c), fs)])\<rparr>))))"

section \<open>What dunning does\<close>

text \<open>The outcome of one retry of an event: five attempts, whatever is configured.\<close>

definition retried :: "dunning_env \<Rightarrow> int \<Rightarrow> nat \<Rightarrow> event_row \<Rightarrow> event_row" where
  "retried g now n r =
     (if retry_payment g n (ev_subscription r) then r\<lparr>ev_status := ''recovered''\<rparr>
      else if ev_attempt r \<ge> 4 then r\<lparr>ev_status := ''cancelled''\<rparr>
      else r\<lparr>ev_attempt := ev_attempt r + 1, ev_next_retry := Some (now + days ((ev_attempt r + 1) * 2))\<rparr>)"

text \<open>The schedules in the table are JSON other than strings, the texts of the events plain.\<close>

definition dunning_inv :: "dunning_db \<Rightarrow> bool" where
  "dunning_inv s \<longleftrightarrow> (\<forall>c \<in> set (config_rows s). as_str (cr_schedule c) = None) \<and> distinct (map ev_id (event_rows s)) \<and>
     (\<forall>r \<in> set (event_rows s). plain (ev_id r) \<and> plain (ev_subscription r) \<and> in_i64 (ev_tenant r) \<and> 0 \<le> ev_attempt r \<and> ev_attempt r \<le> 4)"

lemma update_event_cong:
  "(\<And>x. x \<in> set (event_rows s) \<Longrightarrow> ev_id x = i \<Longrightarrow> f x = h x) \<Longrightarrow> update_event i f s = update_event i h s"
proof -
  assume eq: "\<And>x. x \<in> set (event_rows s) \<Longrightarrow> ev_id x = i \<Longrightarrow> f x = h x"
  then have "map (\<lambda>r. if ev_id r = i then f r else r) (event_rows s) = map (\<lambda>r. if ev_id r = i then h r else r) (event_rows s)"
    by (intro map_cong) simp_all
  then show ?thesis by (simp add: update_event_def)
qed

lemma update_event_calls: "update_event i f (s\<lparr>dn_calls := n\<rparr>) = (update_event i f s)\<lparr>dn_calls := n\<rparr>"
  by (simp add: update_event_def)

lemma max_attempts_five:
  "\<forall>c \<in> set cs. as_str (cr_schedule c) = None \<Longrightarrow>
   max_attempts g (map (json_row p b \<circ> (\<lambda>r. [(''retry_schedule'', cell_jsonb (cr_schedule r)), (''final_action'', cell_text (cr_action r))])) cs) = 5"
  by (cases cs) (simp_all add: max_attempts_def json_row_def col_str_def)

lemma process_event_up:
  assumes "dunning_inv s" and "r \<in> set (event_rows s)"
  shows "process_event e g now (json_row (b_parse_json e) (b_base64 e) (event_cells r)) (up s) =
    (Inr (), up ((update_event (ev_id r) (retried g now (dn_calls s)) s)\<lparr>dn_calls := Suc (dn_calls s)\<rparr>))"
proof -
  have r: "plain (ev_id r)" "plain (ev_subscription r)" "in_i64 (ev_tenant r)" "0 \<le> ev_attempt r" "ev_attempt r \<le> 4"
    using assms by (auto simp: dunning_inv_def)
  then have i: "in_i64 (ev_attempt r)" by (simp add: in_i64_def)
  have row: "col_str (json_row p b (event_cells r)) ''id'' = Some (ev_id r)"
    "col_str (json_row p b (event_cells r)) ''subscription_id'' = Some (ev_subscription r)"
    "col_i64 (json_row p b (event_cells r)) ''tenant_id'' = Some (ev_tenant r)"
    "col_i64 (json_row p b (event_cells r)) ''attempt_number'' = Some (ev_attempt r)" for p b
    using r i by (simp_all add: event_cells_def json_row_def col_str_def col_i64_def)
  have u: "u32_cast (ev_attempt r) = nat (ev_attempt r)" using r(4,5) by (simp add: u32_cast_def)
  have five: "max_attempts g (map (json_row (b_parse_json e) (b_base64 e) \<circ> (\<lambda>r. [(''retry_schedule'', cell_jsonb (cr_schedule r)), (''final_action'', cell_text (cr_action r))]))
      (filter (\<lambda>c. cr_tenant c = ev_tenant r) (config_rows s))) = 5"
    by (rule max_attempts_five) (use assms(1) in \<open>auto simp: dunning_inv_def\<close>)
  have same: "x = r" if "x \<in> set (event_rows s)" "ev_id x = ev_id r" for x
    using that assms by (auto simp: dunning_inv_def distinct_map inj_on_def)
  have outcome: "update_event (ev_id r) f s = update_event (ev_id r) (retried g now (dn_calls s)) s"
    if "f r = retried g now (dn_calls s) r" for f
    by (rule update_event_cong) (use that same in blast)
  have "4 \<le> nat (ev_attempt r) \<longleftrightarrow> 4 \<le> ev_attempt r" by auto
  with five r show ?thesis
    by (auto simp: process_event_def attempt_query_def b_query_def row u Let_def update_event_calls intro!: arg_cong [of _ _ up]
        arg_cong [of _ _ "\<lambda>s'. s'\<lparr>dn_calls := Suc (dn_calls s)\<rparr>"] outcome) (auto simp: retried_def ac_simps)
qed


lemma retried_id [simp]: "ev_id (retried g now n r) = ev_id r" "ev_subscription (retried g now n r) = ev_subscription r"
  "ev_tenant (retried g now n r) = ev_tenant r"
  by (simp_all add: retried_def)

lemma retried_attempt: "0 \<le> ev_attempt r \<Longrightarrow> ev_attempt r \<le> 4 \<Longrightarrow> 0 \<le> ev_attempt (retried g now n r) \<and> ev_attempt (retried g now n r) \<le> 4"
  by (simp add: retried_def)

lemma map_retried_ids: "map ev_id (map (\<lambda>x. if ev_id x = i then retried g now n x else x) xs) = map ev_id xs"
  by simp

lemma dunning_inv_retried:
  "dunning_inv s \<Longrightarrow> dunning_inv ((update_event i (retried g now n) s)\<lparr>dn_calls := m\<rparr>)"
  using retried_attempt by (auto simp: dunning_inv_def update_event_def comp_def if_distrib cong: if_cong)

lemma process_events_up:
  "dunning_inv s \<Longrightarrow> distinct (map ev_id rs) \<Longrightarrow> set rs \<subseteq> set (event_rows s) \<Longrightarrow>
   \<exists>s'. for_io (\<lambda>row _. process_event e g now row) (map (\<lambda>r. json_row (b_parse_json e) (b_base64 e) (event_cells r)) rs) () (up s) = (Inr (), up s') \<and>
     dunning_inv s' \<and> config_rows s' = config_rows s \<and>
     list_all2 (\<lambda>r r'. if ev_id r \<in> ev_id ` set rs then \<exists>n. r' = retried g now n r else r' = r) (event_rows s) (event_rows s')"
proof (induction rs arbitrary: s)
  case Nil
  then show ?case by (simp add: list_all2_refl)
next
  case (Cons r rs)
  let ?s1 = "(update_event (ev_id r) (retried g now (dn_calls s)) s)\<lparr>dn_calls := Suc (dn_calls s)\<rparr>"
  have step: "process_event e g now (json_row (b_parse_json e) (b_base64 e) (event_cells r)) (up s) = (Inr (), up ?s1)"
    by (rule process_event_up) (use Cons.prems in auto)
  have rows1: "event_rows ?s1 = map (\<lambda>x. if ev_id x = ev_id r then retried g now (dn_calls s) x else x) (event_rows s)"
    by (simp add: update_event_def)
  have "x \<in> set (event_rows ?s1)" if "x \<in> set rs" for x
  proof -
    from that Cons.prems(2) have "ev_id x \<noteq> ev_id r" by (metis distinct.simps(2) imageI list.map(2) list.set_map)
    with that Cons.prems(3) have "x \<in> set (event_rows s)" "ev_id x \<noteq> ev_id r" by auto
    then show ?thesis unfolding rows1 set_map by (intro image_eqI [of _ _ x]) simp_all
  qed
  then have "set rs \<subseteq> set (event_rows ?s1)" by blast
  from Cons.IH [OF dunning_inv_retried [OF Cons.prems(1)] _ this] Cons.prems(2)
  obtain s' where s': "for_io (\<lambda>row _. process_event e g now row) (map (\<lambda>r. json_row (b_parse_json e) (b_base64 e) (event_cells r)) rs) () (up ?s1) = (Inr (), up s')"
    "dunning_inv s'" "config_rows s' = config_rows ?s1"
    "list_all2 (\<lambda>r r'. if ev_id r \<in> ev_id ` set rs then \<exists>n. r' = retried g now n r else r' = r) (event_rows ?s1) (event_rows s')"
    by auto
  have new: "ev_id r \<notin> ev_id ` set rs" using Cons.prems(2) by simp
  have "list_all2 (\<lambda>x r'. if ev_id x \<in> ev_id ` set (r # rs) then \<exists>n. r' = retried g now n x else r' = x) (event_rows s) (event_rows s')"
    using s'(4) unfolding rows1 list_all2_map1
    by (rule list_all2_mono) (use new in \<open>auto split: if_splits\<close>)
  with s'(1-3) step show ?case by (intro exI [of _ s']) (simp add: update_event_def)
qed

lemma dunning_inv_update:
  "dunning_inv s \<Longrightarrow> (\<And>r. ev_id (f r) = ev_id r \<and> ev_subscription (f r) = ev_subscription r \<and> ev_tenant (f r) = ev_tenant r) \<Longrightarrow>
   (\<And>r. 0 \<le> ev_attempt r \<Longrightarrow> ev_attempt r \<le> 4 \<Longrightarrow> 0 \<le> ev_attempt (f r) \<and> ev_attempt (f r) \<le> 4) \<Longrightarrow> dunning_inv (update_event i f s)"
  by (auto simp: dunning_inv_def update_event_def comp_def if_distrib cong: if_cong)

lemma keeps_process_event: "keeps dunning_inv (process_event e g now row)"
proof -
  have "wp (process_event e g now row) (\<lambda>_. dunning_inv) s" if inv: "dunning_inv s" for s
  proof -
    let ?q = "map (json_row (b_parse_json e) (b_base64 e) \<circ> (\<lambda>r. [(''retry_schedule'', cell_jsonb (cr_schedule r)), (''final_action'', cell_text (cr_action r))]))"
    have five: "max_attempts g [] = 5" "max_attempts g (?q (filter P (config_rows s))) = 5" for P
      using inv max_attempts_five [of "filter P (config_rows s)" g "b_parse_json e" "b_base64 e"]
      by (auto simp: dunning_inv_def max_attempts_def)
    have calls: "dunning_inv (s\<lparr>dn_calls := n\<rparr>) = dunning_inv s" for n s by (simp add: dunning_inv_def)
    show ?thesis
      unfolding process_event_def attempt_query_def b_query_def Let_def
      by (auto intro!: wp_intro dunning_inv_update simp: inv five calls)
  qed
  then show ?thesis by (simp add: keeps_def wp_def)
qed

text \<open>
  One hourly pass of the dunning worker retries every payment that is due and touches no other: it recovers the
  event when the payment succeeds, gives up on the fifth failure, and otherwise waits two days longer each time. The
  schedule a tenant has configured, and the action for the end, play no part: they come back from \<open>jsonb\<close> as an
  array where a string is expected. No event ever counts more than four failed attempts, under any failures.
\<close>

theorem dunning_pass:
  assumes "dunning_inv s"
  shows "(\<exists>s'. process_dunning e g now (up s) = (Inr (), up s') \<and> dunning_inv s' \<and>
      list_all2 (\<lambda>r r'. if due now r then \<exists>n. r' = retried g now n r else r' = r) (event_rows s) (event_rows s')) \<and>
    (\<forall>d. st d = s \<longrightarrow> dunning_inv (st (snd (process_dunning e g now d))))"
proof (intro conjI allI impI)
  let ?rs = "filter (due now) (event_rows s)"
  have "distinct (map ev_id ?rs)" "set ?rs \<subseteq> set (event_rows s)"
    using assms by (auto simp: dunning_inv_def distinct_map_filter)
  from process_events_up [OF assms this, of e g now] obtain s' where s':
    "for_io (\<lambda>row _. process_event e g now row) (map (\<lambda>r. json_row (b_parse_json e) (b_base64 e) (event_cells r)) ?rs) () (up s) = (Inr (), up s')"
    "dunning_inv s'"
    "list_all2 (\<lambda>r r'. if ev_id r \<in> ev_id ` set ?rs then \<exists>n. r' = retried g now n r else r' = r) (event_rows s) (event_rows s')" by blast
  have in_due: "ev_id r \<in> ev_id ` set ?rs \<longleftrightarrow> due now r" if "r \<in> set (event_rows s)" for r
    using that assms by (auto simp: dunning_inv_def distinct_map inj_on_def)
  have "list_all2 (\<lambda>r r'. if due now r then \<exists>n. r' = retried g now n r else r' = r) (event_rows s) (event_rows s')"
    using s'(3) by (rule list.rel_mono_strong) (use in_due in auto)
  moreover have "process_dunning e g now (up s) = (Inr (), up s')"
    using s'(1) by (simp add: process_dunning_def attempt_query_def b_query_def comp_def)
  ultimately show "\<exists>s'. process_dunning e g now (up s) = (Inr (), up s') \<and> dunning_inv s' \<and>
      list_all2 (\<lambda>r r'. if due now r then \<exists>n. r' = retried g now n r else r' = r) (event_rows s) (event_rows s')"
    using s'(2) by blast
next
  fix d :: "dunning_db db" assume "st d = s"
  moreover have "keeps dunning_inv (process_dunning e g now)"
    unfolding process_dunning_def attempt_query_def b_query_def by (intro keeps_intro keeps_process_event)
  ultimately show "dunning_inv (st (snd (process_dunning e g now d)))" using assms by (simp add: keeps_def)
qed

section \<open>What codes, invoices and meters do\<close>

text \<open>Distinct identifiers and codes, counters in the range of their columns, no code redeemed more often than allowed.\<close>

definition promo_row_ok :: "promo_row \<Rightarrow> bool" where
  "promo_row_ok r \<longleftrightarrow> plain (pw_id r) \<and> 0 \<le> pw_current r \<and> pw_current r \<le> 2147483647 \<and>
     (case pw_max r of None \<Rightarrow> True | Some m \<Rightarrow> 0 \<le> m \<and> m \<le> 2147483647 \<and> (0 < m \<longrightarrow> pw_current r \<le> m))"

definition used_up :: "promo_row \<Rightarrow> bool" where
  "used_up r \<longleftrightarrow> (case pw_max r of None \<Rightarrow> False | Some m \<Rightarrow> 0 < m \<and> m \<le> pw_current r)"

definition promo_inv :: "promo_db \<Rightarrow> bool" where
  "promo_inv s \<longleftrightarrow> distinct (map pw_id (promo_rows s)) \<and> distinct (map pw_code (promo_rows s)) \<and> (\<forall>r \<in> set (promo_rows s). promo_row_ok r)"

lemma promo_fields [simp]:
  "pw_id (counted_once r) = pw_id r" "pw_code (counted_once r) = pw_code r" "pw_max (counted_once r) = pw_max r"
  "pw_current (counted_once r) = pw_current r + 1"
  by (simp_all add: counted_once_def)

lemma get_value_float [simp]: "get_value_from_row p b (cell_float f) = JNumber (Float f)"
  by (simp add: get_value_from_row_def cell_float_def no_cell_def first_some_def)

lemma promo_reads:
  assumes "promo_row_ok r"
  shows "col_str (json_row p b (promo_cells e r)) ''id'' = Some (pw_id r)"
    and "u32_cast (unwrap_or 0 (col_i64 (json_row p b (promo_cells e r)) ''max_redemptions'')) = nat (unwrap_or 0 (pw_max r))"
    and "u32_cast (unwrap_or 0 (col_i64 (json_row p b (promo_cells e r)) ''current_redemptions'')) = nat (pw_current r)"
    and "Option.bind (row_get (json_row p b (promo_cells e r)) ''discount_value'') as_float = Some (pw_value r)"
  using assms
  by (auto simp: promo_row_ok_def promo_cells_def json_row_def col_str_def col_i64_def row_get_def cell_opt_def u32_cast_def in_i64_def
      as_float_def       split: option.splits)

lemma used_up_iff:
  "promo_row_ok r \<Longrightarrow> used_up r \<longleftrightarrow> 0 < nat (unwrap_or 0 (pw_max r)) \<and> nat (unwrap_or 0 (pw_max r)) \<le> nat (pw_current r)"
  by (auto simp: used_up_def promo_row_ok_def split: option.splits)

lemma counted_once_ok: "promo_row_ok r \<Longrightarrow> \<not> used_up r \<Longrightarrow> pw_current r \<noteq> 2147483647 \<Longrightarrow> promo_row_ok (counted_once r)"
  by (auto simp: promo_row_ok_def used_up_def split: option.splits)

lemma code_is_unique:
  "promo_inv s \<Longrightarrow> r \<in> set (promo_rows s) \<Longrightarrow> filter (\<lambda>x. pw_code x = pw_code r) (promo_rows s) = [r]"
  unfolding promo_inv_def by (rule filter_by_key) simp_all

text \<open>
  A promotional code with a limit is never redeemed more often than the limit, whatever fails between the calls
  of a redemption; a code that is used up is refused and nothing changes. Every other code is redeemed, one more is
  counted and its value returned: for every plan, whether the code is offered for it or not, and after the end of
  its validity as before.
\<close>

theorem promo_limit:
  assumes "promo_inv s" and "r \<in> set (promo_rows s)" and "pw_current r \<noteq> 2147483647"
  shows "redeem_promo e fresh (pw_code r) tenant plan (up s) =
      (if used_up r then (Inl (InvalidPayload ''Promo code redemption limit reached''), up s)
       else (Inr (pw_value r), up (s\<lparr>redemptions := redemptions s @ [(fresh, pw_id r, tenant)],
         promo_rows := map (\<lambda>x. if pw_id x = pw_id r then counted_once x else x) (promo_rows s)\<rparr>))) \<and>
    (\<forall>code d. st d = s \<longrightarrow> promo_inv (st (snd (redeem_promo e fresh code tenant plan d))))"
proof -
  have ok: "promo_row_ok r" and one: "\<And>x. x \<in> set (promo_rows s) \<Longrightarrow> pw_id x = pw_id r \<Longrightarrow> x = r"
    using assms(1,2) by (auto simp: promo_inv_def distinct_map inj_on_def)
  have same: "(\<exists>x \<in> set (promo_rows s). pw_id x = pw_id r \<and> pw_current x = 2147483647) \<longleftrightarrow> False"
    using one assms(3) by blast
  have run: "redeem_promo e fresh (pw_code r) tenant plan (up s) =
      (if used_up r then (Inl (InvalidPayload ''Promo code redemption limit reached''), up s)
       else (Inr (pw_value r), up (s\<lparr>redemptions := redemptions s @ [(fresh, pw_id r, tenant)],
         promo_rows := map (\<lambda>x. if pw_id x = pw_id r then counted_once x else x) (promo_rows s)\<rparr>)))"
    by (simp add: redeem_promo_def b_query_def code_is_unique [OF assms(1,2)] promo_reads [OF ok] used_up_iff [OF ok] same Let_def)
  have "wp (redeem_promo e fresh code tenant plan) (\<lambda>_. promo_inv) s" for code
  proof (cases "filter (\<lambda>x. pw_code x = code) (promo_rows s)")
    case Nil
    with assms(1) show ?thesis unfolding redeem_promo_def b_query_def by (auto intro!: wp_intro)
  next
    case (Cons x xs)
    then have x: "x \<in> set (promo_rows s)" 
    proof -
      have "x \<in> set (filter (\<lambda>x. pw_code x = code) (promo_rows s))" using Cons by simp
      then show ?thesis by simp
    qed
    with assms(1) have okx: "promo_row_ok x" by (simp add: promo_inv_def)
    have onex: "\<And>y. y \<in> set (promo_rows s) \<Longrightarrow> pw_id y = pw_id x \<Longrightarrow> y = x"
      using assms(1) x by (auto simp: promo_inv_def distinct_map inj_on_def)
    have put: "promo_inv (s\<lparr>redemptions := q, promo_rows := map (\<lambda>y. if pw_id y = pw_id x then counted_once y else y) (promo_rows s)\<rparr>)"
      if "\<not> used_up x" "pw_current x \<noteq> 2147483647" for q
      using assms(1) onex counted_once_ok [OF okx that] by (auto simp: promo_inv_def comp_def if_distrib cong: if_cong)
    have red: "promo_inv (s\<lparr>redemptions := q\<rparr>)" for q using assms(1) by (simp add: promo_inv_def)
    have free: "pw_current x \<noteq> 2147483647" if "\<not> (\<exists>y \<in> set (promo_rows s). pw_id y = pw_id x \<and> pw_current y = 2147483647)"
      using that x by blast
    show ?thesis
      unfolding redeem_promo_def b_query_def Let_def
      by (intro wp_intro) (auto simp: Cons promo_reads [OF okx] used_up_iff [OF okx] assms(1) red split: if_splits
        intro!: wp_intro put [unfolded used_up_iff [OF okx]] free)
  qed
  with run show ?thesis by (simp add: wp_def)
qed


text \<open>The number the next invoice of a tenant gets.\<close>

definition next_number :: "int \<Rightarrow> invoice_db \<Rightarrow> int" where
  "next_number tenant s = (case map_of (sequences s) tenant of None \<Rightarrow> 1 | Some n \<Rightarrow> n + 1)"

definition advanced :: "int \<Rightarrow> invoice_db \<Rightarrow> invoice_db" where
  "advanced tenant s = s\<lparr>sequences := (case map_of (sequences s) tenant of
     None \<Rightarrow> sequences s @ [(tenant, 1)] | Some n \<Rightarrow> AList.update tenant (n + 1) (sequences s))\<rparr>"

definition invoice_inv :: "invoice_db \<Rightarrow> bool" where
  "invoice_inv s \<longleftrightarrow> distinct (map fst (sequences s)) \<and> distinct (map ir_id (invoice_rows s)) \<and> distinct (map ir_number (invoice_rows s))"

lemma map_of_snoc: "distinct (map fst xs) \<Longrightarrow> map_of xs k = None \<Longrightarrow> distinct (map fst (xs @ [(k, v)])) \<and> map_of (xs @ [(k, v)]) k = Some v"
  by (simp add: map_add_def) (auto simp: map_of_eq_None_iff)

lemma advanced_sequence:
  "distinct (map fst (sequences s)) \<Longrightarrow>
   distinct (map fst (sequences (advanced tenant s))) \<and> map_of (sequences (advanced tenant s)) tenant = Some (next_number tenant s)"
  using map_of_snoc [of "sequences s" tenant 1]
  by (auto simp: advanced_def next_number_def distinct_update update_conv' simp del: map_of_append map_of_eq_Some_iff split: option.splits)

lemma filter_of_map: "distinct (map fst xs) \<Longrightarrow> map_of xs k = Some v \<Longrightarrow> filter (\<lambda>(t, n). t = k) xs = [(k, v)]"
  using filter_by_key [of fst xs "(k, v)"] by (simp add: map_of_eq_Some_iff split_def)

lemma next_invoice_number_up:
  "invoice_inv s \<Longrightarrow> in_i64 (next_number tenant s) \<Longrightarrow>
   next_invoice_number e tenant (up s) = (Inr (''INV-'' @ pad6 (next_number tenant s)), up (advanced tenant s))"
  using advanced_sequence [of s tenant]
  by (simp add: next_invoice_number_def b_query_def advanced_def [symmetric] invoice_inv_def filter_of_map json_row_def col_i64_def)

text \<open>
  C18. Invoice numbers are unique over all tenants, but each tenant counts for itself: an invoice is created, with the
  sums of its lines and taxes, exactly when no invoice of any tenant carries the number that is next; otherwise it
  fails, and the number is used up all the same. So two tenants cannot both have a first invoice.
\<close>

theorem invoice_numbers:
  assumes "invoice_inv s" and "in_i64 (next_number tenant s)" and "taxes g items address = Inr txs"
    and "b_jsonb e (items_text g items) = Some x1" "b_jsonb e (taxes_text g txs) = Some x2" "b_jsonb e (address_text g address) = Some x3"
    and "b_timestamp e (b_show_time e (now + days (int due_days))) = Some t" and "\<forall>r \<in> set (invoice_rows s). ir_id r \<noteq> fresh"
  shows "(if \<exists>r \<in> set (invoice_rows s). ir_number r = ''INV-'' @ pad6 (next_number tenant s)
     then create_invoice e g now fresh tenant items address currency due_days (up s) =
       (Inl (Database ''duplicate key value violates unique constraint''), up (advanced tenant s))
     else \<exists>i r. create_invoice e g now fresh tenant items address currency due_days (up s) =
       (Inr i, up ((advanced tenant s)\<lparr>invoice_rows := invoice_rows s @ [r]\<rparr>)) \<and> ir_tenant r = tenant \<and>
       ir_number r = ''INV-'' @ pad6 (next_number tenant s) \<and> ir_status r = ''draft'' \<and>
       ir_total r = wrap_i64 (sum_i64 (map li_amount_cents items) + sum_i64 (map tl_amount_cents txs))) \<and>
    (\<forall>d. st d = s \<longrightarrow> invoice_inv (st (snd (create_invoice e g now fresh tenant items address currency due_days d))))"
proof -
  have adv: "invoice_inv (advanced tenant s)" "invoice_rows (advanced tenant s) = invoice_rows s" if "invoice_inv s" for s
    using that advanced_sequence by (auto simp: invoice_inv_def advanced_def)
  have run: "if \<exists>r \<in> set (invoice_rows s). ir_number r = ''INV-'' @ pad6 (next_number tenant s)
     then create_invoice e g now fresh tenant items address currency due_days (up s) =
       (Inl (Database ''duplicate key value violates unique constraint''), up (advanced tenant s))
     else \<exists>i r. create_invoice e g now fresh tenant items address currency due_days (up s) =
       (Inr i, up ((advanced tenant s)\<lparr>invoice_rows := invoice_rows s @ [r]\<rparr>)) \<and> ir_tenant r = tenant \<and>
       ir_number r = ''INV-'' @ pad6 (next_number tenant s) \<and> ir_status r = ''draft'' \<and>
       ir_total r = wrap_i64 (sum_i64 (map li_amount_cents items) + sum_i64 (map tl_amount_cents txs))"
    using assms(8)
    by (auto simp: create_invoice_def next_invoice_number_up [OF assms(1,2)] assms(3-7) insert_invoice_def as_jsonb_def as_timestamp_def
        adv(2) [OF assms(1)] Let_def)
  have "keeps invoice_inv (create_invoice e g now fresh tenant items address currency due_days)"
    unfolding create_invoice_def next_invoice_number_def b_query_def Let_def advanced_def [symmetric]
    by (intro keeps_intro adv) (auto simp: insert_invoice_def and_then_eq_Inr invoice_inv_def split: if_splits)
  with assms(1) run show ?thesis by (simp add: keeps_def)
qed

text \<open>
  Where the columns take the texts, a metered event that is sent again is stored once and counted again: after two
  deliveries of the same event there is one row of it, and the total of its meter has it twice. The total of the
  month is thus not the sum of the events.
\<close>

theorem replayed_event_counted_twice:
  assumes "b_float e (quantity_text g (me_quantity ev)) = Some q" and "b_jsonb e (properties_text g (me_properties ev)) = Some ps"
    and "b_timestamp e (me_timestamp ev) = Some t" and "\<forall>r \<in> set (metering_rows s). mr_event r \<noteq> event_id ev"
    and "\<forall>r \<in> set (total_rows s). \<not> same_total g now (me_tenant ev) (meter_id ev) r"
  shows "\<exists>s' m r. bind_io (ingest e g now ev) (\<lambda>_. ingest e g now ev) (up s) = (Inr (), up s') \<and>
     metering_rows s' = metering_rows s @ [m] \<and> mr_quantity m = q \<and> total_rows s' = total_rows s @ [r] \<and>
     to_count r = 2 \<and> to_total r = f_plus g q q \<and> get_usage e g now (me_tenant ev) (meter_id ev) (up s') = (Inr (f_plus g q q), up s')"
proof -
  have same: "map (\<lambda>r. if same_total g now (me_tenant ev) (meter_id ev) r then f r else r) (total_rows s) = total_rows s"
    "filter (same_total g now (me_tenant ev) (meter_id ev)) (total_rows s) = []" for f
    using assms(5) by (auto simp: map_idI filter_empty_conv)
  show ?thesis
    using assms
    by (simp add: ingest_def store_event_def add_total_def as_float_column_def as_jsonb_def as_timestamp_def same same_total_def [of _ _ _ _ "_\<lparr>to_tenant := _\<rparr>"])
      (simp add: same_total_def get_usage_def b_query_def same [unfolded same_total_def] json_row_def row_get_def as_float_def)
qed


section \<open>Witnesses for the charges\<close>

definition demo_dunning_env :: dunning_env where
  "demo_dunning_env = \<lparr>stripe_key = False, dn_invoices = (\<lambda>_ _. None), dn_pay = (\<lambda>_ _. False), parse_schedule = (\<lambda>_. None),
     schedule_text = (\<lambda>_. []), action_text = (\<lambda>_. [])\<rparr>"

definition demo_event :: event_row where
  "demo_event = \<lparr>ev_id = ''e'', ev_subscription = ''sub'', ev_tenant = 7, ev_attempt = 4, ev_status = ''retrying'', ev_amount = 900,
     ev_currency = ''usd'', ev_next_retry = Some 5, ev_created = 0\<rparr>"

definition demo_dunning_db :: dunning_db where
  "demo_dunning_db = \<lparr>config_rows = [\<lparr>cr_tenant = 7, cr_schedule = JArray [JNumber (PosInt 1)], cr_grace = 3, cr_action = ''pause'', cr_emails = True\<rparr>],
     event_rows = [demo_event], dn_calls = 0\<rparr>"

theorem dunning_pass_witness:
  "\<exists>s'. process_dunning demo_bill_env demo_dunning_env 9 (up demo_dunning_db) = (Inr (), up s') \<and> event_rows s' = [demo_event\<lparr>ev_status := ''cancelled''\<rparr>]"
proof -
  have "dunning_inv demo_dunning_db"
    by (simp add: dunning_inv_def demo_dunning_db_def demo_event_def plain_Cons in_i64_def)
  from dunning_pass [OF this, of demo_bill_env demo_dunning_env 9] obtain s' where
    "process_dunning demo_bill_env demo_dunning_env 9 (up demo_dunning_db) = (Inr (), up s')"
    "list_all2 (\<lambda>r r'. if due 9 r then \<exists>n. r' = retried demo_dunning_env 9 n r else r' = r) (event_rows demo_dunning_db) (event_rows s')" by blast
  then show ?thesis
    by (intro exI [of _ s']) (auto simp: demo_dunning_db_def demo_event_def due_def retried_def retry_payment_def demo_dunning_env_def list_all2_Cons1)
qed

definition demo_promo :: promo_row where
  "demo_promo = \<lparr>pw_id = ''p'', pw_code = ''SPRING'', pw_type = ''percentage'', pw_value = 0, pw_max = Some 1, pw_current = 0, pw_until = Some 5, pw_plans = JArray []\<rparr>"

definition demo_promo_db :: promo_db where
  "demo_promo_db = \<lparr>trial_rows = [], promo_rows = [demo_promo], redemptions = [], rates = []\<rparr>"

theorem promo_limit_witness:
  "\<exists>s'. redeem_promo demo_bill_env ''x'' ''SPRING'' 7 ''pro'' (up demo_promo_db) = (Inr 0, up s') \<and> length (redemptions s') = 1"
proof -
  have inv: "promo_inv demo_promo_db" by (simp add: promo_inv_def demo_promo_db_def demo_promo_def promo_row_ok_def plain_Cons)
  have row: "demo_promo \<in> set (promo_rows demo_promo_db)" "pw_current demo_promo \<noteq> 2147483647"
    by (simp_all add: demo_promo_db_def demo_promo_def)
  have "\<not> used_up demo_promo" by (simp add: used_up_def demo_promo_def)
  with promo_limit [OF inv row, of demo_bill_env "''x''" 7 "''pro''"] show ?thesis
    by (simp add: demo_promo_def) (simp add: demo_promo_db_def)
qed

definition demo_invoice_env :: invoice_env where
  "demo_invoice_env = \<lparr>taxes = (\<lambda>_ _. Inr []), items_text = (\<lambda>_. ''[]''), taxes_text = (\<lambda>_. ''[]''), address_text = (\<lambda>_. ''{}'')\<rparr>"

definition demo_invoice_db :: invoice_db where
  "demo_invoice_db = \<lparr>invoice_rows = [\<lparr>ir_id = ''i'', ir_tenant = 1, ir_number = ''INV-000001'', ir_status = ''draft'', ir_currency = ''usd'', ir_subtotal = 0,
     ir_tax = 0, ir_total = 0, ir_items = JArray [], ir_taxes = JArray [], ir_address = JObject [], ir_due = None, ir_paid = None, ir_created = 0\<rparr>],
     sequences = [(1, 1)]\<rparr>"

theorem invoice_numbers_witness:
  "create_invoice demo_bill_env demo_invoice_env 0 ''j'' 2 [] \<lparr>company_name = None, line1 = [], line2 = None, city = [], ba_state = None,
       postal_code = [], country = []\<rparr> ''usd'' 0 (up demo_invoice_db) =
     (Inl (Database ''duplicate key value violates unique constraint''), up (advanced 2 demo_invoice_db))"
proof -
  let ?address = "\<lparr>company_name = None, line1 = [], line2 = None, city = [], ba_state = None, postal_code = [], country = []\<rparr> :: billing_address"
  have inv: "invoice_inv demo_invoice_db" by (simp add: invoice_inv_def demo_invoice_db_def)
  have i: "in_i64 (next_number 2 demo_invoice_db)" by (simp add: in_i64_def next_number_def demo_invoice_db_def)
  have taken: "\<exists>r \<in> set (invoice_rows demo_invoice_db). ir_number r = ''INV-'' @ pad6 (next_number 2 demo_invoice_db)"
    by (simp add: next_number_def demo_invoice_db_def) (code_simp)
  have fresh: "\<forall>r \<in> set (invoice_rows demo_invoice_db). ir_id r \<noteq> ''j''" by (simp add: demo_invoice_db_def)
  from invoice_numbers [OF inv i, of demo_invoice_env "[]" ?address "[]" demo_bill_env "JObject []" "JObject []" "JObject []" 0 0 0 "''j''" "''usd''"] taken fresh
  show ?thesis by (simp add: demo_invoice_env_def demo_bill_env_def demo_show_time_def demo_parse_time_def days_def)
qed

definition demo_metering_env :: metering_env where
  "demo_metering_env = \<lparr>properties_text = (\<lambda>_. ''{}''), quantity_text = (\<lambda>_. ''1''), filters_text = (\<lambda>_. ''[]''), f_plus = (+), month_of = (\<lambda>_. 0)\<rparr>"

theorem replayed_event_counted_twice_witness:
  "\<exists>s' m r. bind_io (ingest (demo_bill_env\<lparr>b_float := \<lambda>_. Some 1\<rparr>) demo_metering_env 0 \<lparr>event_id = ''e'', me_tenant = 7, meter_id = ''calls'', me_quantity = 1,
       me_properties = [], me_timestamp = ''p'', me_source = ''api''\<rparr>) (\<lambda>_. ingest (demo_bill_env\<lparr>b_float := \<lambda>_. Some 1\<rparr>) demo_metering_env 0
       \<lparr>event_id = ''e'', me_tenant = 7, meter_id = ''calls'', me_quantity = 1, me_properties = [], me_timestamp = ''p'', me_source = ''api''\<rparr>)
       (up \<lparr>metering_rows = [], total_rows = [], meter_rows = []\<rparr>) = (Inr (), up s') \<and> metering_rows s' = [m] \<and> total_rows s' = [r] \<and> to_count r = 2 \<and> to_total r = 2"
  using replayed_event_counted_twice [of "demo_bill_env\<lparr>b_float := \<lambda>_. Some 1\<rparr>" demo_metering_env "\<lparr>event_id = ''e'', me_tenant = 7, meter_id = ''calls'',
      me_quantity = 1, me_properties = [], me_timestamp = ''p'', me_source = ''api''\<rparr>" 1 "JObject []" 0 "\<lparr>metering_rows = [], total_rows = [], meter_rows = []\<rparr>" 0]
  by (simp add: demo_metering_env_def) (simp add: demo_bill_env_def demo_parse_time_def, blast)

section \<open>Values sent as text\<close>

text \<open>
  PostgreSQL does not turn a text parameter into a boolean or a double by itself. As the services send both as
  texts, no plan, no dunning configuration, no override of a feature, no promotional code, no currency rate and no
  metered event is ever stored: each of these operations fails, whatever else happens, and changes nothing.
\<close>

theorem untyped_writes_rejected:
  assumes "b_bool e = (\<lambda>_. None)" and "b_float e = (\<lambda>_. None)"
  shows "wp (create_plan e x p) (\<lambda>r s'. (\<exists>err. r = Inl err) \<and> s' = s1) s1 \<and>
    wp (set_config e g1 c) (\<lambda>r s'. (\<exists>err. r = Inl err) \<and> s' = s2) s2 \<and>
    wp (set_override e y tenant feature on limit reason) (\<lambda>r s'. (\<exists>err. r = Inl err) \<and> s' = s3) s3 \<and>
    wp (create_promo e g2 now fresh code ty val max_r until_at plans) (\<lambda>r s'. (\<exists>err. r = Inl err) \<and> s' = s4) s4 \<and>
    wp (set_currency_rate e g2 from_currency to_currency rate) (\<lambda>r s'. (\<exists>err. r = Inl err) \<and> s' = s4) s4 \<and>
    wp (ingest e g3 now ev) (\<lambda>r s'. (\<exists>err. r = Inl err) \<and> s' = s5) s5"
proof -
  have reject: "as_bool_column e b = Inr u \<longleftrightarrow> False" "as_float_column e t = Inr v \<longleftrightarrow> False" for b u t v
    by (simp_all add: as_bool_column_def as_float_column_def assms)
  show ?thesis
    unfolding create_plan_def set_config_def set_override_def create_promo_def set_currency_rate_def ingest_def store_event_def Let_def
    by (intro conjI) (auto intro!: wp_intro simp: and_then_eq_Inr reject)
qed

theorem untyped_writes_rejected_witness:
  "wp (ingest (demo_bill_env\<lparr>b_bool := \<lambda>_. None\<rparr>) demo_metering_env 0 \<lparr>event_id = ''e'', me_tenant = 7, meter_id = ''calls'', me_quantity = 1,
       me_properties = [], me_timestamp = ''p'', me_source = ''api''\<rparr>) (\<lambda>r s'. (\<exists>err. r = Inl err) \<and> s' = \<lparr>metering_rows = [], total_rows = [], meter_rows = []\<rparr>)
     \<lparr>metering_rows = [], total_rows = [], meter_rows = []\<rparr>"
  using untyped_writes_rejected [of "demo_bill_env\<lparr>b_bool := \<lambda>_. None\<rparr>"] by (simp add: demo_bill_env_def)

end
