(* ===== verification/Server.thy ===== *)
theory Server imports Store JsonMap begin

text \<open>
  Statements sent as text. Where the program composes the SQL it sends, the model sends that text with its
  parameters to a \<open>server\<close>, a parameter: what PostgreSQL makes of it. The methods of
  \<open>src/src/platform/db.rs\<close> that send one statement are defined over it. The second part is about the texts
  themselves: placeholders and quoted literals.
\<close>

section \<open>Sending\<close>

record answer =
  returned :: "(string \<times> cell) list list"
  affected :: nat
  returned_id :: "int option"

type_synonym 'd server = "string \<Rightarrow> sql_value list \<Rightarrow> 'd \<Rightarrow> (answer \<times> 'd) result"

text \<open>The server with the decoders \<open>query\<close> reads its rows with.\<close>

record 'd sql_env =
  server :: "'d server"
  sv_json :: "string \<Rightarrow> json option"
  sv_base64 :: "string \<Rightarrow> string"

definition send :: "'d sql_env \<Rightarrow> string \<Rightarrow> sql_value list \<Rightarrow> ('d, answer) io" where
  "send e sql params = stmt (server e sql params)"

definition execute :: "'d sql_env \<Rightarrow> string \<Rightarrow> sql_value list \<Rightarrow> ('d, nat) io" where
  "execute e sql params = bind_io (send e (convert_question_marks sql) params) (\<lambda>a. ret (affected a))"

definition execute_simple :: "'d sql_env \<Rightarrow> string \<Rightarrow> ('d, nat) io" where
  "execute_simple e sql = bind_io (send e sql []) (\<lambda>a. ret (affected a))"

definition insert_returning_id :: "'d sql_env \<Rightarrow> string \<Rightarrow> sql_value list \<Rightarrow> ('d, int) io" where
  "insert_returning_id e sql params =
     bind_io (send e (insert_returning_sql sql) params) (\<lambda>a.
     lift (ok_or (Database ''Failed to get returning id'') (returned_id a)))"

definition query_rows :: "'d sql_env \<Rightarrow> string \<Rightarrow> sql_value list \<Rightarrow> ('d, row list) io" where
  "query_rows e sql params =
     bind_io (send e (convert_question_marks sql) params) (\<lambda>a. ret (map (json_row (sv_json e) (sv_base64 e)) (returned a)))"

definition query_simple :: "'d sql_env \<Rightarrow> string \<Rightarrow> ('d, row list) io" where
  "query_simple e sql = query_rows e sql []"

definition list_tables_sql :: string where
  "list_tables_sql = CHR 0x0A # ''            SELECT table_name'' @ CHR 0x0A # ''            FROM information_schema.tables'' @ CHR 0x0A #
     ''            WHERE table_schema = current_schema()'' @ CHR 0x0A # ''        ''"

definition list_tables :: "'d sql_env \<Rightarrow> ('d, string list) io" where
  "list_tables e =
     bind_io (query_simple e list_tables_sql)
       (\<lambda>rows. ret (List.map_filter (\<lambda>r. case r of [] \<Rightarrow> None | (k, v) # _ \<Rightarrow> as_str v) rows))"

lemma list_tables_no_marks: "CHR ''?'' \<notin> set list_tables_sql"
  by (simp add: list_tables_sql_def)

text \<open>
  The high-level methods. They number their placeholders themselves; the names, the table's and the columns' alike,
  are written as they are given.
\<close>

definition row_object :: "row \<Rightarrow> json" where
  "row_object r = JObject (obj_of r)"

definition store_insert_sql :: "string \<Rightarrow> string list \<Rightarrow> string" where
  "store_insert_sql table columns =
     ''INSERT INTO '' @ table @ '' ('' @ join '', '' columns @ '') VALUES (''
       @ join '', '' (map (\<lambda>i. CHR ''$'' # show_nat i) [1..<Suc (length columns)]) @ '')''"

definition store_insert ::
  "'d sql_env \<Rightarrow> (json \<Rightarrow> string) \<Rightarrow> (number \<Rightarrow> 64 word option) \<Rightarrow> string \<Rightarrow> json \<Rightarrow> ('d, nat) io" where
  "store_insert e txt tof table data =
     bind_io (lift (ok_or (InvalidPayload ''Data must be a JSON object'') (as_object data))) (\<lambda>obj.
     execute e (store_insert_sql table (map fst obj)) (map (\<lambda>(_, v). json_to_sql_value txt tof v) obj))"

definition store_scan :: "'d sql_env \<Rightarrow> string \<Rightarrow> ('d, json list) io" where
  "store_scan e table = bind_io (query_simple e (''SELECT * FROM '' @ table)) (\<lambda>rows. ret (map row_object rows))"

definition store_delete :: "'d sql_env \<Rightarrow> string \<Rightarrow> nat \<Rightarrow> ('d, nat) io" where
  "store_delete e table i =
     execute e (''DELETE FROM '' @ table @ '' WHERE id = $1'') [SqlInteger (sint (word_of_nat i :: 64 word))]"

text \<open>What a call can do to the data, when each statement it may send keeps \<open>P\<close>.\<close>

definition harmless_to :: "('d \<Rightarrow> bool) \<Rightarrow> 'd sql_env \<Rightarrow> string \<Rightarrow> sql_value list \<Rightarrow> bool" where
  "harmless_to P e sql params \<longleftrightarrow> (\<forall>d a d'. P d \<longrightarrow> server e sql params d = Inr (a, d') \<longrightarrow> P d')"

lemma keeps_sent [keeps_intro]: "harmless_to P e sql params \<Longrightarrow> keeps P (send e sql params)"
  unfolding send_def harmless_to_def by (intro keeps_stmt) blast

lemma keeps_calls [keeps_intro]:
  "harmless_to P e (convert_question_marks sql) params \<Longrightarrow> keeps P (execute e sql params)"
  "harmless_to P e sql [] \<Longrightarrow> keeps P (execute_simple e sql)"
  "harmless_to P e (insert_returning_sql sql) params \<Longrightarrow> keeps P (insert_returning_id e sql params)"
  "harmless_to P e (convert_question_marks sql) params \<Longrightarrow> keeps P (query_rows e sql params)"
  "harmless_to P e (convert_question_marks sql) [] \<Longrightarrow> keeps P (query_simple e sql)"
  unfolding execute_def execute_simple_def insert_returning_id_def query_rows_def query_simple_def
  by (auto intro!: keeps_intro)

lemma send_up [simp]: "server e sql params d = Inr (a, d') \<Longrightarrow> send e sql params (up d) = (Inr a, up d')"
  "server e sql params d = Inl err \<Longrightarrow> send e sql params (up d) = (Inl err, up d)"
  by (simp_all add: send_def)

text \<open>A check before the rest: it may be used in showing that the rest keeps an invariant.\<close>

lemma keeps_lift_bind: "(\<And>a. r = Inr a \<Longrightarrow> keeps P (k a)) \<Longrightarrow> keeps P (bind_io (lift r) k)"
  by (cases r) (simp_all add: keeps_def bind_io_def lift_def fail_def)

section \<open>A part of a larger state\<close>

definition zoom :: "('s \<Rightarrow> 'd) \<Rightarrow> ('d \<Rightarrow> 's \<Rightarrow> 's) \<Rightarrow> ('d, 'a) io \<Rightarrow> ('s, 'a) io" where
  "zoom get put m d =
     (case m \<lparr>st = get (st d), outages = outages d\<rparr> of (r, d') \<Rightarrow> (r, \<lparr>st = put (st d') (st d), outages = outages d'\<rparr>))"

lemma wp_zoom [wp_intro]: "wp m (\<lambda>r d'. Q r (put d' s)) (get s) \<Longrightarrow> wp (zoom get put m) Q s"
proof -
  assume *: "wp m (\<lambda>r d'. Q r (put d' s)) (get s)"
  have "Q (fst (zoom get put m d)) (st (snd (zoom get put m d)))" if "st d = s" for d
  proof (cases "m \<lparr>st = get (st d), outages = outages d\<rparr>")
    case (Pair r d')
    from * [unfolded wp_def, THEN spec, of "\<lparr>st = get (st d), outages = outages d\<rparr>"] that
    show ?thesis by (simp add: zoom_def case_prod_beta)
  qed
  then show ?thesis by (simp add: wp_def)
qed

lemma zoom_up [simp]: "m (up (get s)) = (r, up d') \<Longrightarrow> zoom get put m (up s) = (r, up (put d' s))"
  by (simp add: zoom_def up_def)

lemma keeps_zoom:
  assumes "keeps P m" and "\<And>s. Q s \<Longrightarrow> P (get s)" and "\<And>s d. Q s \<Longrightarrow> P d \<Longrightarrow> Q (put d s)"
  shows "keeps Q (zoom get put m)"
  unfolding keeps_def
proof (intro allI impI)
  fix d :: "'c db" assume Q: "Q (st d)"
  obtain r d' where m: "m \<lparr>st = get (st d), outages = outages d\<rparr> = (r, d')"
    by (cases "m \<lparr>st = get (st d), outages = outages d\<rparr>")
  have "P (st d')" by (rule keeps_D [OF assms(1) _ m]) (simp add: assms(2) [OF Q])
  with Q m assms(3) show "Q (st (snd (zoom get put m d)))" by (simp add: zoom_def)
qed

section \<open>Literals\<close>

text \<open>Quoting of a text, and how standard SQL reads the literal after its opening quote.\<close>

definition double_quotes :: "string \<Rightarrow> string" where
  "double_quotes s = concat (map (\<lambda>c. if c = CHR 0x27 then [c, c] else [c]) s)"

fun read_literal :: "string \<Rightarrow> (string \<times> string) option" where
  "read_literal [] = None"
| "read_literal (c # s) =
     (if c \<noteq> CHR 0x27 then map_option (\<lambda>(l, rest). (c # l, rest)) (read_literal s)
      else (case s of
          [] \<Rightarrow> Some ([], [])
        | c' # s' \<Rightarrow> if c' = CHR 0x27 then map_option (\<lambda>(l, rest). (CHR 0x27 # l, rest)) (read_literal s') else Some ([], s)))"

lemma read_quoted:
  "rest = [] \<or> hd rest \<noteq> CHR 0x27 \<Longrightarrow> read_literal (double_quotes s @ CHR 0x27 # rest) = Some (s, rest)"
  by (induction s) (auto simp: double_quotes_def split: list.splits)

text \<open>A literal written into a statement as it is.\<close>

abbreviation quoted :: "string \<Rightarrow> string" where
  "quoted s \<equiv> CHR 0x27 # s @ [CHR 0x27]"

text \<open>\<open>as usize\<close> on an \<open>i64\<close>.\<close>

definition usize_cast :: "int \<Rightarrow> nat" where
  "usize_cast i = nat (i mod 18446744073709551616)"

section \<open>Placeholders\<close>

text \<open>A template has as many parameters as question marks.\<close>

definition marks :: "string \<Rightarrow> nat" where
  "marks sql = length (filter (\<lambda>c. c = CHR ''?'') sql)"

lemma marks_simps [simp]:
  "marks [] = 0" "marks (c # s) = (if c = CHR ''?'' then Suc (marks s) else marks s)" "marks (s @ t) = marks s + marks t"
  by (simp_all add: marks_def)

lemma marks_none: "CHR ''?'' \<notin> set s \<Longrightarrow> marks s = 0"
  by (induction s) auto

lemma marks_join: "marks (join sep xs) = sum_list (map marks xs) + (length xs - 1) * marks sep"
  by (induction sep xs rule: join.induct) auto

end
