(* ===== verification/Rls.thy ===== *)
theory Rls imports Server Identifiers begin

text \<open>
  Row-level security (\<open>src/src/security/rls.rs\<close>): the statements that switch it on and off, create, drop and
  list policies, the status and the audit, and the claims of a token put into the session. PostgreSQL is the
  \<open>server\<close> of theory \<open>Server\<close>.
\<close>

section \<open>Policies\<close>

datatype policy_operation = OpAll | OpSelect | OpInsert | OpUpdate | OpDelete

fun operation_sql :: "policy_operation \<Rightarrow> string" where
  "operation_sql OpAll = ''ALL''"
| "operation_sql OpSelect = ''SELECT''"
| "operation_sql OpInsert = ''INSERT''"
| "operation_sql OpUpdate = ''UPDATE''"
| "operation_sql OpDelete = ''DELETE''"

record rls_policy =
  rp_name :: string
  rp_table :: string
  rp_operation :: string
  permissive :: bool
  rp_roles :: "string list"
  using_expression :: "string option"
  check_expression :: "string option"

record rls_status =
  rs_table :: string
  rls_enabled :: bool
  force_rls :: bool
  rs_policies :: "rls_policy list"

record create_policy_request =
  cp_name :: string
  operation :: policy_operation
  using_expr :: "string option"
  check_expr :: "string option"
  cp_permissive :: bool

record rls_audit_entry =
  ra_table :: string
  ra_enabled :: bool
  ra_force :: bool
  policy_count :: nat
  secure :: bool

definition enable_rls :: "'d sql_env \<Rightarrow> string \<Rightarrow> ('d, unit) io" where
  "enable_rls e table =
     bind_io (lift (validate_identifier table)) (\<lambda>_.
     bind_io (execute_simple e (''ALTER TABLE '' @ table @ '' ENABLE ROW LEVEL SECURITY'')) (\<lambda>_.
     bind_io (execute_simple e (''ALTER TABLE '' @ table @ '' FORCE ROW LEVEL SECURITY'')) (\<lambda>_. ret ())))"

definition disable_rls :: "'d sql_env \<Rightarrow> string \<Rightarrow> ('d, unit) io" where
  "disable_rls e table =
     bind_io (lift (validate_identifier table)) (\<lambda>_.
     bind_io (execute_simple e (''ALTER TABLE '' @ table @ '' DISABLE ROW LEVEL SECURITY'')) (\<lambda>_. ret ()))"

text \<open>An optional expression is checked when it is there.\<close>

definition check_optional :: "string option \<Rightarrow> unit result" where
  "check_optional x = (case x of None \<Rightarrow> Inr () | Some expr \<Rightarrow> validate_sql_expression expr)"

definition clause :: "string \<Rightarrow> string option \<Rightarrow> string" where
  "clause keyword x = (case x of None \<Rightarrow> [] | Some expr \<Rightarrow> keyword @ '' ('' @ expr @ '')'')"

definition policy_sql :: "string \<Rightarrow> create_policy_request \<Rightarrow> string" where
  "policy_sql table req =
     ''CREATE POLICY '' @ cp_name req @ '' ON '' @ table @ '' AS '' @ (if cp_permissive req then ''PERMISSIVE'' else ''RESTRICTIVE'')
       @ '' FOR '' @ operation_sql (operation req) @ '' TO PUBLIC'' @ clause '' USING'' (using_expr req) @ clause '' WITH CHECK'' (check_expr req)"

definition create_policy :: "'d sql_env \<Rightarrow> string \<Rightarrow> create_policy_request \<Rightarrow> ('d, unit) io" where
  "create_policy e table req =
     bind_io (lift (validate_identifier table)) (\<lambda>_.
     bind_io (lift (validate_identifier (cp_name req))) (\<lambda>_.
     bind_io (lift (check_optional (using_expr req))) (\<lambda>_.
     bind_io (lift (check_optional (check_expr req))) (\<lambda>_.
     bind_io (execute_simple e (policy_sql table req)) (\<lambda>_. ret ())))))"

definition drop_policy :: "'d sql_env \<Rightarrow> string \<Rightarrow> string \<Rightarrow> ('d, unit) io" where
  "drop_policy e table policy_name =
     bind_io (lift (validate_identifier table)) (\<lambda>_.
     bind_io (lift (validate_identifier policy_name)) (\<lambda>_.
     bind_io (execute_simple e (''DROP POLICY IF EXISTS '' @ policy_name @ '' ON '' @ table)) (\<lambda>_. ret ())))"

definition command_name :: "string \<Rightarrow> string" where
  "command_name c =
     (if c = ''r'' then ''SELECT'' else if c = ''a'' then ''INSERT'' else if c = ''w'' then ''UPDATE''
      else if c = ''d'' then ''DELETE'' else if c = ''*'' then ''ALL'' else c)"

text \<open>One column of a row of \<open>pg_policy\<close>.\<close>

definition set_field :: "string \<times> json \<Rightarrow> rls_policy \<Rightarrow> rls_policy" where
  "set_field kv p =
     (case kv of (key, v) \<Rightarrow>
        if key = ''polname'' then p\<lparr>rp_name := unwrap_or [] (as_str v)\<rparr>
        else if key = ''polcmd'' then p\<lparr>rp_operation := command_name (unwrap_or [] (as_str v))\<rparr>
        else if key = ''polpermissive'' then p\<lparr>permissive := unwrap_or True (as_bool v)\<rparr>
        else if key = ''polroles'' then p\<lparr>rp_roles := map trim (split_on CHR '','' (unwrap_or [] (as_str v)))\<rparr>
        else if key = ''using_expr'' then p\<lparr>using_expression := as_str v\<rparr>
        else if key = ''check_expr'' then p\<lparr>check_expression := as_str v\<rparr>
        else p)"

definition policy_of_row :: "string \<Rightarrow> row \<Rightarrow> rls_policy" where
  "policy_of_row table r =
     fold set_field r \<lparr>rp_name = [], rp_table = table, rp_operation = [], permissive = True, rp_roles = [],
       using_expression = None, check_expression = None\<rparr>"

definition policies_sql :: "string \<Rightarrow> string" where
  "policies_sql table =
     ''SELECT polname, polcmd, polpermissive, polroles::text, pg_get_expr(polqual, polrelid) as using_expr, ''
       @ ''pg_get_expr(polwithcheck, polrelid) as check_expr FROM pg_policy WHERE polrelid = '' @ quoted table @ ''::regclass''"

definition list_policies :: "'d sql_env \<Rightarrow> string \<Rightarrow> ('d, rls_policy list) io" where
  "list_policies e table =
     bind_io (lift (validate_identifier table)) (\<lambda>_.
     bind_io (query_simple e (policies_sql table))
       (\<lambda>rows. ret (map (policy_of_row table) rows)))"

definition bool_column :: "row \<Rightarrow> string \<Rightarrow> bool" where
  "bool_column r k = unwrap_or False (col_bool r k)"

definition status_sql :: "string \<Rightarrow> string" where
  "status_sql table = ''SELECT relrowsecurity, relforcerowsecurity FROM pg_class WHERE relname = '' @ quoted table"

definition get_status :: "'d sql_env \<Rightarrow> string \<Rightarrow> ('d, rls_status) io" where
  "get_status e table =
     bind_io (lift (validate_identifier table)) (\<lambda>_.
     bind_io (query_simple e (status_sql table))
       (\<lambda>rows. case rows of
           [] \<Rightarrow> fail (TableNotFound table)
         | r # _ \<Rightarrow> bind_io (list_policies e table) (\<lambda>ps.
             ret \<lparr>rs_table = table, rls_enabled = bool_column r ''relrowsecurity'', force_rls = bool_column r ''relforcerowsecurity'',
                  rs_policies = ps\<rparr>)))"

definition inject_jwt_context :: "'d sql_env \<Rightarrow> string \<Rightarrow> ('d, unit) io" where
  "inject_jwt_context e claims =
     bind_io (execute_simple e (''SET LOCAL request.jwt.claims = '' @ quoted (double_quotes claims))) (\<lambda>_. ret ())"

definition audit_entry :: "row \<Rightarrow> rls_audit_entry" where
  "audit_entry r =
     (let enabled = bool_column r ''relrowsecurity''; n = usize_cast (unwrap_or 0 (col_i64 r ''policy_count''))
      in \<lparr>ra_table = unwrap_or [] (col_str r ''relname''), ra_enabled = enabled, ra_force = bool_column r ''relforcerowsecurity'',
          policy_count = n, secure = (enabled \<and> n > 0)\<rparr>)"

definition audit_sql :: string where
  "audit_sql =
     ''SELECT c.relname, c.relrowsecurity, c.relforcerowsecurity, ''
       @ ''(SELECT count(*) FROM pg_policy p WHERE p.polrelid = c.oid) as policy_count FROM pg_class c JOIN pg_namespace n ON c.relnamespace = n.oid ''
       @ ''WHERE n.nspname = '' @ quoted ''public'' @ '' AND c.relkind = '' @ quoted ''r''
       @ '' AND c.relname LIKE '' @ quoted ''stackhouse_%'' @ '' ORDER BY c.relname''"

definition audit_rls :: "'d sql_env \<Rightarrow> ('d, rls_audit_entry list) io" where
  "audit_rls e =
     bind_io (query_simple e audit_sql)
       (\<lambda>rows. ret (map audit_entry rows))"

section \<open>Requests\<close>

datatype rls_request =
    EnableRls string
  | DisableRls string
  | CreatePolicy string create_policy_request
  | ListPolicies string
  | DropPolicy string string
  | RlsStatus string
  | RlsAudit

datatype rls_response =
    RlsDone
  | PolicyList "rls_policy list"
  | StatusResponse rls_status
  | AuditResponse "rls_audit_entry list" nat nat nat

fun rls_handler :: "'d sql_env \<Rightarrow> rls_request \<Rightarrow> ('d, rls_response) io" where
  "rls_handler e (EnableRls table) = bind_io (enable_rls e table) (\<lambda>_. ret RlsDone)"
| "rls_handler e (DisableRls table) = bind_io (disable_rls e table) (\<lambda>_. ret RlsDone)"
| "rls_handler e (CreatePolicy table req) = bind_io (create_policy e table req) (\<lambda>_. ret RlsDone)"
| "rls_handler e (ListPolicies table) = bind_io (list_policies e table) (\<lambda>ps. ret (PolicyList ps))"
| "rls_handler e (DropPolicy table name) = bind_io (drop_policy e table name) (\<lambda>_. ret RlsDone)"
| "rls_handler e (RlsStatus table) = bind_io (get_status e table) (\<lambda>s. ret (StatusResponse s))"
| "rls_handler e RlsAudit =
     bind_io (audit_rls e) (\<lambda>xs. ret (AuditResponse xs (length xs) (length (filter secure xs)) (length (filter (\<lambda>x. \<not> ra_enabled x) xs))))"


section \<open>The statements sent\<close>

text \<open>No comment, no end of a statement.\<close>

definition no_pair :: "char \<Rightarrow> char \<Rightarrow> string \<Rightarrow> bool" where
  "no_pair a b s \<longleftrightarrow> \<not> str_contains s [a, b]"

lemma no_pair_simps [simp]:
  "no_pair a b []" "no_pair a b [c]"
  "no_pair a b (c # d # s) \<longleftrightarrow> \<not> (c = a \<and> d = b) \<and> no_pair a b (d # s)"
  by (auto simp: no_pair_def str_contains_iff Cons_eq_append_conv append_eq_Cons_conv)

lemma no_pair_append: "no_pair a b s \<Longrightarrow> no_pair a b t \<Longrightarrow> s = [] \<or> t = [] \<or> last s \<noteq> a \<or> hd t \<noteq> b \<Longrightarrow> no_pair a b (s @ t)"
proof (induction s)
  case (Cons c s)
  then show ?case by (cases s; cases t) auto
qed simp

lemma no_pair_word: "a \<notin> set s \<Longrightarrow> no_pair a b s"
  by (auto simp: no_pair_def str_contains_iff)

definition one_statement :: "string \<Rightarrow> bool" where
  "one_statement s \<longleftrightarrow> CHR '';'' \<notin> set s \<and> no_pair (CHR ''-'') (CHR ''-'') s \<and> no_pair (CHR ''/'') (CHR ''*'') s"

text \<open>The four kinds of statements that change policies, over accepted names and expressions.\<close>

inductive rls_statement :: "string \<Rightarrow> bool" where
  switch: "validate_identifier table = Inr () \<Longrightarrow> how \<in> {''ENABLE'', ''FORCE'', ''DISABLE''} \<Longrightarrow>
     rls_statement (''ALTER TABLE '' @ table @ '' '' @ how @ '' ROW LEVEL SECURITY'')"
| policy: "validate_identifier table = Inr () \<Longrightarrow> validate_identifier (cp_name req) = Inr () \<Longrightarrow>
     check_optional (using_expr req) = Inr () \<Longrightarrow> check_optional (check_expr req) = Inr () \<Longrightarrow> rls_statement (policy_sql table req)"
| drop: "validate_identifier table = Inr () \<Longrightarrow> validate_identifier name = Inr () \<Longrightarrow>
     rls_statement (''DROP POLICY IF EXISTS '' @ name @ '' ON '' @ table)"
| reads: "validate_identifier table = Inr () \<Longrightarrow> sql \<in> {policies_sql table, status_sql table, audit_sql} \<Longrightarrow> rls_statement sql"

lemma safe_name_chars: "validate_identifier t = Inr () \<Longrightarrow> c \<in> set t \<Longrightarrow> is_word_char c"
  by (auto simp: validate_identifier_ok_iff list_all_iff)

lemma word_free: "\<not> is_word_char c \<Longrightarrow> validate_identifier t = Inr () \<Longrightarrow> c \<notin> set t"
  using safe_name_chars by blast

lemma name_not_Nil: "validate_identifier t = Inr () \<Longrightarrow> t \<noteq> []"
  by (auto simp: validate_identifier_ok_iff)

lemma punctuation [simp]:
  "\<not> is_word_char (CHR '';'')" "\<not> is_word_char (CHR ''-'')" "\<not> is_word_char (CHR ''/'')" "\<not> is_word_char (CHR ''?'')"
  "\<not> is_word_char (CHR 0x27)" "\<not> is_word_char (CHR ''*'')"
  by (simp_all add: is_word_char_def char_class_defs)

text \<open>Pieces that may stand next to each other.\<close>

definition framed :: "string \<Rightarrow> bool" where
  "framed s \<longleftrightarrow> one_statement s \<and>
     (s = [] \<or> last s \<noteq> CHR ''-'' \<and> last s \<noteq> CHR ''/'' \<and> hd s \<noteq> CHR ''-'' \<and> hd s \<noteq> CHR ''*'')"

lemma framed_append: "framed s \<Longrightarrow> framed t \<Longrightarrow> framed (s @ t)"
  by (cases "s = []"; cases "t = []") (auto simp: framed_def one_statement_def intro!: no_pair_append)

lemma framed_name: "validate_identifier t = Inr () \<Longrightarrow> framed t"
proof -
  assume t: "validate_identifier t = Inr ()"
  have "hd t \<in> set t" "last t \<in> set t" using name_not_Nil [OF t] by auto
  with word_free [OF _ t] have "hd t \<noteq> CHR ''-''" "hd t \<noteq> CHR ''*''" "last t \<noteq> CHR ''-''" "last t \<noteq> CHR ''/''" by (metis punctuation)+
  then show ?thesis using t by (simp add: framed_def one_statement_def word_free no_pair_word)
qed

lemma framed_body: "one_statement s \<Longrightarrow> framed (CHR ''('' # s @ '')'')"
proof -
  assume s: "one_statement s"
  have "no_pair a b (CHR ''('' # s @ '')'')" if "no_pair a b s" "a \<noteq> CHR ''(''" "b \<noteq> CHR '')''" for a b
    using no_pair_append [of a b "''(''" "s @ '')''"] no_pair_append [of a b s "'')''"] that by simp
  with s show ?thesis by (simp add: framed_def one_statement_def)
qed

lemma expression_one_statement: "check_optional (Some expr) = Inr () \<Longrightarrow> one_statement expr"
proof -
  assume "check_optional (Some expr) = Inr ()"
  then have ok: "\<not> str_contains (to_lowercase expr) '';''" "\<not> str_contains (to_lowercase expr) ''--''" "\<not> str_contains (to_lowercase expr) ''/*''"
    by (auto simp: check_optional_def validate_sql_expression_def Let_def split: if_splits option.splits)
  have low: "str_contains expr p \<Longrightarrow> str_contains (to_lowercase expr) (to_lowercase p)" for p
    by (auto simp: str_contains_iff to_lowercase_def) (metis map_append)
  have "to_lowercase '';'' = '';''" "to_lowercase ''--'' = ''--''" "to_lowercase ''/*'' = ''/*''" by (simp_all add: str_eval char_class_defs)
  with low ok have "\<not> str_contains expr '';''" "\<not> str_contains expr ''--''" "\<not> str_contains expr ''/*''" by metis+
  then show ?thesis by (simp add: one_statement_def no_pair_def str_contains_char)
qed

lemma framed_clause:
  "check_optional x = Inr () \<Longrightarrow> keyword \<in> {'' USING'', '' WITH CHECK''} \<Longrightarrow> framed (clause keyword x)"
proof (cases x)
  case (Some expr)
  assume x: "check_optional x = Inr ()" and k: "keyword \<in> {'' USING'', '' WITH CHECK''}"
  have "framed (keyword @ '' '')" using k by (auto simp: framed_def one_statement_def)
  from framed_append [OF this framed_body [OF expression_one_statement]] x Some show ?thesis by (simp add: clause_def)
qed (simp add: clause_def framed_def one_statement_def)

lemma rls_statement_one: "rls_statement sql \<Longrightarrow> one_statement sql"
proof -
  have "rls_statement sql \<Longrightarrow> framed sql"
  proof (induction rule: rls_statement.induct)
    case (switch table how)
    have "framed how" using switch(2) by (auto simp: framed_def one_statement_def)
    then show ?case by (intro framed_append framed_name [OF switch(1)]) (simp_all add: framed_def one_statement_def)
  next
    case (policy table req)
    have "framed (operation_sql (operation req))" by (cases "operation req") (simp_all add: framed_def one_statement_def)
    then show ?case unfolding policy_sql_def
      by (intro framed_append framed_name [OF policy(1)] framed_name [OF policy(2)] framed_clause [OF policy(3)] framed_clause [OF policy(4)])
        (simp_all add: framed_def one_statement_def)
  next
    case (drop table name)
    show ?case
      by (intro framed_append framed_name [OF drop(1)] framed_name [OF drop(2)]) (simp_all add: framed_def one_statement_def)
  next
    case (reads table sql)
    have "framed ([CHR 0x27] @ table @ [CHR 0x27])"
      by (intro framed_append framed_name [OF reads(1)]) (simp_all add: framed_def one_statement_def)
    then have q: "framed (quoted table)" by simp
    have "framed (policies_sql table)" unfolding policies_sql_def
      by (intro framed_append q) (simp_all add: framed_def one_statement_def)
    moreover have "framed (status_sql table)" unfolding status_sql_def
      by (intro framed_append q) (simp_all add: framed_def one_statement_def)
    moreover have "framed audit_sql" unfolding audit_sql_def
      by (intro framed_append) (simp_all add: framed_def one_statement_def)
    ultimately show ?case using reads(2) by auto
  qed
  then show "rls_statement sql \<Longrightarrow> one_statement sql" by (simp add: framed_def)
qed

lemma no_marks: "CHR ''?'' \<notin> set sql \<Longrightarrow> convert_question_marks sql = sql"
  using convert_question_marks_spec by blast

text \<open>
  C19. Whatever is asked of the row-level security service, under any failures, it sends only statements of four
  fixed shapes with accepted names in them, each of them a single statement without a comment. So what all
  those statements keep, every request keeps.
\<close>

theorem rls_requests_send_safe_statements:
  assumes "\<forall>sql. rls_statement sql \<longrightarrow> one_statement sql \<longrightarrow> harmless_to P e sql []"
  shows "keeps P (rls_handler e request)"
proof -
  have h: "rls_statement sql \<Longrightarrow> harmless_to P e sql []" for sql
    using assms rls_statement_one by blast
  have read: "harmless_to P e (convert_question_marks sql) []" if "validate_identifier table = Inr ()" "sql \<in> {policies_sql table, status_sql table}" for sql table
  proof -
    have "CHR ''?'' \<notin> set sql" using that word_free [OF _ that(1), of "CHR ''?''"] by (auto simp: policies_sql_def status_sql_def)
    with that show ?thesis by (auto simp: no_marks intro!: h rls_statement.reads)
  qed
  have audit: "keeps P (query_simple e audit_sql)"
  proof -
    have "validate_identifier ''t'' = Inr ()" by code_simp
    moreover have "CHR ''?'' \<notin> set audit_sql" by (simp add: audit_sql_def)
    ultimately show ?thesis by (intro keeps_calls) (auto simp: no_marks intro!: h rls_statement.reads)
  qed
  have table: "keeps P (list_policies e t)" "keeps P (get_status e t)" for t
    unfolding get_status_def list_policies_def
    by (auto intro!: keeps_lift_bind keeps_intro split: list.splits intro: read)
  note sw = rls_statement.switch [where how = "''ENABLE''"] rls_statement.switch [where how = "''FORCE''"] rls_statement.switch [where how = "''DISABLE''"]
  show ?thesis
    by (cases request)
      (auto simp: enable_rls_def disable_rls_def create_policy_def drop_policy_def audit_rls_def
        intro!: keeps_lift_bind keeps_intro table audit h rls_statement.policy rls_statement.drop [simplified] sw [simplified])
qed


text \<open>
  C20. The claims of a token reach the server unchanged: what \<open>inject_jwt_context\<close> sends is the setting followed by a
  literal that standard SQL reads back as exactly those claims, whatever characters they contain.
\<close>

theorem jwt_context_round_trip:
  "\<exists>literal. inject_jwt_context e claims =
       bind_io (send e (''SET LOCAL request.jwt.claims = '' @ CHR 0x27 # literal) []) (\<lambda>_. ret ()) \<and>
     read_literal literal = Some (claims, [])"
proof -
  have "bind_io (bind_io m (\<lambda>a. ret (affected a))) (\<lambda>_. ret ()) = bind_io m (\<lambda>_. ret ())" for m :: "('a, answer) io"
    by (auto simp: fun_eq_iff bind_io_def ret_def split: prod.splits sum.splits)
  then show ?thesis
    using read_quoted [of "[]" claims] by (intro exI [of _ "double_quotes claims @ [CHR 0x27]"]) (simp add: inject_jwt_context_def execute_simple_def)
qed

text \<open>
  An expression is checked character by character and word by word, but not for its brackets: a policy asked
  for with a \<open>USING\<close> expression alone can carry a \<open>WITH CHECK\<close> clause inside it. The statement sent is the one of the
  request that asks for both.
\<close>

theorem using_expression_carries_check:
  "create_policy e ''t'' \<lparr>cp_name = ''p'', operation = OpAll, using_expr = Some ''a = 1) WITH CHECK (true'', check_expr = None, cp_permissive = True\<rparr> =
   create_policy e ''t'' \<lparr>cp_name = ''p'', operation = OpAll, using_expr = Some ''a = 1'', check_expr = Some ''true'', cp_permissive = True\<rparr>"
proof -
  have "validate_sql_expression ''a = 1) WITH CHECK (true'' = Inr ()" by code_simp
  moreover have "validate_sql_expression ''a = 1'' = Inr ()" by code_simp
  moreover have "validate_sql_expression ''true'' = Inr ()" by code_simp
  ultimately show ?thesis
    by (simp add: create_policy_def check_optional_def policy_sql_def clause_def bind_io_def lift_def fun_eq_iff)
qed

section \<open>Witnesses\<close>

definition demo_sql_env :: "string list sql_env" where
  "demo_sql_env = \<lparr>server = (\<lambda>sql _ sent. Inr (\<lparr>returned = [], affected = 0, returned_id = Some 1\<rparr>, sent @ [sql])), sv_json = (\<lambda>_. None), sv_base64 = id\<rparr>"

theorem rls_requests_send_safe_statements_witness:
  "list_all one_statement (st (snd (rls_handler demo_sql_env (DropPolicy ''t'' ''p'') (up []))))"
proof -
  have "keeps (list_all one_statement) (rls_handler demo_sql_env (DropPolicy ''t'' ''p''))"
    by (rule rls_requests_send_safe_statements) (auto simp: harmless_to_def demo_sql_env_def)
  then show ?thesis by (simp add: keeps_def)
qed

end
