(* ===== verification/Documents.thy ===== *)
theory Documents imports SchemaEvolution RawSql Auth Rls JsonMap begin

text \<open>
  The document interface (\<open>src/src/api/handlers.rs\<close>): inserting, querying, updating and deleting documents, tables,
  raw SQL, and datasets (\<open>src/src/data_processing/mod.rs\<close>), with the audit of administrators
  (\<open>src/src/api/admin.rs\<close>). The handlers call the schema guard, the accounts and the row-level security service.
  The state extends the tables of the accounts; what PostgreSQL makes of a statement is the \<open>server\<close>, which
  acts on the catalogue and on data of which the program knows nothing.
\<close>

section \<open>State\<close>

record admin_audit_row =
  aa_id :: string
  aa_occurred :: nat
  aa_actor :: int
  aa_action :: string
  aa_resource_type :: string
  aa_resource :: "string option"
  aa_outcome :: string
  aa_details :: json

record dataset_field =
  df_name :: string
  df_type :: string

record dataset =
  ds_id :: string
  ds_name :: string
  ds_description :: string
  source_sql :: string
  ds_fields :: "dataset_field list"
  ds_tenant :: int
  ds_created :: string

record dataset_row =
  dr_id :: string
  dr_name :: string
  dr_description :: string
  dr_sql :: string
  dr_fields :: json
  dr_tenant :: int
  dr_created :: string

record 'd doc_db = auth_db +
  doc_guard :: schema_guard
  doc_data :: 'd
  admin_audit :: "admin_audit_row list"
  dataset_rows :: "dataset_row list"
  broadcasts :: "(string \<times> json) list"

record 'd doc_env =
  guard_env :: env
  account_env :: auth_env
  sql_server :: "(catalog \<times> 'd) sql_env"
  row_count :: "'d \<Rightarrow> string \<Rightarrow> int"
  to_text :: "json \<Rightarrow> string"
  to_f64 :: "number \<Rightarrow> 64 word option"
  decode_payload :: "string \<Rightarrow> string option"
  doc_now :: nat
  doc_time :: "nat \<Rightarrow> string"
  doc_uuid :: string
  show_list :: "string list \<Rightarrow> string"
  auth_enabled :: bool
  authorization :: authorization_service
  raw_sql_enabled :: bool
  destructive_admin_enabled :: bool
  raw_sql_query_allowlist :: "string list"
  raw_sql_execute_blocklist :: "string list"
  audit_available :: bool
  rls_available :: bool

section \<open>Access to the parts\<close>

definition on_guard :: "(schema_guard, 'a) io \<Rightarrow> ('d doc_db, 'a) io" where
  "on_guard = zoom doc_guard (\<lambda>g s. s\<lparr>doc_guard := g\<rparr>)"

definition server_state :: "'d doc_db \<Rightarrow> catalog \<times> 'd" where
  "server_state s = (world (pg (doc_guard s)), doc_data s)"

definition put_server :: "catalog \<times> 'd \<Rightarrow> 'd doc_db \<Rightarrow> 'd doc_db" where
  "put_server w s = s\<lparr>doc_guard := (doc_guard s)\<lparr>pg := (pg (doc_guard s))\<lparr>world := fst w\<rparr>\<rparr>, doc_data := snd w\<rparr>"

definition on_server :: "(catalog \<times> 'd, 'a) io \<Rightarrow> ('d doc_db, 'a) io" where
  "on_server = zoom server_state put_server"

definition broadcast :: "string \<Rightarrow> (string \<times> json) list \<Rightarrow> ('d doc_db, unit) io" where
  "broadcast collection kvs = modify (\<lambda>s. s\<lparr>broadcasts := broadcasts s @ [(collection, JObject (obj_of kvs))]\<rparr>)"

text \<open>\<open>maybe_inject_rls_context\<close>: best effort, with the header as it comes.\<close>

definition maybe_inject_rls_context :: "'d doc_env \<Rightarrow> string option \<Rightarrow> ('d doc_db, unit) io" where
  "maybe_inject_rls_context e header =
     (if \<not> rls_available e then ret ()
      else case Option.bind header (\<lambda>h. strip_prefix h ''Bearer '') of
          None \<Rightarrow> ret ()
        | Some token \<Rightarrow>
            (let claims = unwrap_or [] (decode_jwt_payload (decode_payload e) Some token)
             in if claims = [] then ret ()
                else bind_io (attempt (on_server (inject_jwt_context (sql_server e) claims))) (\<lambda>_. ret ())))"

section \<open>Statements\<close>

definition insert_sql :: "string \<Rightarrow> (string \<times> pg_type) list \<Rightarrow> string" where
  "insert_sql collection columns =
     ''INSERT INTO '' @ collection @ '' ('' @ join '', '' (map fst columns) @ '') VALUES ('' @ join '', '' (map (\<lambda>_. ''?'') columns) @ '')''"

definition default_sql :: "string \<Rightarrow> string" where
  "default_sql collection = ''INSERT INTO '' @ collection @ '' DEFAULT VALUES''"

definition params_of :: "'d doc_env \<Rightarrow> (string \<times> pg_type) list \<Rightarrow> (string \<times> json) list \<Rightarrow> sql_value list" where
  "params_of e columns obj =
     map (\<lambda>(name, ty). case map_of obj name of None \<Rightarrow> SqlNull
       | Some v \<Rightarrow> json_to_sql_value_for_type (to_text e) (to_f64 e) v ty) columns"

definition set_clauses :: "(string \<times> pg_type) list \<Rightarrow> string" where
  "set_clauses columns = join '', '' (map (\<lambda>c. fst c @ '' = ?'') columns)"

text \<open>The conditions of a filter, in the order of the hash map; a name that is not accepted ends the request.\<close>

definition where_clause :: "string list \<Rightarrow> string result" where
  "where_clause keys =
     (if keys = [] then Inr []
      else and_then (try_fold (\<lambda>_ k. validate_identifier k) () keys)
        (\<lambda>_. Inr ('' WHERE '' @ join '' AND '' (map (\<lambda>k. k @ '' = ?'') keys))))"

section \<open>Inserting\<close>

record push_response =
  pu_id :: int
  pu_collection :: string
  columns_added :: "string list"

record batch_push_response =
  ba_inserted :: nat
  ba_collection :: string
  ba_columns :: "string list"

definition push_handler :: "'d doc_env \<Rightarrow> string option \<Rightarrow> string \<Rightarrow> json \<Rightarrow> ('d doc_db, push_response) io" where
  "push_handler e header collection payload =
     bind_io (maybe_inject_rls_context e header) (\<lambda>_.
     bind_io (on_guard (ensure_table (guard_env e) collection)) (\<lambda>_.
     bind_io (on_guard (ensure_columns (guard_env e) collection payload)) (\<lambda>columns.
     bind_io (if columns = [] then on_server (insert_returning_id (sql_server e) (default_sql collection) [])
              else bind_io (lift (ok_or (InvalidPayload ''Payload must be a JSON object'') (as_object payload))) (\<lambda>obj.
                   on_server (insert_returning_id (sql_server e) (insert_sql collection columns) (params_of e columns obj)))) (\<lambda>id.
     bind_io (broadcast collection [(''event'', JString ''insert''), (''id'', json_int id), (''data'', payload)]) (\<lambda>_.
     ret \<lparr>pu_id = id, pu_collection = collection, columns_added = map fst columns\<rparr>)))))"

definition batch_push_handler :: "'d doc_env \<Rightarrow> string option \<Rightarrow> string \<Rightarrow> json list \<Rightarrow> ('d doc_db, batch_push_response) io" where
  "batch_push_handler e header collection payloads =
     bind_io (maybe_inject_rls_context e header) (\<lambda>_.
     if payloads = [] then fail (InvalidPayload ''Empty batch'')
     else bind_io (on_guard (ensure_table (guard_env e) collection)) (\<lambda>_.
     bind_io (on_guard (ensure_batch_columns (guard_env e) collection payloads)) (\<lambda>columns.
     bind_io (for_io (\<lambda>payload n.
         if columns = [] then bind_io (on_server (execute_simple (sql_server e) (default_sql collection))) (\<lambda>_. ret (Suc n))
         else bind_io (lift (ok_or (InvalidPayload ''Each item must be a JSON object'') (as_object payload))) (\<lambda>obj.
              bind_io (on_server (execute (sql_server e) (insert_sql collection columns) (params_of e columns obj))) (\<lambda>_. ret (Suc n))))
       payloads 0) (\<lambda>inserted.
     bind_io (broadcast collection [(''event'', JString ''batch_insert''), (''count'', json_int (int inserted))]) (\<lambda>_.
     ret \<lparr>ba_inserted = inserted, ba_collection = collection, ba_columns = map fst columns\<rparr>)))))"

definition preview_handler :: "'d doc_env \<Rightarrow> string \<Rightarrow> json \<Rightarrow> ('d doc_db, schema_preview) io" where
  "preview_handler e collection payload = on_guard (preview_schema_changes (guard_env e) collection payload)"

section \<open>Querying\<close>

record query_params =
  limit :: "nat option"
  offset :: "nat option"
  order_by :: "string option"
  order_dir :: "string option"
  filters :: "(string \<times> string) list"

definition table_stats_of :: "'d doc_env \<Rightarrow> string \<Rightarrow> ('d doc_db, table_stats) io" where
  "table_stats_of e collection =
     bind_io (gets doc_data) (\<lambda>d. on_guard (get_table_stats (guard_env e) (row_count e d) collection))"

definition active_filters :: "(string \<times> string) list \<Rightarrow> (string \<times> string) list" where
  "active_filters fs = filter (\<lambda>(k, v). k \<notin> {''limit'', ''offset'', ''order_by'', ''order_dir''}) fs"

definition order_clause :: "query_params \<Rightarrow> string result" where
  "order_clause q =
     (case order_by q of
        None \<Rightarrow> Inr []
      | Some column \<Rightarrow>
          and_then (validate_identifier column) (\<lambda>_.
            (let dir = to_uppercase (unwrap_or ''ASC'' (order_dir q))
             in if dir \<noteq> ''ASC'' \<and> dir \<noteq> ''DESC'' then Inl (InvalidPayload ''order_dir must be ASC or DESC'')
                else Inr ('' ORDER BY '' @ column @ '' '' @ dir))))"

definition limit_clause :: "query_params \<Rightarrow> string" where
  "limit_clause q =
     '' LIMIT '' @ show_nat (min (unwrap_or 100 (limit q)) 1000)
       @ (case offset q of None \<Rightarrow> [] | Some n \<Rightarrow> '' OFFSET '' @ show_nat n)"

definition query_handler :: "'d doc_env \<Rightarrow> string option \<Rightarrow> string \<Rightarrow> query_params \<Rightarrow> ('d doc_db, json list) io" where
  "query_handler e header collection q =
     bind_io (maybe_inject_rls_context e header) (\<lambda>_.
     bind_io (table_stats_of e collection) (\<lambda>_.
     bind_io (lift (where_clause (map fst (active_filters (filters q))))) (\<lambda>conditions.
     bind_io (lift (order_clause q)) (\<lambda>order.
     bind_io (on_server (query_rows (sql_server e) (''SELECT * FROM '' @ collection @ conditions @ order @ limit_clause q)
         (map (\<lambda>(k, v). SqlText v) (active_filters (filters q))))) (\<lambda>rows.
     ret (map row_object rows))))))"

definition get_by_id_handler :: "'d doc_env \<Rightarrow> string option \<Rightarrow> string \<Rightarrow> int \<Rightarrow> ('d doc_db, json) io" where
  "get_by_id_handler e header collection i =
     bind_io (maybe_inject_rls_context e header) (\<lambda>_.
     bind_io (table_stats_of e collection) (\<lambda>_.
     bind_io (on_server (query_rows (sql_server e) (''SELECT * FROM '' @ collection @ '' WHERE id = ?'') [SqlInteger i])) (\<lambda>rows.
     case rows of
       [] \<Rightarrow> fail (TableNotFound (''Document with id '' @ show_int i @ '' not found in '' @ collection))
     | r # _ \<Rightarrow> ret (row_object r))))"

section \<open>Changing\<close>

definition update_handler :: "'d doc_env \<Rightarrow> string option \<Rightarrow> string \<Rightarrow> int \<Rightarrow> json \<Rightarrow> ('d doc_db, nat option) io" where
  "update_handler e header collection i payload =
     bind_io (maybe_inject_rls_context e header) (\<lambda>_.
     bind_io (on_guard (ensure_columns (guard_env e) collection payload)) (\<lambda>columns.
     if columns = [] then ret None
     else bind_io (lift (ok_or (InvalidPayload ''Payload must be a JSON object'') (as_object payload))) (\<lambda>obj.
          bind_io (on_server (execute (sql_server e)
              (''UPDATE '' @ collection @ '' SET '' @ set_clauses columns @ '', updated_at = CURRENT_TIMESTAMP WHERE id = ?'')
              (params_of e columns obj @ [SqlInteger i]))) (\<lambda>n.
          bind_io (broadcast collection [(''event'', JString ''update''), (''id'', json_int i), (''data'', payload)]) (\<lambda>_.
          ret (Some n))))))"

definition delete_handler :: "'d doc_env \<Rightarrow> string option \<Rightarrow> string \<Rightarrow> int \<Rightarrow> ('d doc_db, nat) io" where
  "delete_handler e header collection i =
     bind_io (maybe_inject_rls_context e header) (\<lambda>_.
     bind_io (lift (validate_identifier collection)) (\<lambda>_.
     bind_io (on_server (execute (sql_server e) (''DELETE FROM '' @ collection @ '' WHERE id = ?'') [SqlInteger i])) (\<lambda>n.
     bind_io (broadcast collection [(''event'', JString ''delete''), (''id'', json_int i)]) (\<lambda>_. ret n))))"

definition bulk_delete_handler :: "'d doc_env \<Rightarrow> string option \<Rightarrow> string \<Rightarrow> (string \<times> json) list \<Rightarrow> ('d doc_db, nat) io" where
  "bulk_delete_handler e header collection fs =
     bind_io (maybe_inject_rls_context e header) (\<lambda>_.
     bind_io (table_stats_of e collection) (\<lambda>_.
     bind_io (lift (where_clause (map fst fs))) (\<lambda>conditions.
     bind_io (on_server (execute (sql_server e) (''DELETE FROM '' @ collection @ conditions)
         (map (\<lambda>(k, v). json_to_sql_value (to_text e) (to_f64 e) v) fs))) (\<lambda>n.
     bind_io (broadcast collection [(''event'', JString ''bulk_delete''), (''affected'', json_int (int n))]) (\<lambda>_. ret n)))))"

definition bulk_update_handler :: "'d doc_env \<Rightarrow> string option \<Rightarrow> string \<Rightarrow> (string \<times> json) list \<Rightarrow> json \<Rightarrow> ('d doc_db, nat) io" where
  "bulk_update_handler e header collection fs data =
     bind_io (maybe_inject_rls_context e header) (\<lambda>_.
     bind_io (table_stats_of e collection) (\<lambda>_.
     bind_io (lift (ok_or (InvalidPayload ''data must be a JSON object'') (as_object data))) (\<lambda>obj.
     if obj = [] then fail (InvalidPayload ''data must not be empty'')
     else bind_io (on_guard (ensure_columns (guard_env e) collection data)) (\<lambda>columns.
     bind_io (lift (where_clause (map fst fs))) (\<lambda>conditions.
     bind_io (on_server (execute (sql_server e)
         (''UPDATE '' @ collection @ '' SET '' @ set_clauses columns @ '', updated_at = CURRENT_TIMESTAMP'' @ conditions)
         (params_of e columns obj @ map (\<lambda>(k, v). json_to_sql_value (to_text e) (to_f64 e) v) fs))) (\<lambda>n.
     bind_io (broadcast collection [(''event'', JString ''bulk_update''), (''affected'', json_int (int n))]) (\<lambda>_. ret n)))))))"

section \<open>Administration\<close>

definition audit_record :: "'d doc_env \<Rightarrow> int \<Rightarrow> string \<Rightarrow> string \<Rightarrow> string option \<Rightarrow> string \<Rightarrow> json \<Rightarrow> ('d doc_db, unit) io" where
  "audit_record e actor action resource_type resource outcome details =
     stmt (\<lambda>s. if \<exists>r \<in> set (admin_audit s). aa_id r = doc_uuid e then Inl (Database ''duplicate key value violates unique constraint'')
       else Inr ((), s\<lparr>admin_audit := admin_audit s @ [\<lparr>aa_id = doc_uuid e, aa_occurred = doc_now e, aa_actor = actor, aa_action = action,
         aa_resource_type = resource_type, aa_resource = resource, aa_outcome = outcome, aa_details = details\<rparr>]\<rparr>))"

definition record_admin_audit :: "'d doc_env \<Rightarrow> int \<Rightarrow> string \<Rightarrow> string \<Rightarrow> string option \<Rightarrow> json \<Rightarrow> ('d doc_db, unit) io" where
  "record_admin_audit e actor action resource_type resource details =
     (if \<not> audit_available e then fail (Internal ''Admin audit service unavailable'')
      else audit_record e actor action resource_type resource ''success'' details)"

definition handler_require_service_admin :: "'d doc_env \<Rightarrow> string option \<Rightarrow> ('d doc_db, auth_user) io" where
  "handler_require_service_admin e header =
     (if \<not> auth_enabled e then fail (Unauthorized ''Authentication required'')
      else bind_io (lift (extract_auth_user (account_env e) header)) (\<lambda>who.
           bind_io (get_user_by_id (account_env e) (aw_id who)) (\<lambda>u.
           bind_io (lift (require_service_admin_unconditional (authorization e) u)) (\<lambda>_. ret who))))"

definition drop_table_handler :: "'d doc_env \<Rightarrow> string option \<Rightarrow> string \<Rightarrow> ('d doc_db, unit) io" where
  "drop_table_handler e header collection =
     (if \<not> destructive_admin_enabled e then fail (Forbidden ''Destructive admin actions are disabled by default'')
      else bind_io (handler_require_service_admin e header) (\<lambda>who.
           bind_io (lift (validate_identifier collection)) (\<lambda>_.
           bind_io (on_server (execute_simple (sql_server e) (''DROP TABLE IF EXISTS '' @ collection))) (\<lambda>_.
           record_admin_audit e (aw_id who) ''api.drop_table'' ''table'' (Some collection)
             (JObject [(''route'', JString ''/v1/tables/:collection'')])))))"

text \<open>The body is parsed after the administrator is established; \<open>body\<close> is the outcome.\<close>

definition sql_query_handler :: "'d doc_env \<Rightarrow> string option \<Rightarrow> string result \<Rightarrow> ('d doc_db, json list) io" where
  "sql_query_handler e header body =
     (if \<not> raw_sql_enabled e then fail (Forbidden ''Raw SQL access is disabled by default'')
      else bind_io (handler_require_service_admin e header) (\<lambda>who.
           bind_io (lift body) (\<lambda>sql.
           bind_io (lift (validate_raw_sql (show_list e) ''query'' sql (Some (raw_sql_query_allowlist e)) None (destructive_admin_enabled e))) (\<lambda>_.
           bind_io (on_server (query_simple (sql_server e) sql)) (\<lambda>rows.
           bind_io (record_admin_audit e (aw_id who) ''api.sql_query'' ''sql'' None
             (JObject (obj_of [(''route'', JString ''/v1/sql/query''), (''query_length'', json_int (int (length sql))),
               (''result_count'', json_int (int (length rows)))]))) (\<lambda>_.
           ret (map row_object rows)))))))"

definition sql_execute_handler :: "'d doc_env \<Rightarrow> string option \<Rightarrow> string result \<Rightarrow> ('d doc_db, nat) io" where
  "sql_execute_handler e header body =
     (if \<not> raw_sql_enabled e then fail (Forbidden ''Raw SQL access is disabled by default'')
      else bind_io (handler_require_service_admin e header) (\<lambda>who.
           bind_io (lift body) (\<lambda>sql.
           bind_io (lift (validate_raw_sql (show_list e) ''execute'' sql None (Some (raw_sql_execute_blocklist e)) (destructive_admin_enabled e))) (\<lambda>_.
           bind_io (on_server (execute_simple (sql_server e) sql)) (\<lambda>n.
           bind_io (record_admin_audit e (aw_id who) ''api.sql_execute'' ''sql'' None
             (JObject (obj_of [(''route'', JString ''/v1/sql/execute''), (''query_length'', json_int (int (length sql))),
               (''affected'', json_int (int n))]))) (\<lambda>_.
           ret n))))))"

definition list_tables_handler :: "'d doc_env \<Rightarrow> ('d doc_db, string list) io" where
  "list_tables_handler e = on_server (list_tables (sql_server e))"

definition list_audit :: "'d doc_env \<Rightarrow> int \<Rightarrow> ('d doc_db, json list) io" where
  "list_audit e n =
     bind_io (query (sv_json (sql_server e)) (sv_base64 (sql_server e)) (\<lambda>s. map (\<lambda>r. [(''id'', cell_text (aa_id r)),
         (''occurred_at'', cell_time (doc_time e (aa_occurred r))), (''actor_user_id'', cell_int (aa_actor r)), (''action'', cell_text (aa_action r)),
         (''resource_type'', cell_text (aa_resource_type r)), (''resource_id'', cell_opt ''TEXT'' cell_text (aa_resource r)),
         (''outcome'', cell_text (aa_outcome r)), (''details'', cell_jsonb (aa_details r))])
       (take (nat n) (rev (sort_key aa_occurred (admin_audit s)))))) (\<lambda>rows.
     ret (map (\<lambda>r. JObject (obj_of ([(''id'', JString (unwrap_or [] (col_str r ''id''))), (''occurred_at'', JString (unwrap_or [] (col_str r ''occurred_at''))),
         (''actor_user_id'', json_int (unwrap_or 0 (col_i64 r ''actor_user_id''))), (''action'', JString (unwrap_or [] (col_str r ''action''))),
         (''resource_type'', JString (unwrap_or [] (col_str r ''resource_type''))),
         (''resource_id'', case col_str r ''resource_id'' of None \<Rightarrow> JNull | Some t \<Rightarrow> JString t),
         (''outcome'', JString (unwrap_or [] (col_str r ''outcome''))), (''details'', unwrap_or (JObject []) (row_get r ''details''))]))) rows))"

section \<open>Datasets\<close>

definition field_json :: "dataset_field \<Rightarrow> json" where
  "field_json f = JObject [(''name'', JString (df_name f)), (''type'', JString (df_type f))]"

definition fields_json :: "dataset_field list \<Rightarrow> json" where
  "fields_json fs = JArray (map field_json fs)"

definition field_of_json :: "json \<Rightarrow> dataset_field option" where
  "field_of_json v =
     (case (Option.bind (jget v ''name'') as_str, Option.bind (jget v ''type'') as_str) of
        (Some n, Some t) \<Rightarrow> Some \<lparr>df_name = n, df_type = t\<rparr>
      | _ \<Rightarrow> None)"

definition fields_of_json :: "json \<Rightarrow> dataset_field list option" where
  "fields_of_json v = (case v of JArray xs \<Rightarrow> all_some (map field_of_json xs) | _ \<Rightarrow> None)"

lemma fields_round_trip: "fields_of_json (fields_json fs) = Some fs"
  by (induction fs) (simp_all add: fields_of_json_def fields_json_def field_of_json_def field_json_def jget_def)

definition required_column :: "row \<Rightarrow> string \<Rightarrow> json result" where
  "required_column r k = ok_or (Internal (''missing dataset column: '' @ k)) (row_get r k)"

definition row_to_dataset :: "row \<Rightarrow> dataset result" where
  "row_to_dataset r =
     and_then (required_column r ''fields'') (\<lambda>fv. and_then (ok_or (Internal ''dataset fields parse error'') (fields_of_json fv)) (\<lambda>fields.
     and_then (required_column r ''id'') (\<lambda>i. and_then (required_column r ''name'') (\<lambda>n. and_then (required_column r ''description'') (\<lambda>d.
     and_then (required_column r ''source_sql'') (\<lambda>q. and_then (required_column r ''tenant_id'') (\<lambda>t. and_then (required_column r ''created_at'') (\<lambda>c.
     Inr \<lparr>ds_id = unwrap_or [] (as_str i), ds_name = unwrap_or [] (as_str n), ds_description = unwrap_or [] (as_str d),
       source_sql = unwrap_or [] (as_str q), ds_fields = fields, ds_tenant = unwrap_or 0 (as_i64 t), ds_created = unwrap_or [] (as_str c)\<rparr>))))))))"

text \<open>The table and its index: two statements of a batch.\<close>

definition ensure_dataset_table :: "('d doc_db, unit) io" where
  "ensure_dataset_table = bind_io (exec id) (\<lambda>_. exec id)"

definition dataset_cells :: "dataset_row \<Rightarrow> (string \<times> cell) list" where
  "dataset_cells r = [(''id'', cell_text (dr_id r)), (''name'', cell_text (dr_name r)), (''description'', cell_text (dr_description r)),
     (''source_sql'', cell_text (dr_sql r)), (''fields'', cell_jsonb (dr_fields r)), (''tenant_id'', cell_int (dr_tenant r)),
     (''created_at'', cell_time (dr_created r))]"

definition dataset_query :: "'d doc_env \<Rightarrow> (dataset_row list \<Rightarrow> dataset_row list) \<Rightarrow> ('d doc_db, row list) io" where
  "dataset_query e f = query (sv_json (sql_server e)) (sv_base64 (sql_server e)) (\<lambda>s. map dataset_cells (f (dataset_rows s)))"

definition list_datasets :: "'d doc_env \<Rightarrow> int \<Rightarrow> ('d doc_db, dataset list) io" where
  "list_datasets e tenant =
     bind_io ensure_dataset_table (\<lambda>_.
     bind_io (dataset_query e (\<lambda>rs. sort_key dr_name (filter (\<lambda>r. dr_tenant r = tenant) rs))) (\<lambda>rows.
     for_io (\<lambda>r acc. bind_io (lift (row_to_dataset r)) (\<lambda>d. ret (acc @ [d]))) rows []))"

definition get_dataset :: "'d doc_env \<Rightarrow> string \<Rightarrow> ('d doc_db, dataset) io" where
  "get_dataset e i =
     bind_io ensure_dataset_table (\<lambda>_.
     bind_io (dataset_query e (\<lambda>rs. take 1 (filter (\<lambda>r. dr_id r = i) rs))) (\<lambda>rows. case rows of
         [] \<Rightarrow> fail (NotFound (''dataset '' @ quoted i @ '' not found''))
       | r # _ \<Rightarrow> lift (row_to_dataset r)))"

record create_dataset_request =
  cd_name :: string
  cd_description :: "string option"
  cd_sql :: string
  cd_fields :: "dataset_field list"

definition create_dataset :: "'d doc_env \<Rightarrow> int \<Rightarrow> create_dataset_request \<Rightarrow> ('d doc_db, dataset) io" where
  "create_dataset e tenant req =
     bind_io ensure_dataset_table (\<lambda>_.
     bind_io (stmt (\<lambda>s. if \<exists>r \<in> set (dataset_rows s). dr_id r = doc_uuid e then Inl (Database ''duplicate key value violates unique constraint'')
       else Inr ((), s\<lparr>dataset_rows := dataset_rows s @ [\<lparr>dr_id = doc_uuid e, dr_name = cd_name req, dr_description = unwrap_or [] (cd_description req),
         dr_sql = cd_sql req, dr_fields = fields_json (cd_fields req), dr_tenant = tenant, dr_created = doc_time e (doc_now e)\<rparr>]\<rparr>))) (\<lambda>_.
     get_dataset e (doc_uuid e)))"

definition trim_end_semicolons :: "string \<Rightarrow> string" where
  "trim_end_semicolons s = rev (dropWhile (\<lambda>c. c = CHR '';'') (rev s))"

definition query_dataset :: "'d doc_env \<Rightarrow> string \<Rightarrow> int option \<Rightarrow> ('d doc_db, json list) io" where
  "query_dataset e i n =
     bind_io (get_dataset e i) (\<lambda>d.
     bind_io (on_server (query_simple (sql_server e) (case n of None \<Rightarrow> source_sql d
         | Some n \<Rightarrow> trim_end_semicolons (source_sql d) @ '' LIMIT '' @ show_int n))) (\<lambda>rows.
     ret (map row_object rows)))"

definition dataset_tenant :: "'d doc_env \<Rightarrow> string option \<Rightarrow> int" where
  "dataset_tenant e header =
     (if auth_enabled e then (case extract_auth_user (account_env e) header of Inl _ \<Rightarrow> 0 | Inr who \<Rightarrow> aw_id who) else 0)"

section \<open>Requests\<close>

datatype doc_request =
    Push string json
  | BatchPush string "json list"
  | Preview string json
  | QueryDocs string query_params
  | GetById string int
  | UpdateDoc string int json
  | BulkUpdate string "(string \<times> json) list" json
  | DeleteDoc string int
  | BulkDelete string "(string \<times> json) list"
  | SqlQuery "string result"
  | SqlExecute "string result"
  | ListTables
  | TableStats string
  | DropTable string
  | ListDatasets
  | CreateDataset create_dataset_request
  | GetDataset string
  | PreviewDataset string "int option"

datatype doc_response =
    Pushed push_response
  | BatchPushed batch_push_response
  | Previewed schema_preview
  | Rows "json list"
  | Document json
  | Affected nat
  | NoUpdates
  | Tables "string list"
  | Stats table_stats
  | Dropped
  | DatasetsFound "dataset list"
  | DatasetFound dataset

fun doc_handler :: "'d doc_env \<Rightarrow> string option \<Rightarrow> doc_request \<Rightarrow> ('d doc_db, doc_response) io" where
  "doc_handler e header (Push c v) = bind_io (push_handler e header c v) (\<lambda>x. ret (Pushed x))"
| "doc_handler e header (BatchPush c vs) = bind_io (batch_push_handler e header c vs) (\<lambda>x. ret (BatchPushed x))"
| "doc_handler e header (Preview c v) = bind_io (preview_handler e c v) (\<lambda>x. ret (Previewed x))"
| "doc_handler e header (QueryDocs c q) = bind_io (query_handler e header c q) (\<lambda>x. ret (Rows x))"
| "doc_handler e header (GetById c i) = bind_io (get_by_id_handler e header c i) (\<lambda>x. ret (Document x))"
| "doc_handler e header (UpdateDoc c i v) =
     bind_io (update_handler e header c i v) (\<lambda>x. ret (case x of None \<Rightarrow> NoUpdates | Some n \<Rightarrow> Affected n))"
| "doc_handler e header (BulkUpdate c fs v) = bind_io (bulk_update_handler e header c fs v) (\<lambda>x. ret (Affected x))"
| "doc_handler e header (DeleteDoc c i) = bind_io (delete_handler e header c i) (\<lambda>x. ret (Affected x))"
| "doc_handler e header (BulkDelete c fs) = bind_io (bulk_delete_handler e header c fs) (\<lambda>x. ret (Affected x))"
| "doc_handler e header (SqlQuery b) = bind_io (sql_query_handler e header b) (\<lambda>x. ret (Rows x))"
| "doc_handler e header (SqlExecute b) = bind_io (sql_execute_handler e header b) (\<lambda>x. ret (Affected x))"
| "doc_handler e header ListTables = bind_io (list_tables_handler e) (\<lambda>x. ret (Tables x))"
| "doc_handler e header (TableStats c) = bind_io (table_stats_of e c) (\<lambda>x. ret (Stats x))"
| "doc_handler e header (DropTable c) = bind_io (drop_table_handler e header c) (\<lambda>_. ret Dropped)"
| "doc_handler e header ListDatasets = bind_io (list_datasets e (dataset_tenant e header)) (\<lambda>x. ret (DatasetsFound x))"
| "doc_handler e header (CreateDataset r) = bind_io (create_dataset e (dataset_tenant e header) r) (\<lambda>x. ret (DatasetFound x))"
| "doc_handler e header (GetDataset i) = bind_io (get_dataset e i) (\<lambda>x. ret (DatasetFound x))"
| "doc_handler e header (PreviewDataset i n) = bind_io (query_dataset e i n) (\<lambda>x. ret (Rows x))"

section \<open>What the guard hands over\<close>

abbreviation safe_name :: "string \<Rightarrow> bool" where
  "safe_name n \<equiv> validate_identifier n = Inr ()"









section \<open>Templates\<close>


text \<open>The characters of a template, and its placeholders.\<close>

definition template_char :: "char \<Rightarrow> bool" where
  "template_char c \<longleftrightarrow> is_word_char c \<or> c \<in> set '' (),=?*''"

lemma template_char_simps [simp]:
  "template_char (CHR '' '')" "template_char (CHR ''('')" "template_char (CHR '')'')" "template_char (CHR '','')"
  "template_char (CHR ''='')" "template_char (CHR ''?'')" "template_char (CHR ''*'')"
  by (simp_all add: template_char_def)






lemma word_chars [simp]: "is_ascii_alphanumeric c \<Longrightarrow> template_char c"
  by (simp add: template_char_def is_word_char_def)
















lemma length_params [simp]: "length (params_of e columns obj) = length columns"
  by (simp add: params_of_def)












text \<open>A call that establishes \<open>R\<close> of its result and the state, whatever happens, before the rest.\<close>

lemma wp_then:
  assumes "wp m R s" and "\<And>e s'. R (Inl e) s' \<Longrightarrow> Q (Inl e) s'" and "\<And>a s'. R (Inr a) s' \<Longrightarrow> wp (k a) Q s'"
  shows "wp (bind_io m k) Q s"
  by (rule wp_bind_io, rule wp_weaken [OF assms(1)]) (auto intro: assms(2,3))

section \<open>Raw statements\<close>

text \<open>Who a request comes from, when that is a service administrator.\<close>

definition from_admin :: "'d doc_env \<Rightarrow> string option \<Rightarrow> 'd doc_db \<Rightarrow> bool" where
  "from_admin e header s \<longleftrightarrow> auth_enabled e \<and>
     (\<exists>who r u. extract_auth_user (account_env e) header = Inr who \<and> r \<in> set (users s) \<and> ur_id r = aw_id who \<and>
        row_to_user (account_env e) (json_row (parse_text (account_env e)) id (user_cells (account_env e) r)) = Inr u \<and> is_service_admin (authorization e) u)"

lemma require_admin_wp:
  "wp (handler_require_service_admin e header) (\<lambda>r s'. s' = s \<and> (\<forall>who. r = Inr who \<longrightarrow> from_admin e header s)) s"
proof -
  have filter: "\<exists>r \<in> set xs. P r \<and> y = f r" if "map f (filter P xs) = y # ys" for f P xs y and ys :: "row list"
  proof -
    have "y \<in> set (map f (filter P xs))" by (simp add: that)
    then show ?thesis by auto
  qed
  show ?thesis
    unfolding handler_require_service_admin_def get_user_by_id_def
    by (auto intro!: wp_intro simp: from_admin_def require_service_admin_unconditional_def split: list.splits if_splits dest!: filter) blast
qed

text \<open>
  C22. A raw statement reaches the server only when raw SQL is switched on, the request comes from a service
  administrator and the statement has passed the checks; a table is dropped only when destructive actions are
  switched on, for an administrator and an accepted name. A request that succeeds has put exactly one entry into the
  audit of administrators. This holds under any failures.
\<close>

theorem raw_statements_need_an_admin:
  "wp (sql_execute_handler e header body) (\<lambda>r s'.
     (server_state s' \<noteq> server_state s \<longrightarrow> raw_sql_enabled e \<and> from_admin e header s \<and>
       (\<exists>sql. body = Inr sql \<and> validate_raw_sql (show_list e) ''execute'' sql None (Some (raw_sql_execute_blocklist e)) (destructive_admin_enabled e) = Inr ())) \<and>
     (\<forall>n. r = Inr n \<longrightarrow> (\<exists>entry. admin_audit s' = admin_audit s @ [entry]))) s \<and>
   wp (sql_query_handler e header body) (\<lambda>r s'.
     (server_state s' \<noteq> server_state s \<longrightarrow> raw_sql_enabled e \<and> from_admin e header s \<and>
       (\<exists>sql. body = Inr sql \<and> validate_raw_sql (show_list e) ''query'' sql (Some (raw_sql_query_allowlist e)) None (destructive_admin_enabled e) = Inr ())) \<and>
     (\<forall>n. r = Inr n \<longrightarrow> (\<exists>entry. admin_audit s' = admin_audit s @ [entry]))) s \<and>
   wp (drop_table_handler e header c) (\<lambda>r s'.
     (server_state s' \<noteq> server_state s \<longrightarrow> destructive_admin_enabled e \<and> from_admin e header s \<and> safe_name c) \<and>
     (\<forall>n. r = Inr n \<longrightarrow> (\<exists>entry. admin_audit s' = admin_audit s @ [entry]))) s"
proof -
  have audit: "wp (record_admin_audit e a act ty res det) (\<lambda>r s'. server_state s' = server_state t \<and>
      (\<forall>u. r = Inr u \<longrightarrow> (\<exists>entry. admin_audit s' = admin_audit t @ [entry]))) t" for a act ty res det t
    unfolding record_admin_audit_def audit_record_def by (auto intro!: wp_intro simp: server_state_def split: if_splits)
  have put: "server_state (put_server w t) = w" "admin_audit (put_server w t) = admin_audit t" for w and t :: "'a doc_db"
    by (simp_all add: server_state_def put_server_def)
  show ?thesis
    unfolding sql_execute_handler_def sql_query_handler_def drop_table_handler_def on_server_def execute_simple_def query_simple_def query_rows_def send_def
    by (intro conjI)
      (auto intro!: wp_intro wp_weaken [OF require_admin_wp] wp_weaken [OF audit] simp: put)
qed

text \<open>
  Datasets lead around all of that. Whoever asks, even without credentials, and with raw SQL switched off: the
  request that creates a dataset stores any statement, and the request for its preview sends that statement to the
  server, unchecked.
\<close>

theorem datasets_bypass_raw_sql_gate:
  assumes "raw_sql_enabled e = False" and "\<forall>r \<in> set (dataset_rows s). dr_id r \<noteq> doc_uuid e" and "plain (doc_uuid e)" and "plain (cd_name req)"
    and "plain (unwrap_or [] (cd_description req))" and "plain (cd_sql req)"
    and "server (sql_server e) (convert_question_marks (cd_sql req)) [] (server_state s) = Inr (a, w)"
  shows "\<exists>s1 d rows s2. doc_handler e None (CreateDataset req) (up s) = (Inr (DatasetFound d), up s1) \<and>
     doc_handler e None (PreviewDataset (doc_uuid e) None) (up s1) = (Inr (Rows rows), up s2) \<and> server_state s2 = w"
proof -
  define row where "row = \<lparr>dr_id = doc_uuid e, dr_name = cd_name req, dr_description = unwrap_or [] (cd_description req),
    dr_sql = cd_sql req, dr_fields = fields_json (cd_fields req), dr_tenant = dataset_tenant e None, dr_created = doc_time e (doc_now e)\<rparr>"
  define s1 where "s1 = s\<lparr>dataset_rows := dataset_rows s @ [row]\<rparr>"
  have one: "filter (\<lambda>r. dr_id r = doc_uuid e) (dataset_rows s) = []" "dr_id row = doc_uuid e"
    using assms(2) by (simp_all add: row_def filter_empty_conv)
  obtain d where d: "row_to_dataset (json_row p b (dataset_cells row)) = Inr d" "source_sql d = cd_sql req" for p b
  proof -
    have "\<exists>d. (\<forall>p b. row_to_dataset (json_row p b (dataset_cells row)) = Inr d) \<and> source_sql d = cd_sql req"
      using assms(3-6)
      by (simp add: row_to_dataset_def required_column_def json_row_def dataset_cells_def row_def row_get_def fields_round_trip)
    with that show thesis by blast
  qed
  have get: "get_dataset e (doc_uuid e) (up s1) = (Inr d, up s1)"
    using d by (simp add: get_dataset_def ensure_dataset_table_def dataset_query_def s1_def one)
  have create: "doc_handler e None (CreateDataset req) (up s) = (Inr (DatasetFound d), up s1)"
    using get assms(2) by (simp add: create_dataset_def ensure_dataset_table_def s1_def row_def)
  have "server_state s1 = server_state s" by (simp add: s1_def server_state_def)
  with assms(7) have "query_simple (sql_server e) (cd_sql req) (up (server_state s1)) =
      (Inr (map (json_row (sv_json (sql_server e)) (sv_base64 (sql_server e))) (returned a)), up w)"
    by (simp add: query_simple_def query_rows_def)
  then have "doc_handler e None (PreviewDataset (doc_uuid e) None) (up s1) =
      (Inr (Rows (map row_object (map (json_row (sv_json (sql_server e)) (sv_base64 (sql_server e))) (returned a)))), up (put_server w s1))"
    using get d(2) by (simp add: query_dataset_def on_server_def)
  with create show ?thesis by (intro exI conjI) (auto simp: server_state_def put_server_def)
qed


section \<open>Parameters and columns\<close>

text \<open>
  The column types a bound parameter is assigned to without a cast in the statement, by the rules of PostgreSQL: the
  driver binds \<open>SqlNull\<close> and \<open>SqlText\<close> as texts, and a text is assigned to columns of text only.
\<close>

fun assignable :: "sql_value \<Rightarrow> pg_type \<Rightarrow> bool" where
  "assignable SqlNull t \<longleftrightarrow> t = Text"
| "assignable (SqlText _) t \<longleftrightarrow> t = Text"
| "assignable (SqlInteger _) t \<longleftrightarrow> t \<in> {BigInt, DoublePrecision, Text}"
| "assignable (SqlReal _) t \<longleftrightarrow> t \<in> {BigInt, DoublePrecision, Text}"
| "assignable (SqlBoolean _) t \<longleftrightarrow> t \<in> {Boolean, Text}"
| "assignable (SqlJson _) t \<longleftrightarrow> t \<in> {Jsonb, Text}"
| "assignable (SqlBlob _) t \<longleftrightarrow> t = Text"

text \<open>
  C23. A value bound for a column that the guard has found wide enough for it has a type PostgreSQL assigns to the
  column, with these exceptions and no others: a null for a column that is not text, any text for a column of dates,
  times or UUIDs, and a number beyond 64 bits signed for a column of integers. Those inserts are rejected; so
  a document with a field that looks like a date, a time or a UUID cannot be stored in a table the guard has made for it.
\<close>

theorem bound_parameters_fit:
  assumes "infer_type v \<le> t" and "t \<noteq> Null" and "\<forall>n. \<exists>f. tof n = Some f"
  shows "assignable (json_to_sql_value_for_type txt tof v t) t \<longleftrightarrow>
    \<not> (v = JNull \<and> t \<noteq> Text) \<and> t \<notin> {Uuid, Date, TimestampTz} \<and> \<not> (\<exists>n. v = JNumber n \<and> t = BigInt \<and> num_as_i64 n = None)"
proof (cases v)
  case (JNumber n)
  obtain f where "tof n = Some f" using assms(3) by blast
  with assms(1,2) JNumber show ?thesis
    by (cases t) (auto simp: json_to_sql_value_for_type_def le_pg_type_iff common_type_def split: option.splits if_splits)
next
  case (JString s)
  with assms(1,2) show ?thesis
    by (cases t) (auto simp: json_to_sql_value_for_type_def le_pg_type_iff common_type_def split: if_splits)
qed (use assms(1,2) in \<open>cases t; auto simp: json_to_sql_value_for_type_def le_pg_type_iff common_type_def\<close>)+

text \<open>
  Dropping a table does not reach the cache of the guard. While it holds the columns of the table, a document
  whose fields are all among them is not given a new table: the insert is sent to the table that is gone, and the
  request fails, however often it is repeated.
\<close>

theorem dropped_table_stays_cached:
  assumes "schema_cache (doc_guard s) c = Some cols" and "cols \<noteq> []" and "infer_schema payload = Inr inferred"
    and "validate_names c inferred = Inr ()" and "schema_from_cache c inferred cols = Inr res" and "res \<noteq> []"
    and gone: "\<forall>w w' a. server (sql_server e) (''DROP TABLE IF EXISTS '' @ c) [] w = Inr (a, w') \<longrightarrow> lost w'"
    and claims: "\<forall>l w w' a. lost w \<longrightarrow> server (sql_server e) (''SET LOCAL request.jwt.claims = '' @ l) [] w = Inr (a, w') \<longrightarrow> lost w'"
    and reject: "\<forall>w ps. lost w \<longrightarrow> (\<exists>err. server (sql_server e) (insert_returning_sql (insert_sql c res)) ps w = Inl err)"
  shows "wp (bind_io (drop_table_handler e header c) (\<lambda>_. bind_io (attempt (push_handler e header' c payload)) (\<lambda>_. push_handler e header' c payload)))
    (\<lambda>r s'. \<exists>err. r = Inl err) s"
proof -
  define stale where "stale t \<longleftrightarrow> schema_cache (doc_guard t) c = Some cols \<and> lost (server_state t)" for t :: "'a doc_db"
  have put: "schema_cache (doc_guard (put_server w t)) = schema_cache (doc_guard t)" "server_state (put_server w t) = w" for w and t :: "'a doc_db"
    by (simp_all add: server_state_def put_server_def)
  have audit: "wp (record_admin_audit e a act ty r det) (\<lambda>r. stale) t" if "stale t" for a act ty r det t
    using that unfolding record_admin_audit_def audit_record_def
    by (auto intro!: wp_intro simp: stale_def server_state_def split: if_splits)
  have drop: "wp (drop_table_handler e header c) (\<lambda>r s'. \<forall>u. r = Inr u \<longrightarrow> stale s') s"
    unfolding drop_table_handler_def on_server_def execute_simple_def send_def
    using assms(1)
    by (auto intro!: wp_intro wp_weaken [OF require_admin_wp] wp_weaken [OF audit] simp: stale_def put intro: gone [rule_format, simplified])
  have inject: "wp (maybe_inject_rls_context e h) (\<lambda>r. stale) t" if "stale t" for h t
    using that unfolding maybe_inject_rls_context_def inject_jwt_context_def on_server_def execute_simple_def send_def Let_def
    by (auto intro!: wp_intro simp: stale_def put split: option.splits intro: claims [rule_format, simplified])
  have table: "wp (on_guard (ensure_table (guard_env e) c)) (\<lambda>r. stale) t" if "stale t" for t
    using that assms(2) unfolding on_guard_def ensure_table_def
    by (auto intro!: wp_intro simp: stale_def server_state_def)
  have columns: "wp (on_guard (ensure_columns (guard_env e) c payload)) (\<lambda>r s'. stale s' \<and> (\<forall>x. r = Inr x \<longrightarrow> x = res)) t" if "stale t" for t
    using that assms(3-5) unfolding on_guard_def ensure_columns_def ensure_schema_def
    by (auto intro!: wp_intro simp: stale_def server_state_def)
  obtain obj where obj: "as_object payload = Some obj"
    using assms(3) by (cases payload) (auto simp: infer_schema_def)
  have insert: "wp (bind_io (on_server (insert_returning_id (sql_server e) (insert_sql c res) ps)) k) (\<lambda>r s'. stale s' \<and> (\<exists>err. r = Inl err)) t"
    if "stale t" for ps t and k :: "int \<Rightarrow> ('a doc_db, push_response) io"
  proof -
    obtain err where "server (sql_server e) (insert_returning_sql (insert_sql c res)) ps (server_state t) = Inl err"
      using reject [rule_format, of "server_state t" ps] \<open>stale t\<close> by (auto simp: stale_def)
    then show ?thesis
      using \<open>stale t\<close> unfolding on_server_def insert_returning_id_def send_def
      by (auto intro!: wp_intro simp: stale_def put_server_def server_state_def)
  qed
  have push: "wp (push_handler e h c payload) (\<lambda>r s'. stale s' \<and> (\<exists>err. r = Inl err)) t" if "stale t" for h t
    unfolding push_handler_def
    by (rule wp_then [OF inject [OF that]], simp, rule wp_then [OF table], assumption, simp, rule wp_then [OF columns], assumption, simp)
      (auto simp: assms(6) obj intro!: insert)
  show ?thesis
    by (rule wp_then [OF drop], simp, rule wp_then [OF wp_attempt, where R = "\<lambda>_. stale"]) (auto intro: wp_weaken [OF push])
qed

section \<open>Witnesses\<close>

text \<open>
  A server that remembers the statements it was sent, and knows of the tables only that \<open>users\<close> can be dropped; an
  insert into it fails once it is gone.
\<close>

definition demo_server :: "(catalog \<times> string list) sql_env" where
  "demo_server = \<lparr>server = (\<lambda>sql _ (tables, sent).
       if starts_with sql ''INSERT INTO users'' \<and> tables ''users'' = None then Inl (Database ''relation does not exist'')
       else Inr (\<lparr>returned = [], affected = 0, returned_id = Some 1\<rparr>,
         if sql = ''DROP TABLE IF EXISTS users'' then tables(''users'' := None) else tables, sent @ [sql])),
     sv_json = (\<lambda>_. None), sv_base64 = id\<rparr>"

definition demo_doc_env :: "bool \<Rightarrow> string list doc_env" where
  "demo_doc_env trusting = \<lparr>guard_env = demo_env, account_env = demo_auth_env, sql_server = demo_server, row_count = (\<lambda>_ _. 0),
     to_text = (\<lambda>_. []), to_f64 = (\<lambda>_. Some 0), decode_payload = (\<lambda>_. None), doc_now = 5, doc_time = (\<lambda>_. ''now''), doc_uuid = ''d1'',
     show_list = concat, auth_enabled = True, authorization = \<lparr>require_admin_for_logs = True, admin_emails = [''boss@acme.io'']\<rparr>,
     raw_sql_enabled = trusting, destructive_admin_enabled = trusting, raw_sql_query_allowlist = [''SELECT''],
     raw_sql_execute_blocklist = [], audit_available = True, rls_available = True\<rparr>"

definition demo_doc_db :: "string list doc_db" where
  "demo_doc_db = auth_db.extend demo_auth_db \<lparr>doc_guard = demo_guard\<lparr>schema_cache := [''users'' \<mapsto> [\<lparr>ci_name = ''age'', col_type = ''bigint'', notnull = False, pk = False\<rparr>]]\<rparr>,
     doc_data = [], admin_audit = [], dataset_rows = [], broadcasts = []\<rparr>"

lemma demo_names: "validate_identifier ''users'' = Inr ()" "validate_identifier ''age'' = Inr ()"
  by (simp_all add: ident_eval)

text \<open>
  The system's own tables are collections like any other: their names are accepted, and no administrator is asked
  for. So anybody deletes a member of a team, as anybody pushes one.
\<close>

theorem system_tables_are_collections:
  "doc_data (st (snd (delete_handler (demo_doc_env False) None ''stackhouse_team_members'' 1 (up demo_doc_db))))
     = [''DELETE FROM stackhouse_team_members WHERE id = $1'']"
proof -
  have "validate_identifier ''stackhouse_team_members'' = Inr ()" by (simp add: ident_eval)
  moreover have "convert_question_marks ''DELETE FROM stackhouse_team_members WHERE id = ?'' = ''DELETE FROM stackhouse_team_members WHERE id = $1''"
    by code_simp
  ultimately show ?thesis
    by (simp add: delete_handler_def maybe_inject_rls_context_def on_server_def execute_def send_def demo_doc_env_def demo_server_def
        starts_with_def broadcast_def demo_doc_db_def auth_db.defs server_state_def put_server_def)
qed


lemma demo_administrator:
  "handler_require_service_admin (demo_doc_env True) (Some ''Bearer boss@acme.io'') (up demo_doc_db) = (Inr \<lparr>aw_id = 1, aw_email = ''boss@acme.io''\<rparr>, up demo_doc_db)"
proof -
  let ?e = "demo_doc_env True"
  have part: "account_env ?e = demo_auth_env" "auth_enabled ?e" "authorization ?e = \<lparr>require_admin_for_logs = True, admin_emails = [''boss@acme.io'']\<rparr>"
    by (simp_all add: demo_doc_env_def)
  have who: "extract_auth_user demo_auth_env (Some ''Bearer boss@acme.io'') = Inr \<lparr>aw_id = 1, aw_email = ''boss@acme.io''\<rparr>"
    by (simp add: extract_auth_user_def strip_prefix_def starts_with_def validate_token_def demo_auth_env_def)
  have row: "row_to_user demo_auth_env (json_row (parse_text demo_auth_env) id (user_cells demo_auth_env demo_user_row))
      = Inr \<lparr>us_id = 1, us_email = ''boss@acme.io'', us_created_at = CHR ''t'' # show_nat 0, us_updated_at = CHR ''t'' # show_nat 0, us_metadata = JObject []\<rparr>"
  proof -
    have "meta_value (parse_text demo_auth_env) ''{}'' = JObject []"
      by (simp add: meta_value_def get_value_from_row_def cell_text_def no_cell_def starts_with_def demo_auth_env_def)
    then show ?thesis
      by (simp add: row_to_user_def required_def metadata_of_cells demo_user_row_def)
        (simp add: json_row_def user_cells_def col_i64_def col_str_def demo_auth_env_def plain_Cons in_i64_def)
  qed
  have "get_user_by_id demo_auth_env 1 (up demo_doc_db)
      = (Inr \<lparr>us_id = 1, us_email = ''boss@acme.io'', us_created_at = CHR ''t'' # show_nat 0, us_updated_at = CHR ''t'' # show_nat 0, us_metadata = JObject []\<rparr>, up demo_doc_db)"
    using row by (simp add: get_user_by_id_def demo_doc_db_def demo_auth_db_def auth_db.defs demo_user_row_def)
  then show ?thesis
    by (simp add: handler_require_service_admin_def part who require_service_admin_unconditional_def is_service_admin_def str_eval)
qed

theorem raw_statements_need_an_admin_witness:
  "\<exists>s' entry. drop_table_handler (demo_doc_env True) (Some ''Bearer boss@acme.io'') ''users'' (up demo_doc_db) = (Inr (), up s')
     \<and> admin_audit s' = admin_audit demo_doc_db @ [entry]"
proof -
  have "\<exists>s'. drop_table_handler (demo_doc_env True) (Some ''Bearer boss@acme.io'') ''users'' (up demo_doc_db) = (Inr (), up s')"
    using demo_administrator by (simp add: drop_table_handler_def demo_names on_server_def execute_simple_def send_def record_admin_audit_def audit_record_def
        demo_server_def starts_with_def server_state_def demo_doc_env_def demo_doc_db_def put_server_def auth_db.defs)
  then obtain s' where run: "drop_table_handler (demo_doc_env True) (Some ''Bearer boss@acme.io'') ''users'' (up demo_doc_db) = (Inr (), up s')" by blast
  with wp_up [OF raw_statements_need_an_admin [THEN conjunct2, THEN conjunct2, of "demo_doc_env True" "Some ''Bearer boss@acme.io''" "''users''" demo_doc_db]]
  show ?thesis by auto
qed

theorem datasets_bypass_raw_sql_gate_witness:
  "\<exists>s1 d rows s2. doc_handler (demo_doc_env False) None (CreateDataset \<lparr>cd_name = ''d'', cd_description = None, cd_sql = ''DROP TABLE IF EXISTS users'', cd_fields = []\<rparr>) (up demo_doc_db)
       = (Inr (DatasetFound d), up s1)
     \<and> doc_handler (demo_doc_env False) None (PreviewDataset ''d1'' None) (up s1) = (Inr (Rows rows), up s2)
     \<and> fst (server_state s2) ''users'' = None"
proof -
  let ?req = "\<lparr>cd_name = ''d'', cd_description = None, cd_sql = ''DROP TABLE IF EXISTS users'', cd_fields = []\<rparr>"
  have id: "doc_uuid (demo_doc_env False) = ''d1''" by (simp add: demo_doc_env_def)
  obtain a w where "server (sql_server (demo_doc_env False)) (convert_question_marks (cd_sql ?req)) [] (server_state demo_doc_db) = Inr (a, w)" "fst w ''users'' = None"
    by (simp add: demo_doc_env_def demo_server_def server_state_def convert_question_marks_def starts_with_def)
  with datasets_bypass_raw_sql_gate [of "demo_doc_env False" demo_doc_db ?req a w]
  show ?thesis unfolding id
    by (fastforce simp: demo_doc_env_def demo_doc_db_def auth_db.defs plain_Cons)
qed

theorem bound_parameters_fit_witness:
  "\<not> assignable (json_to_sql_value_for_type (\<lambda>_. []) (\<lambda>_. Some 0) JNull Uuid) Uuid"
proof -
  have "infer_type JNull \<le> Uuid" by (simp add: le_pg_type_iff common_type_def)
  from bound_parameters_fit [OF this, of "\<lambda>_. Some 0" "\<lambda>_. []"] show ?thesis by simp
qed

theorem dropped_table_stays_cached_witness:
  "\<exists>err. fst (bind_io (drop_table_handler (demo_doc_env True) (Some ''Bearer boss@acme.io'') ''users'')
       (\<lambda>_. bind_io (attempt (push_handler (demo_doc_env True) None ''users'' (JObject [(''age'', json_int 7)])))
         (\<lambda>_. push_handler (demo_doc_env True) None ''users'' (JObject [(''age'', json_int 7)]))) (up demo_doc_db)) = Inl err"
proof -
  let ?payload = "JObject [(''age'', json_int 7)]" and ?cols = "[\<lparr>ci_name = ''age'', col_type = ''bigint'', notnull = False, pk = False\<rparr>]"
  let ?inferred = "[new_inferred_column ''age'' BigInt False]"
  have env: "sql_server (demo_doc_env True) = demo_server" by (simp add: demo_doc_env_def)
  have 1: "schema_cache (doc_guard demo_doc_db) ''users'' = Some ?cols" by (simp add: demo_doc_db_def auth_db.defs)
  have 2: "infer_schema ?payload = Inr ?inferred" by (simp add: infer_schema_def json_int_def)
  have 3: "validate_names ''users'' ?inferred = Inr ()" by (simp add: validate_names_def new_inferred_column_def demo_names)
  have 4: "schema_from_cache ''users'' ?inferred ?cols = Inr [(''age'', BigInt)]"
    by (simp add: schema_from_cache_def cached_column_def new_inferred_column_def str_eval is_base_column_def live_by_lower_def common_type_def from_data_type_def)
  have 5: "starts_with (insert_returning_sql (insert_sql ''users'' [(''age'', BigInt)])) ''INSERT INTO users''"
    by (simp add: insert_returning_sql_def insert_sql_def convert_question_marks_def starts_with_def Let_def)
  from wp_up [OF dropped_table_stays_cached [OF 1 _ 2 3 4, where e = "demo_doc_env True" and lost = "\<lambda>w. fst w ''users'' = None"
      and header = "Some ''Bearer boss@acme.io''" and header' = None]] 5
  show ?thesis by (auto simp: env demo_server_def starts_with_def split: if_splits)
qed

end
