(* ===== verification/Rbac.thy ===== *)
theory Rbac imports Server begin

text \<open>
  Roles and their permissions (\<open>src/src/auth/rbac.rs\<close>): the tables of roles and assignments, the cache of roles
  with their inheritance, and the decision \<open>can\<close>. serde's text of a value and the parser are parameters.
\<close>

section \<open>State\<close>

record permission =
  pm_resource :: string
  pm_action :: string
  pm_conditions :: "json option"

record role =
  ro_id :: string
  ro_tenant :: int
  ro_name :: string
  ro_description :: string
  permissions :: "permission list"
  inherits_from :: "string list"
  is_system :: bool
  ro_created :: string

record role_row =
  rr_id :: string
  rr_tenant :: int
  rr_name :: string
  rr_description :: string
  rr_permissions :: json
  rr_inherits :: json
  rr_system :: bool
  rr_created :: string

record assignment_row =
  as_id :: int
  as_user :: string
  as_tenant :: int
  as_roles :: json
  as_resource_id :: string
  as_resource_type :: string

record rbac =
  role_rows :: "role_row list"
  assignment_rows :: "assignment_row list"
  next_assignment :: int
  role_cache :: "string \<Rightarrow> role option"

record rbac_env =
  rb_parse :: "string \<Rightarrow> json option"
  rb_base64 :: "string \<Rightarrow> string"
  rb_uuid :: string
  rb_now :: string

section \<open>Reading and writing roles\<close>

definition permission_json :: "permission \<Rightarrow> json" where
  "permission_json p = JObject [(''resource'', JString (pm_resource p)), (''action'', JString (pm_action p)),
     (''conditions'', case pm_conditions p of None \<Rightarrow> JNull | Some v \<Rightarrow> v)]"

definition permission_of_json :: "json \<Rightarrow> permission option" where
  "permission_of_json v =
     (case (Option.bind (jget v ''resource'') as_str, Option.bind (jget v ''action'') as_str) of
        (Some r, Some a) \<Rightarrow> Some \<lparr>pm_resource = r, pm_action = a,
          pm_conditions = (case jget v ''conditions'' of None \<Rightarrow> None | Some c \<Rightarrow> if is_null c then None else Some c)\<rparr>
      | _ \<Rightarrow> None)"

definition role_cells :: "role_row \<Rightarrow> (string \<times> cell) list" where
  "role_cells r = [(''id'', cell_text (rr_id r)), (''tenant_id'', cell_int (rr_tenant r)), (''name'', cell_text (rr_name r)),
     (''description'', cell_text (rr_description r)), (''permissions'', cell_jsonb (rr_permissions r)),
     (''inherits_from'', cell_jsonb (rr_inherits r)), (''is_system'', cell_bool (rr_system r)), (''created_at'', cell_time (rr_created r))]"

text \<open>\<open>serde_json::from_str(..).unwrap_or_default()\<close> of a column read as a string.\<close>

definition column_list :: "rbac_env \<Rightarrow> (json \<Rightarrow> 'a option) \<Rightarrow> row \<Rightarrow> string \<Rightarrow> 'a list" where
  "column_list e f row k = unwrap_or [] (Option.bind (rb_parse e (unwrap_or ''[]'' (col_str row k))) (decode_array f))"

definition role_of_row :: "rbac_env \<Rightarrow> row \<Rightarrow> role" where
  "role_of_row e row = \<lparr>ro_id = unwrap_or [] (col_str row ''id''), ro_tenant = unwrap_or 0 (col_i64 row ''tenant_id''),
     ro_name = unwrap_or [] (col_str row ''name''), ro_description = unwrap_or [] (col_str row ''description''),
     permissions = column_list e permission_of_json row ''permissions'', inherits_from = column_list e as_str row ''inherits_from'',
     is_system = (case col_str row ''is_system'' of None \<Rightarrow> False | Some s \<Rightarrow> s = ''true'' \<or> s = ''t''),
     ro_created = unwrap_or [] (col_str row ''created_at'')\<rparr>"

definition cache_role :: "role \<Rightarrow> rbac \<Rightarrow> rbac" where
  "cache_role r s = s\<lparr>role_cache := (role_cache s)(ro_id r \<mapsto> r)\<rparr>"

definition load_roles :: "rbac_env \<Rightarrow> (rbac, unit) io" where
  "load_roles e =
     bind_io (query (rb_parse e) (rb_base64 e) (\<lambda>s. map role_cells (role_rows s))) (\<lambda>rows.
     modify (fold (\<lambda>row. cache_role (role_of_row e row)) rows))"

text \<open>A fresh process starts with an empty cache and loads the roles.\<close>

definition new_rbac :: "rbac_env \<Rightarrow> (rbac, unit) io" where
  "new_rbac e = bind_io (modify (\<lambda>s. s\<lparr>role_cache := \<lambda>_. None\<rparr>)) (\<lambda>_. load_roles e)"

definition create_role ::
  "rbac_env \<Rightarrow> int \<Rightarrow> string \<Rightarrow> string \<Rightarrow> permission list \<Rightarrow> string list \<Rightarrow> (rbac, role) io" where
  "create_role e tenant name description ps parents =
     (let role = \<lparr>ro_id = rb_uuid e, ro_tenant = tenant, ro_name = name, ro_description = description, permissions = ps,
        inherits_from = parents, is_system = False, ro_created = rb_now e\<rparr>
      in bind_io (stmt (\<lambda>s. if \<exists>r \<in> set (role_rows s). rr_id r = rb_uuid e \<or> (rr_tenant r = tenant \<and> rr_name r = name)
             then Inl (Database ''duplicate key value violates unique constraint'')
             else Inr ((), s\<lparr>role_rows := role_rows s @ [\<lparr>rr_id = rb_uuid e, rr_tenant = tenant, rr_name = name, rr_description = description,
               rr_permissions = JArray (map permission_json ps), rr_inherits = JArray (map JString parents), rr_system = False, rr_created = rb_now e\<rparr>]\<rparr>))) (\<lambda>_.
         bind_io (modify (cache_role role)) (\<lambda>_. ret role)))"

section \<open>Assignments\<close>

text \<open>
  The columns the table has a unique index on. PostgreSQL rejects a statement whose \<open>ON CONFLICT\<close> names columns
  without one.
\<close>

definition assignment_keys :: "string list list" where
  "assignment_keys = [[''id'']]"

definition same_target :: "assignment_row \<Rightarrow> assignment_row \<Rightarrow> bool" where
  "same_target a b \<longleftrightarrow> as_user a = as_user b \<and> as_tenant a = as_tenant b \<and> as_resource_id a = as_resource_id b \<and> as_resource_type a = as_resource_type b"

definition assign_roles ::
  "string \<Rightarrow> int \<Rightarrow> string list \<Rightarrow> string option \<Rightarrow> string option \<Rightarrow> (rbac, unit) io" where
  "assign_roles user tenant ids resource_id resource_type =
     stmt (\<lambda>s.
       let row = \<lparr>as_id = next_assignment s, as_user = user, as_tenant = tenant, as_roles = JArray (map JString ids),
         as_resource_id = unwrap_or [] resource_id, as_resource_type = unwrap_or [] resource_type\<rparr>
       in if [''user_id'', ''tenant_id'', ''resource_id'', ''resource_type''] \<notin> set assignment_keys
          then Inl (Database ''there is no unique or exclusion constraint matching the ON CONFLICT specification'')
          else if list_ex (same_target row) (assignment_rows s)
          then Inr ((), s\<lparr>assignment_rows := map (\<lambda>a. if same_target row a then a\<lparr>as_roles := as_roles row\<rparr> else a) (assignment_rows s)\<rparr>)
          else Inr ((), s\<lparr>assignment_rows := assignment_rows s @ [row], next_assignment := next_assignment s + 1\<rparr>))"

section \<open>Decisions\<close>

text \<open>\<open>collect_permissions\<close>: the recursion follows the inheritance at most five steps.\<close>

function collect_permissions ::
  "(string \<Rightarrow> role option) \<Rightarrow> nat \<Rightarrow> role \<Rightarrow> (string \<times> string) set \<Rightarrow> (string \<times> string) set" where
  "collect_permissions cache depth role collected =
     (if depth > 5 then collected
      else fold (\<lambda>pid acc. case cache pid of None \<Rightarrow> acc | Some parent \<Rightarrow> collect_permissions cache (depth + 1) parent acc)
        (inherits_from role) (collected \<union> set (map (\<lambda>p. (pm_resource p, pm_action p)) (permissions role))))"
  by pat_completeness auto

termination
  by (relation "measure (\<lambda>(_, depth, _, _). 6 - depth)") auto

declare collect_permissions.simps [simp del]

definition collect_all :: "(string \<Rightarrow> role option) \<Rightarrow> string list \<Rightarrow> (string \<times> string) set \<Rightarrow> (string \<times> string) set" where
  "collect_all cache ids acc =
     fold (\<lambda>i acc. case cache i of None \<Rightarrow> acc | Some role \<Rightarrow> collect_permissions cache 0 role acc) ids acc"

definition grants :: "(string \<times> string) set \<Rightarrow> string \<Rightarrow> string \<Rightarrow> bool" where
  "grants perms resource action \<longleftrightarrow> (resource, action) \<in> perms \<or> (''*'', action) \<in> perms \<or> (resource, ''*'') \<in> perms"

definition can :: "rbac_env \<Rightarrow> string \<Rightarrow> int \<Rightarrow> string \<Rightarrow> string \<Rightarrow> string option \<Rightarrow> (rbac, bool) io" where
  "can e user tenant resource action resource_id =
     bind_io (query (rb_parse e) (rb_base64 e)
       (\<lambda>s. map (\<lambda>a. [(''role_ids'', cell_jsonb (as_roles a))]) (filter (\<lambda>a. as_user a = user \<and> as_tenant a = tenant) (assignment_rows s)))) (\<lambda>rows.
     bind_io (gets role_cache) (\<lambda>cache.
     ret (grants (fold (\<lambda>row. collect_all cache (column_list e as_str row ''role_ids'')) rows {}) resource action)))"

definition list_roles :: "rbac_env \<Rightarrow> int \<Rightarrow> (rbac, json list) io" where
  "list_roles e tenant =
     bind_io (query (rb_parse e) (rb_base64 e) (\<lambda>s. map (\<lambda>r. filter (\<lambda>(k, _). k \<notin> {''tenant_id'', ''inherits_from''}) (role_cells r))
       (filter (\<lambda>r. rr_tenant r = tenant) (role_rows s)))) (\<lambda>rows. ret (map row_object rows))"

definition delete_role :: "string \<Rightarrow> (rbac, unit) io" where
  "delete_role i =
     bind_io (exec (\<lambda>s. s\<lparr>role_rows := filter (\<lambda>r. \<not> (rr_id r = i \<and> \<not> rr_system r)) (role_rows s)\<rparr>)) (\<lambda>_.
     modify (\<lambda>s. s\<lparr>role_cache := (role_cache s)(i := None)\<rparr>))"

section \<open>Inheritance\<close>

lemma grants_Union: "grants (\<Union>x \<in> A. f x) resource action \<longleftrightarrow> (\<exists>x \<in> A. grants (f x) resource action)"
  by (auto simp: grants_def)

text \<open>The specification: the roles at most \<open>n\<close> steps up the inheritance.\<close>

inductive inherits_within :: "(string \<Rightarrow> role option) \<Rightarrow> nat \<Rightarrow> role \<Rightarrow> role \<Rightarrow> bool" for cache where
  self: "inherits_within cache n r r"
| parent: "pid \<in> set (inherits_from r) \<Longrightarrow> cache pid = Some p \<Longrightarrow> inherits_within cache n p q \<Longrightarrow> inherits_within cache (Suc n) r q"

inductive_simps inherits_within_0 [simp]: "inherits_within cache 0 r q"
inductive_simps inherits_within_Suc: "inherits_within cache (Suc n) r q"

definition role_permissions :: "role \<Rightarrow> (string \<times> string) set" where
  "role_permissions r = (\<lambda>p. (pm_resource p, pm_action p)) ` set (permissions r)"

lemma fold_union: "(\<And>x acc. x \<in> set xs \<Longrightarrow> f x acc = acc \<union> g x) \<Longrightarrow> fold f xs acc = acc \<union> (\<Union>x \<in> set xs. g x)"
  by (induction xs arbitrary: acc) auto

lemma collect_within:
  "n \<le> 5 \<Longrightarrow> collect_permissions cache (5 - n) role acc = acc \<union> (\<Union>q \<in> {q. inherits_within cache n role q}. role_permissions q)"
proof (induction n arbitrary: role acc)
  case 0
  have "collect_permissions cache 6 parent a = a" for parent a
    by (simp add: collect_permissions.simps)
  then show ?case
    by (simp add: collect_permissions.simps [of cache 5] role_permissions_def fold_union [where g = "\<lambda>_. {}"] split: option.splits)
next
  case (Suc n)
  let ?up = "\<lambda>pid. case cache pid of None \<Rightarrow> {} | Some p \<Rightarrow> (\<Union>q \<in> {q. inherits_within cache n p q}. role_permissions q)"
  obtain m where m: "5 - Suc n = m" "5 - n = Suc m" "m \<le> 5" using Suc.prems by simp
  then have "collect_permissions cache (5 - Suc n) role acc
      = fold (\<lambda>pid a. case cache pid of None \<Rightarrow> a | Some p \<Rightarrow> collect_permissions cache (5 - n) p a) (inherits_from role) (acc \<union> role_permissions role)"
    by (simp add: collect_permissions.simps [of cache m] role_permissions_def cong: option.case_cong)
  also have "\<dots> = (acc \<union> role_permissions role) \<union> (\<Union>pid \<in> set (inherits_from role). ?up pid)"
    using Suc.prems by (intro fold_union) (simp add: Suc.IH split: option.splits)
  also have "\<dots> = acc \<union> (\<Union>q \<in> {q. inherits_within cache (Suc n) role q}. role_permissions q)"
  proof -
    have "{q. inherits_within cache (Suc n) role q} = insert role (\<Union>pid \<in> set (inherits_from role). case cache pid of None \<Rightarrow> {} | Some p \<Rightarrow> {q. inherits_within cache n p q})"
      by (auto simp: inherits_within_Suc split: option.splits)
    then show ?thesis by (auto split: option.splits)
  qed
  finally show ?case .
qed

text \<open>
  C24. The recursion collects exactly the permissions of the roles at most five steps up the inheritance, also when
  roles inherit from each other in a circle, and ends; an assignment gives exactly what the union of its roles gives.
\<close>

theorem collect_permissions_reach:
  "collect_permissions cache 0 role acc = acc \<union> (\<Union>q \<in> {q. inherits_within cache 5 role q}. role_permissions q) \<and>
   (grants (collect_all cache ids {}) resource action \<longleftrightarrow>
     (\<exists>i \<in> set ids. \<exists>r q. cache i = Some r \<and> inherits_within cache 5 r q \<and> grants (role_permissions q) resource action))"
proof -
  have c: "collect_permissions cache 0 r a = a \<union> (\<Union>q \<in> {q. inherits_within cache 5 r q}. role_permissions q)" for r a
    using collect_within [of 5 cache r a] by simp
  have all: "collect_all cache ids {} =
      {} \<union> (\<Union>i \<in> set ids. case cache i of None \<Rightarrow> {} | Some r \<Rightarrow> (\<Union>q \<in> {q. inherits_within cache 5 r q}. role_permissions q))"
    unfolding collect_all_def by (rule fold_union) (simp add: c split: option.splits)
  have "grants (case cache i of None \<Rightarrow> {} | Some r \<Rightarrow> (\<Union>q \<in> {q. inherits_within cache 5 r q}. role_permissions q)) resource action
      \<longleftrightarrow> (\<exists>r q. cache i = Some r \<and> inherits_within cache 5 r q \<and> grants (role_permissions q) resource action)" for i
    by (cases "cache i") (simp_all add: grants_Union, simp add: grants_def)
  with c all show ?thesis by (simp add: grants_Union)
qed

text \<open>The permission to do everything with everything grants nothing in particular.\<close>

lemma full_wildcard_grants_nothing: "resource \<noteq> ''*'' \<Longrightarrow> action \<noteq> ''*'' \<Longrightarrow> \<not> grants {(''*'', ''*'')} resource action"
  by (simp add: grants_def)

section \<open>What is stored\<close>

lemma column_list_jsonb:
  assumes "rb_parse e ''[]'' = Some (JArray [])" and "row_get row k = Some v" and "as_str v = None"
  shows "column_list e f row k = []"
  using assms by (simp add: column_list_def col_str_def decode_array_def)

definition powerless :: "role \<Rightarrow> bool" where
  "powerless r \<longleftrightarrow> permissions r = [] \<and> inherits_from r = [] \<and> \<not> is_system r"

lemma cached_powerless:
  "\<forall>row \<in> set rows. powerless (role_of_row e row) \<Longrightarrow> \<forall>i r. role_cache t i = Some r \<longrightarrow> powerless r \<Longrightarrow>
    role_cache (fold (\<lambda>row. cache_role (role_of_row e row)) rows t) i = Some r \<Longrightarrow> powerless r"
proof (induction rows arbitrary: t)
  case (Cons row rows)
  have "\<forall>i r. role_cache (cache_role (role_of_row e row) t) i = Some r \<longrightarrow> powerless r"
    using Cons.prems(1,2) by (simp add: cache_role_def)
  with Cons show ?case by simp
qed simp

text \<open>
  Roles have no effect. No assignment can be stored, whatever is assigned: the statement names a
  conflict on columns without a unique index and fails. And whatever assignments the table holds, of arrays of identifiers, nobody is
  allowed anything: the column is JSON and is read as a string. After a restart no role in the cache has
  a permission, a parent or the mark of a system role. This holds under any failures.
\<close>

theorem roles_have_no_effect:
  assumes "rb_parse e ''[]'' = Some (JArray [])" and "\<forall>a \<in> set (assignment_rows s). as_str (as_roles a) = None"
    and "\<forall>r \<in> set (role_rows s). as_str (rr_permissions r) = None \<and> as_str (rr_inherits r) = None"
  shows "wp (assign_roles user tenant ids rid rty) (\<lambda>r s'. (\<exists>err. r = Inl err) \<and> s' = s) s
    \<and> wp (can e user tenant resource action rid) (\<lambda>r s'. r \<noteq> Inr True \<and> s' = s) s
    \<and> wp (new_rbac e) (\<lambda>_ s'. \<forall>i role. role_cache s' i = Some role \<longrightarrow> powerless role) s"
proof (intro conjI)
  show "wp (assign_roles user tenant ids rid rty) (\<lambda>r s'. (\<exists>err. r = Inl err) \<and> s' = s) s"
    unfolding assign_roles_def by (rule wp_stmt) (simp_all add: assignment_keys_def Let_def)
  have none: "fold (\<lambda>row. collect_all cache (column_list e as_str row ''role_ids'')) rows {} = {}"
    if "\<forall>row \<in> set rows. column_list e as_str row ''role_ids'' = []" for cache rows
    using that by (induction rows) (simp_all add: collect_all_def)
  have rows: "column_list e as_str row ''role_ids'' = []"
    if "row \<in> set (map (json_row p b) (map (\<lambda>a. [(''role_ids'', cell_jsonb (as_roles a))]) (filter P (assignment_rows s))))" for row p b P
    using that assms(1,2) by (auto simp: json_row_def intro!: column_list_jsonb)
  show "wp (can e user tenant resource action rid) (\<lambda>r s'. r \<noteq> Inr True \<and> s' = s) s"
    unfolding can_def by (intro wp_intro) (auto intro!: wp_intro simp: none rows grants_def)
  have empty: "powerless (role_of_row e row)"
    if "row \<in> set (map (json_row p b) (map role_cells (role_rows s)))" for row p b
  proof -
    from that obtain r where r: "r \<in> set (role_rows s)" "row = json_row p b (role_cells r)" by auto
    then have "row_get row ''permissions'' = Some (rr_permissions r)" "row_get row ''inherits_from'' = Some (rr_inherits r)" "col_str row ''is_system'' = None"
      by (simp_all add: json_row_def role_cells_def col_str_def)
    moreover from r(1) assms(3) have "as_str (rr_permissions r) = None" "as_str (rr_inherits r) = None" by blast+
    ultimately show ?thesis
      by (simp add: role_of_row_def powerless_def column_list_jsonb [OF assms(1)])
  qed
  have loaded: "powerless role"
    if "role_cache (fold (\<lambda>row. cache_role (role_of_row e row)) (map (json_row (rb_parse e) (rb_base64 e)) (map role_cells (role_rows s)))
      (s\<lparr>role_cache := \<lambda>_. None\<rparr>)) i = Some role" for i role
    by (rule cached_powerless [OF _ _ that]) (use empty in auto)
  show "wp (new_rbac e) (\<lambda>_ s'. \<forall>i role. role_cache s' i = Some role \<longrightarrow> powerless role) s"
    unfolding new_rbac_def load_roles_def
    by (intro wp_intro conjI allI impI) (auto dest: loaded simp del: map_map)
qed

text \<open>
  Deleting a role by its identifier reaches the roles of every tenant; a system role stays in the table
  and goes from the cache, so its holders lose it until the next restart.
\<close>

theorem delete_role_forgets_system_roles:
  "wp (delete_role i) (\<lambda>r s'. r = Inr () \<longrightarrow> role_cache s' i = None \<and>
     (\<forall>row. row \<in> set (role_rows s') \<longleftrightarrow> row \<in> set (role_rows s) \<and> (rr_id row = i \<longrightarrow> rr_system row))) s"
  unfolding delete_role_def by (intro wp_intro conjI allI impI) auto

section \<open>Witnesses\<close>

definition demo_rbac_env :: rbac_env where
  "demo_rbac_env = \<lparr>rb_parse = (\<lambda>t. if t = ''[]'' then Some (JArray []) else None), rb_base64 = id, rb_uuid = ''r2'', rb_now = ''now''\<rparr>"

definition demo_rbac :: rbac where
  "demo_rbac = \<lparr>role_rows = [\<lparr>rr_id = ''admin'', rr_tenant = 1, rr_name = ''admin'', rr_description = [],
       rr_permissions = JArray [permission_json \<lparr>pm_resource = ''docs'', pm_action = ''read'', pm_conditions = None\<rparr>],
       rr_inherits = JArray [], rr_system = True, rr_created = ''now''\<rparr>],
     assignment_rows = [\<lparr>as_id = 1, as_user = ''u'', as_tenant = 1, as_roles = JArray [JString ''admin''], as_resource_id = [], as_resource_type = []\<rparr>],
     next_assignment = 2, role_cache = [''admin'' \<mapsto> \<lparr>ro_id = ''admin'', ro_tenant = 1, ro_name = ''admin'', ro_description = [],
       permissions = [\<lparr>pm_resource = ''docs'', pm_action = ''read'', pm_conditions = None\<rparr>], inherits_from = [], is_system = True, ro_created = ''now''\<rparr>]\<rparr>"

theorem roles_have_no_effect_witness:
  "fst (can demo_rbac_env ''u'' 1 ''docs'' ''read'' None (up demo_rbac)) \<noteq> Inr True"
  using wp_up [OF roles_have_no_effect [THEN conjunct2, THEN conjunct1, of demo_rbac_env demo_rbac "''u''" 1 "''docs''" "''read''" None]]
  by (simp add: demo_rbac_env_def demo_rbac_def)

theorem delete_role_forgets_system_roles_witness:
  "role_rows (st (snd (delete_role ''admin'' (up demo_rbac)))) \<noteq> [] \<and> role_cache (st (snd (delete_role ''admin'' (up demo_rbac)))) ''admin'' = None"
proof -
  have "fst (delete_role ''admin'' (up demo_rbac)) = Inr ()" by (simp add: delete_role_def)
  with wp_up [OF delete_role_forgets_system_roles [of "''admin''" demo_rbac]]
  have "role_cache (st (snd (delete_role ''admin'' (up demo_rbac)))) ''admin'' = None"
    "hd (role_rows demo_rbac) \<in> set (role_rows (st (snd (delete_role ''admin'' (up demo_rbac)))))"
    by (auto simp: demo_rbac_def)
  then show ?thesis by (metis empty_iff list.set(1))
qed

end
