(* ===== verification/Jobs.thy ===== *)
theory Jobs imports Server begin

text \<open>
  The queue of background jobs (\<open>src/src/compute/jobs.rs\<close>): enqueueing, the worker, cancellation and the
  reports. \<open>process_next_job\<close> is composed of its three accesses to the table; the steps of several workers, of requests
  and of crashes are interleaved by a step relation over the same accesses.
\<close>

section \<open>State\<close>

datatype job_status = Pending | Running | Completed | Failed | Cancelled | Retrying

text \<open>The column holds the text serde writes, in lower case.\<close>

fun job_status_text :: "job_status \<Rightarrow> string" where
  "job_status_text Pending = ''pending''"
| "job_status_text Running = ''running''"
| "job_status_text Completed = ''completed''"
| "job_status_text Failed = ''failed''"
| "job_status_text Cancelled = ''cancelled''"
| "job_status_text Retrying = ''retrying''"

lemma job_status_text_inject [simp]: "job_status_text a = job_status_text b \<longleftrightarrow> a = b"
  by (cases a; cases b) simp_all

record background_job =
  bj_id :: string
  bj_tenant :: int
  bj_queue :: string
  bj_type :: string
  bj_payload :: json
  bj_priority :: int
  bj_status :: job_status
  bj_progress :: "64 word"
  bj_result :: "json option"
  bj_error :: "string option"
  bj_attempts :: nat
  bj_max :: nat
  bj_scheduled :: "string option"
  bj_created :: string

record bg_row =
  bg_id :: string
  bg_tenant :: int
  bg_queue :: string
  bg_type :: string
  bg_payload :: json
  bg_priority :: int
  bg_status :: string
  bg_progress :: "64 word"
  bg_result :: "json option"
  bg_error :: "string option"
  bg_attempts :: int
  bg_max :: int
  bg_scheduled :: "int option"
  bg_started :: "int option"
  bg_completed :: "int option"
  bg_created :: int

record job_db =
  job_rows :: "bg_row list"

type_synonym job_handler = "string \<times> (json \<Rightarrow> string + json)"

text \<open>What a text is as a \<open>timestamptz\<close> is PostgreSQL's; it rejects the empty text.\<close>

record job_env =
  jb_parse :: "string \<Rightarrow> json option"
  jb_base64 :: "string \<Rightarrow> string"
  jb_uuid :: string
  jb_now :: int
  jb_time :: "int \<Rightarrow> string"
  cast_time :: "string \<Rightarrow> int option"

text \<open>The doubles 0.0 and 1.0.\<close>

definition f64_zero :: "64 word" where "f64_zero = 0"

definition f64_one :: "64 word" where "f64_one = 0x3FF0000000000000"

section \<open>The worker\<close>

definition runnable :: "job_env \<Rightarrow> bg_row \<Rightarrow> bool" where
  "runnable e r \<longleftrightarrow> bg_status r = ''pending'' \<and> (case bg_scheduled r of None \<Rightarrow> True | Some t \<Rightarrow> t \<le> jb_now e)"

definition next_job :: "job_env \<Rightarrow> job_db \<Rightarrow> bg_row option" where
  "next_job e s =
     (case sort_key (\<lambda>r. - bg_priority r) (sort_key bg_created (filter (runnable e) (job_rows s))) of
        [] \<Rightarrow> None | r # _ \<Rightarrow> Some r)"

definition update_job :: "string \<Rightarrow> (bg_row \<Rightarrow> bool) \<Rightarrow> (bg_row \<Rightarrow> bg_row) \<Rightarrow> job_db \<Rightarrow> job_db" where
  "update_job i P f s = s\<lparr>job_rows := map (\<lambda>r. if bg_id r = i \<and> P r then f r else r) (job_rows s)\<rparr>"

definition started :: "job_env \<Rightarrow> bg_row \<Rightarrow> bg_row" where
  "started e r = r\<lparr>bg_status := ''running'', bg_started := Some (jb_now e), bg_attempts := bg_attempts r + 1\<rparr>"

definition taken_cells :: "bg_row \<Rightarrow> (string \<times> cell) list" where
  "taken_cells r = [(''id'', cell_text (bg_id r)), (''job_type'', cell_text (bg_type r)), (''payload'', cell_jsonb (bg_payload r)),
     (''attempts'', cell_int (bg_attempts r)), (''max_attempts'', cell_int (bg_max r))]"

text \<open>\<open>UPDATE ... RETURNING\<close>: one statement.\<close>

definition take_job :: "job_env \<Rightarrow> (job_db, row list) io" where
  "take_job e =
     stmt (\<lambda>s. case next_job e s of
        None \<Rightarrow> Inr ([], s)
      | Some r \<Rightarrow> Inr ([json_row (jb_parse e) (jb_base64 e) (taken_cells (started e r))], update_job (bg_id r) (\<lambda>_. True) (started e) s))"

record taken =
  tk_id :: string
  tk_type :: string
  tk_payload :: json
  tk_attempts :: nat
  tk_max :: nat

definition taken_of_row :: "job_env \<Rightarrow> row \<Rightarrow> taken" where
  "taken_of_row e row = \<lparr>tk_id = unwrap_or [] (col_str row ''id''), tk_type = unwrap_or [] (col_str row ''job_type''),
     tk_payload = unwrap_or (JObject []) (jb_parse e (unwrap_or ''{}'' (col_str row ''payload''))),
     tk_attempts = u32_cast (unwrap_or 0 (col_i64 row ''attempts'')), tk_max = u32_cast (unwrap_or 3 (col_i64 row ''max_attempts''))\<rparr>"

definition dispatch :: "job_handler list \<Rightarrow> taken \<Rightarrow> string + json" where
  "dispatch handlers t =
     (case filter (\<lambda>(ty, _). ty = tk_type t \<or> ty = ''*'') handlers of
        [] \<Rightarrow> Inr (JObject [(''job_type'', JString (tk_type t)), (''note'', JString ''no handler registered''), (''status'', JString ''completed'')])
      | (_, callback) # _ \<Rightarrow> callback (tk_payload t))"

text \<open>The answer is written and its failure ignored; \<open>True\<close> when the worker goes to sleep.\<close>

definition finish_job :: "job_env \<Rightarrow> taken \<Rightarrow> string + json \<Rightarrow> (job_db, bool) io" where
  "finish_job e t outcome =
     (case outcome of
        Inr output \<Rightarrow> bind_io (attempt (exec (update_job (tk_id t) (\<lambda>_. True)
          (\<lambda>r. r\<lparr>bg_status := ''completed'', bg_result := Some output, bg_progress := f64_one, bg_completed := Some (jb_now e)\<rparr>)))) (\<lambda>_. ret False)
      | Inl err \<Rightarrow>
          if tk_attempts t \<ge> tk_max t
          then bind_io (attempt (exec (update_job (tk_id t) (\<lambda>_. True)
            (\<lambda>r. r\<lparr>bg_status := ''failed'', bg_error := Some err, bg_completed := Some (jb_now e)\<rparr>)))) (\<lambda>_. ret False)
          else bind_io (attempt (exec (update_job (tk_id t) (\<lambda>_. True) (\<lambda>r. r\<lparr>bg_status := ''retrying'', bg_error := Some err\<rparr>)))) (\<lambda>_. ret True))"

definition retry_delay :: "taken \<Rightarrow> nat" where
  "retry_delay t = 5 * tk_attempts t"

definition requeue_job :: "string \<Rightarrow> (job_db, unit) io" where
  "requeue_job i =
     bind_io (attempt (exec (update_job i (\<lambda>r. bg_status r = ''retrying'') (\<lambda>r. r\<lparr>bg_status := ''pending''\<rparr>)))) (\<lambda>_. ret ())"

definition process_next_job :: "job_env \<Rightarrow> job_handler list \<Rightarrow> (job_db, unit) io" where
  "process_next_job e handlers =
     bind_io (attempt (take_job e)) (\<lambda>answer. case answer of
         Inr (row # _) \<Rightarrow>
           (let t = taken_of_row e row
            in bind_io (finish_job e t (dispatch handlers t)) (\<lambda>sleeps. if sleeps then requeue_job (tk_id t) else ret ()))
       | _ \<Rightarrow> ret ())"

section \<open>Requests\<close>

definition queued_row :: "job_env \<Rightarrow> int \<Rightarrow> string \<Rightarrow> string \<Rightarrow> json \<Rightarrow> int \<Rightarrow> int option \<Rightarrow> bg_row" where
  "queued_row e tenant queue ty payload priority t = \<lparr>bg_id = jb_uuid e, bg_tenant = tenant, bg_queue = queue, bg_type = ty,
     bg_payload = payload, bg_priority = priority, bg_status = ''pending'', bg_progress = f64_zero, bg_result = None, bg_error = None,
     bg_attempts = 0, bg_max = 3, bg_scheduled = t, bg_started = None, bg_completed = None, bg_created = jb_now e\<rparr>"

definition enqueue :: "job_env \<Rightarrow> int \<Rightarrow> string \<Rightarrow> string \<Rightarrow> json \<Rightarrow> int \<Rightarrow> string option \<Rightarrow> (job_db, background_job) io" where
  "enqueue e tenant queue ty payload priority scheduled =
     bind_io (stmt (\<lambda>s. case cast_time e (unwrap_or [] scheduled) of
         None \<Rightarrow> Inl (Database ''invalid input syntax for type timestamp with time zone'')
       | Some t \<Rightarrow>
           if \<exists>r \<in> set (job_rows s). bg_id r = jb_uuid e then Inl (Database ''duplicate key value violates unique constraint'')
           else Inr ((), s\<lparr>job_rows := job_rows s @ [queued_row e tenant queue ty payload priority (Some t)]\<rparr>))) (\<lambda>_.
     ret \<lparr>bj_id = jb_uuid e, bj_tenant = tenant, bj_queue = queue, bj_type = ty, bj_payload = payload, bj_priority = priority,
       bj_status = Pending, bj_progress = f64_zero, bj_result = None, bj_error = None, bj_attempts = 0, bj_max = 3,
       bj_scheduled = scheduled, bj_created = jb_time e (jb_now e)\<rparr>)"

definition cancel_job :: "job_env \<Rightarrow> string \<Rightarrow> (job_db, unit) io" where
  "cancel_job e i = exec (update_job i (\<lambda>r. bg_status r \<in> {''pending'', ''retrying''})
     (\<lambda>r. r\<lparr>bg_status := ''cancelled'', bg_completed := Some (jb_now e)\<rparr>))"

definition cell_double :: "64 word \<Rightarrow> cell" where
  "cell_double f = no_cell\<lparr>type_name := ''FLOAT8'', try_f64 := Some f\<rparr>"

definition job_cells :: "job_env \<Rightarrow> bg_row \<Rightarrow> (string \<times> cell) list" where
  "job_cells e r = [(''id'', cell_text (bg_id r)), (''queue'', cell_text (bg_queue r)), (''job_type'', cell_text (bg_type r)),
     (''status'', cell_text (bg_status r)), (''progress'', cell_double (bg_progress r)), (''result'', cell_opt ''JSONB'' cell_jsonb (bg_result r)),
     (''error'', cell_opt ''TEXT'' cell_text (bg_error r)), (''priority'', cell_int (bg_priority r)), (''attempts'', cell_int (bg_attempts r)),
     (''started_at'', cell_opt ''TIMESTAMPTZ'' (cell_time \<circ> jb_time e) (bg_started r)),
     (''completed_at'', cell_opt ''TIMESTAMPTZ'' (cell_time \<circ> jb_time e) (bg_completed r)), (''created_at'', cell_time (jb_time e (bg_created r)))]"

definition job_columns :: "string list \<Rightarrow> (string \<times> cell) list \<Rightarrow> (string \<times> cell) list" where
  "job_columns ks cs = filter (\<lambda>(k, _). k \<in> set ks) cs"

definition get_job :: "job_env \<Rightarrow> string \<Rightarrow> (job_db, json) io" where
  "get_job e i =
     bind_io (query (jb_parse e) (jb_base64 e) (\<lambda>s. map (\<lambda>r. job_columns [''id'', ''queue'', ''job_type'', ''status'', ''progress'', ''result'',
         ''error'', ''attempts'', ''started_at'', ''completed_at'', ''created_at''] (job_cells e r))
       (filter (\<lambda>r. bg_id r = i) (job_rows s)))) (\<lambda>rows.
     case rows of [] \<Rightarrow> fail (NotFound ''Job not found'') | r # _ \<Rightarrow> ret (row_object r))"

definition list_jobs :: "job_env \<Rightarrow> int \<Rightarrow> string option \<Rightarrow> string option \<Rightarrow> nat \<Rightarrow> (job_db, json list) io" where
  "list_jobs e tenant queue status n =
     bind_io (query (jb_parse e) (jb_base64 e) (\<lambda>s. map (\<lambda>r. job_columns [''id'', ''queue'', ''job_type'', ''status'', ''progress'', ''priority'',
         ''attempts'', ''created_at''] (job_cells e r))
       (take n (sort_key (\<lambda>r. - bg_priority r) (sort_key (\<lambda>r. - bg_created r)
         (filter (\<lambda>r. bg_tenant r = tenant \<and> (queue = None \<or> queue = Some (bg_queue r)) \<and> (status = None \<or> status = Some (bg_status r))) (job_rows s))))))) (\<lambda>rows.
     ret (map row_object rows))"

definition queue_stats :: "job_env \<Rightarrow> int \<Rightarrow> (job_db, json list) io" where
  "queue_stats e tenant =
     bind_io (query (jb_parse e) (jb_base64 e) (\<lambda>s.
       let rows = filter (\<lambda>r. bg_tenant r = tenant) (job_rows s)
       in map (\<lambda>(q, t). [(''queue'', cell_text q), (''status'', cell_text t),
            (''count'', cell_int (int (length (filter (\<lambda>r. bg_queue r = q \<and> bg_status r = t) rows))))])
          (remdups (map (\<lambda>r. (bg_queue r, bg_status r)) rows)))) (\<lambda>rows.
     ret (map row_object rows))"

text \<open>Registration keeps the handler only when nobody holds the lock of the list at that moment.\<close>

definition register_handler :: "bool \<Rightarrow> job_handler \<Rightarrow> job_handler list \<Rightarrow> job_handler list" where
  "register_handler locked h handlers = (if locked then handlers else handlers @ [h])"

section \<open>Interleaving\<close>

datatype worker = Idle | Busy taken | Asleep string

inductive job_step :: "job_db \<times> worker list \<Rightarrow> job_db \<times> worker list \<Rightarrow> bool" where
  enqueue: "calls (enqueue e tenant queue ty payload priority scheduled) s r s' \<Longrightarrow> plain (jb_uuid e) \<Longrightarrow> job_step (s, ws) (s', ws)"
| cancel: "calls (cancel_job e i) s r s' \<Longrightarrow> job_step (s, ws) (s', ws)"
| idle: "calls (take_job e) s r s' \<Longrightarrow> r = Inr [] \<or> (\<exists>err. r = Inl err) \<Longrightarrow> job_step (s, ws) (s', ws)"
| take: "w < length ws \<Longrightarrow> ws ! w = Idle \<Longrightarrow> calls (take_job e) s (Inr (row # rows)) s' \<Longrightarrow>
    job_step (s, ws) (s', ws[w := Busy (taken_of_row e row)])"
| finish: "w < length ws \<Longrightarrow> ws ! w = Busy t \<Longrightarrow> calls (finish_job e t outcome) s (Inr sleeps) s' \<Longrightarrow>
    job_step (s, ws) (s', ws[w := if sleeps then Asleep (tk_id t) else Idle])"
| requeue: "w < length ws \<Longrightarrow> ws ! w = Asleep i \<Longrightarrow> calls (requeue_job i) s r s' \<Longrightarrow> job_step (s, ws) (s', ws[w := Idle])"
| crash: "w < length ws \<Longrightarrow> job_step (s, ws) (s, ws[w := Idle])"

section \<open>What a step keeps\<close>

definition job_ok :: "bg_row \<Rightarrow> bool" where
  "job_ok r \<longleftrightarrow> plain (bg_id r) \<and> 0 \<le> bg_attempts r \<and> bg_attempts r \<le> bg_max r \<and> bg_max r \<le> 2147483647
     \<and> (bg_status r \<in> {''pending'', ''retrying''} \<longrightarrow> bg_attempts r < bg_max r)"

definition executes :: "taken \<Rightarrow> bg_row \<Rightarrow> bool" where
  "executes t r \<longleftrightarrow> bg_id r = tk_id t \<and> bg_status r = ''running'' \<and> bg_attempts r = int (tk_attempts t) \<and> bg_max r = int (tk_max t)"

definition busy_with :: "string \<Rightarrow> worker \<Rightarrow> bool" where
  "busy_with i w \<longleftrightarrow> (\<exists>t. w = Busy t \<and> tk_id t = i)"

lemma busy_with_simps [simp]: "busy_with i (Busy t) \<longleftrightarrow> tk_id t = i" "\<not> busy_with i Idle" "\<not> busy_with i (Asleep j)"
  by (simp_all add: busy_with_def)

definition job_inv :: "job_db \<Rightarrow> worker list \<Rightarrow> bool" where
  "job_inv s ws \<longleftrightarrow> distinct (map bg_id (job_rows s)) \<and> (\<forall>r \<in> set (job_rows s). job_ok r)
     \<and> (\<forall>w < length ws. \<forall>t. ws ! w = Busy t \<longrightarrow> (\<exists>r \<in> set (job_rows s). executes t r))
     \<and> (\<forall>v < length ws. \<forall>w < length ws. \<forall>i. busy_with i (ws ! v) \<and> busy_with i (ws ! w) \<longrightarrow> v = w)"

lemma job_unique: "job_inv s ws \<Longrightarrow> r \<in> set (job_rows s) \<Longrightarrow> r' \<in> set (job_rows s) \<Longrightarrow> bg_id r = bg_id r' \<Longrightarrow> r = r'"
  by (auto simp: job_inv_def distinct_map inj_on_def)

lemma inv_row: "job_inv s ws \<Longrightarrow> w < length ws \<Longrightarrow> ws ! w = Busy t \<Longrightarrow> \<exists>r \<in> set (job_rows s). executes t r"
  unfolding job_inv_def by blast

lemma inv_one: "job_inv s ws \<Longrightarrow> v < length ws \<Longrightarrow> w < length ws \<Longrightarrow> busy_with i (ws ! v) \<Longrightarrow> busy_with i (ws ! w) \<Longrightarrow> v = w"
  unfolding job_inv_def by blast

lemma inv_ok: "job_inv s ws \<Longrightarrow> r \<in> set (job_rows s) \<Longrightarrow> job_ok r"
  by (simp add: job_inv_def)

lemma job_invI:
  assumes "distinct (map bg_id (job_rows s))" and "\<And>r. r \<in> set (job_rows s) \<Longrightarrow> job_ok r"
    and "\<And>w t. w < length ws \<Longrightarrow> ws ! w = Busy t \<Longrightarrow> \<exists>r \<in> set (job_rows s). executes t r"
    and "\<And>v w i. v < length ws \<Longrightarrow> w < length ws \<Longrightarrow> busy_with i (ws ! v) \<Longrightarrow> busy_with i (ws ! w) \<Longrightarrow> v = w"
  shows "job_inv s ws"
  using assms unfolding job_inv_def by blast

lemma busy_row:
  assumes "job_inv s ws" and "w < length ws" and "busy_with (bg_id r) (ws ! w)" and "r \<in> set (job_rows s)"
  shows "\<exists>t. ws ! w = Busy t \<and> executes t r"
proof -
  from assms(3) obtain t where t: "ws ! w = Busy t" "tk_id t = bg_id r" by (auto simp: busy_with_def)
  obtain r' where "r' \<in> set (job_rows s)" "executes t r'" using inv_row [OF assms(1,2) t(1)] by blast
  moreover from this t assms(1,4) have "r' = r" by (auto simp: executes_def intro: job_unique)
  ultimately show ?thesis using t by blast
qed

lemma inv_update:
  assumes inv: "job_inv s ws"
    and f: "\<And>r. r \<in> set (job_rows s) \<Longrightarrow> bg_id r = i \<Longrightarrow> P r \<Longrightarrow>
      bg_id (f r) = i \<and> job_ok (f r) \<and> (bg_status r = ''running'' \<longrightarrow> (\<forall>w < length ws. \<not> busy_with i (ws ! w)))"
  shows "job_inv (update_job i P f s) ws"
proof -
  let ?g = "\<lambda>r. if bg_id r = i \<and> P r then f r else r"
  have rows: "job_rows (update_job i P f s) = map ?g (job_rows s)" by (simp add: update_job_def)
  have ids: "map bg_id (map ?g (job_rows s)) = map bg_id (job_rows s)" using f by auto
  have owned: "\<exists>r \<in> set (map ?g (job_rows s)). executes t r" if wt: "w < length ws" "ws ! w = Busy t" for w t
  proof -
    obtain r where r: "r \<in> set (job_rows s)" "executes t r" using inv_row [OF inv wt] by blast
    with f [OF r(1)] wt have "?g r = r" by (force simp: executes_def)
    with r show ?thesis by force
  qed
  have "distinct (map bg_id (job_rows s))" using inv by (simp add: job_inv_def)
  then have "distinct (map bg_id (map ?g (job_rows s)))" by (simp only: ids)
  with owned inv_ok [OF inv] inv_one [OF inv] f show ?thesis by (intro job_invI) (unfold rows, auto simp del: map_map)
qed

lemma inv_worker:
  assumes inv: "job_inv s ws" and w: "w < length ws" and x: "\<forall>t. x \<noteq> Busy t"
  shows "job_inv s (ws[w := x])"
proof (rule job_invI)
  show "distinct (map bg_id (job_rows s))" using inv by (simp add: job_inv_def)
qed (use inv_ok [OF inv] inv_row [OF inv] inv_one [OF inv] w x in \<open>auto simp: nth_list_update busy_with_def split: if_splits\<close>)

lemma inv_busy:
  assumes inv: "job_inv s ws" and w: "w < length ws" and r: "r \<in> set (job_rows s)" "executes t r"
    and free: "\<And>v. v < length ws \<Longrightarrow> \<not> busy_with (tk_id t) (ws ! v)"
  shows "job_inv s (ws[w := Busy t])"
proof (rule job_invI)
  show "distinct (map bg_id (job_rows s))" using inv by (simp add: job_inv_def)
qed (use inv_ok [OF inv] inv_row [OF inv] inv_one [OF inv] w r free in \<open>auto simp: nth_list_update split: if_splits\<close>)

lemma take_job_wp:
  "wp (take_job e) (\<lambda>r s'. (s' = s \<and> (r = Inr [] \<or> (\<exists>err. r = Inl err))) \<or>
     (\<exists>x. next_job e s = Some x \<and> r = Inr [json_row (jb_parse e) (jb_base64 e) (taken_cells (started e x))]
        \<and> s' = update_job (bg_id x) (\<lambda>_. True) (started e) s)) s"
  unfolding take_job_def by (rule wp_stmt) (auto split: option.splits)

lemma next_job_Some: "next_job e s = Some x \<Longrightarrow> x \<in> set (job_rows s) \<and> runnable e x"
proof -
  assume "next_job e s = Some x"
  then have "x \<in> set (sort_key (\<lambda>r. - bg_priority r) (sort_key bg_created (filter (runnable e) (job_rows s))))"
    by (auto simp: next_job_def simp del: set_sort split: list.splits)
  then show ?thesis by simp
qed

lemma taken_of_started:
  "job_ok x \<Longrightarrow> bg_status x = ''pending'' \<Longrightarrow> executes (taken_of_row e (json_row p b (taken_cells (started e' x)))) (started e' x)"
  by (simp add: executes_def taken_of_row_def taken_cells_def started_def json_row_def col_str_def col_i64_def job_ok_def in_i64_def u32_cast_def)

text \<open>The changes the other calls can make.\<close>

definition closing :: "job_env \<Rightarrow> taken \<Rightarrow> string + json \<Rightarrow> bg_row \<Rightarrow> bg_row" where
  "closing e t outcome r =
     (case outcome of
        Inr output \<Rightarrow> r\<lparr>bg_status := ''completed'', bg_result := Some output, bg_progress := f64_one, bg_completed := Some (jb_now e)\<rparr>
      | Inl err \<Rightarrow> if tk_attempts t \<ge> tk_max t then r\<lparr>bg_status := ''failed'', bg_error := Some err, bg_completed := Some (jb_now e)\<rparr>
          else r\<lparr>bg_status := ''retrying'', bg_error := Some err\<rparr>)"

lemma finish_job_wp: "wp (finish_job e t outcome) (\<lambda>_ s'. s' = s \<or> s' = update_job (tk_id t) (\<lambda>_. True) (closing e t outcome) s) s"
proof -
  have "finish_job e t outcome =
      bind_io (attempt (exec (update_job (tk_id t) (\<lambda>_. True) (closing e t outcome)))) (\<lambda>_. ret (\<exists>err. outcome = Inl err \<and> \<not> tk_attempts t \<ge> tk_max t))"
    by (cases outcome) (simp_all add: finish_job_def closing_def [abs_def])
  then show ?thesis by (auto intro!: wp_intro)
qed

lemma requeue_job_wp:
  "wp (requeue_job i) (\<lambda>_ s'. s' = s \<or> s' = update_job i (\<lambda>r. bg_status r = ''retrying'') (\<lambda>r. r\<lparr>bg_status := ''pending''\<rparr>) s) s"
  unfolding requeue_job_def by (auto intro!: wp_intro)

lemma cancel_job_wp:
  "wp (cancel_job e i) (\<lambda>_ s'. s' = s \<or> s' = update_job i (\<lambda>r. bg_status r \<in> {''pending'', ''retrying''})
     (\<lambda>r. r\<lparr>bg_status := ''cancelled'', bg_completed := Some (jb_now e)\<rparr>) s) s"
  unfolding cancel_job_def by (auto intro!: wp_intro)

lemma enqueue_wp:
  "wp (enqueue e tenant queue ty payload priority scheduled) (\<lambda>_ s'. s' = s \<or>
     (\<exists>t. jb_uuid e \<notin> bg_id ` set (job_rows s) \<and> s' = s\<lparr>job_rows := job_rows s @ [queued_row e tenant queue ty payload priority t]\<rparr>)) s"
  unfolding enqueue_def by (auto intro!: wp_intro split: option.splits if_splits)

lemma queued_row_simps [simp]: "bg_id (queued_row e tenant queue ty payload priority t) = jb_uuid e"
  "plain (jb_uuid e) \<Longrightarrow> job_ok (queued_row e tenant queue ty payload priority t)"
  by (simp_all add: queued_row_def job_ok_def)

lemma job_step_inv:
  assumes "job_step c c'" and "job_inv (fst c) (snd c)"
  shows "job_inv (fst c') (snd c')"
  using assms
proof (cases rule: job_step.cases)
  case (enqueue e tenant queue ty payload priority scheduled s r s' ws)
  with assms(2) calls_wp [OF enqueue(3) enqueue_wp] show ?thesis
    by (auto simp: job_inv_def)
next
  case (cancel e i s r s' ws)
  have "job_inv (update_job i (\<lambda>r. bg_status r \<in> {''pending'', ''retrying''}) (\<lambda>r. r\<lparr>bg_status := ''cancelled'', bg_completed := Some (jb_now e)\<rparr>) s) ws"
    using assms(2) cancel(1) by (intro inv_update) (auto simp: job_inv_def job_ok_def)
  with assms(2) cancel calls_wp [OF cancel(3) cancel_job_wp] show ?thesis by auto
next
  case (idle e s r s' ws)
  with assms(2) calls_wp [OF idle(3) take_job_wp] show ?thesis by auto
next
  case (take w ws e s row rows s')
  from calls_wp [OF take(5) take_job_wp] obtain x where x: "next_job e s = Some x"
    "row = json_row (jb_parse e) (jb_base64 e) (taken_cells (started e x))" "s' = update_job (bg_id x) (\<lambda>_. True) (started e) s"
    by auto
  have inv: "job_inv s ws" using assms(2) take(1) by simp
  from next_job_Some [OF x(1)] have mem: "x \<in> set (job_rows s)" and pending: "bg_status x = ''pending''" by (simp_all add: runnable_def)
  have ok: "job_ok x" using inv mem by (simp add: job_inv_def)
  have free: "\<forall>v < length ws. \<not> busy_with (bg_id x) (ws ! v)"
    using busy_row [OF inv _ _ mem] pending by (auto simp: executes_def)
  have inv': "job_inv s' ws" unfolding x(3)
    using ok free by (intro inv_update [OF inv]) (auto dest: job_unique [OF inv _ mem] simp: job_ok_def started_def pending)
  have mem': "started e x \<in> set (job_rows s')" using mem by (force simp: x(3) update_job_def)
  have ex: "executes (taken_of_row e row) (started e x)" unfolding x(2) by (rule taken_of_started [OF ok pending])
  then have "tk_id (taken_of_row e row) = bg_id x" by (simp add: executes_def started_def)
  with inv_busy [OF inv' take(3) mem' ex] free take show ?thesis by simp
next
  case (finish w ws t e outcome s sleeps s')
  have inv: "job_inv s ws" using assms(2) finish(1) by simp
  let ?ws = "ws[w := if sleeps then Asleep (tk_id t) else Idle]"
  have inv': "job_inv s ?ws" by (rule inv_worker [OF inv finish(3)]) simp
  obtain r where r: "r \<in> set (job_rows s)" "executes t r" using inv_row [OF inv finish(3,4)] by blast
  have free: "\<forall>v < length ?ws. \<not> busy_with (tk_id t) (?ws ! v)"
  proof (intro allI impI)
    fix v assume v: "v < length ?ws"
    then show "\<not> busy_with (tk_id t) (?ws ! v)"
      using inv_one [OF inv _ finish(3), of v "tk_id t"] finish(3,4) by (cases "v = w") auto
  qed
  have "job_inv (update_job (tk_id t) (\<lambda>_. True) (closing e t outcome) s) ?ws"
  proof (rule inv_update [OF inv'])
    fix r' assume "r' \<in> set (job_rows s)" "bg_id r' = tk_id t"
    then have "r' = r" using job_unique [OF inv _ r(1)] r(2) by (simp add: executes_def)
    with r(2) free show "bg_id (closing e t outcome r') = tk_id t \<and> job_ok (closing e t outcome r') \<and>
        (bg_status r' = ''running'' \<longrightarrow> (\<forall>v < length ?ws. \<not> busy_with (tk_id t) (?ws ! v)))"
      using inv_ok [OF inv r(1)] by (cases outcome) (auto simp: job_ok_def executes_def closing_def)
  qed
  with inv' finish calls_wp [OF finish(5) finish_job_wp] show ?thesis by auto
next
  case (requeue w ws i s r s')
  have inv: "job_inv s (ws[w := Idle])" using assms(2) requeue(1,3) by (simp add: inv_worker)
  then have "job_inv (update_job i (\<lambda>r. bg_status r = ''retrying'') (\<lambda>r. r\<lparr>bg_status := ''pending''\<rparr>) s) (ws[w := Idle])"
    by (intro inv_update) (auto simp: job_inv_def job_ok_def)
  with inv requeue calls_wp [OF requeue(5) requeue_job_wp] show ?thesis by auto
next
  case (crash w ws s)
  with assms(2) show ?thesis by (simp add: inv_worker)
qed


lemma reachable_inv: "job_step\<^sup>*\<^sup>* c c' \<Longrightarrow> job_inv (fst c) (snd c) \<Longrightarrow> job_inv (fst c') (snd c')"
  by (induction rule: rtranclp_induct) (auto intro: job_step_inv)

text \<open>
  C25. However the steps of any number of workers interleave with requests, crashes and failures, starting from an empty table,
  no job is executed by two workers at a time, and no job is started more often than its three attempts.
\<close>

theorem jobs_run_once_at_a_time:
  assumes "job_step\<^sup>*\<^sup>* (\<lparr>job_rows = []\<rparr>, replicate n Idle) (s, ws)"
  shows "(\<forall>v < length ws. \<forall>w < length ws. \<forall>t u. ws ! v = Busy t \<and> ws ! w = Busy u \<and> tk_id t = tk_id u \<longrightarrow> v = w)
    \<and> (\<forall>r \<in> set (job_rows s). bg_attempts r \<le> bg_max r)"
proof -
  have "job_inv \<lparr>job_rows = []\<rparr> (replicate n Idle)" by (rule job_invI) simp_all
  with reachable_inv [OF assms] have inv: "job_inv s ws" by simp
  show ?thesis
    using inv_one [OF inv] inv_ok [OF inv] by (auto simp: job_ok_def)
qed

section \<open>Jobs nobody touches\<close>

definition at_rest :: "bg_row \<Rightarrow> job_db \<Rightarrow> worker list \<Rightarrow> bool" where
  "at_rest r s ws \<longleftrightarrow> r \<in> set (job_rows s) \<and> bg_status r \<notin> {''pending'', ''retrying''} \<and> (\<forall>w < length ws. \<not> busy_with (bg_id r) (ws ! w))"

lemma kept_by_update: "r \<in> set (job_rows s) \<Longrightarrow> bg_id r \<noteq> i \<or> \<not> P r \<Longrightarrow> r \<in> set (job_rows (update_job i P f s))"
  by (force simp: update_job_def)

lemma at_rest_worker: "at_rest r s ws \<Longrightarrow> r \<in> set (job_rows s') \<Longrightarrow> w < length ws \<Longrightarrow> \<not> busy_with (bg_id r) x \<Longrightarrow> at_rest r s' (ws[w := x])"
  by (auto simp: at_rest_def nth_list_update)

lemma at_rest_step:
  assumes "job_step c c'" and "job_inv (fst c) (snd c)" and "at_rest r (fst c) (snd c)"
  shows "at_rest r (fst c') (snd c')"
  using assms
proof (cases rule: job_step.cases)
  case (enqueue e tenant queue ty payload priority scheduled s a s' ws)
  with assms(3) calls_wp [OF enqueue(3) enqueue_wp] show ?thesis by (auto simp: at_rest_def)
next
  case (cancel e i s a s' ws)
  with assms(3) calls_wp [OF cancel(3) cancel_job_wp] show ?thesis by (auto simp: at_rest_def intro: kept_by_update)
next
  case (idle e s a s' ws)
  with assms(3) calls_wp [OF idle(3) take_job_wp] show ?thesis by auto
next
  case (take w ws e s row rows s')
  from calls_wp [OF take(5) take_job_wp] obtain x where x: "next_job e s = Some x"
    "row = json_row (jb_parse e) (jb_base64 e) (taken_cells (started e x))" "s' = update_job (bg_id x) (\<lambda>_. True) (started e) s"
    by auto
  have inv: "job_inv s ws" and rest: "at_rest r s ws" using assms(2,3) take(1) by simp_all
  from next_job_Some [OF x(1)] have mem: "x \<in> set (job_rows s)" and pending: "bg_status x = ''pending''" by (simp_all add: runnable_def)
  then have other: "bg_id r \<noteq> bg_id x" using job_unique [OF inv _ mem] rest by (auto simp: at_rest_def)
  have "tk_id (taken_of_row e row) = bg_id x"
    using taken_of_started [OF inv_ok [OF inv mem] pending] unfolding x(2) by (simp add: executes_def started_def)
  with other rest have "at_rest r s' (ws[w := Busy (taken_of_row e row)])"
    by (intro at_rest_worker [OF rest _ take(3)]) (auto simp: x(3) at_rest_def intro: kept_by_update)
  with take(2) show ?thesis by simp
next
  case (finish w ws t e outcome s sleeps s')
  have rest: "at_rest r s ws" using assms(3) finish(1) by simp
  with finish(3,4) have "bg_id r \<noteq> tk_id t" by (auto simp: at_rest_def)
  with rest calls_wp [OF finish(5) finish_job_wp] have "r \<in> set (job_rows s')"
    by (auto simp: at_rest_def intro: kept_by_update)
  with rest finish(2,3) show ?thesis by (simp add: at_rest_worker)
next
  case (requeue w ws i s a s')
  have rest: "at_rest r s ws" using assms(3) requeue(1) by simp
  with calls_wp [OF requeue(5) requeue_job_wp] have "r \<in> set (job_rows s')"
    by (auto simp: at_rest_def intro: kept_by_update)
  with rest requeue(2,3) show ?thesis by (simp add: at_rest_worker)
next
  case (crash w ws s)
  with assms(3) at_rest_worker [of r s ws s w Idle] show ?thesis by (simp add: at_rest_def)
qed

text \<open>
  A job that is completed, failed or cancelled, or that is marked as running while no worker executes it, because
  its worker crashed or could not write the answer, is never changed again: finished jobs stay
  finished, and jobs that were lost stay running for ever.
\<close>

theorem lost_jobs_stay_lost:
  assumes "job_step\<^sup>*\<^sup>* (\<lparr>job_rows = []\<rparr>, replicate n Idle) (s, ws)" and "job_step\<^sup>*\<^sup>* (s, ws) (s', ws')" and "r \<in> set (job_rows s)"
    and "bg_status r \<in> {''completed'', ''failed'', ''cancelled''}
      \<or> (bg_status r = ''running'' \<and> (\<forall>w < length ws. \<forall>t. ws ! w = Busy t \<longrightarrow> tk_id t \<noteq> bg_id r))"
  shows "r \<in> set (job_rows s')"
proof -
  have "job_inv \<lparr>job_rows = []\<rparr> (replicate n Idle)" by (rule job_invI) simp_all
  with reachable_inv [OF assms(1)] have inv: "job_inv s ws" by simp
  have "\<not> busy_with (bg_id r) (ws ! w)" if w: "w < length ws" for w
  proof
    assume busy: "busy_with (bg_id r) (ws ! w)"
    from busy_row [OF inv w busy assms(3)] obtain t where "ws ! w = Busy t" "executes t r" by blast
    with assms(4) w show False by (auto simp: executes_def)
  qed
  with assms(3,4) have "at_rest r s ws" by (auto simp: at_rest_def)
  with assms(2) inv have "at_rest r s' ws' \<and> job_inv s' ws'"
    by (induction "(s', ws')" arbitrary: s' ws' rule: rtranclp_induct) (metis at_rest_step fst_conv job_step_inv prod.exhaust snd_conv)+
  then show ?thesis by (simp add: at_rest_def)
qed

section \<open>What is asked for and what is done\<close>

text \<open>
  The worker takes a pending job that is due and than which none due is more urgent, nor as urgent and older. Whatever
  object or array the payload of the job is, its handler is given the empty object.
\<close>

theorem worker_takes_most_urgent:
  assumes "next_job e s = Some x"
  shows "x \<in> set (job_rows s) \<and> runnable e x
    \<and> (\<forall>y \<in> set (job_rows s). runnable e y \<longrightarrow> bg_priority y < bg_priority x \<or> (bg_priority y = bg_priority x \<and> bg_created x \<le> bg_created y))
    \<and> (as_str (bg_payload x) = None \<longrightarrow> jb_parse e ''{}'' = Some (JObject []) \<longrightarrow>
        tk_payload (taken_of_row e (json_row (jb_parse e) (jb_base64 e) (taken_cells (started e x)))) = JObject [])"
proof -
  let ?due = "sort_key bg_created (filter (runnable e) (job_rows s))"
  let ?queue = "sort_key (\<lambda>r. - bg_priority r) ?due"
  obtain rest where queue: "?queue = x # rest"
    using assms by (auto simp: next_job_def split: list.splits)
  have urgent: "bg_priority y \<le> bg_priority x" if "y \<in> set (job_rows s)" "runnable e y" for y
  proof -
    have "sorted (map (\<lambda>r. - bg_priority r) ?queue)" by simp
    moreover have "y \<in> set ?queue" using that by simp
    ultimately show ?thesis unfolding queue by auto
  qed
  have older: "bg_created x \<le> bg_created y" if y: "y \<in> set (job_rows s)" "runnable e y" "bg_priority y = bg_priority x" for y
  proof -
    let ?same = "\<lambda>r. - bg_priority r = - bg_priority x"
    have "filter ?same ?queue = filter ?same ?due" by (rule sort_key_stable)
    then have "filter ?same ?due = x # filter ?same rest" unfolding queue by simp
    moreover have "sorted (map bg_created (filter ?same ?due))" by (rule sorted_filter) simp
    moreover have "y \<in> set (filter ?same ?due)" using y by simp
    ultimately show ?thesis by auto
  qed
  have payload: "tk_payload (taken_of_row e (json_row (jb_parse e) (jb_base64 e) (taken_cells (started e x)))) = JObject []"
    if "as_str (bg_payload x) = None" "jb_parse e ''{}'' = Some (JObject [])"
    using that by (simp add: taken_of_row_def json_row_def taken_cells_def started_def col_str_def)
  show ?thesis using next_job_Some [OF assms] urgent older payload by (auto simp: order_le_less)
qed

text \<open>
  A job without a time to start at cannot be enqueued: the absent time is sent as the empty text, which
  is not a time.
\<close>

theorem unscheduled_jobs_rejected:
  assumes "cast_time e [] = None"
  shows "wp (enqueue e tenant queue ty payload priority None) (\<lambda>r s'. (\<exists>err. r = Inl err) \<and> s' = s) s"
  unfolding enqueue_def using assms by (auto intro!: wp_intro)

section \<open>Witnesses\<close>

definition demo_job_env :: job_env where
  "demo_job_env = \<lparr>jb_parse = (\<lambda>t. if t = ''{}'' then Some (JObject []) else None), jb_base64 = id, jb_uuid = ''j1'', jb_now = 7,
     jb_time = (\<lambda>_. ''now''), cast_time = (\<lambda>t. if t = ''now'' then Some 7 else None)\<rparr>"

definition demo_row :: bg_row where
  "demo_row = queued_row demo_job_env 1 ''default'' ''mail'' (JObject [(''to'', JString ''a'')]) 0 (Some 7)"

definition demo_taken :: taken where
  "demo_taken = taken_of_row demo_job_env (json_row (jb_parse demo_job_env) (jb_base64 demo_job_env) (taken_cells (started demo_job_env demo_row)))"

lemma demo_calls:
  "calls (enqueue demo_job_env 1 ''default'' ''mail'' (JObject [(''to'', JString ''a'')]) 0 (Some ''now'')) \<lparr>job_rows = []\<rparr>
     (fst (enqueue demo_job_env 1 ''default'' ''mail'' (JObject [(''to'', JString ''a'')]) 0 (Some ''now'') (up \<lparr>job_rows = []\<rparr>))) \<lparr>job_rows = [demo_row]\<rparr>"
  "calls (take_job demo_job_env) \<lparr>job_rows = [demo_row]\<rparr>
     (Inr (json_row (jb_parse demo_job_env) (jb_base64 demo_job_env) (taken_cells (started demo_job_env demo_row)) # [])) \<lparr>job_rows = [started demo_job_env demo_row]\<rparr>"
proof -
  show "calls (enqueue demo_job_env 1 ''default'' ''mail'' (JObject [(''to'', JString ''a'')]) 0 (Some ''now'')) \<lparr>job_rows = []\<rparr>
      (fst (enqueue demo_job_env 1 ''default'' ''mail'' (JObject [(''to'', JString ''a'')]) 0 (Some ''now'') (up \<lparr>job_rows = []\<rparr>))) \<lparr>job_rows = [demo_row]\<rparr>"
    by (rule calls_up) (simp add: enqueue_def demo_row_def demo_job_env_def)
  have "next_job demo_job_env \<lparr>job_rows = [demo_row]\<rparr> = Some demo_row"
    by (simp add: next_job_def runnable_def demo_row_def queued_row_def demo_job_env_def)
  then show "calls (take_job demo_job_env) \<lparr>job_rows = [demo_row]\<rparr>
     (Inr (json_row (jb_parse demo_job_env) (jb_base64 demo_job_env) (taken_cells (started demo_job_env demo_row)) # [])) \<lparr>job_rows = [started demo_job_env demo_row]\<rparr>"
    by (intro calls_up) (simp add: take_job_def update_job_def)
qed

lemma jobs_demo_run:
  "job_step\<^sup>*\<^sup>* (\<lparr>job_rows = []\<rparr>, replicate 1 Idle) (\<lparr>job_rows = [started demo_job_env demo_row]\<rparr>, [Busy demo_taken])"
  "job_step\<^sup>*\<^sup>* (\<lparr>job_rows = []\<rparr>, replicate 1 Idle) (\<lparr>job_rows = [started demo_job_env demo_row]\<rparr>, [Idle])"
  "job_step (\<lparr>job_rows = [started demo_job_env demo_row]\<rparr>, [Idle]) (\<lparr>job_rows = [started demo_job_env demo_row]\<rparr>, [Idle])"
proof -
  have "job_step (\<lparr>job_rows = []\<rparr>, [Idle]) (\<lparr>job_rows = [demo_row]\<rparr>, [Idle])"
    by (rule job_step.enqueue [OF demo_calls(1)]) (simp add: demo_job_env_def plain_Cons)
  moreover have "job_step (\<lparr>job_rows = [demo_row]\<rparr>, [Idle]) (\<lparr>job_rows = [started demo_job_env demo_row]\<rparr>, [Busy demo_taken])"
    using job_step.take [OF _ _ demo_calls(2), of 0 "[Idle]"] by (simp add: demo_taken_def)
  ultimately show busy: "job_step\<^sup>*\<^sup>* (\<lparr>job_rows = []\<rparr>, replicate 1 Idle) (\<lparr>job_rows = [started demo_job_env demo_row]\<rparr>, [Busy demo_taken])"
    by simp
  show "job_step\<^sup>*\<^sup>* (\<lparr>job_rows = []\<rparr>, replicate 1 Idle) (\<lparr>job_rows = [started demo_job_env demo_row]\<rparr>, [Idle])"
    using rtranclp.rtrancl_into_rtrancl [OF busy job_step.crash [of 0]] by simp
  show "job_step (\<lparr>job_rows = [started demo_job_env demo_row]\<rparr>, [Idle]) (\<lparr>job_rows = [started demo_job_env demo_row]\<rparr>, [Idle])"
    using job_step.crash [of 0 "[Idle]" "\<lparr>job_rows = [started demo_job_env demo_row]\<rparr>"] by simp
qed

theorem jobs_run_once_at_a_time_witness:
  "bg_attempts (started demo_job_env demo_row) \<le> bg_max (started demo_job_env demo_row)"
  using jobs_run_once_at_a_time [OF jobs_demo_run(1)] by simp

theorem lost_jobs_stay_lost_witness:
  "started demo_job_env demo_row \<in> set (job_rows \<lparr>job_rows = [started demo_job_env demo_row]\<rparr>)"
proof -
  have again: "job_step\<^sup>*\<^sup>* (\<lparr>job_rows = [started demo_job_env demo_row]\<rparr>, [Idle]) (\<lparr>job_rows = [started demo_job_env demo_row]\<rparr>, [Idle])"
    by (rule r_into_rtranclp) (rule jobs_demo_run(3))
  show ?thesis
    by (rule lost_jobs_stay_lost [OF jobs_demo_run(2) again]) (simp_all add: started_def)
qed

theorem worker_takes_most_urgent_witness:
  "tk_payload demo_taken = JObject []"
proof -
  have "next_job demo_job_env \<lparr>job_rows = [demo_row]\<rparr> = Some demo_row"
    by (simp add: next_job_def runnable_def demo_row_def queued_row_def demo_job_env_def)
  from worker_takes_most_urgent [OF this] show ?thesis
    by (simp add: demo_taken_def demo_row_def queued_row_def demo_job_env_def)
qed

theorem unscheduled_jobs_rejected_witness:
  "\<exists>err. fst (enqueue demo_job_env 1 ''default'' ''mail'' JNull 0 None (up \<lparr>job_rows = []\<rparr>)) = Inl err"
  using wp_up [OF unscheduled_jobs_rejected [of demo_job_env 1 "''default''" "''mail''" JNull 0 "\<lparr>job_rows = []\<rparr>"]]
  by (simp add: demo_job_env_def)

end
