(* ===== verification/Purchases.thy ===== *)
theory Purchases imports Entitlements JsonMap Errors begin

unbundle bit_operations_syntax

text \<open>
  What the stores' servers say about a purchase (\<open>src/src/billing/validators.rs\<close>): the receipts of Apple and
  Google, the signed notifications of Apple and the signed events of Stripe, each translated into a
  \<open>ValidatedPurchase\<close>; the check of an experiment's traffic weights; and the rules that decide who takes part
  in an experiment (\<open>src/src/billing/audiences.rs\<close>). A string of bytes is a list of characters. The
  cryptography, base64, certificates, the HTTP client, the JSON reader, chrono's range of dates and the
  conversion to doubles are parameters.
\<close>

section \<open>Types\<close>

record purchase =
  pu_store :: string
  pu_product :: string
  pu_transaction :: string
  pu_original :: "string option"
  pu_at :: "int option"
  pu_expires :: "int option"
  pu_trial :: bool
  pu_renewal :: bool
  pu_auto_renew :: bool
  pu_raw :: json

definition STORE_APPLE :: string where "STORE_APPLE = ''app_store''"
definition STORE_GOOGLE :: string where "STORE_GOOGLE = ''play_store''"
definition STORE_STRIPE :: string where "STORE_STRIPE = ''stripe''"

datatype billing_event =
    InitialPurchase | Renewal | Cancellation | Uncancellation | NonRenewingPurchase | Expiration
  | BillingIssue | ProductChange | Transfer | SubscriptionPaused | Refund | ExperimentImpression
  | ExperimentConversion

fun event_str :: "billing_event \<Rightarrow> string" where
  "event_str InitialPurchase = ''INITIAL_PURCHASE''"
| "event_str Renewal = ''RENEWAL''"
| "event_str Cancellation = ''CANCELLATION''"
| "event_str Uncancellation = ''UNCANCELLATION''"
| "event_str NonRenewingPurchase = ''NON_RENEWING_PURCHASE''"
| "event_str Expiration = ''EXPIRATION''"
| "event_str BillingIssue = ''BILLING_ISSUE''"
| "event_str ProductChange = ''PRODUCT_CHANGE''"
| "event_str Transfer = ''TRANSFER''"
| "event_str SubscriptionPaused = ''SUBSCRIPTION_PAUSED''"
| "event_str Refund = ''REFUND''"
| "event_str ExperimentImpression = ''EXPERIMENT_IMPRESSION''"
| "event_str ExperimentConversion = ''EXPERIMENT_CONVERSION''"

text \<open>chrono's conversions: an instant for a number of seconds or of milliseconds, when it is in range.\<close>

record times =
  of_secs :: "int \<Rightarrow> int option"
  of_millis :: "int \<Rightarrow> int option"

text \<open>\<open>v.get(k).and_then(|v| v.as_str())\<close> and its siblings.\<close>

definition get_str :: "json \<Rightarrow> string \<Rightarrow> string option" where
  "get_str v k = Option.bind (jget v k) as_str"

definition get_i64 :: "json \<Rightarrow> string \<Rightarrow> int option" where
  "get_i64 v k = Option.bind (jget v k) as_i64"

definition get_bool :: "json \<Rightarrow> string \<Rightarrow> bool option" where
  "get_bool v k = Option.bind (jget v k) as_bool"

definition get_array :: "json \<Rightarrow> string \<Rightarrow> json list" where
  "get_array v k = unwrap_or [] (Option.bind (jget v k) as_array)"

section \<open>Apple: receipts\<close>

definition APPLE_PRODUCTION :: string where "APPLE_PRODUCTION = ''https://buy.itunes.apple.com/verifyReceipt''"
definition APPLE_SANDBOX :: string where "APPLE_SANDBOX = ''https://sandbox.itunes.apple.com/verifyReceipt''"

definition parse_apple_ms :: "times \<Rightarrow> json option \<Rightarrow> int option" where
  "parse_apple_ms t v = Option.bind (Option.bind (Option.bind v as_str) parse_i64) (of_millis t)"

definition apple_item_to_purchase :: "times \<Rightarrow> json \<Rightarrow> json list \<Rightarrow> purchase" where
  "apple_item_to_purchase t item pending =
     (let otid = get_str item ''original_transaction_id'' in
      \<lparr>pu_store = STORE_APPLE,
       pu_product = unwrap_or [] (get_str item ''product_id''),
       pu_transaction = unwrap_or [] (get_str item ''transaction_id''),
       pu_original = otid,
       pu_at = parse_apple_ms t (jget item ''purchase_date_ms''),
       pu_expires = parse_apple_ms t (jget item ''expires_date_ms''),
       pu_trial = (get_str item ''is_trial_period'' = Some ''true''),
       pu_renewal = (get_str item ''in_app_ownership_type'' = Some ''PURCHASED''),
       pu_auto_renew = unwrap_or True (map_option (\<lambda>s. s = ''1'')
         (Option.bind (Option.bind otid (\<lambda>o'. find (\<lambda>p. get_str p ''original_transaction_id'' = Some o') pending))
           (\<lambda>p. get_str p ''auto_renew_status''))),
       pu_raw = item\<rparr>)"

text \<open>One request to Apple's server: it is not sent, its answer is not JSON, or there is an answer.\<close>

type_synonym apple_client = "string \<Rightarrow> json \<Rightarrow> string + string + json"

definition apple_post :: "apple_client \<Rightarrow> string \<Rightarrow> string \<Rightarrow> json \<Rightarrow> json result" where
  "apple_post http what url body =
     (case http url body of
        Inl e \<Rightarrow> Inl (Storage (''apple '' @ what @ '': '' @ e))
      | Inr (Inl e) \<Rightarrow> Inl (Storage (''apple '' @ what @ '' parse: '' @ e))
      | Inr (Inr v) \<Rightarrow> Inr v)"

definition apple_verify_receipt ::
  "times \<Rightarrow> apple_client \<Rightarrow> string \<Rightarrow> string option \<Rightarrow> purchase list result" where
  "apple_verify_receipt t http receipt secret =
     (let fields = obj_of [(''receipt-data'', JString receipt), (''exclude-old-transactions'', JBool True)];
          body = JObject (case secret of None \<Rightarrow> fields | Some s \<Rightarrow> obj_put ''password'' (JString s) fields)
      in and_then (apple_post http ''verifyReceipt'' APPLE_PRODUCTION body) (\<lambda>first.
         and_then (if get_i64 first ''status'' = Some 21007 then apple_post http ''sandbox'' APPLE_SANDBOX body
                   else Inr first) (\<lambda>parsed.
           (case get_i64 parsed ''status'' of
              None \<Rightarrow> Inl (InvalidPayload ''Apple verifyReceipt: no status'')
            | Some code \<Rightarrow>
                if code \<noteq> 0 then Inl (InvalidPayload (''Apple verifyReceipt failed with status '' @ show_int code))
                else (let pending = get_array parsed ''pending_renewal_info''
                  in Inr (map (\<lambda>item. apple_item_to_purchase t item pending) (get_array parsed ''latest_receipt_info'')))))))"

section \<open>Apple: signed notifications\<close>

text \<open>
  The cryptography: \<open>'c\<close> certificates, \<open>'k\<close> elliptic-curve keys, \<open>'g\<close> their signatures, \<open>'r\<close> RSA keys.
\<close>

record ('c, 'k, 'g, 'r) crypto =
  b64_url :: "string \<Rightarrow> string option"
  b64_std :: "string \<Rightarrow> string option"
  json_of :: "string \<Rightarrow> json option"
  parse_cert :: "string \<Rightarrow> 'c option"
  spki :: "'c \<Rightarrow> string"
  tbs :: "'c \<Rightarrow> string"
  signature_value :: "'c \<Rightarrow> string"
  verify_signature :: "'c \<Rightarrow> 'c \<Rightarrow> bool"
  sec1_key :: "string \<Rightarrow> 'k option"
  der_sig :: "string \<Rightarrow> 'g option"
  ecdsa_verify :: "'k \<Rightarrow> string \<Rightarrow> 'g \<Rightarrow> bool"
  pkcs1_key :: "string \<Rightarrow> 'r option"
  sha256 :: "string \<Rightarrow> string"
  rsa_verify :: "'r \<Rightarrow> string \<Rightarrow> string \<Rightarrow> bool"

definition apple_root_ca_pem :: string where
  "apple_root_ca_pem = join [CHR 0x0A]
    [''-----BEGIN CERTIFICATE-----'',
     ''MIICQzCCAcmgAwIBAgIILcX8iNLFS5UwCgYIKoZIzj0EAwMwZzEbMBkGA1UEAwwS'',
     ''QXBwbGUgUm9vdCBDQSAtIEczMSYwJAYDVQQLDB1BcHBsZSBDZXJ0aWZpY2F0aW9u'',
     ''IEF1dGhvcml0eTETMBEGA1UECgwKQXBwbGUgSW5jLjELMAkGA1UEBhMCVVMwHhcN'',
     ''MTQwNDMwMTgxOTA2WhcNMzkwNDMwMTgxOTA2WjBnMRswGQYDVQQDDBJBcHBsZSBS'',
     ''b290IENBIC0gRzMxJjAkBgNVBAsMHUFwcGxlIENlcnRpZmljYXRpb24gQXV0aG9y'',
     ''aXR5MRMwEQYDVQQKDApBcHBsZSBJbmMuMQswCQYDVQQGEwJVUzB2MBAGByqGSM49'',
     ''AgEGBSuBBAAiA2IABJjpLz1AcqTtkyJygRMc3RCV8cWjTnHcFBbZDuWmBSp3ZHtf'',
     ''TjjTuxxEtX/1H7YyYl3J6YRbTzBPEVoA/VhYDKX1DyxNB0cTddqXl5dvMVztK517'',
     ''IDvYuVTZXpmkOlEKMaNCMEAwHQYDVR0OBBYEFLuw3qFYM4iapIqZ3r6966/ayySr'',
     ''MA8GA1UdEwEB/wQFMAMBAf8wDgYDVR0PAQH/BAQDAgEGMAoGCCqGSM49BAMDA2gA'',
     ''MGUCMQCD6cHEFl4aXTQY2e3v9GwOAEZLuN+yRhHFD/3meoyhpmvOwgPUnPWTxnS4'',
     ''at+qIxUCMG1mihDK1A3UT82NQz60imOlM27jbdoXt2QfyFMm+YhidDkLF1vLUagM'',
     ''6BgD56KyKA=='',
     ''-----END CERTIFICATE-----'']"

definition decode_apple_root_ca :: "('c, 'k, 'g, 'r) crypto \<Rightarrow> string result" where
  "decode_apple_root_ca c = ok_or (Internal ''Apple root CA PEM decode'')
     (b64_std c (concat (filter (\<lambda>l. \<not> starts_with l ''---'' \<and> trim l \<noteq> [])
        (split_on (CHR 0x0A) apple_root_ca_pem))))"

definition verify_cert_signed_by :: "('c, 'k, 'g, 'r) crypto \<Rightarrow> string \<Rightarrow> 'c \<Rightarrow> bool" where
  "verify_cert_signed_by c cert_der issuer =
     (case parse_cert c cert_der of
        None \<Rightarrow> False
      | Some subject \<Rightarrow>
          if verify_signature c subject issuer then True
          else (case pkcs1_key c (spki c issuer) of
             Some rsa \<Rightarrow> rsa_verify c rsa (sha256 c (tbs c subject)) (signature_value c subject)
           | None \<Rightarrow>
               (case (sec1_key c (spki c issuer), der_sig c (signature_value c subject)) of
                  (Some vk, Some sig) \<Rightarrow> ecdsa_verify c vk (tbs c subject) sig
                | _ \<Rightarrow> False)))"

definition ensure_chain_roots_at_apple_root :: "('c, 'k, 'g, 'r) crypto \<Rightarrow> string \<Rightarrow> unit result" where
  "ensure_chain_roots_at_apple_root c last_der =
     and_then (decode_apple_root_ca c) (\<lambda>pinned.
       if last_der = pinned then Inr ()
       else and_then (ok_or (Internal ''Apple root CA parse'') (parse_cert c pinned)) (\<lambda>root.
         if verify_cert_signed_by c last_der root then Inr ()
         else Inl (Unauthorized ''Apple JWS certificate chain does not terminate at the pinned Apple root CA'')))"

definition jws_verified :: "('c, 'k, 'g, 'r) crypto \<Rightarrow> string \<Rightarrow> string \<Rightarrow> string \<Rightarrow> string \<Rightarrow> bool" where
  "jws_verified c alg key input signature =
     (if alg = ''ES256'' then
        (case (sec1_key c key, der_sig c signature) of
           (Some vk, Some sig) \<Rightarrow> ecdsa_verify c vk input sig
         | _ \<Rightarrow> False)
      else if alg = ''RS256'' then
        (case pkcs1_key c key of
           Some rsa \<Rightarrow> rsa_verify c rsa (sha256 c input) signature
         | None \<Rightarrow> False)
      else False)"

text \<open>The bytes of an element of the chain; what is no string counts as the empty one.\<close>

definition chain_der :: "('c, 'k, 'g, 'r) crypto \<Rightarrow> json \<Rightarrow> string option" where
  "chain_der c v = b64_url c (unwrap_or [] (as_str v))"

definition chain_ok :: "('c, 'k, 'g, 'r) crypto \<Rightarrow> json list \<Rightarrow> string \<Rightarrow> bool" where
  "chain_ok c x5c leaf_der \<longleftrightarrow>
     (length x5c \<ge> 3 \<longrightarrow>
        (case (chain_der c (x5c ! 1), chain_der c (x5c ! 2)) of
           (Some inter_der, Some root_der) \<Rightarrow>
             (case (parse_cert c inter_der, parse_cert c root_der) of
                (Some middle, Some root) \<Rightarrow> verify_cert_signed_by c leaf_der middle \<and> verify_cert_signed_by c inter_der root
              | _ \<Rightarrow> True)
         | _ \<Rightarrow> True)) \<and>
     (length x5c = 2 \<longrightarrow>
        (case (chain_der c (x5c ! 0), chain_der c (x5c ! 1)) of
           (Some first_der, Some root_der) \<Rightarrow>
             (case parse_cert c root_der of
                Some root \<Rightarrow> verify_cert_signed_by c first_der root
              | None \<Rightarrow> True)
         | _ \<Rightarrow> True))"

definition apple_decode_jws_payload :: "('c, 'k, 'g, 'r) crypto \<Rightarrow> string \<Rightarrow> json result" where
  "apple_decode_jws_payload c signed_payload =
     (let parts = split_on (CHR ''.'') signed_payload in
      if length parts \<noteq> 3 then Inl (InvalidPayload ''Not a JWS'')
      else and_then (ok_or (InvalidPayload ''apple JWS header b64'') (b64_url c (parts ! 0))) (\<lambda>header_bytes.
        and_then (ok_or (InvalidPayload ''apple JWS header json'') (json_of c header_bytes)) (\<lambda>header.
        and_then (ok_or (Unauthorized ''Apple JWS missing x5c certificate chain'')
                    (Option.bind (jget header ''x5c'') as_array)) (\<lambda>x5c.
        if length x5c < 2 then Inl (Unauthorized ''Apple JWS x5c chain too short'')
        else and_then (ok_or (Unauthorized ''Apple JWS x5c leaf cert not a string'') (as_str (x5c ! 0))) (\<lambda>leaf_b64.
        and_then (ok_or (Unauthorized ''Apple JWS x5c leaf cert decode'') (b64_url c leaf_b64)) (\<lambda>leaf_der.
        and_then (ok_or (Unauthorized ''Apple JWS x5c leaf cert parse'') (parse_cert c leaf_der)) (\<lambda>leaf.
        and_then (ok_or (InvalidPayload ''apple JWS payload b64'') (b64_url c (parts ! 1))) (\<lambda>payload_bytes.
        and_then (ok_or (InvalidPayload ''apple JWS payload json'') (json_of c payload_bytes)) (\<lambda>payload.
        and_then (ok_or (Unauthorized ''apple JWS signature decode'') (b64_url c (parts ! 2))) (\<lambda>signature.
        if \<not> jws_verified c (unwrap_or ''ES256'' (get_str header ''alg'')) (spki c leaf) (parts ! 0 @ ''.'' @ parts ! 1) signature
        then Inl (Unauthorized ''Apple JWS signature verification failed'')
        else if \<not> chain_ok c x5c leaf_der then Inl (Unauthorized ''Apple JWS x5c chain validation failed'')
        else and_then (ok_or (Unauthorized ''Apple JWS x5c last cert not a string'') (as_str (last x5c))) (\<lambda>last_b64.
        and_then (ok_or (Unauthorized ''Apple JWS x5c last cert decode'') (b64_url c last_b64)) (\<lambda>last_der.
        and_then (ensure_chain_roots_at_apple_root c last_der) (\<lambda>_. Inr payload)))))))))))))"

section \<open>Google\<close>

text \<open>Percent-encoding of a path segment, byte by byte.\<close>

definition hex_digit :: "nat \<Rightarrow> char" where
  "hex_digit n = ''0123456789ABCDEF'' ! n"

definition unreserved :: "char \<Rightarrow> bool" where
  "unreserved ch \<longleftrightarrow> is_ascii_alphanumeric ch \<or> ch \<in> {CHR ''-'', CHR ''_'', CHR ''.'', CHR ''~''}"

definition urlencoded :: "string \<Rightarrow> string" where
  "urlencoded s = concat (map (\<lambda>b. if unreserved b then [b]
     else [CHR ''%'', hex_digit ((of_char b :: nat) div 16), hex_digit ((of_char b :: nat) mod 16)]) s)"

text \<open>
  The client's answer for a URL and a bearer token: not sent, or a status text that is no success, or a body.
\<close>

datatype http_answer = NotSent string | Status string | BadBody string | Body json

definition google_url :: "string \<Rightarrow> string \<Rightarrow> string \<Rightarrow> string" where
  "google_url pkg sub tok =
     ''https://androidpublisher.googleapis.com/androidpublisher/v3/applications/'' @ urlencoded pkg @
     ''/purchases/subscriptions/'' @ urlencoded sub @ ''/tokens/'' @ urlencoded tok"

definition google_verify_subscription ::
  "times \<Rightarrow> (string \<Rightarrow> string \<Rightarrow> http_answer) \<Rightarrow> string \<Rightarrow> string \<Rightarrow> string \<Rightarrow> string \<Rightarrow> purchase result" where
  "google_verify_subscription t http access_token package_name subscription_id purchase_token =
     (case http (google_url package_name subscription_id purchase_token) access_token of
        NotSent e \<Rightarrow> Inl (Storage (''google api: '' @ e))
      | Status code \<Rightarrow> Inl (InvalidPayload (''google purchases.subscriptions.get failed: '' @ code))
      | BadBody e \<Rightarrow> Inl (Storage (''google api parse: '' @ e))
      | Body body \<Rightarrow> Inr
          \<lparr>pu_store = STORE_GOOGLE, pu_product = subscription_id, pu_transaction = purchase_token,
           pu_original = Some purchase_token, pu_at = parse_apple_ms t (jget body ''startTimeMillis''),
           pu_expires = parse_apple_ms t (jget body ''expiryTimeMillis''),
           pu_trial = (get_i64 body ''paymentState'' = Some 2), pu_renewal = False,
           pu_auto_renew = unwrap_or True (get_bool body ''autoRenewing''), pu_raw = body\<rparr>)"

section \<open>Stripe\<close>

text \<open>One part of the header: the text before the first equality sign and the text after it, trimmed.\<close>

definition key_value :: "string \<Rightarrow> string \<times> string" where
  "key_value part = (case split_once (CHR ''='') part of None \<Rightarrow> (trim part, []) | Some (k, v) \<Rightarrow> (trim k, trim v))"

definition header_step :: "int option \<times> string list \<Rightarrow> string \<Rightarrow> int option \<times> string list" where
  "header_step acc part =
     (case key_value part of (k, v) \<Rightarrow>
        if k = ''t'' then (parse_i64 v, snd acc)
        else if k = ''v1'' then (fst acc, snd acc @ [v])
        else acc)"

definition constant_time_eq :: "string \<Rightarrow> string \<Rightarrow> bool" where
  "constant_time_eq a b =
     (if length a \<noteq> length b then False
      else foldl (\<lambda>diff i. diff OR ((of_char (a ! i) :: 8 word) XOR of_char (b ! i))) 0 [0..<length a] = 0)"

definition abs_i64 :: "int \<Rightarrow> int" where
  "abs_i64 i = (if i < 0 then wrap_i64 (- i) else i)"

text \<open>\<open>hmac\<close>: the hexadecimal text of the HMAC-SHA256 of a message under a key.\<close>

definition stripe_verify_signature ::
  "(string \<Rightarrow> string \<Rightarrow> string) \<Rightarrow> string \<Rightarrow> string \<Rightarrow> string \<Rightarrow> int \<Rightarrow> int \<Rightarrow> unit result" where
  "stripe_verify_signature hmac payload header secret tolerance now =
     (case foldl header_step (None, []) (split_on (CHR '','') header) of (timestamp, v1) \<Rightarrow>
        and_then (ok_or (Unauthorized ''stripe signature: missing t'') timestamp) (\<lambda>t.
          if abs_i64 (wrap_i64 (now - t)) > tolerance
          then Inl (Unauthorized ''stripe signature: timestamp outside tolerance'')
          else if v1 = [] then Inl (Unauthorized ''stripe signature: missing v1'')
          else (let expected = hmac secret (show_int t @ ''.'' @ payload)
            in if list_ex (\<lambda>sig. constant_time_eq sig expected) v1 then Inr ()
               else Inl (Unauthorized ''stripe signature: no matching v1 signature''))))"

definition stripe_event_to_purchase :: "times \<Rightarrow> json \<Rightarrow> purchase option" where
  "stripe_event_to_purchase t event =
     Option.bind (Option.bind (jget event ''data'') (\<lambda>d. jget d ''object'')) (\<lambda>obj.
     Option.bind (get_str event ''type'') (\<lambda>event_type.
       if event_type \<notin> {''customer.subscription.created'', ''customer.subscription.updated'',
            ''customer.subscription.deleted'', ''invoice.payment_succeeded''} then None
       else Option.bind (get_str obj ''id'') (\<lambda>sub_id.
         Some \<lparr>pu_store = STORE_STRIPE,
           pu_product = unwrap_or ''stripe_unknown''
             (Option.bind (Option.bind (Option.bind (jget obj ''items'') (\<lambda>i. jget i ''data'')) as_array) (\<lambda>arr.
               case arr of [] \<Rightarrow> None | first # _ \<Rightarrow> Option.bind (jget first ''price'') (\<lambda>p. get_str p ''product''))),
           pu_transaction = sub_id, pu_original = Some sub_id,
           pu_at = Option.bind (get_i64 obj ''current_period_start'') (of_secs t),
           pu_expires = Option.bind (get_i64 obj ''current_period_end'') (of_secs t),
           pu_trial = (get_str obj ''status'' = Some ''trialing''),
           pu_renewal = (event_type = ''invoice.payment_succeeded''),
           pu_auto_renew = (\<not> unwrap_or False (get_bool obj ''cancel_at_period_end'')),
           pu_raw = event\<rparr>)))"

section \<open>The weights of an experiment\<close>

definition sum_i32 :: "int list \<Rightarrow> int" where
  "sum_i32 xs = foldl (\<lambda>acc x. wrap_i32 (acc + x)) 0 xs"

definition validate_traffic_weights :: "variant list \<Rightarrow> unit result" where
  "validate_traffic_weights vs =
     (if vs = [] then Inl (InvalidPayload ''experiment must have at least one variant'')
      else if sum_i32 (map traffic_weight vs) \<noteq> 100
      then Inl (InvalidPayload (''variant traffic weights must sum to 100, got '' @ show_int (sum_i32 (map traffic_weight vs))))
      else if length (filter is_control vs) \<noteq> 1
      then Inl (InvalidPayload ''experiment must have exactly one control variant'')
      else Inr ())"

section \<open>Audiences\<close>

record rule =
  r_field :: string
  r_op :: string
  r_value :: "json option"

record audience_context =
  country :: "string option"
  app_version :: "string option"
  is_existing_subscriber :: bool
  attributes :: json

text \<open>The doubles: reading one from a number or a text, comparing two. A JSON value's text.\<close>

datatype ordering = Less | Equal | Greater

record 'f floats =
  f_of_number :: "number \<Rightarrow> 'f option"
  f_parse :: "string \<Rightarrow> 'f option"
  f_cmp :: "'f \<Rightarrow> 'f \<Rightarrow> ordering option"
  f_text :: "json \<Rightarrow> string"

text \<open>Reading a rule: an object, or an array of its fields in order; \<open>value\<close> may be missing or null.\<close>

definition opt_value :: "json option \<Rightarrow> json option" where
  "opt_value v = (if v = Some JNull then None else v)"

fun decode_rule :: "json \<Rightarrow> rule option" where
  "decode_rule (JObject kvs) =
     (case (map_of kvs ''field'', map_of kvs ''op'') of
        (Some (JString f), Some (JString oper)) \<Rightarrow>
          Some \<lparr>r_field = f, r_op = oper, r_value = opt_value (map_of kvs ''value'')\<rparr>
      | _ \<Rightarrow> None)"
| "decode_rule (JArray [JString f, JString oper]) = Some \<lparr>r_field = f, r_op = oper, r_value = None\<rparr>"
| "decode_rule (JArray [JString f, JString oper, v]) = Some \<lparr>r_field = f, r_op = oper, r_value = opt_value (Some v)\<rparr>"
| "decode_rule _ = None"

definition get_field_value :: "string \<Rightarrow> audience_context \<Rightarrow> json option" where
  "get_field_value field ctx =
     (if field = ''country'' then map_option JString (country ctx)
      else if field = ''app_version'' then map_option JString (app_version ctx)
      else if field = ''is_existing_subscriber'' then Some (JBool (is_existing_subscriber ctx))
      else Option.bind (strip_prefix field ''attributes.'') (jget (attributes ctx)))"

definition field_exists :: "string \<Rightarrow> audience_context \<Rightarrow> bool" where
  "field_exists field ctx =
     (case strip_prefix field ''attributes.'' of
        Some key \<Rightarrow> jget (attributes ctx) key \<noteq> None
      | None \<Rightarrow> get_field_value field ctx \<noteq> None)"

definition in_array :: "json \<Rightarrow> json option \<Rightarrow> bool \<Rightarrow> bool" where
  "in_array actual rule_value required =
     (case rule_value of
        None \<Rightarrow> False
      | Some v \<Rightarrow> (case as_array v of
            Some arr \<Rightarrow> list_ex (\<lambda>item. item = actual) arr
          | None \<Rightarrow> if required then False else v = actual))"

fun as_number :: "'f floats \<Rightarrow> json \<Rightarrow> 'f option" where
  "as_number e (JNumber n) = f_of_number e n"
| "as_number e (JString s) = f_parse e s"
| "as_number e _ = None"

fun compare_lists :: "('a \<Rightarrow> 'a \<Rightarrow> ordering) \<Rightarrow> 'a list \<Rightarrow> 'a list \<Rightarrow> ordering" where
  "compare_lists f [] [] = Equal"
| "compare_lists f [] (_ # _) = Less"
| "compare_lists f (_ # _) [] = Greater"
| "compare_lists f (x # xs) (y # ys) = (case f x y of Equal \<Rightarrow> compare_lists f xs ys | r \<Rightarrow> r)"

definition compare_ord :: "('a :: linorder) \<Rightarrow> 'a \<Rightarrow> ordering" where
  "compare_ord a b = (if a < b then Less else if a = b then Equal else Greater)"

definition version_parts :: "string \<Rightarrow> nat list" where
  "version_parts s = map (\<lambda>p. unwrap_or 0 (parse_u64 p)) (split_on (CHR ''.'') s)"

definition compare_semverish :: "string \<Rightarrow> string \<Rightarrow> ordering" where
  "compare_semverish l r = compare_lists compare_ord (version_parts l) (version_parts r)"

definition compare_values :: "'f floats \<Rightarrow> json \<Rightarrow> json option \<Rightarrow> ordering option" where
  "compare_values e l right =
     Option.bind right (\<lambda>r.
       case (as_number e l, as_number e r) of
         (Some a, Some b) \<Rightarrow> f_cmp e a b
       | _ \<Rightarrow> (case (as_str l, as_str r) of
            (Some a, Some b) \<Rightarrow> Some (compare_semverish a b)
          | _ \<Rightarrow> Some (compare_ord (f_text e l) (f_text e r))))"

definition eval_rule :: "'f floats \<Rightarrow> rule \<Rightarrow> audience_context \<Rightarrow> bool" where
  "eval_rule e r ctx =
     (if r_op r = ''exists'' then field_exists (r_field r) ctx
      else (case get_field_value (r_field r) ctx of
         None \<Rightarrow> False
       | Some actual \<Rightarrow>
          (let ord = compare_values e actual (r_value r) in
           if r_op r = ''eq'' then r_value r = Some actual
           else if r_op r = ''neq'' then r_value r \<noteq> Some actual
           else if r_op r = ''gt'' then ord = Some Greater
           else if r_op r = ''gte'' then ord = Some Greater \<or> ord = Some Equal
           else if r_op r = ''lt'' then ord = Some Less
           else if r_op r = ''lte'' then ord = Some Less \<or> ord = Some Equal
           else if r_op r = ''in'' then in_array actual (r_value r) True
           else if r_op r = ''not_in'' then \<not> in_array actual (r_value r) True
           else False)))"

definition is_eligible :: "'f floats \<Rightarrow> json \<Rightarrow> audience_context \<Rightarrow> bool" where
  "is_eligible e rules ctx =
     (case decode_array decode_rule rules of
        None \<Rightarrow> False
      | Some rs \<Rightarrow> rs = [] \<or> list_all (\<lambda>r. eval_rule e r ctx) rs)"

section \<open>What the validators guarantee\<close>

subsection \<open>The signature of Stripe\<close>

lemma word_of_char_inject: "(of_char a :: 8 word) = of_char b \<longleftrightarrow> a = b"
proof -
  have u: "unat (of_char x :: 8 word) = of_char x" for x
  proof -
    have "(of_char x :: 8 word) = of_nat (of_char x)" by (rule of_nat_of_char [symmetric])
    then have "unat (of_char x :: 8 word) = of_char x mod 256" by (simp only: unat_of_nat) simp
    then show ?thesis using nat_of_char_less_256 [of x] by simp
  qed
  show ?thesis
  proof
    assume "(of_char a :: 8 word) = of_char b"
    then have "(of_char a :: nat) = of_char b" by (simp add: u [symmetric])
    then show "a = b" by simp
  qed simp
qed

lemma or_fold_zero:
  "foldl (\<lambda>d i. d OR f i) (d :: 8 word) is = 0 \<longleftrightarrow> d = 0 \<and> (\<forall>i \<in> set is. f i = 0)"
  by (induction "is" arbitrary: d) (auto simp: or_eq_0_iff)

lemma xor_zero: "(a :: 8 word) XOR b = 0 \<longleftrightarrow> a = b"
  by (metis xor.right_neutral xor.left_commute xor_self_eq)

text \<open>The comparison that looks at every byte is equality.\<close>

lemma constant_time_eq_iff: "constant_time_eq a b \<longleftrightarrow> a = b"
  by (auto simp: constant_time_eq_def or_fold_zero xor_zero word_of_char_inject intro: nth_equalityI)

text \<open>The header as a list of pairs: the last \<open>t\<close> counts, and every \<open>v1\<close>.\<close>

definition header_time :: "string \<Rightarrow> int option" where
  "header_time h = (case filter (\<lambda>kv. fst kv = ''t'') (map key_value (split_on (CHR '','') h)) of
     [] \<Rightarrow> None | ts \<Rightarrow> parse_i64 (snd (last ts)))"

definition header_sigs :: "string \<Rightarrow> string set" where
  "header_sigs h = {v. (''v1'', v) \<in> set (map key_value (split_on (CHR '','') h))}"

lemma header_fold:
  "fst (foldl header_step (t, vs) parts) =
     (case filter (\<lambda>kv. fst kv = ''t'') (map key_value parts) of [] \<Rightarrow> t | ts \<Rightarrow> parse_i64 (snd (last ts))) \<and>
   set (snd (foldl header_step (t, vs) parts)) = set vs \<union> {v. (''v1'', v) \<in> set (map key_value parts)}"
proof (induction parts arbitrary: t vs)
  case Nil
  show ?case by simp
next
  case (Cons part parts)
  obtain k v where kv: "key_value part = (k, v)" by (cases "key_value part")
  have "header_step (t, vs) part = (if k = ''t'' then parse_i64 v else t, if k = ''v1'' then vs @ [v] else vs)"
    by (simp add: header_step_def kv)
  with Cons.IH show ?case by (auto simp: kv split: list.split)
qed

text \<open>
  A message of Stripe is accepted exactly when the time in its header differs from the clock by at most the
  tolerance, in 64-bit arithmetic, and one of the signatures in the header is the HMAC of the time, a dot and
  the payload; the comparison in constant time is an equality.
\<close>

theorem stripe_signature_exact:
  "stripe_verify_signature hmac payload header secret tol now = Inr () \<longleftrightarrow>
     (\<exists>t. header_time header = Some t \<and> abs_i64 (wrap_i64 (now - t)) \<le> tol \<and>
        hmac secret (show_int t @ ''.'' @ payload) \<in> header_sigs header)"
proof -
  obtain ts v1 where fold: "foldl header_step (None, []) (split_on (CHR '','') header) = (ts, v1)"
    by (cases "foldl header_step (None, []) (split_on (CHR '','') header)")
  from header_fold [of None "[]" "split_on (CHR '','') header"] fold
  have h: "header_time header = ts" "header_sigs header = set v1"
    by (simp_all add: header_time_def header_sigs_def split: list.split)
  show ?thesis
    by (cases ts) (auto simp: stripe_verify_signature_def fold h constant_time_eq_iff Let_def list_ex_iff)
qed

text \<open>In 64-bit arithmetic a difference of less than 2^63 seconds is compared exactly.\<close>

lemma abs_i64_exact: "- 9223372036854775808 < d \<Longrightarrow> d < 9223372036854775808 \<Longrightarrow> abs_i64 (wrap_i64 d) = \<bar>d\<bar>"
  by (simp add: abs_i64_def in_i64_def)

subsection \<open>The notifications of Apple\<close>

text \<open>
  An accepted notification is signed by the key of its first certificate, and its last certificate is Apple's
  root or signed by it. With a chain of two certificates the second, when it can be parsed, signed the first.
\<close>

lemma as_array_Some [simp]: "as_array v = Some xs \<longleftrightarrow> v = JArray xs"
  by (cases v) auto

lemma apple_accepted:
  assumes "apple_decode_jws_payload c jws = Inr payload"
  obtains h p s hb header pb sig x5c leaf_b64 leaf_der leaf last_b64 last_der where
    "split_on (CHR ''.'') jws = [h, p, s]" "b64_url c h = Some hb" "json_of c hb = Some header"
    "b64_url c p = Some pb" "json_of c pb = Some payload" "b64_url c s = Some sig"
    "jget header ''x5c'' = Some (JArray x5c)" "2 \<le> length x5c"
    "as_str (x5c ! 0) = Some leaf_b64" "b64_url c leaf_b64 = Some leaf_der" "parse_cert c leaf_der = Some leaf"
    "jws_verified c (unwrap_or ''ES256'' (get_str header ''alg'')) (spki c leaf) (h @ ''.'' @ p) sig"
    "chain_ok c x5c leaf_der" "as_str (last x5c) = Some last_b64" "b64_url c last_b64 = Some last_der"
    "ensure_chain_roots_at_apple_root c last_der = Inr ()"
proof -
  from assms have "length (split_on (CHR ''.'') jws) = 3"
    by (simp add: apple_decode_jws_payload_def Let_def split: if_splits)
  then obtain h p s where parts: "split_on (CHR ''.'') jws = [h, p, s]"
    by (auto simp: length_Suc_conv numeral_3_eq_3)
  show thesis
    using assms unfolding apple_decode_jws_payload_def Let_def
    by (clarsimp simp: parts result_simps bind_eq_Some_conv split: if_splits) (rule that [OF parts]; (assumption | simp))
qed

text \<open>
  Nothing ties the first certificates to the last one: with three entries in the chain, a second one that is no
  string skips the check of the chain, so that anyone's certificate followed by anything and by Apple's public
  root makes a notification with any content pass.
\<close>

theorem apple_chain_unbound:
  assumes "b64_url c [] = Some []" and "parse_cert c [] = None"
    and "split_on (CHR ''.'') jws = [h, p, s]" and "Option.bind (b64_url c h) (json_of c) = Some header"
    and "Option.bind (b64_url c p) (json_of c) = Some payload" and "b64_url c s = Some sig"
    and "jget header ''x5c'' = Some (JArray [JString leaf_text, JNull, JString root_text])"
    and "b64_url c leaf_text = Some leaf_der" and "parse_cert c leaf_der = Some leaf"
    and "jws_verified c (unwrap_or ''ES256'' (get_str header ''alg'')) (spki c leaf) (h @ ''.'' @ p) sig"
    and "map_option Inr (b64_url c root_text) = Some (decode_apple_root_ca c)"
  shows "apple_decode_jws_payload c jws = Inr payload"
proof -
  from assms(11) obtain root where root: "b64_url c root_text = Some root" "decode_apple_root_ca c = Inr root" by auto
  have "chain_ok c [JString leaf_text, JNull, JString root_text] leaf_der"
    by (simp add: chain_ok_def chain_der_def assms(1,2) root)
  moreover from assms(4) obtain hb where "b64_url c h = Some hb" "json_of c hb = Some header"
    by (auto simp: bind_eq_Some_conv)
  moreover from assms(5) obtain pb where "b64_url c p = Some pb" "json_of c pb = Some payload"
    by (auto simp: bind_eq_Some_conv)
  ultimately show ?thesis using assms root
    by (simp add: apple_decode_jws_payload_def ensure_chain_roots_at_apple_root_def)
qed

subsection \<open>The URL of Google\<close>

text \<open>A decoder of percent-encoding, as a server has one.\<close>

definition hex_val :: "char \<Rightarrow> nat" where
  "hex_val ch = (if is_ascii_digit ch then of_char ch - 48 else of_char ch - 55)"

fun url_decode :: "string \<Rightarrow> string" where
  "url_decode (ch # a # b # rest) =
     (if ch = CHR ''%'' then char_of (16 * hex_val a + hex_val b) # url_decode rest else ch # url_decode (a # b # rest))"
| "url_decode (ch # rest) = ch # url_decode rest"
| "url_decode [] = []"

lemma hex_val_digit: "n < 16 \<Longrightarrow> hex_val (hex_digit n) = n"
  by (auto simp: hex_val_def hex_digit_def is_ascii_digit_def numeral_eq_Suc less_Suc_eq)

lemma url_decode_plain: "ch \<noteq> CHR ''%'' \<Longrightarrow> url_decode (ch # s) = ch # url_decode s"
  by (cases s rule: url_decode.cases) auto

lemma hex_digit_safe: "n < 16 \<Longrightarrow> unreserved (hex_digit n)"
  by (auto simp: hex_digit_def unreserved_def is_ascii_alphanumeric_def is_ascii_digit_def is_ascii_alphabetic_def
      is_ascii_upper_def is_ascii_lower_def numeral_eq_Suc less_Suc_eq)

lemma percent_reserved: "\<not> unreserved (CHR ''%'')"
  by (simp add: unreserved_def is_ascii_alphanumeric_def is_ascii_digit_def is_ascii_alphabetic_def
      is_ascii_upper_def is_ascii_lower_def)

lemma byte_halves: "(of_char b :: nat) div 16 < 16" "(of_char b :: nat) mod 16 < 16"
  using nat_of_char_less_256 [of b] by (simp_all add: div_less_iff_less_mult del: nat_of_char_less_256)

text \<open>
  The percent-encoding is undone by decoding, and its characters are the unreserved ones and the percent sign, so that no
  part of the URL can end a segment or begin a query.
\<close>

theorem url_encoding_round_trip:
  "url_decode (urlencoded s) = s \<and> list_all (\<lambda>ch. unreserved ch \<or> ch = CHR ''%'') (urlencoded s)"
proof (induction s)
  case Nil
  show ?case by (simp add: urlencoded_def)
next
  case (Cons b s)
  have enc: "urlencoded (b # s) = (if unreserved b then [b] else [CHR ''%'', hex_digit ((of_char b :: nat) div 16),
      hex_digit ((of_char b :: nat) mod 16)]) @ urlencoded s" by (simp add: urlencoded_def)
  show ?case
  proof (cases "unreserved b")
    case True
    with percent_reserved have "b \<noteq> CHR ''%''" by auto
    with True Cons show ?thesis by (simp add: enc url_decode_plain)
  next
    case False
    with Cons byte_halves [of b] show ?thesis by (simp add: enc hex_val_digit hex_digit_safe)
  qed
qed

subsection \<open>The weights\<close>

lemma wrap_i32_cases:
  "wrap_i32 i = (if i mod 4294967296 < 2147483648 then i mod 4294967296 else i mod 4294967296 - 4294967296)"
proof -
  define m where "m = i mod 4294967296"
  have m: "0 \<le> m" "m < 4294967296" by (simp_all add: m_def)
  have "(i + 2147483648) mod 4294967296 = (m + 2147483648) mod 4294967296"
    by (simp only: m_def mod_add_left_eq)
  also have "\<dots> = (if m < 2147483648 then m + 2147483648 else m - 2147483648)"
  proof (cases "m < 2147483648")
    case False
    have "(m + 2147483648) mod 4294967296 = (m - 2147483648 + 4294967296) mod 4294967296"
      by (rule arg_cong [where f = "\<lambda>x. x mod 4294967296"]) simp
    also have "\<dots> = m - 2147483648" using False m by (simp only: mod_add_self2) simp
    finally show ?thesis using False by simp
  qed (use m in simp)
  finally show ?thesis by (simp add: wrap_i32_def m_def)
qed

lemma wrap_i32_add: "wrap_i32 (wrap_i32 a + b) = wrap_i32 (a + b)"
  by (simp add: wrap_i32_def) presburger

lemma sum_i32_wraps: "sum_i32 xs = wrap_i32 (sum_list xs)"
proof -
  have "foldl (\<lambda>acc x. wrap_i32 (acc + x)) (wrap_i32 a) xs = wrap_i32 (a + sum_list xs)" for a
    by (induction xs arbitrary: a) (simp_all add: wrap_i32_add add.assoc)
  from this [of 0] show ?thesis by (simp add: sum_i32_def)
qed

text \<open>
  Accepted weights add up to 100 modulo 2^32, with one control; the weights may be negative.
\<close>

lemma accepted_weights:
  "validate_traffic_weights vs = Inr () \<longleftrightarrow>
     vs \<noteq> [] \<and> weights vs mod 4294967296 = 100 \<and> length (filter is_control vs) = 1"
proof -
  have "wrap_i32 i = 100 \<longleftrightarrow> i mod 4294967296 = 100" for i by (simp add: wrap_i32_cases) presburger
  then show ?thesis by (simp add: validate_traffic_weights_def sum_i32_wraps weights_def)
qed

subsection \<open>The audiences\<close>

lemma decode_rules: "decode_array decode_rule rules = Some rs \<Longrightarrow> rules = JArray xs \<Longrightarrow>
    length rs = length xs \<and> (\<forall>i < length xs. decode_rule (xs ! i) = Some (rs ! i))"
proof -
  have "all_some (map f xs) = Some rs \<Longrightarrow> length rs = length xs \<and> (\<forall>i < length xs. f (xs ! i) = Some (rs ! i))"
    for f :: "json \<Rightarrow> rule option"
    by (induction xs arbitrary: rs) (auto simp: nth_Cons split: option.splits nat.splits)
  then show "decode_array decode_rule rules = Some rs \<Longrightarrow> rules = JArray xs \<Longrightarrow> ?thesis"
    by (simp add: decode_array_def)
qed

definition known_ops :: "string set" where
  "known_ops = {''exists'', ''eq'', ''neq'', ''gt'', ''gte'', ''lt'', ''lte'', ''in'', ''not_in''}"

text \<open>
  Whoever takes part satisfies every rule of the list; a rule that cannot be read, one with an unknown operator
  and one about a value the customer has not keeps everyone out.
\<close>

lemma eligible_rules:
  assumes "is_eligible e rules ctx"
  shows "\<exists>xs. rules = JArray xs \<and> (\<forall>v \<in> set xs. \<exists>r. decode_rule v = Some r \<and> r_op r \<in> known_ops \<and>
    get_field_value (r_field r) ctx \<noteq> None \<and> eval_rule e r ctx)"
proof -
  from assms obtain rs where rs: "decode_array decode_rule rules = Some rs" "\<forall>r \<in> set rs. eval_rule e r ctx"
    by (auto simp: is_eligible_def list_all_iff split: option.splits)
  then obtain xs where xs: "rules = JArray xs" by (auto simp: decode_array_def split: json.splits)
  have ok: "r_op r \<in> known_ops \<and> get_field_value (r_field r) ctx \<noteq> None" if "eval_rule e r ctx" for r
  proof -
    have ex: "field_exists f ctx \<Longrightarrow> get_field_value f ctx \<noteq> None" for f
      by (auto simp: field_exists_def get_field_value_def strip_prefix_def starts_with_def split: option.splits if_splits)
    show ?thesis
    proof (cases "r_op r = ''exists''")
      case True
      with that have "field_exists (r_field r) ctx" by (simp add: eval_rule_def)
      with ex True show ?thesis by (simp add: known_ops_def)
    next
      case False
      with that show ?thesis
        by (auto simp: eval_rule_def known_ops_def Let_def split: option.splits if_splits)
    qed
  qed
  from decode_rules [OF rs(1) xs] rs(2) ok xs show ?thesis
    by (metis in_set_conv_nth nth_mem)
qed

text \<open>
  But a negated rule without its value, or with one that is no list, holds for everyone who has the field.
\<close>

lemma negated_rules_pass:
  assumes "get_field_value f ctx = Some a"
  shows "is_eligible e (JArray [JObject [(''field'', JString f), (''op'', JString ''neq'')]]) ctx"
    and "as_array v = None \<Longrightarrow>
      is_eligible e (JArray [JObject [(''field'', JString f), (''op'', JString ''not_in''), (''value'', v)]]) ctx"
  using assms by (auto simp: is_eligible_def decode_array_def eval_rule_def in_array_def opt_value_def split: option.splits)

lemma version_order: "compare_semverish l r = Equal \<longleftrightarrow> version_parts l = version_parts r"
proof -
  have "compare_lists compare_ord xs ys = Equal \<longleftrightarrow> xs = ys" for xs ys :: "nat list"
    by (induction "compare_ord :: nat \<Rightarrow> nat \<Rightarrow> ordering" xs ys rule: compare_lists.induct)
      (auto simp: compare_ord_def split: ordering.splits)
  then show ?thesis by (simp add: compare_semverish_def)
qed

subsection \<open>The events of Stripe\<close>

text \<open>
  A paid invoice is a purchase of an unknown product under the number of the invoice, without an end; and a
  deleted subscription is a purchase that renews, when it was not to end with its period.
\<close>

lemma stripe_events:
  "stripe_event_to_purchase t (JObject [(''data'', JObject [(''object'', JObject [(''id'', JString i)])]),
     (''type'', JString ''invoice.payment_succeeded'')]) =
   Some \<lparr>pu_store = ''stripe'', pu_product = ''stripe_unknown'', pu_transaction = i, pu_original = Some i, pu_at = None,
     pu_expires = None, pu_trial = False, pu_renewal = True, pu_auto_renew = True,
     pu_raw = JObject [(''data'', JObject [(''object'', JObject [(''id'', JString i)])]),
       (''type'', JString ''invoice.payment_succeeded'')]\<rparr>"
  "map_option (\<lambda>p. (pu_product p, pu_auto_renew p)) (stripe_event_to_purchase t
     (JObject [(''data'', JObject [(''object'', JObject [(''id'', JString i)])]), (''type'', JString ''customer.subscription.deleted'')])) =
   Some (''stripe_unknown'', True)"
  by (simp_all add: stripe_event_to_purchase_def jget_def get_str_def get_i64_def get_bool_def STORE_STRIPE_def)

section \<open>Examples\<close>

text \<open>A toy cryptography: base64 is the identity, and every key signs with its own name.\<close>

definition toy_header :: json where
  "toy_header = JObject [(''x5c'', JArray [JString ''mallory'', JNull, JString ''apple''])]"

definition toy_crypto :: "(string, string, string, string) crypto" where
  "toy_crypto = \<lparr>b64_url = Some, b64_std = (\<lambda>_. Some ''apple''),
     json_of = (\<lambda>s. if s = ''h'' then Some toy_header else if s = ''p'' then Some (JString ''forged'') else None),
     parse_cert = (\<lambda>s. if s = [] then None else Some s), spki = id, tbs = id, signature_value = id,
     verify_signature = (\<lambda>_ _. False), sec1_key = Some, der_sig = Some, ecdsa_verify = (\<lambda>k _ sig. sig = k),
     pkcs1_key = (\<lambda>_. None), sha256 = id, rsa_verify = (\<lambda>_ _ _. False)\<rparr>"

theorem apple_chain_unbound_witness:
  "apple_decode_jws_payload toy_crypto ''h.p.mallory'' = Inr (JString ''forged'')"
  by (rule apple_chain_unbound [where h = "''h''" and p = "''p''" and s = "''mallory''" and header = toy_header and
        leaf_text = "''mallory''" and root_text = "''apple''" and leaf_der = "''mallory''" and leaf = "''mallory''" and sig = "''mallory''"])
    (simp_all add: toy_crypto_def toy_header_def jget_def jws_verified_def get_str_def decode_apple_root_ca_def)

end
