(* ===== verification/BillingStore.thy ===== *)
theory BillingStore imports Purchases Plans begin

text \<open>
  The tables of the billing module (\<open>src/src/billing/schema.rs\<close>), its types (\<open>src/src/billing/models.rs\<close>) and
  the operations on them (\<open>src/src/billing/store.rs\<close>), one definition for each, statement by statement. The
  rows are typed, as the code binds and reads them; an instant is a number of microseconds. A table is a list
  of rows in the order of their insertion with the next number of its sequence; a statement that fails uses up
  no number. A violated reference is an error of the statement.
\<close>

section \<open>Tables\<close>

record 'r table =
  t_rows :: "'r list"
  t_seq :: int

definition new_table :: "'r table" where
  "new_table = \<lparr>t_rows = [], t_seq = 1\<rparr>"

definition insert_row :: "(int \<Rightarrow> 'r) \<Rightarrow> 'r table \<Rightarrow> 'r \<times> 'r table" where
  "insert_row mk t = (mk (t_seq t), \<lparr>t_rows = t_rows t @ [mk (t_seq t)], t_seq = t_seq t + 1\<rparr>)"

text \<open>\<open>ON CONFLICT \<dots> DO UPDATE\<close>: the row with the key is updated, or there is a new one.\<close>

definition upsert_row :: "('r \<Rightarrow> 'k) \<Rightarrow> 'k \<Rightarrow> (int \<Rightarrow> 'r) \<Rightarrow> ('r \<Rightarrow> 'r) \<Rightarrow> 'r table \<Rightarrow> 'r \<times> 'r table" where
  "upsert_row key k mk upd t =
     (case find (\<lambda>r. key r = k) (t_rows t) of
        None \<Rightarrow> insert_row mk t
      | Some r \<Rightarrow> (upd r, \<lparr>t_rows = map (\<lambda>x. if key x = k then upd x else x) (t_rows t), t_seq = t_seq t + 1\<rparr>))"

definition update_rows :: "('r \<Rightarrow> bool) \<Rightarrow> ('r \<Rightarrow> 'r) \<Rightarrow> 'r table \<Rightarrow> 'r table" where
  "update_rows hit upd t = t\<lparr>t_rows := map (\<lambda>x. if hit x then upd x else x) (t_rows t)\<rparr>"

definition has_id :: "('r \<Rightarrow> int) \<Rightarrow> int \<Rightarrow> 'r table \<Rightarrow> bool" where
  "has_id idf i t \<longleftrightarrow> list_ex (\<lambda>r. idf r = i) (t_rows t)"

definition fk_error :: stackhouse_error where
  "fk_error = Database ''violates foreign key constraint''"

definition unique_error :: stackhouse_error where
  "unique_error = Database ''duplicate key value violates unique constraint''"

definition no_rows_error :: stackhouse_error where
  "no_rows_error = Database ''no rows returned by a query that expected to return at least one row''"

section \<open>The rows\<close>

record app =
  ap_id :: int
  ap_project :: "int option"
  ap_name :: string
  ap_bundle :: "string option"
  ap_platform :: string
  ap_created :: int

record app_row = app +
  ap_apple :: "string option"
  ap_google :: "string option"
  ap_stripe :: "string option"
  ap_webhook :: "string option"

record offering_row =
  of_id :: int
  of_app_id :: int
  of_identifier :: string
  of_current :: bool
  of_metadata :: json
  of_audience :: "int option"

record package =
  pk_id :: int
  pk_offering_id :: int
  pk_identifier :: string
  pk_product_id :: int
  pk_type :: "string option"

record offering = offering_row +
  of_packages :: "package list"

record customer =
  c_id :: int
  c_app_id :: int
  c_user :: string
  c_aliases :: json
  c_attributes :: json
  c_first_seen :: int
  c_last_seen :: int

record transaction_row =
  tr_id :: int
  tr_subscription :: "int option"
  tr_customer :: int
  tr_product :: "int option"
  tr_store :: string
  tr_transaction :: string
  tr_purchased :: "int option"
  tr_expires :: "int option"
  tr_trial :: bool
  tr_renewal :: bool
  tr_raw :: json

record receipt_row =
  rc_id :: int
  rc_customer :: int
  rc_store :: string
  rc_raw :: string
  rc_validated :: "int option"
  rc_result :: "json option"

record endpoint_row =
  ep_id :: int
  ep_app_id :: int
  ep_url :: string
  ep_secret :: string
  ep_events :: json
  ep_active :: bool

record delivery_row =
  de_id :: int
  de_endpoint :: int
  de_event :: string
  de_payload :: json
  de_status :: string
  de_attempts :: int
  de_next :: int
  de_error :: "string option"
  de_updated :: int

record audience =
  au_id :: int
  au_app_id :: int
  au_identifier :: string
  au_display_name :: "string option"
  au_rules :: json

record experiment_row =
  x_id :: int
  x_app_id :: int
  x_identifier :: string
  x_status :: string
  x_metric :: "string option"
  x_audience :: "int option"
  x_started :: "int option"
  x_ended :: "int option"

record experiment_with_variants =
  xv_experiment :: experiment_row
  xv_variants :: "variant list"

record variant_assignment =
  as_experiment :: int
  as_customer :: int
  as_variant :: int

record trial_event =
  ev_experiment :: int
  ev_variant :: int
  ev_customer :: int
  ev_type :: string
  ev_metadata :: json

record paywall =
  pw_id :: int
  pw_offering :: int
  pw_template :: "string option"
  pw_config :: json
  pw_draft :: "json option"
  pw_published :: bool

record 'f variant_result =
  vr_variant :: int
  vr_identifier :: string
  vr_offering :: int
  vr_control :: bool
  vr_impressions :: int
  vr_conversions :: int
  vr_rate :: 'f
  vr_z_score :: "'f option"

record billing =
  bt_apps :: "app_row table"
  bt_products :: "product table"
  bt_entitlements :: "entitlement table"
  bt_ent_products :: "(int \<times> int) list"
  bt_offerings :: "offering_row table"
  bt_packages :: "package table"
  bt_customers :: "customer table"
  bt_subscriptions :: "subscription table"
  bt_transactions :: "transaction_row table"
  bt_receipts :: "receipt_row table"
  bt_endpoints :: "endpoint_row table"
  bt_deliveries :: "delivery_row table"
  bt_audiences :: "audience table"
  bt_experiments :: "experiment_row table"
  bt_variants :: "variant table"
  bt_assignments :: "variant_assignment list"
  bt_events :: "trial_event list"
  bt_paywalls :: "paywall table"
  bt_plans :: "plan_row list"

text \<open>The migration: every table is empty and its sequence begins with 1. The plans are another module's.\<close>

definition billing_schema :: "plan_row list \<Rightarrow> billing" where
  "billing_schema plans =
     \<lparr>bt_apps = new_table, bt_products = new_table, bt_entitlements = new_table, bt_ent_products = [],
      bt_offerings = new_table, bt_packages = new_table, bt_customers = new_table, bt_subscriptions = new_table,
      bt_transactions = new_table, bt_receipts = new_table, bt_endpoints = new_table, bt_deliveries = new_table,
      bt_audiences = new_table, bt_experiments = new_table, bt_variants = new_table, bt_assignments = [],
      bt_events = [], bt_paywalls = new_table, bt_plans = plans\<rparr>"

type_synonym 'a bill = "(billing, 'a) io"

text \<open>
  The clocks of the program and of the server, and the hash of an experiment and a customer.
\<close>

record store_env =
  be_now :: int
  be_db_now :: int
  be_digest :: "int \<Rightarrow> int \<Rightarrow> nat"

definition timestamp :: "int \<Rightarrow> int" where
  "timestamp t = t div 1000000"

section \<open>Apps\<close>

definition create_app :: "store_env \<Rightarrow> int option \<Rightarrow> string \<Rightarrow> string option \<Rightarrow> string \<Rightarrow> app bill" where
  "create_app e project nm bundle platform = stmt (\<lambda>s.
     case insert_row (\<lambda>i. \<lparr>ap_id = i, ap_project = project, ap_name = nm, ap_bundle = bundle, ap_platform = platform,
         ap_created = be_db_now e, ap_apple = None, ap_google = None, ap_stripe = None, ap_webhook = None\<rparr>) (bt_apps s) of
       (r, t) \<Rightarrow> Inr (app.truncate r, s\<lparr>bt_apps := t\<rparr>))"

definition list_apps :: "app list bill" where
  "list_apps = stmt (\<lambda>s. Inr (map app.truncate (sort_key ap_id (t_rows (bt_apps s))), s))"

definition find_app :: "billing \<Rightarrow> int \<Rightarrow> app_row result" where
  "find_app s app_id = ok_or (NotFound (''billing_app '' @ show_int app_id)) (find (\<lambda>r. ap_id r = app_id) (t_rows (bt_apps s)))"

definition get_app :: "int \<Rightarrow> app bill" where
  "get_app app_id = stmt (\<lambda>s. and_then (find_app s app_id) (\<lambda>r. Inr (app.truncate r, s)))"

definition get_app_secrets :: "int \<Rightarrow> (string option \<times> string option \<times> string option \<times> string option) bill" where
  "get_app_secrets app_id = stmt (\<lambda>s. and_then (find_app s app_id) (\<lambda>r.
     Inr ((ap_apple r, ap_google r, ap_stripe r, ap_webhook r), s)))"

text \<open>SQL's \<open>COALESCE\<close> of two values.\<close>

definition coalesce :: "'a option \<Rightarrow> 'a option \<Rightarrow> 'a option" where
  "coalesce a b = (case a of None \<Rightarrow> b | Some x \<Rightarrow> Some x)"

definition update_app_secrets ::
  "int \<Rightarrow> string option \<Rightarrow> string option \<Rightarrow> string option \<Rightarrow> string option \<Rightarrow> unit bill" where
  "update_app_secrets app_id apple google stripe webhook = exec (\<lambda>s. s\<lparr>bt_apps := update_rows (\<lambda>r. ap_id r = app_id)
     (\<lambda>r. r\<lparr>ap_apple := coalesce apple (ap_apple r), ap_google := coalesce google (ap_google r),
        ap_stripe := coalesce stripe (ap_stripe r), ap_webhook := coalesce webhook (ap_webhook r)\<rparr>) (bt_apps s)\<rparr>)"

section \<open>Products\<close>

definition upsert_product ::
  "int \<Rightarrow> string \<Rightarrow> string \<Rightarrow> string \<Rightarrow> string option \<Rightarrow> int option \<Rightarrow> string option \<Rightarrow> json \<Rightarrow> product bill" where
  "upsert_product app_id sto spid ptype per price cur meta = stmt (\<lambda>s.
     if \<not> has_id ap_id app_id (bt_apps s) then Inl fk_error
     else (case upsert_row (\<lambda>r. (p_app_id r, p_store r, store_product_id r)) (app_id, sto, spid)
         (\<lambda>i. \<lparr>p_id = i, p_app_id = app_id, p_store = sto, store_product_id = spid, product_type = ptype, p_period = per,
            price_micros = price, p_currency = cur, p_metadata = meta\<rparr>)
         (\<lambda>r. r\<lparr>product_type := ptype, p_period := per, price_micros := price, p_currency := cur, p_metadata := meta\<rparr>)
         (bt_products s) of
       (r, t) \<Rightarrow> Inr (r, s\<lparr>bt_products := t\<rparr>)))"

definition find_product :: "int \<Rightarrow> string \<Rightarrow> string \<Rightarrow> product option bill" where
  "find_product app_id sto spid = stmt (\<lambda>s.
     Inr (find (\<lambda>r. p_app_id r = app_id \<and> p_store r = sto \<and> store_product_id r = spid) (t_rows (bt_products s)), s))"

definition list_products :: "int \<Rightarrow> product list bill" where
  "list_products app_id = stmt (\<lambda>s. Inr (sort_key p_id (filter (\<lambda>r. p_app_id r = app_id) (t_rows (bt_products s))), s))"

section \<open>Entitlements\<close>

definition upsert_entitlement :: "int \<Rightarrow> string \<Rightarrow> string option \<Rightarrow> entitlement bill" where
  "upsert_entitlement app_id ident nm = stmt (\<lambda>s.
     if \<not> has_id ap_id app_id (bt_apps s) then Inl fk_error
     else (case upsert_row (\<lambda>r. (e_app_id r, e_identifier r)) (app_id, ident)
         (\<lambda>i. \<lparr>e_id = i, e_app_id = app_id, e_identifier = ident, e_display_name = nm\<rparr>)
         (\<lambda>r. r\<lparr>e_display_name := coalesce nm (e_display_name r)\<rparr>) (bt_entitlements s) of
       (r, t) \<Rightarrow> Inr (r, s\<lparr>bt_entitlements := t\<rparr>)))"

definition list_entitlements :: "int \<Rightarrow> entitlement list bill" where
  "list_entitlements app_id = stmt (\<lambda>s. Inr (sort_key e_id (filter (\<lambda>r. e_app_id r = app_id) (t_rows (bt_entitlements s))), s))"

definition attach_product_to_entitlement :: "int \<Rightarrow> int \<Rightarrow> unit bill" where
  "attach_product_to_entitlement eid pid = stmt (\<lambda>s.
     if (eid, pid) \<in> set (bt_ent_products s) then Inr ((), s)
     else if has_id e_id eid (bt_entitlements s) \<and> has_id p_id pid (bt_products s)
     then Inr ((), s\<lparr>bt_ent_products := bt_ent_products s @ [(eid, pid)]\<rparr>)
     else Inl fk_error)"

text \<open>The rows of the join, each added to the entitlement with its number.\<close>

fun push_product :: "(entitlement \<times> int list) list \<Rightarrow> int \<times> int \<Rightarrow> (entitlement \<times> int list) list" where
  "push_product [] _ = []"
| "push_product ((ent, pids) # out) (eid, pid) =
     (if e_id ent = eid then (ent, pids @ [pid]) # out else (ent, pids) # push_product out (eid, pid))"

definition entitlement_product_map :: "int \<Rightarrow> (entitlement \<times> int list) list bill" where
  "entitlement_product_map app_id =
     bind_io (list_entitlements app_id) (\<lambda>ents.
     bind_io (stmt (\<lambda>s. Inr (filter (\<lambda>(eid, pid). list_ex (\<lambda>r. e_id r = eid \<and> e_app_id r = app_id) (t_rows (bt_entitlements s)))
        (bt_ent_products s), s))) (\<lambda>pairs.
     ret (foldl push_product (map (\<lambda>ent. (ent, [])) ents) pairs)))"

section \<open>Offerings and packages\<close>

definition with_packages :: "offering_row \<Rightarrow> package list \<Rightarrow> offering" where
  "with_packages r ps = \<lparr>of_id = of_id r, of_app_id = of_app_id r, of_identifier = of_identifier r,
     of_current = of_current r, of_metadata = of_metadata r, of_audience = of_audience r, of_packages = ps\<rparr>"

text \<open>The two statements of \<open>upsert_offering\<close>; no transaction holds them together.\<close>

definition clear_current :: "int \<Rightarrow> unit bill" where
  "clear_current app_id =
     exec (\<lambda>s. s\<lparr>bt_offerings := update_rows (\<lambda>r. of_app_id r = app_id) (\<lambda>r. r\<lparr>of_current := False\<rparr>) (bt_offerings s)\<rparr>)"

definition put_offering :: "int \<Rightarrow> string \<Rightarrow> bool \<Rightarrow> json \<Rightarrow> offering_row bill" where
  "put_offering app_id ident current meta = stmt (\<lambda>s.
     if \<not> has_id ap_id app_id (bt_apps s) then Inl fk_error
     else (case upsert_row (\<lambda>r. (of_app_id r, of_identifier r)) (app_id, ident)
         (\<lambda>i. \<lparr>of_id = i, of_app_id = app_id, of_identifier = ident, of_current = current, of_metadata = meta, of_audience = None\<rparr>)
         (\<lambda>r. r\<lparr>of_current := current, of_metadata := meta\<rparr>) (bt_offerings s) of
       (r, t) \<Rightarrow> Inr (r, s\<lparr>bt_offerings := t\<rparr>)))"

definition upsert_offering :: "int \<Rightarrow> string \<Rightarrow> bool \<Rightarrow> json \<Rightarrow> offering bill" where
  "upsert_offering app_id ident current meta =
     bind_io (if current then clear_current app_id else ret ()) (\<lambda>_.
     bind_io (put_offering app_id ident current meta) (\<lambda>r.
     ret (with_packages (r\<lparr>of_audience := None\<rparr>) [])))"

definition add_package :: "int \<Rightarrow> string \<Rightarrow> int \<Rightarrow> string option \<Rightarrow> package bill" where
  "add_package oid ident pid ty = stmt (\<lambda>s.
     if \<not> has_id of_id oid (bt_offerings s) \<or> \<not> has_id p_id pid (bt_products s) then Inl fk_error
     else (case upsert_row (\<lambda>r. (pk_offering_id r, pk_identifier r)) (oid, ident)
         (\<lambda>i. \<lparr>pk_id = i, pk_offering_id = oid, pk_identifier = ident, pk_product_id = pid, pk_type = ty\<rparr>)
         (\<lambda>r. r\<lparr>pk_product_id := pid, pk_type := ty\<rparr>) (bt_packages s) of
       (r, t) \<Rightarrow> Inr (r, s\<lparr>bt_packages := t\<rparr>)))"

text \<open>The packages of some offerings: no statement is sent for no offering.\<close>

definition packages_for_offering_ids :: "int list \<Rightarrow> (int \<Rightarrow> package list) bill" where
  "packages_for_offering_ids ids =
     (if ids = [] then ret (\<lambda>_. [])
      else stmt (\<lambda>s. Inr (\<lambda>oid. filter (\<lambda>p. pk_offering_id p = oid)
        (sort_key pk_id (filter (\<lambda>p. pk_offering_id p \<in> set ids) (t_rows (bt_packages s)))), s)))"

definition list_offerings :: "int \<Rightarrow> offering list bill" where
  "list_offerings app_id =
     bind_io (stmt (\<lambda>s. Inr (sort_key of_id (filter (\<lambda>r. of_app_id r = app_id) (t_rows (bt_offerings s))), s))) (\<lambda>offs.
     bind_io (packages_for_offering_ids (map of_id offs)) (\<lambda>ps.
     ret (map (\<lambda>r. with_packages r (ps (of_id r))) offs)))"

definition with_its_packages :: "offering_row \<Rightarrow> offering bill" where
  "with_its_packages r = bind_io (packages_for_offering_ids [of_id r]) (\<lambda>ps. ret (with_packages r (ps (of_id r))))"

definition get_offering_by_id :: "int \<Rightarrow> offering bill" where
  "get_offering_by_id oid =
     bind_io (stmt (\<lambda>s. and_then (ok_or (NotFound (''offering '' @ show_int oid))
        (find (\<lambda>r. of_id r = oid) (t_rows (bt_offerings s)))) (\<lambda>r. Inr (r, s)))) with_its_packages"

definition get_current_offering :: "int \<Rightarrow> offering option bill" where
  "get_current_offering app_id =
     bind_io (stmt (\<lambda>s. Inr (find (\<lambda>r. of_app_id r = app_id \<and> of_current r) (t_rows (bt_offerings s)), s))) (\<lambda>found.
       case found of None \<Rightarrow> ret None | Some r \<Rightarrow> bind_io (with_its_packages r) (\<lambda>o'. ret (Some o')))"

section \<open>Customers\<close>

definition get_or_create_customer :: "store_env \<Rightarrow> int \<Rightarrow> string \<Rightarrow> customer bill" where
  "get_or_create_customer e app_id user = stmt (\<lambda>s.
     if \<not> has_id ap_id app_id (bt_apps s) then Inl fk_error
     else (case upsert_row (\<lambda>r. (c_app_id r, c_user r)) (app_id, user)
         (\<lambda>i. \<lparr>c_id = i, c_app_id = app_id, c_user = user, c_aliases = JArray [], c_attributes = JObject [],
            c_first_seen = be_db_now e, c_last_seen = be_db_now e\<rparr>)
         (\<lambda>r. r\<lparr>c_last_seen := be_db_now e\<rparr>) (bt_customers s) of
       (r, t) \<Rightarrow> Inr (r, s\<lparr>bt_customers := t\<rparr>)))"

text \<open>PostgreSQL's \<open>||\<close> on jsonb: objects are merged, everything else is concatenated as arrays.\<close>

fun elements :: "json \<Rightarrow> json list" where
  "elements (JArray xs) = xs"
| "elements v = [v]"

fun jsonb_concat :: "json \<Rightarrow> json \<Rightarrow> json" where
  "jsonb_concat (JObject a) (JObject b) = JObject (fold (\<lambda>(k, v). obj_put k v) b a)"
| "jsonb_concat a b = JArray (elements a @ elements b)"

text \<open>\<open>a @> to_jsonb(text)\<close>.\<close>

definition jsonb_has_text :: "json \<Rightarrow> string \<Rightarrow> bool" where
  "jsonb_has_text v t \<longleftrightarrow> list_ex (\<lambda>x. x = JString t) (elements v)"

definition set_attributes :: "store_env \<Rightarrow> int \<Rightarrow> json \<Rightarrow> unit bill" where
  "set_attributes e cid attrs = exec (\<lambda>s. s\<lparr>bt_customers := update_rows (\<lambda>r. c_id r = cid)
     (\<lambda>r. r\<lparr>c_attributes := jsonb_concat (c_attributes r) attrs, c_last_seen := be_db_now e\<rparr>) (bt_customers s)\<rparr>)"

definition add_alias :: "int \<Rightarrow> string \<Rightarrow> unit bill" where
  "add_alias cid alias = exec (\<lambda>s. s\<lparr>bt_customers := update_rows (\<lambda>r. c_id r = cid)
     (\<lambda>r. r\<lparr>c_aliases := (if jsonb_has_text (c_aliases r) alias then c_aliases r
        else jsonb_concat (c_aliases r) (JString alias))\<rparr>) (bt_customers s)\<rparr>)"

section \<open>Subscriptions and transactions\<close>

definition sub_key :: "subscription \<Rightarrow> int \<times> string \<times> string option" where
  "sub_key r = (s_customer_id r, s_store r, original_transaction_id r)"

definition purchase_otid :: "purchase \<Rightarrow> string" where
  "purchase_otid p = (case pu_original p of Some o' \<Rightarrow> o' | None \<Rightarrow> pu_transaction p)"

definition purchase_status :: "store_env \<Rightarrow> purchase \<Rightarrow> string" where
  "purchase_status e p = (if (case pu_expires p of None \<Rightarrow> True | Some t \<Rightarrow> t > be_now e) then ''active'' else ''expired'')"

definition apply_purchase :: "store_env \<Rightarrow> int option \<Rightarrow> purchase \<Rightarrow> subscription \<Rightarrow> subscription" where
  "apply_purchase e pid p r = r\<lparr>s_product_id := coalesce pid (s_product_id r),
     current_period_start := coalesce (pu_at p) (current_period_start r),
     current_period_end := coalesce (pu_expires p) (current_period_end r),
     s_status := purchase_status e p, auto_renew := pu_auto_renew p, is_trial := pu_trial p, s_updated_at := be_db_now e\<rparr>"

definition new_subscription :: "store_env \<Rightarrow> int \<Rightarrow> int option \<Rightarrow> purchase \<Rightarrow> int \<Rightarrow> subscription" where
  "new_subscription e cid pid p i =
     \<lparr>s_id = i, s_customer_id = cid, s_product_id = pid, s_store = pu_store p,
      original_transaction_id = Some (purchase_otid p), current_period_start = pu_at p, current_period_end = pu_expires p,
      s_status = purchase_status e p, auto_renew = pu_auto_renew p, unsubscribe_detected_at = None,
      billing_issues_detected_at = None, grace_period_expires_at = None, is_trial = pu_trial p, s_updated_at = be_db_now e\<rparr>"

definition references_ok :: "int \<Rightarrow> int option \<Rightarrow> billing \<Rightarrow> bool" where
  "references_ok cid pid s \<longleftrightarrow> has_id c_id cid (bt_customers s) \<and> (case pid of None \<Rightarrow> True | Some i \<Rightarrow> has_id p_id i (bt_products s))"

text \<open>The statement that updates the subscription found, or the one that inserts a new one.\<close>

definition write_subscription ::
  "store_env \<Rightarrow> int \<Rightarrow> int option \<Rightarrow> purchase \<Rightarrow> int option \<Rightarrow> subscription bill" where
  "write_subscription e cid pid p existing = stmt (\<lambda>s.
     case existing of
       Some i \<Rightarrow>
         (case find (\<lambda>r. s_id r = i) (t_rows (bt_subscriptions s)) of
            None \<Rightarrow> Inl no_rows_error
          | Some r \<Rightarrow>
              if (case pid of None \<Rightarrow> False | Some q \<Rightarrow> \<not> has_id p_id q (bt_products s)) then Inl fk_error
              else Inr (apply_purchase e pid p r,
                s\<lparr>bt_subscriptions := update_rows (\<lambda>x. s_id x = i) (apply_purchase e pid p) (bt_subscriptions s)\<rparr>))
     | None \<Rightarrow>
         if list_ex (\<lambda>r. sub_key r = (cid, pu_store p, Some (purchase_otid p))) (t_rows (bt_subscriptions s)) then Inl unique_error
         else if \<not> references_ok cid pid s then Inl fk_error
         else (case insert_row (new_subscription e cid pid p) (bt_subscriptions s) of
           (r, t) \<Rightarrow> Inr (r, s\<lparr>bt_subscriptions := t\<rparr>)))"

definition record_transaction :: "int \<Rightarrow> int \<Rightarrow> int option \<Rightarrow> purchase \<Rightarrow> unit bill" where
  "record_transaction sid cid pid p = stmt (\<lambda>s.
     if list_ex (\<lambda>r. tr_store r = pu_store p \<and> tr_transaction r = pu_transaction p) (t_rows (bt_transactions s))
     then Inr ((), s\<lparr>bt_transactions := (bt_transactions s)\<lparr>t_seq := t_seq (bt_transactions s) + 1\<rparr>\<rparr>)
     else if \<not> references_ok cid pid s \<or> \<not> has_id s_id sid (bt_subscriptions s) then Inl fk_error
     else Inr ((), s\<lparr>bt_transactions := snd (insert_row (\<lambda>i. \<lparr>tr_id = i, tr_subscription = Some sid, tr_customer = cid,
        tr_product = pid, tr_store = pu_store p, tr_transaction = pu_transaction p, tr_purchased = pu_at p,
        tr_expires = pu_expires p, tr_trial = pu_trial p, tr_renewal = pu_renewal p, tr_raw = pu_raw p\<rparr>) (bt_transactions s))\<rparr>))"

definition find_subscription :: "int \<Rightarrow> purchase \<Rightarrow> int option bill" where
  "find_subscription cid p = stmt (\<lambda>s. Inr (map_option s_id (find (\<lambda>r. sub_key r = (cid, pu_store p, Some (purchase_otid p)))
     (t_rows (bt_subscriptions s))), s))"

definition upsert_subscription_from_purchase ::
  "store_env \<Rightarrow> int \<Rightarrow> int option \<Rightarrow> purchase \<Rightarrow> (subscription \<times> bool) bill" where
  "upsert_subscription_from_purchase e cid pid p =
     bind_io (find_subscription cid p) (\<lambda>existing.
     bind_io (write_subscription e cid pid p existing) (\<lambda>sub.
     bind_io (record_transaction (s_id sub) cid pid p) (\<lambda>_.
     ret (sub, existing = None))))"

definition list_subscriptions :: "int \<Rightarrow> subscription list bill" where
  "list_subscriptions cid = stmt (\<lambda>s. Inr (sort_key s_id (filter (\<lambda>r. s_customer_id r = cid) (t_rows (bt_subscriptions s))), s))"

definition mark_subscription_cancelled :: "store_env \<Rightarrow> int \<Rightarrow> string \<Rightarrow> string \<Rightarrow> unit bill" where
  "mark_subscription_cancelled e cid sto otid = exec (\<lambda>s. s\<lparr>bt_subscriptions :=
     update_rows (\<lambda>r. sub_key r = (cid, sto, Some otid))
       (\<lambda>r. r\<lparr>auto_renew := False, unsubscribe_detected_at := Some (be_db_now e), s_updated_at := be_db_now e\<rparr>)
       (bt_subscriptions s)\<rparr>)"

definition record_receipt :: "store_env \<Rightarrow> int \<Rightarrow> string \<Rightarrow> string \<Rightarrow> json option \<Rightarrow> int bill" where
  "record_receipt e cid sto raw res = stmt (\<lambda>s.
     if \<not> has_id c_id cid (bt_customers s) then Inl fk_error
     else (case insert_row (\<lambda>i. \<lparr>rc_id = i, rc_customer = cid, rc_store = sto, rc_raw = raw,
         rc_validated = (if res = None then None else Some (be_db_now e)), rc_result = res\<rparr>) (bt_receipts s) of
       (r, t) \<Rightarrow> Inr (rc_id r, s\<lparr>bt_receipts := t\<rparr>)))"

definition resolve_entitlements :: "int \<Rightarrow> int \<Rightarrow> int \<Rightarrow> entitlement_info list bill" where
  "resolve_entitlements app_id cid now =
     bind_io (list_subscriptions cid) (\<lambda>subs.
     bind_io (entitlement_product_map app_id) (\<lambda>ents.
     bind_io (list_products app_id) (\<lambda>products.
     ret (resolve ents subs products now))))"

section \<open>Webhook endpoints, promotions and plans\<close>

definition add_webhook_endpoint :: "int \<Rightarrow> string \<Rightarrow> string \<Rightarrow> json \<Rightarrow> int bill" where
  "add_webhook_endpoint app_id url secret evs = stmt (\<lambda>s.
     if \<not> has_id ap_id app_id (bt_apps s) then Inl fk_error
     else (case insert_row (\<lambda>i. \<lparr>ep_id = i, ep_app_id = app_id, ep_url = url, ep_secret = secret, ep_events = evs,
         ep_active = True\<rparr>) (bt_endpoints s) of
       (r, t) \<Rightarrow> Inr (ep_id r, s\<lparr>bt_endpoints := t\<rparr>)))"

definition list_webhook_endpoints :: "int \<Rightarrow> endpoint_row list bill" where
  "list_webhook_endpoints app_id = stmt (\<lambda>s. Inr (filter (\<lambda>r. ep_app_id r = app_id \<and> ep_active r) (t_rows (bt_endpoints s)), s))"

definition promo_otid :: "int \<Rightarrow> int \<Rightarrow> int \<Rightarrow> string" where
  "promo_otid cid pid expires = ''promo_'' @ show_int cid @ ''_'' @ show_int pid @ ''_'' @ show_int (timestamp expires)"

definition grant_promotional :: "store_env \<Rightarrow> int \<Rightarrow> int \<Rightarrow> int \<Rightarrow> subscription bill" where
  "grant_promotional e cid pid expires = stmt (\<lambda>s.
     if \<not> references_ok cid (Some pid) s then Inl fk_error
     else (case upsert_row sub_key (cid, ''promotional'', Some (promo_otid cid pid expires))
         (\<lambda>i. \<lparr>s_id = i, s_customer_id = cid, s_product_id = Some pid, s_store = ''promotional'',
            original_transaction_id = Some (promo_otid cid pid expires), current_period_start = Some (be_db_now e),
            current_period_end = Some expires, s_status = ''active'', auto_renew = False, unsubscribe_detected_at = None,
            billing_issues_detected_at = None, grace_period_expires_at = None, is_trial = False, s_updated_at = be_db_now e\<rparr>)
         (\<lambda>r. r\<lparr>current_period_end := Some expires, s_status := ''active'', s_updated_at := be_db_now e\<rparr>)
         (bt_subscriptions s) of
       (r, t) \<Rightarrow> Inr (r, s\<lparr>bt_subscriptions := t\<rparr>)))"

definition enqueue_delivery :: "store_env \<Rightarrow> int \<Rightarrow> string \<Rightarrow> json \<Rightarrow> unit bill" where
  "enqueue_delivery e eid event payload = stmt (\<lambda>s.
     if \<not> has_id ep_id eid (bt_endpoints s) then Inl fk_error
     else Inr ((), s\<lparr>bt_deliveries := snd (insert_row (\<lambda>i. \<lparr>de_id = i, de_endpoint = eid, de_event = event, de_payload = payload,
        de_status = ''pending'', de_attempts = 0, de_next = be_db_now e, de_error = None, de_updated = be_db_now e\<rparr>)
        (bt_deliveries s))\<rparr>))"

definition plan_json :: "plan_row \<Rightarrow> json" where
  "plan_json r = JObject (obj_of
     [(''id'', JString (pr_id r)), (''name'', JString (pr_name r)), (''tier'', JString (pr_tier r)),
      (''description'', JString (pr_description r)), (''base_price_cents'', json_int (pr_price r)),
      (''billing_interval'', JString (pr_interval r)), (''features'', pr_features r), (''limits'', pr_limits r)])"

definition query_plans :: "json list bill" where
  "query_plans = stmt (\<lambda>s. Inr (map plan_json (sort_key pr_price (filter pr_active (bt_plans s))), s))"

section \<open>Audiences\<close>

definition upsert_audience :: "int \<Rightarrow> string \<Rightarrow> string option \<Rightarrow> json \<Rightarrow> audience bill" where
  "upsert_audience app_id ident nm rules = stmt (\<lambda>s.
     if \<not> has_id ap_id app_id (bt_apps s) then Inl fk_error
     else (case upsert_row (\<lambda>r. (au_app_id r, au_identifier r)) (app_id, ident)
         (\<lambda>i. \<lparr>au_id = i, au_app_id = app_id, au_identifier = ident, au_display_name = nm, au_rules = rules\<rparr>)
         (\<lambda>r. r\<lparr>au_display_name := coalesce nm (au_display_name r), au_rules := rules\<rparr>) (bt_audiences s) of
       (r, t) \<Rightarrow> Inr (r, s\<lparr>bt_audiences := t\<rparr>)))"

definition list_audiences :: "int \<Rightarrow> audience list bill" where
  "list_audiences app_id = stmt (\<lambda>s. Inr (sort_key au_id (filter (\<lambda>r. au_app_id r = app_id) (t_rows (bt_audiences s))), s))"

definition audience_ok :: "int option \<Rightarrow> billing \<Rightarrow> bool" where
  "audience_ok aid s \<longleftrightarrow> (case aid of None \<Rightarrow> True | Some i \<Rightarrow> has_id au_id i (bt_audiences s))"

definition set_offering_audience :: "int \<Rightarrow> int option \<Rightarrow> unit bill" where
  "set_offering_audience oid aid = stmt (\<lambda>s.
     if has_id of_id oid (bt_offerings s) \<and> \<not> audience_ok aid s then Inl fk_error
     else Inr ((), s\<lparr>bt_offerings := update_rows (\<lambda>r. of_id r = oid) (\<lambda>r. r\<lparr>of_audience := aid\<rparr>) (bt_offerings s)\<rparr>))"

section \<open>Experiments\<close>

text \<open>Deleting variants deletes the assignments and the events that refer to them.\<close>

definition delete_variants :: "int \<Rightarrow> billing \<Rightarrow> billing" where
  "delete_variants xid s =
     (let gone = v_id ` set (filter (\<lambda>v. v_experiment_id v = xid) (t_rows (bt_variants s)))
      in s\<lparr>bt_variants := (bt_variants s)\<lparr>t_rows := filter (\<lambda>v. v_experiment_id v \<noteq> xid) (t_rows (bt_variants s))\<rparr>,
           bt_assignments := filter (\<lambda>a. as_variant a \<notin> gone) (bt_assignments s),
           bt_events := filter (\<lambda>v. ev_variant v \<notin> gone) (bt_events s)\<rparr>)"

definition write_experiment :: "int \<Rightarrow> string \<Rightarrow> string option \<Rightarrow> int option \<Rightarrow> experiment_row bill" where
  "write_experiment app_id ident metric aid = stmt (\<lambda>s.
     if \<not> has_id ap_id app_id (bt_apps s) \<or> \<not> audience_ok aid s then Inl fk_error
     else (case upsert_row (\<lambda>r. (x_app_id r, x_identifier r)) (app_id, ident)
         (\<lambda>i. \<lparr>x_id = i, x_app_id = app_id, x_identifier = ident, x_status = ''draft'', x_metric = metric,
            x_audience = aid, x_started = None, x_ended = None\<rparr>)
         (\<lambda>r. r\<lparr>x_metric := metric, x_audience := aid\<rparr>) (bt_experiments s) of
       (r, t) \<Rightarrow> Inr (r, s\<lparr>bt_experiments := t\<rparr>)))"

definition insert_variant :: "int \<Rightarrow> variant \<Rightarrow> variant bill" where
  "insert_variant xid v = stmt (\<lambda>s.
     if list_ex (\<lambda>r. v_experiment_id r = xid \<and> v_identifier r = v_identifier v) (t_rows (bt_variants s)) then Inl unique_error
     else if \<not> has_id x_id xid (bt_experiments s) \<or> \<not> has_id of_id (v_offering_id v) (bt_offerings s) then Inl fk_error
     else (case insert_row (\<lambda>i. v\<lparr>v_id := i, v_experiment_id := xid\<rparr>) (bt_variants s) of
       (r, t) \<Rightarrow> Inr (r, s\<lparr>bt_variants := t\<rparr>)))"

definition upsert_experiment ::
  "int \<Rightarrow> string \<Rightarrow> string option \<Rightarrow> int option \<Rightarrow> variant list \<Rightarrow> experiment_with_variants bill" where
  "upsert_experiment app_id ident metric aid variants =
     bind_io (write_experiment app_id ident metric aid) (\<lambda>x.
     bind_io (exec (delete_variants (x_id x))) (\<lambda>_.
     bind_io (for_io (\<lambda>v acc. bind_io (insert_variant (x_id x) v) (\<lambda>r. ret (acc @ [r]))) variants []) (\<lambda>inserted.
     ret \<lparr>xv_experiment = x, xv_variants = inserted\<rparr>)))"

definition variants_for_experiment :: "int \<Rightarrow> variant list bill" where
  "variants_for_experiment xid = stmt (\<lambda>s.
     Inr (sort_key v_id (filter (\<lambda>v. v_experiment_id v = xid) (t_rows (bt_variants s))), s))"

definition with_variants :: "experiment_row \<Rightarrow> experiment_with_variants bill" where
  "with_variants x = bind_io (variants_for_experiment (x_id x)) (\<lambda>vs. ret \<lparr>xv_experiment = x, xv_variants = vs\<rparr>)"

definition experiments_where :: "(experiment_row \<Rightarrow> bool) \<Rightarrow> experiment_with_variants list bill" where
  "experiments_where P =
     bind_io (stmt (\<lambda>s. Inr (sort_key x_id (filter P (t_rows (bt_experiments s))), s))) (\<lambda>xs.
     for_io (\<lambda>x out. bind_io (with_variants x) (\<lambda>xv. ret (out @ [xv]))) xs [])"

definition list_experiments :: "int \<Rightarrow> experiment_with_variants list bill" where
  "list_experiments app_id = experiments_where (\<lambda>x. x_app_id x = app_id)"

definition list_running_experiments :: "int \<Rightarrow> experiment_with_variants list bill" where
  "list_running_experiments app_id = experiments_where (\<lambda>x. x_app_id x = app_id \<and> x_status x = ''running'')"

definition get_experiment :: "int \<Rightarrow> experiment_with_variants bill" where
  "get_experiment xid =
     bind_io (stmt (\<lambda>s. and_then (ok_or (NotFound (''experiment '' @ show_int xid))
        (find (\<lambda>x. x_id x = xid) (t_rows (bt_experiments s)))) (\<lambda>x. Inr (x, s)))) with_variants"

definition set_status :: "int \<Rightarrow> string \<Rightarrow> int option \<Rightarrow> int option \<Rightarrow> billing \<Rightarrow> billing" where
  "set_status xid status started ended s = s\<lparr>bt_experiments := update_rows (\<lambda>x. x_id x = xid)
     (\<lambda>x. x\<lparr>x_status := status, x_started := started, x_ended := ended\<rparr>) (bt_experiments s)\<rparr>"

definition update_experiment_status :: "int \<Rightarrow> string \<Rightarrow> int option \<Rightarrow> int option \<Rightarrow> experiment_with_variants bill" where
  "update_experiment_status xid status started ended =
     bind_io (exec (set_status xid status started ended)) (\<lambda>_.
     get_experiment xid)"

definition find_assignment :: "int \<Rightarrow> int \<Rightarrow> int option bill" where
  "find_assignment xid cid = stmt (\<lambda>s. Inr (map_option as_variant
     (find (\<lambda>a. as_experiment a = xid \<and> as_customer a = cid) (bt_assignments s)), s))"

definition insert_assignment :: "int \<Rightarrow> int \<Rightarrow> int \<Rightarrow> int option bill" where
  "insert_assignment xid cid vid = stmt (\<lambda>s.
     if list_ex (\<lambda>a. as_experiment a = xid \<and> as_customer a = cid) (bt_assignments s) then Inr (None, s)
     else if \<not> has_id x_id xid (bt_experiments s) \<or> \<not> has_id c_id cid (bt_customers s) \<or> \<not> has_id v_id vid (bt_variants s)
     then Inl fk_error
     else Inr (Some vid, s\<lparr>bt_assignments := bt_assignments s @ [\<lparr>as_experiment = xid, as_customer = cid, as_variant = vid\<rparr>]\<rparr>))"

definition get_or_assign_variant :: "store_env \<Rightarrow> int \<Rightarrow> int \<Rightarrow> variant list \<Rightarrow> int bill" where
  "get_or_assign_variant e xid cid variants =
     bind_io (find_assignment xid cid) (\<lambda>existing.
       case existing of
         Some vid \<Rightarrow> ret vid
       | None \<Rightarrow>
           bind_io (lift (ok_or (InvalidPayload ''experiment has no variants'') (assign_variant (be_digest e) xid cid variants))) (\<lambda>vid.
           bind_io (insert_assignment xid cid vid) (\<lambda>inserted.
             case inserted of
               Some v \<Rightarrow> ret v
             | None \<Rightarrow> bind_io (find_assignment xid cid) (\<lambda>again. lift (ok_or no_rows_error again)))))"

definition record_experiment_event :: "int \<Rightarrow> int \<Rightarrow> int \<Rightarrow> string \<Rightarrow> json \<Rightarrow> unit bill" where
  "record_experiment_event xid vid cid ty meta = stmt (\<lambda>s.
     if \<not> has_id x_id xid (bt_experiments s) \<or> \<not> has_id v_id vid (bt_variants s) \<or> \<not> has_id c_id cid (bt_customers s)
     then Inl fk_error
     else Inr ((), s\<lparr>bt_events := bt_events s @ [\<lparr>ev_experiment = xid, ev_variant = vid, ev_customer = cid, ev_type = ty,
        ev_metadata = meta\<rparr>]\<rparr>))"

text \<open>
  The counts of distinct customers for each variant, and the results: the quotient of two counts and the
  score against the control are doubles, computed by \<open>rate\<close> and \<open>score\<close>; \<open>zero\<close> is the double 0.
\<close>

definition count_customers :: "trial_event list \<Rightarrow> int \<Rightarrow> int \<Rightarrow> string \<Rightarrow> int" where
  "count_customers evs xid vid ty = int (length (remdups (map ev_customer
     (filter (\<lambda>v. ev_experiment v = xid \<and> ev_variant v = vid \<and> ev_type v = ty) evs))))"

definition result_of_variant ::
  "'f \<Rightarrow> (int \<Rightarrow> int \<Rightarrow> 'f) \<Rightarrow> (int \<times> int \<Rightarrow> int \<times> int \<Rightarrow> 'f option) \<Rightarrow> variant option \<Rightarrow> (int \<Rightarrow> (int \<times> int) option) \<Rightarrow> variant \<Rightarrow>
   'f variant_result" where
  "result_of_variant zero rate score control counts v =
     (case unwrap_or (0, 0) (counts (v_id v)) of (imp, con) \<Rightarrow>
        \<lparr>vr_variant = v_id v, vr_identifier = v_identifier v, vr_offering = v_offering_id v, vr_control = is_control v,
         vr_impressions = imp, vr_conversions = con, vr_rate = (if imp > 0 then rate con imp else zero),
         vr_z_score = (case control of
             None \<Rightarrow> None
           | Some c \<Rightarrow> (case counts (v_id c) of
               None \<Rightarrow> None
             | Some cc \<Rightarrow> if v_id v \<noteq> v_id c then score cc (imp, con) else None))\<rparr>)"

definition experiment_results ::
  "'f \<Rightarrow> (int \<Rightarrow> int \<Rightarrow> 'f) \<Rightarrow> (int \<times> int \<Rightarrow> int \<times> int \<Rightarrow> 'f option) \<Rightarrow> int \<Rightarrow> 'f variant_result list bill" where
  "experiment_results zero rate score xid =
     bind_io (variants_for_experiment xid) (\<lambda>variants.
     bind_io (stmt (\<lambda>s. Inr (\<lambda>vid. if list_ex (\<lambda>v. ev_experiment v = xid \<and> ev_variant v = vid) (bt_events s)
          then Some (count_customers (bt_events s) xid vid ''impression'', count_customers (bt_events s) xid vid ''conversion'')
          else None, s))) (\<lambda>counts.
     ret (map (result_of_variant zero rate score (find is_control variants) counts) variants)))"

section \<open>Paywalls\<close>

definition upsert_paywall :: "int \<Rightarrow> string option \<Rightarrow> json \<Rightarrow> json option \<Rightarrow> paywall bill" where
  "upsert_paywall oid tpl cfg draft = stmt (\<lambda>s.
     if \<not> has_id of_id oid (bt_offerings s) then Inl fk_error
     else (case upsert_row pw_offering oid
         (\<lambda>i. \<lparr>pw_id = i, pw_offering = oid, pw_template = tpl, pw_config = cfg, pw_draft = draft, pw_published = False\<rparr>)
         (\<lambda>r. r\<lparr>pw_template := tpl, pw_draft := draft\<rparr>) (bt_paywalls s) of
       (r, t) \<Rightarrow> Inr (r, s\<lparr>bt_paywalls := t\<rparr>)))"

definition get_paywall :: "int \<Rightarrow> paywall option bill" where
  "get_paywall oid = stmt (\<lambda>s. Inr (find (\<lambda>r. pw_offering r = oid) (t_rows (bt_paywalls s)), s))"

definition publish_paywall :: "int \<Rightarrow> billing \<Rightarrow> billing" where
  "publish_paywall oid s = s\<lparr>bt_paywalls := update_rows (\<lambda>r. pw_offering r = oid)
     (\<lambda>r. r\<lparr>pw_config := unwrap_or (pw_config r) (pw_draft r), pw_draft := None, pw_published := True\<rparr>) (bt_paywalls s)\<rparr>"

definition publish_draft_paywall :: "int \<Rightarrow> paywall bill" where
  "publish_draft_paywall oid =
     bind_io (exec (publish_paywall oid)) (\<lambda>_.
     bind_io (get_paywall oid) (\<lambda>found. lift (ok_or (NotFound (''paywall for offering '' @ show_int oid)) found)))"

definition customer_has_active_subscription :: "store_env \<Rightarrow> int \<Rightarrow> bool bill" where
  "customer_has_active_subscription e cid = stmt (\<lambda>s.
     Inr (list_ex (\<lambda>r. s_customer_id r = cid \<and> s_status r = ''active'' \<and> runs (be_now e) r) (t_rows (bt_subscriptions s)), s))"

section \<open>Tables with a key\<close>

text \<open>
  Numbers and keys are unique, and the sequence is past every number: what the primary key, the unique
  constraint and the sequence of a table make of it.
\<close>

definition well_keyed :: "('r \<Rightarrow> int) \<Rightarrow> ('r \<Rightarrow> 'k) \<Rightarrow> 'r table \<Rightarrow> bool" where
  "well_keyed idf key t \<longleftrightarrow>
     distinct (map idf (t_rows t)) \<and> distinct (map key (t_rows t)) \<and> (\<forall>r \<in> set (t_rows t). idf r < t_seq t)"

named_theorems keyed_rules

lemma well_keyed_new [keyed_rules]: "well_keyed idf key new_table"
  by (simp add: well_keyed_def new_table_def)

lemma well_keyed_id: "well_keyed idf key t \<Longrightarrow> r \<in> set (t_rows t) \<Longrightarrow> r' \<in> set (t_rows t) \<Longrightarrow> idf r = idf r' \<Longrightarrow> r = r'"
  by (auto simp: well_keyed_def distinct_map dest: inj_onD)

lemma well_keyed_key: "well_keyed idf key t \<Longrightarrow> r \<in> set (t_rows t) \<Longrightarrow> r' \<in> set (t_rows t) \<Longrightarrow> key r = key r' \<Longrightarrow> r = r'"
  by (auto simp: well_keyed_def distinct_map dest: inj_onD)

lemma well_keyed_update [keyed_rules]:
  assumes "well_keyed idf key t" and "\<And>r. idf (upd r) = idf r" and "\<And>r. key (upd r) = key r"
  shows "well_keyed idf key (update_rows hit upd t)"
proof -
  have "map idf (t_rows (update_rows hit upd t)) = map idf (t_rows t)" "map key (t_rows (update_rows hit upd t)) = map key (t_rows t)"
    using assms(2,3) by (simp_all add: update_rows_def)
  moreover have "\<forall>r \<in> set (t_rows (update_rows hit upd t)). idf r < t_seq (update_rows hit upd t)"
    using assms by (auto simp: well_keyed_def update_rows_def)
  ultimately show ?thesis using assms(1) by (simp only: well_keyed_def simp_thms)
qed

lemma well_keyed_insert [keyed_rules]:
  assumes "well_keyed idf key t" and "idf (mk (t_seq t)) = t_seq t" and "\<And>r. r \<in> set (t_rows t) \<Longrightarrow> key r \<noteq> key (mk (t_seq t))"
  shows "well_keyed idf key (snd (insert_row mk t))"
  using assms by (fastforce simp: well_keyed_def insert_row_def)

lemma well_keyed_filter [keyed_rules]: "well_keyed idf key t \<Longrightarrow> well_keyed idf key (t\<lparr>t_rows := filter P (t_rows t)\<rparr>)"
  by (auto simp: well_keyed_def distinct_map intro: inj_on_subset)

lemma well_keyed_seq [keyed_rules]: "well_keyed idf key t \<Longrightarrow> well_keyed idf key (t\<lparr>t_seq := t_seq t + 1\<rparr>)"
  by (fastforce simp: well_keyed_def)

lemma has_id_update: "(\<And>r. idf (upd r) = idf r) \<Longrightarrow> has_id idf i (update_rows hit upd t) = has_id idf i t"
  by (auto simp: has_id_def update_rows_def list_ex_iff)

text \<open>
  An upsert, as a client of any table sees it: \<open>mk\<close> makes the row of a number with the key \<open>k\<close>, \<open>upd\<close> changes
  neither number nor key.
\<close>

locale keyed =
  fixes idf :: "'r \<Rightarrow> int" and key :: "'r \<Rightarrow> 'k" and k :: 'k and mk :: "int \<Rightarrow> 'r" and upd :: "'r \<Rightarrow> 'r"
  assumes id_mk: "idf (mk i) = i" and key_mk: "key (mk i) = k" and id_upd: "idf (upd r) = idf r" and key_upd: "key (upd r) = key r"
begin

lemma found:
  assumes "find (\<lambda>r. key r = k) (t_rows t) = Some r"
  shows "r \<in> set (t_rows t)" "key r = k"
  using find_Some_in_set [OF assms] by simp_all

lemma missing: "find (\<lambda>r. key r = k) (t_rows t) = None \<Longrightarrow> r \<in> set (t_rows t) \<Longrightarrow> key r \<noteq> k"
  by (auto simp: find_None_all)

lemma upsert_keeps:
  assumes "well_keyed idf key t"
  shows "well_keyed idf key (snd (upsert_row key k mk upd t))"
proof (cases "find (\<lambda>r. key r = k) (t_rows t)")
  case None
  with assms missing [OF None] show ?thesis
    by (simp add: upsert_row_def) (rule well_keyed_insert; simp add: id_mk key_mk)
next
  case (Some r)
  have "\<lparr>t_rows = map (\<lambda>x. if key x = k then upd x else x) (t_rows t), t_seq = t_seq t + 1\<rparr> =
      (update_rows (\<lambda>x. key x = k) upd t)\<lparr>t_seq := t_seq (update_rows (\<lambda>x. key x = k) upd t) + 1\<rparr>"
    by (simp add: update_rows_def)
  with assms Some show ?thesis
    by (simp only: upsert_row_def option.case snd_conv) (intro well_keyed_seq well_keyed_update; simp add: id_upd key_upd)
qed

lemma upsert_result:
  "fst (upsert_row key k mk upd t) \<in> set (t_rows (snd (upsert_row key k mk upd t)))"
  "key (fst (upsert_row key k mk upd t)) = k"
proof -
  have "fst (upsert_row key k mk upd t) \<in> set (t_rows (snd (upsert_row key k mk upd t))) \<and> key (fst (upsert_row key k mk upd t)) = k"
  proof (cases "find (\<lambda>r. key r = k) (t_rows t)")
    case None
    then show ?thesis by (simp add: upsert_row_def insert_row_def key_mk)
  next
    case (Some r)
    from found [OF Some] have "upd r \<in> (\<lambda>x. if key x = k then upd x else x) ` set (t_rows t)" by force
    with Some found [OF Some] show ?thesis by (simp add: upsert_row_def key_upd)
  qed
  then show "fst (upsert_row key k mk upd t) \<in> set (t_rows (snd (upsert_row key k mk upd t)))"
    "key (fst (upsert_row key k mk upd t)) = k" by blast+
qed

lemma upsert_known:
  assumes "well_keyed idf key t" and "r \<in> set (t_rows t)" and "key r = k"
  shows "fst (upsert_row key k mk upd t) = upd r"
proof (cases "find (\<lambda>r. key r = k) (t_rows t)")
  case None
  with assms missing show ?thesis by blast
next
  case (Some r')
  from found [OF Some] assms have "r' = r" by (intro well_keyed_key [OF assms(1)]) simp_all
  with Some show ?thesis by (simp add: upsert_row_def)
qed

lemma upsert_others:
  "key x \<noteq> k \<Longrightarrow> x \<in> set (t_rows (snd (upsert_row key k mk upd t))) \<longleftrightarrow> x \<in> set (t_rows t)"
  by (auto simp: upsert_row_def insert_row_def key_mk key_upd split: option.split)

lemma upsert_ids: "has_id idf i t \<Longrightarrow> has_id idf i (snd (upsert_row key k mk upd t))"
proof -
  assume "has_id idf i t"
  then obtain r where r: "r \<in> set (t_rows t)" "idf r = i" by (auto simp: has_id_def list_ex_iff)
  then have "(if key r = k then upd r else r) \<in> (\<lambda>x. if key x = k then upd x else x) ` set (t_rows t)" by (intro imageI)
  moreover have "idf (if key r = k then upd r else r) = i" using r by (simp add: id_upd)
  ultimately have "\<exists>x \<in> set (t_rows (snd (upsert_row key k mk upd t))). idf x = i"
  proof (cases "find (\<lambda>r. key r = k) (t_rows t)")
    case None
    with r show ?thesis by (auto simp: upsert_row_def insert_row_def)
  next
    case (Some y)
    then show ?thesis
      using \<open>idf (if key r = k then upd r else r) = i\<close>
        \<open>(if key r = k then upd r else r) \<in> (\<lambda>x. if key x = k then upd x else x) ` set (t_rows t)\<close>
      by (simp only: upsert_row_def option.case snd_conv table.select_convs list.set_map) (rule bexI)
  qed
  then show ?thesis by (simp add: has_id_def list_ex_iff)
qed

end

interpretation product_upsert: keyed p_id "\<lambda>r. (p_app_id r, p_store r, store_product_id r)" "(app_id, sto, spid)"
  "\<lambda>i. \<lparr>p_id = i, p_app_id = app_id, p_store = sto, store_product_id = spid, product_type = ptype, p_period = per,
     price_micros = price, p_currency = cur, p_metadata = meta\<rparr>"
  "\<lambda>r. r\<lparr>product_type := ptype, p_period := per, price_micros := price, p_currency := cur, p_metadata := meta\<rparr>"
  for app_id sto spid ptype per price cur meta
  by unfold_locales simp_all

interpretation entitlement_upsert: keyed e_id "\<lambda>r. (e_app_id r, e_identifier r)" "(app_id, ident)"
  "\<lambda>i. \<lparr>e_id = i, e_app_id = app_id, e_identifier = ident, e_display_name = nm\<rparr>"
  "\<lambda>r. r\<lparr>e_display_name := coalesce nm (e_display_name r)\<rparr>"
  for app_id ident nm
  by unfold_locales simp_all

interpretation offering_upsert: keyed of_id "\<lambda>r. (of_app_id r, of_identifier r)" "(app_id, ident)"
  "\<lambda>i. \<lparr>of_id = i, of_app_id = app_id, of_identifier = ident, of_current = current, of_metadata = meta, of_audience = None\<rparr>"
  "\<lambda>r. r\<lparr>of_current := current, of_metadata := meta\<rparr>"
  for app_id ident current meta
  by unfold_locales simp_all

interpretation package_upsert: keyed pk_id "\<lambda>r. (pk_offering_id r, pk_identifier r)" "(oid, ident)"
  "\<lambda>i. \<lparr>pk_id = i, pk_offering_id = oid, pk_identifier = ident, pk_product_id = pid, pk_type = ty\<rparr>"
  "\<lambda>r. r\<lparr>pk_product_id := pid, pk_type := ty\<rparr>"
  for oid ident pid ty
  by unfold_locales simp_all

interpretation customer_upsert: keyed c_id "\<lambda>r. (c_app_id r, c_user r)" "(app_id, user)"
  "\<lambda>i. \<lparr>c_id = i, c_app_id = app_id, c_user = user, c_aliases = JArray [], c_attributes = JObject [],
     c_first_seen = t, c_last_seen = t\<rparr>"
  "\<lambda>r. r\<lparr>c_last_seen := t\<rparr>"
  for app_id user t
  by unfold_locales simp_all

interpretation promotion_upsert: keyed s_id sub_key "(cid, ''promotional'', Some o')"
  "\<lambda>i. \<lparr>s_id = i, s_customer_id = cid, s_product_id = Some pid, s_store = ''promotional'',
     original_transaction_id = Some o', current_period_start = Some t,
     current_period_end = Some expires, s_status = ''active'', auto_renew = False, unsubscribe_detected_at = None,
     billing_issues_detected_at = None, grace_period_expires_at = None, is_trial = False, s_updated_at = t\<rparr>"
  "\<lambda>r. r\<lparr>current_period_end := Some expires, s_status := ''active'', s_updated_at := t\<rparr>"
  for cid o' pid t expires
  by unfold_locales (simp_all add: sub_key_def)

interpretation audience_upsert: keyed au_id "\<lambda>r. (au_app_id r, au_identifier r)" "(app_id, ident)"
  "\<lambda>i. \<lparr>au_id = i, au_app_id = app_id, au_identifier = ident, au_display_name = nm, au_rules = rules\<rparr>"
  "\<lambda>r. r\<lparr>au_display_name := coalesce nm (au_display_name r), au_rules := rules\<rparr>"
  for app_id ident nm rules
  by unfold_locales simp_all

interpretation experiment_upsert: keyed x_id "\<lambda>r. (x_app_id r, x_identifier r)" "(app_id, ident)"
  "\<lambda>i. \<lparr>x_id = i, x_app_id = app_id, x_identifier = ident, x_status = ''draft'', x_metric = metric,
     x_audience = aid, x_started = None, x_ended = None\<rparr>"
  "\<lambda>r. r\<lparr>x_metric := metric, x_audience := aid\<rparr>"
  for app_id ident metric aid
  by unfold_locales simp_all

interpretation paywall_upsert: keyed pw_id pw_offering oid
  "\<lambda>i. \<lparr>pw_id = i, pw_offering = oid, pw_template = tpl, pw_config = cfg, pw_draft = draft, pw_published = False\<rparr>"
  "\<lambda>r. r\<lparr>pw_template := tpl, pw_draft := draft\<rparr>"
  for oid tpl cfg draft
  by unfold_locales simp_all

lemmas upserts_keep [keyed_rules] =
  product_upsert.upsert_keeps entitlement_upsert.upsert_keeps offering_upsert.upsert_keeps package_upsert.upsert_keeps
  customer_upsert.upsert_keeps promotion_upsert.upsert_keeps audience_upsert.upsert_keeps experiment_upsert.upsert_keeps
  paywall_upsert.upsert_keeps

section \<open>The invariant\<close>

definition keys_ok :: "billing \<Rightarrow> bool" where
  "keys_ok s \<longleftrightarrow>
     well_keyed ap_id ap_id (bt_apps s) \<and>
     well_keyed p_id (\<lambda>r. (p_app_id r, p_store r, store_product_id r)) (bt_products s) \<and>
     well_keyed e_id (\<lambda>r. (e_app_id r, e_identifier r)) (bt_entitlements s) \<and>
     well_keyed of_id (\<lambda>r. (of_app_id r, of_identifier r)) (bt_offerings s) \<and>
     well_keyed pk_id (\<lambda>r. (pk_offering_id r, pk_identifier r)) (bt_packages s) \<and>
     well_keyed c_id (\<lambda>r. (c_app_id r, c_user r)) (bt_customers s) \<and>
     well_keyed s_id sub_key (bt_subscriptions s) \<and>
     well_keyed tr_id (\<lambda>r. (tr_store r, tr_transaction r)) (bt_transactions s) \<and>
     well_keyed au_id (\<lambda>r. (au_app_id r, au_identifier r)) (bt_audiences s) \<and>
     well_keyed x_id (\<lambda>r. (x_app_id r, x_identifier r)) (bt_experiments s) \<and>
     well_keyed v_id (\<lambda>r. (v_experiment_id r, v_identifier r)) (bt_variants s) \<and>
     well_keyed pw_id pw_offering (bt_paywalls s)"

text \<open>At most one offering of an app is current.\<close>

definition one_current :: "offering_row list \<Rightarrow> bool" where
  "one_current offs \<longleftrightarrow> (\<forall>r \<in> set offs. \<forall>r' \<in> set offs. of_current r \<and> of_current r' \<and> of_app_id r = of_app_id r' \<longrightarrow> r = r')"

text \<open>A customer has one variant of an experiment, and it is a variant of that experiment.\<close>

definition assigned_ok :: "variant list \<Rightarrow> variant_assignment list \<Rightarrow> bool" where
  "assigned_ok vs as \<longleftrightarrow> distinct (map (\<lambda>a. (as_experiment a, as_customer a)) as) \<and>
     (\<forall>a \<in> set as. \<exists>v \<in> set vs. v_id v = as_variant a \<and> v_experiment_id v = as_experiment a)"

definition billing_ok :: "billing \<Rightarrow> bool" where
  "billing_ok s \<longleftrightarrow> keys_ok s \<and> assigned_ok (t_rows (bt_variants s)) (bt_assignments s)"

subsection \<open>Every operation keeps it\<close>

text \<open>
  \<open>keeps_keys\<close> and its siblings: what a step on one table has to show.
\<close>

lemma keys_stmt:
  assumes "\<And>s a s'. f s = Inr (a, s') \<Longrightarrow> keys_ok s \<Longrightarrow> keys_ok s' \<and>
     bt_variants s' = bt_variants s \<and> bt_assignments s' = bt_assignments s"
  shows "keeps billing_ok (stmt f)"
  using assms by (intro keeps_stmt) (fastforce simp: billing_ok_def)

lemma keys_exec:
  assumes "\<And>s. keys_ok s \<Longrightarrow> keys_ok (f s) \<and> bt_variants (f s) = bt_variants s \<and>
     bt_assignments (f s) = bt_assignments s"
  shows "keeps billing_ok (exec f)"
  using assms by (intro keeps_exec) (simp add: billing_ok_def)

named_theorems billing_intro

lemma read_keeps [billing_intro]:
  "(\<And>s a s'. f s = Inr (a, s') \<Longrightarrow> s' = s) \<Longrightarrow> keeps billing_ok (stmt f)"
  by (rule keeps_stmt) fastforce

lemma keys_set:
  "keys_ok s \<Longrightarrow> well_keyed ap_id ap_id t1 \<Longrightarrow> keys_ok (s\<lparr>bt_apps := t1\<rparr>)"
  "keys_ok s \<Longrightarrow> well_keyed p_id (\<lambda>r. (p_app_id r, p_store r, store_product_id r)) t2 \<Longrightarrow> keys_ok (s\<lparr>bt_products := t2\<rparr>)"
  "keys_ok s \<Longrightarrow> well_keyed e_id (\<lambda>r. (e_app_id r, e_identifier r)) t3 \<Longrightarrow> keys_ok (s\<lparr>bt_entitlements := t3\<rparr>)"
  "keys_ok s \<Longrightarrow> well_keyed of_id (\<lambda>r. (of_app_id r, of_identifier r)) t4 \<Longrightarrow> keys_ok (s\<lparr>bt_offerings := t4\<rparr>)"
  "keys_ok s \<Longrightarrow> well_keyed pk_id (\<lambda>r. (pk_offering_id r, pk_identifier r)) t5 \<Longrightarrow> keys_ok (s\<lparr>bt_packages := t5\<rparr>)"
  "keys_ok s \<Longrightarrow> well_keyed c_id (\<lambda>r. (c_app_id r, c_user r)) t6 \<Longrightarrow> keys_ok (s\<lparr>bt_customers := t6\<rparr>)"
  "keys_ok s \<Longrightarrow> well_keyed s_id sub_key t7 \<Longrightarrow> keys_ok (s\<lparr>bt_subscriptions := t7\<rparr>)"
  "keys_ok s \<Longrightarrow> well_keyed tr_id (\<lambda>r. (tr_store r, tr_transaction r)) t8 \<Longrightarrow> keys_ok (s\<lparr>bt_transactions := t8\<rparr>)"
  "keys_ok s \<Longrightarrow> well_keyed au_id (\<lambda>r. (au_app_id r, au_identifier r)) t9 \<Longrightarrow> keys_ok (s\<lparr>bt_audiences := t9\<rparr>)"
  "keys_ok s \<Longrightarrow> well_keyed x_id (\<lambda>r. (x_app_id r, x_identifier r)) t10 \<Longrightarrow> keys_ok (s\<lparr>bt_experiments := t10\<rparr>)"
  "keys_ok s \<Longrightarrow> well_keyed v_id (\<lambda>r. (v_experiment_id r, v_identifier r)) t11 \<Longrightarrow> keys_ok (s\<lparr>bt_variants := t11\<rparr>)"
  "keys_ok s \<Longrightarrow> well_keyed pw_id pw_offering t12 \<Longrightarrow> keys_ok (s\<lparr>bt_paywalls := t12\<rparr>)"
  by (simp_all add: keys_ok_def)

lemma keys_get:
  assumes "keys_ok s"
  shows "well_keyed ap_id ap_id (bt_apps s)"
     "well_keyed p_id (\<lambda>r. (p_app_id r, p_store r, store_product_id r)) (bt_products s)"
     "well_keyed e_id (\<lambda>r. (e_app_id r, e_identifier r)) (bt_entitlements s)"
     "well_keyed of_id (\<lambda>r. (of_app_id r, of_identifier r)) (bt_offerings s)"
     "well_keyed pk_id (\<lambda>r. (pk_offering_id r, pk_identifier r)) (bt_packages s)"
     "well_keyed c_id (\<lambda>r. (c_app_id r, c_user r)) (bt_customers s)"
     "well_keyed s_id sub_key (bt_subscriptions s)"
     "well_keyed tr_id (\<lambda>r. (tr_store r, tr_transaction r)) (bt_transactions s)"
     "well_keyed au_id (\<lambda>r. (au_app_id r, au_identifier r)) (bt_audiences s)"
     "well_keyed x_id (\<lambda>r. (x_app_id r, x_identifier r)) (bt_experiments s)"
     "well_keyed v_id (\<lambda>r. (v_experiment_id r, v_identifier r)) (bt_variants s)"
     "well_keyed pw_id pw_offering (bt_paywalls s)"
  using assms by (simp_all add: keys_ok_def)

lemma app_ops_keep [billing_intro]:
  "keeps billing_ok (create_app e project nm bundle platform)"
  "keeps billing_ok (update_app_secrets app_id apple google stripe webhook)"
proof -
  show "keeps billing_ok (create_app e project nm bundle platform)"
    unfolding create_app_def
  proof (rule keys_stmt, goal_cases)
    case (1 s a s')
    have "\<And>r. r \<in> set (t_rows (bt_apps s)) \<Longrightarrow> ap_id r \<noteq> t_seq (bt_apps s)"
      using keys_get(1) [OF 1(2)] by (auto simp: well_keyed_def)
    with 1 show ?case
      by (auto simp: case_prod_unfold intro!: keys_set(1) well_keyed_insert intro: keys_get)
  qed
  show "keeps billing_ok (update_app_secrets app_id apple google stripe webhook)"
    unfolding update_app_secrets_def by (rule keys_exec) (simp add: keys_set keys_get well_keyed_update)
qed

lemma upsert_ops_keep [billing_intro]:
  "keeps billing_ok (upsert_product app_id sto spid ptype per price cur meta)"
  "keeps billing_ok (upsert_entitlement app_id ident nm)"
  "keeps billing_ok (add_package oid ident pid ty)"
  "keeps billing_ok (get_or_create_customer e app_id user)"
  "keeps billing_ok (grant_promotional e cid pid expires)"
  "keeps billing_ok (upsert_audience app_id ident nm rules)"
  "keeps billing_ok (write_experiment app_id ident metric aid)"
  "keeps billing_ok (upsert_paywall oid tpl cfg draft)"
  unfolding upsert_product_def upsert_entitlement_def add_package_def get_or_create_customer_def grant_promotional_def
    upsert_audience_def write_experiment_def upsert_paywall_def
  by (rule keys_stmt, clarsimp simp: case_prod_unfold split: if_splits, intro keys_set upserts_keep keys_get, assumption+)+

lemma keeps_of_wp: "(\<And>s. P s \<Longrightarrow> wp m (\<lambda>_. P) s) \<Longrightarrow> keeps P m"
  by (simp add: keeps_def wp_def)

lemma has_id_fresh: "well_keyed idf key t \<Longrightarrow> r \<in> set (t_rows t) \<Longrightarrow> idf r \<noteq> t_seq t"
  by (auto simp: well_keyed_def)

lemma plain_ops_keep [billing_intro]:
  "keeps billing_ok (attach_product_to_entitlement eid pid)"
  "keeps billing_ok (set_attributes e cid attrs)"
  "keeps billing_ok (add_alias cid alias)"
  "keeps billing_ok (mark_subscription_cancelled e cid sto otid)"
  "keeps billing_ok (record_receipt e cid sto' raw res)"
  "keeps billing_ok (add_webhook_endpoint app_id url secret evs)"
  "keeps billing_ok (enqueue_delivery e epid event payload)"
  "keeps billing_ok (record_experiment_event xid vid cid ty meta)"
proof -
  show "keeps billing_ok (attach_product_to_entitlement eid pid)" "keeps billing_ok (record_experiment_event xid vid cid ty meta)"
    "keeps billing_ok (record_receipt e cid sto' raw res)" "keeps billing_ok (add_webhook_endpoint app_id url secret evs)"
    "keeps billing_ok (enqueue_delivery e epid event payload)"
    unfolding attach_product_to_entitlement_def record_experiment_event_def record_receipt_def add_webhook_endpoint_def
      enqueue_delivery_def
    by (rule keys_stmt, auto simp: keys_ok_def case_prod_unfold split: if_splits)+
  show "keeps billing_ok (set_attributes e cid attrs)" "keeps billing_ok (add_alias cid alias)"
    "keeps billing_ok (mark_subscription_cancelled e cid sto otid)"
    unfolding set_attributes_def add_alias_def mark_subscription_cancelled_def
    by (rule keys_exec, simp add: sub_key_def, intro keys_set well_keyed_update keys_get; simp add: sub_key_def)+
qed

lemma subscription_ops_keep [billing_intro]:
  "keeps billing_ok (find_subscription cid p)"
  "keeps billing_ok (write_subscription e cid pid p existing)"
  "keeps billing_ok (record_transaction sid cid pid p)"
  "keeps billing_ok (upsert_subscription_from_purchase e cid pid p)"
proof -
  show f: "keeps billing_ok (find_subscription cid p)" for cid
    unfolding find_subscription_def by (rule read_keeps) simp
  show w: "keeps billing_ok (write_subscription e cid pid p existing)" for existing
    unfolding write_subscription_def
  proof (rule keys_stmt, goal_cases)
    case (1 s a s')
    show ?case
    proof (cases existing)
      case None
      with 1(1) have "s' = s\<lparr>bt_subscriptions := snd (insert_row (new_subscription e cid pid p) (bt_subscriptions s))\<rparr>"
        "\<forall>r \<in> set (t_rows (bt_subscriptions s)). sub_key r \<noteq> (cid, pu_store p, Some (purchase_otid p))"
        by (auto simp: case_prod_unfold list_ex_iff split: if_splits)
      then show ?thesis using keys_get [OF 1(2)]
        by (auto simp: new_subscription_def sub_key_def intro!: keys_set 1 well_keyed_insert)
    next
      case (Some i)
      with 1(1) have "s' = s\<lparr>bt_subscriptions := update_rows (\<lambda>x. s_id x = i) (apply_purchase e pid p) (bt_subscriptions s)\<rparr>"
        by (auto split: if_splits option.splits)
      then show ?thesis using keys_get [OF 1(2)]
        by (auto simp: apply_purchase_def sub_key_def intro!: keys_set 1 well_keyed_update)
    qed
  qed
  show r: "keeps billing_ok (record_transaction sid cid pid p)" for sid
    unfolding record_transaction_def
  proof (rule keys_stmt, goal_cases)
    case (1 s a s')
    then show ?case
      by (auto simp: list_ex_iff split: if_splits intro!: keys_set well_keyed_insert well_keyed_seq intro: keys_get)
  qed
  show "keeps billing_ok (upsert_subscription_from_purchase e cid pid p)"
    unfolding upsert_subscription_from_purchase_def by (intro keeps_intro f w r)
qed

lemma one_current_upsert:
  assumes "one_current (t_rows t)" and "well_keyed of_id (\<lambda>r. (of_app_id r, of_identifier r)) t"
    and "\<And>r. current \<Longrightarrow> r \<in> set (t_rows t) \<Longrightarrow> of_app_id r = app_id \<Longrightarrow> \<not> of_current r"
  shows "one_current (t_rows (snd (upsert_row (\<lambda>r. (of_app_id r, of_identifier r)) (app_id, ident)
    (\<lambda>i. \<lparr>of_id = i, of_app_id = app_id, of_identifier = ident, of_current = current, of_metadata = meta, of_audience = None\<rparr>)
    (\<lambda>r. r\<lparr>of_current := current, of_metadata := meta\<rparr>) t)))" (is "one_current (t_rows (snd ?u))")
proof -
  note keep = offering_upsert.upsert_keeps [OF assms(2), of app_id ident current meta]
  note res = offering_upsert.upsert_result [of app_id ident current meta t]
  have cur: "of_current (fst ?u) = current"
    by (auto simp: upsert_row_def insert_row_def split: option.split)
  have new: "x = fst ?u \<or> x \<in> set (t_rows t) \<and> (of_app_id x, of_identifier x) \<noteq> (app_id, ident)"
    if "x \<in> set (t_rows (snd ?u))" for x
    using that offering_upsert.upsert_others [of x app_id ident current meta t] well_keyed_key [OF keep that res(1)] res(2)
    by metis
  from res(2) have app: "of_app_id (fst ?u) = app_id" by simp
  show ?thesis
    unfolding one_current_def
  proof (intro ballI impI)
    fix x y assume x: "x \<in> set (t_rows (snd ?u))" and y: "y \<in> set (t_rows (snd ?u))"
      and c: "of_current x \<and> of_current y \<and> of_app_id x = of_app_id y"
    show "x = y"
    proof (cases "x = fst ?u \<or> y = fst ?u")
      case True
      with c cur app have "current" "of_app_id x = app_id" "of_app_id y = app_id" by auto
      with new [OF x] new [OF y] c assms(3) show ?thesis by blast
    next
      case False
      with new [OF x] new [OF y] c assms(1) show ?thesis by (simp add: one_current_def)
    qed
  qed
qed

lemma offering_statements_keep [billing_intro]:
  "keeps billing_ok (clear_current app_id)" "keeps billing_ok (put_offering app_id ident current meta)"
  "keeps billing_ok (upsert_offering app_id ident current meta)"
proof -
  show clear: "keeps billing_ok (clear_current app_id)"
    unfolding clear_current_def by (rule keys_exec) (simp add: keys_set keys_get well_keyed_update)
  show put: "keeps billing_ok (put_offering app_id ident current meta)"
    unfolding put_offering_def
    by (rule keys_stmt, clarsimp simp: case_prod_unfold split: if_splits, intro keys_set upserts_keep keys_get, assumption+)
  show "keeps billing_ok (upsert_offering app_id ident current meta)"
    unfolding upsert_offering_def by (intro keeps_bind_io keeps_if keeps_ret clear put)
qed

text \<open>
  An app with one current offering at most has so after an offering was saved, when nobody else saves one of
  its offerings between the two statements.
\<close>

lemma upsert_keeps_one_current:
  assumes "billing_ok s" and "one_current (t_rows (bt_offerings s))"
  shows "wp (upsert_offering app_id ident current meta) (\<lambda>_ s'. one_current (t_rows (bt_offerings s'))) s"
proof -
  define clear where "clear = (\<lambda>s :: billing. s\<lparr>bt_offerings := update_rows (\<lambda>r. of_app_id r = app_id) (\<lambda>r. r\<lparr>of_current := False\<rparr>) (bt_offerings s)\<rparr>)"
  have cleared: "billing_ok (clear s)" "one_current (t_rows (bt_offerings (clear s)))"
    "\<forall>r \<in> set (t_rows (bt_offerings (clear s))). of_app_id r = app_id \<longrightarrow> \<not> of_current r"
  proof -
    have "keys_ok (clear s)" using assms(1) unfolding clear_def billing_ok_def
      by (intro keys_set well_keyed_update keys_get) simp_all
    then show "billing_ok (clear s)" using assms(1) by (simp add: billing_ok_def clear_def)
    show "one_current (t_rows (bt_offerings (clear s)))"
      using assms(2) by (simp add: clear_def one_current_def update_rows_def del: if_image_distrib)
    show "\<forall>r \<in> set (t_rows (bt_offerings (clear s))). of_app_id r = app_id \<longrightarrow> \<not> of_current r"
      by (simp add: clear_def update_rows_def del: if_image_distrib)
  qed
  have put: "wp (bind_io (put_offering app_id ident current meta) (\<lambda>r. ret (with_packages (r\<lparr>of_audience := None\<rparr>) [])))
      (\<lambda>_ s'. one_current (t_rows (bt_offerings s'))) s1"
    if "billing_ok s1" "one_current (t_rows (bt_offerings s1))"
      "current \<longrightarrow> (\<forall>r \<in> set (t_rows (bt_offerings s1)). of_app_id r = app_id \<longrightarrow> \<not> of_current r)" for s1
    unfolding put_offering_def
  proof (intro wp_intro, goal_cases)
    case (2 r s2)
    define u where "u = upsert_row (\<lambda>r. (of_app_id r, of_identifier r)) (app_id, ident)
           (\<lambda>i. \<lparr>of_id = i, of_app_id = app_id, of_identifier = ident, of_current = current, of_metadata = meta, of_audience = None\<rparr>)
           (\<lambda>r. r\<lparr>of_current := current, of_metadata := meta\<rparr>) (bt_offerings s1)"
    from that(1) have keys: "keys_ok s1" by (simp add: billing_ok_def)
    from that(3) have none: "\<not> of_current r" if "current" "r \<in> set (t_rows (bt_offerings s1))" "of_app_id r = app_id" for r
      using that by simp
    have "one_current (t_rows (snd u))"
      unfolding u_def by (rule one_current_upsert [OF that(2) keys_get(4) [OF keys] none])
    moreover from 2 have "s2 = s1\<lparr>bt_offerings := snd u\<rparr>"
      by (simp add: u_def [symmetric] case_prod_unfold split: if_splits)
    ultimately show ?case by (simp add: wp_ret)
  qed (use that in simp_all)
  show ?thesis
  proof (cases current)
    case True
    show ?thesis
      unfolding upsert_offering_def if_P [OF True] clear_current_def clear_def [symmetric]
      by (rule wp_bind_io, rule wp_exec) (use assms(2) put [OF cleared(1,2)] cleared(3) in simp_all)
  next
    case False
    show ?thesis
      unfolding upsert_offering_def if_not_P [OF False]
      by (rule wp_bind_io, rule wp_ret) (use put [OF assms] False in simp)
  qed
qed

lemma assigned_ok_mono: "assigned_ok vs as \<Longrightarrow> set vs \<subseteq> set vs' \<Longrightarrow> assigned_ok vs' as"
  unfolding assigned_ok_def by blast

lemma delete_variants_keeps: "billing_ok s \<Longrightarrow> billing_ok (delete_variants xid s)"
proof -
  assume ok: "billing_ok s"
  let ?gone = "v_id ` set (filter (\<lambda>v. v_experiment_id v = xid) (t_rows (bt_variants s)))"
  have "assigned_ok (filter (\<lambda>v. v_experiment_id v \<noteq> xid) (t_rows (bt_variants s))) (filter (\<lambda>a. as_variant a \<notin> ?gone) (bt_assignments s))"
    unfolding assigned_ok_def
  proof (intro conjI ballI)
    show "distinct (map (\<lambda>a. (as_experiment a, as_customer a)) (filter (\<lambda>a. as_variant a \<notin> ?gone) (bt_assignments s)))"
      using ok by (intro distinct_map_filter) (simp add: billing_ok_def assigned_ok_def)
    fix a assume a: "a \<in> set (filter (\<lambda>a. as_variant a \<notin> ?gone) (bt_assignments s))"
    with ok obtain v where v: "v \<in> set (t_rows (bt_variants s))" "v_id v = as_variant a" "v_experiment_id v = as_experiment a"
      by (auto simp: billing_ok_def assigned_ok_def)
    with a have "v_experiment_id v \<noteq> xid" by force
    with v show "\<exists>v \<in> set (filter (\<lambda>v. v_experiment_id v \<noteq> xid) (t_rows (bt_variants s))).
        v_id v = as_variant a \<and> v_experiment_id v = as_experiment a" by auto
  qed
  moreover have "keys_ok (delete_variants xid s)"
    using ok well_keyed_filter [of v_id "\<lambda>r. (v_experiment_id r, v_identifier r)" "bt_variants s" "\<lambda>v. v_experiment_id v \<noteq> xid"]
    by (simp add: billing_ok_def keys_ok_def delete_variants_def Let_def)
  ultimately show ?thesis using ok by (simp add: billing_ok_def delete_variants_def Let_def)
qed

lemma insert_variant_keeps [billing_intro]: "keeps billing_ok (insert_variant xid v)"
  unfolding insert_variant_def
proof (rule keeps_stmt)
  fix s a s'
  assume ok: "billing_ok s" and step: "(if list_ex (\<lambda>r. v_experiment_id r = xid \<and> v_identifier r = v_identifier v) (t_rows (bt_variants s)) then Inl unique_error
     else if \<not> has_id x_id xid (bt_experiments s) \<or> \<not> has_id of_id (v_offering_id v) (bt_offerings s) then Inl fk_error
     else (case insert_row (\<lambda>i. v\<lparr>v_id := i, v_experiment_id := xid\<rparr>) (bt_variants s) of
       (r, t) \<Rightarrow> Inr (r, s\<lparr>bt_variants := t\<rparr>))) = Inr (a, s')"
  define t where "t = snd (insert_row (\<lambda>i. v\<lparr>v_id := i, v_experiment_id := xid\<rparr>) (bt_variants s))"
  from step have s': "s' = s\<lparr>bt_variants := t\<rparr>"
    and fresh: "\<forall>r \<in> set (t_rows (bt_variants s)). \<not> (v_experiment_id r = xid \<and> v_identifier r = v_identifier v)"
    by (auto simp: t_def case_prod_unfold list_ex_iff split: if_splits)
  have keys: "keys_ok s" using ok by (simp add: billing_ok_def)
  have "well_keyed v_id (\<lambda>r. (v_experiment_id r, v_identifier r)) t"
    unfolding t_def using fresh by (intro well_keyed_insert keys_get(11) [OF keys]) auto
  moreover have "set (t_rows (bt_variants s)) \<subseteq> set (t_rows t)" by (auto simp: t_def insert_row_def)
  ultimately show "billing_ok s'"
    using ok keys assigned_ok_mono by (auto simp: billing_ok_def s' keys_set)
qed

lemma experiment_ops_keep [billing_intro]:
  "keeps billing_ok (upsert_experiment app_id ident metric aid variants)"
  "keeps billing_ok (variants_for_experiment xid)"
  "keeps billing_ok (get_experiment xid)"
  "keeps billing_ok (exec (set_status xid status started ended))"
  "keeps billing_ok (update_experiment_status xid status started ended)"
  "keeps billing_ok (find_assignment xid cid)"
proof -
  show vs: "keeps billing_ok (variants_for_experiment xid)" for xid
    unfolding variants_for_experiment_def by (rule read_keeps) simp
  show x: "keeps billing_ok (get_experiment xid)"
    unfolding get_experiment_def with_variants_def
    by (intro keeps_bind_io keeps_ret vs read_keeps) (auto simp: result_simps)
  show s: "keeps billing_ok (exec (set_status xid status started ended))"
    by (rule keys_exec) (simp add: set_status_def, intro keys_set well_keyed_update keys_get; simp)
  show "keeps billing_ok (update_experiment_status xid status started ended)"
    unfolding update_experiment_status_def by (intro keeps_bind_io x s)
  show "keeps billing_ok (find_assignment xid cid)"
    unfolding find_assignment_def by (rule read_keeps) simp
  show "keeps billing_ok (upsert_experiment app_id ident metric aid variants)"
    unfolding upsert_experiment_def
    by (intro keeps_bind_io keeps_exec keeps_for_io keeps_ret insert_variant_keeps upsert_ops_keep delete_variants_keeps)
qed

lemma offering_ops_keep [billing_intro]:
  "keeps billing_ok (set_offering_audience oid aid)"
  "keeps billing_ok (exec (publish_paywall oid))"
  "keeps billing_ok (publish_draft_paywall oid)"
proof -
  show "keeps billing_ok (set_offering_audience oid aid)"
    unfolding set_offering_audience_def
  proof (rule keys_stmt)
    fix s s' :: billing and a
    define t where "t = update_rows (\<lambda>r. of_id r = oid) (\<lambda>r. r\<lparr>of_audience := aid\<rparr>) (bt_offerings s)"
    assume keys: "keys_ok s" and "(if has_id of_id oid (bt_offerings s) \<and> \<not> audience_ok aid s then Inl fk_error
      else Inr ((), s\<lparr>bt_offerings := update_rows (\<lambda>r. of_id r = oid) (\<lambda>r. r\<lparr>of_audience := aid\<rparr>) (bt_offerings s)\<rparr>)) = Inr (a, s')"
    then have s': "s' = s\<lparr>bt_offerings := t\<rparr>" by (auto simp: t_def split: if_splits)
    have "well_keyed of_id (\<lambda>r. (of_app_id r, of_identifier r)) t"
      unfolding t_def using keys by (intro well_keyed_update keys_get) simp_all
    then show "keys_ok s' \<and> bt_variants s' = bt_variants s \<and> bt_assignments s' = bt_assignments s"
      using keys by (simp add: s' keys_set)
  qed
  show p: "keeps billing_ok (exec (publish_paywall oid))"
    by (rule keys_exec) (simp add: publish_paywall_def keys_set well_keyed_update keys_get)
  show "keeps billing_ok (publish_draft_paywall oid)"
    unfolding publish_draft_paywall_def get_paywall_def by (intro keeps_bind_io keeps_lift p read_keeps) simp
qed

text \<open>
  A number that a request knows as that of a variant of an experiment: no row has it, or one of that
  experiment. \<open>variants_of\<close> is that of all variants a request has read.
\<close>

definition own_variant :: "int \<Rightarrow> int \<Rightarrow> billing \<Rightarrow> bool" where
  "own_variant vid xid s \<longleftrightarrow> (\<forall>w \<in> set (t_rows (bt_variants s)). v_id w = vid \<longrightarrow> v_experiment_id w = xid)"

definition variants_of :: "int \<Rightarrow> variant list \<Rightarrow> billing \<Rightarrow> bool" where
  "variants_of xid variants s \<longleftrightarrow> (\<forall>v \<in> set variants. own_variant (v_id v) xid s)"

lemma assign_variant_in:
  assumes "assign_variant digest xid cid variants = Some vid"
  shows "\<exists>v \<in> set variants. v_id v = vid"
proof -
  have walk: "walk_variants b c vs = Some i \<Longrightarrow> \<exists>v \<in> set vs. v_id v = i" for b c vs i
    by (induction b c vs rule: walk_variants.induct) (auto simp: Let_def split: if_splits)
  from assms have ne: "variants \<noteq> []" by (auto simp: assign_variant_def variant_of_bucket_def)
  then have "last (sort_key v_id variants) \<in> set (sort_key v_id variants)"
    by (intro last_in_set) (metis length_0_conv length_sort)
  then have last: "last (sort_key v_id variants) \<in> set variants" by simp
  from assms ne show ?thesis
    by (auto simp: assign_variant_def variant_of_bucket_def Let_def split: option.splits if_splits intro: last dest!: walk)
qed

lemma insert_assignment_keeps:
  assumes "billing_ok s" and "own_variant vid xid s"
  shows "wp (insert_assignment xid cid vid) (\<lambda>_. billing_ok) s"
proof -
  have "billing_ok (s\<lparr>bt_assignments := bt_assignments s @ [\<lparr>as_experiment = xid, as_customer = cid, as_variant = vid\<rparr>]\<rparr>)"
    if have_v: "has_id v_id vid (bt_variants s)"
    and free: "\<not> list_ex (\<lambda>a. as_experiment a = xid \<and> as_customer a = cid) (bt_assignments s)"
  proof -
    from have_v assms(2) obtain w where "w \<in> set (t_rows (bt_variants s))" "v_id w = vid" "v_experiment_id w = xid"
      by (auto simp: has_id_def list_ex_iff own_variant_def)
    with assms(1) free show ?thesis
      by (auto simp: billing_ok_def assigned_ok_def keys_ok_def list_ex_iff)
  qed
  with assms(1) show ?thesis
    unfolding insert_assignment_def by (intro wp_intro) (auto split: if_splits)
qed

text \<open>
  The requests of any number of clients, interleaved statement by statement, with failures of the database
  anywhere: a step is one statement that writes. What a statement takes from an earlier read of the same request
  is any value, but for the number of a variant, which is one the request has read as one of the experiment's.
\<close>

inductive billing_step :: "billing \<Rightarrow> billing \<Rightarrow> bool" where
  app: "calls (create_app e project nm bundle platform) s r s' \<Longrightarrow> billing_step s s'"
| secrets: "calls (update_app_secrets app_id apple google stripe webhook) s r s' \<Longrightarrow> billing_step s s'"
| product: "calls (upsert_product app_id sto spid ptype per price cur meta) s r s' \<Longrightarrow> billing_step s s'"
| entitlement: "calls (upsert_entitlement app_id ident nm) s r s' \<Longrightarrow> billing_step s s'"
| attach: "calls (attach_product_to_entitlement eid pid) s r s' \<Longrightarrow> billing_step s s'"
| offering_clear: "calls (clear_current app_id) s r s' \<Longrightarrow> billing_step s s'"
| offering_put: "calls (put_offering app_id ident current meta) s r s' \<Longrightarrow> billing_step s s'"
| offering_audience: "calls (set_offering_audience oid aid) s r s' \<Longrightarrow> billing_step s s'"
| package: "calls (add_package oid ident pid ty) s r s' \<Longrightarrow> billing_step s s'"
| customer: "calls (get_or_create_customer e app_id user) s r s' \<Longrightarrow> billing_step s s'"
| attributes: "calls (set_attributes e cid attrs) s r s' \<Longrightarrow> billing_step s s'"
| nickname: "calls (add_alias cid nm) s r s' \<Longrightarrow> billing_step s s'"
| subscription: "calls (write_subscription e cid pid p existing) s r s' \<Longrightarrow> billing_step s s'"
| transaction: "calls (record_transaction sid cid pid p) s r s' \<Longrightarrow> billing_step s s'"
| cancel: "calls (mark_subscription_cancelled e cid sto otid) s r s' \<Longrightarrow> billing_step s s'"
| receipt: "calls (record_receipt e cid sto raw res) s r s' \<Longrightarrow> billing_step s s'"
| endpoint: "calls (add_webhook_endpoint app_id url secret evs) s r s' \<Longrightarrow> billing_step s s'"
| promotion: "calls (grant_promotional e cid pid expires) s r s' \<Longrightarrow> billing_step s s'"
| delivery: "calls (enqueue_delivery e eid event payload) s r s' \<Longrightarrow> billing_step s s'"
| audience: "calls (upsert_audience app_id ident nm rules) s r s' \<Longrightarrow> billing_step s s'"
| trial: "calls (write_experiment app_id ident metric aid) s r s' \<Longrightarrow> billing_step s s'"
| clear_variants: "calls (exec (delete_variants xid)) s r s' \<Longrightarrow> billing_step s s'"
| variant: "calls (insert_variant xid v) s r s' \<Longrightarrow> billing_step s s'"
| status: "calls (exec (set_status xid status started ended)) s r s' \<Longrightarrow> billing_step s s'"
| assign: "calls (insert_assignment xid cid vid) s r s' \<Longrightarrow> own_variant vid xid s \<Longrightarrow> billing_step s s'"
| event: "calls (record_experiment_event xid vid cid ty meta) s r s' \<Longrightarrow> billing_step s s'"
| paywall: "calls (upsert_paywall oid tpl cfg draft) s r s' \<Longrightarrow> billing_step s s'"
| publish: "calls (exec (publish_paywall oid)) s r s' \<Longrightarrow> billing_step s s'"

lemma billing_step_ok: "billing_step s s' \<Longrightarrow> billing_ok s \<Longrightarrow> billing_ok s'"
proof (induction rule: billing_step.induct)
  case (assign xid cid vid s r s')
  then show ?case using calls_wp insert_assignment_keeps by metis
next
  case (clear_variants xid s r s')
  have "keeps billing_ok (exec (delete_variants xid))" by (rule keeps_exec) (rule delete_variants_keeps)
  from calls_keeps [OF clear_variants(1) this clear_variants(2)] show ?case .
qed (rule calls_keeps [where P = billing_ok], assumption, rule billing_intro, assumption)+

subsection \<open>Operations are steps\<close>

text \<open>Every operation of the store that writes is a sequence of such steps, and stays one whatever comes before.\<close>

lemma step_keeps: "(\<And>s r s'. calls m s r s' \<Longrightarrow> billing_step s s') \<Longrightarrow> keeps (billing_step\<^sup>*\<^sup>* s0) m"
  unfolding keeps_def calls_def
  by (metis prod.collapse rtranclp.rtrancl_into_rtrancl)

lemma read_steps: "(\<And>s a s'. f s = Inr (a, s') \<Longrightarrow> s' = s) \<Longrightarrow> keeps (billing_step\<^sup>*\<^sup>* s0) (stmt f)"
  by (rule keeps_stmt) fastforce

lemma operations_are_steps:
  "keeps (billing_step\<^sup>*\<^sup>* s0) (upsert_offering app_id ident current meta)"
  "keeps (billing_step\<^sup>*\<^sup>* s0) (upsert_subscription_from_purchase e cid pid p)"
  "keeps (billing_step\<^sup>*\<^sup>* s0) (upsert_experiment app_id ident metric aid variants)"
  "keeps (billing_step\<^sup>*\<^sup>* s0) (update_experiment_status xid status started ended)"
  "keeps (billing_step\<^sup>*\<^sup>* s0) (publish_draft_paywall oid)"
proof -
  note go = keeps_bind_io keeps_if keeps_for_io keeps_ret keeps_lift step_keeps billing_step.intros
  show "keeps (billing_step\<^sup>*\<^sup>* s0) (upsert_offering app_id ident current meta)"
    unfolding upsert_offering_def by (intro keeps_bind_io keeps_if keeps_ret; rule step_keeps, erule billing_step.intros)
  show "keeps (billing_step\<^sup>*\<^sup>* s0) (upsert_subscription_from_purchase e cid pid p)"
    unfolding upsert_subscription_from_purchase_def find_subscription_def
    by (intro keeps_bind_io keeps_ret read_steps; (simp; fail)?; rule step_keeps, erule billing_step.intros)
  show "keeps (billing_step\<^sup>*\<^sup>* s0) (upsert_experiment app_id ident metric aid variants)"
    unfolding upsert_experiment_def
    by (intro keeps_bind_io keeps_for_io keeps_ret; rule step_keeps, erule billing_step.intros)
  show "keeps (billing_step\<^sup>*\<^sup>* s0) (update_experiment_status xid status started ended)"
    unfolding update_experiment_status_def get_experiment_def with_variants_def variants_for_experiment_def
    by (intro keeps_bind_io keeps_ret read_steps; (auto simp: result_simps; fail)?; rule step_keeps, erule billing_step.intros)
  show "keeps (billing_step\<^sup>*\<^sup>* s0) (publish_draft_paywall oid)"
    unfolding publish_draft_paywall_def get_paywall_def
    by (intro keeps_bind_io keeps_lift read_steps; (simp; fail)?; rule step_keeps, erule billing_step.intros)
qed

lemma assign_steps:
  assumes "variants_of xid variants s" and "calls (get_or_assign_variant e xid cid variants) s r s'"
  shows "billing_step\<^sup>*\<^sup>* s s'"
proof -
  have read: "wp (find_assignment xid cid) (\<lambda>r s'. s' = s) s" for s
    unfolding find_assignment_def by (intro wp_intro) auto
  have ins: "wp (insert_assignment xid cid vid) (\<lambda>_. billing_step\<^sup>*\<^sup>* s) s" if "own_variant vid xid s" for vid
    using that billing_step.assign [of xid cid vid s] unfolding wp_def calls_def
    by (metis prod.collapse r_into_rtranclp)
  have own: "own_variant vid xid s" if "assign_variant (be_digest e) xid cid variants = Some vid" for vid
    using assign_variant_in [OF that] assms(1) by (auto simp: variants_of_def)
  have again: "keeps (billing_step\<^sup>*\<^sup>* s) (find_assignment xid cid)"
    unfolding find_assignment_def by (rule read_steps) simp
  have rest: "keeps (billing_step\<^sup>*\<^sup>* s) (case inserted of Some v \<Rightarrow> ret v
      | None \<Rightarrow> bind_io (find_assignment xid cid) (\<lambda>again. lift (ok_or no_rows_error again)))" for inserted
    by (cases inserted) (auto intro!: keeps_bind_io keeps_ret keeps_lift again)
  have "wp (get_or_assign_variant e xid cid variants) (\<lambda>_. billing_step\<^sup>*\<^sup>* s) s"
    unfolding get_or_assign_variant_def
    by (rule wp_bind_io, rule wp_weaken [OF read])
      (auto simp: result_simps split: option.split intro!: wp_ret wp_bind_io wp_lift wp_weaken [OF ins] own intro: wp_keeps [OF rest])
  from calls_wp [OF assms(2) this] show ?thesis .
qed

subsection \<open>Assignments stick\<close>

text \<open>The operations that touch neither variants nor assignments.\<close>

definition framed :: "billing \<Rightarrow> billing \<Rightarrow> bool" where
  "framed s0 s \<longleftrightarrow> bt_variants s = bt_variants s0 \<and> bt_assignments s = bt_assignments s0"

named_theorems framed_intro

lemma assignments_framed [framed_intro]:
  "keeps (framed s0) (create_app e project nm0 bundle platform)"
  "keeps (framed s0) (update_app_secrets app_id apple google stripe webhook)"
  "keeps (framed s0) (upsert_product app_id sto spid ptype per price cur meta)"
  "keeps (framed s0) (upsert_entitlement app_id ident nm)"
  "keeps (framed s0) (attach_product_to_entitlement eid pid)"
  "keeps (framed s0) (clear_current app_id)"
  "keeps (framed s0) (put_offering app_id ident current meta)"
  "keeps (framed s0) (write_subscription e cid spid0 p existing)"
  "keeps (framed s0) (record_transaction sid cid tpid p)"
  "keeps (framed s0) (write_experiment app_id ident metric aid)"
  "keeps (framed s0) (set_offering_audience oid aid)"
  "keeps (framed s0) (add_package oid ident pid ty)"
  "keeps (framed s0) (get_or_create_customer e app_id user)"
  "keeps (framed s0) (set_attributes e cid attrs)"
  "keeps (framed s0) (add_alias cid nm0)"
  "keeps (framed s0) (mark_subscription_cancelled e cid sto otid)"
  "keeps (framed s0) (record_receipt e cid sto raw res)"
  "keeps (framed s0) (add_webhook_endpoint app_id url secret evs)"
  "keeps (framed s0) (grant_promotional e cid ppid expires)"
  "keeps (framed s0) (enqueue_delivery e eid event payload)"
  "keeps (framed s0) (upsert_audience app_id ident nm rules)"
  "keeps (framed s0) (record_experiment_event xid vid cid ty' meta)"
  "keeps (framed s0) (upsert_paywall oid tpl cfg draft)"
  "keeps (framed s0) (exec (publish_paywall oid))"
  "keeps (framed s0) (exec (set_status xid status started ended))"
  unfolding create_app_def update_app_secrets_def upsert_product_def upsert_entitlement_def attach_product_to_entitlement_def
    clear_current_def put_offering_def write_subscription_def record_transaction_def write_experiment_def
    set_offering_audience_def add_package_def get_or_create_customer_def set_attributes_def add_alias_def
    mark_subscription_cancelled_def record_receipt_def add_webhook_endpoint_def grant_promotional_def enqueue_delivery_def
    upsert_audience_def record_experiment_event_def upsert_paywall_def framed_def
  by (rule keeps_exec keeps_stmt
      | (auto simp: case_prod_unfold result_simps publish_paywall_def set_status_def split: if_splits option.splits; fail))+

text \<open>
  What a step leaves of an assignment: it stays, or its variant is gone for good.
\<close>

definition sticks :: "variant_assignment \<Rightarrow> billing \<Rightarrow> bool" where
  "sticks a s \<longleftrightarrow> as_variant a < t_seq (bt_variants s) \<and> (a \<in> set (bt_assignments s) \<or> \<not> has_id v_id (as_variant a) (bt_variants s))"

lemma framed_sticks: "sticks a s \<Longrightarrow> framed s s' \<Longrightarrow> sticks a s'"
  by (simp add: sticks_def framed_def)

lemma delete_sticks:
  assumes "billing_ok s" and "sticks a s"
  shows "sticks a (delete_variants xid s)"
proof -
  have same: "v = w" if "v \<in> set (t_rows (bt_variants s))" "w \<in> set (t_rows (bt_variants s))" "v_id v = v_id w" for v w
    using well_keyed_id [OF keys_get(11) that] assms(1) by (simp add: billing_ok_def)
  from assms(2) show ?thesis
    by (auto simp: sticks_def delete_variants_def Let_def has_id_def list_ex_iff dest: same)
qed

lemma insert_variant_sticks: "keeps (sticks a) (insert_variant xid v)"
  unfolding insert_variant_def
  by (rule keeps_stmt) (auto simp: sticks_def insert_row_def has_id_def list_ex_iff split: if_splits)

lemma assign_sticks: "keeps (sticks a) (insert_assignment xid cid vid)"
  unfolding insert_assignment_def by (rule keeps_stmt) (auto simp: sticks_def split: if_splits)

lemma step_sticks: "billing_step s s' \<Longrightarrow> billing_ok s \<Longrightarrow> sticks a s \<Longrightarrow> sticks a s'"
proof (induction rule: billing_step.induct)
  case (clear_variants xid s r s')
  have "keeps (\<lambda>s. billing_ok s \<and> sticks a s) (exec (delete_variants xid))"
    by (rule keeps_exec) (auto intro: delete_sticks delete_variants_keeps)
  from calls_keeps [OF clear_variants(1) this] clear_variants(2,3) show ?case by blast
next
  case (variant xid v s r s')
  show ?case by (rule calls_keeps [where P = "sticks a", OF variant(1) insert_variant_sticks variant(3)])
next
  case (assign xid cid vid s r s')
  show ?case by (rule calls_keeps [where P = "sticks a", OF assign(1) assign_sticks assign(4)])
qed (rule framed_sticks, assumption, rule calls_keeps [where P = "framed _"], assumption, rule framed_intro, simp add: framed_def)+

lemma steps_ok: "billing_step\<^sup>*\<^sup>* s s' \<Longrightarrow> billing_ok s \<Longrightarrow> billing_ok s'"
  by (induction rule: rtranclp_induct) (auto intro: billing_step_ok)

lemma steps_stick: "billing_step\<^sup>*\<^sup>* s s' \<Longrightarrow> billing_ok s \<Longrightarrow> sticks a s \<Longrightarrow> billing_ok s' \<and> sticks a s'"
  by (induction rule: rtranclp_induct) (auto intro: billing_step_ok step_sticks)

text \<open>A number once read as that of a variant of an experiment is never that of a variant of another one.\<close>

definition known_variant :: "int \<Rightarrow> int \<Rightarrow> billing \<Rightarrow> bool" where
  "known_variant vid xid s \<longleftrightarrow> vid < t_seq (bt_variants s) \<and> own_variant vid xid s"

lemma step_known: "billing_step s s' \<Longrightarrow> known_variant vid xid s \<Longrightarrow> known_variant vid xid s'"
proof (induction rule: billing_step.induct)
  case (clear_variants i s r s')
  have "keeps (known_variant vid xid) (exec (delete_variants i))"
    by (rule keeps_exec) (auto simp: known_variant_def own_variant_def delete_variants_def Let_def)
  from calls_keeps [OF clear_variants(1) this clear_variants(2)] show ?case .
next
  case (variant i v s r s')
  have "keeps (known_variant vid xid) (insert_variant i v)"
    unfolding insert_variant_def
    by (rule keeps_stmt) (auto simp: known_variant_def own_variant_def insert_row_def split: if_splits)
  from calls_keeps [OF variant(1) this variant(2)] show ?case .
next
  case (assign i cid v s r s')
  have "keeps (known_variant vid xid) (insert_assignment i cid v)"
    unfolding insert_assignment_def
    by (rule keeps_stmt) (auto simp: known_variant_def own_variant_def split: if_splits)
  from calls_keeps [OF assign(1) this assign(3)] show ?case .
qed (frule calls_keeps [where P = "framed _"], rule framed_intro, simp add: framed_def, simp add: framed_def known_variant_def own_variant_def)+

lemma read_variants_stay:
  assumes "billing_ok s" and "v \<in> set (t_rows (bt_variants s))" and "billing_step\<^sup>*\<^sup>* s s'"
  shows "own_variant (v_id v) (v_experiment_id v) s'"
proof -
  have keys: "well_keyed v_id (\<lambda>r. (v_experiment_id r, v_identifier r)) (bt_variants s)"
    using assms(1) by (intro keys_get) (simp add: billing_ok_def)
  have "known_variant (v_id v) (v_experiment_id v) s"
    using keys well_keyed_id [OF keys _ assms(2)] assms(2)
    by (auto simp: known_variant_def own_variant_def well_keyed_def)
  with assms(3) have "known_variant (v_id v) (v_experiment_id v) s'"
    by (induction rule: rtranclp_induct) (auto intro: step_known)
  then show ?thesis by (simp add: known_variant_def)
qed

lemma reachable_ok: "billing_step\<^sup>*\<^sup>* (billing_schema plans) s \<Longrightarrow> billing_ok s"
proof (erule steps_ok)
  show "billing_ok (billing_schema plans)"
    by (simp add: billing_ok_def keys_ok_def billing_schema_def assigned_ok_def well_keyed_new)
qed

text \<open>
  C26. The keys of the billing tables hold, however the statements of requests are interleaved and whichever of them
  fail, on the tables of the schema without any lock or transaction: in every state reached, no two rows of an app,
  product, entitlement, offering, package, customer, subscription, transaction, audience, experiment, variant or
  paywall have the same number or the same key; a customer has at most one assignment in an experiment; and it is
  to a variant of that experiment that exists. (That an app has one current offering at most does not hold, see
  \<open>two_current_offerings\<close>.)
\<close>

theorem billing_keys_hold:
  assumes "billing_step\<^sup>*\<^sup>* (billing_schema plans) s"
  shows "distinct (map ap_id (t_rows (bt_apps s)))
    \<and> distinct (map p_id (t_rows (bt_products s)))
    \<and> distinct (map (\<lambda>r. (p_app_id r, p_store r, store_product_id r)) (t_rows (bt_products s)))
    \<and> distinct (map e_id (t_rows (bt_entitlements s)))
    \<and> distinct (map (\<lambda>r. (e_app_id r, e_identifier r)) (t_rows (bt_entitlements s)))
    \<and> distinct (map of_id (t_rows (bt_offerings s)))
    \<and> distinct (map (\<lambda>r. (of_app_id r, of_identifier r)) (t_rows (bt_offerings s)))
    \<and> distinct (map pk_id (t_rows (bt_packages s)))
    \<and> distinct (map (\<lambda>r. (pk_offering_id r, pk_identifier r)) (t_rows (bt_packages s)))
    \<and> distinct (map c_id (t_rows (bt_customers s)))
    \<and> distinct (map (\<lambda>r. (c_app_id r, c_user r)) (t_rows (bt_customers s)))
    \<and> distinct (map s_id (t_rows (bt_subscriptions s)))
    \<and> distinct (map sub_key (t_rows (bt_subscriptions s)))
    \<and> distinct (map tr_id (t_rows (bt_transactions s)))
    \<and> distinct (map (\<lambda>r. (tr_store r, tr_transaction r)) (t_rows (bt_transactions s)))
    \<and> distinct (map au_id (t_rows (bt_audiences s)))
    \<and> distinct (map (\<lambda>r. (au_app_id r, au_identifier r)) (t_rows (bt_audiences s)))
    \<and> distinct (map x_id (t_rows (bt_experiments s)))
    \<and> distinct (map (\<lambda>r. (x_app_id r, x_identifier r)) (t_rows (bt_experiments s)))
    \<and> distinct (map v_id (t_rows (bt_variants s)))
    \<and> distinct (map (\<lambda>r. (v_experiment_id r, v_identifier r)) (t_rows (bt_variants s)))
    \<and> distinct (map pw_id (t_rows (bt_paywalls s))) \<and> distinct (map pw_offering (t_rows (bt_paywalls s)))
    \<and> distinct (map (\<lambda>a. (as_experiment a, as_customer a)) (bt_assignments s))
    \<and> (\<forall>a \<in> set (bt_assignments s). \<exists>v \<in> set (t_rows (bt_variants s)). v_id v = as_variant a \<and> v_experiment_id v = as_experiment a)"
proof -
  have "billing_ok s" using assms by (rule reachable_ok)
  then show ?thesis unfolding billing_ok_def keys_ok_def well_keyed_def assigned_ok_def by blast
qed

lemma assigned_row:
  assumes "billing_ok s" and "variants_of xid variants s" and "calls (get_or_assign_variant e xid cid variants) s (Inr vid) s'"
  shows "\<lparr>as_experiment = xid, as_customer = cid, as_variant = vid\<rparr> \<in> set (bt_assignments s')"
proof -
  have row: "find (\<lambda>a. as_experiment a = xid \<and> as_customer a = cid) (bt_assignments t) = Some a \<Longrightarrow>
      \<lparr>as_experiment = xid, as_customer = cid, as_variant = as_variant a\<rparr> \<in> set (bt_assignments t)" for t a
    by (cases a) (auto dest!: find_Some_in_set)
  have "wp (get_or_assign_variant e xid cid variants)
     (\<lambda>r s'. \<forall>vid. r = Inr vid \<longrightarrow> \<lparr>as_experiment = xid, as_customer = cid, as_variant = vid\<rparr> \<in> set (bt_assignments s')) s"
    unfolding get_or_assign_variant_def find_assignment_def insert_assignment_def
    by (intro wp_intro) (auto simp: result_simps split: option.splits if_splits intro!: wp_intro dest: row)
  from calls_wp [OF assms(3) this] show ?thesis by simp
qed

lemma assignment_unique:
  "billing_ok s \<Longrightarrow> a \<in> set (bt_assignments s) \<Longrightarrow> b \<in> set (bt_assignments s) \<Longrightarrow>
     as_experiment a = as_experiment b \<Longrightarrow> as_customer a = as_customer b \<Longrightarrow> a = b"
  by (auto simp: billing_ok_def assigned_ok_def distinct_map dest: inj_onD)

text \<open>
  A customer keeps the variant of an experiment: after any requests and failures, the customer is given the
  variant of the first time again, as long as the variant exists.
\<close>

theorem variant_sticks:
  assumes "billing_step\<^sup>*\<^sup>* (billing_schema plans) s" and "variants_of xid variants s"
    and "calls (get_or_assign_variant e xid cid variants) s (Inr vid) s1" and "billing_step\<^sup>*\<^sup>* s1 s2"
    and "variants_of xid variants' s2" and "calls (get_or_assign_variant e' xid cid variants') s2 (Inr vid') s3"
    and "has_id v_id vid (bt_variants s3)"
  shows "vid' = vid"
proof -
  let ?a = "\<lparr>as_experiment = xid, as_customer = cid, as_variant = vid\<rparr>"
  have ok: "billing_ok s" using assms(1) by (rule reachable_ok)
  have ok1: "billing_ok s1" by (rule steps_ok [OF assign_steps [OF assms(2,3)] ok])
  have row: "?a \<in> set (bt_assignments s1)" by (rule assigned_row [OF ok assms(2,3)])
  with ok1 have "sticks ?a s1"
    by (fastforce simp: sticks_def billing_ok_def assigned_ok_def keys_ok_def well_keyed_def)
  with assms(4) ok1 have "billing_ok s2 \<and> sticks ?a s2" by (intro steps_stick)
  with steps_stick [OF assign_steps [OF assms(5,6)]] have s3: "billing_ok s3" "sticks ?a s3" by blast+
  with assms(7) have "?a \<in> set (bt_assignments s3)" by (simp add: sticks_def)
  moreover have "\<lparr>as_experiment = xid, as_customer = cid, as_variant = vid'\<rparr> \<in> set (bt_assignments s3)"
    using assigned_row assms(5,6) \<open>billing_ok s2 \<and> sticks ?a s2\<close> by blast
  ultimately show ?thesis using assignment_unique [OF s3(1)] by fastforce
qed

text \<open>
  Saving an experiment that exists forgets who saw which variant: whether the save succeeds or fails after
  the variants were deleted, no assignment of the experiment is left.
\<close>

theorem saving_forgets_assignments:
  assumes "billing_ok s" and "calls (upsert_experiment app_id ident metric aid variants) s r s'"
    and "x \<in> set (t_rows (bt_experiments s))" and "x_app_id x = app_id" and "x_identifier x = ident"
  shows "(\<exists>err. r = Inl err) \<and> bt_assignments s' = bt_assignments s \<or>
    (\<forall>a \<in> set (bt_assignments s'). as_experiment a \<noteq> x_id x)"
proof -
  have ins: "keeps (\<lambda>t. bt_assignments t = as) (insert_variant i v)" for as i v
    unfolding insert_variant_def by (rule keeps_stmt) (auto simp: case_prod_unfold split: if_splits)
  have loop: "keeps (\<lambda>t. bt_assignments t = as)
      (bind_io (for_io (\<lambda>v acc. bind_io (insert_variant i v) (\<lambda>r. ret (acc @ [r]))) variants []) (\<lambda>ins. ret (f ins)))" for as i and f :: "variant list \<Rightarrow> 'x"
    by (intro keeps_bind_io keeps_for_io keeps_ret ins)
  have none: "as_experiment a \<noteq> i" if "billing_ok t" "a \<in> set (bt_assignments (delete_variants i t))" for a i t
    using delete_variants_keeps [OF that(1), of i] that(2)
    by (fastforce simp: billing_ok_def assigned_ok_def delete_variants_def Let_def)
  have known: "x_id y = x_id x" if "y = fst (upsert_row (\<lambda>r. (x_app_id r, x_identifier r)) (app_id, ident)
      (\<lambda>i. \<lparr>x_id = i, x_app_id = app_id, x_identifier = ident, x_status = ''draft'', x_metric = metric, x_audience = aid,
         x_started = None, x_ended = None\<rparr>) (\<lambda>r. r\<lparr>x_metric := metric, x_audience := aid\<rparr>) (bt_experiments s))" for y
    using experiment_upsert.upsert_known [OF keys_get(10) assms(3), of app_id ident metric aid] assms(1,4,5) that
    by (simp add: billing_ok_def)
  have "wp (upsert_experiment app_id ident metric aid variants) (\<lambda>r s'. (\<exists>err. r = Inl err) \<and> bt_assignments s' = bt_assignments s \<or>
    (\<forall>a \<in> set (bt_assignments s'). as_experiment a \<noteq> x_id x)) s"
    unfolding upsert_experiment_def
  proof (rule wp_bind_io, rule wp_weaken [OF wp_conj [OF wp_keeps [OF upsert_ops_keep(7) assms(1)]]])
    show "wp (write_experiment app_id ident metric aid)
       (\<lambda>r t. bt_assignments t = bt_assignments s \<and> (\<forall>y. r = Inr y \<longrightarrow> x_id y = x_id x)) s"
      unfolding write_experiment_def using known by (intro wp_intro) (auto simp: case_prod_unfold split: if_splits)
  next
    fix r :: "experiment_row result" and t assume t: "billing_ok t \<and> bt_assignments t = bt_assignments s \<and> (\<forall>y. r = Inr y \<longrightarrow> x_id y = x_id x)"
    show "(\<forall>e. r = Inl e \<longrightarrow> (\<exists>err. Inl e = Inl err) \<and> bt_assignments t = bt_assignments s \<or> (\<forall>a \<in> set (bt_assignments t). as_experiment a \<noteq> x_id x)) \<and>
      (\<forall>a. r = Inr a \<longrightarrow> wp (bind_io (Store.exec (delete_variants (x_id a))) (\<lambda>_.
         bind_io (for_io (\<lambda>v acc. bind_io (insert_variant (x_id a) v) (\<lambda>r. ret (acc @ [r]))) variants []) (\<lambda>inserted.
         ret \<lparr>xv_experiment = a, xv_variants = inserted\<rparr>)))
        (\<lambda>r s'. (\<exists>err. r = Inl err) \<and> bt_assignments s' = bt_assignments s \<or> (\<forall>a \<in> set (bt_assignments s'). as_experiment a \<noteq> x_id x)) t)"
    proof (intro conjI allI impI)
      fix y assume y: "r = Inr y"
      show "wp (bind_io (Store.exec (delete_variants (x_id y))) (\<lambda>_.
         bind_io (for_io (\<lambda>v acc. bind_io (insert_variant (x_id y) v) (\<lambda>r. ret (acc @ [r]))) variants []) (\<lambda>inserted.
         ret \<lparr>xv_experiment = y, xv_variants = inserted\<rparr>)))
        (\<lambda>r s'. (\<exists>err. r = Inl err) \<and> bt_assignments s' = bt_assignments s \<or> (\<forall>a \<in> set (bt_assignments s'). as_experiment a \<noteq> x_id x)) t"
        using t y none [of t _ "x_id y"]
        by (intro wp_bind_io wp_exec) (auto intro: wp_weaken [OF wp_keeps [OF loop refl]])
    qed (use t in auto)
  qed
  from calls_wp [OF assms(2) this] show ?thesis .
qed

lemma update_id_known:
  assumes "well_keyed idf key t" and "r \<in> set (t_rows t)"
  shows "find (\<lambda>x. idf x = idf r) (t_rows t) = Some r"
proof -
  from assms(2) obtain x where x: "find (\<lambda>x. idf x = idf r) (t_rows t) = Some x"
    by (metis (mono_tags, lifting) find_None_all not_Some_eq)
  with find_Some_in_set [OF x] well_keyed_id [OF assms(1)] assms(2) show ?thesis by simp
qed

lemma find_key_known:
  assumes "well_keyed idf key t" and "r \<in> set (t_rows t)"
  shows "find (\<lambda>x. key x = key r) (t_rows t) = Some r"
proof -
  from assms(2) obtain x where x: "find (\<lambda>x. key x = key r) (t_rows t) = Some x"
    by (metis (mono_tags, lifting) find_None_all not_Some_eq)
  with find_Some_in_set [OF x] well_keyed_key [OF assms(1)] assms(2) show ?thesis by simp
qed

text \<open>What a purchase that was applied leaves behind.\<close>

lemma purchase_applied:
  assumes "billing_ok s" and "calls (upsert_subscription_from_purchase e cid pid p) s (Inr (sub, new)) s'"
  shows "sub \<in> set (t_rows (bt_subscriptions s')) \<and> sub_key sub = (cid, pu_store p, Some (purchase_otid p)) \<and>
    (\<exists>r \<in> set (t_rows (bt_transactions s')). tr_store r = pu_store p \<and> tr_transaction r = pu_transaction p) \<and>
    (case pid of None \<Rightarrow> True | Some i \<Rightarrow> has_id p_id i (bt_products s')) \<and> billing_ok s' \<and>
    (new \<longleftrightarrow> (\<forall>r \<in> set (t_rows (bt_subscriptions s)). sub_key r \<noteq> sub_key sub))"
proof -
  define existing where "existing = map_option s_id (find (\<lambda>r. sub_key r = (cid, pu_store p, Some (purchase_otid p))) (t_rows (bt_subscriptions s)))"
  have keyed: "well_keyed s_id sub_key (bt_subscriptions s)" using assms(1) by (intro keys_get) (simp add: billing_ok_def)
  have w: "wp (write_subscription e cid pid p existing) (\<lambda>r t. \<forall>x. r = Inr x \<longrightarrow>
      x \<in> set (t_rows (bt_subscriptions t)) \<and> sub_key x = (cid, pu_store p, Some (purchase_otid p)) \<and>
      (case pid of None \<Rightarrow> True | Some i \<Rightarrow> has_id p_id i (bt_products t))) s"
  proof (cases "find (\<lambda>r. sub_key r = (cid, pu_store p, Some (purchase_otid p))) (t_rows (bt_subscriptions s))")
    case None
    then show ?thesis
      unfolding write_subscription_def existing_def
      by (intro wp_intro) (auto simp: insert_row_def new_subscription_def sub_key_def references_ok_def split: if_splits option.splits)
  next
    case (Some y)
    from find_Some_in_set [OF this] have y: "y \<in> set (t_rows (bt_subscriptions s))" "sub_key y = (cid, pu_store p, Some (purchase_otid p))" by auto
    have "apply_purchase e pid p y \<in> set (t_rows (update_rows (\<lambda>x. s_id x = s_id y) (apply_purchase e pid p) (bt_subscriptions s)))"
      using y(1) by (force simp: update_rows_def simp del: if_image_distrib)
    with y Some show ?thesis
      unfolding write_subscription_def existing_def
      by (intro wp_intro) (auto simp: update_id_known [OF keyed] apply_purchase_def sub_key_def split: if_splits option.splits)
  qed
  have r: "wp (record_transaction i cid pid p) (\<lambda>r u. bt_subscriptions u = bt_subscriptions t \<and> bt_products u = bt_products t \<and>
      (r = Inr () \<longrightarrow> (\<exists>x \<in> set (t_rows (bt_transactions u)). tr_store x = pu_store p \<and> tr_transaction x = pu_transaction p))) t" for i t
    unfolding record_transaction_def
    by (intro wp_intro) (auto simp: insert_row_def list_ex_iff split: if_splits)
  have new: "existing = None \<longleftrightarrow> (\<forall>r \<in> set (t_rows (bt_subscriptions s)). sub_key r \<noteq> (cid, pu_store p, Some (purchase_otid p)))"
    by (simp add: existing_def find_None_all)
  have "wp (upsert_subscription_from_purchase e cid pid p) (\<lambda>r u. \<forall>x n. r = Inr (x, n) \<longrightarrow>
      (x \<in> set (t_rows (bt_subscriptions u)) \<and> sub_key x = (cid, pu_store p, Some (purchase_otid p)) \<and>
      (\<exists>x \<in> set (t_rows (bt_transactions u)). tr_store x = pu_store p \<and> tr_transaction x = pu_transaction p) \<and>
      (case pid of None \<Rightarrow> True | Some i \<Rightarrow> has_id p_id i (bt_products u))) \<and> n = (existing = None)) s"
    unfolding upsert_subscription_from_purchase_def find_subscription_def
    by (intro wp_bind_io wp_stmt) (auto simp: existing_def cong: option.case_cong intro!: wp_weaken [OF w [unfolded existing_def]] wp_bind_io wp_weaken [OF r] wp_ret)
  from calls_wp [OF assms(2) this] calls_keeps [OF assms(2) subscription_ops_keep(4) assms(1)] new show ?thesis
    by (simp add: conj_commute)
qed

text \<open>
  Applying a purchase a second time, at any later time, succeeds, finds the same subscription and creates
  neither a subscription nor a transaction.
\<close>

theorem purchase_replay:
  assumes "billing_ok s" and "calls (upsert_subscription_from_purchase e cid pid p) s (Inr (sub, new)) s1"
  shows "\<exists>s2. upsert_subscription_from_purchase e' cid pid p (up s1) = (Inr (apply_purchase e' pid p sub, False), up s2) \<and>
    t_rows (bt_transactions s2) = t_rows (bt_transactions s1) \<and>
    map s_id (t_rows (bt_subscriptions s2)) = map s_id (t_rows (bt_subscriptions s1))"
proof -
  from purchase_applied [OF assms] have sub: "sub \<in> set (t_rows (bt_subscriptions s1))"
      "sub_key sub = (cid, pu_store p, Some (purchase_otid p))"
    and tr: "list_ex (\<lambda>r. tr_store r = pu_store p \<and> tr_transaction r = pu_transaction p) (t_rows (bt_transactions s1))"
    and ok: "billing_ok s1" and refs: "case pid of None \<Rightarrow> True | Some i \<Rightarrow> has_id p_id i (bt_products s1)" by (auto simp: list_ex_iff)
  from ok have keyed: "well_keyed s_id sub_key (bt_subscriptions s1)" by (intro keys_get) (simp add: billing_ok_def)
  from find_key_known [OF keyed sub(1)] sub(2)
  have f: "find (\<lambda>r. sub_key r = (cid, pu_store p, Some (purchase_otid p))) (t_rows (bt_subscriptions s1)) = Some sub" by simp
  from refs have "\<not> (case pid of None \<Rightarrow> False | Some q \<Rightarrow> \<not> has_id p_id q (bt_products s1))"
    by (simp split: option.splits)
  then show ?thesis
    by (simp add: upsert_subscription_from_purchase_def find_subscription_def write_subscription_def record_transaction_def
      bind_io_def stmt_def up_def ret_def Let_def f update_id_known [OF keyed sub(1)] tr update_rows_def
      apply_purchase_def comp_def cong: if_cong split: option.splits)
qed

text \<open>
  A purchase that was applied for one customer serves every other one of the app as well: it makes a new
  subscription with the same end, and leaves no trace in the transactions.
\<close>

theorem receipt_serves_many:
  assumes "billing_ok s" and "calls (upsert_subscription_from_purchase e cid pid p) s (Inr (sub, new)) s1"
    and "has_id c_id other (bt_customers s1)"
    and "\<forall>r \<in> set (t_rows (bt_subscriptions s1)). sub_key r \<noteq> (other, pu_store p, Some (purchase_otid p))"
  shows "\<exists>sub2 s2. upsert_subscription_from_purchase e other pid p (up s1) = (Inr (sub2, True), up s2) \<and>
    s_customer_id sub2 = other \<and> s_product_id sub2 = pid \<and> current_period_end sub2 = pu_expires p \<and>
    sub2 \<in> set (t_rows (bt_subscriptions s2)) \<and> t_rows (bt_transactions s2) = t_rows (bt_transactions s1)"
proof -
  from purchase_applied [OF assms(1,2)]
  have tr: "list_ex (\<lambda>r. tr_store r = pu_store p \<and> tr_transaction r = pu_transaction p) (t_rows (bt_transactions s1))"
    and refs: "references_ok other pid s1" using assms(3) by (auto simp: list_ex_iff references_ok_def)
  from assms(4) have f: "find (\<lambda>r. sub_key r = (other, pu_store p, Some (purchase_otid p))) (t_rows (bt_subscriptions s1)) = None"
    and u: "\<not> list_ex (\<lambda>r. sub_key r = (other, pu_store p, Some (purchase_otid p))) (t_rows (bt_subscriptions s1))"
    by (auto simp: find_None_all list_ex_iff)
  show ?thesis
    by (simp add: upsert_subscription_from_purchase_def find_subscription_def write_subscription_def record_transaction_def
      bind_io_def stmt_def up_def ret_def Let_def f u refs tr insert_row_def new_subscription_def)
qed

section \<open>Examples\<close>

definition demo_store_env :: store_env where
  "demo_store_env = \<lparr>be_now = 1000000, be_db_now = 1000000, be_digest = (\<lambda>_ _. 0)\<rparr>"

definition run :: "'a bill \<Rightarrow> billing \<Rightarrow> billing" where
  "run m s = st (snd (m (up s)))"

lemma calls_run: "calls m s (fst (m (up s))) (run m s)"
  unfolding calls_def run_def by (intro exI [of _ "up s"] exI [of _ "snd (m (up s))"]) simp

definition demo_purchase :: purchase where
  "demo_purchase = \<lparr>pu_store = STORE_STRIPE, pu_product = ''gold'', pu_transaction = ''t1'', pu_original = None, pu_at = None,
     pu_expires = Some 2000000, pu_trial = False, pu_renewal = False, pu_auto_renew = True, pu_raw = JNull\<rparr>"

definition demo_shop :: billing where
  "demo_shop = run (get_or_create_customer demo_store_env 1 ''v'') (run (get_or_create_customer demo_store_env 1 ''u'')
     (run (upsert_product 1 STORE_STRIPE ''gold'' ''auto_renewable'' None None None (JObject []))
       (run (create_app demo_store_env None ''app'' None ''multi'') (billing_schema []))))"

definition a_variant :: variant where
  "a_variant = \<lparr>v_id = 0, v_experiment_id = 0, v_identifier = ''a'', v_offering_id = 1, is_control = True, traffic_weight = 100\<rparr>"

definition demo_trial :: billing where
  "demo_trial = run (upsert_experiment 1 ''x'' None None [a_variant]) (run (upsert_offering 1 ''o'' True (JObject [])) demo_shop)"

definition the_variant :: variant where
  "the_variant = a_variant\<lparr>v_id := 1, v_experiment_id := 1\<rparr>"

definition demo_assigned :: billing where
  "demo_assigned = run (get_or_assign_variant demo_store_env 1 1 [the_variant]) demo_trial"

lemma reach_run: "billing_step\<^sup>*\<^sup>* x s \<Longrightarrow> billing_step s (run m s) \<Longrightarrow> billing_step\<^sup>*\<^sup>* x (run m s)"
  by (rule rtranclp.rtrancl_into_rtrancl)

lemma reach_op: "billing_step\<^sup>*\<^sup>* x s \<Longrightarrow> keeps (billing_step\<^sup>*\<^sup>* x) m \<Longrightarrow> billing_step\<^sup>*\<^sup>* x (run m s)"
  using calls_keeps [OF calls_run] by blast

lemma demo_reachable:
  "billing_step\<^sup>*\<^sup>* (billing_schema []) demo_shop" "billing_step\<^sup>*\<^sup>* (billing_schema []) demo_trial"
proof -
  show shop: "billing_step\<^sup>*\<^sup>* (billing_schema []) demo_shop"
    unfolding demo_shop_def
    by (intro reach_run rtranclp.rtrancl_refl billing_step.customer [OF calls_run] billing_step.product [OF calls_run]
        billing_step.app [OF calls_run])
  show "billing_step\<^sup>*\<^sup>* (billing_schema []) demo_trial"
    unfolding demo_trial_def
    by (intro reach_op shop operations_are_steps)
qed

lemma demo_variants:
  "t_rows (bt_variants demo_trial) = [the_variant]" "t_rows (bt_variants demo_assigned) = [the_variant]"
  "fst (get_or_assign_variant demo_store_env 1 1 [the_variant] (up demo_trial)) = Inr 1"
  "has_id v_id 1 (bt_variants (run (get_or_assign_variant demo_store_env 1 1 [the_variant]) demo_assigned))"
  "t_rows (bt_experiments demo_assigned) = [\<lparr>x_id = 1, x_app_id = 1, x_identifier = ''x'', x_status = ''draft'', x_metric = None,
     x_audience = None, x_started = None, x_ended = None\<rparr>]"
  "bt_assignments demo_assigned \<noteq> []"
  by code_simp+

lemma demo_assigned_again: "\<exists>v. fst (get_or_assign_variant demo_store_env 1 1 [the_variant] (up demo_assigned)) = Inr v"
  by (rule exI [of _ 1]) code_simp

text \<open>Two requests save a current offering each: both clear the mark, and then both set it.\<close>

definition demo_race :: billing where
  "demo_race = run (put_offering 1 ''b'' True (JObject [])) (run (put_offering 1 ''a'' True (JObject []))
     (run (clear_current 1) (run (clear_current 1) demo_shop)))"

theorem two_current_offerings:
  "billing_step\<^sup>*\<^sup>* (billing_schema []) demo_race
   \<and> map (\<lambda>r. (of_app_id r, of_identifier r)) (filter of_current (t_rows (bt_offerings demo_race))) = [(1, ''a''), (1, ''b'')]"
proof
  show "billing_step\<^sup>*\<^sup>* (billing_schema []) demo_race"
    unfolding demo_race_def
    by (intro reach_run demo_reachable billing_step.offering_put [OF calls_run] billing_step.offering_clear [OF calls_run])
  show "map (\<lambda>r. (of_app_id r, of_identifier r)) (filter of_current (t_rows (bt_offerings demo_race))) = [(1, ''a''), (1, ''b'')]"
    by code_simp
qed

theorem billing_keys_hold_witness:
  "map (\<lambda>a. (as_experiment a, as_customer a)) (bt_assignments demo_assigned) = [(1, 1)] \<and>
   list_all (\<lambda>a. list_ex (\<lambda>v. v_id v = as_variant a \<and> v_experiment_id v = as_experiment a)
     (t_rows (bt_variants demo_assigned))) (bt_assignments demo_assigned)"
proof
  show "map (\<lambda>a. (as_experiment a, as_customer a)) (bt_assignments demo_assigned) = [(1, 1)]" by code_simp
  have "billing_step\<^sup>*\<^sup>* (billing_schema []) demo_assigned"
    unfolding demo_assigned_def
    by (rule rtranclp_trans [OF demo_reachable(2)], rule assign_steps [OF _ calls_run])
      (simp add: variants_of_def own_variant_def demo_variants the_variant_def)
  from billing_keys_hold [OF this]
  have "\<forall>a \<in> set (bt_assignments demo_assigned). \<exists>v \<in> set (t_rows (bt_variants demo_assigned)).
      v_id v = as_variant a \<and> v_experiment_id v = as_experiment a" by (elim conjE)
  then show "list_all (\<lambda>a. list_ex (\<lambda>v. v_id v = as_variant a \<and> v_experiment_id v = as_experiment a)
     (t_rows (bt_variants demo_assigned))) (bt_assignments demo_assigned)" by (simp add: list_all_iff list_ex_iff)
qed

theorem variant_sticks_witness:
  "fst (get_or_assign_variant demo_store_env 1 1 [the_variant] (up demo_assigned)) = Inr 1"
proof -
  have vs: "variants_of 1 [the_variant] demo_trial" "variants_of 1 [the_variant] demo_assigned"
    by (simp_all add: variants_of_def own_variant_def demo_variants the_variant_def)
  obtain v where v: "fst (get_or_assign_variant demo_store_env 1 1 [the_variant] (up demo_assigned)) = Inr v"
    using demo_assigned_again by blast
  have "v = 1"
    by (rule variant_sticks [OF demo_reachable(2) vs(1) _ rtranclp.rtrancl_refl vs(2) _ demo_variants(4)])
      (use calls_run [of "get_or_assign_variant demo_store_env 1 1 [the_variant]" demo_trial]
        calls_run [of "get_or_assign_variant demo_store_env 1 1 [the_variant]" demo_assigned] v demo_variants(3)
       in \<open>simp_all add: demo_assigned_def\<close>)
  with v show ?thesis by simp
qed

theorem saving_forgets_assignments_witness:
  "bt_assignments (run (upsert_experiment 1 ''x'' None None [a_variant]) demo_assigned) = []"
proof -
  have "billing_step\<^sup>*\<^sup>* (billing_schema []) demo_assigned"
    unfolding demo_assigned_def
    by (rule rtranclp_trans [OF demo_reachable(2)], rule assign_steps [OF _ calls_run])
      (simp add: variants_of_def own_variant_def demo_variants the_variant_def)
  then have ok: "billing_ok demo_assigned" by (rule reachable_ok)
  have "fst (upsert_experiment 1 ''x'' None None [a_variant] (up demo_assigned)) \<noteq> Inl err" for err
    by code_simp
  then have "\<forall>a \<in> set (bt_assignments (run (upsert_experiment 1 ''x'' None None [a_variant]) demo_assigned)). as_experiment a \<noteq> 1"
    using saving_forgets_assignments [OF ok calls_run, where app_id = 1 and ident = "''x''" and metric = None and aid = None
        and variants = "[a_variant]"] demo_variants(5) by fastforce
  moreover have "\<forall>a \<in> set (bt_assignments (run (upsert_experiment 1 ''x'' None None [a_variant]) demo_assigned)). as_experiment a = 1"
    by code_simp
  ultimately show ?thesis by (metis list.set_intros(1) neq_Nil_conv)
qed

lemma demo_bought:
  "fst (upsert_subscription_from_purchase demo_store_env 1 (Some 1) demo_purchase (up demo_shop)) =
     Inr (new_subscription demo_store_env 1 (Some 1) demo_purchase 1, True)"
  by code_simp

theorem purchase_replay_witness:
  "\<exists>s2. upsert_subscription_from_purchase demo_store_env 1 (Some 1) demo_purchase
      (up (run (upsert_subscription_from_purchase demo_store_env 1 (Some 1) demo_purchase) demo_shop)) =
    (Inr (apply_purchase demo_store_env (Some 1) demo_purchase (new_subscription demo_store_env 1 (Some 1) demo_purchase 1), False), up s2)"
  using purchase_replay [OF reachable_ok [OF demo_reachable(1)] calls_run [of "upsert_subscription_from_purchase demo_store_env 1 (Some 1) demo_purchase" demo_shop, unfolded demo_bought],
    of demo_store_env] by blast

theorem receipt_serves_many_witness:
  "\<exists>sub2 s2. upsert_subscription_from_purchase demo_store_env 2 (Some 1) demo_purchase
      (up (run (upsert_subscription_from_purchase demo_store_env 1 (Some 1) demo_purchase) demo_shop)) = (Inr (sub2, True), up s2) \<and>
    s_customer_id sub2 = 2"
proof -
  have "has_id c_id 2 (bt_customers (run (upsert_subscription_from_purchase demo_store_env 1 (Some 1) demo_purchase) demo_shop))"
    "\<forall>r \<in> set (t_rows (bt_subscriptions (run (upsert_subscription_from_purchase demo_store_env 1 (Some 1) demo_purchase) demo_shop))).
       sub_key r \<noteq> (2, pu_store demo_purchase, Some (purchase_otid demo_purchase))"
    by code_simp+
  with receipt_serves_many [OF reachable_ok [OF demo_reachable(1)] calls_run [of "upsert_subscription_from_purchase demo_store_env 1 (Some 1) demo_purchase" demo_shop, unfolded demo_bought],
    of 2] show ?thesis by blast
qed

end
