(* ===== verification/BillingApi.thy ===== *)
theory BillingApi imports BillingStore Auth Server begin

text \<open>
  The HTTP interface of the billing module (\<open>src/src/billing/handlers.rs\<close>, \<open>routes.rs\<close>, \<open>state.rs\<close>), the
  outbound webhooks (\<open>src/src/billing/webhooks.rs\<close>) and the seeding of the default plans
  (\<open>src/src/billing/mod.rs\<close>). A handler takes the \<open>Authorization\<close> header, what axum read from the path, the
  query and the body, and returns the \<open>data\<close> of its answer, without the envelope of JSON around it. The state
  extends the tables of the accounts. What the outside world answers is a parameter.
\<close>

record shop = auth_db +
  sh_billing :: billing

type_synonym 'a api = "(shop, 'a) io"

datatype send_result = Sent | HttpStatus string | RequestError string

record 'f api_env =
  ba_store :: store_env
  ba_auth :: auth_env
  ba_authorization :: authorization_service
  ba_times :: times
  ba_floats :: "'f floats"
  ba_apple :: apple_client
  ba_google :: "string \<Rightarrow> string \<Rightarrow> http_answer"
  ba_hmac :: "string \<Rightarrow> string \<Rightarrow> string"
  ba_stripe_key :: "string option"
  ba_checkout :: "string \<Rightarrow> (string \<times> string) list \<Rightarrow> string + bool \<times> (string + json)"
  ba_cancel :: "string \<Rightarrow> string \<Rightarrow> string + bool \<times> json option"
  ba_send :: "int \<Rightarrow> string \<Rightarrow> string \<Rightarrow> string \<Rightarrow> string \<Rightarrow> send_result"
  ba_json_bytes :: "json \<Rightarrow> string"
  ba_parse_json :: "string \<Rightarrow> json option"
  ba_b64 :: "string \<Rightarrow> string option"
  ba_rfc3339 :: "int \<Rightarrow> string"
  ba_time_text :: "int \<Rightarrow> string"
  ba_in_days :: "int \<Rightarrow> int \<Rightarrow> int option"
  default_apple_shared_secret :: "string option"
  default_stripe_signing_secret :: "string option"
  default_google_access_token :: "string option"

definition on_billing :: "'a bill \<Rightarrow> 'a api" where
  "on_billing = zoom sh_billing (\<lambda>b s. s\<lparr>sh_billing := b\<rparr>)"

section \<open>The extractors\<close>

definition authed_user :: "'f api_env \<Rightarrow> string option \<Rightarrow> auth_user api" where
  "authed_user e header = lift (extract_auth_user (ba_auth e) header)"

definition admin_auth :: "'f api_env \<Rightarrow> string option \<Rightarrow> auth_user api" where
  "admin_auth e header =
     bind_io (lift (extract_auth_user (ba_auth e) header)) (\<lambda>who.
     bind_io (get_user_by_id (ba_auth e) (aw_id who)) (\<lambda>u.
     bind_io (lift (require_service_admin_unconditional (ba_authorization e) u)) (\<lambda>_. ret who)))"

definition as_admin :: "'f api_env \<Rightarrow> string option \<Rightarrow> 'a bill \<Rightarrow> 'a api" where
  "as_admin e header m = bind_io (admin_auth e header) (\<lambda>_. on_billing m)"

definition as_user :: "'f api_env \<Rightarrow> string option \<Rightarrow> 'a bill \<Rightarrow> 'a api" where
  "as_user e header m = bind_io (authed_user e header) (\<lambda>_. on_billing m)"

section \<open>Outbound webhooks\<close>

definition BACKOFF_SECS :: "int list" where
  "BACKOFF_SECS = [60, 300, 1800, 7200, 43200]"

definition MAX_ATTEMPTS :: int where
  "MAX_ATTEMPTS = 5"

definition event_matches :: "json \<Rightarrow> string \<Rightarrow> bool" where
  "event_matches flt event_type =
     (case as_array flt of
        None \<Rightarrow> True
      | Some arr \<Rightarrow> arr = [] \<or> list_ex (\<lambda>v. as_str v = Some event_type) arr)"

definition enqueue_event :: "'f api_env \<Rightarrow> int \<Rightarrow> billing_event \<Rightarrow> json \<Rightarrow> unit bill" where
  "enqueue_event e app_id event payload =
     bind_io (list_webhook_endpoints app_id) (\<lambda>endpoints.
       let event_body = JObject (obj_of
         [(''type'', JString (event_str event)), (''api_version'', JString ''2024-01''),
          (''created_at'', JString (ba_rfc3339 e (be_now (ba_store e)))), (''data'', payload)])
       in for_io (\<lambda>ep _. if \<not> event_matches (ep_events ep) (event_str event) then ret ()
          else enqueue_delivery (ba_store e) (ep_id ep) (event_str event) event_body) endpoints ())"

definition sign_payload :: "'f api_env \<Rightarrow> string \<Rightarrow> string \<Rightarrow> int \<Rightarrow> string" where
  "sign_payload e secret body now = ''t='' @ show_int now @ '',v1='' @ ba_hmac e secret (show_int now @ ''.'' @ body)"

definition record_failure :: "'f api_env \<Rightarrow> int \<Rightarrow> int \<Rightarrow> string \<Rightarrow> unit bill" where
  "record_failure e i tried err =
     (let next_attempts = tried + 1; now = be_db_now (ba_store e) in
      if next_attempts \<ge> MAX_ATTEMPTS
      then exec (\<lambda>s. s\<lparr>bt_deliveries := update_rows (\<lambda>d. de_id d = i)
        (\<lambda>d. d\<lparr>de_status := ''failed'', de_attempts := next_attempts, de_error := Some err, de_updated := now\<rparr>) (bt_deliveries s)\<rparr>)
      else exec (\<lambda>s. s\<lparr>bt_deliveries := update_rows (\<lambda>d. de_id d = i)
        (\<lambda>d. d\<lparr>de_attempts := next_attempts, de_error := Some err,
           de_next := now + BACKOFF_SECS ! (nat next_attempts mod length BACKOFF_SECS) * 1000000, de_updated := now\<rparr>)
        (bt_deliveries s)\<rparr>))"

definition mark_delivered :: "'f api_env \<Rightarrow> int \<Rightarrow> unit bill" where
  "mark_delivered e i = exec (\<lambda>s. s\<lparr>bt_deliveries := update_rows (\<lambda>d. de_id d = i)
     (\<lambda>d. d\<lparr>de_status := ''delivered'', de_attempts := de_attempts d + 1, de_updated := be_db_now (ba_store e)\<rparr>) (bt_deliveries s)\<rparr>)"

text \<open>The deliveries that are due, with the URL and the secret of their endpoints, at most 50.\<close>

definition due_deliveries :: "'f api_env \<Rightarrow> billing \<Rightarrow> (delivery_row \<times> endpoint_row) list" where
  "due_deliveries e s = take 50 (sort_key (\<lambda>(d, _). de_next d) (concat (map (\<lambda>d.
     map (\<lambda>ep. (d, ep)) (filter (\<lambda>ep. ep_id ep = de_endpoint d \<and> ep_active ep) (t_rows (bt_endpoints s))))
     (filter (\<lambda>d. de_status d = ''pending'' \<and> de_next d \<le> be_db_now (ba_store e)) (t_rows (bt_deliveries s))))))"

definition deliver :: "'f api_env \<Rightarrow> delivery_row \<times> endpoint_row \<Rightarrow> nat \<Rightarrow> nat bill" where
  "deliver e row n =
     (case row of (d, ep) \<Rightarrow>
        let body = ba_json_bytes e (de_payload d);
            signature = sign_payload e (ep_secret ep) body (timestamp (be_now (ba_store e)))
        in case ba_send e (de_id d) (ep_url ep) signature (de_event d) body of
             Sent \<Rightarrow> bind_io (mark_delivered e (de_id d)) (\<lambda>_. ret (n + 1))
           | HttpStatus code \<Rightarrow> bind_io (record_failure e (de_id d) (de_attempts d) (''http '' @ code)) (\<lambda>_. ret n)
           | RequestError err \<Rightarrow> bind_io (record_failure e (de_id d) (de_attempts d) (''request error: '' @ err)) (\<lambda>_. ret n))"

definition drain_once :: "'f api_env \<Rightarrow> nat bill" where
  "drain_once e = bind_io (stmt (\<lambda>s. Inr (due_deliveries e s, s))) (\<lambda>queue. for_io (deliver e) queue 0)"

section \<open>Helpers\<close>

definition json_opt :: "('a \<Rightarrow> json) \<Rightarrow> 'a option \<Rightarrow> json" where
  "json_opt f v = (case v of None \<Rightarrow> JNull | Some a \<Rightarrow> f a)"

definition subscription_json :: "'f api_env \<Rightarrow> subscription \<Rightarrow> json" where
  "subscription_json e s = (let time = json_opt (\<lambda>t. JString (ba_time_text e t)) in JObject (obj_of
     [(''id'', json_int (s_id s)), (''customer_id'', json_int (s_customer_id s)), (''product_id'', json_opt json_int (s_product_id s)),
      (''store'', JString (s_store s)), (''original_transaction_id'', json_opt JString (original_transaction_id s)),
      (''current_period_start'', time (current_period_start s)), (''current_period_end'', time (current_period_end s)),
      (''status'', JString (s_status s)), (''auto_renew'', JBool (auto_renew s)),
      (''unsubscribe_detected_at'', time (unsubscribe_detected_at s)),
      (''billing_issues_detected_at'', time (billing_issues_detected_at s)),
      (''grace_period_expires_at'', time (grace_period_expires_at s)), (''is_trial'', JBool (is_trial s)),
      (''updated_at'', time (Some (s_updated_at s)))]))"

definition lifecycle_event :: "subscription \<Rightarrow> bool \<Rightarrow> bool \<Rightarrow> billing_event" where
  "lifecycle_event sub is_new is_renewal =
     (if is_new then InitialPurchase else if is_renewal then Renewal else if \<not> auto_renew sub then Cancellation else ProductChange)"

definition dispatch_lifecycle_event :: "'f api_env \<Rightarrow> int \<Rightarrow> subscription \<Rightarrow> bool \<Rightarrow> bool \<Rightarrow> unit bill" where
  "dispatch_lifecycle_event e app_id sub is_new is_renewal =
     bind_io (attempt (enqueue_event e app_id (lifecycle_event sub is_new is_renewal)
       (JObject [(''subscription'', subscription_json e sub)]))) (\<lambda>_. ret ())"

definition dispatch_experiment_event ::
  "'f api_env \<Rightarrow> int \<Rightarrow> billing_event \<Rightarrow> experiment_row \<Rightarrow> variant \<Rightarrow> customer \<Rightarrow> json \<Rightarrow> unit bill" where
  "dispatch_experiment_event e app_id event x v c meta =
     bind_io (attempt (enqueue_event e app_id event (JObject (obj_of
       [(''experiment_id'', json_int (x_id x)), (''experiment_identifier'', JString (x_identifier x)),
        (''variant_id'', json_int (v_id v)), (''variant_identifier'', JString (v_identifier v)),
        (''customer_id'', json_int (c_id c)), (''app_user_id'', JString (c_user c)), (''metadata'', meta)])))) (\<lambda>_. ret ())"

section \<open>Administration\<close>

record create_app_req =
  ca_name :: string
  ca_project_id :: "int option"
  ca_bundle_id :: "string option"
  ca_platform :: "string option"

definition create_app_handler :: "'f api_env \<Rightarrow> string option \<Rightarrow> create_app_req \<Rightarrow> app api" where
  "create_app_handler e header req = as_admin e header
     (create_app (ba_store e) (ca_project_id req) (ca_name req) (ca_bundle_id req) (unwrap_or ''multi'' (ca_platform req)))"

definition list_apps_handler :: "'f api_env \<Rightarrow> string option \<Rightarrow> app list api" where
  "list_apps_handler e header = as_admin e header list_apps"

record update_secrets_req =
  us_apple_shared_secret :: "string option"
  us_google_service_account :: "string option"
  us_stripe_signing_secret :: "string option"
  us_outbound_webhook_secret :: "string option"

definition update_app_secrets_handler :: "'f api_env \<Rightarrow> string option \<Rightarrow> int \<Rightarrow> update_secrets_req \<Rightarrow> unit api" where
  "update_app_secrets_handler e header app_id req = as_admin e header
     (update_app_secrets app_id (us_apple_shared_secret req) (us_google_service_account req)
        (us_stripe_signing_secret req) (us_outbound_webhook_secret req))"

record upsert_product_req =
  up_app_id :: int
  up_store :: string
  up_store_product_id :: string
  up_product_type :: "string option"
  up_period :: "string option"
  up_price_micros :: "int option"
  up_currency :: "string option"
  up_metadata :: "json option"

definition upsert_product_handler :: "'f api_env \<Rightarrow> string option \<Rightarrow> upsert_product_req \<Rightarrow> product api" where
  "upsert_product_handler e header req = as_admin e header
     (upsert_product (up_app_id req) (up_store req) (up_store_product_id req)
        (unwrap_or ''auto_renewable'' (up_product_type req)) (up_period req) (up_price_micros req) (up_currency req)
        (unwrap_or (JObject []) (up_metadata req)))"

definition list_products_handler :: "'f api_env \<Rightarrow> string option \<Rightarrow> int \<Rightarrow> product list api" where
  "list_products_handler e header app_id = as_admin e header (list_products app_id)"

record upsert_entitlement_req =
  ue_app_id :: int
  ue_identifier :: string
  ue_display_name :: "string option"
  ue_product_ids :: "int list"

definition upsert_entitlement_handler :: "'f api_env \<Rightarrow> string option \<Rightarrow> upsert_entitlement_req \<Rightarrow> entitlement api" where
  "upsert_entitlement_handler e header req = as_admin e header
     (bind_io (upsert_entitlement (ue_app_id req) (ue_identifier req) (ue_display_name req)) (\<lambda>ent.
      bind_io (for_io (\<lambda>pid _. attach_product_to_entitlement (e_id ent) pid) (ue_product_ids req) ()) (\<lambda>_. ret ent)))"

definition list_entitlements_handler :: "'f api_env \<Rightarrow> string option \<Rightarrow> int \<Rightarrow> (entitlement \<times> int list) list api" where
  "list_entitlements_handler e header app_id = as_admin e header (entitlement_product_map app_id)"

record package_input =
  pi_identifier :: string
  pi_product_id :: int
  pi_package_type :: "string option"

record upsert_offering_req =
  uo_app_id :: int
  uo_identifier :: string
  uo_is_current :: bool
  uo_metadata :: "json option"
  uo_packages :: "package_input list"

definition upsert_offering_handler :: "'f api_env \<Rightarrow> string option \<Rightarrow> upsert_offering_req \<Rightarrow> offering api" where
  "upsert_offering_handler e header req = as_admin e header
     (bind_io (upsert_offering (uo_app_id req) (uo_identifier req) (uo_is_current req) (unwrap_or (JObject []) (uo_metadata req))) (\<lambda>off.
      bind_io (for_io (\<lambda>pkg acc. bind_io (add_package (of_id off) (pi_identifier pkg) (pi_product_id pkg) (pi_package_type pkg))
        (\<lambda>created. ret (acc @ [created]))) (uo_packages req) []) (\<lambda>ps. ret (off\<lparr>of_packages := ps\<rparr>))))"

text \<open>This one asks for nobody.\<close>

definition list_offerings_handler :: "int \<Rightarrow> offering list api" where
  "list_offerings_handler app_id = on_billing (list_offerings app_id)"

record grant_promotional_req =
  gp_app_id :: int
  gp_app_user_id :: string
  gp_product_id :: int
  gp_duration_days :: int

text \<open>A duration outside of chrono's range makes the task panic: the client gets no answer.\<close>

definition grant_promotional_handler :: "'f api_env \<Rightarrow> string option \<Rightarrow> grant_promotional_req \<Rightarrow> subscription api" where
  "grant_promotional_handler e header req = as_admin e header
     (bind_io (get_or_create_customer (ba_store e) (gp_app_id req) (gp_app_user_id req)) (\<lambda>c.
      bind_io (lift (ok_or (Internal ''panic'') (ba_in_days e (be_now (ba_store e)) (gp_duration_days req)))) (\<lambda>expires.
      bind_io (grant_promotional (ba_store e) (c_id c) (gp_product_id req) expires) (\<lambda>sub.
      bind_io (dispatch_lifecycle_event e (gp_app_id req) sub True False) (\<lambda>_. ret sub)))))"

record add_webhook_endpoint_req =
  aw_app_id :: int
  aw_url :: string
  aw_secret :: string
  aw_events :: "string list"

definition add_webhook_endpoint_handler :: "'f api_env \<Rightarrow> string option \<Rightarrow> add_webhook_endpoint_req \<Rightarrow> int api" where
  "add_webhook_endpoint_handler e header req = as_admin e header
     (add_webhook_endpoint (aw_app_id req) (aw_url req) (aw_secret req) (JArray (map JString (aw_events req))))"

record upsert_audience_req =
  ur_app_id :: int
  ur_identifier :: string
  ur_display_name :: "string option"
  ur_rules :: "json option"

definition upsert_audience_handler :: "'f api_env \<Rightarrow> string option \<Rightarrow> upsert_audience_req \<Rightarrow> audience api" where
  "upsert_audience_handler e header req = as_admin e header
     (upsert_audience (ur_app_id req) (ur_identifier req) (ur_display_name req) (unwrap_or (JArray []) (ur_rules req)))"

definition list_audiences_handler :: "'f api_env \<Rightarrow> string option \<Rightarrow> int \<Rightarrow> audience list api" where
  "list_audiences_handler e header app_id = as_admin e header (list_audiences app_id)"

record variant_input =
  vi_identifier :: string
  vi_offering_id :: int
  vi_is_control :: bool
  vi_traffic_weight :: int

record upsert_experiment_req =
  ux_app_id :: int
  ux_identifier :: string
  ux_metric :: "string option"
  ux_audience_id :: "int option"
  ux_variants :: "variant_input list"

definition variant_of_input :: "variant_input \<Rightarrow> variant" where
  "variant_of_input v = \<lparr>v_id = 0, v_experiment_id = 0, v_identifier = vi_identifier v, v_offering_id = vi_offering_id v,
     is_control = vi_is_control v, traffic_weight = vi_traffic_weight v\<rparr>"

definition upsert_experiment_handler :: "'f api_env \<Rightarrow> string option \<Rightarrow> upsert_experiment_req \<Rightarrow> experiment_with_variants api" where
  "upsert_experiment_handler e header req = as_admin e header
     (if ux_variants req = [] then fail (InvalidPayload ''experiment must have at least one variant'')
      else bind_io (lift (validate_traffic_weights (map variant_of_input (ux_variants req)))) (\<lambda>_.
        upsert_experiment (ux_app_id req) (ux_identifier req) (ux_metric req) (ux_audience_id req) (map variant_of_input (ux_variants req))))"

definition list_experiments_handler :: "'f api_env \<Rightarrow> string option \<Rightarrow> int \<Rightarrow> experiment_with_variants list api" where
  "list_experiments_handler e header app_id = as_admin e header (list_experiments app_id)"

definition update_experiment_status_handler ::
  "'f api_env \<Rightarrow> string option \<Rightarrow> int \<Rightarrow> string \<Rightarrow> experiment_with_variants api" where
  "update_experiment_status_handler e header xid status = as_admin e header
     (bind_io (get_experiment xid) (\<lambda>current.
      bind_io (if status = ''running'' \<and> x_status (xv_experiment current) \<noteq> ''running''
               then lift (validate_traffic_weights (xv_variants current)) else ret ()) (\<lambda>_.
      update_experiment_status xid status
        (if status = ''running'' then Some (be_now (ba_store e)) else x_started (xv_experiment current))
        (if status = ''completed'' \<or> status = ''paused'' then Some (be_now (ba_store e)) else x_ended (xv_experiment current)))))"

definition get_experiment_results_handler ::
  "'f api_env \<Rightarrow> 'g \<Rightarrow> (int \<Rightarrow> int \<Rightarrow> 'g) \<Rightarrow> (int \<times> int \<Rightarrow> int \<times> int \<Rightarrow> 'g option) \<Rightarrow> string option \<Rightarrow> int \<Rightarrow> 'g variant_result list api" where
  "get_experiment_results_handler e zero rate score header xid = as_admin e header (experiment_results zero rate score xid)"

definition set_offering_audience_handler :: "'f api_env \<Rightarrow> string option \<Rightarrow> int \<Rightarrow> int option \<Rightarrow> unit api" where
  "set_offering_audience_handler e header oid aid = as_admin e header (set_offering_audience oid aid)"

record upsert_paywall_req =
  pq_offering_id :: int
  pq_template :: "string option"
  pq_config :: "json option"
  pq_draft_config :: "json option"

definition upsert_paywall_handler :: "'f api_env \<Rightarrow> string option \<Rightarrow> upsert_paywall_req \<Rightarrow> paywall api" where
  "upsert_paywall_handler e header req = as_admin e header
     (upsert_paywall (pq_offering_id req) (pq_template req) (unwrap_or (JObject []) (pq_config req)) (pq_draft_config req))"

definition get_paywall_handler :: "'f api_env \<Rightarrow> string option \<Rightarrow> int \<Rightarrow> paywall option api" where
  "get_paywall_handler e header oid = as_admin e header (get_paywall oid)"

definition publish_paywall_handler :: "'f api_env \<Rightarrow> string option \<Rightarrow> int \<Rightarrow> paywall api" where
  "publish_paywall_handler e header oid = as_admin e header (publish_draft_paywall oid)"

section \<open>Customers\<close>

definition resolve_now :: "'f api_env \<Rightarrow> int \<Rightarrow> int \<Rightarrow> entitlement_info list bill" where
  "resolve_now e app_id cid = resolve_entitlements app_id cid (be_now (ba_store e))"

definition customer_view :: "'f api_env \<Rightarrow> int \<Rightarrow> string \<Rightarrow> (customer \<times> subscription list \<times> entitlement_info list) bill" where
  "customer_view e app_id user =
     bind_io (get_or_create_customer (ba_store e) app_id user) (\<lambda>c.
     bind_io (list_subscriptions (c_id c)) (\<lambda>subs.
     bind_io (resolve_now e app_id (c_id c)) (\<lambda>ents. ret (c, subs, ents))))"

definition get_customer_handler ::
  "'f api_env \<Rightarrow> string option \<Rightarrow> string \<Rightarrow> int \<Rightarrow> (customer \<times> subscription list \<times> entitlement_info list) api" where
  "get_customer_handler e header user app_id = as_user e header (customer_view e app_id user)"

definition get_my_subscription_handler ::
  "'f api_env \<Rightarrow> string option \<Rightarrow> int \<Rightarrow> (customer \<times> subscription list \<times> entitlement_info list) api" where
  "get_my_subscription_handler e header app_id =
     bind_io (authed_user e header) (\<lambda>who. on_billing (customer_view e app_id (show_int (aw_id who))))"

definition get_entitlements_handler :: "'f api_env \<Rightarrow> string option \<Rightarrow> string \<Rightarrow> int \<Rightarrow> entitlement_info list api" where
  "get_entitlements_handler e header user app_id = as_user e header
     (bind_io (get_or_create_customer (ba_store e) app_id user) (\<lambda>c. resolve_now e app_id (c_id c)))"

definition set_attributes_handler :: "'f api_env \<Rightarrow> string option \<Rightarrow> string \<Rightarrow> int \<Rightarrow> json \<Rightarrow> unit api" where
  "set_attributes_handler e header user app_id attrs = as_user e header
     (bind_io (get_or_create_customer (ba_store e) app_id user) (\<lambda>c. set_attributes (ba_store e) (c_id c) attrs))"

definition add_alias_handler :: "'f api_env \<Rightarrow> string option \<Rightarrow> string \<Rightarrow> int \<Rightarrow> string \<Rightarrow> unit api" where
  "add_alias_handler e header user app_id nm = as_user e header
     (bind_io (get_or_create_customer (ba_store e) app_id user) (\<lambda>c. add_alias (c_id c) nm))"

text \<open>The statements every receipt ends with: the product, the subscription and the event.\<close>

definition apply_receipt :: "'f api_env \<Rightarrow> int \<Rightarrow> string \<Rightarrow> int \<Rightarrow> purchase \<Rightarrow> (subscription \<times> bool) bill" where
  "apply_receipt e app_id sto cid p =
     bind_io (upsert_product app_id sto (pu_product p) ''auto_renewable'' None None None (JObject [])) (\<lambda>product.
     bind_io (upsert_subscription_from_purchase (ba_store e) cid (Some (p_id product)) p) (\<lambda>(sub, is_new).
     bind_io (dispatch_lifecycle_event e app_id sub is_new (pu_renewal p)) (\<lambda>_. ret (sub, is_new))))"

definition apple_receipt_handler ::
  "'f api_env \<Rightarrow> string option \<Rightarrow> string \<Rightarrow> int \<Rightarrow> string \<Rightarrow> (nat \<times> nat \<times> entitlement_info list) api" where
  "apple_receipt_handler e header user app_id receipt = as_user e header
     (bind_io (get_app_secrets app_id) (\<lambda>(apple_secret, _).
      bind_io (lift (apple_verify_receipt (ba_times e) (ba_apple e) receipt
        (coalesce apple_secret (default_apple_shared_secret e)))) (\<lambda>purchases.
      bind_io (get_or_create_customer (ba_store e) app_id user) (\<lambda>c.
      bind_io (record_receipt (ba_store e) (c_id c) STORE_APPLE receipt None) (\<lambda>_.
      bind_io (for_io (\<lambda>p (applied, new_count). bind_io (apply_receipt e app_id STORE_APPLE (c_id c) p) (\<lambda>(_, is_new).
        ret (applied + 1, if is_new then new_count + 1 else new_count))) purchases (0, 0)) (\<lambda>(applied, new_count).
      bind_io (resolve_now e app_id (c_id c)) (\<lambda>ents. ret (applied, new_count, ents))))))))"

record google_receipt_req =
  gr_app_id :: int
  gr_package_name :: string
  gr_subscription_id :: string
  gr_purchase_token :: string
  gr_access_token :: "string option"

definition google_receipt_handler ::
  "'f api_env \<Rightarrow> string option \<Rightarrow> string \<Rightarrow> google_receipt_req \<Rightarrow> (subscription \<times> entitlement_info list) api" where
  "google_receipt_handler e header user req = as_user e header
     (bind_io (lift (ok_or (InvalidPayload ''Google access_token required (no default configured)'')
        (coalesce (gr_access_token req) (default_google_access_token e)))) (\<lambda>token.
      bind_io (lift (google_verify_subscription (ba_times e) (ba_google e) token (gr_package_name req) (gr_subscription_id req)
        (gr_purchase_token req))) (\<lambda>p.
      bind_io (get_or_create_customer (ba_store e) (gr_app_id req) user) (\<lambda>c.
      bind_io (record_receipt (ba_store e) (c_id c) STORE_GOOGLE (gr_purchase_token req) (Some (pu_raw p))) (\<lambda>_.
      bind_io (apply_receipt e (gr_app_id req) STORE_GOOGLE (c_id c) p) (\<lambda>(sub, _).
      bind_io (resolve_now e (gr_app_id req) (c_id c)) (\<lambda>ents. ret (sub, ents))))))))"

definition stripe_link_handler :: "'f api_env \<Rightarrow> string option \<Rightarrow> string \<Rightarrow> int \<Rightarrow> json \<Rightarrow> subscription api" where
  "stripe_link_handler e header user app_id event = as_user e header
     (bind_io (lift (ok_or (InvalidPayload ''Unsupported stripe event'') (stripe_event_to_purchase (ba_times e) event))) (\<lambda>p.
      bind_io (get_or_create_customer (ba_store e) app_id user) (\<lambda>c.
      bind_io (apply_receipt e app_id STORE_STRIPE (c_id c) p) (\<lambda>(sub, _). ret sub))))"

section \<open>Messages of the stores\<close>

definition apple_inbound_webhook :: "('c, 'k, 'g, 'r) crypto \<Rightarrow> string \<Rightarrow> (json \<times> json option) result" where
  "apple_inbound_webhook c signed_payload =
     and_then (apple_decode_jws_payload c signed_payload) (\<lambda>payload.
       Inr (payload, Option.bind (Option.bind (jget payload ''data'') (\<lambda>d. get_str d ''signedTransactionInfo''))
         (\<lambda>s. case apple_decode_jws_payload c s of Inl _ \<Rightarrow> None | Inr v \<Rightarrow> Some v)))"

definition google_inbound_webhook :: "'f api_env \<Rightarrow> json \<Rightarrow> json result" where
  "google_inbound_webhook e message =
     and_then (ok_or (InvalidPayload ''google pubsub: no data'') (get_str message ''data'')) (\<lambda>data_str.
     and_then (ok_or (InvalidPayload ''google pubsub b64'') (ba_b64 e data_str)) (\<lambda>decoded.
     ok_or (JsonError ''google pubsub'') (ba_parse_json e decoded)))"

definition event_object :: "json \<Rightarrow> json option" where
  "event_object event = Option.bind (jget event ''data'') (\<lambda>d. jget d ''object'')"

definition event_metadata :: "json \<Rightarrow> string \<Rightarrow> string option" where
  "event_metadata event k = Option.bind (Option.bind (event_object event) (\<lambda>o'. jget o' ''metadata'')) (\<lambda>m. get_str m k)"

definition event_app_id :: "int option \<Rightarrow> json \<Rightarrow> int option" where
  "event_app_id param event = coalesce param (Option.bind (event_metadata event ''app_id'') parse_i64)"

definition event_user :: "json \<Rightarrow> purchase \<Rightarrow> string" where
  "event_user event p = unwrap_or (''stripe:'' @ pu_transaction p)
     (coalesce (event_metadata event ''app_user_id'') (Option.bind (event_object event) (\<lambda>o'. get_str o' ''client_reference_id'')))"

definition stripe_inbound_webhook :: "'f api_env \<Rightarrow> int option \<Rightarrow> string option \<Rightarrow> string \<Rightarrow> unit api" where
  "stripe_inbound_webhook e param sig_header body =
     bind_io (lift (ok_or (Unauthorized ''Missing Stripe-Signature'') sig_header)) (\<lambda>sig.
     bind_io (lift (ok_or (JsonError ''body'') (ba_parse_json e body))) (\<lambda>event.
     bind_io (lift (ok_or (InvalidPayload ''app_id required (query param or metadata)'') (event_app_id param event))) (\<lambda>app_id.
     on_billing
       (bind_io (get_app_secrets app_id) (\<lambda>(_, _, stripe_secret, _).
        bind_io (lift (ok_or (Unauthorized ''No Stripe signing secret configured'')
          (coalesce stripe_secret (default_stripe_signing_secret e)))) (\<lambda>secret.
        bind_io (lift (stripe_verify_signature (ba_hmac e) body sig secret 300 (timestamp (be_now (ba_store e))))) (\<lambda>_.
          case stripe_event_to_purchase (ba_times e) event of
            None \<Rightarrow> ret ()
          | Some p \<Rightarrow>
              bind_io (get_or_create_customer (ba_store e) app_id (event_user event p)) (\<lambda>c.
              bind_io (apply_receipt e app_id STORE_STRIPE (c_id c) p) (\<lambda>_. ret ())))))))))"

section \<open>Checkout and cancellation\<close>

record create_checkout_req =
  cc_app_id :: int
  cc_price_id :: string
  cc_app_user_id :: string
  cc_customer_email :: "string option"
  cc_success_url :: string
  cc_cancel_url :: string

definition stripe_secret_key :: "'f api_env \<Rightarrow> string result" where
  "stripe_secret_key e = ok_or (Internal ''STRIPE_SECRET_KEY not configured on the server'') (ba_stripe_key e)"

definition checkout_form :: "create_checkout_req \<Rightarrow> (string \<times> string) list" where
  "checkout_form req =
     [(''mode'', ''subscription''), (''line_items[0][price]'', cc_price_id req), (''line_items[0][quantity]'', ''1''),
      (''client_reference_id'', cc_app_user_id req), (''success_url'', cc_success_url req), (''cancel_url'', cc_cancel_url req)] @
     (case cc_customer_email req of None \<Rightarrow> [] | Some email \<Rightarrow> [(''customer_email'', email)]) @
     [(''metadata[app_id]'', show_int (cc_app_id req)), (''metadata[app_user_id]'', cc_app_user_id req)]"

definition stripe_message :: "string \<Rightarrow> json \<Rightarrow> string" where
  "stripe_message otherwise body = unwrap_or otherwise (Option.bind (jget body ''error'') (\<lambda>er. get_str er ''message''))"

definition create_checkout_handler :: "'f api_env \<Rightarrow> string option \<Rightarrow> create_checkout_req \<Rightarrow> (string \<times> string) api" where
  "create_checkout_handler e header req =
     bind_io (authed_user e header) (\<lambda>_.
     bind_io (lift (stripe_secret_key e)) (\<lambda>key.
       case ba_checkout e key (checkout_form req) of
         Inl err \<Rightarrow> fail (Internal (''Stripe checkout: '' @ err))
       | Inr (success, Inl err) \<Rightarrow> fail (Internal (''Stripe checkout parse: '' @ err))
       | Inr (success, Inr body) \<Rightarrow>
           if \<not> success then fail (Internal (stripe_message ''Stripe checkout failed'' body))
           else ret (unwrap_or [] (get_str body ''url''), unwrap_or [] (get_str body ''id''))))"

text \<open>A body that is no JSON counts as the empty object.\<close>

definition cancel_at_stripe :: "'f api_env \<Rightarrow> string \<Rightarrow> string \<Rightarrow> unit result" where
  "cancel_at_stripe e key sub_id =
     (case ba_cancel e key (''https://api.stripe.com/v1/subscriptions/'' @ sub_id) of
        Inl err \<Rightarrow> Inl (Internal (''Stripe cancel: '' @ err))
      | Inr (success, body) \<Rightarrow>
          if \<not> success then Inl (Internal (stripe_message ''Stripe cancel failed'' (unwrap_or (JObject []) body))) else Inr ())"

definition cancel_subscription_handler :: "'f api_env \<Rightarrow> string option \<Rightarrow> int \<Rightarrow> string \<Rightarrow> unit api" where
  "cancel_subscription_handler e header app_id user =
     bind_io (authed_user e header) (\<lambda>_.
     bind_io (lift (stripe_secret_key e)) (\<lambda>key.
     on_billing
       (bind_io (get_or_create_customer (ba_store e) app_id user) (\<lambda>c.
        bind_io (list_subscriptions (c_id c)) (\<lambda>subs.
        bind_io (lift (ok_or (NotFound ''No active Stripe subscription found'')
          (find (\<lambda>s. s_store s = STORE_STRIPE \<and> s_status s = ''active'') subs))) (\<lambda>sub.
        bind_io (lift (ok_or (NotFound ''Subscription missing Stripe ID'') (original_transaction_id sub))) (\<lambda>sub_id.
        bind_io (lift (cancel_at_stripe e key sub_id)) (\<lambda>_.
        bind_io (mark_subscription_cancelled (ba_store e) (c_id c) STORE_STRIPE sub_id) (\<lambda>_.
        dispatch_lifecycle_event e app_id sub False False)))))))))"

definition list_subscription_plans_handler :: "json list api" where
  "list_subscription_plans_handler = on_billing query_plans"

section \<open>Offerings for a customer\<close>

record resolved_offering =
  ro_offering :: offering
  ro_paywall :: "paywall option"
  ro_experiment :: "(int \<times> string \<times> int \<times> string) option"

text \<open>The audience of an experiment: \<open>None\<close> lets everyone take part.\<close>

definition takes_part :: "'f api_env \<Rightarrow> int \<Rightarrow> audience_context \<Rightarrow> experiment_row \<Rightarrow> bool bill" where
  "takes_part e app_id ctx x =
     (case x_audience x of
        None \<Rightarrow> ret True
      | Some aid \<Rightarrow>
          bind_io (list_audiences app_id) (\<lambda>auds.
          bind_io (lift (ok_or (NotFound (''audience '' @ show_int aid)) (find (\<lambda>a. au_id a = aid) auds))) (\<lambda>a.
          ret (is_eligible (ba_floats e) (au_rules a) ctx))))"

definition find_variant :: "variant list \<Rightarrow> int \<Rightarrow> variant result" where
  "find_variant vs vid = ok_or (NotFound (''variant '' @ show_int vid)) (find (\<lambda>v. v_id v = vid) vs)"

fun resolve_running ::
  "'f api_env \<Rightarrow> int \<Rightarrow> customer \<Rightarrow> audience_context \<Rightarrow> experiment_with_variants list \<Rightarrow> resolved_offering option bill" where
  "resolve_running e app_id c ctx [] = ret None"
| "resolve_running e app_id c ctx (xv # xvs) =
     bind_io (takes_part e app_id ctx (xv_experiment xv)) (\<lambda>yes.
       if \<not> yes then resolve_running e app_id c ctx xvs
       else bind_io (get_or_assign_variant (ba_store e) (x_id (xv_experiment xv)) (c_id c) (xv_variants xv)) (\<lambda>vid.
         bind_io (lift (find_variant (xv_variants xv) vid)) (\<lambda>v.
         bind_io (get_offering_by_id (v_offering_id v)) (\<lambda>off.
         bind_io (get_paywall (of_id off)) (\<lambda>pw.
         ret (Some \<lparr>ro_offering = off, ro_paywall = pw, ro_experiment =
           Some (x_id (xv_experiment xv), x_identifier (xv_experiment xv), v_id v, v_identifier v)\<rparr>))))))"

definition resolve_offering_handler ::
  "'f api_env \<Rightarrow> string option \<Rightarrow> string \<Rightarrow> int \<Rightarrow> string option \<Rightarrow> string option \<Rightarrow> resolved_offering api" where
  "resolve_offering_handler e header user app_id cou ver = as_user e header
     (bind_io (get_or_create_customer (ba_store e) app_id user) (\<lambda>c.
      bind_io (customer_has_active_subscription (ba_store e) (c_id c)) (\<lambda>existing.
      bind_io (list_running_experiments app_id) (\<lambda>running.
      bind_io (resolve_running e app_id c \<lparr>country = cou, app_version = ver, is_existing_subscriber = existing,
        attributes = c_attributes c\<rparr> running) (\<lambda>found.
      case found of
        Some r \<Rightarrow> ret r
      | None \<Rightarrow>
          bind_io (get_current_offering app_id) (\<lambda>current.
          bind_io (lift (ok_or (NotFound ''no current offering configured'') current)) (\<lambda>off.
          bind_io (get_paywall (of_id off)) (\<lambda>pw.
          ret \<lparr>ro_offering = off, ro_paywall = pw, ro_experiment = None\<rparr>))))))))"

text \<open>The two handlers of events differ in the name and the type of the event.\<close>

fun record_running ::
  "'f api_env \<Rightarrow> int \<Rightarrow> customer \<Rightarrow> string \<Rightarrow> billing_event \<Rightarrow> json \<Rightarrow> experiment_with_variants list \<Rightarrow> unit bill" where
  "record_running e app_id c ty event meta [] = fail (NotFound ''no running experiment assignment for this customer'')"
| "record_running e app_id c ty event meta (xv # xvs) =
     bind_io (find_assignment (x_id (xv_experiment xv)) (c_id c)) (\<lambda>assignment.
       case assignment of
         None \<Rightarrow> record_running e app_id c ty event meta xvs
       | Some vid \<Rightarrow>
           bind_io (lift (find_variant (xv_variants xv) vid)) (\<lambda>v.
           bind_io (record_experiment_event (x_id (xv_experiment xv)) (v_id v) (c_id c) ty meta) (\<lambda>_.
           dispatch_experiment_event e app_id event (xv_experiment xv) v c (JObject []))))"

definition experiment_impression_handler :: "'f api_env \<Rightarrow> string option \<Rightarrow> string \<Rightarrow> int \<Rightarrow> json option \<Rightarrow> unit api" where
  "experiment_impression_handler e header user app_id meta = as_user e header
     (bind_io (get_or_create_customer (ba_store e) app_id user) (\<lambda>c.
      bind_io (list_running_experiments app_id)
        (record_running e app_id c ''impression'' ExperimentImpression (unwrap_or (JObject []) meta))))"

definition experiment_conversion_handler :: "'f api_env \<Rightarrow> string option \<Rightarrow> string \<Rightarrow> int \<Rightarrow> json option \<Rightarrow> unit api" where
  "experiment_conversion_handler e header user app_id meta = as_user e header
     (bind_io (get_or_create_customer (ba_store e) app_id user) (\<lambda>c.
      bind_io (list_running_experiments app_id)
        (record_running e app_id c ''conversion'' ExperimentConversion (unwrap_or (JObject []) meta))))"

end
