(* ===== verification/Calm.thy ===== *)
theory Calm imports Server begin

text \<open>
  Total correctness of programs over the store: a weakest-precondition calculus for calls of which no statement
  fails for an outside reason. It complements \<open>wp\<close> of Store, which speaks of every execution, outages included,
  and so never shows that a call succeeds.
\<close>

text \<open>
  \<open>calm m Q s\<close>: when no statement fails for an outside reason, \<open>m\<close> started in \<open>s\<close> ends, and its result and
  state satisfy \<open>Q\<close>.
\<close>

named_theorems calm_intro

definition calm :: "('s, 'a) io \<Rightarrow> ('a result \<Rightarrow> 's \<Rightarrow> bool) \<Rightarrow> 's \<Rightarrow> bool" where
  "calm m Q s \<longleftrightarrow> (\<exists>r s'. m (up s) = (r, up s') \<and> Q r s')"

lemma calm_weaken: "calm m Q s \<Longrightarrow> (\<And>r s'. Q r s' \<Longrightarrow> Q' r s') \<Longrightarrow> calm m Q' s"
  by (auto simp: calm_def)

lemma calm_ret [calm_intro]: "Q (Inr a) s \<Longrightarrow> calm (ret a) Q s"
  by (auto simp: calm_def ret_def)

lemma calm_fail [calm_intro]: "Q (Inl e) s \<Longrightarrow> calm (fail e) Q s"
  by (auto simp: calm_def fail_def)

lemma calm_lift [calm_intro]: "Q x s \<Longrightarrow> calm (lift x) Q s"
  by (auto simp: calm_def lift_def)

lemma calm_stmt [calm_intro]:
  "(\<And>e. f s = Inl e \<Longrightarrow> Q (Inl e) s) \<Longrightarrow> (\<And>a s'. f s = Inr (a, s') \<Longrightarrow> Q (Inr a) s') \<Longrightarrow> calm (stmt f) Q s"
  by (cases "f s") (auto simp: calm_def stmt_def up_def)

lemma calm_exec [calm_intro]: "Q (Inr ()) (f s) \<Longrightarrow> calm (exec f) Q s"
  unfolding exec_def by (rule calm_stmt) auto

lemma calm_bind [calm_intro]:
  assumes "calm m (\<lambda>r s'. (\<forall>e. r = Inl e \<longrightarrow> Q (Inl e) s') \<and> (\<forall>a. r = Inr a \<longrightarrow> calm (k a) Q s')) s"
  shows "calm (bind_io m k) Q s"
proof -
  from assms obtain r s' where m: "m (up s) = (r, up s')"
    and q: "(\<forall>e. r = Inl e \<longrightarrow> Q (Inl e) s') \<and> (\<forall>a. r = Inr a \<longrightarrow> calm (k a) Q s')" unfolding calm_def by blast
  then show ?thesis by (cases r) (auto simp: calm_def bind_io_def)
qed

lemma calm_attempt [calm_intro]: "calm m (\<lambda>r. Q (Inr r)) s \<Longrightarrow> calm (attempt m) Q s"
  by (auto simp: calm_def attempt_def)

lemma calm_for:
  assumes "\<And>x acc s. x \<in> set xs \<Longrightarrow> P s \<Longrightarrow> calm (f x acc) (\<lambda>_. P) s" and "P s"
  shows "calm (for_io f xs acc) (\<lambda>_. P) s"
  using assms
proof (induction xs arbitrary: acc s)
  case Nil
  then show ?case by (simp add: calm_ret)
next
  case (Cons x xs)
  have "calm (f x acc) (\<lambda>_. P) s" by (rule Cons.prems) (simp_all add: Cons.prems)
  then show ?case
    by (simp, intro calm_bind, elim calm_weaken) (use Cons in simp)
qed

lemma calm_zoom [calm_intro]: "calm m (\<lambda>r d'. Q r (put d' s)) (get s) \<Longrightarrow> calm (zoom get put m) Q s"
  by (auto simp: calm_def zoom_def up_def)

lemma calm_D: "calm m Q s \<Longrightarrow> \<exists>r s'. m (up s) = (r, up s') \<and> Q r s'"
  by (simp add: calm_def)

end
