(* ===== verification/BillingAccess.thy ===== *)
theory BillingAccess imports BillingApi Calm begin

text \<open>
  The router of the billing module (\<open>src/src/billing/routes.rs\<close>), who may do what through it, what a message of
  Stripe has to bring, and what an event that nobody signed buys.
\<close>

section \<open>Who may do what\<close>

datatype 'g billing_call =
    Health
  | GetCustomer string int | GetEntitlements string int | SetAttributes string int json | AddAlias string int string
  | AppleReceipt string int string | GoogleReceipt string google_receipt_req | StripeLink string int json
  | ResolveOffering string int "string option" "string option"
  | Impression string int "json option" | Conversion string int "json option"
  | Checkout create_checkout_req | Cancel int string | MySubscription int | ListOfferings int | ListPlans
  | GoogleMessage json | StripeMessage "int option" "string option" string
  | CreateApp create_app_req | ListApps | UpdateSecrets int update_secrets_req
  | UpsertProduct upsert_product_req | ListProducts int
  | UpsertEntitlement upsert_entitlement_req | ListEntitlements int
  | UpsertOffering upsert_offering_req | SetOfferingAudience int "int option"
  | UpsertExperiment upsert_experiment_req | ListExperiments int | UpdateStatus int string
  | ExperimentResults 'g "int \<Rightarrow> int \<Rightarrow> 'g" "int \<times> int \<Rightarrow> int \<times> int \<Rightarrow> 'g option" int
  | UpsertAudience upsert_audience_req | ListAudiences int
  | UpsertPaywall upsert_paywall_req | GetPaywall int | PublishPaywall int
  | GrantPromotional grant_promotional_req | AddEndpoint add_webhook_endpoint_req

definition discard :: "'a api \<Rightarrow> unit api" where
  "discard m = bind_io m (\<lambda>_. ret ())"

text \<open>The router, without the answers. Apple's messages change nothing and have their own type of certificates.\<close>

fun billing_route :: "'f api_env \<Rightarrow> string option \<Rightarrow> 'g billing_call \<Rightarrow> unit api" where
  "billing_route e h Health = ret ()"
| "billing_route e h (GetCustomer u a) = discard (get_customer_handler e h u a)"
| "billing_route e h (GetEntitlements u a) = discard (get_entitlements_handler e h u a)"
| "billing_route e h (SetAttributes u a v) = set_attributes_handler e h u a v"
| "billing_route e h (AddAlias u a nm) = add_alias_handler e h u a nm"
| "billing_route e h (AppleReceipt u a r) = discard (apple_receipt_handler e h u a r)"
| "billing_route e h (GoogleReceipt u r) = discard (google_receipt_handler e h u r)"
| "billing_route e h (StripeLink u a v) = discard (stripe_link_handler e h u a v)"
| "billing_route e h (ResolveOffering u a c v) = discard (resolve_offering_handler e h u a c v)"
| "billing_route e h (Impression u a v) = experiment_impression_handler e h u a v"
| "billing_route e h (Conversion u a v) = experiment_conversion_handler e h u a v"
| "billing_route e h (Checkout r) = discard (create_checkout_handler e h r)"
| "billing_route e h (Cancel a u) = cancel_subscription_handler e h a u"
| "billing_route e h (MySubscription a) = discard (get_my_subscription_handler e h a)"
| "billing_route e h (ListOfferings a) = discard (list_offerings_handler a)"
| "billing_route e h ListPlans = discard list_subscription_plans_handler"
| "billing_route e h (GoogleMessage v) = discard (lift (google_inbound_webhook e v))"
| "billing_route e h (StripeMessage a sig body) = stripe_inbound_webhook e a sig body"
| "billing_route e h (CreateApp r) = discard (create_app_handler e h r)"
| "billing_route e h ListApps = discard (list_apps_handler e h)"
| "billing_route e h (UpdateSecrets a r) = update_app_secrets_handler e h a r"
| "billing_route e h (UpsertProduct r) = discard (upsert_product_handler e h r)"
| "billing_route e h (ListProducts a) = discard (list_products_handler e h a)"
| "billing_route e h (UpsertEntitlement r) = discard (upsert_entitlement_handler e h r)"
| "billing_route e h (ListEntitlements a) = discard (list_entitlements_handler e h a)"
| "billing_route e h (UpsertOffering r) = discard (upsert_offering_handler e h r)"
| "billing_route e h (SetOfferingAudience i a) = set_offering_audience_handler e h i a"
| "billing_route e h (UpsertExperiment r) = discard (upsert_experiment_handler e h r)"
| "billing_route e h (ListExperiments a) = discard (list_experiments_handler e h a)"
| "billing_route e h (UpdateStatus i status) = discard (update_experiment_status_handler e h i status)"
| "billing_route e h (ExperimentResults z rt sc i) = discard (get_experiment_results_handler e z rt sc h i)"
| "billing_route e h (UpsertAudience r) = discard (upsert_audience_handler e h r)"
| "billing_route e h (ListAudiences a) = discard (list_audiences_handler e h a)"
| "billing_route e h (UpsertPaywall r) = discard (upsert_paywall_handler e h r)"
| "billing_route e h (GetPaywall i) = discard (get_paywall_handler e h i)"
| "billing_route e h (PublishPaywall i) = discard (publish_paywall_handler e h i)"
| "billing_route e h (GrantPromotional r) = discard (grant_promotional_handler e h r)"
| "billing_route e h (AddEndpoint r) = discard (add_webhook_endpoint_handler e h r)"

fun admin_call :: "'g billing_call \<Rightarrow> bool" where
  "admin_call (CreateApp _) = True" | "admin_call ListApps = True" | "admin_call (UpdateSecrets _ _) = True"
| "admin_call (UpsertProduct _) = True" | "admin_call (ListProducts _) = True" | "admin_call (UpsertEntitlement _) = True"
| "admin_call (ListEntitlements _) = True" | "admin_call (UpsertOffering _) = True" | "admin_call (SetOfferingAudience _ _) = True"
| "admin_call (UpsertExperiment _) = True" | "admin_call (ListExperiments _) = True" | "admin_call (UpdateStatus _ _) = True"
| "admin_call (ExperimentResults _ _ _ _) = True" | "admin_call (UpsertAudience _) = True" | "admin_call (ListAudiences _) = True"
| "admin_call (UpsertPaywall _) = True" | "admin_call (GetPaywall _) = True" | "admin_call (PublishPaywall _) = True"
| "admin_call (GrantPromotional _) = True" | "admin_call (AddEndpoint _) = True" | "admin_call _ = False"

definition admin_at :: "'f api_env \<Rightarrow> string option \<Rightarrow> shop \<Rightarrow> bool" where
  "admin_at e header s \<longleftrightarrow> (\<exists>who u. extract_auth_user (ba_auth e) header = Inr who \<and>
     calls (get_user_by_id (ba_auth e) (aw_id who)) s (Inr u) s \<and> is_service_admin (ba_authorization e) u)"

lemma get_user_keeps_state: "get_user_by_id a i d = (r, d') \<Longrightarrow> st d' = st d"
  by (rule keeps_D [OF keeps_get_user_by_id [where P = "\<lambda>s. s = st d"]]) simp_all

lemma admin_auth_wp: "wp (admin_auth e header) (\<lambda>r s'. s' = s \<and> ((\<exists>who. r = Inr who) \<longrightarrow> admin_at e header s)) s"
  unfolding wp_def
proof (intro allI impI, goal_cases)
  case (1 d)
  show ?case
  proof (cases "extract_auth_user (ba_auth e) header")
    case (Inl err)
    with 1 show ?thesis by (simp add: admin_auth_def fail_def)
  next
    case (Inr who)
    obtain r d' where g: "get_user_by_id (ba_auth e) (aw_id who) d = (r, d')" by fastforce
    with get_user_keeps_state [OF g] 1 have d': "st d' = s" by simp
    show ?thesis
    proof (cases r)
      case (Inl err)
      with Inr g d' show ?thesis by (simp add: admin_auth_def bind_io_def)
    next
      case u: (Inr u)
      from g u 1 d' have "calls (get_user_by_id (ba_auth e) (aw_id who)) s (Inr u) s" unfolding calls_def by blast
      with Inr g u d' show ?thesis
        by (auto simp: admin_auth_def bind_io_def require_service_admin_unconditional_def admin_at_def lift_def ret_def)
    qed
  qed
qed

lemma as_admin_wp:
  "wp (as_admin e header m) (\<lambda>r s'. admin_at e header s \<or> (\<exists>err. r = Inl err) \<and> s' = s) s"
  unfolding as_admin_def
  by (rule wp_bind_io, rule wp_weaken [OF admin_auth_wp]) (auto simp: wp_def)

lemma discard_wp: "wp m Q s \<Longrightarrow> (\<And>a s'. Q (Inr a) s' \<Longrightarrow> Q' (Inr ()) s') \<Longrightarrow> (\<And>e s'. Q (Inl e) s' \<Longrightarrow> Q' (Inl e) s') \<Longrightarrow>
    wp (discard m) Q' s"
  unfolding discard_def by (rule wp_bind_io, elim wp_weaken) (auto intro: wp_ret)

lemma as_admin_discard_wp:
  "wp (discard (as_admin e header m)) (\<lambda>r s'. admin_at e header s \<or> (\<exists>err. r = Inl err) \<and> s' = s) s"
  by (rule discard_wp [OF as_admin_wp]) auto

text \<open>
  C27. Only an administrator administers billing: a call of an administrative route of the billing module that
  changes anything, or that is answered with success, carries a token of a user who is at that moment a service
  administrator. Every other answer is an error that leaves accounts and billing as they were.
\<close>

theorem administration_needs_an_admin:
  assumes "admin_call call" and "calls (billing_route e header call) s r s'" and "s' \<noteq> s \<or> r = Inr ()"
  shows "admin_at e header s"
proof -
  have "wp (billing_route e header call) (\<lambda>r s'. admin_at e header s \<or> (\<exists>err. r = Inl err) \<and> s' = s) s"
    using assms(1)
    by (cases call)
      (simp_all add: create_app_handler_def list_apps_handler_def update_app_secrets_handler_def upsert_product_handler_def
        list_products_handler_def upsert_entitlement_handler_def list_entitlements_handler_def upsert_offering_handler_def
        set_offering_audience_handler_def upsert_experiment_handler_def list_experiments_handler_def
        update_experiment_status_handler_def get_experiment_results_handler_def upsert_audience_handler_def
        list_audiences_handler_def upsert_paywall_handler_def get_paywall_handler_def publish_paywall_handler_def
        grant_promotional_handler_def add_webhook_endpoint_handler_def as_admin_wp as_admin_discard_wp)
  from calls_wp [OF assms(2) this] assms(3) show ?thesis by auto
qed

section \<open>Messages of Stripe\<close>

lemma wp_lift_bind:
  "(\<And>a. x = Inr a \<Longrightarrow> wp (k a) Q s) \<Longrightarrow> (\<And>err. x = Inl err \<Longrightarrow> Q (Inl err) s) \<Longrightarrow> wp (bind_io (lift x) k) Q s"
  by (cases x) (simp_all add: wp_fail)

text \<open>
  C28. A message to the Stripe endpoint changes something only if it is signed: its header has a time at most 300
  seconds off, and among its signatures the one of that time and the body under the secret of the very app the
  message names (or the default secret, when the app has none).
\<close>

theorem stripe_messages_need_a_signature:
  assumes "calls (stripe_inbound_webhook e param header body) s r s'" and "s' \<noteq> s"
  shows "\<exists>sig event app_id a secret t. header = Some sig \<and> ba_parse_json e body = Some event \<and>
     event_app_id param event = Some app_id \<and> a \<in> set (t_rows (bt_apps (sh_billing s))) \<and> ap_id a = app_id \<and>
     coalesce (ap_stripe a) (default_stripe_signing_secret e) = Some secret \<and> header_time sig = Some t \<and>
     abs_i64 (wrap_i64 (timestamp (be_now (ba_store e)) - t)) \<le> 300 \<and>
     ba_hmac e secret (show_int t @ ''.'' @ body) \<in> header_sigs sig"
proof (rule ccontr)
  assume none: "\<not> ?thesis"
  have refused: "\<exists>err. stripe_verify_signature (ba_hmac e) body sig secret 300 (timestamp (be_now (ba_store e))) = Inl err"
    if "header = Some sig" "ba_parse_json e body = Some event" "event_app_id param event = Some app_id"
      "find (\<lambda>r. ap_id r = app_id) (t_rows (bt_apps (sh_billing s))) = Some a"
      "coalesce (ap_stripe a) (default_stripe_signing_secret e) = Some secret" for sig event app_id a secret
  proof -
    have "stripe_verify_signature (ba_hmac e) body sig secret 300 (timestamp (be_now (ba_store e))) \<noteq> Inr ()"
      using none that(1,2,3,5) find_Some_in_set [OF that(4)] unfolding stripe_signature_exact by blast
    then show ?thesis
      by (cases "stripe_verify_signature (ba_hmac e) body sig secret 300 (timestamp (be_now (ba_store e)))") auto
  qed
  have "wp (stripe_inbound_webhook e param header body) (\<lambda>_ s'. s' = s) s"
    unfolding stripe_inbound_webhook_def on_billing_def get_app_secrets_def find_app_def
    by (intro wp_lift_bind wp_zoom wp_bind_io wp_stmt conjI allI impI)
      (auto simp: result_simps intro!: wp_lift_bind dest: refused)
  from calls_wp [OF assms(1) this] assms(2) show False by simp
qed

section \<open>Purchases nobody made\<close>

lemma push_product_spec:
  "distinct (map (e_id \<circ> fst) out) \<Longrightarrow>
     push_product out (eid, pid) = map (\<lambda>(ent, ps). (ent, if e_id ent = eid then ps @ [pid] else ps)) out"
proof (induction out "(eid, pid)" rule: push_product.induct)
  case (2 ent ps out)
  have "map (\<lambda>(ent, ps). (ent, if e_id ent = eid then ps @ [pid] else ps)) out = out" if "e_id ent = eid"
    using 2(2) that by (intro map_idI) (force simp: image_iff comp_def)
  with 2 show ?case by auto
qed simp

lemma push_products_spec:
  "distinct (map (e_id \<circ> fst) out) \<Longrightarrow>
     foldl push_product out pairs = map (\<lambda>(ent, ps). (ent, ps @ map snd (filter (\<lambda>(eid, _). eid = e_id ent) pairs))) out"
proof (induction pairs arbitrary: out)
  case (Cons p pairs)
  obtain eid pid where p: "p = (eid, pid)" by (cases p)
  have "map (e_id \<circ> fst) (map (\<lambda>(ent, ps). (ent, if e_id ent = eid then ps @ [pid] else ps)) out) = map (e_id \<circ> fst) out"
    by (auto simp: case_prod_unfold)
  with Cons p show ?case by (simp add: push_product_spec case_prod_unfold comp_def)
qed simp

text \<open>A subscription that runs makes its entitlements active.\<close>

lemma running_active:
  assumes "s \<in> set subs" and "covers pids s" and "runs now s"
  shows "is_active (info_of products now ent (best_from pids now None subs))"
proof -
  from assms(1,2) obtain b where b: "best_from pids now None subs = Some b" "\<not> rank_less (rank now b) (rank now s)"
    by (rule best_exists)
  with assms(3) have "runs now b" by (auto simp: rank_less_def rank_def split: if_splits)
  with b(1) show ?thesis by (auto simp: info_of_def runs_def Let_def split: option.splits)
qed

definition entitled :: "int \<Rightarrow> int \<Rightarrow> string \<Rightarrow> int \<Rightarrow> billing \<Rightarrow> bool" where
  "entitled app_id cid ident now b \<longleftrightarrow> (\<exists>infos. resolve_entitlements app_id cid now (up b) = (Inr infos, up b) \<and>
     (\<exists>i \<in> set infos. i_identifier i = ident \<and> is_active i))"

lemma entitled_by:
  assumes "well_keyed e_id (\<lambda>r. (e_app_id r, e_identifier r)) (bt_entitlements b)" and "sub \<in> set (t_rows (bt_subscriptions b))" and "s_customer_id sub = cid"
    and "s_product_id sub = Some pid" and "runs now sub" and "ent \<in> set (t_rows (bt_entitlements b))"
    and "e_app_id ent = app_id" and "(e_id ent, pid) \<in> set (bt_ent_products b)"
  shows "entitled app_id cid (e_identifier ent) now b"
proof -
  define ents where "ents = sort_key e_id (filter (\<lambda>r. e_app_id r = app_id) (t_rows (bt_entitlements b)))"
  define pairs where "pairs = filter (\<lambda>(eid, pid). list_ex (\<lambda>r. e_id r = eid \<and> e_app_id r = app_id) (t_rows (bt_entitlements b))) (bt_ent_products b)"
  define subs where "subs = sort_key s_id (filter (\<lambda>r. s_customer_id r = cid) (t_rows (bt_subscriptions b)))"
  define products where "products = sort_key p_id (filter (\<lambda>r. p_app_id r = app_id) (t_rows (bt_products b)))"
  have "distinct (map e_id (filter (\<lambda>r. e_app_id r = app_id) (t_rows (bt_entitlements b))))"
    using assms(1) by (simp add: well_keyed_def distinct_map_filter)
  then have "distinct (map e_id ents)"
    by (simp add: ents_def distinct_map)
  then have d: "distinct (map (e_id \<circ> fst) (map (\<lambda>ent. (ent, [])) ents))" by (simp add: comp_def)
  define pids where "pids = map snd (filter (\<lambda>(eid, _). eid = e_id ent) pairs)"
  have map_ok: "foldl push_product (map (\<lambda>ent. (ent, [])) ents) pairs =
      map (\<lambda>ent. (ent, map snd (filter (\<lambda>(eid, _). eid = e_id ent) pairs))) ents"
    by (simp add: push_products_spec [OF d] comp_def)
  have res: "resolve_entitlements app_id cid now (up b) =
     (Inr (resolve (map (\<lambda>ent. (ent, map snd (filter (\<lambda>(eid, _). eid = e_id ent) pairs))) ents) subs products now), up b)"
    by (simp add: resolve_entitlements_def list_subscriptions_def entitlement_product_map_def list_entitlements_def
        list_products_def stmt_def bind_io_def up_def ret_def Let_def
        ents_def [symmetric] pairs_def [symmetric] subs_def [symmetric] products_def [symmetric] map_ok)
  have ent: "ent \<in> set ents" using assms(6,7) by (simp add: ents_def)
  have "(e_id ent, pid) \<in> set pairs" using assms(6-8) by (auto simp: pairs_def list_ex_iff)
  then have "pid \<in> set pids" by (force simp: pids_def)
  then have "covers pids sub" by (simp add: covers_def assms(4))
  moreover have "sub \<in> set subs" using assms(2,3) by (simp add: subs_def)
  ultimately have act: "is_active (info_of products now ent (best_from pids now None subs))"
    using assms(5) by (intro running_active)
  let ?info = "info_of products now ent (best_from pids now None subs)"
  have "?info \<in> set (resolve (map (\<lambda>ent. (ent, map snd (filter (\<lambda>(eid, _). eid = e_id ent) pairs))) ents) subs products now)"
    using ent by (auto simp: resolve_def pids_def)
  moreover have "i_identifier ?info = e_identifier ent" by (simp add: info_of_def Let_def split: option.split)
  ultimately show ?thesis using act res unfolding entitled_def by blast
qed

definition forged_event :: "string \<Rightarrow> string \<Rightarrow> json" where
  "forged_event i product = JObject
     [(''data'', JObject [(''object'', JObject [(''id'', JString i), (''items'', JObject [(''data'', JArray
        [JObject [(''price'', JObject [(''product'', JString product)])]])])])]),
      (''type'', JString ''customer.subscription.created'')]"

lemma forged_purchase:
  "\<exists>p. stripe_event_to_purchase t (forged_event i product) = Some p \<and> pu_store p = STORE_STRIPE \<and> pu_product p = product \<and>
     pu_transaction p = i \<and> pu_original p = Some i \<and> pu_expires p = None"
  by (simp add: forged_event_def stripe_event_to_purchase_def jget_def get_str_def get_i64_def get_bool_def)

text \<open>Only the deliveries are written by an event, and it never fails.\<close>

definition same_but_deliveries :: "billing \<Rightarrow> billing \<Rightarrow> bool" where
  "same_but_deliveries b b' \<longleftrightarrow> (\<exists>t. b' = b\<lparr>bt_deliveries := t\<rparr>)"

lemma same [simp]: "same_but_deliveries b b"
  unfolding same_but_deliveries_def by (rule exI [of _ "bt_deliveries b"]) simp

lemma dispatch_calm: "calm (dispatch_lifecycle_event e app_id sub n rn) (\<lambda>r b'. r = Inr () \<and> same_but_deliveries b b') b"
proof -
  have one: "calm (if \<not> event_matches (ep_events ep) ty then ret () else enqueue_delivery es (ep_id ep) ty body)
      (\<lambda>_. same_but_deliveries b) b'" if "same_but_deliveries b b'" for ep ty es body and b' :: billing
    using that unfolding enqueue_delivery_def
    by (cases "event_matches (ep_events ep) ty") (auto simp: same_but_deliveries_def intro!: calm_intro split: if_splits)
  have ev: "calm (enqueue_event e app_id ev payload) (\<lambda>_. same_but_deliveries b) b" for ev payload
    unfolding enqueue_event_def list_webhook_endpoints_def Let_def
    by (intro calm_bind calm_stmt) (auto intro!: calm_for one same)
  show ?thesis
    unfolding dispatch_lifecycle_event_def
    by (intro calm_bind calm_attempt, rule calm_weaken [OF ev]) (auto intro!: calm_ret)
qed

text \<open>What a purchase needs to give an entitlement: the app, the product and its place in the entitlement.\<close>

definition offers :: "billing \<Rightarrow> int \<Rightarrow> string \<Rightarrow> entitlement \<Rightarrow> bool" where
  "offers b app_id product ent \<longleftrightarrow> has_id ap_id app_id (bt_apps b) \<and> ent \<in> set (t_rows (bt_entitlements b)) \<and> e_app_id ent = app_id \<and>
     (\<exists>pr \<in> set (t_rows (bt_products b)). p_app_id pr = app_id \<and> p_store pr = STORE_STRIPE \<and> store_product_id pr = product \<and>
        (e_id ent, p_id pr) \<in> set (bt_ent_products b))"

definition unused :: "billing \<Rightarrow> string \<Rightarrow> bool" where
  "unused b i \<longleftrightarrow> (\<forall>r \<in> set (t_rows (bt_subscriptions b)). original_transaction_id r \<noteq> Some i)"

lemma has_id_row: "r \<in> set (t_rows t) \<Longrightarrow> has_id idf (idf r) t"
  by (auto simp: has_id_def list_ex_iff)

lemma new_runs: "pu_expires p = None \<Longrightarrow> runs now (new_subscription e cid pid p i)"
  by (simp add: runs_def new_subscription_def purchase_status_def)

lemma entitled_same: "same_but_deliveries b b' \<Longrightarrow> entitled app_id cid ident now b \<Longrightarrow> entitled app_id cid ident now b'"
  by (auto simp: same_but_deliveries_def entitled_def resolve_entitlements_def list_subscriptions_def entitlement_product_map_def
      list_entitlements_def list_products_def stmt_def bind_io_def up_def ret_def Let_def)

lemma product_kept:
  assumes "well_keyed p_id (\<lambda>r. (p_app_id r, p_store r, store_product_id r)) (bt_products b)" and "pr \<in> set (t_rows (bt_products b))"
    and "has_id ap_id (p_app_id pr) (bt_apps b)"
  shows "calm (upsert_product (p_app_id pr) (p_store pr) (store_product_id pr) ptype per price cur meta)
    (\<lambda>r b'. (\<exists>pr' t. r = Inr pr' \<and> p_id pr' = p_id pr \<and> b' = b\<lparr>bt_products := t\<rparr> \<and> has_id p_id (p_id pr) t)) b"
  using assms arg_cong [OF product_upsert.upsert_known [OF assms(1,2) refl, of ptype per price cur meta], of p_id]
    product_upsert.upsert_ids [OF has_id_row [OF assms(2)], of "p_app_id pr" "p_store pr" "store_product_id pr" ptype per price cur meta]
  unfolding upsert_product_def by (intro calm_stmt) (auto simp: case_prod_unfold)

lemma purchase_recorded:
  assumes "unused b (purchase_otid p)" and "references_ok cid pid b"
  shows "calm (upsert_subscription_from_purchase e cid pid p)
    (\<lambda>r b'. (\<exists>i. r = Inr (new_subscription e cid pid p i, True) \<and> new_subscription e cid pid p i \<in> set (t_rows (bt_subscriptions b'))) \<and>
       bt_entitlements b' = bt_entitlements b \<and> bt_ent_products b' = bt_ent_products b \<and> bt_customers b' = bt_customers b) b"
proof -
  have none: "find (\<lambda>r. sub_key r = (cid, pu_store p, Some (purchase_otid p))) (t_rows (bt_subscriptions b)) = None"
      "\<not> list_ex (\<lambda>r. sub_key r = (cid, pu_store p, Some (purchase_otid p))) (t_rows (bt_subscriptions b))"
    using assms(1) by (auto simp: unused_def find_None_iff list_ex_iff sub_key_def)
  show ?thesis
    unfolding upsert_subscription_from_purchase_def find_subscription_def write_subscription_def record_transaction_def
    using none assms(2)
    by (intro calm_bind calm_stmt conjI allI impI)
      (auto simp: insert_row_def references_ok_def has_id_def list_ex_iff new_subscription_def split: if_splits option.splits
        intro!: calm_bind calm_stmt calm_ret)
qed

lemma new_entitles:
  assumes "new_subscription e cid (Some pid) p i \<in> set (t_rows (bt_subscriptions b))" and "pu_expires p = None"
    and "well_keyed e_id (\<lambda>r. (e_app_id r, e_identifier r)) (bt_entitlements b)" and "ent \<in> set (t_rows (bt_entitlements b))"
    and "e_app_id ent = app_id" and "(e_id ent, pid) \<in> set (bt_ent_products b)"
  shows "entitled app_id cid (e_identifier ent) now b"
  by (rule entitled_by [OF assms(3,1) _ _ new_runs [OF assms(2)] assms(4-6)]) (simp_all add: new_subscription_def)

lemma customers_same: "same_but_deliveries b b' \<Longrightarrow> bt_customers b' = bt_customers b"
  by (auto simp: same_but_deliveries_def)

lemma apply_receipt_entitles:
  assumes "keys_ok b" and "offers b app_id product ent" and "has_id c_id cid (bt_customers b)" and "unused b (purchase_otid p)"
    and "pu_store p = STORE_STRIPE" and "pu_product p = product" and "pu_expires p = None"
  shows "calm (apply_receipt e app_id STORE_STRIPE cid p)
    (\<lambda>r b'. (\<exists>sub. r = Inr (sub, True) \<and> s_customer_id sub = cid) \<and> (\<forall>now. entitled app_id cid (e_identifier ent) now b') \<and> bt_customers b' = bt_customers b) b"
proof -
  from assms(2) obtain pr where pr: "pr \<in> set (t_rows (bt_products b))" "p_app_id pr = app_id" "p_store pr = STORE_STRIPE"
      "store_product_id pr = product" "(e_id ent, p_id pr) \<in> set (bt_ent_products b)" and app: "has_id ap_id app_id (bt_apps b)"
      and ent: "ent \<in> set (t_rows (bt_entitlements b))" "e_app_id ent = app_id"
    unfolding offers_def by blast
  note ks = keys_get [OF assms(1)]
  have first: "calm (upsert_product app_id STORE_STRIPE (pu_product p) ''auto_renewable'' None None None (JObject []))
      (\<lambda>r b'. (\<exists>pr' t. r = Inr pr' \<and> p_id pr' = p_id pr \<and> b' = b\<lparr>bt_products := t\<rparr> \<and> has_id p_id (p_id pr) t)) b"
    using product_kept [OF ks(2) pr(1)] app by (simp add: pr assms(6))
  have second: "calm (upsert_subscription_from_purchase (ba_store e) cid (Some (p_id pr)) p)
      (\<lambda>r b'. \<exists>i. r = Inr (new_subscription (ba_store e) cid (Some (p_id pr)) p i, True) \<and>
         (\<forall>now. entitled app_id cid (e_identifier ent) now b') \<and> bt_customers b' = bt_customers b) (b\<lparr>bt_products := t\<rparr>)" if "has_id p_id (p_id pr) t" for t
  proof (rule calm_weaken [OF purchase_recorded])
    show "unused (b\<lparr>bt_products := t\<rparr>) (purchase_otid p)" using assms(4) by (simp add: unused_def)
    show "references_ok cid (Some (p_id pr)) (b\<lparr>bt_products := t\<rparr>)" using assms(3) that by (simp add: references_ok_def)
  next
    fix r and b' :: billing
    assume new: "(\<exists>i. r = Inr (new_subscription (ba_store e) cid (Some (p_id pr)) p i, True) \<and>
          new_subscription (ba_store e) cid (Some (p_id pr)) p i \<in> set (t_rows (bt_subscriptions b'))) \<and>
        bt_entitlements b' = bt_entitlements (b\<lparr>bt_products := t\<rparr>) \<and> bt_ent_products b' = bt_ent_products (b\<lparr>bt_products := t\<rparr>) \<and> bt_customers b' = bt_customers (b\<lparr>bt_products := t\<rparr>)"
    then show "\<exists>i. r = Inr (new_subscription (ba_store e) cid (Some (p_id pr)) p i, True) \<and>
         (\<forall>now. entitled app_id cid (e_identifier ent) now b') \<and> bt_customers b' = bt_customers b"
      using ent pr(5) ks(3) assms(7) by (auto intro: new_entitles)
  qed
  show ?thesis
    unfolding apply_receipt_def
    by (intro calm_bind, rule calm_weaken [OF first])
      (auto intro!: calm_bind calm_weaken [OF second] calm_weaken [OF dispatch_calm] calm_ret
        simp: new_subscription_def customers_same, (blast intro: entitled_same)+)
qed

lemma customer_found:
  assumes "keys_ok b" and "has_id ap_id app_id (bt_apps b)"
  shows "calm (get_or_create_customer e app_id user)
    (\<lambda>r b'. \<exists>c t. r = Inr c \<and> c_app_id c = app_id \<and> c_user c = user \<and> c \<in> set (t_rows t) \<and> keys_ok b' \<and>
       b' = b\<lparr>bt_customers := t\<rparr>) b"
  using assms customer_upsert.upsert_result [of app_id user "be_db_now e" "bt_customers b"]
    customer_upsert.upsert_keeps [OF keys_get(6) [OF assms(1)], of app_id user "be_db_now e"]
  unfolding get_or_create_customer_def by (intro calm_stmt) (auto simp: case_prod_unfold intro: keys_set)

text \<open>
  C29. Any signed-in user can give any customer any entitlement for ever: the route that links a Stripe
  subscription believes the event in the request. With the event made up in \<open>forged_event\<close>, which Stripe never
  saw, the call succeeds for whatever user name the path has, and from then on that customer's entitlement is
  active at every time. The product has only to exist and to be attached to the entitlement.
\<close>

theorem unsigned_purchase_entitles:
  assumes "extract_auth_user (ba_auth e) header = Inr who" and "keys_ok (sh_billing s)"
    and "offers (sh_billing s) app_id product ent" and "unused (sh_billing s) i"
  shows "\<exists>sub c s'. stripe_link_handler e header user app_id (forged_event i product) (up s) = (Inr sub, up s') \<and>
     c \<in> set (t_rows (bt_customers (sh_billing s'))) \<and> c_app_id c = app_id \<and> c_user c = user \<and>
     (\<forall>now. entitled app_id (c_id c) (e_identifier ent) now (sh_billing s'))"
proof -
  obtain p where p: "stripe_event_to_purchase (ba_times e) (forged_event i product) = Some p" "pu_store p = STORE_STRIPE"
      "pu_product p = product" "purchase_otid p = i" "pu_expires p = None"
    using forged_purchase [of "ba_times e" i product] by (auto simp: purchase_otid_def)
  have app: "has_id ap_id app_id (bt_apps (sh_billing s))" using assms(3) by (simp add: offers_def)
  have step: "calm (apply_receipt e app_id STORE_STRIPE (c_id c) p)
      (\<lambda>r b'. (\<exists>sub. r = Inr (sub, True) \<and> s_customer_id sub = c_id c) \<and>
         (\<forall>now. entitled app_id (c_id c) (e_identifier ent) now b') \<and> bt_customers b' = t) (sh_billing s\<lparr>bt_customers := t\<rparr>)"
    if "keys_ok (sh_billing s\<lparr>bt_customers := t\<rparr>)" and "c \<in> set (t_rows t)" for c t
    using apply_receipt_entitles [OF that(1) _ _ _ p(2,3,5), of app_id ent "c_id c" e] assms(3,4) that(2) p(4)
    by (simp add: offers_def unused_def has_id_row)
  have rest: "calm (bind_io (get_or_create_customer (ba_store e) app_id user) (\<lambda>c.
        bind_io (apply_receipt e app_id STORE_STRIPE (c_id c) p) (\<lambda>(sub, _). ret sub)))
      (\<lambda>r b'. \<exists>sub c. r = Inr sub \<and> c \<in> set (t_rows (bt_customers b')) \<and> c_app_id c = app_id \<and> c_user c = user \<and>
         (\<forall>now. entitled app_id (c_id c) (e_identifier ent) now b')) (sh_billing s)"
  proof (rule calm_bind, rule calm_weaken [OF customer_found [OF assms(2) app]])
    fix r b'
    assume "\<exists>c t. r = Inr c \<and> c_app_id c = app_id \<and> c_user c = user \<and> c \<in> set (t_rows t) \<and> keys_ok b' \<and>
      b' = (sh_billing s)\<lparr>bt_customers := t\<rparr>"
    then obtain c t where c: "r = Inr c" "c_app_id c = app_id" "c_user c = user" "c \<in> set (t_rows t)"
        "keys_ok ((sh_billing s)\<lparr>bt_customers := t\<rparr>)" "b' = (sh_billing s)\<lparr>bt_customers := t\<rparr>" by blast
    show "(\<forall>err. r = Inl err \<longrightarrow> (\<exists>sub c. Inl err = Inr sub \<and> c \<in> set (t_rows (bt_customers b')) \<and> c_app_id c = app_id \<and>
          c_user c = user \<and> (\<forall>now. entitled app_id (c_id c) (e_identifier ent) now b'))) \<and>
        (\<forall>c. r = Inr c \<longrightarrow> calm (bind_io (apply_receipt e app_id STORE_STRIPE (c_id c) p) (\<lambda>(sub, _). ret sub))
          (\<lambda>r b'. \<exists>sub c. r = Inr sub \<and> c \<in> set (t_rows (bt_customers b')) \<and> c_app_id c = app_id \<and> c_user c = user \<and>
             (\<forall>now. entitled app_id (c_id c) (e_identifier ent) now b')) b')"
      using step [OF c(5,4)] c by (auto intro!: calm_bind calm_ret elim!: calm_weaken)
  qed
  have "calm (stripe_link_handler e header user app_id (forged_event i product))
      (\<lambda>r s'. \<exists>sub c. r = Inr sub \<and> c \<in> set (t_rows (bt_customers (sh_billing s'))) \<and> c_app_id c = app_id \<and> c_user c = user \<and>
         (\<forall>now. entitled app_id (c_id c) (e_identifier ent) now (sh_billing s'))) s"
    unfolding stripe_link_handler_def as_user_def authed_user_def on_billing_def
    by (intro calm_bind calm_lift)
      (simp add: assms(1) p(1) ok_or_def, rule calm_zoom, simp, rule calm_weaken [OF rest], auto)
  from calm_D [OF this] show ?thesis by blast
qed

section \<open>Examples\<close>

definition demo_api :: "unit api_env" where
  "demo_api = \<lparr>ba_store = demo_store_env, ba_auth = demo_auth_env,
     ba_authorization = new_authorization False (Some ''boss@acme.io''),
     ba_times = \<lparr>of_secs = (\<lambda>_. None), of_millis = (\<lambda>_. None)\<rparr>,
     ba_floats = \<lparr>f_of_number = (\<lambda>_. None), f_parse = (\<lambda>_. None), f_cmp = (\<lambda>_ _. None), f_text = (\<lambda>_. [])\<rparr>,
     ba_apple = (\<lambda>_ _. Inl []), ba_google = (\<lambda>_ _. NotSent []), ba_hmac = (\<lambda>_ _. ''ab''), ba_stripe_key = None,
     ba_checkout = (\<lambda>_ _. Inl []), ba_cancel = (\<lambda>_ _. Inl []), ba_send = (\<lambda>_ _ _ _ _. Sent), ba_json_bytes = (\<lambda>_. ''{}''),
     ba_parse_json = (\<lambda>_. Some (forged_event ''t1'' ''gold'')), ba_b64 = (\<lambda>_. None), ba_rfc3339 = (\<lambda>_. []), ba_time_text = (\<lambda>_. []),
     ba_in_days = (\<lambda>_ _. None), default_apple_shared_secret = None, default_stripe_signing_secret = Some ''whsec'',
     default_google_access_token = None\<rparr>"

definition demo_state :: shop where
  "demo_state = \<lparr>users = [demo_user_row], sessions = [], blacklist = [], next_user = 2, next_session = 1,
     sh_billing = run (attach_product_to_entitlement 1 1) (run (upsert_entitlement 1 ''pro'' None) demo_shop)\<rparr>"

lemma demo_header [simp]: "extract_auth_user demo_auth_env (Some ''Bearer tok'') = Inr \<lparr>aw_id = 1, aw_email = ''tok''\<rparr>"
  by (simp add: extract_auth_user_def strip_prefix_def starts_with_def validate_token_def demo_auth_env_def ok_or_def)

lemma demo_boss: "\<exists>u. get_user_by_id demo_auth_env 1 (up demo_state) = (Inr u, up demo_state) \<and> us_email u = ''boss@acme.io''"
  by (subst get_user_by_id_up [where r = demo_user_row and rs = "[]"])
    (simp_all add: demo_state_def demo_user_row_def in_i64_def plain_Cons)

lemma demo_billing_keys: "keys_ok (sh_billing demo_state)"
proof -
  have "billing_step\<^sup>*\<^sup>* (billing_schema []) (sh_billing demo_state)"
    unfolding demo_state_def shop.select_convs
    by (intro reach_run demo_reachable billing_step.entitlement [OF calls_run] billing_step.attach [OF calls_run])
  from reachable_ok [OF this] show ?thesis by (simp add: billing_ok_def)
qed

definition demo_entitlement :: entitlement where
  "demo_entitlement = \<lparr>e_id = 1, e_app_id = 1, e_identifier = ''pro'', e_display_name = None\<rparr>"

lemmas demo_run = demo_state_def demo_shop_def run_def billing_schema_def create_app_def upsert_product_def get_or_create_customer_def
  upsert_entitlement_def attach_product_to_entitlement_def stmt_def exec_def up_def upsert_row_def insert_row_def new_table_def has_id_def
  demo_store_env_def

lemma demo_rows:
  "offers (sh_billing demo_state) 1 ''gold'' demo_entitlement"
  "t_rows (bt_subscriptions (sh_billing demo_state)) = []"
  "map c_user (t_rows (bt_customers (sh_billing demo_state))) = [''u'', ''v'']"
  "map ap_id (t_rows (bt_apps (sh_billing demo_state))) = [1]" "map ap_stripe (t_rows (bt_apps (sh_billing demo_state))) = [None]"
  by (simp_all add: offers_def demo_entitlement_def demo_run STORE_STRIPE_def)

lemma demo_unused: "unused (sh_billing demo_state) i"
  by (simp add: unused_def demo_rows)

lemma demo_is_admin: "fst (billing_route demo_api (Some ''Bearer tok'') (ListApps :: unit billing_call) (up demo_state)) = Inr ()"
  using demo_boss
  by (auto simp: list_apps_handler_def as_admin_def admin_auth_def discard_def bind_io_def lift_def ret_def demo_api_def
      require_service_admin_unconditional_def is_service_admin_def new_authorization_def trim_def str_eval on_billing_def
      list_apps_def zoom_def stmt_def up_def)

theorem administration_needs_an_admin_witness: "admin_at demo_api (Some ''Bearer tok'') demo_state"
proof -
  obtain d' where "billing_route demo_api (Some ''Bearer tok'') (ListApps :: unit billing_call) (up demo_state) = (Inr (), d')"
    using demo_is_admin by (metis prod.collapse)
  then have "calls (billing_route demo_api (Some ''Bearer tok'') (ListApps :: unit billing_call)) demo_state (Inr ()) (st d')"
    unfolding calls_def by (intro exI [of _ "up demo_state"] exI [of _ d']) simp
  from administration_needs_an_admin [OF _ this] show ?thesis by simp
qed

theorem unsigned_purchase_entitles_witness:
  "\<exists>sub c s'. stripe_link_handler demo_api (Some ''Bearer tok'') ''eve'' 1 (forged_event ''t1'' ''gold'') (up demo_state) = (Inr sub, up s') \<and>
     c \<in> set (t_rows (bt_customers (sh_billing s'))) \<and> c_app_id c = 1 \<and> c_user c = ''eve'' \<and>
     (\<forall>now. entitled 1 (c_id c) ''pro'' now (sh_billing s'))"
  using unsigned_purchase_entitles [OF _ demo_billing_keys demo_rows(1) demo_unused, where e = demo_api and header = "Some ''Bearer tok''"
      and who = "\<lparr>aw_id = 1, aw_email = ''tok''\<rparr>" and user = "''eve''" and i = "''t1''"]
  by (simp add: demo_api_def demo_entitlement_def)

lemma demo_signature: "header_time ''t=1,v1=ab'' = Some 1" "header_sigs ''t=1,v1=ab'' = {''ab''}"
proof -
  have parts: "map key_value (split_on (CHR '','') ''t=1,v1=ab'') = [(''t'', ''1''), (''v1'', ''ab'')]"
    by (simp add: key_value_def trim_def str_eval)
  have "parse_i64 ''1'' = Some 1" by (simp add: parse_i64_def parse_unsigned_def digits_val_def digit_val_def is_ascii_digit_def)
  then show "header_time ''t=1,v1=ab'' = Some 1" unfolding header_time_def parts by simp
  show "header_sigs ''t=1,v1=ab'' = {''ab''}" unfolding header_sigs_def parts by auto
qed

lemma demo_signed:
  "stripe_verify_signature (\<lambda>_ _. ''ab'') ''{}'' ''t=1,v1=ab'' secret 300 1 = Inr ()"
  unfolding stripe_signature_exact by (simp add: demo_signature abs_i64_def wrap_i64_def)

lemma demo_event_user: "pu_transaction p = ''t1'' \<Longrightarrow> event_user (forged_event ''t1'' product) p = ''stripe:t1''"
  by (simp add: event_user_def event_metadata_def event_object_def forged_event_def jget_def get_str_def coalesce_def)

lemma demo_message:
  "calm (stripe_inbound_webhook demo_api (Some 1) (Some ''t=1,v1=ab'') ''{}'')
     (\<lambda>r s'. ''stripe:t1'' \<in> c_user ` set (t_rows (bt_customers (sh_billing s')))) demo_state"
proof -
  let ?b = "sh_billing demo_state"
  obtain p where p: "stripe_event_to_purchase (ba_times demo_api) (forged_event ''t1'' ''gold'') = Some p" "pu_store p = STORE_STRIPE"
      "pu_product p = ''gold''" "pu_transaction p = ''t1''" "pu_expires p = None"
    using forged_purchase [of "ba_times demo_api" "''t1''" "''gold''"] by auto
  have app: "has_id ap_id 1 (bt_apps ?b)" using demo_rows(1) by (simp add: offers_def)
  have step: "calm (apply_receipt demo_api 1 STORE_STRIPE (c_id c) p) (\<lambda>r b'. bt_customers b' = t) (?b\<lparr>bt_customers := t\<rparr>)"
    if "keys_ok (?b\<lparr>bt_customers := t\<rparr>)" and "c \<in> set (t_rows t)" for c t
    by (rule calm_weaken [OF apply_receipt_entitles [OF that(1) _ _ _ p(2,3,5), of 1 demo_entitlement]])
      (use demo_rows(1) demo_unused that(2) in \<open>simp_all add: offers_def unused_def has_id_row\<close>)
  have rest: "calm (bind_io (get_or_create_customer (ba_store demo_api) 1 ''stripe:t1'') (\<lambda>c.
        bind_io (apply_receipt demo_api 1 STORE_STRIPE (c_id c) p) (\<lambda>_. ret ())))
      (\<lambda>r b'. ''stripe:t1'' \<in> c_user ` set (t_rows (bt_customers b'))) ?b"
    by (intro calm_bind, rule calm_weaken [OF customer_found [OF demo_billing_keys app]])
      (auto intro!: calm_bind calm_ret calm_weaken [OF step], (metis image_eqI)+)
  obtain a where a: "t_rows (bt_apps ?b) = [a]" "ap_id a = 1" "ap_stripe a = None"
    using demo_rows(4,5) by (cases "t_rows (bt_apps ?b)") auto
  have env: "ba_parse_json demo_api ''{}'' = Some (forged_event ''t1'' ''gold'')" "ba_hmac demo_api = (\<lambda>_ _. ''ab'')"
      "default_stripe_signing_secret demo_api = Some ''whsec''" "timestamp (be_now (ba_store demo_api)) = 1"
    by (simp_all add: demo_api_def demo_store_env_def timestamp_def)
  show ?thesis
    unfolding stripe_inbound_webhook_def on_billing_def get_app_secrets_def find_app_def
    by (intro calm_bind calm_lift)
      (simp add: env event_app_id_def coalesce_def ok_or_def, rule calm_zoom, intro calm_bind calm_stmt calm_lift,
        simp_all add: a, simp add: calm_bind calm_lift env a demo_signed p(1) demo_event_user [OF p(4)] rest coalesce_def ok_or_def)
qed

theorem stripe_messages_need_a_signature_witness:
  "\<exists>secret t. header_time ''t=1,v1=ab'' = Some t \<and> abs_i64 (wrap_i64 (timestamp (be_now (ba_store demo_api)) - t)) \<le> 300 \<and>
     ba_hmac demo_api secret (show_int t @ ''.'' @ ''{}'') \<in> header_sigs ''t=1,v1=ab''"
proof -
  obtain r s' where run: "stripe_inbound_webhook demo_api (Some 1) (Some ''t=1,v1=ab'') ''{}'' (up demo_state) = (r, up s')"
      and new: "''stripe:t1'' \<in> c_user ` set (t_rows (bt_customers (sh_billing s')))"
    using calm_D [OF demo_message] by blast
  have "s' \<noteq> demo_state"
  proof
    assume "s' = demo_state"
    with new have "''stripe:t1'' \<in> set (map c_user (t_rows (bt_customers (sh_billing demo_state))))" by (simp only: set_map)
    then show False by (simp only: demo_rows) simp
  qed
  moreover have "calls (stripe_inbound_webhook demo_api (Some 1) (Some ''t=1,v1=ab'') ''{}'') demo_state r s'"
    using run unfolding calls_def by (intro exI [of _ "up demo_state"] exI [of _ "up s'"]) simp
  ultimately show ?thesis
    using stripe_messages_need_a_signature by blast
qed

end
