(* ===== verification/Network.thy ===== *)
theory Network imports Documents Abac begin

text \<open>
  The networks a server talks to: the list of addresses that may send requests (\<open>src/src/security/network.rs\<close>), the
  private networks of the tenants (\<open>src/src/security/private_network.rs\<close>), and the domains their functions
  may call (\<open>src/src/security/egress.rs\<close>). The regular expression crate and serde's parser are parameters.
\<close>

section \<open>Addresses\<close>

text \<open>
  \<open>str::parse::<IpAddr>\<close>, as far as the code looks: an address of version four, or none. Four numbers
  of at most three digits, without leading zeros.
\<close>

definition parse_octet :: "string \<Rightarrow> nat option" where
  "parse_octet s =
     (if s \<noteq> [] \<and> length s \<le> 3 \<and> list_all is_ascii_digit s \<and> (hd s = CHR ''0'' \<longrightarrow> length s = 1) \<and> digits_val s \<le> 255
      then Some (digits_val s) else None)"

definition parse_ipv4 :: "string \<Rightarrow> 32 word option" where
  "parse_ipv4 s =
     (case map parse_octet (split_on (CHR ''.'') s) of
        [Some a, Some b, Some c, Some d] \<Rightarrow> Some (from_be_bytes [a, b, c, d])
      | _ \<Rightarrow> None)"

section \<open>The list of addresses\<close>

record network_rule =
  nr_ip :: string
  nr_description :: string
  nr_enabled :: bool

record network =
  allowlist :: "network_rule list"
  net_enabled :: bool

definition new_network :: network where
  "new_network = \<lparr>allowlist = [], net_enabled = False\<rparr>"

definition add_network_rule :: "network_rule \<Rightarrow> network \<Rightarrow> network" where
  "add_network_rule r n = n\<lparr>allowlist := allowlist n @ [r]\<rparr>"

definition remove_network_rule :: "string \<Rightarrow> network \<Rightarrow> network" where
  "remove_network_rule ip n = n\<lparr>allowlist := filter (\<lambda>r. nr_ip r \<noteq> ip) (allowlist n)\<rparr>"

text \<open>The comparison with a block. A shift of the mask by 32 or more is taken modulo 32 (\<open>cidr_mask\<close>).\<close>

definition cidr_rule :: "string \<Rightarrow> string \<Rightarrow> bool option" where
  "cidr_rule rule ip =
     (case split_on (CHR ''/'') rule of
        [addr, bits] \<Rightarrow>
          (case (parse_ipv4 addr, parse_u32 bits, parse_ipv4 ip) of
             (Some r, Some prefix_len, Some c) \<Rightarrow> Some (r AND cidr_mask prefix_len = c AND cidr_mask prefix_len)
           | _ \<Rightarrow> None)
      | _ \<Rightarrow> None)"

definition wildcard_pattern :: "string \<Rightarrow> string" where
  "wildcard_pattern rule =
     ''^'' @ concat (map (\<lambda>c. if c = CHR ''.'' then [CHR 0x5C, c] else if c = CHR ''*'' then ''.*'' else [c]) rule) @ ''$''"

definition matches_rule :: "(string \<Rightarrow> (string \<Rightarrow> bool) option) \<Rightarrow> string \<Rightarrow> string \<Rightarrow> bool" where
  "matches_rule regex rule ip =
     (if rule = ip then True
      else case (if CHR ''/'' \<in> set rule then cidr_rule rule ip else None) of
        Some b \<Rightarrow> b
      | None \<Rightarrow>
          if CHR ''*'' \<in> set rule
          then (case regex (wildcard_pattern rule) of None \<Rightarrow> False | Some is_match \<Rightarrow> is_match ip)
          else False)"

definition is_allowed :: "(string \<Rightarrow> (string \<Rightarrow> bool) option) \<Rightarrow> network \<Rightarrow> string \<Rightarrow> bool" where
  "is_allowed regex n ip \<longleftrightarrow>
     \<not> net_enabled n \<or> list_ex (\<lambda>r. nr_enabled r \<and> matches_rule regex (nr_ip r) ip) (allowlist n)"

datatype 'a access = Denied | Served 'a

text \<open>The middleware in front of every route; \<open>client\<close> is the address of the connection.\<close>

definition network_middleware ::
  "(string \<Rightarrow> (string \<Rightarrow> bool) option) \<Rightarrow> ('s \<Rightarrow> network) \<Rightarrow> string option \<Rightarrow> ('s, 'a) io \<Rightarrow> ('s, 'a access) io" where
  "network_middleware regex net client handler =
     bind_io (gets net) (\<lambda>n.
       if net_enabled n \<and> (case client of None \<Rightarrow> True | Some ip \<Rightarrow> \<not> is_allowed regex n ip) then ret Denied
       else bind_io (attempt handler) (\<lambda>r. case r of Inl e \<Rightarrow> fail e | Inr a \<Rightarrow> ret (Served a)))"

section \<open>Its administration\<close>

record 'd net_db =
  nw_docs :: "'d doc_db"
  nw_net :: network

definition on_docs :: "('d doc_db, 'a) io \<Rightarrow> ('d net_db, 'a) io" where
  "on_docs = zoom nw_docs (\<lambda>d s. s\<lparr>nw_docs := d\<rparr>)"

definition network_require_service_admin :: "'d doc_env \<Rightarrow> string option \<Rightarrow> ('d net_db, auth_user) io" where
  "network_require_service_admin e header = on_docs
     (bind_io (lift (extract_auth_user (account_env e) header)) (\<lambda>who.
      bind_io (get_user_by_id (account_env e) (aw_id who)) (\<lambda>u.
      bind_io (lift (require_service_admin_unconditional (authorization e) u)) (\<lambda>_. ret who))))"

definition network_audit :: "'d doc_env \<Rightarrow> auth_user \<Rightarrow> string \<Rightarrow> string \<Rightarrow> string option \<Rightarrow> json \<Rightarrow> ('d net_db, unit) io" where
  "network_audit e who act ty target details = on_docs (audit_record e (aw_id who) act ty target ''success'' details)"

definition route_json :: "string \<Rightarrow> (string \<times> json) list \<Rightarrow> json" where
  "route_json route kvs = JObject ((''route'', JString (''/v1/admin/network/'' @ route)) # kvs)"

definition list_network_rules_handler :: "'d doc_env \<Rightarrow> string option \<Rightarrow> ('d net_db, bool \<times> network_rule list) io" where
  "list_network_rules_handler e header =
     bind_io (network_require_service_admin e header) (\<lambda>who.
     bind_io (gets (allowlist \<circ> nw_net)) (\<lambda>rules.
     bind_io (gets (net_enabled \<circ> nw_net)) (\<lambda>enabled.
     bind_io (network_audit e who ''network.list_rules'' ''network_rule'' None
       (route_json ''rules'' [(''enabled'', JBool enabled), (''count'', json_int (int (length rules)))])) (\<lambda>_.
     ret (enabled, rules)))))"

text \<open>The body of the request is read after the check; \<open>body\<close> is what reading and decoding it give.\<close>

definition add_network_rule_handler ::
  "'d doc_env \<Rightarrow> string option \<Rightarrow> (string \<times> string) result \<Rightarrow> ('d net_db, unit) io" where
  "add_network_rule_handler e header body =
     bind_io (network_require_service_admin e header) (\<lambda>who.
     bind_io (lift body) (\<lambda>(ip, description).
     bind_io (modify (\<lambda>s. s\<lparr>nw_net := add_network_rule \<lparr>nr_ip = ip, nr_description = description, nr_enabled = True\<rparr> (nw_net s)\<rparr>)) (\<lambda>_.
     network_audit e who ''network.add_rule'' ''network_rule'' (Some ip) (route_json ''rules'' []))))"

definition enable_handler :: "'d doc_env \<Rightarrow> string option \<Rightarrow> ('d net_db, unit) io" where
  "enable_handler e header =
     bind_io (network_require_service_admin e header) (\<lambda>who.
     bind_io (modify (\<lambda>s. s\<lparr>nw_net := (nw_net s)\<lparr>net_enabled := True\<rparr>\<rparr>)) (\<lambda>_.
     network_audit e who ''network.enable'' ''network_policy'' None (route_json ''enable'' [])))"

definition disable_handler :: "'d doc_env \<Rightarrow> string option \<Rightarrow> ('d net_db, unit) io" where
  "disable_handler e header =
     bind_io (network_require_service_admin e header) (\<lambda>who.
     bind_io (modify (\<lambda>s. s\<lparr>nw_net := (nw_net s)\<lparr>net_enabled := False\<rparr>\<rparr>)) (\<lambda>_.
     network_audit e who ''network.disable'' ''network_policy'' None (route_json ''disable'' [])))"

datatype network_call = ListNetworkRules | AddNetworkRule "(string \<times> string) result" | EnableNetwork | DisableNetwork

fun network_route :: "'d doc_env \<Rightarrow> string option \<Rightarrow> network_call \<Rightarrow> ('d net_db, unit) io" where
  "network_route e header ListNetworkRules = bind_io (list_network_rules_handler e header) (\<lambda>_. ret ())"
| "network_route e header (AddNetworkRule body) = add_network_rule_handler e header body"
| "network_route e header EnableNetwork = enable_handler e header"
| "network_route e header DisableNetwork = disable_handler e header"

text \<open>A run: requests to these routes, each with its surroundings, the address it comes from and its header.\<close>

fun network_serve ::
  "(string \<Rightarrow> (string \<Rightarrow> bool) option) \<Rightarrow> ('d doc_env \<times> string option \<times> string option \<times> network_call) list \<Rightarrow>
   'd net_db db \<Rightarrow> unit access result list \<times> 'd net_db db" where
  "network_serve regex [] d = ([], d)"
| "network_serve regex ((e, client, header, call) # cs) d =
     (case network_middleware regex nw_net client (network_route e header call) d of (r, d1) \<Rightarrow>
        case network_serve regex cs d1 of (rs, d2) \<Rightarrow> (r # rs, d2))"


section \<open>Private networks\<close>

datatype network_type = VpcPeering | PrivateLink | IpsecVpn | TransitGateway

fun network_type_text :: "network_type \<Rightarrow> string" where
  "network_type_text VpcPeering = ''vpc_peering''"
| "network_type_text PrivateLink = ''private_link''"
| "network_type_text IpsecVpn = ''ipsec_vpn''"
| "network_type_text TransitGateway = ''transit_gateway''"

datatype network_status = NetPending | NetActive | NetFailed | NetDeleting

record private_network =
  pn_id :: string
  pn_tenant :: int
  pn_name :: string
  pn_type :: network_type
  pn_cidr :: string
  pn_peer_vpc :: "string option"
  pn_peer_account :: "string option"
  pn_peer_region :: "string option"
  pn_status :: network_status
  pn_dns_zone :: "string option"
  pn_created :: string

record private_endpoint =
  pe_id :: string
  pe_tenant :: int
  pe_service :: string
  pe_url :: string
  pe_cidrs :: "string list"
  pe_status :: string

record private_network_row =
  pnr_id :: string
  pnr_tenant :: int
  pnr_name :: string
  pnr_type :: string
  pnr_cidr :: string
  pnr_status :: string
  pnr_created :: string

record private_endpoint_row =
  per_id :: string
  per_tenant :: int
  per_service :: string
  per_url :: string
  per_cidrs :: json
  per_status :: string

record private_db =
  private_networks :: "private_network_row list"
  private_endpoints :: "private_endpoint_row list"

record private_env =
  pv_uuid :: string
  pv_now :: string
  pv_db_now :: string
  pv_parse :: "string \<Rightarrow> json option"
  pv_base64 :: "string \<Rightarrow> string"

definition duplicate_key :: stackhouse_error where
  "duplicate_key = Database ''duplicate key value violates unique constraint''"

definition create_network :: "private_env \<Rightarrow> int \<Rightarrow> string \<Rightarrow> network_type \<Rightarrow> string \<Rightarrow> (private_db, private_network) io" where
  "create_network e tenant name ty cidr =
     bind_io (stmt (\<lambda>s. if pv_uuid e \<in> pnr_id ` set (private_networks s) then Inl duplicate_key
       else Inr ((), s\<lparr>private_networks := private_networks s @ [\<lparr>pnr_id = pv_uuid e, pnr_tenant = tenant, pnr_name = name,
         pnr_type = network_type_text ty, pnr_cidr = cidr, pnr_status = ''pending'', pnr_created = pv_db_now e\<rparr>]\<rparr>))) (\<lambda>_.
     ret \<lparr>pn_id = pv_uuid e, pn_tenant = tenant, pn_name = name, pn_type = ty, pn_cidr = cidr, pn_peer_vpc = None,
       pn_peer_account = None, pn_peer_region = None, pn_status = NetPending, pn_dns_zone = None, pn_created = pv_now e\<rparr>)"

definition approve_network :: "string \<Rightarrow> (private_db, unit) io" where
  "approve_network i = exec (\<lambda>s. s\<lparr>private_networks :=
     map (\<lambda>r. if pnr_id r = i then r\<lparr>pnr_status := ''active''\<rparr> else r) (private_networks s)\<rparr>)"

definition create_private_endpoint :: "private_env \<Rightarrow> int \<Rightarrow> string \<Rightarrow> string list \<Rightarrow> (private_db, private_endpoint) io" where
  "create_private_endpoint e tenant service cidrs =
     (let url = ''https://private-'' @ take 8 (pv_uuid e) @ ''.stackhouse.internal'' in
      bind_io (stmt (\<lambda>s. if pv_uuid e \<in> per_id ` set (private_endpoints s) then Inl duplicate_key
        else Inr ((), s\<lparr>private_endpoints := private_endpoints s @ [\<lparr>per_id = pv_uuid e, per_tenant = tenant, per_service = service,
          per_url = url, per_cidrs = JArray (map JString cidrs), per_status = ''active''\<rparr>]\<rparr>))) (\<lambda>_.
      ret \<lparr>pe_id = pv_uuid e, pe_tenant = tenant, pe_service = service, pe_url = url, pe_cidrs = cidrs, pe_status = ''active''\<rparr>))"

definition list_networks :: "private_env \<Rightarrow> int \<Rightarrow> (private_db, json list) io" where
  "list_networks e tenant =
     bind_io (query (pv_parse e) (pv_base64 e) (\<lambda>s. map (\<lambda>r. [(''id'', cell_text (pnr_id r)), (''name'', cell_text (pnr_name r)),
         (''network_type'', cell_text (pnr_type r)), (''cidr_block'', cell_text (pnr_cidr r)), (''status'', cell_text (pnr_status r)),
         (''created_at'', cell_time (pnr_created r))]) (filter (\<lambda>r. pnr_tenant r = tenant) (private_networks s)))) (\<lambda>rows.
     ret (map row_object rows))"

text \<open>Four parts that are octets, whatever lies between them.\<close>

definition private_ip_in_cidr :: "string \<Rightarrow> string \<Rightarrow> bool" where
  "private_ip_in_cidr ip cidr =
     (if cidr = ''0.0.0.0/0'' then True
      else if length (octets ip) \<noteq> 4 then False
      else case split_once (CHR ''/'') cidr of
        Some (network, bits) \<Rightarrow>
          if length (octets network) \<noteq> 4 then False
          else let prefix_len = unwrap_or 32 (parse_u32 bits) in
            if prefix_len > 32 then False
            else from_be_bytes (octets ip) AND cidr_mask prefix_len = from_be_bytes (octets network) AND cidr_mask prefix_len
      | None \<Rightarrow> ip = cidr)"

definition row_cidrs :: "private_env \<Rightarrow> row \<Rightarrow> string list" where
  "row_cidrs e r = unwrap_or [] (Option.bind (pv_parse e (unwrap_or ''[]'' (col_str r ''allowed_cidrs''))) (decode_array as_str))"

definition is_ip_allowed :: "private_env \<Rightarrow> int \<Rightarrow> string \<Rightarrow> (private_db, bool) io" where
  "is_ip_allowed e tenant ip =
     bind_io (query (pv_parse e) (pv_base64 e) (\<lambda>s. map (\<lambda>r. [(''allowed_cidrs'', cell_jsonb (per_cidrs r))])
       (filter (\<lambda>r. per_tenant r = tenant \<and> per_status r = ''active'') (private_endpoints s)))) (\<lambda>rows.
     ret (list_ex (\<lambda>r. list_ex (private_ip_in_cidr ip) (row_cidrs e r)) rows))"

section \<open>Egress\<close>

datatype egress_rule_type = EgressAllow | EgressDeny

record egress_rule =
  eg_id :: string
  eg_tenant :: int
  eg_name :: string
  eg_type :: egress_rule_type
  eg_domains :: "string list"
  eg_ports :: "nat list"
  eg_protocol :: string
  eg_enabled :: bool
  eg_created :: string

record egress_policy =
  ep_tenant :: int
  default_action :: egress_rule_type
  ep_rules :: "egress_rule list"

record egress_row =
  er_id :: string
  er_tenant :: int
  er_name :: string
  er_type :: string
  er_domains :: string
  er_ports :: string
  er_protocol :: string
  er_enabled :: bool
  er_created :: string

record egress =
  egress_rows :: "egress_row list"
  egress_defaults :: "(int \<times> string) list"
  policies :: "int \<Rightarrow> egress_policy option"

record egress_env =
  eg_uuid :: string
  eg_now :: string
  eg_db_now :: string
  eg_text :: "json \<Rightarrow> string"
  eg_parse :: "string \<Rightarrow> json option"
  eg_base64 :: "string \<Rightarrow> string"

text \<open>A fresh process has an empty cache, whatever the tables hold.\<close>

definition new_egress :: "egress \<Rightarrow> egress" where
  "new_egress s = s\<lparr>policies := \<lambda>_. None\<rparr>"

definition domain_matches :: "string \<Rightarrow> string \<Rightarrow> bool" where
  "domain_matches domain d =
     (let domain_lower = to_lowercase domain; d_lower = to_lowercase d in
      if starts_with d_lower ''*.'' then ends_with domain_lower (drop 1 d_lower) \<or> domain_lower = drop 2 d_lower
      else domain_lower = d_lower)"

definition egress_rule_hits :: "string \<Rightarrow> nat \<Rightarrow> egress_rule \<Rightarrow> bool" where
  "egress_rule_hits domain port r \<longleftrightarrow>
     eg_enabled r \<and> list_ex (domain_matches domain) (eg_domains r) \<and> (eg_ports r = [] \<or> port \<in> set (eg_ports r))"

definition check_egress :: "egress \<Rightarrow> int \<Rightarrow> string \<Rightarrow> nat \<Rightarrow> bool" where
  "check_egress s tenant domain port =
     (case policies s tenant of
        None \<Rightarrow> True
      | Some policy \<Rightarrow>
          (case find (egress_rule_hits domain port) (ep_rules policy) of
             Some r \<Rightarrow> eg_type r = EgressAllow
           | None \<Rightarrow> default_action policy = EgressAllow))"

fun egress_type_text :: "egress_rule_type \<Rightarrow> string" where
  "egress_type_text EgressAllow = ''allow''"
| "egress_type_text EgressDeny = ''deny''"

definition egress_type_of :: "string \<Rightarrow> egress_rule_type" where
  "egress_type_of s = (if s = ''deny'' then EgressDeny else EgressAllow)"

definition egress_cells :: "egress_row \<Rightarrow> (string \<times> cell) list" where
  "egress_cells r = [(''id'', cell_text (er_id r)), (''name'', cell_text (er_name r)), (''rule_type'', cell_text (er_type r)),
     (''domains'', cell_text (er_domains r)), (''ports'', cell_text (er_ports r)), (''protocol'', cell_text (er_protocol r)),
     (''enabled'', cell_bool (er_enabled r)), (''created_at'', cell_time (er_created r))]"

text \<open>\<open>u16\<close> of a JSON value.\<close>

definition as_u16 :: "json \<Rightarrow> nat option" where
  "as_u16 v = Option.bind (as_i64 v) (\<lambda>i. if 0 \<le> i \<and> i < 65536 then Some (nat i) else None)"

definition egress_list :: "egress_env \<Rightarrow> (json \<Rightarrow> 'a option) \<Rightarrow> row \<Rightarrow> string \<Rightarrow> 'a list" where
  "egress_list e f r k = unwrap_or [] (Option.bind (Option.bind (col_str r k) (eg_parse e)) (decode_array f))"

definition egress_rule_of_row :: "egress_env \<Rightarrow> int \<Rightarrow> row \<Rightarrow> egress_rule" where
  "egress_rule_of_row e tenant r =
     \<lparr>eg_id = unwrap_or [] (col_str r ''id''), eg_tenant = tenant, eg_name = unwrap_or [] (col_str r ''name''),
      eg_type = egress_type_of (unwrap_or [] (col_str r ''rule_type'')), eg_domains = egress_list e as_str r ''domains'',
      eg_ports = egress_list e as_u16 r ''ports'', eg_protocol = unwrap_or ''https'' (col_str r ''protocol''), eg_enabled = True,
      eg_created = unwrap_or [] (col_str r ''created_at'')\<rparr>"

definition reload_policy :: "egress_env \<Rightarrow> int \<Rightarrow> (egress, unit) io" where
  "reload_policy e tenant =
     bind_io (query (eg_parse e) (eg_base64 e) (\<lambda>s. map (\<lambda>(_, act). [(''default_action'', cell_text act)])
       (filter (\<lambda>(t, _). t = tenant) (egress_defaults s)))) (\<lambda>policy_rows.
     let default = (case policy_rows of [] \<Rightarrow> None | r # _ \<Rightarrow> col_str r ''default_action'') in
     bind_io (query (eg_parse e) (eg_base64 e) (\<lambda>s. map egress_cells
       (filter (\<lambda>r. er_tenant r = tenant \<and> er_enabled r) (egress_rows s)))) (\<lambda>rule_rows.
     modify (\<lambda>s. s\<lparr>policies := (policies s)(tenant \<mapsto> \<lparr>ep_tenant = tenant,
       default_action = unwrap_or EgressAllow (map_option egress_type_of default),
       ep_rules = map (egress_rule_of_row e tenant) rule_rows\<rparr>)\<rparr>)))"

definition set_default_policy :: "egress_env \<Rightarrow> int \<Rightarrow> egress_rule_type \<Rightarrow> (egress, unit) io" where
  "set_default_policy e tenant act =
     bind_io (exec (\<lambda>s. s\<lparr>egress_defaults :=
       (if tenant \<in> fst ` set (egress_defaults s)
        then map (\<lambda>(t, a). (t, if t = tenant then egress_type_text act else a)) (egress_defaults s)
        else egress_defaults s @ [(tenant, egress_type_text act)])\<rparr>)) (\<lambda>_. reload_policy e tenant)"

definition add_egress_rule ::
  "egress_env \<Rightarrow> int \<Rightarrow> string \<Rightarrow> egress_rule_type \<Rightarrow> string list \<Rightarrow> nat list \<Rightarrow> (egress, egress_rule) io" where
  "add_egress_rule e tenant name ty domains ports =
     bind_io (stmt (\<lambda>s. if eg_uuid e \<in> er_id ` set (egress_rows s) then Inl duplicate_key
       else Inr ((), s\<lparr>egress_rows := egress_rows s @ [\<lparr>er_id = eg_uuid e, er_tenant = tenant, er_name = name,
         er_type = egress_type_text ty, er_domains = eg_text e (JArray (map JString domains)),
         er_ports = eg_text e (JArray (map (json_int \<circ> int) ports)), er_protocol = ''https'', er_enabled = True,
         er_created = eg_db_now e\<rparr>]\<rparr>))) (\<lambda>_.
     bind_io (reload_policy e tenant) (\<lambda>_.
     ret \<lparr>eg_id = eg_uuid e, eg_tenant = tenant, eg_name = name, eg_type = ty, eg_domains = domains, eg_ports = ports,
       eg_protocol = ''https'', eg_enabled = True, eg_created = eg_now e\<rparr>))"

definition delete_egress_rule :: "egress_env \<Rightarrow> string \<Rightarrow> int \<Rightarrow> (egress, unit) io" where
  "delete_egress_rule e i tenant =
     bind_io (exec (\<lambda>s. s\<lparr>egress_rows := filter (\<lambda>r. \<not> (er_id r = i \<and> er_tenant r = tenant)) (egress_rows s)\<rparr>)) (\<lambda>_.
     reload_policy e tenant)"

definition list_egress_rules :: "egress_env \<Rightarrow> int \<Rightarrow> (egress, json list) io" where
  "list_egress_rules e tenant =
     bind_io (query (eg_parse e) (eg_base64 e) (\<lambda>s. map egress_cells (sort_key er_created
       (filter (\<lambda>r. er_tenant r = tenant) (egress_rows s))))) (\<lambda>rows. ret (map row_object rows))"

text \<open>The router. The tenant of a request is the number of its user.\<close>

datatype egress_call =
    ListEgressRules
  | AddEgressRule string string "string list" "nat list"
  | DeleteEgressRule string
  | SetEgressPolicy string

definition egress_route :: "auth_env \<Rightarrow> egress_env \<Rightarrow> string option \<Rightarrow> egress_call \<Rightarrow> (egress, unit) io" where
  "egress_route a e header call =
     bind_io (lift (extract_auth_user a header)) (\<lambda>who. case call of
       ListEgressRules \<Rightarrow> bind_io (list_egress_rules e (aw_id who)) (\<lambda>_. ret ())
     | AddEgressRule name ty domains ports \<Rightarrow>
         bind_io (add_egress_rule e (aw_id who) name (egress_type_of ty) domains ports) (\<lambda>_. ret ())
     | DeleteEgressRule i \<Rightarrow> delete_egress_rule e i (aw_id who)
     | SetEgressPolicy act \<Rightarrow> set_default_policy e (aw_id who) (egress_type_of act))"


fun egress_serve :: "(auth_env \<times> egress_env \<times> string option \<times> egress_call) list \<Rightarrow> egress db \<Rightarrow> egress db" where
  "egress_serve [] d = d"
| "egress_serve ((a, e, header, call) # cs) d = egress_serve cs (snd (egress_route a e header call d))"


section \<open>Blocks of addresses\<close>

lemma parse_octet_show: "n < 256 \<Longrightarrow> parse_octet (show_nat n) = Some n"
proof -
  assume n: "n < 256"
  have "length (show_nat n) \<le> 3 \<and> (hd (show_nat n) = CHR ''0'' \<longrightarrow> length (show_nat n) = 1)"
  proof -
    have one: "show_nat k = [char_of (48 + k)]" if "k < 10" for k using that by (subst show_nat.simps) simp
    have two: "show_nat k = [char_of (48 + k div 10), char_of (48 + k mod 10)]" if "10 \<le> k" "k < 100" for k
      using that one [of "k div 10"] by (subst show_nat.simps) simp
    have three: "show_nat k = [char_of (48 + k div 100), char_of (48 + k div 10 mod 10), char_of (48 + k mod 10)]" if "100 \<le> k" "k < 256" for k
      using that two [of "k div 10"] by (subst show_nat.simps) (simp add: div_mult2_eq [symmetric])
    have lead: "char_of (48 + k) \<noteq> CHR ''0''" if "0 < k" "k < 10" for k :: nat
    proof
      assume "char_of (48 + k) = CHR ''0''"
      then have "(of_char (char_of (48 + k)) :: nat) = 48" by simp
      with that show False by (simp add: of_char_of)
    qed
    consider "n < 10" | "10 \<le> n" "n < 100" | "100 \<le> n" by linarith
    then show ?thesis
    proof cases
      case 1 then show ?thesis by (simp add: one)
    next
      case 2
      then have "0 < n div 10" "n div 10 < 10" by auto
      with 2 show ?thesis by (simp add: two lead)
    next
      case 3
      with n have "0 < n div 100" "n div 100 < 10" by auto
      with 3 n show ?thesis by (simp add: three lead)
    qed
  qed
  with show_nat_digits [of n] n show ?thesis by (simp add: parse_octet_def)
qed

lemma parse_ipv4_dotted:
  assumes "a < 256" "b < 256" "c < 256" "d < 256"
  shows "parse_ipv4 (dotted a b c d) = Some (from_be_bytes [a, b, c, d])"
proof -
  have nd: "CHR ''.'' \<notin> set (show_nat n)" for n by (rule show_nat_no_sep) (simp add: is_ascii_digit_def)
  have "split_on CHR ''.'' (dotted a b c d) = [show_nat a, show_nat b, show_nat c, show_nat d]"
    by (simp add: dotted_def split_on_append split_on_none nd)
  then show ?thesis using assms by (simp add: parse_ipv4_def parse_octet_show)
qed

definition effective_prefix :: "nat \<Rightarrow> nat" where
  "effective_prefix n = (if n = 0 then 0 else if n mod 32 = 0 then 32 else n mod 32)"

lemma effective_mask:
  assumes "n < 2 ^ 32"
  shows "cidr_mask n = cidr_mask (effective_prefix n)"
proof (cases "n = 0")
  case False
  have shift: "unat (32 - word_of_nat k :: 32 word) mod 32 = (32 - k mod 32) mod 32" if "k < 2 ^ 32" for k
  proof -
    have "int (unat (32 - word_of_nat k :: 32 word)) = (32 - int k) mod 2 ^ 32"
      using that by (simp add: uint_word_ariths unsigned_of_nat take_bit_eq_mod flip: uint_nat)
    then have "int (unat (32 - word_of_nat k :: 32 word) mod 32) = (32 - int k) mod 2 ^ 32 mod 32" by (simp add: zmod_int)
    also have "\<dots> = (32 - int k) mod 32" by (simp add: mod_mod_cancel)
    also have "\<dots> = int ((32 - k mod 32) mod 32)"
      by (simp add: zmod_int of_nat_diff) (simp add: mod_minus_eq)
    finally show ?thesis by (simp only: of_nat_eq_iff)
  qed
  have "effective_prefix n \<noteq> 0" "effective_prefix n mod 32 = n mod 32" "effective_prefix n \<le> 32"
    using False by (auto simp: effective_prefix_def)
  with False assms show ?thesis by (simp add: cidr_mask_def shift)
qed (simp add: effective_prefix_def)

text \<open>
  C31. A rule with a block lets through exactly the addresses that share its leading bits, as many as the prefix
  says: up to 32. A longer prefix is taken modulo 32 in a release build, so that a rule ending in /40 lets through
  all addresses of a /8.
\<close>

theorem block_rules_spec:
  assumes "a < 256" "b < 256" "c < 256" "d < 256" "x < 256" "y < 256" "z < 256" "w < 256" and "n < 2 ^ 32"
  shows "matches_rule regex (dotted a b c d @ ''/'' @ show_nat n) (dotted x y z w) \<longleftrightarrow>
    ipv4 x y z w div 2 ^ (32 - effective_prefix n) = ipv4 a b c d div 2 ^ (32 - effective_prefix n)"
proof -
  have ns: "CHR ''/'' \<notin> set (show_nat m)" for m by (rule show_nat_no_sep) (simp add: is_ascii_digit_def)
  then have nd: "CHR ''/'' \<notin> set (dotted a b c d)" "CHR ''/'' \<notin> set (dotted x y z w)" by (simp_all add: dotted_def)
  have "split_on CHR ''/'' (dotted a b c d @ ''/'' @ show_nat n) = [dotted a b c d, show_nat n]"
    using ns [of n] by (simp add: split_on_append [OF nd(1)] split_on_none)
  moreover have "parse_u32 (show_nat n) = Some n" using assms(9) by (simp add: parse_u32_def parse_show_nat)
  moreover have "dotted a b c d @ ''/'' @ show_nat n \<noteq> dotted x y z w"
  proof
    assume "dotted a b c d @ ''/'' @ show_nat n = dotted x y z w"
    moreover have "CHR ''/'' \<in> set (dotted a b c d @ ''/'' @ show_nat n)" by simp
    ultimately show False using nd(2) by metis
  qed
  ultimately have "matches_rule regex (dotted a b c d @ ''/'' @ show_nat n) (dotted x y z w) \<longleftrightarrow>
      from_be_bytes [a, b, c, d] AND cidr_mask n = from_be_bytes [x, y, z, w] AND cidr_mask n"
    by (simp add: matches_rule_def cidr_rule_def parse_ipv4_dotted assms(1-8))
  also have "\<dots> \<longleftrightarrow> ipv4 a b c d div 2 ^ (32 - effective_prefix n) = ipv4 x y z w div 2 ^ (32 - effective_prefix n)"
  proof -
    have "effective_prefix n \<le> 32" by (simp add: effective_prefix_def)
    then show ?thesis by (simp only: effective_mask [OF assms(9)] mask_eq be_bytes(2) assms(1-8))
  qed
  finally show ?thesis by auto
qed

theorem block_rules_spec_witness:
  "matches_rule (\<lambda>_. None) (dotted 10 0 0 0 @ ''/'' @ show_nat 40) (dotted 10 200 3 4)"
  by (subst block_rules_spec) (simp_all add: effective_prefix_def ipv4_def)


section \<open>Switched on\<close>

text \<open>
  C30. Once the restrictions are on, an address that no rule lets through is refused at every route, at the ones
  that would switch them off or add a rule too: whatever is sent from such addresses, by administrators or others,
  is answered with a refusal and changes nothing. With an empty list these are all addresses, and nobody
  can undo it but by a restart.
\<close>

theorem locked_out_for_good:
  assumes "net_enabled (nw_net (st d))"
    and "\<forall>(e, client, header, call) \<in> set cs. \<forall>ip. client = Some ip \<longrightarrow> \<not> is_allowed regex (nw_net (st d)) ip"
  shows "network_serve regex cs d = (replicate (length cs) (Inr Denied), d)"
  using assms(2)
proof (induction cs)
  case (Cons c cs)
  obtain e client header call where c: "c = (e, client, header, call)" by (cases c)
  have "network_middleware regex nw_net client (network_route e header call) d = (Inr Denied, d)"
    using Cons.prems assms(1) by (auto simp: c network_middleware_def bind_io_def gets_def ret_def split: option.split)
  moreover have "network_serve regex cs d = (replicate (length cs) (Inr Denied), d)" using Cons by simp
  ultimately show ?case by (simp add: c)
qed simp

lemma network_require_eq:
  "network_require_service_admin e header = on_docs (handler_require_service_admin (e\<lparr>auth_enabled := True\<rparr>) header)"
  by (simp add: network_require_service_admin_def handler_require_service_admin_def)

lemma network_require_wp:
  "wp (network_require_service_admin e header)
     (\<lambda>r s'. s' = s \<and> (\<forall>who. r = Inr who \<longrightarrow> from_admin (e\<lparr>auth_enabled := True\<rparr>) header (nw_docs s))) s"
  unfolding network_require_eq on_docs_def by (auto intro!: wp_zoom wp_weaken [OF require_admin_wp])

lemma network_audit_wp:
  "wp (network_audit e who act ty target details)
     (\<lambda>r s'. nw_net s' = nw_net s \<and> (r = Inr () \<longrightarrow> (\<exists>entry. admin_audit (nw_docs s') = admin_audit (nw_docs s) @ [entry]))) s"
  unfolding network_audit_def on_docs_def audit_record_def by (auto intro!: wp_intro split: if_splits)

text \<open>
  C32. The list and the switch change only by a request of a service administrator, and a request that succeeds has
  put exactly one entry into the audit of administrators, under any failures.
\<close>

theorem network_changes_need_an_admin:
  "wp (network_route e header call) (\<lambda>r s'.
     (nw_net s' \<noteq> nw_net s \<longrightarrow> from_admin (e\<lparr>auth_enabled := True\<rparr>) header (nw_docs s)) \<and>
     (r = Inr () \<longrightarrow> (\<exists>entry. admin_audit (nw_docs s') = admin_audit (nw_docs s) @ [entry]))) s"
  by (cases call)
    (auto simp: list_network_rules_handler_def add_network_rule_handler_def enable_handler_def disable_handler_def
      intro!: wp_intro wp_weaken [OF network_require_wp] wp_weaken [OF network_audit_wp])

section \<open>Endpoints\<close>

definition private_ok :: "private_db \<Rightarrow> bool" where
  "private_ok s \<longleftrightarrow> list_all (\<lambda>r. \<exists>xs. per_cidrs r = JArray xs) (private_endpoints s)"

lemma row_cidrs_lost:
  "pv_parse e ''[]'' = Some (JArray []) \<Longrightarrow> \<exists>xs. v = JArray xs \<Longrightarrow>
     row_cidrs e (json_row (pv_parse e) (pv_base64 e) [(''allowed_cidrs'', cell_jsonb v)]) = []"
  by (auto simp: row_cidrs_def json_row_def col_str_def unwrap_or_def decode_array_def)

text \<open>
  No private endpoint lets anybody in: the column with the blocks is read as a string, which the value of a JSONB
  column never is, so the list read is empty, a block of all addresses included.
\<close>

theorem endpoints_admit_nobody:
  assumes "pv_parse e ''[]'' = Some (JArray [])"
  shows "keeps private_ok (create_network e1 t1 name ty cidr) \<and> keeps private_ok (approve_network i) \<and>
    keeps private_ok (create_private_endpoint e2 t2 service cidrs) \<and>
    (private_ok s \<longrightarrow> wp (is_ip_allowed e tenant ip) (\<lambda>r s'. r \<noteq> Inr True \<and> s' = s) s)"
proof (intro conjI impI)
  show "keeps private_ok (create_network e1 t1 name ty cidr)" "keeps private_ok (approve_network i)"
    "keeps private_ok (create_private_endpoint e2 t2 service cidrs)"
    unfolding create_network_def approve_network_def create_private_endpoint_def Let_def
    by (auto intro!: keeps_intro simp: private_ok_def split: if_splits)
  assume ok: "private_ok s"
  show "wp (is_ip_allowed e tenant ip) (\<lambda>r s'. r \<noteq> Inr True \<and> s' = s) s"
    unfolding is_ip_allowed_def
    by (intro wp_intro) (use ok in \<open>auto intro!: wp_intro simp: list_ex_iff row_cidrs_lost [OF assms] private_ok_def list_all_iff\<close>)
qed

section \<open>Rules that do nothing\<close>

text \<open>serde's text of an array starts with a bracket, and what a text with a bracket at its start parses to is no string.\<close>

definition serde_arrays :: "egress_env \<Rightarrow> bool" where
  "serde_arrays e \<longleftrightarrow> (\<forall>xs. starts_with (eg_text e (JArray xs)) ''['') \<and>
     (\<forall>t v. starts_with t ''['' \<longrightarrow> eg_parse e t = Some v \<longrightarrow> as_str v = None)"

definition egress_ok :: "egress \<Rightarrow> bool" where
  "egress_ok s \<longleftrightarrow> list_all (\<lambda>r. starts_with (er_domains r) ''['') (egress_rows s) \<and>
     (\<forall>t policy. policies s t = Some policy \<longrightarrow> list_all (\<lambda>r. eg_domains r = []) (ep_rules policy))"

lemma domains_lost:
  assumes "serde_arrays e" and "starts_with (er_domains r) ''[''"
  shows "eg_domains (egress_rule_of_row e tenant (json_row (eg_parse e) (eg_base64 e) (egress_cells r))) = []"
proof -
  have "get_value_from_row (eg_parse e) (eg_base64 e) (cell_text (er_domains r)) =
      (case eg_parse e (er_domains r) of Some v \<Rightarrow> v | None \<Rightarrow> JString (er_domains r))"
    using assms(2) by (simp add: get_value_from_row_def cell_text_def no_cell_def)
  with assms show ?thesis
    by (auto simp: egress_rule_of_row_def egress_list_def json_row_def egress_cells_def col_str_def serde_arrays_def unwrap_or_def
        split: option.splits)
qed

lemma reload_keeps:
  assumes "serde_arrays e"
  shows "keeps egress_ok (reload_policy e tenant)"
proof -
  have "wp (reload_policy e tenant) (\<lambda>_. egress_ok) s" if "egress_ok s" for s
    unfolding reload_policy_def Let_def
    by (intro wp_intro)
      (use that in \<open>auto intro!: wp_intro simp: egress_ok_def list_all_iff domains_lost [OF assms] split: if_splits\<close>)
  then show ?thesis by (auto simp: keeps_def wp_def)
qed

lemma egress_keeps: "serde_arrays e \<Longrightarrow> keeps egress_ok (egress_route a e header call)"
  unfolding egress_route_def set_default_policy_def add_egress_rule_def delete_egress_rule_def list_egress_rules_def
  by (cases call) (auto intro!: keeps_intro reload_keeps simp: egress_ok_def list_all_iff serde_arrays_def split: if_splits)

text \<open>
  No egress rule has ever an effect. The domains of a rule are stored as the text of a JSON array; the row reader
  parses such a text, and the service asks the parsed array for its string. So after any sequence of requests and
  failures since the start, each check answers with the default of the tenant, or yes when the tenant's policy
  has not been touched since then.
\<close>

theorem egress_rules_have_no_effect:
  assumes "\<forall>(a, e, header, call) \<in> set cs. serde_arrays e" and "\<forall>r \<in> set (egress_rows s). starts_with (er_domains r) ''[''"
    and "st d = new_egress s"
  shows "check_egress (st (egress_serve cs d)) tenant domain port \<longleftrightarrow>
    (case policies (st (egress_serve cs d)) tenant of None \<Rightarrow> True | Some policy \<Rightarrow> default_action policy = EgressAllow)"
proof -
  have "egress_ok (st (egress_serve cs d))" if "egress_ok (st d)" for d
    using assms(1) that
  proof (induction cs arbitrary: d)
    case (Cons c cs)
    obtain a e header call where c: "c = (a, e, header, call)" by (cases c)
    have "egress_ok (st (snd (egress_route a e header call d)))"
      using egress_keeps [of e a header call] Cons.prems by (simp add: c keeps_def)
    with Cons show ?case by (simp add: c)
  qed simp
  moreover have "egress_ok (st d)" using assms(2,3) by (simp add: egress_ok_def new_egress_def list_all_iff)
  ultimately have ok: "egress_ok (st (egress_serve cs d))" by blast
  have "\<not> egress_rule_hits domain port r" if "eg_domains r = []" for r
    using that by (simp add: egress_rule_hits_def)
  with ok have "find (egress_rule_hits domain port) (ep_rules policy) = None"
    if "policies (st (egress_serve cs d)) tenant = Some policy" for policy
    using that by (auto simp: egress_ok_def find_None_iff list_all_iff)
  then show ?thesis by (auto simp: check_egress_def split: option.splits)
qed

section \<open>Examples\<close>

theorem locked_out_for_good_witness:
  "network_serve (\<lambda>_. None) [(demo_doc_env True, Some ''10.0.0.1'', Some ''Bearer boss'', DisableNetwork)]
     (up \<lparr>nw_docs = demo_doc_db, nw_net = \<lparr>allowlist = [], net_enabled = True\<rparr>\<rparr>) =
   ([Inr Denied], up \<lparr>nw_docs = demo_doc_db, nw_net = \<lparr>allowlist = [], net_enabled = True\<rparr>\<rparr>)"
  by (subst locked_out_for_good) (simp_all add: is_allowed_def)

theorem network_changes_need_an_admin_witness:
  "\<exists>s' entry. network_route (demo_doc_env True) (Some ''Bearer boss@acme.io'') DisableNetwork
       (up \<lparr>nw_docs = demo_doc_db, nw_net = \<lparr>allowlist = [], net_enabled = True\<rparr>\<rparr>) = (Inr (), up s') \<and>
     from_admin (demo_doc_env True) (Some ''Bearer boss@acme.io'') demo_doc_db \<and> \<not> net_enabled (nw_net s') \<and>
     admin_audit (nw_docs s') = admin_audit demo_doc_db @ [entry]"
proof -
  let ?e = "demo_doc_env True" and ?s = "\<lparr>nw_docs = demo_doc_db, nw_net = \<lparr>allowlist = [], net_enabled = True\<rparr>\<rparr>"
  have on: "?e\<lparr>auth_enabled := True\<rparr> = ?e" by (simp add: demo_doc_env_def)
  then have admin: "network_require_service_admin ?e (Some ''Bearer boss@acme.io'') (up ?s)
      = (Inr \<lparr>aw_id = 1, aw_email = ''boss@acme.io''\<rparr>, up ?s)"
    using demo_administrator by (simp add: network_require_eq on_docs_def)
  have "admin_audit demo_doc_db = []" by (simp add: demo_doc_db_def auth_db.defs)
  with admin obtain s' where run: "network_route ?e (Some ''Bearer boss@acme.io'') DisableNetwork (up ?s) = (Inr (), up s')"
      and off: "\<not> net_enabled (nw_net s')"
    by (simp add: disable_handler_def network_audit_def on_docs_def audit_record_def)
  from wp_up [OF network_changes_need_an_admin [of ?e "Some ''Bearer boss@acme.io''" DisableNetwork ?s]] run off
  show ?thesis by (auto simp: on)
qed

definition demo_private_env :: private_env where
  "demo_private_env = \<lparr>pv_uuid = ''01234567'', pv_now = ''n'', pv_db_now = ''n'', pv_parse = (\<lambda>_. Some (JArray [])), pv_base64 = id\<rparr>"

theorem endpoints_admit_nobody_witness:
  "wp (is_ip_allowed demo_private_env 1 ''10.0.0.1'') (\<lambda>r s'. r \<noteq> Inr True \<and>
       s' = \<lparr>private_networks = [], private_endpoints = [\<lparr>per_id = ''e'', per_tenant = 1, per_service = ''db'', per_url = ''u'',
         per_cidrs = JArray [JString ''0.0.0.0/0''], per_status = ''active''\<rparr>]\<rparr>)
     \<lparr>private_networks = [], private_endpoints = [\<lparr>per_id = ''e'', per_tenant = 1, per_service = ''db'', per_url = ''u'',
       per_cidrs = JArray [JString ''0.0.0.0/0''], per_status = ''active''\<rparr>]\<rparr>"
  using endpoints_admit_nobody [of demo_private_env] by (simp add: demo_private_env_def private_ok_def)

definition demo_egress_env :: egress_env where
  "demo_egress_env = \<lparr>eg_uuid = ''r1'', eg_now = ''n'', eg_db_now = ''n'', eg_text = (\<lambda>_. ''[]''),
     eg_parse = (\<lambda>_. Some (JArray [])), eg_base64 = id\<rparr>"

theorem egress_rules_have_no_effect_witness:
  "check_egress (st (egress_serve [(demo_auth_env, demo_egress_env, Some ''Bearer u'', AddEgressRule ''no'' ''deny'' [''evil.example''] [])]
     (up (new_egress \<lparr>egress_rows = [], egress_defaults = [], policies = \<lambda>_. None\<rparr>)))) 1 ''evil.example'' 443"
proof -
  let ?cs = "[(demo_auth_env, demo_egress_env, Some ''Bearer u'', AddEgressRule ''no'' ''deny'' [''evil.example''] [])]"
  let ?s = "\<lparr>egress_rows = [], egress_defaults = [], policies = \<lambda>_. None\<rparr>"
  have serde: "serde_arrays demo_egress_env" by (simp add: serde_arrays_def demo_egress_env_def starts_with_def)
  have "extract_auth_user demo_auth_env (Some ''Bearer u'') = Inr \<lparr>aw_id = 1, aw_email = ''u''\<rparr>"
    by (simp add: extract_auth_user_def strip_prefix_def starts_with_def validate_token_def demo_auth_env_def ok_or_def)
  then have "\<forall>policy. policies (st (egress_serve ?cs (up (new_egress ?s)))) 1 = Some policy \<longrightarrow> default_action policy = EgressAllow"
    by (simp add: egress_route_def add_egress_rule_def reload_policy_def new_egress_def demo_egress_env_def unwrap_or_def Let_def)
  then show ?thesis
    using egress_rules_have_no_effect [of ?cs ?s "up (new_egress ?s)" 1 "''evil.example''" 443] serde
    by (auto split: option.splits)
qed

end
