(* ===== verification/Waf.thy ===== *)
theory Waf imports Calm begin

text \<open>
  Defences that count: the web application firewall (\<open>src/src/security/waf.rs\<close>) and the protection against
  bots and guessed passwords (\<open>src/src/security/bot_protection.rs\<close>). The arithmetic of doubles is a parameter.
  Instants are nanoseconds; the clock is read once for an operation.
\<close>

record 'f doubles =
  d_nat :: "nat \<Rightarrow> 'f"
  d_lit :: "string \<Rightarrow> 'f"
  d_secs :: "nat \<Rightarrow> 'f"
  d_add :: "'f \<Rightarrow> 'f \<Rightarrow> 'f"
  d_sub :: "'f \<Rightarrow> 'f \<Rightarrow> 'f"
  d_mul :: "'f \<Rightarrow> 'f \<Rightarrow> 'f"
  d_div :: "'f \<Rightarrow> 'f \<Rightarrow> 'f"
  d_powi :: "'f \<Rightarrow> nat \<Rightarrow> 'f"
  d_min :: "'f \<Rightarrow> 'f \<Rightarrow> 'f"
  d_max :: "'f \<Rightarrow> 'f \<Rightarrow> 'f"
  d_less :: "'f \<Rightarrow> 'f \<Rightarrow> bool"
  d_u64 :: "'f \<Rightarrow> nat"

definition secs :: "nat \<Rightarrow> nat" where
  "secs n = n * 1000000000"

section \<open>The firewall\<close>

record 'f waf_config =
  waf_enabled :: bool
  requests_per_second :: nat
  rate_limit_burst :: nat
  rate_limit_window_secs :: nat
  block_duration_secs :: nat
  max_request_body_bytes :: nat
  max_uri_length :: nat
  blocked_user_agents :: "string list"
  blocked_patterns :: "string list"
  geo_block_countries :: "string list"
  ip_reputation_threshold :: 'f

definition default_waf_config :: "'f doubles \<Rightarrow> 'f waf_config" where
  "default_waf_config D = \<lparr>waf_enabled = True, requests_per_second = 100, rate_limit_burst = 200, rate_limit_window_secs = 60,
     block_duration_secs = 300, max_request_body_bytes = 10 * 1024 * 1024, max_uri_length = 2048,
     blocked_user_agents = [''sqlmap'', ''nikto'', ''nmap'', ''masscan''],
     blocked_patterns = [''/../'', ''/etc/passwd'', ''/proc/self'', ''<script>'', ''UNION SELECT'', ''DROP TABLE'',
       [CHR 0x27, CHR '';'', CHR '' '', CHR ''-'', CHR ''-'']],
     geo_block_countries = [], ip_reputation_threshold = d_lit D ''0.3''\<rparr>"

text \<open>\<open>from_env\<close>: \<open>vars\<close> gives the values of the variables.\<close>

definition waf_config_from_env :: "'f doubles \<Rightarrow> (string \<Rightarrow> string option) \<Rightarrow> 'f waf_config" where
  "waf_config_from_env D vars =
     (let c0 = default_waf_config D;
          c1 = (case vars ''STACKHOUSE_WAF_ENABLED'' of None \<Rightarrow> c0 | Some v \<Rightarrow> c0\<lparr>waf_enabled := v = ''1'' \<or> v = ''true''\<rparr>);
          c2 = (case vars ''STACKHOUSE_WAF_RATE_LIMIT_RPS'' of None \<Rightarrow> c1
                | Some v \<Rightarrow> c1\<lparr>requests_per_second := unwrap_or 100 (parse_u32 v)\<rparr>);
          c3 = (case vars ''STACKHOUSE_WAF_MAX_BODY_BYTES'' of None \<Rightarrow> c2
                | Some v \<Rightarrow> c2\<lparr>max_request_body_bytes := unwrap_or (10 * 1024 * 1024) (parse_unsigned 18446744073709551615 v)\<rparr>)
      in case vars ''STACKHOUSE_WAF_BLOCKED_COUNTRIES'' of None \<Rightarrow> c3
         | Some v \<Rightarrow> c3\<lparr>geo_block_countries := map (to_uppercase \<circ> trim) (split_on (CHR '','') v)\<rparr>)"

record 'f token_bucket =
  tokens :: 'f
  max_tokens :: 'f
  refill_rate :: 'f
  last_refill :: nat

definition new_bucket :: "nat \<Rightarrow> 'f \<Rightarrow> 'f \<Rightarrow> 'f token_bucket" where
  "new_bucket now m rate = \<lparr>tokens = m, max_tokens = m, refill_rate = rate, last_refill = now\<rparr>"

definition try_consume :: "'f doubles \<Rightarrow> nat \<Rightarrow> 'f token_bucket \<Rightarrow> bool \<times> 'f token_bucket" where
  "try_consume D now b =
     (let filled = d_min D (d_add D (tokens b) (d_mul D (d_secs D (now - last_refill b)) (refill_rate b))) (max_tokens b);
          b' = b\<lparr>tokens := filled, last_refill := now\<rparr>
      in if \<not> d_less D filled (d_nat D 1) then (True, b'\<lparr>tokens := d_sub D filled (d_nat D 1)\<rparr>) else (False, b'))"

record 'f ip_reputation =
  score :: 'f
  violations :: nat
  last_violation :: "nat option"
  blocked_until :: "nat option"

definition fresh_reputation :: "'f doubles \<Rightarrow> 'f ip_reputation" where
  "fresh_reputation D = \<lparr>score = d_nat D 1, violations = 0, last_violation = None, blocked_until = None\<rparr>"

definition worse :: "'f doubles \<Rightarrow> 'f \<Rightarrow> 'f" where
  "worse D x = d_max D (d_sub D x (d_lit D ''0.1'')) (d_nat D 0)"

definition add_violation :: "'f doubles \<Rightarrow> nat \<Rightarrow> nat \<Rightarrow> 'f ip_reputation \<Rightarrow> 'f ip_reputation" where
  "add_violation D now duration r =
     (let r' = r\<lparr>violations := violations r + 1, last_violation := Some now, score := worse D (score r)\<rparr>
      in if violations r' \<ge> 5 then r'\<lparr>blocked_until := Some (now + secs duration)\<rparr> else r')"

definition is_blocked :: "nat \<Rightarrow> 'f ip_reputation \<Rightarrow> bool" where
  "is_blocked now r = (case blocked_until r of None \<Rightarrow> False | Some t \<Rightarrow> now < t)"

definition decay :: "'f doubles \<Rightarrow> nat \<Rightarrow> 'f ip_reputation \<Rightarrow> 'f ip_reputation" where
  "decay D now r =
     (case last_violation r of
        None \<Rightarrow> r
      | Some l \<Rightarrow>
          let elapsed = (now - l) div 1000000000 in
          if elapsed > 3600
          then (let r' = r\<lparr>score := d_min D (d_add D (score r) (d_lit D ''0.01'')) (d_nat D 1)\<rparr>
                in if elapsed > 7200 \<and> violations r' > 0 then r'\<lparr>violations := violations r' - 1\<rparr> else r')
          else r)"

record 'f waf =
  rate_limiters :: "string \<Rightarrow> 'f token_bucket option"
  ip_reputations :: "string \<Rightarrow> 'f ip_reputation option"

definition new_waf :: "'f waf" where
  "new_waf = \<lparr>rate_limiters = \<lambda>_. None, ip_reputations = \<lambda>_. None\<rparr>"

datatype waf_decision = RateLimited | Blocked string

record waf_request =
  rq_ip :: string
  rq_uri :: string
  rq_user_agent :: string
  rq_body_size :: nat

definition record_violation :: "'f doubles \<Rightarrow> 'f waf_config \<Rightarrow> nat \<Rightarrow> string \<Rightarrow> 'f waf \<Rightarrow> 'f waf" where
  "record_violation D c now ip w = w\<lparr>ip_reputations := (ip_reputations w)(ip \<mapsto>
     add_violation D now (block_duration_secs c) (unwrap_or (fresh_reputation D) (ip_reputations w ip)))\<rparr>"

text \<open>The checks of the request itself: what is wrong with it, and whether that counts against its address.\<close>

definition inspect :: "'f waf_config \<Rightarrow> waf_request \<Rightarrow> (bool \<times> string) option" where
  "inspect c rq =
     (if length (rq_uri rq) > max_uri_length c then Some (True, ''URI too long'')
      else if rq_body_size rq > max_request_body_bytes c then Some (False, ''Request body too large'')
      else case find (\<lambda>b. str_contains (to_lowercase (rq_user_agent rq)) (to_lowercase b)) (blocked_user_agents c) of
        Some b \<Rightarrow> Some (True, ''Blocked user agent: '' @ b)
      | None \<Rightarrow>
          (case find (\<lambda>p. str_contains (to_lowercase (rq_uri rq)) (to_lowercase p)) (blocked_patterns c) of
             Some p \<Rightarrow> Some (True, ''Blocked pattern detected: '' @ p)
           | None \<Rightarrow> None))"

definition reputation_check :: "'f doubles \<Rightarrow> 'f waf_config \<Rightarrow> nat \<Rightarrow> string \<Rightarrow> 'f waf \<Rightarrow> waf_decision option \<times> 'f waf" where
  "reputation_check D c now ip w =
     (case ip_reputations w ip of
        None \<Rightarrow> (None, w)
      | Some r \<Rightarrow>
          let r' = decay D now r; w' = w\<lparr>ip_reputations := (ip_reputations w)(ip \<mapsto> r')\<rparr> in
          (if is_blocked now r' then Some (Blocked ''IP temporarily blocked'')
           else if d_less D (score r') (ip_reputation_threshold c) then Some (Blocked ''IP reputation too low'') else None, w'))"

definition take_token :: "'f doubles \<Rightarrow> 'f waf_config \<Rightarrow> nat \<Rightarrow> string \<Rightarrow> 'f waf \<Rightarrow> bool \<times> 'f waf" where
  "take_token D c now ip w =
     (case try_consume D now (unwrap_or (new_bucket now (d_nat D (rate_limit_burst c)) (d_nat D (requests_per_second c)))
         (rate_limiters w ip)) of
        (ok, b) \<Rightarrow> (ok, w\<lparr>rate_limiters := (rate_limiters w)(ip \<mapsto> b)\<rparr>))"

definition check_request :: "'f doubles \<Rightarrow> 'f waf_config \<Rightarrow> nat \<Rightarrow> waf_request \<Rightarrow> 'f waf \<Rightarrow> waf_decision option \<times> 'f waf" where
  "check_request D c now rq w =
     (if \<not> waf_enabled c then (None, w)
      else case reputation_check D c now (rq_ip rq) w of
        (Some d, w1) \<Rightarrow> (Some d, w1)
      | (None, w1) \<Rightarrow>
          (case take_token D c now (rq_ip rq) w1 of
             (False, w2) \<Rightarrow> (Some RateLimited, record_violation D c now (rq_ip rq) w2)
           | (True, w2) \<Rightarrow>
               (case inspect c rq of
                  None \<Rightarrow> (None, w2)
                | Some (counts, why) \<Rightarrow> (Some (Blocked why), if counts then record_violation D c now (rq_ip rq) w2 else w2))))"

definition block_ip :: "'f doubles \<Rightarrow> nat \<Rightarrow> string \<Rightarrow> nat \<Rightarrow> 'f waf \<Rightarrow> 'f waf" where
  "block_ip D now ip duration w = w\<lparr>ip_reputations := (ip_reputations w)(ip \<mapsto>
     (unwrap_or (fresh_reputation D) (ip_reputations w ip))\<lparr>blocked_until := Some (now + secs duration), score := d_nat D 0\<rparr>)\<rparr>"

definition unblock_ip :: "'f doubles \<Rightarrow> string \<Rightarrow> 'f waf \<Rightarrow> 'f waf" where
  "unblock_ip D ip w =
     (case ip_reputations w ip of
        None \<Rightarrow> w
      | Some r \<Rightarrow> w\<lparr>ip_reputations := (ip_reputations w)(ip \<mapsto> r\<lparr>blocked_until := None, score := d_nat D 1, violations := 0\<rparr>)\<rparr>)"

record waf_stats =
  total_tracked_ips :: nat
  ws_blocked_ips :: nat
  low_reputation_ips :: nat
  config_enabled :: bool

text \<open>The keys of a map are given as a list.\<close>

definition waf_stats_of :: "'f doubles \<Rightarrow> 'f waf_config \<Rightarrow> nat \<Rightarrow> string list \<Rightarrow> 'f waf \<Rightarrow> waf_stats" where
  "waf_stats_of D c now ips w = \<lparr>total_tracked_ips = length (List.map_filter (rate_limiters w) ips),
     ws_blocked_ips = length (filter (is_blocked now) (List.map_filter (ip_reputations w) ips)),
     low_reputation_ips = length (filter (\<lambda>r. d_less D (score r) (ip_reputation_threshold c)) (List.map_filter (ip_reputations w) ips)),
     config_enabled = waf_enabled c\<rparr>"

datatype waf_answer = PassedOn | TooManyRequests | BlockedFor string

text \<open>The middleware makes a service of its own for each request.\<close>

definition waf_middleware :: "'f doubles \<Rightarrow> (string \<Rightarrow> string option) \<Rightarrow> nat \<Rightarrow> waf_request \<Rightarrow> waf_answer" where
  "waf_middleware D vars now rq =
     (case fst (check_request D (waf_config_from_env D vars) now rq new_waf) of
        None \<Rightarrow> PassedOn
      | Some RateLimited \<Rightarrow> TooManyRequests
      | Some (Blocked why) \<Rightarrow> BlockedFor why)"

section \<open>Protection against bots\<close>

record 'f bot_config =
  max_login_attempts :: nat
  lockout_duration_secs :: nat
  progressive_lockout :: bool
  lockout_multiplier :: 'f
  suspicious_threshold :: nat
  block_known_bots :: bool
  require_captcha_after :: nat
  ip_rate_limit_per_minute :: nat

definition default_bot_config :: "'f doubles \<Rightarrow> 'f bot_config" where
  "default_bot_config D = \<lparr>max_login_attempts = 5, lockout_duration_secs = 900, progressive_lockout = True,
     lockout_multiplier = d_lit D ''2.0'', suspicious_threshold = 10, block_known_bots = True, require_captcha_after = 3,
     ip_rate_limit_per_minute = 100\<rparr>"

record ip_tracker =
  attempts :: nat
  lockout_count :: nat
  first_attempt :: nat
  last_attempt :: nat
  locked_until :: "nat option"
  fingerprints :: "string list"

record 'f protection_result =
  pr_allowed :: bool
  pr_reason :: "string option"
  require_captcha :: bool
  remaining_attempts :: nat
  lockout_until :: "string option"
  risk_score :: 'f

record login_attempt_row =
  la_ip :: string
  la_email :: string
  la_success :: bool
  la_agent :: string

record bot =
  trackers :: "string \<Rightarrow> ip_tracker option"
  blocked_ips :: "string set"
  blocked_rows :: "(string \<times> string) list"
  login_attempts :: "login_attempt_row list"

text \<open>\<open>bp_bool\<close>: what the server makes of a text bound to a boolean column.\<close>

record 'f bot_env =
  bp_doubles :: "'f doubles"
  bp_md5 :: "string \<Rightarrow> string"
  bp_bool :: "string \<Rightarrow> bool option"

text \<open>A fresh process does not read the table of blocked addresses.\<close>

definition new_bot :: "bot \<Rightarrow> bot" where
  "new_bot s = s\<lparr>trackers := \<lambda>_. None, blocked_ips := {}\<rparr>"

definition new_ip_tracker :: "nat \<Rightarrow> ip_tracker" where
  "new_ip_tracker now = \<lparr>attempts = 0, lockout_count = 0, first_attempt = now, last_attempt = now, locked_until = None, fingerprints = []\<rparr>"

definition cleanup :: "nat \<Rightarrow> bot \<Rightarrow> bot" where
  "cleanup now s = s\<lparr>trackers := \<lambda>ip. case trackers s ip of None \<Rightarrow> None
     | Some t \<Rightarrow> if now - last_attempt t < secs 3600 then Some t else None\<rparr>"

definition calculate_risk :: "'f doubles \<Rightarrow> 'f bot_config \<Rightarrow> ip_tracker \<Rightarrow> 'f" where
  "calculate_risk D c t =
     (let s1 = d_add D (d_lit D ''0.0'') (d_min D (d_div D (d_nat D (attempts t)) (d_nat D (max_login_attempts c))) (d_lit D ''0.5''));
          s2 = d_add D s1 (d_min D (d_mul D (d_nat D (lockout_count t)) (d_lit D ''0.15'')) (d_lit D ''0.3''));
          s3 = (if length (fingerprints t) > 3 then d_add D s2 (d_lit D ''0.2'') else s2)
      in d_min D s3 (d_lit D ''1.0''))"

definition lockout_secs :: "'f doubles \<Rightarrow> 'f bot_config \<Rightarrow> nat \<Rightarrow> nat" where
  "lockout_secs D c count =
     (if progressive_lockout c then d_u64 D (d_mul D (d_nat D (lockout_duration_secs c)) (d_powi D (lockout_multiplier c) count))
      else lockout_duration_secs c)"

definition put_tracker :: "string \<Rightarrow> ip_tracker \<Rightarrow> bot \<Rightarrow> bot" where
  "put_tracker ip t s = s\<lparr>trackers := (trackers s)(ip \<mapsto> t)\<rparr>"

definition bot_block_ip :: "string \<Rightarrow> string \<Rightarrow> (bot, unit) io" where
  "bot_block_ip ip reason =
     bind_io (modify (\<lambda>s. s\<lparr>blocked_ips := insert ip (blocked_ips s)\<rparr>)) (\<lambda>_.
     exec (\<lambda>s. if ip \<in> fst ` set (blocked_rows s) then s else s\<lparr>blocked_rows := blocked_rows s @ [(ip, reason)]\<rparr>))"

definition bot_unblock_ip :: "string \<Rightarrow> (bot, unit) io" where
  "bot_unblock_ip ip =
     bind_io (modify (\<lambda>s. s\<lparr>blocked_ips := blocked_ips s - {ip}\<rparr>)) (\<lambda>_.
     exec (\<lambda>s. s\<lparr>blocked_rows := filter (\<lambda>r. fst r \<noteq> ip) (blocked_rows s)\<rparr>))"

definition bot_refused :: "string \<Rightarrow> string option \<Rightarrow> 'f \<Rightarrow> 'f protection_result" where
  "bot_refused reason until risk = \<lparr>pr_allowed = False, pr_reason = Some reason, require_captcha = False, remaining_attempts = 0,
     lockout_until = until, risk_score = risk\<rparr>"

text \<open>An attempt that is counted: the tracker after it, before a lockout.\<close>

definition count_attempt :: "'f bot_env \<Rightarrow> nat \<Rightarrow> string option \<Rightarrow> ip_tracker \<Rightarrow> ip_tracker" where
  "count_attempt e now agent t =
     (let t1 = (if locked_until t = None then t else t\<lparr>locked_until := None, attempts := 0\<rparr>);
          t2 = t1\<lparr>attempts := attempts t1 + 1, last_attempt := now\<rparr>
      in case agent of None \<Rightarrow> t2
         | Some ua \<Rightarrow> if bp_md5 e ua \<in> set (fingerprints t2) then t2 else t2\<lparr>fingerprints := fingerprints t2 @ [bp_md5 e ua]\<rparr>)"

definition bot_check_request ::
  "'f bot_env \<Rightarrow> 'f bot_config \<Rightarrow> nat \<Rightarrow> string \<Rightarrow> string option \<Rightarrow> (bot, 'f protection_result) io" where
  "bot_check_request e c now ip agent =
     (let D = bp_doubles e in
      bind_io (gets blocked_ips) (\<lambda>blocked.
      if ip \<in> blocked then ret (bot_refused ''IP address is blocked'' None (d_lit D ''1.0''))
      else bind_io (gets (\<lambda>s. unwrap_or (new_ip_tracker now) (trackers s ip))) (\<lambda>t0.
      if (case locked_until t0 of None \<Rightarrow> False | Some u \<Rightarrow> now < u)
      then (let remaining = (the (locked_until t0) - now) div 1000000000
            in ret (bot_refused (''Account locked. Try again in '' @ show_nat remaining @ '' seconds'') (Some (show_nat remaining @ ''s'')) (d_lit D ''0.9'')))
      else let t = count_attempt e now agent t0; risk = calculate_risk D c t in
        if attempts t \<ge> max_login_attempts c
        then (let n = lockout_secs D c (lockout_count t);
                  t' = t\<lparr>locked_until := Some (now + secs n), lockout_count := lockout_count t + 1, attempts := 0\<rparr>
              in bind_io (modify (put_tracker ip t')) (\<lambda>_.
                 bind_io (if lockout_count t' \<ge> 5 then bot_block_ip ip ''Excessive lockouts'' else ret ()) (\<lambda>_.
                 ret (bot_refused (''Too many attempts. Locked for '' @ show_nat n @ '' seconds'') (Some (show_nat n @ ''s'')) risk))))
        else bind_io (modify (put_tracker ip t)) (\<lambda>_.
          ret \<lparr>pr_allowed = True, pr_reason = None, require_captcha = attempts t \<ge> require_captcha_after c,
            remaining_attempts = max_login_attempts c - attempts t, lockout_until = None, risk_score = risk\<rparr>))))"

text \<open>The value of \<open>success\<close> is bound as a text; what becomes of the statement is not looked at.\<close>

definition record_attempt ::
  "'f bot_env \<Rightarrow> string \<Rightarrow> string option \<Rightarrow> bool \<Rightarrow> string option \<Rightarrow> (bot, unit) io" where
  "record_attempt e ip email success agent =
     bind_io (if success then modify (\<lambda>s. s\<lparr>trackers := (trackers s)(ip := None)\<rparr>) else ret ()) (\<lambda>_.
     bind_io (attempt (stmt (\<lambda>s. case bp_bool e (if success then ''true'' else ''false'') of
         None \<Rightarrow> Inl (Database ''column success is of type boolean but expression is of type text'')
       | Some b \<Rightarrow> Inr ((), s\<lparr>login_attempts := login_attempts s @ [\<lparr>la_ip = ip, la_email = unwrap_or [] email, la_success = b,
           la_agent = unwrap_or [] agent\<rparr>]\<rparr>)))) (\<lambda>_. ret ()))"


section \<open>Limits that are lost\<close>

text \<open>Doubles count exactly: the laws of natural numbers below \<open>2 ^ 32\<close>, and nothing is refilled in no time.\<close>

definition exact_counts :: "'f doubles \<Rightarrow> bool" where
  "exact_counts D \<longleftrightarrow>
     (\<forall>m n. m \<le> 2 ^ 32 \<longrightarrow> n \<le> 2 ^ 32 \<longrightarrow> d_less D (d_nat D m) (d_nat D n) = (m < n) \<and> d_min D (d_nat D m) (d_nat D n) = d_nat D (min m n)) \<and>
     (\<forall>n < 2 ^ 32. d_sub D (d_nat D (Suc n)) (d_nat D 1) = d_nat D n) \<and>
     (\<forall>m r. d_add D (d_nat D m) (d_mul D (d_secs D 0) (d_nat D r)) = d_nat D m)"

lemma exactD:
  assumes "exact_counts D"
  shows "m \<le> 2 ^ 32 \<Longrightarrow> n \<le> 2 ^ 32 \<Longrightarrow> d_less D (d_nat D m) (d_nat D n) = (m < n)"
    "m \<le> 2 ^ 32 \<Longrightarrow> n \<le> 2 ^ 32 \<Longrightarrow> d_min D (d_nat D m) (d_nat D n) = d_nat D (min m n)"
    "n < 2 ^ 32 \<Longrightarrow> d_sub D (d_nat D (Suc n)) (d_nat D 1) = d_nat D n"
    "d_add D (d_nat D m) (d_mul D (d_secs D 0) (d_nat D r)) = d_nat D m"
  using assms unfolding exact_counts_def by blast+

definition bucket_of :: "'f doubles \<Rightarrow> 'f waf_config \<Rightarrow> nat \<Rightarrow> nat \<Rightarrow> 'f token_bucket" where
  "bucket_of D c now n = \<lparr>tokens = d_nat D n, max_tokens = d_nat D (rate_limit_burst c),
     refill_rate = d_nat D (requests_per_second c), last_refill = now\<rparr>"

lemma consume_bucket:
  assumes "exact_counts D" and "n \<le> rate_limit_burst c" and "rate_limit_burst c \<le> 2 ^ 32"
  shows "try_consume D now (bucket_of D c now n) = (if n = 0 then (False, bucket_of D c now 0) else (True, bucket_of D c now (n - 1)))"
proof -
  have "d_less D (d_nat D n) (d_nat D 1) = (n < 1)" using assms by (intro exactD(1)) simp_all
  moreover have "d_min D (d_nat D n) (d_nat D (rate_limit_burst c)) = d_nat D n"
    using assms by (simp add: exactD(2) min_def)
  moreover have "n \<noteq> 0 \<Longrightarrow> d_sub D (d_nat D n) (d_nat D 1) = d_nat D (n - 1)"
    using exactD(3) [OF assms(1), of "n - 1"] assms by simp
  ultimately show ?thesis
    by (auto simp: try_consume_def bucket_of_def exactD(4) [OF assms(1)] Let_def)
qed

lemma take_token_fresh:
  assumes "exact_counts D" and "0 < rate_limit_burst c" and "rate_limit_burst c \<le> 2 ^ 32" and "rate_limiters w ip = None"
  shows "take_token D c now ip w = (True, w\<lparr>rate_limiters := (rate_limiters w)(ip \<mapsto> bucket_of D c now (rate_limit_burst c - 1))\<rparr>)"
proof -
  have "new_bucket now (d_nat D (rate_limit_burst c)) (d_nat D (requests_per_second c)) = bucket_of D c now (rate_limit_burst c)"
    by (simp add: new_bucket_def bucket_of_def)
  then show ?thesis using assms consume_bucket [OF assms(1) order_refl assms(3)] by (simp add: take_token_def unwrap_or_def)
qed

lemma env_burst: "rate_limit_burst (waf_config_from_env D vars) = 200"
  by (simp add: waf_config_from_env_def default_waf_config_def Let_def split: option.split)

text \<open>What the middleware amounts to: the checks of the single request.\<close>

lemma middleware_inspects:
  assumes "exact_counts D"
  shows "waf_middleware D vars now rq =
    (if waf_enabled (waf_config_from_env D vars)
     then (case inspect (waf_config_from_env D vars) rq of None \<Rightarrow> PassedOn | Some (_, why) \<Rightarrow> BlockedFor why) else PassedOn)"
proof -
  have "take_token D (waf_config_from_env D vars) now ip new_waf =
      (True, new_waf\<lparr>rate_limiters := (rate_limiters new_waf)(ip \<mapsto> bucket_of D (waf_config_from_env D vars) now 199)\<rparr>)" for ip
    by (subst take_token_fresh [OF assms]) (simp_all add: env_burst new_waf_def)
  then show ?thesis
    by (simp add: waf_middleware_def check_request_def reputation_check_def new_waf_def split: option.splits prod.splits)
qed

text \<open>A service that serves requests one after the other.\<close>

fun waf_serve :: "'f doubles \<Rightarrow> 'f waf_config \<Rightarrow> (nat \<times> waf_request) list \<Rightarrow> 'f waf \<Rightarrow> waf_decision option list" where
  "waf_serve D c [] w = []"
| "waf_serve D c ((now, rq) # rqs) w = (case check_request D c now rq w of (d, w') \<Rightarrow> d # waf_serve D c rqs w')"

definition reputation_of :: "'f doubles \<Rightarrow> 'f waf_config \<Rightarrow> nat \<Rightarrow> nat \<Rightarrow> 'f ip_reputation option" where
  "reputation_of D c now k = (if k = 0 then None else Some \<lparr>score = (worse D ^^ k) (d_nat D 1), violations = k, last_violation = Some now,
     blocked_until = (if k < 5 then None else Some (now + secs (block_duration_secs c)))\<rparr>)"

lemma reputation_step:
  "record_violation D c now ip w = w\<lparr>ip_reputations := (ip_reputations w)(ip := reputation_of D c now (Suc k))\<rparr>"
  if "ip_reputations w ip = reputation_of D c now k" and "k < 5"
  using that
  by (cases "k = 0") (auto simp: record_violation_def reputation_of_def add_violation_def fresh_reputation_def unwrap_or_def Let_def)

lemma reputation_passes:
  assumes "ip_reputations w ip = reputation_of D c now k" and "0 < block_duration_secs c"
    and "\<forall>k < 5. \<not> d_less D ((worse D ^^ k) (d_nat D 1)) (ip_reputation_threshold c)"
  shows "reputation_check D c now ip w = (if k < 5 then None else Some (Blocked ''IP temporarily blocked''), w)"
proof -
  have "w\<lparr>ip_reputations := (ip_reputations w)(ip \<mapsto> r)\<rparr> = w" if "ip_reputations w ip = Some r" for r
    using that by (simp add: fun_upd_idem)
  with assms show ?thesis
    by (auto simp: reputation_check_def reputation_of_def decay_def is_blocked_def secs_def Let_def)
qed

lemma serve_limited:
  assumes "exact_counts D" and "waf_enabled c" and "inspect c rq = None" and "rate_limit_burst c \<le> 2 ^ 32"
    and "0 < block_duration_secs c" and "\<forall>k < 5. \<not> d_less D ((worse D ^^ k) (d_nat D 1)) (ip_reputation_threshold c)"
    and "rate_limiters w (rq_ip rq) = Some (bucket_of D c now 0)" and "ip_reputations w (rq_ip rq) = reputation_of D c now k" and "k \<le> 5"
  shows "waf_serve D c (replicate n (now, rq)) w =
    map (\<lambda>i. if k + i < 5 then Some RateLimited else Some (Blocked ''IP temporarily blocked'')) [0..<n]"
  using assms(7-9)
proof (induction n arbitrary: w k)
  case (Suc n)
  note rep = reputation_passes [OF Suc.prems(2) assms(5,6)]
  show ?case
  proof (cases "k < 5")
    case True
    let ?w = "record_violation D c now (rq_ip rq) w"
    have take: "take_token D c now (rq_ip rq) w = (False, w)"
      using Suc.prems(1) consume_bucket [OF assms(1) _ assms(4), of 0 now] by (simp add: take_token_def unwrap_or_def fun_upd_idem)
    have "waf_serve D c (replicate n (now, rq)) ?w =
        map (\<lambda>i. if Suc k + i < 5 then Some RateLimited else Some (Blocked ''IP temporarily blocked'')) [0..<n]"
      using Suc.prems True by (intro Suc.IH) (simp_all add: reputation_step)
    with True rep take assms(2) show ?thesis by (simp add: check_request_def map_upt_Suc del: upt_Suc)
  next
    case False
    have "waf_serve D c (replicate n (now, rq)) w =
        map (\<lambda>i. if k + i < 5 then Some RateLimited else Some (Blocked ''IP temporarily blocked'')) [0..<n]"
      by (intro Suc.IH Suc.prems)
    with False rep assms(2) show ?thesis by (simp add: check_request_def map_upt_Suc del: upt_Suc)
  qed
qed simp

lemma serve_passes:
  assumes "exact_counts D" and "waf_enabled c" and "inspect c rq = None" and "rate_limit_burst c \<le> 2 ^ 32"
    and "0 < block_duration_secs c" and "\<forall>k < 5. \<not> d_less D ((worse D ^^ k) (d_nat D 1)) (ip_reputation_threshold c)"
    and "rate_limiters w (rq_ip rq) = Some (bucket_of D c now m)" and "m \<le> rate_limit_burst c" and "ip_reputations w (rq_ip rq) = None"
  shows "waf_serve D c (replicate n (now, rq)) w =
    map (\<lambda>i. if i < m then None else if i < m + 5 then Some RateLimited else Some (Blocked ''IP temporarily blocked'')) [0..<n]"
  using assms(7-9)
proof (induction n arbitrary: w m)
  case (Suc n)
  show ?case
  proof (cases "m = 0")
    case True
    then show ?thesis
      using serve_limited [OF assms(1-6), of w now 0 "Suc n"] Suc.prems by (simp add: reputation_of_def)
  next
    case False
    let ?w = "w\<lparr>rate_limiters := (rate_limiters w)(rq_ip rq \<mapsto> bucket_of D c now (m - 1))\<rparr>"
    have take: "take_token D c now (rq_ip rq) w = (True, ?w)"
      using False Suc.prems consume_bucket [OF assms(1) _ assms(4), of m now] by (simp add: take_token_def unwrap_or_def)
    have "waf_serve D c (replicate n (now, rq)) ?w =
        map (\<lambda>i. if i < m - 1 then None else if i < m - 1 + 5 then Some RateLimited else Some (Blocked ''IP temporarily blocked'')) [0..<n]"
      using Suc.prems by (intro Suc.IH) simp_all
    with False take assms(2,3) Suc.prems(3) show ?thesis
      by (simp add: check_request_def reputation_check_def map_upt_Suc del: upt_Suc) auto
  qed
qed simp

text \<open>
  C33. A firewall that lives on does what it is for: of many harmless requests of one address at an instant it
  passes on as many as the burst, answers five with the limit, and then blocks the address. But the middleware
  makes a firewall of its own for each request, so it passes every one of them on, however many there are; no address is
  ever limited or blocked.
\<close>

theorem firewall_forgets:
  assumes "exact_counts D" and "waf_enabled c" and "inspect c rq = None" and "c = waf_config_from_env D vars"
    and "\<forall>k < 5. \<not> d_less D ((worse D ^^ k) (d_nat D 1)) (ip_reputation_threshold c)"
  shows "waf_serve D c (replicate n (now, rq)) new_waf =
      map (\<lambda>i. if i < 200 then None else if i < 205 then Some RateLimited else Some (Blocked ''IP temporarily blocked'')) [0..<n] \<and>
    map (\<lambda>(now, rq). waf_middleware D vars now rq) (replicate n (now, rq)) = replicate n PassedOn"
proof
  have burst: "rate_limit_burst c = 200" by (simp add: assms(4) env_burst)
  have duration: "0 < block_duration_secs c"
    by (simp add: assms(4) waf_config_from_env_def default_waf_config_def Let_def split: option.split)
  show "waf_serve D c (replicate n (now, rq)) new_waf =
      map (\<lambda>i. if i < 200 then None else if i < 205 then Some RateLimited else Some (Blocked ''IP temporarily blocked'')) [0..<n]"
  proof (cases n)
    case (Suc k)
    let ?w = "new_waf\<lparr>rate_limiters := [rq_ip rq \<mapsto> bucket_of D c now 199]\<rparr>"
    have "take_token D c now (rq_ip rq) new_waf = (True, ?w)"
      by (subst take_token_fresh [OF assms(1)]) (simp_all add: burst new_waf_def)
    moreover have "waf_serve D c (replicate k (now, rq)) ?w =
        map (\<lambda>i. if i < 199 then None else if i < 199 + 5 then Some RateLimited else Some (Blocked ''IP temporarily blocked'')) [0..<k]"
      by (rule serve_passes [OF assms(1-3) _ duration assms(5)]) (simp_all add: burst new_waf_def)
    ultimately show ?thesis
      using assms(2,3) by (simp add: Suc check_request_def reputation_check_def new_waf_def map_upt_Suc del: upt_Suc)
  qed simp
  show "map (\<lambda>(now, rq). waf_middleware D vars now rq) (replicate n (now, rq)) = replicate n PassedOn"
    using assms(2,3) by (simp add: middleware_inspects [OF assms(1)] flip: assms(4))
qed


section \<open>Lockouts that are forgotten\<close>

text \<open>
  A running service: its state, the time, and when the tracker was cleaned up last, at most 300 seconds ago.
\<close>

record bot_world =
  bw_bot :: bot
  bw_now :: nat
  bw_cleaned :: nat

inductive bot_step :: "'f doubles \<Rightarrow> bot_world \<Rightarrow> bot_world \<Rightarrow> bool" for D :: "'f doubles" where
  check: "calls (bot_check_request e (default_bot_config D) (bw_now w) ip agent) (bw_bot w) r b \<Longrightarrow> bp_doubles e = D \<Longrightarrow>
    bot_step D w (w\<lparr>bw_bot := b\<rparr>)"
| record_it: "calls (record_attempt (e :: 'f bot_env) ip email success agent) (bw_bot w) r b \<Longrightarrow> bot_step D w (w\<lparr>bw_bot := b\<rparr>)"
| unblock: "calls (bot_unblock_ip ip) (bw_bot w) r b \<Longrightarrow> bot_step D w (w\<lparr>bw_bot := b\<rparr>)"
| clean: "bot_step D w (w\<lparr>bw_bot := cleanup (bw_now w) (bw_bot w), bw_cleaned := bw_now w\<rparr>)"
| wait: "now \<ge> bw_now w \<Longrightarrow> now \<le> bw_cleaned w + secs 300 \<Longrightarrow> bot_step D w (w\<lparr>bw_now := now\<rparr>)"

text \<open>Doubling 900 seconds is exact.\<close>

definition exact_lockouts :: "'f doubles \<Rightarrow> bool" where
  "exact_lockouts D \<longleftrightarrow> (\<forall>k \<le> 4. d_u64 D (d_mul D (d_nat D 900) (d_powi D (d_lit D ''2.0'') k)) = 900 * 2 ^ k)"

lemma default_lockout: "exact_lockouts D \<Longrightarrow> k \<le> 4 \<Longrightarrow> lockout_secs D (default_bot_config D) k = 900 * 2 ^ k"
  by (simp add: exact_lockouts_def lockout_secs_def default_bot_config_def)

definition tracker_ok :: "bot_world \<Rightarrow> ip_tracker \<Rightarrow> bool" where
  "tracker_ok w t \<longleftrightarrow> last_attempt t \<le> bw_now w \<and> bw_cleaned w < last_attempt t + secs 3600 \<and> lockout_count t \<le> 4 \<and>
     (lockout_count t = 4 \<longrightarrow> (\<exists>u. locked_until t = Some u \<and> last_attempt t + secs 7200 \<le> u))"

definition bots_ok :: "bot_world \<Rightarrow> bool" where
  "bots_ok w \<longleftrightarrow> bw_cleaned w \<le> bw_now w \<and> bw_now w \<le> bw_cleaned w + secs 300 \<and> blocked_ips (bw_bot w) = {} \<and>
     (\<forall>ip t. trackers (bw_bot w) ip = Some t \<longrightarrow> tracker_ok w t)"

lemma count_attempt_fields:
  "last_attempt (count_attempt e now agent t) = now" "lockout_count (count_attempt e now agent t) = lockout_count t"
  "locked_until (count_attempt e now agent t) = None"
  by (simp_all add: count_attempt_def Let_def split: option.split)

lemma check_keeps:
  assumes "bots_ok w" and secs: "exact_lockouts (bp_doubles e)"
  shows "wp (bot_check_request e (default_bot_config (bp_doubles e)) (bw_now w) ip agent) (\<lambda>r b. bots_ok (w\<lparr>bw_bot := b\<rparr>)) (bw_bot w)"
proof -
  let ?old = "unwrap_or (new_ip_tracker (bw_now w)) (trackers (bw_bot w) ip)"
  have put: "bots_ok (w\<lparr>bw_bot := put_tracker ip t (bw_bot w)\<rparr>)" if "tracker_ok w t" for t
    using assms(1) that by (auto simp: bots_ok_def put_tracker_def tracker_ok_def)
  have t0: "tracker_ok w ?old"
    using assms(1) by (cases "trackers (bw_bot w) ip") (auto simp: bots_ok_def unwrap_or_def new_ip_tracker_def tracker_ok_def secs_def)
  have expired: "lockout_count ?old \<le> 3" if "\<not> (case locked_until ?old of None \<Rightarrow> False | Some u \<Rightarrow> bw_now w < u)"
  proof (rule ccontr)
    assume "\<not> lockout_count ?old \<le> 3"
    with t0 obtain u where "locked_until ?old = Some u" "last_attempt ?old + secs 7200 \<le> u" by (auto simp: tracker_ok_def)
    with that t0 assms(1) show False by (auto simp: tracker_ok_def bots_ok_def secs_def)
  qed
  let ?t = "count_attempt e (bw_now w) agent ?old"
  have counted: "tracker_ok w ?t"
    "tracker_ok w (?t\<lparr>locked_until := Some (bw_now w + secs (lockout_secs (bp_doubles e) (default_bot_config (bp_doubles e)) (lockout_count ?t))),
       lockout_count := lockout_count ?t + 1, attempts := 0\<rparr>)"
    "lockout_count ?t + 1 < 5"
    if "\<not> (case locked_until ?old of None \<Rightarrow> False | Some u \<Rightarrow> bw_now w < u)"
    using expired [OF that] assms(1) by (auto simp: tracker_ok_def count_attempt_fields default_lockout [OF secs] bots_ok_def secs_def)
  show ?thesis
    unfolding bot_check_request_def Let_def
    using assms(1) counted by (auto intro!: wp_intro put simp: bots_ok_def [of w])
qed

lemma bots_ok_step:
  assumes "bot_step D w w'" and "bots_ok w" and "exact_lockouts D"
  shows "bots_ok w'"
  using assms(1)
proof cases
  case (check e ip agent r b)
  with calls_wp [OF check(2) [folded check(3)] check_keeps [OF assms(2)]] assms(3) show ?thesis by simp
next
  case (record_it e ip email success agent r b)
  have "wp (record_attempt e ip email success agent) (\<lambda>r b. bots_ok (w\<lparr>bw_bot := b\<rparr>)) (bw_bot w)"
    unfolding record_attempt_def
    by (intro wp_intro) (use assms(2) in \<open>auto simp: bots_ok_def tracker_ok_def intro!: wp_intro split: option.splits if_splits\<close>)
  from calls_wp [OF record_it(2) this] record_it(1) show ?thesis by simp
next
  case (unblock ip r b)
  have "wp (bot_unblock_ip ip) (\<lambda>r b. bots_ok (w\<lparr>bw_bot := b\<rparr>)) (bw_bot w)"
    unfolding bot_unblock_ip_def
    by (intro wp_intro) (use assms(2) in \<open>auto simp: bots_ok_def tracker_ok_def intro!: wp_intro\<close>)
  from calls_wp [OF unblock(2) this] unblock(1) show ?thesis by simp
next
  case clean
  with assms(2) show ?thesis
    by (auto simp: bots_ok_def tracker_ok_def cleanup_def secs_def split: option.splits if_splits)
next
  case (wait now)
  with assms(2) show ?thesis by (auto simp: bots_ok_def tracker_ok_def intro: le_trans)
qed

text \<open>
  C34. With the default configuration nobody is ever blocked for too many lockouts. The clean-up forgets an address an
  hour after its last counted attempt, and attempts during a lockout are not counted: a lockout of two hours,
  the fourth, is forgotten before it ends, and the fifth, which blocks the address, never comes. Likewise no
  lockout lasts longer than 65 minutes.
\<close>

theorem lockouts_forgotten:
  assumes "exact_lockouts D" and "(bot_step D)\<^sup>*\<^sup>* \<lparr>bw_bot = new_bot b, bw_now = now, bw_cleaned = now\<rparr> w"
  shows "blocked_ips (bw_bot w) = {} \<and>
    (\<forall>ip t. trackers (bw_bot w) ip = Some t \<longrightarrow> lockout_count t < 5 \<and> bw_now w < last_attempt t + secs 3900)"
proof -
  have "bots_ok w"
    using assms(2)
  proof (induction rule: rtranclp_induct)
    case base
    show ?case by (simp add: bots_ok_def new_bot_def)
  next
    case (step w w')
    then show ?case by (blast intro: bots_ok_step assms(1))
  qed
  then show ?thesis by (fastforce simp: bots_ok_def tracker_ok_def secs_def)
qed

section \<open>Examples\<close>

definition demo_doubles :: "int doubles" where
  "demo_doubles = \<lparr>d_nat = int, d_lit = (\<lambda>s. if s = ''2.0'' then 2 else 0), d_secs = (\<lambda>_. 0), d_add = (+), d_sub = (-), d_mul = (*),
     d_div = (div), d_powi = (\<lambda>x k. x ^ k), d_min = min, d_max = max, d_less = (<), d_u64 = nat\<rparr>"

definition demo_rq :: waf_request where
  "demo_rq = \<lparr>rq_ip = ''9'', rq_uri = ''/'', rq_user_agent = [], rq_body_size = 0\<rparr>"

theorem firewall_forgets_witness:
  "waf_serve demo_doubles (default_waf_config demo_doubles) (replicate 206 (0, demo_rq)) new_waf =
     map (\<lambda>i. if i < 200 then None else if i < 205 then Some RateLimited else Some (Blocked ''IP temporarily blocked'')) [0..<206] \<and>
   map (\<lambda>(now, rq). waf_middleware demo_doubles (\<lambda>_. None) now rq) (replicate 206 (0, demo_rq)) = replicate 206 PassedOn"
proof (rule firewall_forgets)
  show "exact_counts demo_doubles" by (simp add: exact_counts_def demo_doubles_def min_def)
  show "inspect (default_waf_config demo_doubles) demo_rq = None"
    by (simp add: inspect_def default_waf_config_def demo_rq_def str_eval str_contains_def starts_with_def)
  have "(worse demo_doubles ^^ k) 1 = 1" for k
    by (induction k) (simp_all add: worse_def demo_doubles_def)
  then have "(worse demo_doubles ^^ k) (d_nat demo_doubles 1) = 1" for k by (simp add: demo_doubles_def)
  then show "\<forall>k < 5. \<not> d_less demo_doubles ((worse demo_doubles ^^ k) (d_nat demo_doubles 1))
      (ip_reputation_threshold (default_waf_config demo_doubles))"
    by (simp add: default_waf_config_def) (simp add: demo_doubles_def)
qed (simp_all add: default_waf_config_def waf_config_from_env_def)

theorem lockouts_forgotten_witness:
  "blocked_ips (st (snd (bot_check_request \<lparr>bp_doubles = demo_doubles, bp_md5 = id, bp_bool = \<lambda>_. None\<rparr> (default_bot_config demo_doubles) 0 ''9'' None
     (up (new_bot \<lparr>trackers = \<lambda>_. None, blocked_ips = {''8''}, blocked_rows = [], login_attempts = []\<rparr>))))) = {}"
proof -
  let ?e = "\<lparr>bp_doubles = demo_doubles, bp_md5 = id, bp_bool = \<lambda>_. None\<rparr>"
  let ?b = "\<lparr>trackers = \<lambda>_. None, blocked_ips = {''8''}, blocked_rows = [], login_attempts = []\<rparr>"
  let ?w = "\<lparr>bw_bot = new_bot ?b, bw_now = 0, bw_cleaned = 0\<rparr>"
  let ?m = "bot_check_request ?e (default_bot_config demo_doubles) 0 ''9'' None"
  have "exact_lockouts demo_doubles"
    by (simp add: exact_lockouts_def demo_doubles_def nat_mult_distrib nat_power_eq)
  moreover have "calls ?m (new_bot ?b) (fst (?m (up (new_bot ?b)))) (st (snd (?m (up (new_bot ?b)))))"
    unfolding calls_def by (intro exI [of _ "up (new_bot ?b)"] exI [of _ "snd (?m (up (new_bot ?b)))"]) simp
  then have "bot_step demo_doubles ?w (?w\<lparr>bw_bot := st (snd (?m (up (new_bot ?b))))\<rparr>)"
    using bot_step.check [of ?e demo_doubles ?w "''9''" None] by simp
  then have "(bot_step demo_doubles)\<^sup>*\<^sup>* ?w (?w\<lparr>bw_bot := st (snd (?m (up (new_bot ?b))))\<rparr>)" by simp
  ultimately show ?thesis
    using lockouts_forgotten [of demo_doubles ?b 0 "?w\<lparr>bw_bot := st (snd (?m (up (new_bot ?b))))\<rparr>"] by simp
qed

end
