(* ===== verification/ApiKeys.thy ===== *)
theory ApiKeys imports Auth Calm begin

text \<open>
  API keys (\<open>src/src/auth/api_keys.rs\<close>): creation with scopes and an optional expiry, validation, revocation,
  rotation, and the routes. The generator, the hash, serde and the clock are parameters, and so is what
  PostgreSQL makes of a text cast to a time.
\<close>

section \<open>Keys\<close>

record api_key_row =
  ak_id :: string
  ak_user :: int
  ak_name :: string
  ak_prefix :: string
  ak_hash :: string
  ak_scopes :: string
  ak_expires :: "nat option"
  ak_used :: "nat option"
  ak_created :: nat
  ak_revoked :: bool

record api_key_created =
  kc_id :: string
  kc_name :: string
  kc_key :: string
  kc_prefix :: string
  kc_scopes :: "string list"
  kc_expires :: "string option"
  kc_created :: string

text \<open>The table, and the users its rows refer to.\<close>

record key_db =
  api_keys :: "api_key_row list"
  key_users :: "int set"

record key_env =
  ke_uuid :: string
  ke_raw :: string
  ke_hash :: "string \<Rightarrow> string"
  ke_text :: "json \<Rightarrow> string"
  ke_parse :: "string \<Rightarrow> json option"
  ke_base64 :: "string \<Rightarrow> string"
  ke_now :: nat
  ke_last :: nat
  ke_stamp :: "nat \<Rightarrow> string"
  ke_time :: "string \<Rightarrow> nat option"
  ke_timestamptz :: "string \<Rightarrow> nat option"

definition VALID_SCOPES :: "string list" where
  "VALID_SCOPES = [''data:read'', ''data:write'', ''data:delete'', ''storage:read'', ''storage:write'', ''storage:delete'',
     ''auth:read'', ''auth:manage'', ''teams:read'', ''teams:manage'', ''admin:read'', ''admin:manage'', ''billing:read'',
     ''billing:manage'', ''vectors:read'', ''vectors:write'', ''functions:invoke'', ''functions:manage'', ''realtime:subscribe'',
     ''brain:query'', ''brain:manage'', ''mcp:write'', ''*'']"

text \<open>
  The statement casts the text of the expiry, which is empty when there is none. A date beyond the last one of
  chrono (\<open>ke_last\<close>) is a panic that ends the request, here an error.
\<close>

definition insert_key :: "key_env \<Rightarrow> api_key_row \<Rightarrow> string \<Rightarrow> (key_db, unit) io" where
  "insert_key e r expires = stmt (\<lambda>s.
     case ke_timestamptz e expires of
       None \<Rightarrow> Inl (Database ''invalid input syntax for type timestamp with time zone'')
     | Some t \<Rightarrow>
         if ak_user r \<notin> key_users s then Inl (Database ''violates foreign key constraint'')
         else if ak_id r \<in> ak_id ` set (api_keys s) \<or> ak_hash r \<in> ak_hash ` set (api_keys s)
         then Inl (Database ''duplicate key value violates unique constraint'')
         else Inr ((), s\<lparr>api_keys := api_keys s @ [r\<lparr>ak_expires := Some t\<rparr>]\<rparr>))"

definition create_key :: "key_env \<Rightarrow> int \<Rightarrow> string \<Rightarrow> string list \<Rightarrow> nat option \<Rightarrow> (key_db, api_key_created) io" where
  "create_key e user name scopes days =
     (case find (\<lambda>s. s \<notin> set VALID_SCOPES) scopes of
        Some s \<Rightarrow> fail (InvalidPayload (''Invalid scope: '' @ s))
      | None \<Rightarrow>
          if (case days of None \<Rightarrow> False | Some n \<Rightarrow> ke_now e + n * 86400 > ke_last e)
          then fail (Internal ''DateTime + TimeDelta overflowed'')
          else
            let expires_at = map_option (\<lambda>n. ke_stamp e (ke_now e + n * 86400)) days; prefix = take 8 (ke_raw e) in
            bind_io (insert_key e \<lparr>ak_id = ke_uuid e, ak_user = user, ak_name = name, ak_prefix = prefix, ak_hash = ke_hash e (ke_raw e),
              ak_scopes = ke_text e (JArray (map JString scopes)), ak_expires = None, ak_used = None, ak_created = ke_now e, ak_revoked = False\<rparr>
              (unwrap_or [] expires_at)) (\<lambda>_.
            ret \<lparr>kc_id = ke_uuid e, kc_name = name, kc_key = ''vdb_'' @ ke_raw e, kc_prefix = prefix, kc_scopes = scopes,
              kc_expires = expires_at, kc_created = ke_stamp e (ke_now e)\<rparr>))"

abbreviation key_query :: "key_env \<Rightarrow> (key_db \<Rightarrow> (string \<times> cell) list list) \<Rightarrow> (key_db, row list) io" where
  "key_query e \<equiv> query (ke_parse e) (ke_base64 e)"

definition key_time :: "key_env \<Rightarrow> nat option \<Rightarrow> cell" where
  "key_time e t = cell_opt ''TIMESTAMPTZ'' (\<lambda>t. cell_time (ke_stamp e t)) t"

definition row_scopes :: "key_env \<Rightarrow> row \<Rightarrow> string list" where
  "row_scopes e r = unwrap_or [] (Option.bind (Option.bind (col_str r ''scopes'') (ke_parse e)) (decode_array as_str))"

abbreviation key_hash :: "key_env \<Rightarrow> string \<Rightarrow> string" where
  "key_hash e raw_key \<equiv> ke_hash e (unwrap_or raw_key (strip_prefix raw_key ''vdb_''))"

definition touch_key :: "key_env \<Rightarrow> string \<Rightarrow> key_db \<Rightarrow> key_db" where
  "touch_key e hash = (\<lambda>s. s\<lparr>api_keys :=
     map (\<lambda>r. if ak_hash r = hash then r\<lparr>ak_used := Some (ke_now e)\<rparr> else r) (api_keys s)\<rparr>)"

definition validate_key :: "key_env \<Rightarrow> string \<Rightarrow> (key_db, int \<times> string list) io" where
  "validate_key e raw_key =
     (let hash = key_hash e raw_key in
      bind_io (key_query e (\<lambda>s. map (\<lambda>r. [(''user_id'', cell_int (ak_user r)), (''scopes'', cell_text (ak_scopes r)),
          (''expires_at'', key_time e (ak_expires r)), (''revoked'', cell_bool (ak_revoked r))])
        (filter (\<lambda>r. ak_hash r = hash) (api_keys s)))) (\<lambda>rows. case rows of
          [] \<Rightarrow> fail (Unauthorized ''Invalid API key'')
        | row # _ \<Rightarrow>
            if unwrap_or ''false'' (col_str row ''revoked'') = ''true'' then fail (Unauthorized ''API key has been revoked'')
            else if (case col_str row ''expires_at'' of None \<Rightarrow> False
                     | Some x \<Rightarrow> x \<noteq> [] \<and> (case ke_time e x of None \<Rightarrow> False | Some t \<Rightarrow> t < ke_now e))
            then fail (Unauthorized ''API key has expired'')
            else bind_io (lift (ok_or (Internal ''Missing user_id'') (col_i64 row ''user_id''))) (\<lambda>user.
              bind_io (attempt (exec (touch_key e hash))) (\<lambda>_.
              ret (user, row_scopes e row)))))"

definition has_scope :: "string list \<Rightarrow> string \<Rightarrow> bool" where
  "has_scope scopes needed \<longleftrightarrow>
     list_ex (\<lambda>s. s = ''*'' \<or> s = needed \<or> (case strip_suffix s '':*'' of Some pre \<Rightarrow> starts_with needed pre | None \<Rightarrow> False)) scopes"

definition list_keys :: "key_env \<Rightarrow> int \<Rightarrow> (key_db, json list) io" where
  "list_keys e user =
     bind_io (key_query e (\<lambda>s. map (\<lambda>r. [(''id'', cell_text (ak_id r)), (''name'', cell_text (ak_name r)), (''prefix'', cell_text (ak_prefix r)),
         (''scopes'', cell_text (ak_scopes r)), (''expires_at'', key_time e (ak_expires r)), (''last_used_at'', key_time e (ak_used r)),
         (''created_at'', key_time e (Some (ak_created r))), (''revoked'', cell_bool (ak_revoked r))])
       (rev (sort_key ak_created (rev (filter (\<lambda>r. ak_user r = user) (api_keys s))))))) (\<lambda>rows.
     ret (map row_object rows))"

definition revoke_key :: "string \<Rightarrow> int \<Rightarrow> (key_db, unit) io" where
  "revoke_key key_id user = exec (\<lambda>s. s\<lparr>api_keys :=
     map (\<lambda>r. if ak_id r = key_id \<and> ak_user r = user then r\<lparr>ak_revoked := True\<rparr> else r) (api_keys s)\<rparr>)"

definition rotate_key :: "key_env \<Rightarrow> string \<Rightarrow> int \<Rightarrow> (key_db, api_key_created) io" where
  "rotate_key e key_id user =
     bind_io (key_query e (\<lambda>s. map (\<lambda>r. [(''name'', cell_text (ak_name r)), (''scopes'', cell_text (ak_scopes r)),
         (''expires_at'', key_time e (ak_expires r))])
       (filter (\<lambda>r. ak_id r = key_id \<and> ak_user r = user) (api_keys s)))) (\<lambda>rows. case rows of
         [] \<Rightarrow> fail (NotFound ''API key not found'')
       | row # _ \<Rightarrow>
           bind_io (revoke_key key_id user) (\<lambda>_.
           create_key e user (unwrap_or [] (col_str row ''name'')) (row_scopes e row) None))"

section \<open>Routes\<close>

datatype key_call =
    CreateKey string "string list" "nat option"
  | ListKeys
  | RevokeKey string
  | RotateKey string
  | KeyScopes

definition create_key_handler ::
  "auth_env \<Rightarrow> key_env \<Rightarrow> string option \<Rightarrow> string \<Rightarrow> string list \<Rightarrow> nat option \<Rightarrow> (key_db, api_key_created) io" where
  "create_key_handler a e header name scopes days =
     bind_io (lift (extract_auth_user a header)) (\<lambda>who.
     create_key e (aw_id who) name (if scopes = [] then [''*''] else scopes) days)"

fun key_route :: "auth_env \<Rightarrow> key_env \<Rightarrow> string option \<Rightarrow> key_call \<Rightarrow> (key_db, unit) io" where
  "key_route a e header (CreateKey name scopes days) = bind_io (create_key_handler a e header name scopes days) (\<lambda>_. ret ())"
| "key_route a e header ListKeys =
     bind_io (lift (extract_auth_user a header)) (\<lambda>who. bind_io (list_keys e (aw_id who)) (\<lambda>_. ret ()))"
| "key_route a e header (RevokeKey i) = bind_io (lift (extract_auth_user a header)) (\<lambda>who. revoke_key i (aw_id who))"
| "key_route a e header (RotateKey i) =
     bind_io (lift (extract_auth_user a header)) (\<lambda>who. bind_io (rotate_key e i (aw_id who)) (\<lambda>_. ret ()))"
| "key_route a e header KeyScopes = ret ()"

text \<open>A run: requests to these routes, and validations in between.\<close>

datatype key_event = KeyRequest auth_env key_env "string option" key_call | KeyUse key_env string

fun key_run :: "key_event list \<Rightarrow> key_db db \<Rightarrow> key_db db" where
  "key_run [] d = d"
| "key_run (KeyRequest a e header call # es) d = key_run es (snd (key_route a e header call d))"
| "key_run (KeyUse e raw # es) d = key_run es (snd (validate_key e raw d))"

section \<open>What becomes of a key\<close>

text \<open>What serde writes for a list starts with a bracket, and what it reads from such a text is no string.\<close>

definition key_serde :: "key_env \<Rightarrow> bool" where
  "key_serde e \<longleftrightarrow> (\<forall>xs. starts_with (ke_text e (JArray xs)) ''['') \<and>
     (\<forall>t v. starts_with t ''['' \<longrightarrow> ke_parse e t = Some v \<longrightarrow> as_str v = None)"

definition keys_ok :: "key_db \<Rightarrow> bool" where
  "keys_ok s \<longleftrightarrow> distinct (map ak_hash (api_keys s)) \<and> list_all (\<lambda>r. starts_with (ak_scopes r) ''['') (api_keys s)"

text \<open>A key of this hash, user and expiry is stored.\<close>

definition has_key :: "string \<Rightarrow> int \<Rightarrow> nat option \<Rightarrow> key_db \<Rightarrow> bool" where
  "has_key h user expires s \<longleftrightarrow> (\<exists>r \<in> set (api_keys s). ak_hash r = h \<and> ak_user r = user \<and> ak_expires r = expires)"

lemma scopes_lost:
  assumes "key_serde e" and "starts_with t ''[''"
  shows "Option.bind (as_str (get_value_from_row (ke_parse e) b (cell_text t))) (\<lambda>y. Option.bind (ke_parse e y) (decode_array as_str)) = None"
proof (cases "ke_parse e t")
  case None
  with assms(2) have "get_value_from_row (ke_parse e) b (cell_text t) = JString t"
    by (simp add: get_value_from_row_def cell_text_def no_cell_def)
  with None show ?thesis by simp
next
  case (Some v)
  with assms(2) have "get_value_from_row (ke_parse e) b (cell_text t) = v"
    by (simp add: get_value_from_row_def cell_text_def no_cell_def)
  with Some assms show ?thesis by (simp add: key_serde_def)
qed

text \<open>A change of rows that leaves hash, user, scopes and expiry alone.\<close>

lemma keys_ok_upd: "keys_ok s \<Longrightarrow> (\<And>r. ak_hash (f r) = ak_hash r \<and> ak_scopes (f r) = ak_scopes r) \<Longrightarrow> keys_ok (s\<lparr>api_keys := map f (api_keys s)\<rparr>)"
  by (simp add: keys_ok_def list_all_iff comp_def)

lemma has_key_upd:
  "has_key h u x s \<Longrightarrow> (\<And>r. ak_hash (f r) = ak_hash r \<and> ak_user (f r) = ak_user r \<and> ak_expires (f r) = ak_expires r)
     \<Longrightarrow> has_key h u x (s\<lparr>api_keys := map f (api_keys s)\<rparr>)"
  by (force simp: has_key_def)

lemma insert_key_keeps:
  "starts_with (ak_scopes r) ''['' \<Longrightarrow> keeps keys_ok (insert_key e r t)" "keeps (has_key h u x) (insert_key e r t)"
proof -
  show "starts_with (ak_scopes r) ''['' \<Longrightarrow> keeps keys_ok (insert_key e r t)" unfolding insert_key_def
    by (intro keeps_intro) (auto simp: keys_ok_def split: option.splits if_splits)
  show "keeps (has_key h u x) (insert_key e r t)" unfolding insert_key_def
    by (intro keeps_intro) (force simp: has_key_def split: option.splits if_splits)
qed

lemma keys_keep:
  assumes "key_serde e"
  shows "keeps keys_ok (create_key e user name scopes days)" "keeps keys_ok (revoke_key i user)"
    "keeps keys_ok (list_keys e user)" "keeps keys_ok (rotate_key e i user)" "keeps keys_ok (validate_key e raw)"
proof -
  show create: "keeps keys_ok (create_key e user name scopes days)" for user name scopes days
    using assms unfolding create_key_def Let_def key_serde_def
    by (auto intro!: keeps_intro insert_key_keeps split: option.split)
  show revoke: "keeps keys_ok (revoke_key i user)" for i user
    unfolding revoke_key_def by (intro keeps_intro keys_ok_upd) auto
  show "keeps keys_ok (list_keys e user)" unfolding list_keys_def by (intro keeps_intro)
  show "keeps keys_ok (rotate_key e i user)"
    unfolding rotate_key_def by (auto intro!: keeps_intro create revoke split: list.split)
  show "keeps keys_ok (validate_key e raw)"
    unfolding validate_key_def touch_key_def Let_def by (auto intro!: keeps_intro keys_ok_upd split: list.split)
qed

lemma key_stays:
  "keeps (has_key h u x) (create_key e user name scopes days)" "keeps (has_key h u x) (revoke_key i user)"
  "keeps (has_key h u x) (list_keys e user)" "keeps (has_key h u x) (rotate_key e i user)" "keeps (has_key h u x) (validate_key e raw)"
proof -
  show create: "keeps (has_key h u x) (create_key e user name scopes days)" for user name scopes days
    unfolding create_key_def Let_def by (auto intro!: keeps_intro insert_key_keeps split: option.split)
  show revoke: "keeps (has_key h u x) (revoke_key i user)" for i user
    unfolding revoke_key_def by (intro keeps_intro has_key_upd) auto
  show "keeps (has_key h u x) (list_keys e user)" unfolding list_keys_def by (intro keeps_intro)
  show "keeps (has_key h u x) (rotate_key e i user)"
    unfolding rotate_key_def by (auto intro!: keeps_intro create revoke split: list.split)
  show "keeps (has_key h u x) (validate_key e raw)"
    unfolding validate_key_def touch_key_def Let_def by (auto intro!: keeps_intro has_key_upd split: list.split)
qed

definition event_serde :: "key_event \<Rightarrow> bool" where
  "event_serde ev = (case ev of KeyRequest a e header call \<Rightarrow> key_serde e | KeyUse e raw \<Rightarrow> key_serde e)"

lemma key_run_keeps:
  "list_all event_serde es \<Longrightarrow> keys_ok (st d) \<Longrightarrow> keys_ok (st (key_run es d))"
  "has_key h u x (st d) \<Longrightarrow> has_key h u x (st (key_run es d))"
proof -
  have route: "keeps keys_ok (key_route a e header call)" if "key_serde e" for a e header call
    by (cases call) (auto intro!: keeps_intro keys_keep [OF that] simp: create_key_handler_def)
  have stays: "keeps (has_key h u x) (key_route a e header call)" for a e header call
    by (cases call) (auto intro!: keeps_intro key_stays simp: create_key_handler_def)
  show "list_all event_serde es \<Longrightarrow> keys_ok (st d) \<Longrightarrow> keys_ok (st (key_run es d))"
  proof (induction es d rule: key_run.induct)
    case (2 a e header call es d)
    with route [of e a header call] show ?case by (simp add: event_serde_def keeps_def)
  next
    case (3 e raw es d)
    with keys_keep(5) [of e raw] show ?case by (simp add: event_serde_def keeps_def)
  qed simp
  show "has_key h u x (st d) \<Longrightarrow> has_key h u x (st (key_run es d))"
  proof (induction es d rule: key_run.induct)
    case (2 a e header call es d)
    with stays [of a e header call] show ?case by (simp add: keeps_def)
  next
    case (3 e raw es d)
    with key_stays(5) [of h u x e raw] show ?case by (simp add: keeps_def)
  qed simp
qed

definition key_expired :: "key_env \<Rightarrow> nat option \<Rightarrow> bool" where
  "key_expired e x \<longleftrightarrow> (\<exists>t t'. x = Some t \<and> ke_stamp e t \<noteq> [] \<and> ke_time e (ke_stamp e t) = Some t' \<and> t' < ke_now e)"

text \<open>
  C35. A revoked key stays a key. Whatever is requested in between, its revocation and its rotation too, and whatever fails,
  each key that is stored and not expired is accepted at the end, for its user. The column is a boolean, and
  the service asks for a text. And each validation answers with no scope at all, whichever the key was
  created with, since the row reader has parsed their text before the service asks for it.
\<close>

theorem revocation_is_ignored:
  assumes "list_all event_serde es" and "key_serde e" and "keys_ok (st d)"
    and "has_key (ke_hash e (unwrap_or raw (strip_prefix raw ''vdb_''))) user x (st d)" and "\<not> key_expired e x" and "in_i64 user"
  shows "calm (validate_key e raw) (\<lambda>r _. r = Inr (user, [])) (st (key_run es d))"
proof -
  let ?h = "ke_hash e (unwrap_or raw (strip_prefix raw ''vdb_''))" and ?s = "st (key_run es d)"
  have ok: "keys_ok ?s" and "has_key ?h user x ?s" by (simp_all add: key_run_keeps assms)
  then obtain r where r: "r \<in> set (api_keys ?s)" "ak_hash r = ?h" "ak_user r = user" "ak_expires r = x"
    by (auto simp: has_key_def)
  then have rows: "filter (\<lambda>r. ak_hash r = ?h) (api_keys ?s) = [r]"
    using filter_by_key [of ak_hash "api_keys ?s" r] ok by (simp add: keys_ok_def)
  let ?row = "json_row (ke_parse e) (ke_base64 e) [(''user_id'', cell_int (ak_user r)), (''scopes'', cell_text (ak_scopes r)),
      (''expires_at'', key_time e (ak_expires r)), (''revoked'', cell_bool (ak_revoked r))]"
  have "starts_with (ak_scopes r) ''[''" using ok r(1) by (simp add: keys_ok_def list_all_iff)
  then have "row_scopes e ?row = []"
    by (simp add: row_scopes_def json_row_def col_str_def scopes_lost [OF assms(2)] unwrap_or_def)
  moreover have "col_i64 ?row ''user_id'' = Some user" by (simp add: json_row_def col_i64_def r(3) assms(6))
  moreover have "unwrap_or ''false'' (col_str ?row ''revoked'') \<noteq> ''true''" by (simp add: json_row_def col_str_def unwrap_or_def)
  moreover have "\<not> (case col_str ?row ''expires_at'' of None \<Rightarrow> False
      | Some y \<Rightarrow> y \<noteq> [] \<and> (case ke_time e y of None \<Rightarrow> False | Some t \<Rightarrow> t < ke_now e))"
    using assms(5) r(4) by (auto simp: json_row_def col_str_def key_time_def cell_opt_def key_expired_def split: option.splits)
  ultimately show ?thesis
    unfolding validate_key_def touch_key_def Let_def query_def
    by (intro calm_intro) (auto simp: rows ok_or_def intro!: calm_intro)
qed

text \<open>No validation finds a scope, and none writes more than the time of the key's last use.\<close>

lemma validate_key_wp:
  assumes "key_serde e" and "keys_ok s"
  shows "wp (validate_key e raw) (\<lambda>r s'. (\<forall>user scopes. r = Inr (user, scopes) \<longrightarrow> scopes = []) \<and>
    (s' = s \<or> s' = touch_key e (key_hash e raw) s)) s"
proof -
  have "row_scopes e (json_row (ke_parse e) (ke_base64 e) [(''user_id'', a), (''scopes'', cell_text (ak_scopes r)), b, c]) = []"
    if "r \<in> set (api_keys s)" for r a b c
  proof -
    have "starts_with (ak_scopes r) ''[''" using that assms(2) by (simp add: keys_ok_def list_all_iff)
    then show ?thesis by (simp add: row_scopes_def json_row_def col_str_def scopes_lost [OF assms(1)] unwrap_or_def split: prod.split)
  qed
  then show ?thesis
    unfolding validate_key_def Let_def
    by (intro wp_intro) (auto intro!: wp_intro simp: filter_eq_Cons_iff split: list.split)
qed

text \<open>
  A key that never expires cannot be made. The text of its missing expiry is empty, which PostgreSQL does not
  read as a time: under any failures the creation without a number of days and the rotation end with an error and
  make no key, and a rotation may have marked the old one as revoked.
\<close>

theorem keys_must_expire:
  assumes "ke_timestamptz e [] = None"
  shows "wp (create_key e user name scopes None) (\<lambda>r s'. isl r \<and> s' = s) s \<and>
    wp (rotate_key e i user) (\<lambda>r s'. isl r \<and> map ak_hash (api_keys s') = map ak_hash (api_keys s)) s"
proof -
  have create: "wp (create_key e user name scopes None) (\<lambda>r s'. isl r \<and> s' = s) s" for user name scopes s
    unfolding create_key_def insert_key_def Let_def
    by (auto intro!: wp_intro simp: unwrap_or_def assms split: option.split)
  have "wp (create_key e user name scopes None) (\<lambda>r s'. isl r \<and> map ak_hash (api_keys s') = hs) s"
    if "map ak_hash (api_keys s) = hs" for user name scopes s hs
    using that by (intro wp_weaken [OF create]) auto
  then have "wp (rotate_key e i user) (\<lambda>r s'. isl r \<and> map ak_hash (api_keys s') = map ak_hash (api_keys s)) s"
    unfolding rotate_key_def revoke_key_def
    by (auto intro!: wp_intro simp: comp_def if_distrib cong: if_cong split: list.split)
  with create show ?thesis by blast
qed

section \<open>Examples\<close>

definition demo_key_env :: key_env where
  "demo_key_env = \<lparr>ke_uuid = ''k1'', ke_raw = ''secret'', ke_hash = id, ke_text = (\<lambda>_. ''[]''), ke_parse = (\<lambda>_. None), ke_base64 = id,
     ke_now = 10, ke_last = 1000, ke_stamp = show_nat, ke_time = (\<lambda>_. Some 100), ke_timestamptz = (\<lambda>s. if s = [] then None else Some 100)\<rparr>"

definition demo_key :: api_key_row where
  "demo_key = \<lparr>ak_id = ''k0'', ak_user = 1, ak_name = ''ci'', ak_prefix = ''ab'', ak_hash = ''ab'', ak_scopes = ''[]'', ak_expires = Some 100,
     ak_used = None, ak_created = 0, ak_revoked = False\<rparr>"

lemma demo_key_facts: "key_serde demo_key_env" "keys_ok \<lparr>api_keys = [demo_key], key_users = {1}\<rparr>"
  by (simp_all add: key_serde_def demo_key_env_def keys_ok_def demo_key_def starts_with_def)

theorem revocation_is_ignored_witness:
  "calm (validate_key demo_key_env ''vdb_ab'') (\<lambda>r _. r = Inr (1, []))
     (st (key_run [KeyRequest demo_auth_env demo_key_env (Some ''Bearer u'') (RevokeKey ''k0'')] (up \<lparr>api_keys = [demo_key], key_users = {1}\<rparr>)))"
proof (rule revocation_is_ignored)
  show "has_key (ke_hash demo_key_env (unwrap_or ''vdb_ab'' (strip_prefix ''vdb_ab'' ''vdb_''))) 1 (Some 100)
      (st (up \<lparr>api_keys = [demo_key], key_users = {1}\<rparr>))"
    by (simp add: has_key_def demo_key_env_def demo_key_def strip_prefix_def starts_with_def unwrap_or_def)
  show "\<not> key_expired demo_key_env (Some 100)" by (simp add: key_expired_def demo_key_env_def)
qed (simp_all add: event_serde_def demo_key_facts in_i64_def)

theorem keys_must_expire_witness:
  "wp (rotate_key demo_key_env ''k0'' 1) (\<lambda>r s'. isl r \<and> map ak_hash (api_keys s') = [''ab''])
     \<lparr>api_keys = [demo_key], key_users = {1}\<rparr>"
proof -
  have "ke_timestamptz demo_key_env [] = None" by (simp add: demo_key_env_def)
  from keys_must_expire [OF this, of 1 _ _ "\<lparr>api_keys = [demo_key], key_users = {1}\<rparr>" "''k0''"] show ?thesis
    by (simp add: demo_key_def)
qed

end
