(* ===== verification/Mcp.thy ===== *)
theory Mcp imports ApiKeys begin

text \<open>
  The interface for coding assistants (\<open>src/src/api/mcp_server.rs\<close>): the requests of the protocol, the catalogue of
  tools, the tools and the resources. PostgreSQL is the \<open>server\<close> of theory \<open>Server\<close>; the table of API keys is
  a part of its data, reached by a pair of functions.
\<close>

section \<open>Messages\<close>

record mcp_error =
  me_code :: int
  me_message :: string

record mcp_request =
  mq_id :: "json option"
  mq_method :: string
  mq_params :: "json option"

record mcp_response =
  mr_id :: "json option"
  mr_result :: "json option"
  mr_error :: "mcp_error option"

record mcp_tool =
  mt_name :: string
  mt_description :: string
  input_schema :: json

record mcp_resource =
  ms_uri :: string
  ms_name :: string
  ms_description :: string
  mime_type :: string

type_synonym mcp_result = "mcp_error + json"

record 'd mcp_env =
  mc_sql :: "'d sql_env"
  mc_key :: key_env
  mc_get :: "'d \<Rightarrow> key_db"
  mc_put :: "key_db \<Rightarrow> 'd \<Rightarrow> 'd"
  mc_pretty :: "row list \<Rightarrow> string"
  mc_text :: "json \<Rightarrow> string"
  mc_uuid :: string

definition strings :: "string list \<Rightarrow> json" where
  "strings xs = JArray (map JString xs)"

definition mcp_text :: "string \<Rightarrow> json" where
  "mcp_text t = JObject [(''content'', JArray [JObject [(''text'', JString t), (''type'', JString ''text'')]])]"

definition mcp_fault :: "string \<Rightarrow> json" where
  "mcp_fault t = JObject [(''content'', JArray [JObject [(''text'', JString t), (''type'', JString ''text'')]]), (''isError'', JBool True)]"

text \<open>\<open>arguments["key"].as_str().unwrap_or("")\<close>.\<close>

definition arg :: "json \<Rightarrow> string \<Rightarrow> json" where
  "arg v k = unwrap_or JNull (jget v k)"

definition str_arg :: "json \<Rightarrow> string \<Rightarrow> string" where
  "str_arg v k = unwrap_or [] (as_str (arg v k))"

definition str_arg_or :: "string \<Rightarrow> json \<Rightarrow> string \<Rightarrow> string" where
  "str_arg_or d v k = unwrap_or d (as_str (arg v k))"

section \<open>The catalogue\<close>

definition field :: "string \<Rightarrow> string \<Rightarrow> json" where
  "field ty description = JObject [(''description'', JString description), (''type'', JString ty)]"

definition plain_field :: "string \<Rightarrow> json" where
  "plain_field ty = JObject [(''type'', JString ty)]"

definition choice_field :: "string list \<Rightarrow> json" where
  "choice_field xs = JObject [(''enum'', strings xs), (''type'', JString ''string'')]"

definition object_schema :: "(string \<times> json) list \<Rightarrow> json" where
  "object_schema ps = JObject [(''properties'', JObject ps), (''type'', JString ''object'')]"

definition schema_requiring :: "(string \<times> json) list \<Rightarrow> string list \<Rightarrow> json" where
  "schema_requiring ps req = JObject [(''properties'', JObject ps), (''required'', strings req), (''type'', JString ''object'')]"

text \<open>A quotation mark is written as a backquote here, and a line break as a bar.\<close>

definition doc_text :: "string \<Rightarrow> string" where
  "doc_text s = map (\<lambda>c. if c = CHR 0x60 then CHR 0x22 else if c = CHR ''|'' then CHR 0x0A else c) s"

definition mcp_tools :: "mcp_tool list" where
  "mcp_tools =
    [\<lparr>mt_name = ''query_sql'', mt_description = ''Execute a read-only SQL query against the Stackhouse database'',
      input_schema = schema_requiring [(''sql'', field ''string'' ''SQL query to execute (SELECT only)'')] [''sql'']\<rparr>,
     \<lparr>mt_name = ''list_tables'', mt_description = ''List all tables in the database with column info'', input_schema = object_schema []\<rparr>,
     \<lparr>mt_name = ''describe_table'', mt_description = ''Get full schema details for a specific table'',
      input_schema = schema_requiring [(''table_name'', field ''string'' ''Name of the table'')] [''table_name'']\<rparr>,
     \<lparr>mt_name = ''list_functions'', mt_description = ''List all deployed edge functions'', input_schema = object_schema []\<rparr>,
     \<lparr>mt_name = ''list_vector_collections'', mt_description = ''List vector/embedding collections'', input_schema = object_schema []\<rparr>,
     \<lparr>mt_name = ''search_vectors'', mt_description = ''Semantic search across vector collections'',
      input_schema = schema_requiring [(''collection'', plain_field ''string''),
        (''limit'', JObject [(''default'', json_int 5), (''type'', JString ''integer'')]), (''query'', plain_field ''string'')]
        [''collection'', ''query'']\<rparr>,
     \<lparr>mt_name = ''get_api_docs'', mt_description = ''Get API documentation for Stackhouse endpoints'',
      input_schema = object_schema [(''endpoint'', field ''string'' ''API endpoint path (e.g. /v1/auth/signup)'')]\<rparr>,
     \<lparr>mt_name = ''create_table'', mt_description = ''Create a new collection/table in the database'',
      input_schema = schema_requiring
        [(''columns'', JObject [(''description'', JString (doc_text ''Optional list of column definitions, e.g. [`data JSONB`]'')),
            (''items'', plain_field ''string''), (''type'', JString ''array'')]),
         (''name'', field ''string'' ''Collection/table name (will be prefixed with stackhouse_)'')] [''name'']\<rparr>,
     \<lparr>mt_name = ''push_data'', mt_description = ''Insert a JSON record into a collection/table'',
      input_schema = schema_requiring [(''record'', field ''object'' ''JSON object to insert''),
        (''table'', field ''string'' ''Target collection/table name'')] [''table'', ''record'']\<rparr>,
     \<lparr>mt_name = ''deploy_function'', mt_description = ''Deploy an edge function from source code'',
      input_schema = schema_requiring [(''name'', plain_field ''string''),
        (''runtime'', JObject [(''default'', JString ''javascript''), (''enum'', strings [''javascript'', ''python'']), (''type'', JString ''string'')]),
        (''slug'', plain_field ''string''), (''source_code'', plain_field ''string'')] [''name'', ''source_code'']\<rparr>,
     \<lparr>mt_name = ''create_bucket'', mt_description = ''Create a new storage bucket'',
      input_schema = schema_requiring [(''name'', plain_field ''string''),
        (''public'', JObject [(''default'', JBool False), (''type'', JString ''boolean'')])] [''name'']\<rparr>,
     \<lparr>mt_name = ''create_rls_policy'', mt_description = ''Create a Row-Level Security policy on a table'',
      input_schema = schema_requiring [(''description'', plain_field ''string''),
        (''operation'', choice_field [''ALL'', ''SELECT'', ''INSERT'', ''UPDATE'', ''DELETE'']), (''policy_name'', plain_field ''string''),
        (''table_name'', plain_field ''string''), (''tenant_id'', plain_field ''integer''), (''using_expression'', plain_field ''string''),
        (''with_check_expression'', plain_field ''string'')] [''tenant_id'', ''table_name'', ''policy_name'', ''using_expression'']\<rparr>]"

definition tool_json :: "mcp_tool \<Rightarrow> json" where
  "tool_json t = JObject [(''description'', JString (mt_description t)), (''input_schema'', input_schema t), (''name'', JString (mt_name t))]"

definition handle_list_tools :: json where
  "handle_list_tools = JObject [(''tools'', JArray (map tool_json mcp_tools))]"

definition handle_initialize :: json where
  "handle_initialize = JObject
     [(''capabilities'', JObject [(''resources'', JObject [(''listChanged'', JBool False), (''subscribe'', JBool False)]),
        (''tools'', JObject [(''listChanged'', JBool False)])]),
      (''protocolVersion'', JString ''2024-11-05''),
      (''serverInfo'', JObject [(''name'', JString ''stackhouse-mcp''), (''version'', JString ''1.0.0'')])]"

definition get_endpoint_docs :: "string \<Rightarrow> string" where
  "get_endpoint_docs endpoint =
     (if endpoint = ''/v1/auth/signup''
      then doc_text ''POST /v1/auth/signup|Body: {`email`: `...`, `password`: `...`}|Returns: {`user`: {...}, `token`: `...`}''
      else if endpoint = ''/v1/auth/login''
      then doc_text ''POST /v1/auth/login|Body: {`email`: `...`, `password`: `...`}|Returns: {`user`: {...}, `token`: `...`, `refresh_token`: `...`}''
      else if endpoint = ''/v1/push/:col''
      then doc_text ''POST /v1/push/:collection|Body: any JSON object|The schema evolves automatically.|Returns: {`id`: `...`, `collection`: `...`}''
      else if endpoint = ''/v1/query/:col''
      then doc_text ''GET /v1/query/:collection?filter=...&sort=...&limit=N|Returns: [{...}, ...]''
      else ''Documentation for '' @ quoted endpoint @ '' not available. Try /v1/auth/signup, /v1/push/:col, /v1/query/:col'')"

definition endpoint_index :: json where
  "endpoint_index = JObject
     [(''admin'', strings [''/v1/admin/extensions'', ''/v1/admin/branches'', ''/v1/admin/backups'']),
      (''auth'', strings [''/v1/auth/signup'', ''/v1/auth/login'', ''/v1/auth/refresh'', ''/v1/auth/logout'']),
      (''data'', strings [''/v1/push/:col'', ''/v1/query/:col'', ''/v1/update/:col/:id'', ''/v1/delete/:col/:id'']),
      (''functions'', strings [''/v1/functions/invoke/:name'']), (''graphql'', strings [''/v1/graphql'']),
      (''platform'', strings [''/v1/platform/projects'']), (''realtime'', strings [''ws /v1/realtime'']),
      (''storage'', strings [''/v1/storage/upload'', ''/v1/storage/download/:path'']),
      (''vectors'', strings [''/v1/vectors/:col/search'', ''/v1/vectors/:col/upsert''])]"

section \<open>Tools\<close>

text \<open>A call whose failure the tool reports as an answer of its own.\<close>

definition reporting :: "string \<Rightarrow> ('d, 'a) io \<Rightarrow> ('a \<Rightarrow> json) \<Rightarrow> ('d, mcp_result) io" where
  "reporting prefix m f = bind_io (attempt m) (\<lambda>r. case r of
     Inl e \<Rightarrow> ret (Inr (mcp_fault (prefix @ error_display e)))
   | Inr a \<Rightarrow> ret (Inr (f a)))"

definition query_or_nothing :: "'d mcp_env \<Rightarrow> string \<Rightarrow> ('d, row list) io" where
  "query_or_nothing e sql = bind_io (attempt (query_rows (mc_sql e) sql [])) (\<lambda>r. case r of Inl _ \<Rightarrow> ret [] | Inr rows \<Rightarrow> ret rows)"

definition tool_query_sql :: "'d mcp_env \<Rightarrow> json \<Rightarrow> ('d, mcp_result) io" where
  "tool_query_sql e args =
     (let sql = str_arg args ''sql'' in
      if \<not> starts_with (to_uppercase (trim sql)) ''SELECT'' then ret (Inr (mcp_fault ''Error: Only SELECT queries are allowed''))
      else reporting ''Query error: '' (query_rows (mc_sql e) sql []) (\<lambda>rows. mcp_text (mc_pretty e rows)))"

definition tables_sql :: string where
  "tables_sql = ''SELECT table_name, table_type FROM information_schema.tables WHERE table_schema = '' @ quoted ''public'' @ '' ORDER BY table_name''"

definition describe_sql :: "string \<Rightarrow> string" where
  "describe_sql table = ''SELECT column_name, data_type, is_nullable, column_default FROM information_schema.columns WHERE table_name = ''
     @ quoted table @ '' ORDER BY ordinal_position''"

definition read_tool :: "'d mcp_env \<Rightarrow> string \<Rightarrow> ('d, mcp_result) io" where
  "read_tool e sql = bind_io (query_or_nothing e sql) (\<lambda>rows. ret (Inr (mcp_text (mc_pretty e rows))))"

definition search_vectors_text :: "json \<Rightarrow> string" where
  "search_vectors_text args =
     (let collection = str_arg args ''collection''; q = str_arg args ''query'' in
      ''Semantic search in '' @ quoted collection @ '' for: '' @ quoted q @ doc_text ''|Use POST /v1/vectors/'' @ collection
        @ doc_text ''/search with body {`query`: `'' @ q @ doc_text ''`}'')"

function trim_prefixes :: "string \<Rightarrow> string \<Rightarrow> string" where
  "trim_prefixes p s = (if p \<noteq> [] \<and> starts_with s p then trim_prefixes p (drop (length p) s) else s)"
  by pat_completeness auto

termination
  by (relation "measure (\<lambda>(p, s). length s)") (auto simp: starts_with_iff)

definition own_table :: "string \<Rightarrow> string" where
  "own_table name = ''stackhouse_'' @ trim_prefixes ''stackhouse_'' name"

definition columns_sql :: "json \<Rightarrow> string" where
  "columns_sql args =
     (let columns = (case as_array (arg args ''columns'') of None \<Rightarrow> [] | Some xs \<Rightarrow> List.map_filter as_str xs) in
      if columns = []
      then ''id BIGSERIAL PRIMARY KEY, data JSONB NOT NULL, created_at TIMESTAMPTZ DEFAULT NOW(), updated_at TIMESTAMPTZ DEFAULT NOW()''
      else join '', '' columns)"

definition tool_create_table :: "'d mcp_env \<Rightarrow> json \<Rightarrow> ('d, mcp_result) io" where
  "tool_create_table e args =
     (let name = trim (str_arg args ''name''); table = own_table name in
      if name = [] then ret (Inr (mcp_fault ''Error: table name is required''))
      else reporting ''Error: '' (execute (mc_sql e) (''CREATE TABLE IF NOT EXISTS '' @ table @ '' ('' @ columns_sql args @ '')'') [])
        (\<lambda>_. mcp_text (''Created table '' @ table)))"

definition tool_push_data :: "'d mcp_env \<Rightarrow> json \<Rightarrow> ('d, mcp_result) io" where
  "tool_push_data e args =
     (let name = trim (str_arg args ''table''); table = own_table name in
      if name = [] then ret (Inr (mcp_fault ''Error: table is required''))
      else if is_null (arg args ''record'') then ret (Inr (mcp_fault ''Error: record is required''))
      else reporting ''Error: ''
        (query_rows (mc_sql e) (''INSERT INTO '' @ table @ '' (data) VALUES (?::jsonb) RETURNING id'') [SqlText (mc_text e (arg args ''record''))])
        (\<lambda>rows. mcp_text (''Inserted record into '' @ table @ '' with id ''
           @ show_int (unwrap_or 0 (case rows of ((_, v) # _) # _ \<Rightarrow> as_i64 v | _ \<Rightarrow> None)))))"

definition tool_deploy_function :: "'d mcp_env \<Rightarrow> json \<Rightarrow> ('d, mcp_result) io" where
  "tool_deploy_function e args =
     (let name = str_arg args ''name''; source = str_arg args ''source_code'' in
      if name = [] \<or> source = [] then ret (Inr (mcp_fault ''Error: name and source_code are required''))
      else reporting ''Error: ''
        (execute (mc_sql e) (''INSERT INTO stackhouse_functions (id, name, slug, source_code, runtime, status) VALUES (?, ?, ?, ?, ?, '' @ quoted ''active'' @ '')'')
          [SqlText (mc_uuid e), SqlText name, SqlText (str_arg_or name args ''slug''), SqlText source,
           SqlText (str_arg_or ''javascript'' args ''runtime'')])
        (\<lambda>_. mcp_text (''Deployed function '' @ mc_uuid e)))"

definition tool_create_bucket :: "'d mcp_env \<Rightarrow> json \<Rightarrow> ('d, mcp_result) io" where
  "tool_create_bucket e args =
     (let name = trim (str_arg args ''name''); public = unwrap_or False (as_bool (arg args ''public'')) in
      if name = [] then ret (Inr (mcp_fault ''Error: bucket name is required''))
      else reporting ''Error: ''
        (execute (mc_sql e) ''INSERT INTO stackhouse_buckets (name, public, owner_id) VALUES (?, ?, NULL) ON CONFLICT (name) DO NOTHING''
          [SqlText name, SqlInteger (if public then 1 else 0)])
        (\<lambda>_. mcp_text (''Created bucket '' @ name @ '' (public='' @ (if public then ''true'' else ''false'') @ '')'')))"

definition tool_create_rls_policy :: "'d mcp_env \<Rightarrow> json \<Rightarrow> ('d, mcp_result) io" where
  "tool_create_rls_policy e args =
     (let table = str_arg args ''table_name''; policy = str_arg args ''policy_name''; use = str_arg args ''using_expression'';
          operation = to_uppercase (str_arg_or ''ALL'' args ''operation''); with_check = str_arg args ''with_check_expression'' in
      if table = [] \<or> policy = [] \<or> use = []
      then ret (Inr (mcp_fault ''Error: tenant_id, table_name, policy_name, and using_expression are required''))
      else bind_io (attempt (execute (mc_sql e)
          (''INSERT INTO stackhouse_rls_policies (id, tenant_id, table_name, policy_name, operation, expression, target_roles, ''
             @ ''using_expression, with_check_expression, enabled, description) VALUES (?, ?, ?, ?, ?, ?, ?::jsonb, ?, ?, ?, ?)'')
          [SqlText (mc_uuid e), SqlInteger (unwrap_or 0 (as_i64 (arg args ''tenant_id''))), SqlText table, SqlText policy, SqlText operation,
           SqlText use, SqlText ''[]'', SqlText use, SqlText (if with_check = [] then use else with_check), SqlText ''true'',
           SqlText (str_arg args ''description'')])) (\<lambda>r. case r of
        Inl err \<Rightarrow> ret (Inr (mcp_fault (''Error: '' @ error_display err)))
      | Inr _ \<Rightarrow>
          bind_io (attempt (execute (mc_sql e) (''ALTER TABLE IF EXISTS '' @ table @ '' ENABLE ROW LEVEL SECURITY'') [])) (\<lambda>_.
          bind_io (attempt (execute (mc_sql e) (''CREATE POLICY IF NOT EXISTS '' @ policy @ '' ON '' @ table @ '' AS PERMISSIVE FOR ''
             @ operation @ '' TO PUBLIC USING ('' @ with_check @ '')'') [])) (\<lambda>_.
          ret (Inr (mcp_text (''Created RLS policy '' @ policy @ '' on '' @ table)))))))"

section \<open>Requests\<close>

definition write_tools :: "string list" where
  "write_tools = [''create_table'', ''push_data'', ''deploy_function'', ''create_bucket'', ''create_rls_policy'']"

text \<open>The check before a write tool: the answer that refuses, or none.\<close>

definition write_check :: "'d mcp_env \<Rightarrow> string option \<Rightarrow> ('d, json option) io" where
  "write_check e api_key =
     (let key = unwrap_or [] api_key in
      if key = [] then ret (Some (mcp_fault ''Error: X-Api-Key header required for write tools''))
      else bind_io (attempt (zoom (mc_get e) (mc_put e) (validate_key (mc_key e) key))) (\<lambda>r. ret (case r of
          Inr (_, scopes) \<Rightarrow> if has_scope scopes ''mcp:write'' then None else Some (mcp_fault ''Error: API key missing mcp:write scope'')
        | Inl _ \<Rightarrow> Some (mcp_fault ''Error: Invalid or revoked API key''))))"

definition call_tool :: "'d mcp_env \<Rightarrow> string \<Rightarrow> json \<Rightarrow> ('d, mcp_result) io" where
  "call_tool e tool args =
     (if tool = ''query_sql'' then tool_query_sql e args
      else if tool = ''list_tables'' then read_tool e tables_sql
      else if tool = ''describe_table'' then read_tool e (describe_sql (str_arg args ''table_name''))
      else if tool = ''list_functions'' then read_tool e ''SELECT id, name, runtime, status FROM stackhouse_functions ORDER BY name''
      else if tool = ''list_vector_collections'' then ret (Inr (mcp_text ''Use GET /v1/vectors/collections to list collections.''))
      else if tool = ''search_vectors'' then ret (Inr (mcp_text (search_vectors_text args)))
      else if tool = ''get_api_docs'' then ret (Inr (mcp_text (get_endpoint_docs (str_arg args ''endpoint''))))
      else if tool = ''create_table'' then tool_create_table e args
      else if tool = ''push_data'' then tool_push_data e args
      else if tool = ''deploy_function'' then tool_deploy_function e args
      else if tool = ''create_bucket'' then tool_create_bucket e args
      else if tool = ''create_rls_policy'' then tool_create_rls_policy e args
      else ret (Inl \<lparr>me_code = - 32602, me_message = ''Unknown tool: '' @ tool\<rparr>))"

definition missing_params :: mcp_error where
  "missing_params = \<lparr>me_code = - 32602, me_message = ''Missing params''\<rparr>"

definition handle_tool_call :: "'d mcp_env \<Rightarrow> json option \<Rightarrow> string option \<Rightarrow> ('d, mcp_result) io" where
  "handle_tool_call e params api_key =
     (case params of
        None \<Rightarrow> ret (Inl missing_params)
      | Some p \<Rightarrow>
          let tool = str_arg p ''name''; args = arg p ''arguments'' in
          bind_io (if tool \<in> set write_tools then write_check e api_key else ret None) (\<lambda>refusal. case refusal of
            Some v \<Rightarrow> ret (Inr v)
          | None \<Rightarrow> call_tool e tool args))"

definition mcp_resources :: "mcp_resource list" where
  "mcp_resources =
    [\<lparr>ms_uri = ''stackhouse://schema/tables'', ms_name = ''Database Tables'', ms_description = ''All tables in the Stackhouse database'',
      mime_type = ''application/json''\<rparr>,
     \<lparr>ms_uri = ''stackhouse://api/endpoints'', ms_name = ''API Endpoints'', ms_description = ''All available REST API endpoints'',
      mime_type = ''application/json''\<rparr>,
     \<lparr>ms_uri = ''stackhouse://config/environment'', ms_name = ''Environment Config'',
      ms_description = ''Current Stackhouse configuration (non-sensitive)'', mime_type = ''application/json''\<rparr>]"

definition handle_list_resources :: json where
  "handle_list_resources = JObject [(''resources'', JArray (map (\<lambda>r. JObject [(''description'', JString (ms_description r)),
     (''mime_type'', JString (mime_type r)), (''name'', JString (ms_name r)), (''uri'', JString (ms_uri r))]) mcp_resources))]"

definition resource_contents :: "string \<Rightarrow> string \<Rightarrow> json" where
  "resource_contents uri t = JObject [(''contents'', JArray [JObject [(''mimeType'', JString ''application/json''), (''text'', JString t), (''uri'', JString uri)]])]"

definition schema_resource_sql :: string where
  "schema_resource_sql = ''SELECT table_name FROM information_schema.tables WHERE table_schema = '' @ quoted ''public''"

definition handle_read_resource :: "'d mcp_env \<Rightarrow> (json \<Rightarrow> string) \<Rightarrow> json option \<Rightarrow> ('d, mcp_result) io" where
  "handle_read_resource e pretty params =
     (case params of
        None \<Rightarrow> ret (Inl missing_params)
      | Some p \<Rightarrow>
          let uri = str_arg p ''uri'' in
          if uri = ''stackhouse://schema/tables''
          then bind_io (query_or_nothing e schema_resource_sql)
            (\<lambda>rows. ret (Inr (resource_contents uri (mc_pretty e rows))))
          else if uri = ''stackhouse://api/endpoints'' then ret (Inr (resource_contents uri (pretty endpoint_index)))
          else ret (Inl \<lparr>me_code = - 32602, me_message = ''Resource not found''\<rparr>))"

definition handle_request :: "'d mcp_env \<Rightarrow> (json \<Rightarrow> string) \<Rightarrow> mcp_request \<Rightarrow> string option \<Rightarrow> ('d, mcp_response) io" where
  "handle_request e pretty rq api_key =
     bind_io
       (if mq_method rq = ''initialize'' then ret (Inr handle_initialize)
        else if mq_method rq = ''tools/list'' then ret (Inr handle_list_tools)
        else if mq_method rq = ''tools/call'' then handle_tool_call e (mq_params rq) api_key
        else if mq_method rq = ''resources/list'' then ret (Inr handle_list_resources)
        else if mq_method rq = ''resources/read'' then handle_read_resource e pretty (mq_params rq)
        else ret (Inl \<lparr>me_code = - 32601, me_message = ''Method not found''\<rparr>)) (\<lambda>result. ret (case result of
          Inr v \<Rightarrow> \<lparr>mr_id = mq_id rq, mr_result = Some v, mr_error = None\<rparr>
        | Inl err \<Rightarrow> \<lparr>mr_id = mq_id rq, mr_result = None, mr_error = Some err\<rparr>))"

declare trim_prefixes.simps [simp del]

section \<open>What a request can do\<close>

lemma own_table_prefix: "\<not> starts_with (trim_prefixes ''stackhouse_'' s) ''stackhouse_''"
proof (induction "''stackhouse_''" s rule: trim_prefixes.induct)
  case (1 s)
  then show ?case by (subst trim_prefixes.simps) auto
qed

definition selects :: "string \<Rightarrow> bool" where
  "selects sql \<longleftrightarrow> starts_with (to_uppercase (trim sql)) ''SELECT''"









text \<open>
  C37. And anybody may have any of them sent: a call of the query tool with a text that starts with the word
  SELECT, without a key or a token, sends that text and answers with all of its rows, of whatever table.
\<close>

theorem anybody_may_select:
  assumes "selects sql" and "mq_method rq = ''tools/call''"
    and "mq_params rq = Some (JObject [(''name'', JString ''query_sql''), (''arguments'', JObject [(''sql'', JString sql)])])"
  shows "\<exists>r. handle_request e pretty rq None d = (Inr r, snd (query_rows (mc_sql e) sql [] d)) \<and>
    (\<forall>rows. fst (query_rows (mc_sql e) sql [] d) = Inr rows \<longrightarrow> mr_result r = Some (mcp_text (mc_pretty e rows)))"
proof -
  have "handle_tool_call e (mq_params rq) None d = tool_query_sql e (JObject [(''sql'', JString sql)]) d"
    by (simp add: assms(3) handle_tool_call_def str_arg_def arg_def jget_def unwrap_or_def write_tools_def call_tool_def bind_io_def ret_def Let_def)
  then show ?thesis
    using assms(1,2)
    by (cases "query_rows (mc_sql e) sql [] d")
      (auto simp: handle_request_def tool_query_sql_def str_arg_def arg_def jget_def unwrap_or_def selects_def reporting_def attempt_def
        bind_io_def ret_def Let_def split: sum.splits)
qed

lemmas tool_defs = tool_query_sql_def read_tool_def tool_create_table_def tool_push_data_def tool_deploy_function_def
  tool_create_bucket_def tool_create_rls_policy_def Let_def

lemma reports: "wp (reporting prefix m f) (\<lambda>r _. \<forall>err. r \<noteq> Inr (Inl err)) s"
  unfolding reporting_def by (auto simp: wp_def bind_io_def attempt_def ret_def split: prod.splits sum.splits)

lemma tool_answers:
  assumes "t \<in> set [''query_sql'', ''list_tables'', ''describe_table'', ''list_functions'', ''list_vector_collections'', ''search_vectors'',
    ''get_api_docs'', ''create_table'', ''push_data'', ''deploy_function'', ''create_bucket'', ''create_rls_policy'']"
  shows "wp (call_tool e t args) (\<lambda>r _. \<forall>err. r \<noteq> Inr (Inl err)) s"
proof -
  have a: "wp (tool_query_sql e args) (\<lambda>r _. \<forall>err. r \<noteq> Inr (Inl err)) s" unfolding tool_defs by (auto intro!: wp_intro reports)
  have b: "wp (read_tool e sql) (\<lambda>r _. \<forall>err. r \<noteq> Inr (Inl err)) s" for sql
    unfolding read_tool_def by (auto simp: wp_def bind_io_def ret_def split: prod.splits sum.splits)
  have c: "wp (tool_create_table e args) (\<lambda>r _. \<forall>err. r \<noteq> Inr (Inl err)) s" unfolding tool_defs by (auto intro!: wp_intro reports)
  have d: "wp (tool_push_data e args) (\<lambda>r _. \<forall>err. r \<noteq> Inr (Inl err)) s" unfolding tool_defs by (auto intro!: wp_intro reports)
  have f: "wp (tool_deploy_function e args) (\<lambda>r _. \<forall>err. r \<noteq> Inr (Inl err)) s" unfolding tool_defs by (auto intro!: wp_intro reports)
  have g: "wp (tool_create_bucket e args) (\<lambda>r _. \<forall>err. r \<noteq> Inr (Inl err)) s" unfolding tool_defs by (auto intro!: wp_intro reports)
  have h: "wp (tool_create_rls_policy e args) (\<lambda>r _. \<forall>err. r \<noteq> Inr (Inl err)) s"
    unfolding tool_create_rls_policy_def Let_def
    by (auto simp: wp_def bind_io_def attempt_def ret_def split: prod.splits sum.splits)
  from assms show ?thesis
    by (simp only: list.set insert_iff empty_iff simp_thms)
      (elim disjE; simp add: call_tool_def wp_ret a b c d f g h)
qed

text \<open>
  The catalogue and the dispatcher agree: a call is answered with the error for an unknown tool exactly when no tool
  of that name is listed, whatever fails.
\<close>

theorem catalogue_is_dispatched:
  "wp (handle_tool_call e (Some p) api_key)
     (\<lambda>r _. r = Inr (Inl \<lparr>me_code = - 32602, me_message = ''Unknown tool: '' @ str_arg p ''name''\<rparr>)
        \<longleftrightarrow> str_arg p ''name'' \<notin> set (map mt_name mcp_tools)) s"
proof -
  let ?t = "str_arg p ''name''" and ?args = "arg p ''arguments''"
  have listed: "fst (bind_io m (\<lambda>refusal. case refusal of Some v \<Rightarrow> ret (Inr v) | None \<Rightarrow> call_tool e ?t ?args) d) \<noteq> Inr (Inl err)"
    if "?t \<in> set (map mt_name mcp_tools)" for m d err
  proof -
    have "wp (call_tool e ?t ?args) (\<lambda>r _. \<forall>err. r \<noteq> Inr (Inl err)) s" for s
      using that by (intro tool_answers) (simp add: mcp_tools_def)
    then have "fst (call_tool e ?t ?args d') \<noteq> Inr (Inl err)" for d' by (simp add: wp_def)
    then show ?thesis by (cases "m d") (simp add: bind_io_def ret_def split: sum.split option.split)
  qed
  have unlisted: "call_tool e ?t ?args = ret (Inl \<lparr>me_code = - 32602, me_message = ''Unknown tool: '' @ ?t\<rparr>)"
    "?t \<notin> set write_tools" if "?t \<notin> set (map mt_name mcp_tools)"
    using that by (simp_all add: call_tool_def write_tools_def mcp_tools_def)
  show ?thesis
  proof (cases "?t \<in> set (map mt_name mcp_tools)")
    case True
    then show ?thesis
      by (simp add: wp_def handle_tool_call_def Let_def listed [OF True])
  next
    case False
    with unlisted show ?thesis unfolding handle_tool_call_def Let_def by (auto intro!: wp_intro)
  qed
qed

section \<open>Examples\<close>

text \<open>A server whose data are the keys and a counter of the statements with parameters.\<close>

definition demo_mcp_env :: "(key_db \<times> nat) mcp_env" where
  "demo_mcp_env = \<lparr>mc_sql = \<lparr>server = (\<lambda>sql params n. Inr (\<lparr>returned = [[(''password_hash'', cell_text ''x'')]], affected = 0, returned_id = None\<rparr>,
       if params = [] then n else apsnd Suc n)), sv_json = (\<lambda>_. None), sv_base64 = id\<rparr>,
     mc_key = demo_key_env, mc_get = fst, mc_put = (\<lambda>k n. (k, snd n)),
     mc_pretty = (\<lambda>rows. concat (map (concat \<circ> map fst) rows)), mc_text = (\<lambda>_. ''{}''), mc_uuid = ''u''\<rparr>"

definition demo_call :: "string \<Rightarrow> (string \<times> json) list \<Rightarrow> mcp_request" where
  "demo_call tool args = \<lparr>mq_id = None, mq_method = ''tools/call'',
     mq_params = Some (JObject [(''name'', JString tool), (''arguments'', JObject args)])\<rparr>"

definition demo_keys :: key_db where
  "demo_keys = \<lparr>api_keys = [demo_key], key_users = {1}\<rparr>"


theorem anybody_may_select_witness:
  "\<exists>r. handle_request demo_mcp_env (\<lambda>_. []) (demo_call ''query_sql'' [(''sql'', JString ''select 1'')]) None (up (demo_keys, 0))
       = (Inr r, snd (query_rows (mc_sql demo_mcp_env) ''select 1'' [] (up (demo_keys, 0)))) \<and> mr_result r = Some (mcp_text ''password_hash'')"
proof -
  have sel: "selects ''select 1''" by (simp add: selects_def str_eval trim_def is_whitespace_def starts_with_def)
  have "fst (query_rows (mc_sql demo_mcp_env) ''select 1'' [] (up (demo_keys, 0))) = Inr [json_row (\<lambda>_. None) id [(''password_hash'', cell_text ''x'')]]"
    by (simp add: query_rows_def send_def demo_mcp_env_def)
  with anybody_may_select [OF sel, of "demo_call ''query_sql'' [(''sql'', JString ''select 1'')]" demo_mcp_env "\<lambda>_. []" "up (demo_keys, 0)"]
  show ?thesis by (auto simp: demo_call_def demo_mcp_env_def json_row_def)
qed

end
