(* ===== verification/Teams.thy ===== *)
theory Teams imports Auth Calm OneShot begin

text \<open>
  Teams with their members and invitations (\<open>src/src/teams.rs\<close>), and organizations (\<open>src/src/teams/orgs.rs\<close>). The
  tables are lists of rows; \<open>next_team\<close> and \<open>next_org\<close> are the sequences of their identifiers.
\<close>

section \<open>Teams\<close>

datatype team_role = ReadOnly | AuditRole | Developer | TeamAdmin | TeamOwner

definition parse_team_role :: "string \<Rightarrow> team_role option" where
  "parse_team_role role =
     (if role = ''readonly'' then Some ReadOnly else if role = ''audit'' then Some AuditRole
      else if role = ''developer'' then Some Developer else if role = ''admin'' then Some TeamAdmin
      else if role = ''owner'' then Some TeamOwner else None)"

record team_row =
  tm_id :: int
  tm_name :: string
  tm_slug :: string
  tm_by :: int

record member_row =
  mb_team :: int
  mb_user :: int
  mb_role :: string
  mb_joined :: nat

record team_invite_row =
  ti_team :: int
  ti_email :: string
  ti_role :: string
  ti_token :: string
  ti_by :: int
  ti_expires :: nat
  ti_accepted :: bool

record teams_db =
  team_rows :: "team_row list"
  member_rows :: "member_row list"
  invite_rows :: "team_invite_row list"
  team_users :: "(int \<times> string) list"
  next_team :: int

record team_env =
  te_uuid :: string
  te_now :: nat
  te_stamp :: "nat \<Rightarrow> string"
  te_parse :: "string \<Rightarrow> json option"
  te_base64 :: "string \<Rightarrow> string"

abbreviation team_query :: "team_env \<Rightarrow> ('s \<Rightarrow> (string \<times> cell) list list) \<Rightarrow> ('s, row list) io" where
  "team_query e \<equiv> query (te_parse e) (te_base64 e)"

text \<open>\<open>char::is_alphanumeric\<close> on the first 256 code points.\<close>

definition is_alphanumeric :: "char \<Rightarrow> bool" where
  "is_alphanumeric c \<longleftrightarrow> is_ascii_alphanumeric c \<or>
     (let n = (of_char c :: nat) in n \<in> {0xAA, 0xB2, 0xB3, 0xB5, 0xB9, 0xBA, 0xBC, 0xBD, 0xBE} \<or> 0xC0 \<le> n \<and> n \<noteq> 0xD7 \<and> n \<noteq> 0xF7)"

definition team_slug :: "string \<Rightarrow> string" where
  "team_slug name =
     filter (\<lambda>c. is_alphanumeric c \<or> c = CHR ''-'') (map (\<lambda>c. if c = CHR '' '' then CHR ''-'' else c) (to_lowercase name))"

definition unique_violation :: stackhouse_error where
  "unique_violation = Database ''duplicate key value violates unique constraint''"

definition foreign_key_violation :: stackhouse_error where
  "foreign_key_violation = Database ''violates foreign key constraint''"

definition insert_team :: "string \<Rightarrow> string \<Rightarrow> int \<Rightarrow> (teams_db, int) io" where
  "insert_team name slug owner = stmt (\<lambda>s.
     if name \<in> tm_name ` set (team_rows s) \<or> slug \<in> tm_slug ` set (team_rows s) then Inl unique_violation
     else if owner \<notin> fst ` set (team_users s) then Inl foreign_key_violation
     else Inr (next_team s, s\<lparr>team_rows := team_rows s @ [\<lparr>tm_id = next_team s, tm_name = name, tm_slug = slug, tm_by = owner\<rparr>],
       next_team := next_team s + 1\<rparr>))"

definition insert_member :: "int \<Rightarrow> int \<Rightarrow> string \<Rightarrow> nat \<Rightarrow> (teams_db, unit) io" where
  "insert_member team user role now = stmt (\<lambda>s.
     if (team, user) \<in> (\<lambda>m. (mb_team m, mb_user m)) ` set (member_rows s) then Inl unique_violation
     else if team \<notin> tm_id ` set (team_rows s) \<or> user \<notin> fst ` set (team_users s) then Inl foreign_key_violation
     else Inr ((), s\<lparr>member_rows := member_rows s @ [\<lparr>mb_team = team, mb_user = user, mb_role = role, mb_joined = now\<rparr>]\<rparr>))"

definition create_team :: "team_env \<Rightarrow> string \<Rightarrow> int \<Rightarrow> (teams_db, int) io" where
  "create_team e name owner_id =
     bind_io (insert_team name (team_slug name) owner_id) (\<lambda>team_id.
     bind_io (insert_member team_id owner_id ''owner'' (te_now e)) (\<lambda>_.
     ret team_id))"

definition list_user_teams :: "team_env \<Rightarrow> int \<Rightarrow> (teams_db, json list) io" where
  "list_user_teams e user =
     bind_io (team_query e (\<lambda>s. map (\<lambda>(t, m). [(''id'', cell_int (tm_id t)), (''name'', cell_text (tm_name t)), (''slug'', cell_text (tm_slug t)),
         (''role'', cell_text (mb_role m))])
       (sort_key (tm_name \<circ> fst) [(t, m). t \<leftarrow> team_rows s, m \<leftarrow> member_rows s, tm_id t = mb_team m, mb_user m = user]))) (\<lambda>rows.
     ret (map row_object rows))"

definition get_team_members :: "team_env \<Rightarrow> int \<Rightarrow> (teams_db, json list) io" where
  "get_team_members e team =
     bind_io (team_query e (\<lambda>s. map (\<lambda>(m, (i, email)). [(''id'', cell_int i), (''email'', cell_text email), (''role'', cell_text (mb_role m)),
         (''joined_at'', cell_time (te_stamp e (mb_joined m)))])
       (rev (sort_key (mb_role \<circ> fst) (rev (sort_key (snd \<circ> snd)
         [(m, u). m \<leftarrow> member_rows s, u \<leftarrow> team_users s, mb_user m = fst u, mb_team m = team]))))) ) (\<lambda>rows.
     ret (map row_object rows))"

definition invite_member :: "team_env \<Rightarrow> int \<Rightarrow> string \<Rightarrow> string \<Rightarrow> int \<Rightarrow> (teams_db, string) io" where
  "invite_member e team email role invited_by =
     bind_io (stmt (\<lambda>s.
       if te_uuid e \<in> ti_token ` set (invite_rows s) then Inl unique_violation
       else if team \<notin> tm_id ` set (team_rows s) \<or> invited_by \<notin> fst ` set (team_users s) then Inl foreign_key_violation
       else Inr ((), s\<lparr>invite_rows := invite_rows s @ [\<lparr>ti_team = team, ti_email = email, ti_role = role, ti_token = te_uuid e,
         ti_by = invited_by, ti_expires = te_now e + 7 * 86400, ti_accepted = False\<rparr>]\<rparr>))) (\<lambda>_.
     ret (te_uuid e))"

definition is_member :: "int \<Rightarrow> int \<Rightarrow> member_row \<Rightarrow> bool" where
  "is_member team user m \<longleftrightarrow> mb_team m = team \<and> mb_user m = user"

definition update_member_role :: "int \<Rightarrow> int \<Rightarrow> string \<Rightarrow> (teams_db, unit) io" where
  "update_member_role team user new_role = exec (\<lambda>s. s\<lparr>member_rows :=
     map (\<lambda>m. if is_member team user m then m\<lparr>mb_role := new_role\<rparr> else m) (member_rows s)\<rparr>)"

text \<open>Removal: the check reads twice, then the row is deleted.\<close>

definition member_roles :: "team_env \<Rightarrow> int \<Rightarrow> int \<Rightarrow> (teams_db, row list) io" where
  "member_roles e team user =
     team_query e (\<lambda>s. map (\<lambda>m. [(''role'', cell_text (mb_role m))]) (filter (is_member team user) (member_rows s)))"

definition may_remove :: "team_env \<Rightarrow> int \<Rightarrow> int \<Rightarrow> (teams_db, unit) io" where
  "may_remove e team user =
     bind_io (team_query e (\<lambda>s. [[(''cnt'', cell_int (int (length (filter (\<lambda>m. mb_team m = team \<and> mb_role m = ''owner'') (member_rows s)))))]])) (\<lambda>owners.
     let owner_count = unwrap_or 0 (case owners of r # _ \<Rightarrow> col_i64 r ''cnt'' | [] \<Rightarrow> None) in
     bind_io (member_roles e team user) (\<lambda>member.
     let is_owner = ((case member of r # _ \<Rightarrow> col_str r ''role'' | [] \<Rightarrow> None) = Some ''owner'') in
     if is_owner \<and> owner_count \<le> 1 then fail (InvalidPayload ''Cannot remove the last owner'') else ret ()))"

definition delete_member :: "int \<Rightarrow> int \<Rightarrow> (teams_db, unit) io" where
  "delete_member team user = exec (\<lambda>s. s\<lparr>member_rows := filter (\<lambda>m. \<not> is_member team user m) (member_rows s)\<rparr>)"

definition remove_member :: "team_env \<Rightarrow> int \<Rightarrow> int \<Rightarrow> (teams_db, unit) io" where
  "remove_member e team user = bind_io (may_remove e team user) (\<lambda>_. delete_member team user)"

definition get_team_member_role :: "team_env \<Rightarrow> int \<Rightarrow> int \<Rightarrow> (teams_db, team_role option) io" where
  "get_team_member_role e team user =
     bind_io (member_roles e team user) (\<lambda>rows.
     ret (case rows of [] \<Rightarrow> None | r # _ \<Rightarrow> Option.bind (col_str r ''role'') parse_team_role))"

definition is_team_member :: "team_env \<Rightarrow> int \<Rightarrow> int \<Rightarrow> (teams_db, bool) io" where
  "is_team_member e team user = bind_io (get_team_member_role e team user) (\<lambda>r. ret (r \<noteq> None))"

definition can_manage_team :: "team_env \<Rightarrow> int \<Rightarrow> int \<Rightarrow> (teams_db, bool) io" where
  "can_manage_team e team user = bind_io (get_team_member_role e team user) (\<lambda>r. ret (r = Some TeamAdmin \<or> r = Some TeamOwner))"

subsection \<open>Routes\<close>

datatype team_call = CreateTeam string | ListTeams | TeamMembers int | InviteMember int string string

definition authorize_team_member :: "auth_env \<Rightarrow> team_env \<Rightarrow> int \<Rightarrow> string option \<Rightarrow> (teams_db, unit) io" where
  "authorize_team_member a e team header =
     bind_io (lift (extract_auth_user a header)) (\<lambda>who.
     bind_io (is_team_member e team (aw_id who)) (\<lambda>ok.
     if ok then ret () else fail (Forbidden ''Team membership required'')))"

definition invite_handler :: "auth_env \<Rightarrow> team_env \<Rightarrow> string option \<Rightarrow> int \<Rightarrow> string \<Rightarrow> string \<Rightarrow> (teams_db, string) io" where
  "invite_handler a e header team email role =
     bind_io (lift (extract_auth_user a header)) (\<lambda>who.
     bind_io (can_manage_team e team (aw_id who)) (\<lambda>ok.
     if \<not> ok then fail (Forbidden ''Team admin access required'') else invite_member e team email role (aw_id who)))"

fun team_route :: "auth_env \<Rightarrow> team_env \<Rightarrow> string option \<Rightarrow> team_call \<Rightarrow> (teams_db, json) io" where
  "team_route a e header (CreateTeam name) =
     bind_io (lift (extract_auth_user a header)) (\<lambda>who. bind_io (create_team e name (aw_id who)) (\<lambda>i. ret (json_int i)))"
| "team_route a e header ListTeams =
     bind_io (lift (extract_auth_user a header)) (\<lambda>who. bind_io (list_user_teams e (aw_id who)) (\<lambda>ts. ret (JArray ts)))"
| "team_route a e header (TeamMembers team) =
     bind_io (authorize_team_member a e team header) (\<lambda>_. bind_io (get_team_members e team) (\<lambda>ms. ret (JArray ms)))"
| "team_route a e header (InviteMember team email role) =
     bind_io (invite_handler a e header team email role) (\<lambda>token. ret (JString token))"

text \<open>A run of requests to these four routes, each with its own environment; nothing else writes the tables.\<close>

fun team_serve :: "(auth_env \<times> team_env \<times> string option \<times> team_call) list \<Rightarrow> teams_db db \<Rightarrow> teams_db db" where
  "team_serve [] d = d"
| "team_serve ((a, e, header, call) # cs) d = team_serve cs (snd (team_route a e header call d))"

section \<open>Owners\<close>

definition owners :: "int \<Rightarrow> teams_db \<Rightarrow> member_row list" where
  "owners team s = filter (\<lambda>m. mb_team m = team \<and> mb_role m = ''owner'') (member_rows s)"

text \<open>The key of the table of members.\<close>

definition members_ok :: "teams_db \<Rightarrow> bool" where
  "members_ok s \<longleftrightarrow> distinct (map (\<lambda>m. (mb_team m, mb_user m)) (member_rows s)) \<and> length (member_rows s) < 2 ^ 63"

lemma is_member_key: "is_member team user = (\<lambda>m. (mb_team m, mb_user m) = (team, user))"
  by (auto simp: is_member_def)

lemma filter_key_le: "distinct (map f xs) \<Longrightarrow> length (filter (\<lambda>x. f x = k) xs) \<le> 1"
proof (cases "filter (\<lambda>x. f x = k) xs")
  case (Cons x ys)
  assume d: "distinct (map f xs)"
  from Cons have "x \<in> set xs" "f x = k" by (auto simp: filter_eq_Cons_iff)
  with filter_by_key [OF d, of x] show ?thesis by auto
qed simp

lemma owners_left:
  assumes "members_ok s" and "owners team s \<noteq> []"
    and "length (owners team s) \<le> 1 \<Longrightarrow> \<not> list_ex (is_member team user) (owners team s)"
  shows "owners team (s\<lparr>member_rows := filter (\<lambda>m. \<not> is_member team user m) (member_rows s)\<rparr>) \<noteq> []"
proof -
  let ?gone = "filter (is_member team user) (owners team s)" and ?left = "filter (\<lambda>m. \<not> is_member team user m) (owners team s)"
  have "distinct (map (\<lambda>m. (mb_team m, mb_user m)) (owners team s))"
    using assms(1) by (simp add: members_ok_def owners_def distinct_map_filter)
  then have "length ?gone \<le> 1" unfolding is_member_key by (rule filter_key_le)
  moreover have "length ?gone + length ?left = length (owners team s)" by (rule sum_length_filter_compl)
  moreover have "length (owners team s) \<le> 1 \<Longrightarrow> ?gone = []" using assms(3) by (auto simp: filter_empty_conv list_ex_iff)
  moreover have "0 < length (owners team s)" using assms(2) by simp
  ultimately have "0 < length ?left" by (cases "length (owners team s) \<le> 1") auto
  then show ?thesis by (simp add: owners_def conj_commute)
qed

text \<open>
  C38. The last owner of a team cannot be removed: whatever fails, a removal that starts with an owner ends with
  one, and a removal that succeeds has removed the member.
\<close>

theorem removal_leaves_an_owner:
  assumes "members_ok s" and "owners team s \<noteq> []"
  shows "wp (remove_member e team user) (\<lambda>r s'. owners team s' \<noteq> [] \<and>
    (r = Inr () \<longrightarrow> \<not> list_ex (is_member team user) (member_rows s'))) s"
proof -
  let ?ms = "filter (is_member team user) (member_rows s)"
  have "length (owners team s) < 2 ^ 63"
    using assms(1) by (simp add: members_ok_def owners_def le_less_trans [OF length_filter_le])
  then have count: "in_i64 (int (length (owners team s)))" by (simp add: in_i64_def)
  have key: "distinct (map (\<lambda>m. (mb_team m, mb_user m)) (member_rows s))" using assms(1) by (simp add: members_ok_def)
  have owner: "\<exists>m. ?ms = [m] \<and> mb_role m = ''owner''" if "list_ex (is_member team user) (owners team s)"
  proof -
    from that obtain m where m: "m \<in> set (member_rows s)" "is_member team user m" "mb_role m = ''owner''"
      by (auto simp: owners_def list_ex_iff)
    with filter_by_key [OF key m(1)] show ?thesis by (auto simp: is_member_key)
  qed
  have check: "wp (may_remove e team user) (\<lambda>r s'. s' = s \<and>
      (r = Inr () \<longrightarrow> length (owners team s) \<le> 1 \<longrightarrow> \<not> list_ex (is_member team user) (owners team s))) s"
    unfolding may_remove_def member_roles_def Let_def
    by (intro wp_intro) (auto intro!: wp_intro dest!: owner simp: json_row_def col_i64_def col_str_def plain_Cons unwrap_or_def count owners_def [symmetric])
  show ?thesis
    unfolding remove_member_def delete_member_def
    by (intro wp_intro wp_weaken [OF check]) (auto intro!: wp_intro owners_left [OF assms] simp: assms(2) list_ex_iff)
qed

text \<open>
  But two removals at the same time can remove all owners, since nothing holds between the check and the
  deletion; and a change of role is not checked at all.
\<close>

theorem owners_can_be_lost:
  assumes "members_ok s" and "owners team s = [m1, m2]"
  shows "let d0 = up s; d1 = snd (may_remove e team (mb_user m1) d0); d2 = snd (may_remove e team (mb_user m2) d1);
      d3 = snd (delete_member team (mb_user m1) d2); d4 = snd (delete_member team (mb_user m2) d3)
    in fst (may_remove e team (mb_user m1) d0) = Inr () \<and> fst (may_remove e team (mb_user m2) d1) = Inr () \<and> owners team (st d4) = []"
proof -
  have count: "length (filter (\<lambda>m. mb_team m = team \<and> mb_role m = ''owner'') (member_rows s)) = 2"
    using assms(2) by (simp add: owners_def)
  have check: "may_remove e team user (up s) = (Inr (), up s)" for user
    by (simp add: may_remove_def member_roles_def Let_def count json_row_def col_i64_def unwrap_or_def in_i64_def json_int_def)
  have "owners team (s\<lparr>member_rows := filter (\<lambda>m. \<not> is_member team (mb_user m2) m) (filter (\<lambda>m. \<not> is_member team (mb_user m1) m) (member_rows s))\<rparr>)
      = filter (\<lambda>m. \<not> is_member team (mb_user m2) m) (filter (\<lambda>m. \<not> is_member team (mb_user m1) m) (owners team s))"
    by (auto simp: owners_def intro: filter_cong)
  also have "\<dots> = []"
  proof -
    have "m1 \<in> set (owners team s)" "m2 \<in> set (owners team s)" by (simp_all add: assms(2))
    then have "mb_team m1 = team" "mb_team m2 = team" by (simp_all add: owners_def)
    then show ?thesis by (simp add: assms(2) is_member_def)
  qed
  finally show ?thesis by (simp add: Let_def check delete_member_def)
qed

section \<open>Invitations\<close>

text \<open>Every member is the creator of its team, as an owner; identifiers of teams are distinct.\<close>

definition only_creators :: "teams_db \<Rightarrow> bool" where
  "only_creators s \<longleftrightarrow> distinct (map tm_id (team_rows s)) \<and> (\<forall>t \<in> set (team_rows s). tm_id t < next_team s) \<and>
     distinct (map (\<lambda>m. (mb_team m, mb_user m)) (member_rows s)) \<and>
     (\<forall>m \<in> set (member_rows s). mb_role m = ''owner'' \<and> (\<exists>t \<in> set (team_rows s). tm_id t = mb_team m \<and> tm_by t = mb_user m)) \<and>
     (\<forall>i \<in> set (invite_rows s). \<not> ti_accepted i)"

lemma create_keeps: "keeps only_creators (create_team e name owner)"
proof -
  have insert: "wp (insert_team name slug owner) (\<lambda>r s'. only_creators s' \<and>
      (\<forall>i. r = Inr i \<longrightarrow> (\<exists>t \<in> set (team_rows s'). tm_id t = i \<and> tm_by t = owner))) s" if "only_creators s" for slug s
    unfolding insert_team_def by (intro wp_intro) (use that in \<open>auto simp: only_creators_def split: if_splits\<close>)
  have member: "wp (insert_member i owner ''owner'' now) (\<lambda>_. only_creators) s"
    if "only_creators s" "\<exists>t \<in> set (team_rows s). tm_id t = i \<and> tm_by t = owner" for i now s
    unfolding insert_member_def
    by (intro wp_intro) (use that in \<open>(auto simp: only_creators_def split: if_splits; blast)\<close>)+
  have "wp (create_team e name owner) (\<lambda>_. only_creators) s" if "only_creators s" for s
    unfolding create_team_def using that
    by (intro wp_bind_io wp_weaken [OF insert]) (auto intro!: wp_bind_io wp_ret wp_weaken [OF member])
  then show ?thesis by (auto simp: keeps_def wp_def)
qed

lemma team_route_keeps: "keeps only_creators (team_route a e header call)"
  by (cases call)
    (auto intro!: keeps_intro create_keeps
      simp: authorize_team_member_def invite_handler_def can_manage_team_def is_team_member_def get_team_member_role_def member_roles_def
        list_user_teams_def get_team_members_def invite_member_def only_creators_def split: if_splits)

text \<open>
  C39. As far as the routes of teams go, a team has never more than one member, its creator. An invitation gives a
  token, and none of the four routes takes one, so whatever is sent to them, and whatever fails, no invitation is
  accepted; only the creator of a team can send invitations or see its members. (Requests that write the same tables
  otherwise, such as a document pushed into the collection \<open>stackhouse_team_members\<close>, are not part of the runs.)
\<close>

theorem teams_have_one_member:
  assumes "only_creators (st d)"
  shows "length (filter (\<lambda>m. mb_team m = team) (member_rows (st (team_serve cs d)))) \<le> 1 \<and>
    \<not> list_ex ti_accepted (invite_rows (st (team_serve cs d))) \<and>
    wp (team_route a e header (InviteMember team email role)) (\<lambda>r _. isl r \<or>
      (\<exists>who. extract_auth_user a header = Inr who \<and>
        list_ex (\<lambda>t. tm_id t = team \<and> tm_by t = aw_id who) (team_rows (st (team_serve cs d))))) (st (team_serve cs d))"
proof -
  have run: "only_creators (st (team_serve cs d))" if "only_creators (st d)" for d
    using that
  proof (induction cs arbitrary: d)
    case (Cons c cs)
    obtain a e header call where c: "c = (a, e, header, call)" by (cases c)
    have "only_creators (st (snd (team_route a e header call d)))"
      using team_route_keeps [of a e header call] Cons.prems by (simp add: keeps_def)
    with Cons.IH show ?case by (simp add: c)
  qed simp
  let ?s = "st (team_serve cs d)"
  have ok: "only_creators ?s" by (rule run [OF assms])
  have creator: "\<exists>t \<in> set (team_rows ?s). tm_id t = mb_team m \<and> tm_by t = mb_user m" if "m \<in> set (member_rows ?s)" for m
    using ok that by (simp add: only_creators_def)
  have "length (filter (\<lambda>m. mb_team m = team) (member_rows ?s)) \<le> 1"
  proof (cases "filter (\<lambda>m. mb_team m = team) (member_rows ?s)")
    case (Cons m ms)
    have ids: "distinct (map tm_id (team_rows ?s))" using ok by (simp add: only_creators_def)
    have same: "mb_user m' = mb_user m" if m': "m' \<in> set (member_rows ?s)" "mb_team m' = team" for m'
    proof -
      have m: "m \<in> set (member_rows ?s)" "mb_team m = team" using Cons by (auto simp: filter_eq_Cons_iff)
      obtain t t' where "t \<in> set (team_rows ?s)" "tm_id t = team" "tm_by t = mb_user m"
        "t' \<in> set (team_rows ?s)" "tm_id t' = team" "tm_by t' = mb_user m'"
        using creator [OF m(1)] creator [OF m'(1)] m(2) m'(2) by auto
      then show ?thesis using ids by (metis distinct_map inj_onD)
    qed
    have "filter (\<lambda>m. mb_team m = team) (member_rows ?s) = filter (\<lambda>m'. (mb_team m', mb_user m') = (team, mb_user m)) (member_rows ?s)"
      using same by (auto intro: filter_cong)
    also have "length \<dots> \<le> 1" using ok by (intro filter_key_le) (simp add: only_creators_def)
    finally show ?thesis .
  qed simp
  moreover have "\<not> list_ex ti_accepted (invite_rows ?s)" using ok by (auto simp: only_creators_def list_ex_iff)
  moreover have manage: "wp (can_manage_team e team u) (\<lambda>r s'. s' = ?s \<and> (r = Inr True \<longrightarrow>
      list_ex (\<lambda>t. tm_id t = team \<and> tm_by t = u) (team_rows ?s))) ?s" for u
    unfolding can_manage_team_def get_team_member_role_def member_roles_def
    by (intro wp_intro) (use creator in \<open>auto intro!: wp_intro simp: is_member_def list_ex_iff filter_eq_Cons_iff split: list.splits\<close>)
  then have "wp (team_route a e header (InviteMember team email role)) (\<lambda>r _. isl r \<or>
      (\<exists>who. extract_auth_user a header = Inr who \<and> list_ex (\<lambda>t. tm_id t = team \<and> tm_by t = aw_id who) (team_rows ?s))) ?s"
    by (auto simp: invite_handler_def invite_member_def intro!: wp_intro wp_weaken [OF manage])
  ultimately show ?thesis by blast
qed

section \<open>Examples\<close>

definition demo_team_env :: team_env where
  "demo_team_env = \<lparr>te_uuid = ''u'', te_now = 0, te_stamp = show_nat, te_parse = (\<lambda>_. None), te_base64 = id\<rparr>"

definition demo_teams :: "member_row list \<Rightarrow> teams_db" where
  "demo_teams ms = \<lparr>team_rows = [\<lparr>tm_id = 1, tm_name = ''A'', tm_slug = ''a'', tm_by = 1\<rparr>], member_rows = ms, invite_rows = [],
     team_users = [(1, ''a@b.io''), (2, ''b@b.io'')], next_team = 2\<rparr>"

definition demo_owner :: "int \<Rightarrow> member_row" where
  "demo_owner u = \<lparr>mb_team = 1, mb_user = u, mb_role = ''owner'', mb_joined = 0\<rparr>"

theorem removal_leaves_an_owner_witness:
  "wp (remove_member demo_team_env 1 2) (\<lambda>r s'. owners 1 s' \<noteq> [] \<and> (\<not> isl r \<longleftrightarrow> \<not> isl r \<and> \<not> list_ex (is_member 1 2) (member_rows s')))
     (demo_teams [demo_owner 1, demo_owner 2])"
proof (rule wp_weaken [OF removal_leaves_an_owner])
  fix r :: "unit result" and s'
  assume "owners 1 s' \<noteq> [] \<and> (r = Inr () \<longrightarrow> \<not> list_ex (is_member 1 2) (member_rows s'))"
  then show "owners 1 s' \<noteq> [] \<and> (\<not> isl r \<longleftrightarrow> \<not> isl r \<and> \<not> list_ex (is_member 1 2) (member_rows s'))" by (cases r) auto
qed (simp_all add: members_ok_def owners_def demo_teams_def demo_owner_def)

theorem owners_can_be_lost_witness:
  "let d0 = up (demo_teams [demo_owner 1, demo_owner 2]); d1 = snd (may_remove demo_team_env 1 1 d0); d2 = snd (may_remove demo_team_env 1 2 d1);
     d3 = snd (delete_member 1 1 d2); d4 = snd (delete_member 1 2 d3)
   in fst (may_remove demo_team_env 1 1 d0) = Inr () \<and> fst (may_remove demo_team_env 1 2 d1) = Inr () \<and> owners 1 (st d4) = []"
  using owners_can_be_lost [of "demo_teams [demo_owner 1, demo_owner 2]" 1 "demo_owner 1" "demo_owner 2" demo_team_env]
  by (simp add: members_ok_def owners_def demo_teams_def demo_owner_def)

theorem teams_have_one_member_witness:
  "length (filter (\<lambda>m. mb_team m = 1) (member_rows (st (team_serve
     [(demo_auth_env, demo_team_env, Some ''Bearer u'', InviteMember 1 ''b@b.io'' ''owner'')] (up (demo_teams [demo_owner 1])))))) \<le> 1"
proof -
  have "only_creators (st (up (demo_teams [demo_owner 1])))" by (simp add: only_creators_def demo_teams_def demo_owner_def)
  from teams_have_one_member [OF this] show ?thesis by blast
qed

end
