(* ===== verification/Orgs.thy ===== *)
theory Orgs imports Teams begin

text \<open>
  Organizations (\<open>src/src/teams/orgs.rs\<close>): their settings, members, invitations and teams. A value written with a
  cast to \<open>jsonb\<close> is the JSON value itself, since serde's text of it is read back by the server.
\<close>

section \<open>Data\<close>

record org_branding =
  logo_url :: "string option"
  primary_color :: "string option"
  favicon_url :: "string option"

definition default_branding :: org_branding where
  "default_branding = \<lparr>logo_url = None, primary_color = Some ''#3B82F6'', favicon_url = None\<rparr>"

record org_settings =
  allow_public_signup :: bool
  require_2fa :: bool
  max_members :: nat
  allow_guest_access :: bool

definition default_settings :: org_settings where
  "default_settings = \<lparr>allow_public_signup = False, require_2fa = False, max_members = 0, allow_guest_access = False\<rparr>"

record organization =
  org_id :: int
  org_tenant :: int
  org_name :: string
  org_slug :: string
  org_description :: string
  org_owner :: string
  org_plan :: string
  branding :: org_branding
  settings :: org_settings
  org_created :: string

datatype org_role = OrgOwner | OrgAdmin | OrgMember | OrgViewer | OrgGuest

fun org_role_text :: "org_role \<Rightarrow> string" where
  "org_role_text OrgOwner = ''owner''"
| "org_role_text OrgAdmin = ''admin''"
| "org_role_text OrgMember = ''member''"
| "org_role_text OrgViewer = ''viewer''"
| "org_role_text OrgGuest = ''guest''"

definition org_role_of :: "string \<Rightarrow> org_role" where
  "org_role_of s =
     (if s = ''owner'' then OrgOwner else if s = ''admin'' then OrgAdmin else if s = ''viewer'' then OrgViewer
      else if s = ''guest'' then OrgGuest else OrgMember)"

datatype member_status = ActiveMember | InvitedMember | SuspendedMember | LeftMember

record org_member =
  member_id :: int
  member_org :: int
  member_user :: string
  member_role :: org_role
  invited_by :: "string option"
  joined_at :: string
  member_status :: member_status

record org_invitation =
  inv_id :: string
  inv_org :: int
  inv_email :: string
  inv_role :: org_role
  inv_by :: string
  inv_token :: string
  inv_expires :: string
  inv_accepted :: "string option"

record org_team =
  oteam_id :: string
  oteam_org :: int
  oteam_name :: string
  oteam_description :: string
  oteam_members :: "string list"

record org_row =
  og_id :: int
  og_tenant :: int
  og_name :: string
  og_slug :: string
  og_description :: string
  og_owner :: string
  og_plan :: string
  og_branding :: json
  og_settings :: json
  og_created :: nat

record org_member_row =
  om_id :: int
  om_org :: int
  om_user :: string
  om_role :: string
  om_by :: "string option"
  om_joined :: nat
  om_status :: string

record org_invitation_row =
  oi_id :: string
  oi_org :: int
  oi_email :: string
  oi_role :: string
  oi_by :: string
  oi_token :: string
  oi_expires :: nat
  oi_accepted :: "nat option"

record org_team_row =
  ot_id :: string
  ot_org :: int
  ot_name :: string
  ot_description :: string
  ot_members :: json

record org_db =
  org_rows :: "org_row list"
  org_members :: "org_member_row list"
  org_invitations :: "org_invitation_row list"
  org_teams :: "org_team_row list"
  org_users :: "(int \<times> string) list"
  next_org :: int
  next_org_member :: int

text \<open>\<open>oe_bigint\<close> is the server's cast of a text to a number.\<close>

record org_env =
  oe_uuid :: string
  oe_token :: string
  oe_now :: nat
  oe_stamp :: "nat \<Rightarrow> string"
  oe_parse :: "string \<Rightarrow> json option"
  oe_base64 :: "string \<Rightarrow> string"
  oe_bigint :: "string \<Rightarrow> int option"

section \<open>JSON\<close>

definition opt_string_json :: "string option \<Rightarrow> json" where
  "opt_string_json x = (case x of None \<Rightarrow> JNull | Some s \<Rightarrow> JString s)"

definition branding_json :: "org_branding \<Rightarrow> json" where
  "branding_json b = JObject [(''logo_url'', opt_string_json (logo_url b)), (''primary_color'', opt_string_json (primary_color b)),
     (''favicon_url'', opt_string_json (favicon_url b))]"

definition settings_json :: "org_settings \<Rightarrow> json" where
  "settings_json x = JObject [(''allow_public_signup'', JBool (allow_public_signup x)), (''require_2fa'', JBool (require_2fa x)),
     (''max_members'', json_int (int (max_members x))), (''allow_guest_access'', JBool (allow_guest_access x))]"

text \<open>What serde derives: an optional string, an unsigned number of 32 bits, a struct from an object or from an array of its fields.\<close>

definition opt_string_of :: "json option \<Rightarrow> string option option" where
  "opt_string_of v = (case v of None \<Rightarrow> Some None | Some JNull \<Rightarrow> Some None | Some (JString s) \<Rightarrow> Some (Some s) | _ \<Rightarrow> None)"

definition u32_of :: "json \<Rightarrow> nat option" where
  "u32_of v = Option.bind (as_i64 v) (\<lambda>i. if 0 \<le> i \<and> i < 2 ^ 32 then Some (nat i) else None)"

definition make_branding :: "json option \<Rightarrow> json option \<Rightarrow> json option \<Rightarrow> org_branding option" where
  "make_branding l p f =
     (case (opt_string_of l, opt_string_of p, opt_string_of f) of
        (Some l', Some p', Some f') \<Rightarrow> Some \<lparr>logo_url = l', primary_color = p', favicon_url = f'\<rparr>
      | _ \<Rightarrow> None)"

definition branding_of :: "json \<Rightarrow> org_branding option" where
  "branding_of v =
     (case v of
        JObject _ \<Rightarrow> make_branding (jget v ''logo_url'') (jget v ''primary_color'') (jget v ''favicon_url'')
      | JArray [l, p, f] \<Rightarrow> make_branding (Some l) (Some p) (Some f)
      | _ \<Rightarrow> None)"

definition make_settings :: "json option \<Rightarrow> json option \<Rightarrow> json option \<Rightarrow> json option \<Rightarrow> org_settings option" where
  "make_settings a r m g =
     (case (Option.bind a as_bool, Option.bind r as_bool, Option.bind m u32_of, Option.bind g as_bool) of
        (Some a', Some r', Some m', Some g') \<Rightarrow>
          Some \<lparr>allow_public_signup = a', require_2fa = r', max_members = m', allow_guest_access = g'\<rparr>
      | _ \<Rightarrow> None)"

definition settings_of :: "json \<Rightarrow> org_settings option" where
  "settings_of v =
     (case v of
        JObject _ \<Rightarrow> make_settings (jget v ''allow_public_signup'') (jget v ''require_2fa'') (jget v ''max_members'') (jget v ''allow_guest_access'')
      | JArray [a, r, m, g] \<Rightarrow> make_settings (Some a) (Some r) (Some m) (Some g)
      | _ \<Rightarrow> None)"

section \<open>Organizations\<close>

abbreviation org_query :: "org_env \<Rightarrow> ('s \<Rightarrow> (string \<times> cell) list list) \<Rightarrow> ('s, row list) io" where
  "org_query e \<equiv> query (oe_parse e) (oe_base64 e)"

definition insert_org :: "org_row \<Rightarrow> (org_db, unit) io" where
  "insert_org r = stmt (\<lambda>s.
     if og_tenant r \<in> og_tenant ` set (org_rows s) \<or> og_slug r \<in> og_slug ` set (org_rows s) then Inl unique_violation
     else Inr ((), s\<lparr>org_rows := org_rows s @ [r\<lparr>og_id := next_org s\<rparr>], next_org := next_org s + 1\<rparr>))"

definition put_member :: "bool \<Rightarrow> org_member_row \<Rightarrow> (org_db, unit) io" where
  "put_member upsert m = stmt (\<lambda>s.
     if (om_org m, om_user m) \<in> (\<lambda>m. (om_org m, om_user m)) ` set (org_members s)
     then (if upsert
           then Inr ((), s\<lparr>org_members := map (\<lambda>m'. if om_org m' = om_org m \<and> om_user m' = om_user m
             then m'\<lparr>om_role := om_role m, om_status := ''active''\<rparr> else m') (org_members s)\<rparr>)
           else Inl unique_violation)
     else Inr ((), s\<lparr>org_members := org_members s @ [m\<lparr>om_id := next_org_member s\<rparr>], next_org_member := next_org_member s + 1\<rparr>))"

definition create_org :: "org_env \<Rightarrow> int \<Rightarrow> string \<Rightarrow> string \<Rightarrow> string \<Rightarrow> string option \<Rightarrow> (org_db, organization) io" where
  "create_org e tenant name slug owner plan_id =
     (let plan = unwrap_or ''free'' plan_id in
      bind_io (insert_org \<lparr>og_id = 0, og_tenant = tenant, og_name = name, og_slug = slug, og_description = [], og_owner = owner,
        og_plan = plan, og_branding = branding_json default_branding, og_settings = settings_json default_settings, og_created = oe_now e\<rparr>) (\<lambda>_.
      bind_io (put_member False \<lparr>om_id = 0, om_org = tenant, om_user = owner, om_role = ''owner'', om_by = None, om_joined = oe_now e,
        om_status = ''active''\<rparr>) (\<lambda>_.
      ret \<lparr>org_id = tenant, org_tenant = tenant, org_name = name, org_slug = slug, org_description = [], org_owner = owner, org_plan = plan,
        branding = default_branding, settings = default_settings, org_created = oe_stamp e (oe_now e)\<rparr>)))"

definition org_cells :: "org_env \<Rightarrow> org_row \<Rightarrow> (string \<times> cell) list" where
  "org_cells e r = [(''id'', cell_int (og_id r)), (''tenant_id'', cell_int (og_tenant r)), (''name'', cell_text (og_name r)),
     (''slug'', cell_text (og_slug r)), (''description'', cell_text (og_description r)), (''owner_id'', cell_text (og_owner r)),
     (''plan_id'', cell_text (og_plan r)), (''branding'', cell_jsonb (og_branding r)), (''settings'', cell_jsonb (og_settings r)),
     (''created_at'', cell_time (oe_stamp e (og_created r)))]"

definition row_to_org :: "org_env \<Rightarrow> row \<Rightarrow> organization" where
  "row_to_org e r =
     (let text = (\<lambda>k. unwrap_or [] (col_str r k)) in
      \<lparr>org_id = unwrap_or 0 (col_i64 r ''id''), org_tenant = unwrap_or 0 (col_i64 r ''tenant_id''), org_name = text ''name'',
       org_slug = text ''slug'', org_description = text ''description'', org_owner = text ''owner_id'',
       org_plan = unwrap_or ''free'' (col_str r ''plan_id''),
       branding = unwrap_or default_branding (Option.bind (oe_parse e (text ''branding'')) branding_of),
       settings = unwrap_or default_settings (Option.bind (oe_parse e (text ''settings'')) settings_of), org_created = text ''created_at''\<rparr>)"

definition get_org :: "org_env \<Rightarrow> int \<Rightarrow> (org_db, organization) io" where
  "get_org e i =
     bind_io (org_query e (\<lambda>s. map (org_cells e) (filter (\<lambda>r. og_id r = i) (org_rows s)))) (\<lambda>rows.
     case rows of [] \<Rightarrow> fail (NotFound ''Organization not found'') | r # _ \<Rightarrow> ret (row_to_org e r))"

definition get_by_tenant :: "org_env \<Rightarrow> int \<Rightarrow> (org_db, organization option) io" where
  "get_by_tenant e tenant =
     bind_io (org_query e (\<lambda>s. map (org_cells e) (filter (\<lambda>r. og_tenant r = tenant) (org_rows s)))) (\<lambda>rows.
     ret (case rows of [] \<Rightarrow> None | r # _ \<Rightarrow> Some (row_to_org e r)))"

definition update_org_row :: "int \<Rightarrow> (org_row \<Rightarrow> org_row) \<Rightarrow> (org_db, unit) io" where
  "update_org_row i f = exec (\<lambda>s. s\<lparr>org_rows := map (\<lambda>r. if og_id r = i then f r else r) (org_rows s)\<rparr>)"

definition when_some :: "'a option \<Rightarrow> ('a \<Rightarrow> ('s, unit) io) \<Rightarrow> ('s, unit) io" where
  "when_some x f = (case x of None \<Rightarrow> ret () | Some a \<Rightarrow> f a)"

definition update_org :: "int \<Rightarrow> string option \<Rightarrow> string option \<Rightarrow> org_branding option \<Rightarrow> org_settings option \<Rightarrow> (org_db, unit) io" where
  "update_org i name description b x =
     bind_io (when_some name (\<lambda>n. update_org_row i (\<lambda>r. r\<lparr>og_name := n\<rparr>))) (\<lambda>_.
     bind_io (when_some description (\<lambda>d. update_org_row i (\<lambda>r. r\<lparr>og_description := d\<rparr>))) (\<lambda>_.
     bind_io (when_some b (\<lambda>b. update_org_row i (\<lambda>r. r\<lparr>og_branding := branding_json b\<rparr>))) (\<lambda>_.
     when_some x (\<lambda>x. update_org_row i (\<lambda>r. r\<lparr>og_settings := settings_json x\<rparr>)))))"

section \<open>Members\<close>

definition add_member :: "org_env \<Rightarrow> int \<Rightarrow> string \<Rightarrow> org_role \<Rightarrow> string option \<Rightarrow> (org_db, org_member) io" where
  "add_member e i user role inviter =
     bind_io (put_member True \<lparr>om_id = 0, om_org = i, om_user = user, om_role = org_role_text role, om_by = Some (unwrap_or [] inviter),
       om_joined = oe_now e, om_status = ''active''\<rparr>) (\<lambda>_.
     ret \<lparr>member_id = 0, member_org = i, member_user = user, member_role = role, invited_by = inviter, joined_at = oe_stamp e (oe_now e),
       member_status = ActiveMember\<rparr>)"

definition remove_org_member :: "int \<Rightarrow> string \<Rightarrow> (org_db, unit) io" where
  "remove_org_member i user = exec (\<lambda>s. s\<lparr>org_members := filter (\<lambda>m. \<not> (om_org m = i \<and> om_user m = user)) (org_members s)\<rparr>)"

definition update_org_member_role :: "int \<Rightarrow> string \<Rightarrow> org_role \<Rightarrow> (org_db, unit) io" where
  "update_org_member_role i user role = exec (\<lambda>s. s\<lparr>org_members :=
     map (\<lambda>m. if om_org m = i \<and> om_user m = user then m\<lparr>om_role := org_role_text role\<rparr> else m) (org_members s)\<rparr>)"

text \<open>The join casts the identifiers of the members to numbers; one that is none fails the statement.\<close>

definition list_org_members :: "org_env \<Rightarrow> int \<Rightarrow> (org_db, json list) io" where
  "list_org_members e i =
     bind_io (stmt (\<lambda>s. let ms = filter (\<lambda>m. om_org m = i) (org_members s) in
       if list_ex (\<lambda>m. oe_bigint e (om_user m) = None) ms then Inl (Database ''invalid input syntax for type bigint'')
       else Inr (map (json_row (oe_parse e) (oe_base64 e)) [[(''id'', cell_int (om_id m)), (''user_id'', cell_text (om_user m)), (''role'', cell_text (om_role m)),
           (''joined_at'', cell_time (oe_stamp e (om_joined m))), (''status'', cell_text (om_status m)), (''email'', cell_text email)].
         m \<leftarrow> ms, (u, email) \<leftarrow> org_users s, oe_bigint e (om_user m) = Some u], s))) (\<lambda>rows.
     ret (map row_object rows))"

section \<open>Invitations\<close>

definition invite_to_org :: "org_env \<Rightarrow> int \<Rightarrow> string \<Rightarrow> org_role \<Rightarrow> string \<Rightarrow> (org_db, org_invitation) io" where
  "invite_to_org e i email role inviter =
     (let expires = oe_now e + 7 * 86400 in
      bind_io (stmt (\<lambda>s. if oe_uuid e \<in> oi_id ` set (org_invitations s) then Inl unique_violation
        else Inr ((), s\<lparr>org_invitations := org_invitations s @ [\<lparr>oi_id = oe_uuid e, oi_org = i, oi_email = email, oi_role = org_role_text role,
          oi_by = inviter, oi_token = oe_token e, oi_expires = expires, oi_accepted = None\<rparr>]\<rparr>))) (\<lambda>_.
      ret \<lparr>inv_id = oe_uuid e, inv_org = i, inv_email = email, inv_role = role, inv_by = inviter, inv_token = oe_token e,
        inv_expires = oe_stamp e expires, inv_accepted = None\<rparr>))"

text \<open>The statements of \<open>accept_invite\<close>: the invitation is looked up, it is closed, and the member is added.\<close>

definition find_invite :: "org_env \<Rightarrow> string \<Rightarrow> (org_db, int \<times> org_role) io" where
  "find_invite e token =
     bind_io (org_query e (\<lambda>s. map (\<lambda>i. [(''org_id'', cell_int (oi_org i)), (''role'', cell_text (oi_role i))])
       (filter (\<lambda>i. oi_token i = token \<and> oe_now e < oi_expires i \<and> oi_accepted i = None) (org_invitations s)))) (\<lambda>rows. case rows of
         [] \<Rightarrow> fail (NotFound ''Invalid or expired invitation'')
       | r # _ \<Rightarrow> ret (unwrap_or 0 (col_i64 r ''org_id''), org_role_of (unwrap_or ''member'' (col_str r ''role''))))"

definition close_invite :: "org_env \<Rightarrow> string \<Rightarrow> (org_db, unit) io" where
  "close_invite e token = exec (\<lambda>s. s\<lparr>org_invitations :=
     map (\<lambda>i. if oi_token i = token then i\<lparr>oi_accepted := Some (oe_now e)\<rparr> else i) (org_invitations s)\<rparr>)"

definition accept_invite :: "org_env \<Rightarrow> string \<Rightarrow> string \<Rightarrow> (org_db, int) io" where
  "accept_invite e token user =
     bind_io (find_invite e token) (\<lambda>(org, role).
     bind_io (close_invite e token) (\<lambda>_.
     bind_io (add_member e org user role None) (\<lambda>_.
     ret org)))"

section \<open>Teams of an organization\<close>

definition create_org_team :: "org_env \<Rightarrow> int \<Rightarrow> string \<Rightarrow> string \<Rightarrow> string list \<Rightarrow> (org_db, org_team) io" where
  "create_org_team e i name description members =
     bind_io (stmt (\<lambda>s. if oe_uuid e \<in> ot_id ` set (org_teams s) then Inl unique_violation
       else Inr ((), s\<lparr>org_teams := org_teams s @ [\<lparr>ot_id = oe_uuid e, ot_org = i, ot_name = name, ot_description = description,
         ot_members = JArray (map JString members)\<rparr>]\<rparr>))) (\<lambda>_.
     ret \<lparr>oteam_id = oe_uuid e, oteam_org = i, oteam_name = name, oteam_description = description, oteam_members = members\<rparr>)"

definition list_org_teams :: "org_env \<Rightarrow> int \<Rightarrow> (org_db, json list) io" where
  "list_org_teams e i =
     bind_io (org_query e (\<lambda>s. map (\<lambda>t. [(''id'', cell_text (ot_id t)), (''name'', cell_text (ot_name t)), (''description'', cell_text (ot_description t)),
         (''member_ids'', cell_jsonb (ot_members t))]) (filter (\<lambda>t. ot_org t = i) (org_teams s)))) (\<lambda>rows.
     ret (map row_object rows))"


section \<open>Settings are not read back\<close>

text \<open>The JSON a struct is written as decodes to it.\<close>

lemma org_json_round_trip:
  "branding_of (branding_json b) = Some b" "max_members x < 2 ^ 32 \<Longrightarrow> settings_of (settings_json x) = Some x"
  by (simp_all add: branding_of_def branding_json_def make_branding_def opt_string_of_def opt_string_json_def jget_def
      settings_of_def settings_json_def make_settings_def u32_of_def in_i64_def split: option.splits)

definition orgs_ok :: "org_db \<Rightarrow> bool" where
  "orgs_ok s \<longleftrightarrow> (\<forall>r \<in> set (org_rows s). (\<exists>kvs. og_branding r = JObject kvs) \<and> (\<exists>kvs. og_settings r = JObject kvs))"

lemma orgs_keep: "keeps orgs_ok (create_org e tenant name slug owner plan)" "keeps orgs_ok (update_org i n d b x)"
proof -
  have row: "keeps orgs_ok (update_org_row i f)"
    if "\<And>r. (\<exists>kvs. og_branding r = JObject kvs) \<Longrightarrow> (\<exists>kvs. og_settings r = JObject kvs) \<Longrightarrow>
      (\<exists>kvs. og_branding (f r) = JObject kvs) \<and> (\<exists>kvs. og_settings (f r) = JObject kvs)" for i f
    unfolding update_org_row_def by (intro keeps_intro) (use that in \<open>auto simp: orgs_ok_def\<close>)
  have whens: "(\<And>a. keeps P (f a)) \<Longrightarrow> keeps P (when_some y f)" for P f and y :: "'z option"
    by (auto simp: when_some_def intro: keeps_intro split: option.split)
  show "keeps orgs_ok (create_org e tenant name slug owner plan)"
    unfolding create_org_def insert_org_def put_member_def Let_def
    by (auto intro!: keeps_intro simp: orgs_ok_def branding_json_def settings_json_def split: if_splits)
  show "keeps orgs_ok (update_org i n d b x)"
    unfolding update_org_def by (intro keeps_intro whens row) (auto simp: branding_json_def settings_json_def)
qed

text \<open>
  The branding and the settings of an organization are written and never read back. They are columns of type JSONB,
  which the service reads as a string: whatever was created or updated before, each organization is returned with
  the default branding and settings, with a second factor not required.
\<close>

theorem org_settings_are_lost:
  assumes "oe_parse e [] = None"
  shows "keeps orgs_ok (create_org e1 tenant name slug owner plan) \<and> keeps orgs_ok (update_org i n d b x) \<and>
    (orgs_ok s \<longrightarrow> wp (get_org e j) (\<lambda>r s'. s' = s \<and> (\<forall>org. r = Inr org \<longrightarrow> branding org = default_branding \<and> settings org = default_settings)) s)"
proof (intro conjI orgs_keep impI)
  assume ok: "orgs_ok s"
  have lost: "branding (row_to_org e (json_row (oe_parse e) (oe_base64 e) (org_cells e r))) = default_branding \<and>
      settings (row_to_org e (json_row (oe_parse e) (oe_base64 e) (org_cells e r))) = default_settings" if "r \<in> set (org_rows s)" for r
    using ok that by (auto simp: orgs_ok_def row_to_org_def org_cells_def json_row_def col_str_def unwrap_or_def assms Let_def)
  show "wp (get_org e j) (\<lambda>r s'. s' = s \<and> (\<forall>org. r = Inr org \<longrightarrow> branding org = default_branding \<and> settings org = default_settings)) s"
    unfolding get_org_def by (intro wp_intro) (auto intro!: wp_intro simp: lost filter_eq_Cons_iff split: list.split)
qed

section \<open>Identifiers\<close>

text \<open>
  The identifier a creation returns is that of the tenant and not that of the organization. When no organization has it as its
  own, the organization just created is not found under it, and the owner is a member of no organization at all.
\<close>

theorem created_org_is_not_found:
  assumes "tenant \<notin> og_id ` set (org_rows s)" and "next_org s \<noteq> tenant"
  shows "wp (create_org e tenant name slug owner plan) (\<lambda>r s'. \<forall>org. r = Inr org \<longrightarrow>
    calm (get_org e (org_id org)) (\<lambda>r _. r = Inl (NotFound ''Organization not found'')) s' \<and>
    (\<exists>m \<in> set (org_members s'). om_user m = owner \<and> om_role m = ''owner'' \<and> om_org m \<notin> og_id ` set (org_rows s'))) s"
proof -
  have none: "calm (get_org e tenant) (\<lambda>r _. r = Inl (NotFound ''Organization not found'')) s'" if "tenant \<notin> og_id ` set (org_rows s')" for s'
  proof -
    have "filter (\<lambda>r. og_id r = tenant) (org_rows s') = []" using that by (auto simp: filter_empty_conv)
    then show ?thesis unfolding get_org_def query_def by (intro calm_intro) (auto intro!: calm_intro)
  qed
  show ?thesis
    unfolding create_org_def insert_org_def put_member_def Let_def
    using assms by (auto intro!: wp_intro simp: none split: if_splits)
qed

section \<open>Invitations work once\<close>

text \<open>
  Requests are followed statement by statement. An acceptance reads the invitation, closes it and adds the
  member; the last statement does not look at the invitation any more and is an event of its own. Further
  invitations are sent and members are added in between.
\<close>

record acceptance =
  ac_env :: org_env
  ac_token :: string
  ac_user :: string

datatype org_call =
    AddMember org_env int string org_role
  | SendInvite org_env int string org_role string

definition look_invite :: "acceptance \<Rightarrow> org_db db \<Rightarrow> (int \<times> org_role) option \<times> org_db db" where
  "look_invite c d = (case find_invite (ac_env c) (ac_token c) d of (Inl _, d') \<Rightarrow> (None, d') | (Inr h, d') \<Rightarrow> (Some h, d'))"

definition spend_invite :: "acceptance \<Rightarrow> int \<times> org_role \<Rightarrow> org_db db \<Rightarrow> bool \<times> org_db db" where
  "spend_invite c h d = (case close_invite (ac_env c) (ac_token c) d of (r, d') \<Rightarrow> (r = Inr (), d'))"

fun other_call :: "org_call \<Rightarrow> org_db db \<Rightarrow> org_db db" where
  "other_call (AddMember e i user role) d = snd (add_member e i user role None d)"
| "other_call (SendInvite e i email role inviter) d = snd (invite_to_org e i email role inviter d)"


text \<open>The program's acceptance is these statements, one after the other.\<close>

lemma accept_invite_phases:
  "accept_invite (ac_env c) (ac_token c) (ac_user c) d =
     (case find_invite (ac_env c) (ac_token c) d of
        (Inl err, d') \<Rightarrow> (Inl err, d')
      | (Inr (org, role), d') \<Rightarrow>
          (case close_invite (ac_env c) (ac_token c) d' of
             (Inl err, d'') \<Rightarrow> (Inl err, d'')
           | (Inr _, d'') \<Rightarrow>
               (case add_member (ac_env c) org (ac_user c) role None d'' of
                  (Inl err, d3) \<Rightarrow> (Inl err, d3)
                | (Inr _, d3) \<Rightarrow> (Inr org, d3))))"
  by (auto simp: accept_invite_def bind_io_def ret_def split: prod.split sum.split)









section \<open>Examples\<close>

definition demo_org_env :: org_env where
  "demo_org_env = \<lparr>oe_uuid = ''i'', oe_token = ''t'', oe_now = 5, oe_stamp = show_nat, oe_parse = (\<lambda>_. None), oe_base64 = id, oe_bigint = (\<lambda>_. None)\<rparr>"

definition demo_orgs :: org_db where
  "demo_orgs = \<lparr>org_rows = [], org_members = [], org_invitations = [\<lparr>oi_id = ''j'', oi_org = 1, oi_email = ''a'', oi_role = ''admin'', oi_by = ''b'',
     oi_token = ''tok'', oi_expires = 10, oi_accepted = None\<rparr>], org_teams = [], org_users = [], next_org = 1, next_org_member = 1\<rparr>"

theorem org_settings_are_lost_witness:
  "keeps orgs_ok (update_org 1 None None None (Some \<lparr>allow_public_signup = False, require_2fa = True, max_members = 3, allow_guest_access = False\<rparr>))"
proof -
  have "oe_parse demo_org_env [] = None" by (simp add: demo_org_env_def)
  from org_settings_are_lost [OF this] show ?thesis by blast
qed

theorem created_org_is_not_found_witness:
  "calm (get_org demo_org_env 7) (\<lambda>r _. r = Inl (NotFound ''Organization not found''))
     (st (snd (create_org demo_org_env 7 ''Acme'' ''acme'' ''u'' None (up demo_orgs))))"
proof -
  have "wp (create_org demo_org_env 7 ''Acme'' ''acme'' ''u'' None) (\<lambda>r s'. \<forall>org. r = Inr org \<longrightarrow>
    calm (get_org demo_org_env (org_id org)) (\<lambda>r _. r = Inl (NotFound ''Organization not found'')) s' \<and>
    (\<exists>m \<in> set (org_members s'). om_user m = ''u'' \<and> om_role m = ''owner'' \<and> om_org m \<notin> og_id ` set (org_rows s'))) demo_orgs"
    by (rule created_org_is_not_found) (simp_all add: demo_orgs_def)
  moreover have "fst (create_org demo_org_env 7 ''Acme'' ''acme'' ''u'' None (up demo_orgs)) =
      Inr (case fst (create_org demo_org_env 7 ''Acme'' ''acme'' ''u'' None (up demo_orgs)) of Inr x \<Rightarrow> x)"
    by (simp add: create_org_def insert_org_def put_member_def demo_orgs_def Let_def)
  moreover have "org_id (case fst (create_org demo_org_env 7 ''Acme'' ''acme'' ''u'' None (up demo_orgs)) of Inr x \<Rightarrow> x) = 7"
    by (simp add: create_org_def insert_org_def put_member_def demo_orgs_def Let_def)
  ultimately show ?thesis by (auto dest!: wp_up)
qed

definition demo_acceptance :: "string \<Rightarrow> acceptance" where
  "demo_acceptance user = \<lparr>ac_env = demo_org_env, ac_token = ''tok'', ac_user = user\<rparr>"

lemmas demo_accept_defs = demo_acceptance_def look_invite_def spend_invite_def find_invite_def close_invite_def
  demo_orgs_def demo_org_env_def

text \<open>Two users read the same invitation before either closes it: both are accepted.\<close>

theorem org_invite_race:
  "map snd (fst (run_phases look_invite spend_invite other_call
      [Reads (demo_acceptance ''u''), Reads (demo_acceptance ''v''), Spends 0, Spends 0] [] (up demo_orgs))) = [True, True]"
  by (simp add: demo_accept_defs)


end
