(* ===== verification/Spec2Isabelle.thy ===== *)
theory Spec2Isabelle imports SchemaFleet RawSql Abac AuditLog Mfa Scheduler MagicLink Workflow Entitlements Charges Documents Rbac Jobs BillingAccess Network Waf Mcp Orgs begin

text \<open>
  Stackhouse is a backend server: it stores JSON documents in PostgreSQL tables that it creates
  and widens on the fly, signs users in, authorises requests, keeps an audit trail and runs jobs
  on a schedule. This development models its core, one theory per component, and proves
  what makes each of them correct; where the code departs from what it promises the departure is
  stated and proved on a concrete run.

  \<^bold>\<open>Shared theories.\<close>
  \<^item> Prelude: named collections and lemmas on lists, maps and words.
  \<^item> RustStr: the operations of Rust's strings the code calls (trimming, splitting, joining,
    replacing, case, decimal numbers). A string is a list of characters of the first 256 code points, so
    length counts bytes for ASCII text only.
  \<^item> Regex: a matcher for the patterns the code compiles.
  \<^item> Json: the values of serde_json; a number is an integer or its textual form, an object an
    association list without repeated keys.
  \<^item> Errors: the enum of src/src/platform/error.rs with its status codes, codes and texts.
    A result is a sum, the error on the left.
  \<^item> JsonMap: the map of a JSON object and how the server orders its keys.
  \<^item> Loops: operations that may not return. They carry a bound on nested calls and iterations, answer
    None when it is used up, and have a calculus in which a claim says that they return, or what holds if
    they do.
  \<^item> OneShot: locales for tokens that work once. One is for tokens redeemed in one step (Auth: refresh
    tokens; MagicLink: links), with the fact that no run redeems one twice. The other is for requests that read
    the token by one statement and mark it by a later one, interleaved with others (Mfa: recovery codes; Orgs:
    invitations): once it is marked every request that starts afterwards is refused, and only those already
    under way can still go through.

  \<^bold>\<open>The database.\<close> Store models src/src/platform/db.rs: the conversion of placeholders, batches
  of statements, SQL parameters, and the reading of rows into JSON. The tables are records of lists
  of rows; an operation is a value of the language of effects (query, statement, return, bind)
  which runs against a state and a schedule of outages, one flag for every access, so that
  each claim holds for every pattern of database failures. A failed access leaves the tables as
  they were and ends the operation with an error, since the code opens no transaction around
  several statements. The calculus of that theory (what an operation keeps, what it returns) carries
  the proofs of the components above it. Calm adds the total counterpart: when no access fails,
  the operation ends with a result and a state that satisfy a predicate.

  \<^bold>\<open>The components.\<close>
  \<^item> Inference (src/src/inference.rs): column types from JSON values, the lattice of promotions.
    A locale states what joining types needs; it is interpreted on the code's join.
  \<^item> Identifiers, SchemaGuard, SchemaEvolution (src/src/security/guard.rs): the lexical checks on names
    and expressions, the cache of schemas, table creation, the comparison of a table with an
    inferred schema, the type changes and their churn limit, insertion of documents. The lemmas
    show which columns a table can have, that evolution only widens, that a failed step leaves
    what was there. They are about tables whose names PostgreSQL does not fold to others (lower case, at most 63
    characters); what happens to a table such as Users is a lemma of its own.
  \<^item> SchemaFleet: any number of instances of the guard on one database, each with its cache, in any order and with
    any failures. What an instance answers from its cache stays right for the shared tables.
  \<^item> Migrations (src/src/db/schema_migrations.rs): registration, running and rolling back
    versions, with the history and the checksums. The lemmas compare the loop with a reference
    that runs the pending versions in order.
  \<^item> RawSql (src/src/api/handlers.rs): the checks a raw statement passes before it is sent.
  \<^item> Abac (src/src/security/abac.rs): policies, conditions with CIDR blocks, the decision, and the
    table of policies. The lemmas show that a denial overrides and that the order does not matter.
  \<^item> AuditLog (src/src/platform/audit_log.rs): the hash chain, appends also when they interleave,
    queries and the integrity check. A locale for a chained log is interpreted on it.
  \<^item> Mfa (src/src/auth/mfa.rs): enrolment, verification with its counter and lockout, recovery
    codes.
  \<^item> Scheduler (src/src/platform/scheduler.rs): the parser and the matcher of cron expressions, the jobs in
    memory and in the database, one tick and the execution of a job.
  \<^item> Auth (src/src/auth/mod.rs, src/src/security/authorization.rs): accounts, sessions, the blacklist
    of access tokens, the handlers with their checks, the service administrators.
  \<^item> MagicLink (src/src/auth/magic_link.rs): requests with their rate limit, links that work once, and clean-up. Its
    tables extend the record of Auth, as its service calls that one.
  \<^item> Workflow (src/src/compute/workflows.rs): definitions and runs of workflows, the loop over the ready
    steps, every kind of step with its calls, parallel groups and sub-workflows, cancellation. A locale for an
    invariant of the engine is interpreted three times. The calls of JavaScript and HTTP are parameters that may not
    return. The lemmas show that the loop ends when they do and nobody cancels the run, that it starts a step only
    after its dependencies (the children of a parallel group are started by the group instead), and why it never
    ends after a cancellation.
  \<^item> Entitlements (src/src/billing/entitlements.rs, experiments.rs and the types of models.rs): the best
    subscription for an entitlement, compared with a rank, and the variant of a customer.
  \<^item> Plans (src/src/billing/subscription_plans.rs, entitlement_engine.rs): plans, subscriptions and their
    proration (a change of plans stores exactly the price of the unused days), the engine that answers whether a feature is granted.
  \<^item> Charges (src/src/billing/dunning.rs, invoices.rs, trials.rs, metering.rs): retries of payments, invoices
    and their numbers, promotional codes, metered usage. What the server makes of a text bound to a column of
    another type is a parameter, and one claim is about the conversions PostgreSQL does not have.
  \<^item> Purchases (src/src/billing/validators.rs, audiences.rs): receipts of Apple and Google, signed notifications,
    the signatures and events of Stripe, and the rules of audiences. Certificates, signatures, clients and
    doubles are parameters. The lemmas say exactly which messages of Stripe are accepted, and which chains
    of certificates pass although they should not.
  \<^item> BillingStore (src/src/billing/schema.rs, models.rs, store.rs): the tables of the module and each operation
    of its store. A locale for the upsert of a table with a key is interpreted for nine tables. The statements that
    write are the steps of a relation, so requests interleave between their statements; every operation is a sequence
    of such steps. An invariant of the keys holds in every reachable state, that an app has one current
    offering does not, and other lemmas follow a purchase and a variant.
  \<^item> BillingApi, BillingAccess (src/src/billing/handlers.rs, routes.rs, state.rs, webhooks.rs): the handlers over the
    store and the accounts, the events for the customer's endpoints, the router. The lemmas show who can do
    what, with the calculus of Calm for calls that succeed.

  \<^item> Server (src/src/platform/db.rs): statements that the program composes itself are sent as texts to a
    server, a parameter, with their parameters; the second half is about placeholders and quoted literals.
  \<^item> Rls (src/src/security/rls.rs): row-level security. The lemmas show which statements its requests send
    and that the claims of a token are quoted so that they are read back.
  \<^item> Documents (src/src/api/handlers.rs, routes.rs, admin.rs, src/src/data_processing/mod.rs): the document
    interface over the guard, the accounts and the server, with the audit of administrators and the datasets. The
    lemmas show which statements its requests send for documents (eight templates, the list of tables, the claims of
    the caller), who can send a raw statement, how a bound parameter fits its column, and that the system's own
    tables can be written as collections.
  \<^item> Rbac (src/src/auth/rbac.rs): roles, their cache and inheritance, assignments, the decision. The lemmas compare
    the bounded recursion with reachability and show why roles have no effect.
  \<^item> Jobs (src/src/compute/jobs.rs): the queue of background jobs. The accesses of the worker to the table are
    also the steps of a relation in which several workers, requests, crashes and failures interleave; its
    invariant gives that a job runs once at a time, and which jobs nobody touches again.
  \<^item> Network (src/src/security/network.rs, private_network.rs, egress.rs): the list of addresses with its middleware
    and routes, the private networks of tenants, the domains their functions may call. The lemmas say which
    addresses a block admits, who can change the list, that switching it on can shut out everybody, and why endpoints
    and egress rules do nothing.
  \<^item> Waf (src/src/security/waf.rs, bot_protection.rs): the firewall with its buckets and reputations, the lockouts
    of addresses. The lemmas compare a firewall that lasts with the one the middleware makes for each request, and
    follow a lockout through the clean-up.
  \<^item> ApiKeys, Mcp (src/src/auth/api_keys.rs, src/src/api/mcp_server.rs): keys with scopes, their validation, revocation
    and rotation, and the interface for coding assistants that asks for them. The lemmas show that a revoked key is
    still accepted, that no validation finds a scope, and so which statements that interface sends for whom: selections,
    and the time of the last use of a key that is presented for a tool that writes.
  \<^item> Teams, Orgs (src/src/teams.rs, src/src/teams/orgs.rs): members, roles and invitations of teams and organizations. The
    lemmas are about the last owner, also when removals interleave, the members a team can have when only the routes
    of teams write its tables, and invitations that work once (OneShot).

  \<^bold>\<open>Conventions.\<close> Machine integers wrap as in a release build where the source relies on the
  width (the values of cron fields, CIDR masks). A loop that may run for ever is a partial function
  into options, where not returning is the value None: the step of a cron field is one, and a step of
  zero never returns. The engine of workflows carries a bound instead (theory Loops): for a run of n steps whose groups and
  sub-workflows are nested k deep n + k + 4 is enough, and that it returns is proved for that bound. The clock, random numbers, hashes,
  ciphers, the JWT and TOTP crates and the mail server are parameters of the definitions that call
  them, gathered in a record named after the component; what a claim needs of them (that a hash has
  no collision, that a generated token is fresh) is a premise of that claim, and its witness gives a concrete
  instance. The dash that separates two parts of a session's description in the source is
  a hyphen here.

  \<^bold>\<open>Not modelled.\<close> The HTTP routing, the logging and the JSON envelopes around a result are
  left out of every component. The
  token bucket of the authentication routes computes with doubles. The components of the repository
  that have no theory yet are listed with the reason in the manifest: the file
  stores, the tax and payment providers of the billing module, the realtime channels, the functions, the
  single sign-on protocols, the analytics and dashboards that only run queries, the command line and the
  generators of clients.
\<close>

end
